(* ===== verification/Prelude.thy ===== *)
theory Prelude
  imports Main "HOL-Library.Word" "HOL-Library.Multiset" "HOL-Library.Char_ord" "HOL-Library.List_Lexorder"
begin

text \<open>
  Shared vocabulary of the development: Go's 64-bit integers and truncated division,
  instants and durations of package \<open>time\<close>, results of fallible operations, and the
  comparison sorts of package \<open>sort\<close>. Nothing here is specific to one component.

  \<^item> An \<open>int64\<close> (and Go's \<open>int\<close>, 64 bits wide on the deployed platform) is an \<open>int\<close>
    whose arithmetic goes through \<open>i64\<close>, the wrap-around to two's complement.
  \<^item> A \<open>time.Time\<close> is the number of nanoseconds since Go's zero time (1 January of year 1,
    00:00 UTC), so \<open>IsZero\<close> is equality with 0, and a \<open>time.Duration\<close> is an \<open>int64\<close> of
    nanoseconds.
  \<^item> A \<open>float64\<close> is the rational number it denotes (theory \<open>Float64\<close>).
\<close>

named_theorems resource_simps \<open>facts that evaluate resource and cost tables\<close>
named_theorems store_simps \<open>frame facts of the store operations\<close>

section \<open>Results\<close>

type_synonym ('e, 'a) result = "'e + 'a"

fun is_ok :: "('e, 'a) result \<Rightarrow> bool" where
  "is_ok (Inl _) = False"
| "is_ok (Inr _) = True"

text \<open>\<open>if err != nil { return err }\<close> after a fallible step.\<close>

definition andThen :: "('e, 'a) result \<Rightarrow> ('a \<Rightarrow> ('e, 'b) result) \<Rightarrow> ('e, 'b) result" where
  "andThen m f = (case m of Inl e \<Rightarrow> Inl e | Inr x \<Rightarrow> f x)"

lemma andThen_simps [simp]: "andThen (Inl e) f = Inl e" "andThen (Inr x) f = f x"
  by (simp_all add: andThen_def)

lemma andThen_Inr: "andThen m f = Inr y \<longleftrightarrow> (\<exists>x. m = Inr x \<and> f x = Inr y)"
  by (cases m) auto

lemma andThen_cong [fundef_cong]: "m = m' \<Longrightarrow> (\<And>x. m' = Inr x \<Longrightarrow> f x = g x) \<Longrightarrow> andThen m f = andThen m' g"
  by (cases m') auto

section \<open>64-bit integers\<close>

definition i64 :: "int \<Rightarrow> int" where
  "i64 x = (x + 2 ^ 63) mod 2 ^ 64 - 2 ^ 63"

definition in_i64 :: "int \<Rightarrow> bool" where
  "in_i64 x \<longleftrightarrow> - (2 ^ 63) \<le> x \<and> x < 2 ^ 63"

lemma i64_id [simp]: "in_i64 x \<Longrightarrow> i64 x = x"
  by (simp add: i64_def in_i64_def)

lemma i64_id_bounds: "- 9223372036854775808 \<le> x \<Longrightarrow> x < 9223372036854775808 \<Longrightarrow> i64 x = x"
  by (simp add: in_i64_def)

lemma in_i64_i64 [simp]: "in_i64 (i64 x)"
proof -
  have "0 \<le> (x + 2 ^ 63) mod 2 ^ 64" "(x + 2 ^ 63) mod 2 ^ 64 < 2 ^ 64" by simp_all
  then show ?thesis by (simp add: in_i64_def i64_def)
qed

lemma i64_is_word: "i64 x = sint (word_of_int x :: 64 word)"
proof -
  have "sint (word_of_int x :: 64 word) = signed_take_bit 63 x"
    by (simp add: signed_of_int)
  also have "\<dots> = (x + 2 ^ 63) mod 2 ^ 64 - 2 ^ 63"
    by (simp add: signed_take_bit_eq_take_bit_shift take_bit_eq_mod)
  finally show ?thesis by (simp add: i64_def)
qed

lemma i64_0 [simp]: "i64 0 = 0"
  by (simp add: in_i64_def)

text \<open>Go's integer division truncates towards zero, and so does \<open>big.Int.Quo\<close>.\<close>

definition quo :: "int \<Rightarrow> int \<Rightarrow> int" where
  "quo a b = sgn a * sgn b * (\<bar>a\<bar> div \<bar>b\<bar>)"

lemma quo_nonneg: "0 \<le> a \<Longrightarrow> 0 < b \<Longrightarrow> quo a b = a div b"
  by (cases "a = 0") (auto simp: quo_def)

lemma quo_0 [simp]: "quo 0 b = 0"
  by (simp add: quo_def)

lemma quo_minus: "quo (- a) b = - quo a b"
  by (simp add: quo_def)

lemma quo_abs_le: "0 < b \<Longrightarrow> \<bar>quo a b\<bar> \<le> \<bar>a\<bar> div b"
  by (cases "a = 0") (auto simp: quo_def abs_mult pos_imp_zdiv_nonneg_iff)

lemma quo_mono:
  assumes "a \<le> a'" and "0 < b"
  shows "quo a b \<le> quo a' b"
proof -
  consider "0 \<le> a" | "a < 0" "0 \<le> a'" | "a < 0" "a' < 0" by linarith
  then show ?thesis
  proof cases
    case 1
    with assms show ?thesis by (simp add: quo_nonneg zdiv_mono1)
  next
    case 2
    have "quo (- a) b = (- a) div b" "quo a' b = a' div b"
      using 2 assms by (simp_all add: quo_nonneg)
    moreover have "0 \<le> (- a) div b" "0 \<le> a' div b"
      using 2 assms by (simp_all add: pos_imp_zdiv_nonneg_iff)
    ultimately show ?thesis by (simp add: quo_minus)
  next
    case 3
    then have "quo (- a) b = (- a) div b" "quo (- a') b = (- a') div b"
      using assms by (simp_all add: quo_nonneg)
    moreover have "(- a') div b \<le> (- a) div b"
      using assms by (simp add: zdiv_mono1)
    ultimately show ?thesis by (simp add: quo_minus)
  qed
qed

text \<open>
  \<open>mulDiv\<close> of the optimizer and the portfolio: the product is formed in a \<open>big.Int\<close>, so
  only the final conversion \<open>Int64()\<close> can wrap.
\<close>

definition mulDiv :: "int \<Rightarrow> int \<Rightarrow> int \<Rightarrow> int" where
  "mulDiv a b d = i64 (quo (a * b) d)"

lemma mulDiv_0 [simp]: "mulDiv a 0 d = 0" "mulDiv 0 b d = 0"
  by (simp_all add: mulDiv_def)

lemma mulDiv_scale:
  assumes "0 \<le> b" "b \<le> d" "0 < d" "in_i64 a"
  shows "mulDiv a b d = quo (a * b) d" and "\<bar>mulDiv a b d\<bar> \<le> \<bar>a\<bar>"
proof -
  have "\<bar>quo (a * b) d\<bar> \<le> \<bar>a * b\<bar> div d"
    using assms quo_abs_le by blast
  also have "\<dots> \<le> (\<bar>a\<bar> * d) div d"
    using assms by (intro zdiv_mono1) (auto simp: abs_mult mult_left_mono)
  finally have le: "\<bar>quo (a * b) d\<bar> \<le> \<bar>a\<bar>" using assms by simp
  have "in_i64 (quo (a * b) d)"
  proof (cases "0 \<le> a")
    case True
    with le assms show ?thesis unfolding in_i64_def by linarith
  next
    case False
    have "quo (a * b) d \<le> 0"
      using quo_mono [of "a * b" 0 d] False assms by (simp add: mult_nonpos_nonneg)
    with le assms False show ?thesis unfolding in_i64_def by linarith
  qed
  then show "mulDiv a b d = quo (a * b) d" by (simp add: mulDiv_def)
  with le show "\<bar>mulDiv a b d\<bar> \<le> \<bar>a\<bar>" by simp
qed

lemma mulDiv_nonneg:
  assumes "0 \<le> b" "b \<le> d" "0 < d" "in_i64 a" "0 \<le> a"
  shows "0 \<le> mulDiv a b d" and "mulDiv a b d \<le> a"
  using mulDiv_scale [of b d a] assms by (simp_all add: quo_nonneg pos_imp_zdiv_nonneg_iff)

lemma mulDiv_abs_le:
  assumes "\<bar>b\<bar> \<le> d" "0 < d" "\<bar>a\<bar> < 2 ^ 63"
  shows "\<bar>mulDiv a b d\<bar> \<le> \<bar>a\<bar>"
proof -
  have "\<bar>quo (a * b) d\<bar> \<le> \<bar>a * b\<bar> div d" using assms(2) by (rule quo_abs_le)
  also have "\<dots> \<le> (\<bar>a\<bar> * d) div d"
    using assms(1,2) by (intro zdiv_mono1) (auto simp: abs_mult intro: mult_left_mono)
  also have "\<dots> = \<bar>a\<bar>" using assms(2) by simp
  finally have l: "\<bar>quo (a * b) d\<bar> \<le> \<bar>a\<bar>" .
  then have "in_i64 (quo (a * b) d)" using assms(3) unfolding in_i64_def by linarith
  then show ?thesis using l by (simp add: mulDiv_def)
qed

section \<open>Instants and durations\<close>

type_synonym time = int
type_synonym duration = int

abbreviation IsZero :: "time \<Rightarrow> bool" where
  "IsZero t \<equiv> t = 0"

definition Second :: duration where "Second = 1000000000"
definition Minute :: duration where "Minute = 60000000000"
definition Hour :: duration where "Hour = 3600000000000"

text \<open>\<open>Time.Sub\<close> saturates at the smallest and largest duration.\<close>

definition Sub :: "time \<Rightarrow> time \<Rightarrow> duration" where
  "Sub t u = max (- (2 ^ 63)) (min (2 ^ 63 - 1) (t - u))"

lemma Sub_le_iff: "- (2 ^ 63) \<le> d \<Longrightarrow> d < 2 ^ 63 - 1 \<Longrightarrow> Sub t u \<le> d \<longleftrightarrow> t - u \<le> d"
  by (auto simp: Sub_def)

text \<open>The minute of the day of an instant, at a given UTC offset in seconds.\<close>

definition minute_of_day :: "time \<Rightarrow> int \<Rightarrow> int" where
  "minute_of_day t off = ((t + off * 1000000000) div Minute) mod 1440"

lemma minute_of_day_range: "0 \<le> minute_of_day t off" "minute_of_day t off < 1440"
  by (simp_all add: minute_of_day_def)

section \<open>Comparison sorts\<close>

text \<open>
  \<open>sort.SliceStable(xs, lt)\<close> is insertion sort with the same comparator: an element is
  moved left past those it is less than, and never past an equivalent one. For a comparator
  that is a strict weak order there is only one stable sorted result, so the algorithm the
  library uses does not matter. \<open>sort.Slice\<close> need not be stable; where the comparator is
  total on the elements (no two are equivalent) the sorted permutation is unique and both
  sorts return it.
\<close>

fun insert_by :: "('a \<Rightarrow> 'a \<Rightarrow> bool) \<Rightarrow> 'a \<Rightarrow> 'a list \<Rightarrow> 'a list" where
  "insert_by lt x [] = [x]"
| "insert_by lt x (y # ys) = (if lt y x then y # insert_by lt x ys else x # y # ys)"

fun sort_by :: "('a \<Rightarrow> 'a \<Rightarrow> bool) \<Rightarrow> 'a list \<Rightarrow> 'a list" where
  "sort_by lt [] = []"
| "sort_by lt (x # xs) = insert_by lt x (sort_by lt xs)"

lemma mset_insert_by [simp]: "mset (insert_by lt x xs) = add_mset x (mset xs)"
  by (induction xs) auto

lemma mset_sort_by [simp]: "mset (sort_by lt xs) = mset xs"
  by (induction xs) auto

lemma set_insert_by [simp]: "set (insert_by lt x xs) = insert x (set xs)"
  by (metis mset_insert_by set_mset_add_mset_insert set_mset_mset)

lemma set_sort_by [simp]: "set (sort_by lt xs) = set xs"
  by (metis mset_sort_by set_mset_mset)

lemma length_sort_by [simp]: "length (sort_by lt xs) = length xs"
  by (metis mset_sort_by size_mset)

lemma distinct_sort_by [simp]: "distinct (sort_by lt xs) = distinct xs"
  by (metis mset_sort_by mset_eq_imp_distinct_iff)

text \<open>The result never orders a later element strictly before an earlier one.\<close>

abbreviation ordered :: "('a \<Rightarrow> 'a \<Rightarrow> bool) \<Rightarrow> 'a list \<Rightarrow> bool" where
  "ordered lt xs \<equiv> sorted_wrt (\<lambda>x y. \<not> lt y x) xs"

locale weak_order =
  fixes A :: "'a set" and lt :: "'a \<Rightarrow> 'a \<Rightarrow> bool"
  assumes asym: "a \<in> A \<Longrightarrow> b \<in> A \<Longrightarrow> lt a b \<Longrightarrow> \<not> lt b a"
    and negtrans: "a \<in> A \<Longrightarrow> b \<in> A \<Longrightarrow> c \<in> A \<Longrightarrow> \<not> lt a b \<Longrightarrow> \<not> lt b c \<Longrightarrow> \<not> lt a c"
begin

lemma ordered_insert_by:
  "set xs \<subseteq> A \<Longrightarrow> x \<in> A \<Longrightarrow> ordered lt xs \<Longrightarrow> ordered lt (insert_by lt x xs)"
proof (induction xs)
  case Nil
  then show ?case by simp
next
  case (Cons y ys)
  show ?case
  proof (cases "lt y x")
    case True
    with Cons asym [of y x] show ?thesis by auto
  next
    case False
    have "\<not> lt z x" if "z \<in> set ys" for z
      using that Cons.prems False negtrans [of z y x] by auto
    with False Cons.prems show ?thesis by auto
  qed
qed

lemma ordered_sort_by: "set xs \<subseteq> A \<Longrightarrow> ordered lt (sort_by lt xs)"
  by (induction xs) (auto intro!: ordered_insert_by)

lemma head_least:
  assumes "set xs \<subseteq> A" and "sort_by lt xs = y # ys" and "z \<in> set xs"
  shows "\<not> lt z y"
proof (cases "z = y")
  case True
  then show ?thesis using assms asym [of y y] by (metis subsetD)
next
  case False
  have "z \<in> set (y # ys)" using assms(2,3) set_sort_by [of lt xs] by simp
  moreover have "ordered lt (y # ys)" using ordered_sort_by [OF assms(1)] assms(2) by simp
  ultimately show ?thesis using False by auto
qed

end

locale strict_order = weak_order +
  assumes total: "a \<in> A \<Longrightarrow> b \<in> A \<Longrightarrow> a \<noteq> b \<Longrightarrow> lt a b \<or> lt b a"
begin

lemma ordered_unique:
  "set xs \<subseteq> A \<Longrightarrow> ordered lt xs \<Longrightarrow> ordered lt ys \<Longrightarrow> mset xs = mset ys \<Longrightarrow> xs = ys"
proof (induction xs arbitrary: ys)
  case Nil
  then show ?case by simp
next
  case (Cons x xs)
  then obtain y ys' where ys: "ys = y # ys'" by (cases ys) auto
  have same: "set (x # xs) = set ys" using Cons.prems(4) by (metis set_mset_mset)
  have "x = y"
  proof (rule ccontr)
    assume ne: "x \<noteq> y"
    with same ys have "y \<in> set xs" "x \<in> set ys'" by auto
    with Cons.prems ys have "\<not> lt y x" "\<not> lt x y" by auto
    moreover have "x \<in> A" "y \<in> A" using Cons.prems(1) \<open>y \<in> set xs\<close> by auto
    ultimately show False using total ne by blast
  qed
  with Cons ys show ?case by auto
qed

text \<open>Any way of sorting gives the list \<open>sort_by\<close> gives, from any arrangement of it.\<close>

lemma sort_by_unique:
  assumes "set xs \<subseteq> A" and "mset ys = mset xs" and "ordered lt ys"
  shows "ys = sort_by lt xs"
proof (rule ordered_unique)
  have "set ys = set xs" using assms(2) by (metis set_mset_mset)
  then show "set ys \<subseteq> A" using assms(1) by simp
qed (use assms ordered_sort_by in auto)

lemma sort_by_perm:
  assumes "set xs \<subseteq> A" and "mset ys = mset xs"
  shows "sort_by lt ys = sort_by lt xs"
proof (rule sort_by_unique)
  have "set ys = set xs" using assms(2) by (metis set_mset_mset)
  then show "ordered lt (sort_by lt ys)" using ordered_sort_by assms(1) by simp
qed (use assms in auto)

end

end
