(* ===== verification/Float64.thy ===== *)
theory Float64
  imports Prelude "HOL-Library.Log_Nat" Complex_Main
begin

text \<open>
  Go's \<open>float64\<close>. A finite binary64 value is modelled by the rational number it denotes,
  and every arithmetic operation of the source is the exact rational operation followed by
  \<open>fl\<close>, rounding to the nearest multiple of the unit in the last place with ties to even
  (53 significant bits, subnormals below \<open>2 powi (-1022)\<close>). Overflow to an infinity and
  NaN are outside the model: every value the code computes with is a probability, a score
  in \<open>[0, 1]\<close>, a number of basis points or a number of hours, decoded from JSON (which has
  no NaN) or from a column with a range check. Comparisons are exact.
\<close>

type_synonym float64 = rat

definition ilog2 :: "rat \<Rightarrow> int" where
  "ilog2 x = (case quotient_of x of (n, d) \<Rightarrow>
     let k = bitlen n - bitlen d
     in if 2 powi k \<le> x then k else k - 1)"

text \<open>Round a rational to an integer, ties to even.\<close>

definition rne :: "rat \<Rightarrow> int" where
  "rne y = (let f = \<lfloor>y\<rfloor>; r = y - of_int f in
     if r < 1 / 2 then f else if 1 / 2 < r then f + 1 else if even f then f else f + 1)"

definition ulp :: "rat \<Rightarrow> rat" where
  "ulp x = 2 powi (max (ilog2 \<bar>x\<bar> - 52) (- 1074))"

definition fl :: "rat \<Rightarrow> float64" where
  "fl x = (if x = 0 then 0 else of_int (rne (x / ulp x)) * ulp x)"

definition fadd :: "float64 \<Rightarrow> float64 \<Rightarrow> float64" where "fadd x y = fl (x + y)"
definition fsub :: "float64 \<Rightarrow> float64 \<Rightarrow> float64" where "fsub x y = fl (x - y)"
definition fmul :: "float64 \<Rightarrow> float64 \<Rightarrow> float64" where "fmul x y = fl (x * y)"
definition fdiv :: "float64 \<Rightarrow> float64 \<Rightarrow> float64" where "fdiv x y = fl (x / y)"

text \<open>\<open>float64(n)\<close> of an integer.\<close>

definition float_of :: "int \<Rightarrow> float64" where "float_of n = fl (of_int n)"

text \<open>\<open>math.Round\<close>: half away from zero, exact on the doubles.\<close>

definition math_Round :: "float64 \<Rightarrow> float64" where
  "math_Round x = (if 0 \<le> x then of_int \<lfloor>x + 1 / 2\<rfloor> else - of_int \<lfloor>- x + 1 / 2\<rfloor>)"

text \<open>
  \<open>int64(f)\<close> truncates; out of range the result is what amd64's conversion instruction
  returns.
\<close>

definition trunc_rat :: "rat \<Rightarrow> int" where
  "trunc_rat x = (if 0 \<le> x then \<lfloor>x\<rfloor> else - \<lfloor>- x\<rfloor>)"

definition int64_of :: "float64 \<Rightarrow> int" where
  "int64_of x = (if in_i64 (trunc_rat x) then trunc_rat x else - (2 ^ 63))"

text \<open>\<open>Duration.Hours\<close>: whole hours plus the rest, in floating point.\<close>

definition duration_Hours :: "duration \<Rightarrow> float64" where
  "duration_Hours d = fadd (float_of (quo d Hour)) (fdiv (float_of (d - quo d Hour * Hour)) (float_of Hour))"

text \<open>\<open>Duration.Seconds\<close> and \<open>Duration.Minutes\<close> likewise.\<close>

definition duration_Seconds :: "duration \<Rightarrow> float64" where
  "duration_Seconds d = fadd (float_of (quo d Second)) (fdiv (float_of (d - quo d Second * Second)) (float_of Second))"

definition duration_Minutes :: "duration \<Rightarrow> float64" where
  "duration_Minutes d = fadd (float_of (quo d Minute)) (fdiv (float_of (d - quo d Minute * Minute)) (float_of Minute))"

lemma in_i64_int64_of [simp]: "in_i64 (int64_of x)"
  by (simp add: int64_of_def in_i64_def)

section \<open>Rounding\<close>

lemma ulp_pos [simp]: "0 < ulp x"
  by (simp add: ulp_def)

lemma fl_0 [simp]: "fl 0 = 0"
  by (simp add: fl_def)

lemma rne_near: "of_int (rne y) \<le> y + 1 / 2" "y - 1 / 2 \<le> of_int (rne y)"
  unfolding rne_def Let_def by (simp_all, linarith+)

lemma rne_ge: "of_int a \<le> y \<Longrightarrow> a \<le> rne y"
proof -
  assume "of_int a \<le> y"
  then have "a \<le> \<lfloor>y\<rfloor>" by (simp add: le_floor_iff)
  moreover have "\<lfloor>y\<rfloor> \<le> rne y" by (simp add: rne_def Let_def)
  ultimately show ?thesis by linarith
qed

lemma rne_le: "y \<le> of_int b \<Longrightarrow> rne y \<le> b"
proof -
  assume "y \<le> of_int b"
  then have "of_int (rne y) < (of_int (b + 1) :: rat)"
    using rne_near(1) [of y] by simp
  then show ?thesis by (simp only: of_int_less_iff)
qed

lemma fl_nonneg: "0 \<le> x \<Longrightarrow> 0 \<le> fl x"
proof -
  assume "0 \<le> x"
  then have "0 \<le> rne (x / ulp x)" by (intro rne_ge) (simp add: less_imp_le)
  then show ?thesis by (simp add: fl_def less_imp_le)
qed

lemma fl_nonpos: "x \<le> 0 \<Longrightarrow> fl x \<le> 0"
proof -
  assume "x \<le> 0"
  then have "rne (x / ulp x) \<le> 0" by (intro rne_le) (simp add: divide_nonpos_pos)
  then show ?thesis by (simp add: fl_def less_imp_le mult_le_0_iff)
qed

text \<open>The exponent is the right one.\<close>

lemma ilog2_le:
  assumes "0 < x" shows "2 powi (ilog2 x) \<le> x"
proof -
  obtain n d where q: "quotient_of x = (n, d)" by fastforce
  have d: "0 < d" using q quotient_of_denom_pos by blast
  have x: "x = of_int n / of_int d" using q quotient_of_div by blast
  then have n: "0 < n" using assms d by (simp add: zero_less_divide_iff)
  define k where "k = bitlen n - bitlen d"
  have bn: "0 < bitlen n" "0 < bitlen d" using n d
    by (auto simp: bitlen_def order_less_le floorlog_eq_zero_iff)
  have k_eq: "ilog2 x = (if 2 powi k \<le> x then k else k - 1)"
    using bn by (simp add: ilog2_def q k_def)
  have lo: "(2::rat) powi (bitlen n - 1) \<le> of_int n"
  proof -
    have "2 ^ nat (bitlen n - 1) \<le> n" using bitlen_bounds [of n] n by simp
    then have "(2::rat) ^ nat (bitlen n - 1) \<le> of_int n"
      by (metis of_int_le_iff of_int_numeral of_int_power)
    then show ?thesis using bn by (simp add: power_int_def)
  qed
  have hi: "of_int d < (2::rat) powi (bitlen d)"
  proof -
    have "d < 2 ^ nat (bitlen d)" using bitlen_bounds [of d] d by simp
    then have "of_int d < (2::rat) ^ nat (bitlen d)"
      by (metis of_int_less_iff of_int_numeral of_int_power)
    then show ?thesis using bn by (simp add: power_int_def)
  qed
  have "(2::rat) powi (k - 1) * of_int d \<le> 2 powi (k - 1) * 2 powi (bitlen d)"
    using hi by simp
  also have "\<dots> = 2 powi (bitlen n - 1)"
    by (simp add: k_def flip: power_int_add)
  also have "\<dots> \<le> of_int n" by (rule lo)
  finally have "(2::rat) powi (k - 1) \<le> x" using d by (simp add: x pos_le_divide_eq)
  then show ?thesis by (simp add: k_eq)
qed

text \<open>Integers up to \<open>2 ^ 52\<close> are doubles.\<close>

lemma ulp_reciprocal:
  assumes "\<bar>x\<bar> \<le> of_int m" and "m \<le> 2 ^ 52" and "x \<noteq> 0"
  shows "\<exists>s::int. 0 < s \<and> of_int s * ulp x = (1 :: rat)"
proof -
  define e where "e = max (ilog2 \<bar>x\<bar> - 52) (- 1074)"
  have "2 powi (ilog2 \<bar>x\<bar>) \<le> \<bar>x\<bar>" using assms(3) ilog2_le [of "\<bar>x\<bar>"] by simp
  also have "\<dots> \<le> of_int m" by (rule assms(1))
  also have "\<dots> \<le> of_int (2 ^ 52)" by (simp only: of_int_le_iff assms(2))
  also have "\<dots> = (2::rat) powi 52" by simp
  finally have "ilog2 \<bar>x\<bar> \<le> 52" using power_int_le_imp_le_exp [of "2::rat"] by fastforce
  then have e: "e \<le> 0" by (simp add: e_def)
  have u: "ulp x = 2 powi e" by (simp add: ulp_def e_def)
  have "(of_int (2 ^ nat (- e)) :: rat) * ulp x = 1"
    using e by (simp add: u power_int_def field_simps)
  then show ?thesis by (intro exI [of _ "2 ^ nat (- e)"]) simp
qed

lemma rne_of_int [simp]: "rne (of_int k) = k"
  by (simp add: rne_def)

lemma float_of_exact:
  assumes "\<bar>n\<bar> \<le> 2 ^ 52"
  shows "float_of n = of_int n"
proof (cases "n = 0")
  case False
  have "\<bar>of_int n :: rat\<bar> \<le> of_int \<bar>n\<bar>" by simp
  then obtain s :: int where s: "0 < s" "of_int s * ulp (of_int n) = 1"
    using ulp_reciprocal [of "of_int n" "\<bar>n\<bar>"] assms False by auto
  have "of_int n / ulp (of_int n) = of_int n * (of_int s * ulp (of_int n)) / ulp (of_int n)" by (simp only: s mult_1_right)
  then have "of_int n / ulp (of_int n) = of_int (n * s)" using ulp_pos [of "of_int n"] by simp
  then have "fl (of_int n) = of_int (n * s) * ulp (of_int n)" using False by (simp only: fl_def rne_of_int) simp
  then show ?thesis using s(2) by (simp add: float_of_def mult.assoc)
qed (simp add: float_of_def)

text \<open>
  A rounded value never leaves an interval with integral ends below \<open>2 ^ 52\<close>: this is what
  bounds the uplift, the gross value and the basis points computed from probabilities.
\<close>

lemma fl_abs_le_int:
  assumes "\<bar>x\<bar> \<le> of_int m" and "m \<le> 2 ^ 52"
  shows "\<bar>fl x\<bar> \<le> of_int m"
proof (cases "x = 0")
  case False
  obtain s :: int where s0: "0 < s" and s: "of_int s * ulp x = 1"
    using ulp_reciprocal [OF assms False] by blast
  have b: "of_int (- (m * s)) \<le> x / ulp x" "x / ulp x \<le> of_int (m * s)"
  proof -
    have "x / ulp x = x * (of_int s * ulp x) / ulp x" by (simp only: s mult_1_right)
    then have "x / ulp x = x * of_int s" using ulp_pos [of x] by simp
    moreover have "\<bar>x * of_int s\<bar> \<le> of_int (m * s)"
      using assms(1) by (simp add: abs_mult abs_of_pos [OF s0 [folded of_int_0_less_iff [where ?'a = rat]]] s0 mult_right_mono)
    ultimately show "of_int (- (m * s)) \<le> x / ulp x" "x / ulp x \<le> of_int (m * s)"
      by (simp_all add: abs_le_iff)
  qed
  have "\<bar>rne (x / ulp x)\<bar> \<le> m * s"
    using rne_ge [OF b(1)] rne_le [OF b(2)] by linarith
  then have "\<bar>of_int (rne (x / ulp x))\<bar> \<le> (of_int (m * s) :: rat)"
    by (metis of_int_abs of_int_le_iff)
  then have "\<bar>of_int (rne (x / ulp x))\<bar> * ulp x \<le> of_int m * (of_int s * ulp x)"
    using ulp_pos [of x] by (simp add: mult.assoc [symmetric] mult_right_mono)
  then show ?thesis using False s by (simp add: fl_def abs_mult less_imp_le)
qed (use assms in simp)

lemma math_Round_abs_le:
  assumes "\<bar>x\<bar> \<le> of_int m"
  shows "\<bar>int64_of (math_Round x)\<bar> \<le> m \<or> \<not> in_i64 m"
proof (cases "in_i64 m")
  case True
  have m: "0 \<le> m" using assms by (metis abs_ge_zero of_int_0_le_iff order_trans)
  have "\<exists>k. math_Round x = of_int k \<and> \<bar>k\<bar> \<le> m"
  proof (cases "0 \<le> x")
    case pos: True
    have "\<lfloor>x + 1 / 2\<rfloor> \<le> m" using assms pos by linarith
    moreover have "0 \<le> \<lfloor>x + 1 / 2\<rfloor>" using pos by simp
    ultimately show ?thesis using pos by (auto simp: math_Round_def)
  next
    case neg: False
    have "\<lfloor>- x + 1 / 2\<rfloor> \<le> m" "0 \<le> \<lfloor>- x + 1 / 2\<rfloor>" using assms neg by linarith+
    then show ?thesis using neg by (intro exI [of _ "- \<lfloor>- x + 1 / 2\<rfloor>"]) (auto simp: math_Round_def)
  qed
  then obtain k where "math_Round x = of_int k" "\<bar>k\<bar> \<le> m" by blast
  moreover have "trunc_rat (of_int k) = k" by (simp add: trunc_rat_def flip: of_int_minus)
  ultimately show ?thesis using True m by (simp add: int64_of_def in_i64_def abs_le_iff)
qed simp

lemma int64_Round_sign:
  "0 \<le> x \<Longrightarrow> x < 2 ^ 62 \<Longrightarrow> 0 \<le> int64_of (math_Round x)"
  "x \<le> 0 \<Longrightarrow> int64_of (math_Round x) \<le> 0"
proof -
  assume "0 \<le> x" "x < 2 ^ 62"
  then have "0 \<le> \<lfloor>x + 1 / 2\<rfloor>" by simp
  moreover have "\<lfloor>x + 1 / 2\<rfloor> < 2 ^ 63"
    unfolding floor_less_iff using \<open>x < 2 ^ 62\<close> by simp
  ultimately
  show "0 \<le> int64_of (math_Round x)"
    using \<open>0 \<le> x\<close> by (simp add: int64_of_def trunc_rat_def math_Round_def in_i64_def)
next
  assume "x \<le> 0"
  then show "int64_of (math_Round x) \<le> 0"
    by (cases "x = 0") (auto simp: int64_of_def trunc_rat_def math_Round_def)
qed

end
