(* ===== verification/Json.thy ===== *)
theory Json
  imports Float64
begin

text \<open>
  What the code does with \<open>encoding/json\<close>. A \<open>json.RawMessage\<close> is modelled by what its
  bytes decode to: \<open>None\<close> for bytes that are empty or not valid JSON, \<open>Some\<close> of a value
  otherwise. Objects keep their members in order with duplicates, as the text has them;
  decoding into a Go map or struct takes the last one.
\<close>

datatype json = JNull | JBool bool | JNum float64 | JStr string | JArr "json list"
  | JObj "(string \<times> json) list"

type_synonym RawMessage = "json option"

text \<open>What the bytes of a member of a request are, before \<open>json.Valid\<close> has seen them.\<close>

datatype payload = NoPayload | BadPayload | Payload json

text \<open>\<open>json.RawMessage(`{}`)\<close>\<close>

abbreviation emptyObject :: RawMessage where
  "emptyObject \<equiv> Some (JObj [])"

text \<open>The last member of a name, exact spelling (decoding into \<open>map[string]any\<close>).\<close>

definition member_of :: "(string \<times> json) list \<Rightarrow> string \<Rightarrow> json option" where
  "member_of kvs k = map_of (rev kvs) k"

text \<open>
  \<open>var m map[string]any; _ = json.Unmarshal(raw, &m); s, _ := m[k].(string)\<close>: the empty
  string when the bytes do not decode to an object, the key is missing or its value is not
  a string.
\<close>

fun string_field :: "RawMessage \<Rightarrow> string \<Rightarrow> string" where
  "string_field (Some (JObj kvs)) k =
     (case member_of kvs k of Some (JStr s) \<Rightarrow> s | _ \<Rightarrow> [])"
| "string_field _ k = []"

text \<open>ASCII case folding, which is how struct field names are matched.\<close>

definition lower_char :: "char \<Rightarrow> char" where
  "lower_char c = (if 65 \<le> (of_char c :: nat) \<and> (of_char c :: nat) \<le> 90
     then char_of (of_char c + (32 :: nat)) else c)"

abbreviation lower :: "string \<Rightarrow> string" where
  "lower \<equiv> map lower_char"

text \<open>
  Decoding into a struct whose fields are strings: unknown members are ignored, \<open>null\<close>
  leaves the field alone, any other non-string is an error, and a later member overwrites
  an earlier one. \<open>None\<close> is an error of \<open>json.Unmarshal\<close>.
\<close>

fun decode_string_members :: "(string \<times> json) list \<Rightarrow> string \<Rightarrow> string \<Rightarrow> string option" where
  "decode_string_members [] k acc = Some acc"
| "decode_string_members ((n, v) # kvs) k acc =
     (if lower n = k then
        (case v of JStr s \<Rightarrow> decode_string_members kvs k s
                 | JNull \<Rightarrow> decode_string_members kvs k acc
                 | _ \<Rightarrow> None)
      else decode_string_members kvs k acc)"

fun decode_string_field :: "RawMessage \<Rightarrow> string \<Rightarrow> string option" where
  "decode_string_field (Some (JObj kvs)) k = decode_string_members kvs k []"
| "decode_string_field (Some JNull) k = Some []"
| "decode_string_field _ k = None"

section \<open>Encoding\<close>

text \<open>
  \<open>json.Marshal\<close> of a Go map writes its keys in byte order, each once. \<open>sorted_object\<close> does this
  to members of which a later one replaces an earlier one of the same name.
\<close>

definition sorted_object :: "(string \<times> json) list \<Rightarrow> json" where
  "sorted_object kvs = JObj (map (\<lambda>k. (k, the (member_of kvs k))) (sort_by (<) (remdups (map fst kvs))))"

text \<open>Decoding to \<open>any\<close> and encoding again sorts the objects inside as well.\<close>

fun canonical :: "json \<Rightarrow> json" where
  "canonical (JObj kvs) = sorted_object (map (\<lambda>(k, v). (k, canonical v)) kvs)"
| "canonical (JArr vs) = JArr (map canonical vs)"
| "canonical v = v"

definition jsonObject :: "RawMessage \<Rightarrow> RawMessage" where
  "jsonObject value = (case value of None \<Rightarrow> emptyObject | Some v \<Rightarrow> Some v)"

abbreviation JInt :: "int \<Rightarrow> json" where
  "JInt n \<equiv> JNum (of_int n)"

text \<open>ASCII \<open>strings.ToUpper\<close> and \<open>strings.TrimSpace\<close>.\<close>

definition upper_char :: "char \<Rightarrow> char" where
  "upper_char c = (if 97 \<le> (of_char c :: nat) \<and> (of_char c :: nat) \<le> 122
     then char_of (of_char c - (32 :: nat)) else c)"

abbreviation upper :: "string \<Rightarrow> string" where
  "upper \<equiv> map upper_char"

definition is_space :: "char \<Rightarrow> bool" where
  "is_space c = ((of_char c :: nat) \<in> {9, 10, 11, 12, 13, 32})"

definition TrimSpace :: "string \<Rightarrow> string" where
  "TrimSpace s = rev (dropWhile is_space (rev (dropWhile is_space s)))"

text \<open>Decimal digits (\<open>%d\<close>).\<close>

fun digits :: "nat \<Rightarrow> string" where
  "digits n = (if n < 10 then [char_of (48 + n)] else digits (n div 10) @ [char_of (48 + n mod 10)])"

declare digits.simps [simp del]

definition itoa :: "int \<Rightarrow> string" where
  "itoa i = (if i < 0 then CHR ''-'' # digits (nat (- i)) else digits (nat i))"

text \<open>
  \<open>time.Time\<close> in JSON: RFC 3339 in UTC, fractional seconds without trailing zeros. The date is
  the proleptic Gregorian one, from the days since 0001-01-01 (400-year cycles starting on
  1 March of year 0).
\<close>

definition civil_of_days :: "int \<Rightarrow> int \<times> int \<times> int" where
  "civil_of_days d =
     (let z = d + 306; era = z div 146097; doe = z mod 146097;
          yoe = (doe - doe div 1460 + doe div 36524 - doe div 146096) div 365;
          doy = doe - (365 * yoe + yoe div 4 - yoe div 100);
          mp = (5 * doy + 2) div 153;
          day = doy - (153 * mp + 2) div 5 + 1;
          month = (if mp < 10 then mp + 3 else mp - 9);
          year = yoe + era * 400 + (if month \<le> 2 then 1 else 0)
      in (year, month, day))"

definition pad :: "nat \<Rightarrow> int \<Rightarrow> string" where
  "pad w i = (let s = itoa i in replicate (w - length s) (CHR ''0'') @ s)"

definition format_time :: "time \<Rightarrow> string" where
  "format_time t =
     (let ns = t mod 1000000000; secs = t div 1000000000; (y, m, d) = civil_of_days (secs div 86400);
          s = secs mod 86400;
          frac = rev (dropWhile (\<lambda>c. c = CHR ''0'') (rev (pad 9 ns)))
      in pad 4 y @ ''-'' @ pad 2 m @ ''-'' @ pad 2 d @ ''T'' @ pad 2 (s div 3600) @ '':'' @ pad 2 (s div 60 mod 60)
           @ '':'' @ pad 2 (s mod 60) @ (if frac = [] then [] else ''.'' @ frac) @ ''Z'')"

section \<open>Clock times\<close>

definition digit_val :: "char \<Rightarrow> int option" where
  "digit_val c = (let n = of_char c :: int in if 48 \<le> n \<and> n \<le> 57 then Some (n - 48) else None)"

text \<open>
  \<open>time.Parse("15:04", s)\<close>: one or two digits for the hour below 24, a colon, exactly two
  digits for the minute below 60, and nothing after. The result is the minute of the day.
\<close>

fun parse_hour :: "string \<Rightarrow> (int \<times> string) option" where
  "parse_hour [] = None"
| "parse_hour (a # s) = (case digit_val a of None \<Rightarrow> None | Some x \<Rightarrow>
     (case s of [] \<Rightarrow> Some (x, [])
      | b # t \<Rightarrow> (case digit_val b of None \<Rightarrow> Some (x, s) | Some y \<Rightarrow> Some (10 * x + y, t))))"

fun parse_clock :: "string \<Rightarrow> int option" where
  "parse_clock s = (case parse_hour s of None \<Rightarrow> None | Some (h, rest) \<Rightarrow>
     if 24 \<le> h then None else
     (case rest of [colon, c, d] \<Rightarrow>
        (if colon \<noteq> CHR '':'' then None else
         (case (digit_val c, digit_val d) of
            (Some x, Some y) \<Rightarrow> if 60 \<le> 10 * x + y then None else Some (h * 60 + (10 * x + y))
          | _ \<Rightarrow> None))
      | _ \<Rightarrow> None))"

declare parse_clock.simps [simp del]

text \<open>
  The window test both quiet-hours functions end with: \<open>[s, e)\<close> within a day, or across
  midnight when the start is later than the end.
\<close>

definition in_window :: "int \<Rightarrow> int \<Rightarrow> int \<Rightarrow> bool" where
  "in_window m s e = (if s \<le> e then s \<le> m \<and> m < e else s \<le> m \<or> m < e)"

lemma in_window_complement:
  "s \<noteq> e \<Longrightarrow> in_window m e s = (\<not> in_window m s e)"
  by (auto simp: in_window_def)

lemma in_window_empty [simp]: "\<not> in_window m s s"
  by (simp add: in_window_def)

end
