(* ===== verification/Domain.thy ===== *)
theory Domain
  imports Json
begin

text \<open>
  Package \<open>domain\<close>: the entities (\<open>entities.go\<close>), the life cycle of a recovery case
  (\<open>state_machine.go\<close>) and the event vocabulary (\<open>events.go\<close>).

  The string types of the source (\<open>CaseState\<close>, \<open>ActionType\<close>, \<open>LeakType\<close>, \<open>EventType\<close>)
  become datatypes with one constructor per declared constant and an \<open>Other\<close> constructor
  for any other string, because values arrive from requests and from the decision service
  unchecked. The functions \<open>*_string\<close> give the constants' spelling.
\<close>

type_synonym ID = string

record Money =
  AmountMinor :: int
  MoneyCurrency :: string

section \<open>Case states\<close>

datatype CaseState = StateDetected | StateDiagnosing | StateActionPending | StatePolicyReview
  | StateScheduled | StateExecuting | StateWaitingOutcome | StateReassessing | StateRecovered
  | StateEscalated | StateExhausted | StateStopped | OtherState string

fun state_string :: "CaseState \<Rightarrow> string" where
  "state_string StateDetected = ''DETECTED''"
| "state_string StateDiagnosing = ''DIAGNOSING''"
| "state_string StateActionPending = ''ACTION_PENDING''"
| "state_string StatePolicyReview = ''POLICY_REVIEW''"
| "state_string StateScheduled = ''SCHEDULED''"
| "state_string StateExecuting = ''EXECUTING''"
| "state_string StateWaitingOutcome = ''WAITING_OUTCOME''"
| "state_string StateReassessing = ''REASSESSING''"
| "state_string StateRecovered = ''RECOVERED''"
| "state_string StateEscalated = ''ESCALATED''"
| "state_string StateExhausted = ''EXHAUSTED''"
| "state_string StateStopped = ''STOPPED''"
| "state_string (OtherState s) = s"

text \<open>The table \<open>transitions\<close>: \<open>None\<close> for a state that is not a key.\<close>

fun transitions :: "CaseState \<Rightarrow> CaseState list option" where
  "transitions StateDetected = Some [StateDiagnosing, StateStopped]"
| "transitions StateDiagnosing = Some [StateActionPending, StateEscalated, StateStopped]"
| "transitions StateActionPending = Some [StatePolicyReview, StateEscalated, StateExhausted, StateStopped]"
| "transitions StatePolicyReview = Some [StateScheduled, StateReassessing, StateEscalated, StateStopped]"
| "transitions StateScheduled = Some [StateExecuting, StateReassessing, StateStopped]"
| "transitions StateExecuting = Some [StateWaitingOutcome, StateReassessing, StateEscalated, StateStopped]"
| "transitions StateWaitingOutcome =
     Some [StateRecovered, StateReassessing, StateEscalated, StateExhausted, StateStopped]"
| "transitions StateReassessing =
     Some [StateActionPending, StateRecovered, StateEscalated, StateExhausted, StateStopped]"
| "transitions StateEscalated =
     Some [StateReassessing, StateActionPending, StateRecovered, StateExhausted, StateStopped]"
| "transitions StateRecovered = Some []"
| "transitions StateExhausted = Some []"
| "transitions StateStopped = Some []"
| "transitions (OtherState _) = None"

definition IsValid :: "CaseState \<Rightarrow> bool" where
  "IsValid s = (transitions s \<noteq> None)"

definition IsTerminal :: "CaseState \<Rightarrow> bool" where
  "IsTerminal s = (s = StateRecovered \<or> s = StateExhausted \<or> s = StateStopped)"

definition CanTransition :: "CaseState \<Rightarrow> CaseState \<Rightarrow> bool" where
  "CanTransition src dst = (case transitions src of None \<Rightarrow> False | Some allowed \<Rightarrow> dst \<in> set allowed)"

datatype TransitionError = UnknownSource string | UnknownTarget string | InvalidTransition string string

definition ValidateTransition :: "CaseState \<Rightarrow> CaseState \<Rightarrow> TransitionError option" where
  "ValidateTransition src dst =
     (if \<not> IsValid src then Some (UnknownSource (state_string src))
      else if \<not> IsValid dst then Some (UnknownTarget (state_string dst))
      else if \<not> CanTransition src dst then Some (InvalidTransition (state_string src) (state_string dst))
      else None)"

definition AllowedTransitions :: "CaseState \<Rightarrow> CaseState list" where
  "AllowedTransitions src = (case transitions src of None \<Rightarrow> [] | Some allowed \<Rightarrow> allowed)"

lemmas state_machine_defs = IsValid_def IsTerminal_def CanTransition_def ValidateTransition_def
  AllowedTransitions_def

lemma CanTransition_valid: "CanTransition s t \<Longrightarrow> IsValid s \<and> IsValid t"
  by (cases s) (auto simp: state_machine_defs)

lemma terminal_no_transition [simp]: "IsTerminal s \<Longrightarrow> \<not> CanTransition s t"
  by (auto simp: state_machine_defs)

text \<open>Reachability by declared transitions, for the paths an operation takes in one go.\<close>

abbreviation lifecycle_path :: "CaseState \<Rightarrow> CaseState \<Rightarrow> bool" where
  "lifecycle_path \<equiv> CanTransition\<^sup>*\<^sup>*"

text \<open>\<open>ValidateTransition\<close> accepts exactly the edges of the declared table, and its three
  refusals are told apart in the order the code tests them: an unknown source, an unknown
  target, a missing edge.\<close>

theorem validate_transition_exact:
  "(ValidateTransition s t = None \<longleftrightarrow> CanTransition s t)
   \<and> (ValidateTransition s t = Some (UnknownSource (state_string s)) \<longleftrightarrow> \<not> IsValid s)
   \<and> (ValidateTransition s t = Some (UnknownTarget (state_string t)) \<longleftrightarrow> IsValid s \<and> \<not> IsValid t)"
  using CanTransition_valid [of s t] by (auto simp: ValidateTransition_def)

text \<open>The terminal states are exactly the declared states no declared transition leaves,
  and from every other declared state STOPPED can be entered in one step and RECOVERED,
  EXHAUSTED and STOPPED can all be reached: no live case is ever trapped by the table itself.\<close>

theorem terminal_states_are_sinks:
  "(IsTerminal s \<longleftrightarrow> IsValid s \<and> (\<forall>t. \<not> CanTransition s t))
   \<and> (IsValid s \<and> \<not> IsTerminal s \<longrightarrow>
        CanTransition s StateStopped \<and> lifecycle_path s StateRecovered \<and> lifecycle_path s StateExhausted)"
proof -
  have sinks: "IsTerminal s \<longleftrightarrow> IsValid s \<and> (\<forall>t. \<not> CanTransition s t)"
    by (cases s) (auto simp: state_machine_defs)
  have e: "CanTransition a b \<Longrightarrow> lifecycle_path b c \<Longrightarrow> lifecycle_path a c" for a b c
    by (rule converse_rtranclp_into_rtranclp)
  have esc: "lifecycle_path StateEscalated StateRecovered" "lifecycle_path StateEscalated StateExhausted"
    by (rule r_into_rtranclp, simp add: state_machine_defs)+
  have rea: "lifecycle_path StateReassessing StateRecovered" "lifecycle_path StateReassessing StateExhausted"
    by (rule r_into_rtranclp, simp add: state_machine_defs)+
  have one: "lifecycle_path a StateRecovered \<and> lifecycle_path a StateExhausted"
    if "CanTransition a StateEscalated \<or> CanTransition a StateReassessing" for a
    using that e esc rea by blast
  have dia: "lifecycle_path StateDiagnosing StateRecovered" "lifecycle_path StateDiagnosing StateExhausted"
    using one [of StateDiagnosing] by (simp_all add: state_machine_defs)
  have "IsValid s \<and> \<not> IsTerminal s \<longrightarrow>
        CanTransition s StateStopped \<and> lifecycle_path s StateRecovered \<and> lifecycle_path s StateExhausted"
  proof (cases s)
    case StateDetected
    with dia e [of s StateDiagnosing] show ?thesis by (simp add: state_machine_defs)
  next
    case StateEscalated
    with esc show ?thesis by (simp add: state_machine_defs)
  next
    case StateReassessing
    with rea show ?thesis by (simp add: state_machine_defs)
  qed (use one [of s] in \<open>auto simp: state_machine_defs\<close>)
  with sinks show ?thesis by blast
qed

theorem terminal_states_are_sinks_witness:
  "CanTransition StateScheduled StateStopped \<and> lifecycle_path StateScheduled StateRecovered"
  using terminal_states_are_sinks [of StateScheduled] by (simp add: state_machine_defs)

end
