(* ===== verification/Entities.thy ===== *)
theory Entities
  imports Domain
begin

text \<open>
  The records and enumerations of \<open>domain/entities.go\<close> and \<open>domain/events.go\<close>. A field
  carries a prefix naming its record (record fields share one name space here); an optional
  pointer is an \<open>option\<close>. Money amounts, versions and counters are 64-bit integers.
\<close>

section \<open>Enumerations\<close>

datatype LeakType = FailedSubscription | CheckoutAbandonment | OtherLeak string

fun leak_string :: "LeakType \<Rightarrow> string" where
  "leak_string FailedSubscription = ''FAILED_SUBSCRIPTION''"
| "leak_string CheckoutAbandonment = ''CHECKOUT_ABANDONMENT''"
| "leak_string (OtherLeak s) = s"

datatype ActionType = ActionWait | ActionRetryNow | ActionRetryLater | ActionSendReminder
  | ActionSendPaymentLink | ActionSendCheckoutRecoveryLink | ActionRequestPaymentMethodUpdate
  | ActionSuggestAlternateMethod | ActionWaitForPromiseToPay | ActionRetention
  | ActionEscalateToHuman | ActionStop | OtherAction string

fun action_string :: "ActionType \<Rightarrow> string" where
  "action_string ActionWait = ''WAIT''"
| "action_string ActionRetryNow = ''RETRY_NOW''"
| "action_string ActionRetryLater = ''RETRY_LATER''"
| "action_string ActionSendReminder = ''SEND_REMINDER''"
| "action_string ActionSendPaymentLink = ''SEND_PAYMENT_LINK''"
| "action_string ActionSendCheckoutRecoveryLink = ''SEND_CHECKOUT_RECOVERY_LINK''"
| "action_string ActionRequestPaymentMethodUpdate = ''REQUEST_PAYMENT_METHOD_UPDATE''"
| "action_string ActionSuggestAlternateMethod = ''SUGGEST_ALTERNATE_METHOD''"
| "action_string ActionWaitForPromiseToPay = ''WAIT_FOR_PROMISE_TO_PAY''"
| "action_string ActionRetention = ''RETENTION_ACTION''"
| "action_string ActionEscalateToHuman = ''ESCALATE_TO_HUMAN''"
| "action_string ActionStop = ''STOP''"
| "action_string (OtherAction s) = s"

text \<open>The declared actions, in the order of their declaration.\<close>

definition declared_actions :: "ActionType list" where
  "declared_actions = [ActionWait, ActionRetryNow, ActionRetryLater, ActionSendReminder,
     ActionSendPaymentLink, ActionSendCheckoutRecoveryLink, ActionRequestPaymentMethodUpdate,
     ActionSuggestAlternateMethod, ActionWaitForPromiseToPay, ActionRetention,
     ActionEscalateToHuman, ActionStop]"

text \<open>
  \<open>domain.ActionType(s)\<close>: a declared spelling is the declared action, so two actions are
  equal exactly when their strings are, as in the source.
\<close>

definition action_of :: "string \<Rightarrow> ActionType" where
  "action_of s = (case find (\<lambda>a. action_string a = s) declared_actions of
     Some a \<Rightarrow> a | None \<Rightarrow> OtherAction s)"

text \<open>An \<open>OtherAction\<close> holds no declared spelling.\<close>

definition proper_action :: "ActionType \<Rightarrow> bool" where
  "proper_action a = (action_of (action_string a) = a)"

lemma action_string_of [simp]: "action_string (action_of s) = s"
  by (auto simp: action_of_def find_Some_iff split: option.splits)

lemma proper_action_of [simp]: "proper_action (action_of s)"
  by (simp add: proper_action_def)

lemma proper_declared: "a \<in> set declared_actions \<Longrightarrow> proper_action a"
proof -
  have "list_all proper_action declared_actions" by code_simp
  then show "a \<in> set declared_actions \<Longrightarrow> proper_action a" by (simp add: list_all_iff)
qed

lemma proper_ActionWait [simp]: "proper_action ActionWait"
  by (simp add: proper_declared declared_actions_def)

lemma action_string_inj:
  "proper_action a \<Longrightarrow> proper_action b \<Longrightarrow> action_string a = action_string b \<Longrightarrow> a = b"
  by (metis proper_action_def)

section \<open>Actors, events\<close>

datatype EventType = EventRevenueRiskDetected | EventCaseCreated | EventDiagnosisStarted
  | EventDiagnosisCompleted | EventCandidatesGenerated | EventActionPredicted
  | EventActionSelected | EventPolicyApproved | EventPolicyDenied | EventPolicyEscalated
  | EventActionScheduled | EventActionExecuted | EventActionFailed | EventOutcomeObserved
  | EventPromiseCreated | EventPromiseFulfilled | EventPromiseBroken | EventPromiseExpired
  | EventPromiseCancelled | EventPromiseCheckScheduled | EventRecoveryCompleted
  | EventCaseEscalated | EventCaseStopped | EventCaseExhausted | EventStateTransitioned
  | EventDecisionCreated | EventEconomicGateAllowed | EventEconomicGateBlocked
  | EventPolicyEvaluated | EventActionSuppressed | EventCustomerResponded
  | EventRecoveryAttributed | EventFeedbackRecorded | EventHumanReviewRequested
  | EventOperatorApproved | EventOperatorRejected | EventOperatorDeferred
  | EventOperatorStopped | EventPolicyRevalidated | EventStaleApproval | OtherEvent string

text \<open>\<open>EventType.IsValid\<close>: the map \<open>validEventTypes\<close> has every declared constant.\<close>

fun EventType_IsValid :: "EventType \<Rightarrow> bool" where
  "EventType_IsValid (OtherEvent _) = False"
| "EventType_IsValid _ = True"

fun EventForTransition :: "CaseState \<Rightarrow> EventType" where
  "EventForTransition StateDiagnosing = EventDiagnosisStarted"
| "EventForTransition StateScheduled = EventActionScheduled"
| "EventForTransition StateExecuting = EventActionExecuted"
| "EventForTransition StateWaitingOutcome = EventOutcomeObserved"
| "EventForTransition StateRecovered = EventRecoveryCompleted"
| "EventForTransition StateEscalated = EventCaseEscalated"
| "EventForTransition StateStopped = EventCaseStopped"
| "EventForTransition StateExhausted = EventCaseExhausted"
| "EventForTransition _ = EventStateTransitioned"

record Actor =
  actor_Type :: string
  actor_ID :: string

record RecoveryEvent =
  ev_ID :: ID
  ev_CaseID :: ID
  ev_Sequence :: int
  ev_Type :: EventType
  ev_Timestamp :: time
  ev_Actor :: Actor
  ev_Payload :: RawMessage
  ev_ModelVersion :: string
  ev_CorrelationID :: string

section \<open>Cases, customers, merchants\<close>

record RecoveryCase =
  rc_ID :: ID
  rc_LeakType :: LeakType
  rc_MerchantID :: ID
  rc_CustomerID :: ID
  rc_AmountAtRiskMinor :: int
  rc_Currency :: string
  rc_SourceReference :: string
  rc_SourceStatus :: string
  rc_FailureOrLeakContext :: RawMessage
  rc_CustomerContextSnapshot :: RawMessage
  rc_MerchantPolicySnapshot :: RawMessage
  rc_CurrentState :: CaseState
  rc_RecoveryDeadline :: time
  rc_RecoveredAmountMinor :: int
  rc_AttributionStatus :: string
  rc_Version :: int
  rc_CreatedAt :: time
  rc_UpdatedAt :: time

record Merchant =
  m_ID :: ID
  m_Name :: string
  m_Type :: string
  m_Metadata :: RawMessage
  m_CreatedAt :: time
  m_UpdatedAt :: time

record MerchantOptimizationProfile =
  op_ID :: ID
  op_MerchantID :: ID
  op_Objective :: string
  op_RevenueWeightBPS :: int
  op_RetentionWeightBPS :: int
  op_ContactPenaltyWeightBPS :: int
  op_CostPenaltyWeightBPS :: int
  op_FatiguePenaltyWeightBPS :: int
  op_RiskPenaltyWeightBPS :: int
  op_EscalationPreference :: string
  op_AllowedActions :: "ActionType list"
  op_AllowedChannels :: "string list"
  op_MinimumNERVMinor :: int
  op_DiscountBudgetMinor :: int
  op_HumanReviewBudgetMinor :: int
  op_ConfigurationVersion :: int
  op_CreatedAt :: time

record MerchantPolicy =
  mp_ID :: ID
  mp_MerchantID :: ID
  mp_Objective :: string
  mp_MaxRetries :: int
  mp_MaxContactsPerDay :: int
  mp_MaxContactsPerWeek :: int
  mp_MinContactIntervalMinutes :: int
  mp_RecoveryWindowHours :: int
  mp_QuietHours :: RawMessage
  mp_AllowedActions :: "ActionType list"
  mp_AllowedChannels :: "string list"
  mp_HighValueThresholdMinor :: int
  mp_LowConfidenceThreshold :: float64
  mp_MinimumEconomicValueMinor :: int
  mp_MaximumIncentiveMinor :: int
  mp_RequiresHighValueHumanApproval :: bool
  mp_Version :: int
  mp_CreatedAt :: time
  mp_UpdatedAt :: time
  mp_OptimizationProfile :: "MerchantOptimizationProfile option"

record Customer =
  cu_ID :: ID
  cu_MerchantID :: ID
  cu_ExternalID :: string
  cu_Contact :: RawMessage
  cu_OptedOut :: bool
  cu_CreatedAt :: time
  cu_UpdatedAt :: time

record CustomerRecoveryProfile =
  pf_ID :: ID
  pf_CustomerID :: ID
  pf_SuccessfulPayments :: int
  pf_FailedPayments :: int
  pf_SubscriptionTenureDays :: int
  pf_PromiseReliability :: float64
  pf_FatigueScore :: float64
  pf_Features :: RawMessage
  pf_Version :: int
  pf_UpdatedAt :: time

section \<open>Actions and promises\<close>

record RecoveryAction =
  ra_ID :: ID
  ra_CaseID :: ID
  ra_Type :: ActionType
  ra_Status :: string
  ra_Parameters :: RawMessage
  ra_IdempotencyKey :: string
  ra_PolicyDecisionID :: "ID option"
  ra_ScheduledAt :: "time option"
  ra_CreatedAt :: time
  ra_UpdatedAt :: time

text \<open>The promise statuses of the table's check constraint.\<close>

datatype PromiseStatus = PromiseActive | PromiseFulfilled | PromiseBroken | PromiseExpired
  | PromiseCancelled

fun promise_status_string :: "PromiseStatus \<Rightarrow> string" where
  "promise_status_string PromiseActive = ''ACTIVE''"
| "promise_status_string PromiseFulfilled = ''FULFILLED''"
| "promise_status_string PromiseBroken = ''BROKEN''"
| "promise_status_string PromiseExpired = ''EXPIRED''"
| "promise_status_string PromiseCancelled = ''CANCELLED''"

record PromiseToPay =
  pp_ID :: ID
  pp_CaseID :: ID
  pp_CustomerID :: ID
  pp_Status :: PromiseStatus
  pp_DueAt :: time
  pp_Confidence :: float64
  pp_Source :: RawMessage
  pp_CreatedAt :: time
  pp_ResolvedAt :: "time option"
  pp_PromisedAmountMinor :: "int option"
  pp_ExtractorVersion :: string
  pp_ExtractionTimestamp :: "time option"
  pp_SourceResponseID :: "ID option"
  pp_FulfilledAt :: "time option"
  pp_BrokenAt :: "time option"
  pp_ExpiredAt :: "time option"
  pp_CancelledAt :: "time option"
  pp_VerificationReference :: string

end
