(* ===== verification/Decision_Context.thy ===== *)
theory Decision_Context
  imports Entities
begin

text \<open>
  Package \<open>recoverycontext\<close> (\<open>internal/context/context.go\<close>): the snapshot every decision
  component reads, and the diagnosis of the failure. \<open>EvaluatedAt\<close> is a UTC instant, as
  \<open>Build\<close> makes it.
\<close>

record Diagnosis =
  dg_FailureCategory :: string
  dg_Recoverability :: string
  dg_Confidence :: float64
  dg_Evidence :: "string list"

record CustomerProfile =
  cp_SuccessfulPaymentRatio :: float64
  cp_SuccessfulPaymentCount :: int
  cp_RecentFailures :: int
  cp_PreviousRecoveryAttempts :: int
  cp_AverageTransactionValueMinor :: int
  cp_ContactCount :: int
  cp_PromiseReliability :: float64
  cp_RecoveryFatigue :: float64
  cp_SubscriptionTenureDays :: int
  cp_PreferredPaymentMethod :: string
  cp_PriorCheckoutRecoveries :: int
  cp_OptedOut :: bool

record MerchantContext =
  mc_OptimizationProfileID :: ID
  mc_OptimizationProfileVersion :: int
  mc_MerchantType :: string
  mc_RecoveryObjective :: string
  mc_AllowedChannels :: "string list"
  mc_AllowedActions :: "ActionType list"
  mc_MaxRetries :: int
  mc_MaxContactsPerDay :: int
  mc_MaxContactsPerWeek :: int
  mc_MinimumContactIntervalMinutes :: int
  mc_RecoveryWindowHours :: int
  mc_QuietHours :: RawMessage
  mc_MinimumEconomicValueMinor :: int
  mc_HighValueThresholdMinor :: int
  mc_LowConfidenceThreshold :: float64
  mc_MaximumIncentiveMinor :: int
  mc_Timezone :: string
  mc_RevenueWeightBPS :: int
  mc_RetentionWeightBPS :: int
  mc_ContactPenaltyWeightBPS :: int
  mc_CostPenaltyWeightBPS :: int
  mc_FatiguePenaltyWeightBPS :: int
  mc_RiskPenaltyWeightBPS :: int
  mc_EscalationPreference :: string

record RecentAction =
  re_Type :: ActionType
  re_Status :: string
  re_CreatedAt :: time

record TimingContext =
  tc_EvaluatedAt :: time
  tc_HoursSinceLeak :: float64
  tc_HoursUntilDeadline :: float64

record PaymentState =
  ps_AlreadyRecovered :: bool
  ps_MandateStatus :: string
  ps_PaymentMethodStatus :: string
  ps_AvailableChannels :: "string list"

record RecoveryDecisionContext =
  FeatureVersion :: string
  Case :: RecoveryCase
  Diag :: Diagnosis
  Profile :: CustomerProfile
  MerchantCtx :: MerchantContext
  RecentActions :: "RecentAction list"
  ActivePromise :: "PromiseToPay option"
  Timing :: TimingContext
  Payment :: PaymentState

section \<open>Diagnosis\<close>

text \<open>The synonyms of the first \<open>switch\<close>.\<close>

definition canonical_category :: "string \<Rightarrow> string" where
  "canonical_category category =
     (if category = ''AMBIGUOUS_CUSTOMER_INTENT'' then ''CUSTOMER_INTENT_OR_UNKNOWN''
      else if category = ''METHOD_MISMATCH'' then ''PAYMENT_METHOD_MISMATCH''
      else if category = ''TEMPORARY_ABANDONMENT'' then ''DELAYED_INTENT''
      else if category = ''PRICE_HESITATION'' then ''PRICE_OR_VALUE_HESITATION''
      else if category = ''LOW_INTENT_ABANDONMENT'' then ''UNKNOWN_ABANDONMENT''
      else category)"

text \<open>The second \<open>switch\<close>: category, recoverability and confidence.\<close>

definition recoverability_of :: "string \<Rightarrow> string \<times> string \<times> float64" where
  "recoverability_of category =
     (if category \<in> set [''TEMPORARY_BANK_FAILURE'', ''INSUFFICIENT_FUNDS'', ''PAYMENT_FAILURE'',
          ''PAYMENT_FRICTION'', ''DELAYED_INTENT'']
        then (category, ''TEMPORARY'', fl (9 / 10))
      else if category \<in> set [''PAYMENT_METHOD_INVALID'', ''MANDATE_FAILURE'',
          ''PAYMENT_METHOD_MISMATCH'', ''PRICE_OR_VALUE_HESITATION'']
        then (category, ''PERSISTENT'', fl (86 / 100))
      else if category = ''HARD_DECLINE'' then (category, ''NON_RECOVERABLE'', fl (94 / 100))
      else if category \<in> set [''CUSTOMER_INTENT_OR_UNKNOWN'', ''UNKNOWN_ABANDONMENT'']
        then (category, ''UNKNOWN'', fl (5 / 10))
      else (''CUSTOMER_INTENT_OR_UNKNOWN'', ''UNKNOWN'', fl (4 / 10)))"

definition Diagnose :: "RecoveryCase \<Rightarrow> Diagnosis" where
  "Diagnose c =
     (let category = string_field (rc_FailureOrLeakContext c) ''failure_category'';
          category = (if category = [] then
             (if rc_LeakType c = CheckoutAbandonment then ''UNKNOWN_ABANDONMENT''
              else ''CUSTOMER_INTENT_OR_UNKNOWN'') else category)
      in case recoverability_of (canonical_category category) of (category, recoverability, confidence) \<Rightarrow>
        \<lparr>dg_FailureCategory = category, dg_Recoverability = recoverability,
         dg_Confidence = confidence, dg_Evidence = [''normalized_failure_context'']\<rparr>)"

definition clamp :: "float64 \<Rightarrow> float64" where
  "clamp v = (if v < 0 then 0 else if 1 < v then 1 else v)"

fun isContact :: "ActionType \<Rightarrow> bool" where
  "isContact ActionSendReminder = True"
| "isContact ActionSendPaymentLink = True"
| "isContact ActionSendCheckoutRecoveryLink = True"
| "isContact ActionRequestPaymentMethodUpdate = True"
| "isContact ActionSuggestAlternateMethod = True"
| "isContact ActionWaitForPromiseToPay = True"
| "isContact ActionRetention = True"
| "isContact _ = False"

lemma clamp_range: "0 \<le> clamp v" "clamp v \<le> 1"
  by (simp_all add: clamp_def)

text \<open>The twelve categories the diagnosis can report.\<close>

definition diagnosis_categories :: "string list" where
  "diagnosis_categories = [''TEMPORARY_BANK_FAILURE'', ''INSUFFICIENT_FUNDS'', ''PAYMENT_FAILURE'',
     ''PAYMENT_FRICTION'', ''DELAYED_INTENT'', ''PAYMENT_METHOD_INVALID'', ''MANDATE_FAILURE'',
     ''PAYMENT_METHOD_MISMATCH'', ''PRICE_OR_VALUE_HESITATION'', ''HARD_DECLINE'',
     ''CUSTOMER_INTENT_OR_UNKNOWN'', ''UNKNOWN_ABANDONMENT'']"

lemma fl_diagnosis_confidence:
  "fl (9 / 10) \<in> {0..1}" "fl (86 / 100) \<in> {0..1}" "fl (94 / 100) \<in> {0..1}"
  "fl (5 / 10) \<in> {0..1}" "fl (4 / 10) \<in> {0..1}"
proof -
  have "fl x \<in> {0..1}" if "0 \<le> x" "x \<le> 1" for x
    using fl_nonneg [OF that(1)] fl_abs_le_int [of x 1] that by simp
  then show "fl (9 / 10) \<in> {0..1}" "fl (86 / 100) \<in> {0..1}" "fl (94 / 100) \<in> {0..1}"
    "fl (5 / 10) \<in> {0..1}" "fl (4 / 10) \<in> {0..1}" by simp_all
qed

lemma recoverability_of_category: "fst (recoverability_of x) \<in> set diagnosis_categories"
  unfolding recoverability_of_def diagnosis_categories_def by simp

lemma recoverability_of_confidence:
  "0 \<le> snd (snd (recoverability_of x))" "snd (snd (recoverability_of x)) \<le> 1"
  using fl_diagnosis_confidence unfolding recoverability_of_def by simp_all

lemma recoverability_of_hard:
  "fst (snd (recoverability_of x)) = ''NON_RECOVERABLE'' \<longleftrightarrow> x = ''HARD_DECLINE''"
  unfolding recoverability_of_def by simp

lemma canonical_hard: "canonical_category x = ''HARD_DECLINE'' \<longleftrightarrow> x = ''HARD_DECLINE''"
  unfolding canonical_category_def by simp

text \<open>The category looked up, with the default for a context that names none.\<close>

definition raw_category :: "RecoveryCase \<Rightarrow> string" where
  "raw_category c = (let category = string_field (rc_FailureOrLeakContext c) ''failure_category'' in
     if category = [] then (if rc_LeakType c = CheckoutAbandonment then ''UNKNOWN_ABANDONMENT''
       else ''CUSTOMER_INTENT_OR_UNKNOWN'') else category)"

lemma raw_category_hard: "raw_category c = ''HARD_DECLINE'' \<longleftrightarrow>
    string_field (rc_FailureOrLeakContext c) ''failure_category'' = ''HARD_DECLINE''"
  unfolding raw_category_def Let_def by simp

lemma Diagnose_fields:
  "dg_FailureCategory (Diagnose c) = fst (recoverability_of (canonical_category (raw_category c)))"
  "dg_Recoverability (Diagnose c) = fst (snd (recoverability_of (canonical_category (raw_category c))))"
  "dg_Confidence (Diagnose c) = snd (snd (recoverability_of (canonical_category (raw_category c))))"
  "dg_Evidence (Diagnose c) = [''normalized_failure_context'']"
  by (simp_all only: Diagnose_def raw_category_def Let_def split: prod.split) simp_all

lemma recoverability_of_unknown:
  "recoverability_of (canonical_category ''UNKNOWN_ABANDONMENT'') = (''UNKNOWN_ABANDONMENT'', ''UNKNOWN'', fl (5 / 10))"
  "recoverability_of (canonical_category ''CUSTOMER_INTENT_OR_UNKNOWN'') =
     (''CUSTOMER_INTENT_OR_UNKNOWN'', ''UNKNOWN'', fl (5 / 10))"
  unfolding recoverability_of_def canonical_category_def by simp_all

text \<open>Whatever the failure context holds, the diagnosis reports one of the twelve
  canonical categories with a confidence in the unit interval; NON_RECOVERABLE is reported
  exactly for a hard decline (the classification the retry policy relies on), and a missing
  or undecodable context is diagnosed as unknown with even odds.\<close>

theorem diagnose_total:
  "dg_FailureCategory (Diagnose c) \<in> set diagnosis_categories
   \<and> 0 \<le> dg_Confidence (Diagnose c) \<and> dg_Confidence (Diagnose c) \<le> 1
   \<and> (dg_Recoverability (Diagnose c) = ''NON_RECOVERABLE'' \<longleftrightarrow>
        string_field (rc_FailureOrLeakContext c) ''failure_category'' = ''HARD_DECLINE'')
   \<and> Diagnose (c\<lparr>rc_FailureOrLeakContext := None\<rparr>) =
        \<lparr>dg_FailureCategory = (if rc_LeakType c = CheckoutAbandonment then ''UNKNOWN_ABANDONMENT''
            else ''CUSTOMER_INTENT_OR_UNKNOWN''), dg_Recoverability = ''UNKNOWN'',
         dg_Confidence = fl (5 / 10), dg_Evidence = [''normalized_failure_context'']\<rparr>"
proof -
  have "Diagnose (c\<lparr>rc_FailureOrLeakContext := None\<rparr>) =
        \<lparr>dg_FailureCategory = (if rc_LeakType c = CheckoutAbandonment then ''UNKNOWN_ABANDONMENT''
            else ''CUSTOMER_INTENT_OR_UNKNOWN''), dg_Recoverability = ''UNKNOWN'',
         dg_Confidence = fl (5 / 10), dg_Evidence = [''normalized_failure_context'']\<rparr>"
    unfolding Diagnose_def Let_def by (simp add: recoverability_of_unknown)
  then show ?thesis
    unfolding Diagnose_fields(1-3) recoverability_of_hard canonical_hard raw_category_hard
    using recoverability_of_category recoverability_of_confidence by blast
qed

section \<open>The context of the resilience laboratory\<close>

text \<open>
  \<open>viable(now)\<close> of \<open>internal/resilience/evaluation.go\<close>: a context that passes every policy
  check, from which the laboratory's scenarios differ in one point each. Fields the literal
  leaves out have Go's zero value.
\<close>

definition zero_case :: RecoveryCase where
  "zero_case = \<lparr>rc_ID = [], rc_LeakType = OtherLeak [], rc_MerchantID = [], rc_CustomerID = [],
     rc_AmountAtRiskMinor = 0, rc_Currency = [], rc_SourceReference = [], rc_SourceStatus = [],
     rc_FailureOrLeakContext = None, rc_CustomerContextSnapshot = None, rc_MerchantPolicySnapshot = None,
     rc_CurrentState = OtherState [], rc_RecoveryDeadline = 0, rc_RecoveredAmountMinor = 0,
     rc_AttributionStatus = [], rc_Version = 0, rc_CreatedAt = 0, rc_UpdatedAt = 0\<rparr>"

definition zero_merchant_context :: MerchantContext where
  "zero_merchant_context = \<lparr>mc_OptimizationProfileID = [], mc_OptimizationProfileVersion = 0,
     mc_MerchantType = [], mc_RecoveryObjective = [], mc_AllowedChannels = [], mc_AllowedActions = [],
     mc_MaxRetries = 0, mc_MaxContactsPerDay = 0, mc_MaxContactsPerWeek = 0,
     mc_MinimumContactIntervalMinutes = 0, mc_RecoveryWindowHours = 0, mc_QuietHours = None,
     mc_MinimumEconomicValueMinor = 0, mc_HighValueThresholdMinor = 0, mc_LowConfidenceThreshold = 0,
     mc_MaximumIncentiveMinor = 0, mc_Timezone = [], mc_RevenueWeightBPS = 0, mc_RetentionWeightBPS = 0,
     mc_ContactPenaltyWeightBPS = 0, mc_CostPenaltyWeightBPS = 0, mc_FatiguePenaltyWeightBPS = 0,
     mc_RiskPenaltyWeightBPS = 0, mc_EscalationPreference = []\<rparr>"

definition zero_profile :: CustomerProfile where
  "zero_profile = \<lparr>cp_SuccessfulPaymentRatio = 0, cp_SuccessfulPaymentCount = 0, cp_RecentFailures = 0,
     cp_PreviousRecoveryAttempts = 0, cp_AverageTransactionValueMinor = 0, cp_ContactCount = 0,
     cp_PromiseReliability = 0, cp_RecoveryFatigue = 0, cp_SubscriptionTenureDays = 0,
     cp_PreferredPaymentMethod = [], cp_PriorCheckoutRecoveries = 0, cp_OptedOut = False\<rparr>"

definition viable_context :: "time \<Rightarrow> RecoveryDecisionContext" where
  "viable_context now = \<lparr>FeatureVersion = [],
     Case = zero_case\<lparr>rc_ID := ''lab-case'', rc_CustomerID := ''lab-customer'',
       rc_CurrentState := StateScheduled, rc_Version := 3, rc_AmountAtRiskMinor := 10000,
       rc_Currency := ''INR'', rc_RecoveryDeadline := now + 24 * Hour\<rparr>,
     Diag = \<lparr>dg_FailureCategory = [], dg_Recoverability = ''TEMPORARY'', dg_Confidence = fl (9 / 10),
       dg_Evidence = []\<rparr>,
     Profile = zero_profile,
     MerchantCtx = zero_merchant_context\<lparr>mc_AllowedChannels := [''email''],
       mc_AllowedActions := [ActionSendReminder, ActionRetryNow], mc_MaxRetries := 3,
       mc_MaxContactsPerDay := 3, mc_MaxContactsPerWeek := 5, mc_MinimumContactIntervalMinutes := 60,
       mc_MaximumIncentiveMinor := 100, mc_Timezone := ''UTC''\<rparr>,
     RecentActions = [], ActivePromise = None,
     Timing = \<lparr>tc_EvaluatedAt = 0, tc_HoursSinceLeak = 0, tc_HoursUntilDeadline = 0\<rparr>,
     Payment = \<lparr>ps_AlreadyRecovered = False, ps_MandateStatus = ''ACTIVE'',
       ps_PaymentMethodStatus = ''VALID'', ps_AvailableChannels = [''email'']\<rparr>\<rparr>"

lemmas viable_defs = viable_context_def zero_case_def zero_merchant_context_def zero_profile_def

end
