(* ===== verification/Eligibility.thy ===== *)
theory Eligibility
  imports Decision_Context "HOL-Library.Sublist"
begin

text \<open>
  Package \<open>eligibility\<close> (\<open>internal/eligibility/eligibility.go\<close>): which of the twelve declared
  actions may be considered for a case at all. \<open>exclusion_reason\<close> is the \<open>switch\<close> of
  \<open>Evaluate\<close>, one branch per case in the source's order, with the empty string for an action
  no case excludes; \<open>Evaluate\<close> is the loop over \<open>allActions\<close>.
\<close>

record Exclusion =
  ex_Action :: ActionType
  ex_Reason :: string
  ex_Explanation :: string

record Result =
  EligibleActions :: "ActionType list"
  ExcludedActions :: "Exclusion list"
  EvaluatedAt :: time

definition allActions :: "ActionType list" where
  "allActions = [ActionWait, ActionRetryNow, ActionRetryLater, ActionSendReminder, ActionSendPaymentLink,
     ActionSendCheckoutRecoveryLink, ActionRequestPaymentMethodUpdate, ActionSuggestAlternateMethod,
     ActionWaitForPromiseToPay, ActionRetention, ActionEscalateToHuman, ActionStop]"

definition contactActions :: "ActionType list" where
  "contactActions = [ActionSendReminder, ActionSendPaymentLink, ActionSendCheckoutRecoveryLink,
     ActionRequestPaymentMethodUpdate, ActionSuggestAlternateMethod, ActionWaitForPromiseToPay, ActionRetention]"

definition retryActions :: "ActionType list" where
  "retryActions = [ActionRetryNow, ActionRetryLater]"

definition is_contact :: "ActionType \<Rightarrow> bool" where "is_contact a = (a \<in> set contactActions)"
definition is_retry :: "ActionType \<Rightarrow> bool" where "is_retry a = (a \<in> set retryActions)"

lemma contact_retry_disjoint: "is_contact a \<Longrightarrow> \<not> is_retry a"
  by (auto simp: is_contact_def is_retry_def contactActions_def retryActions_def)

lemma is_contact_isContact: "is_contact a = isContact a"
  by (cases a) (auto simp: is_contact_def contactActions_def)

lemma not_contact [simp]: "\<not> is_contact ActionWait" "\<not> is_contact ActionStop"
    "\<not> is_contact ActionEscalateToHuman"
  and not_retry [simp]: "\<not> is_retry ActionWait" "\<not> is_retry ActionStop"
    "\<not> is_retry ActionEscalateToHuman"
  by (simp_all add: is_contact_def contactActions_def is_retry_def retryActions_def)

definition compatible :: "LeakType \<Rightarrow> ActionType \<Rightarrow> bool" where
  "compatible leak action =
     (if action = ActionRetryNow \<or> action = ActionRetryLater \<or> action = ActionRequestPaymentMethodUpdate
         \<or> action = ActionWaitForPromiseToPay then leak = FailedSubscription
      else if action = ActionSendCheckoutRecoveryLink then leak = CheckoutAbandonment
      else True)"

definition intersection :: "string list \<Rightarrow> string list \<Rightarrow> string list" where
  "intersection a b = sort_by (<) (filter (\<lambda>v. v \<in> set b) a)"

record actionCounts =
  ac_day :: int
  ac_week :: int
  ac_retries :: int

definition count_action :: "time \<Rightarrow> actionCounts \<Rightarrow> RecentAction \<Rightarrow> actionCounts" where
  "count_action now c a =
     (let c = (if is_retry (re_Type a) then c\<lparr>ac_retries := ac_retries c + 1\<rparr> else c)
      in if is_contact (re_Type a) then
           (let age = Sub now (re_CreatedAt a);
                c = (if age \<le> 24 * Hour then c\<lparr>ac_day := ac_day c + 1\<rparr> else c)
            in if age \<le> 7 * 24 * Hour then c\<lparr>ac_week := ac_week c + 1\<rparr> else c)
         else c)"

definition counts :: "RecentAction list \<Rightarrow> time \<Rightarrow> actionCounts" where
  "counts actions now = foldl (count_action now) \<lparr>ac_day = 0, ac_week = 0, ac_retries = 0\<rparr> actions"

definition inCooldown :: "RecentAction list \<Rightarrow> ActionType \<Rightarrow> time \<Rightarrow> int \<Rightarrow> bool" where
  "inCooldown actions action now minutes =
     (0 < minutes \<and>
      list_ex (\<lambda>a. re_Type a = action \<and> Sub now (re_CreatedAt a) < i64 (minutes * Minute)) actions)"

text \<open>The quiet-hours test reads the hour of the UTC instant; undecodable hours are no hours.\<close>

definition quietHours :: "RawMessage \<Rightarrow> time \<Rightarrow> bool" where
  "quietHours raw now =
     (case (decode_string_field raw ''start'', decode_string_field raw ''end'') of
        (Some s, Some e) \<Rightarrow>
          (if s = [] \<or> e = [] then False
           else (case (parse_clock s, parse_clock e) of
                   (Some s, Some e) \<Rightarrow> in_window (minute_of_day now 0) s e
                 | _ \<Rightarrow> False))
      | _ \<Rightarrow> False)"

definition exclusion_reason :: "RecoveryDecisionContext \<Rightarrow> ActionType \<Rightarrow> string" where
  "exclusion_reason ctx action =
     (let now = tc_EvaluatedAt (Timing ctx);
          mctx = MerchantCtx ctx;
          channels = intersection (mc_AllowedChannels mctx) (ps_AvailableChannels (Payment ctx));
          contacts = counts (RecentActions ctx) now;
          inQuiet = quietHours (mc_QuietHours mctx) now
      in if ps_AlreadyRecovered (Payment ctx) \<or> rc_CurrentState (Case ctx) = StateRecovered then
           (if action \<noteq> ActionStop then ''PAYMENT_ALREADY_RECOVERED'' else [])
         else if \<not> now < rc_RecoveryDeadline (Case ctx) then
           (if action \<noteq> ActionStop then ''RECOVERY_WINDOW_EXPIRED'' else [])
         else if \<not> compatible (rc_LeakType (Case ctx)) action then ''LEAK_TYPE_INCOMPATIBLE''
         else if action \<noteq> ActionStop \<and> action \<noteq> ActionEscalateToHuman \<and> action \<noteq> ActionWait
             \<and> action \<notin> set (mc_AllowedActions mctx) then ''MERCHANT_ACTION_NOT_ALLOWED''
         else if (case ActivePromise ctx of Some p \<Rightarrow> pp_Status p = PromiseActive | None \<Rightarrow> False)
             \<and> (is_retry action \<or> is_contact action) \<and> action \<noteq> ActionWaitForPromiseToPay
           then ''ACTIVE_PROMISE_TO_PAY''
         else if cp_OptedOut (Profile ctx) \<and> is_contact action then ''CUSTOMER_OPT_OUT''
         else if is_contact action \<and> length channels = 0 then ''CHANNEL_UNAVAILABLE''
         else if is_contact action \<and> inQuiet then ''QUIET_HOURS''
         else if is_contact action \<and> (mc_MaxContactsPerDay mctx \<le> ac_day contacts
             \<or> mc_MaxContactsPerWeek mctx \<le> ac_week contacts) then ''MAX_CONTACTS_REACHED''
         else if is_retry action \<and> mc_MaxRetries mctx \<le> ac_retries contacts then ''MAX_RETRIES_REACHED''
         else if is_retry action \<and> (ps_MandateStatus (Payment ctx) = ''REVOKED''
             \<or> ps_MandateStatus (Payment ctx) = ''FAILED'') then ''MANDATE_UNAVAILABLE''
         else if is_retry action \<and> ps_PaymentMethodStatus (Payment ctx) = ''INVALID'' then ''PAYMENT_METHOD_INVALID''
         else if is_retry action
             \<and> inCooldown (RecentActions ctx) action now (mc_MinimumContactIntervalMinutes mctx)
           then ''RETRY_COOLDOWN''
         else if is_contact action
             \<and> inCooldown (RecentActions ctx) action now (mc_MinimumContactIntervalMinutes mctx)
           then ''ACTION_COOLDOWN''
         else [])"

definition Evaluate :: "RecoveryDecisionContext \<Rightarrow> Result" where
  "Evaluate ctx =
     \<lparr>EligibleActions = filter (\<lambda>a. exclusion_reason ctx a = []) allActions,
      ExcludedActions = map (\<lambda>a. \<lparr>ex_Action = a, ex_Reason = exclusion_reason ctx a, ex_Explanation = []\<rparr>)
        (filter (\<lambda>a. exclusion_reason ctx a \<noteq> []) allActions),
      EvaluatedAt = tc_EvaluatedAt (Timing ctx)\<rparr>"

text \<open>\<open>FilterThenPredict\<close>, over any predictor: \<open>Inl\<close> is the error it returns.\<close>

definition FilterThenPredict ::
  "(RecoveryDecisionContext \<Rightarrow> ActionType list \<Rightarrow> (string, 'a) result) \<Rightarrow> RecoveryDecisionContext
    \<Rightarrow> (string, 'a) result" where
  "FilterThenPredict predict ctx =
     (let result = Evaluate ctx
      in if length (EligibleActions result) = 0 then Inl ''no eligible actions''
         else predict ctx (EligibleActions result))"

section \<open>Counting\<close>

lemma counts_Cons_nonneg: "0 \<le> ac_day c \<Longrightarrow> 0 \<le> ac_day (foldl (count_action now) c as)"
  by (induction as arbitrary: c) (auto simp: count_action_def Let_def)

lemma foldl_counts:
  "ac_day (foldl (count_action now) c as) = ac_day c +
     int (length (filter (\<lambda>a. is_contact (re_Type a) \<and> Sub now (re_CreatedAt a) \<le> 24 * Hour) as))"
  "ac_week (foldl (count_action now) c as) = ac_week c +
     int (length (filter (\<lambda>a. is_contact (re_Type a) \<and> Sub now (re_CreatedAt a) \<le> 7 * 24 * Hour) as))"
  "ac_retries (foldl (count_action now) c as) = ac_retries c +
     int (length (filter (\<lambda>a. is_retry (re_Type a)) as))"
  by (induction as arbitrary: c) (auto simp: count_action_def Let_def contact_retry_disjoint)

lemma counts_filter:
  "ac_day (counts as now) =
     int (length (filter (\<lambda>a. is_contact (re_Type a) \<and> Sub now (re_CreatedAt a) \<le> 24 * Hour) as))"
  "ac_week (counts as now) =
     int (length (filter (\<lambda>a. is_contact (re_Type a) \<and> Sub now (re_CreatedAt a) \<le> 7 * 24 * Hour) as))"
  "ac_retries (counts as now) = int (length (filter (\<lambda>a. is_retry (re_Type a)) as))"
  by (simp_all add: counts_def foldl_counts)

lemma mem_eligible: "a \<in> set (EligibleActions (Evaluate ctx)) \<longleftrightarrow>
    a \<in> set allActions \<and> exclusion_reason ctx a = []"
  by (auto simp: Evaluate_def)

lemma stop_not_excluded: "exclusion_reason ctx ActionStop = []"
  unfolding exclusion_reason_def Let_def compatible_def by simp

text \<open>The \<open>switch\<close> as a conjunction: an action passes when no branch before the end takes it.\<close>

definition promise_active :: "RecoveryDecisionContext \<Rightarrow> bool" where
  "promise_active ctx = (case ActivePromise ctx of Some p \<Rightarrow> pp_Status p = PromiseActive | None \<Rightarrow> False)"

lemma branch_passed: "(if c then r # rs else x) = [] \<longleftrightarrow> \<not> c \<and> x = []"
  by simp

lemma exclusion_reason_none:
  assumes "a \<noteq> ActionStop"
  shows "exclusion_reason ctx a = [] \<longleftrightarrow>
    (let now = tc_EvaluatedAt (Timing ctx); mctx = MerchantCtx ctx; c = counts (RecentActions ctx) now in
     \<not> (ps_AlreadyRecovered (Payment ctx) \<or> rc_CurrentState (Case ctx) = StateRecovered)
     \<and> now < rc_RecoveryDeadline (Case ctx)
     \<and> compatible (rc_LeakType (Case ctx)) a
     \<and> \<not> (a \<noteq> ActionEscalateToHuman \<and> a \<noteq> ActionWait \<and> a \<notin> set (mc_AllowedActions mctx))
     \<and> \<not> (promise_active ctx \<and> (is_retry a \<or> is_contact a) \<and> a \<noteq> ActionWaitForPromiseToPay)
     \<and> \<not> (cp_OptedOut (Profile ctx) \<and> is_contact a)
     \<and> \<not> (is_contact a \<and> length (intersection (mc_AllowedChannels mctx) (ps_AvailableChannels (Payment ctx))) = 0)
     \<and> \<not> (is_contact a \<and> quietHours (mc_QuietHours mctx) now)
     \<and> \<not> (is_contact a \<and> (mc_MaxContactsPerDay mctx \<le> ac_day c \<or> mc_MaxContactsPerWeek mctx \<le> ac_week c))
     \<and> \<not> (is_retry a \<and> mc_MaxRetries mctx \<le> ac_retries c)
     \<and> \<not> (is_retry a \<and> (ps_MandateStatus (Payment ctx) = ''REVOKED'' \<or> ps_MandateStatus (Payment ctx) = ''FAILED''))
     \<and> \<not> (is_retry a \<and> ps_PaymentMethodStatus (Payment ctx) = ''INVALID'')
     \<and> \<not> (is_retry a \<and> inCooldown (RecentActions ctx) a now (mc_MinimumContactIntervalMinutes mctx))
     \<and> \<not> (is_contact a \<and> inCooldown (RecentActions ctx) a now (mc_MinimumContactIntervalMinutes mctx)))"
  unfolding exclusion_reason_def Let_def promise_active_def [symmetric]
  by (simp only: branch_passed assms not_False_eq_True if_True simp_thms not_not)

lemmas excl_none = exclusion_reason_none [unfolded Let_def]

lemma exclusion_reasonD:
  assumes "exclusion_reason ctx a = []" and "a \<noteq> ActionStop"
  shows "\<not> ps_AlreadyRecovered (Payment ctx)" "rc_CurrentState (Case ctx) \<noteq> StateRecovered"
    "tc_EvaluatedAt (Timing ctx) < rc_RecoveryDeadline (Case ctx)"
    "compatible (rc_LeakType (Case ctx)) a"
    "a = ActionEscalateToHuman \<or> a = ActionWait \<or> a \<in> set (mc_AllowedActions (MerchantCtx ctx))"
  using assms(1) unfolding excl_none [OF assms(2)] by blast+

lemma active_promiseD:
  assumes "exclusion_reason ctx a = []" and "is_contact a \<or> is_retry a" and "ActivePromise ctx = Some p"
    and "pp_Status p = PromiseActive"
  shows "a = ActionWaitForPromiseToPay"
proof -
  have "a \<noteq> ActionStop" using assms(2) by auto
  moreover have "promise_active ctx" using assms(3,4) by (simp add: promise_active_def)
  ultimately show ?thesis using assms(1,2) excl_none by blast
qed

lemma contact_channels_eq: "length (intersection a b) = 0 \<longleftrightarrow> set a \<inter> set b = {}"
  by (auto simp: intersection_def simp flip: set_empty2)

lemma contact_exclusionD:
  assumes "exclusion_reason ctx a = []" and "is_contact a"
  shows "\<not> cp_OptedOut (Profile ctx)"
    "set (mc_AllowedChannels (MerchantCtx ctx)) \<inter> set (ps_AvailableChannels (Payment ctx)) \<noteq> {}"
    "\<not> quietHours (mc_QuietHours (MerchantCtx ctx)) (tc_EvaluatedAt (Timing ctx))"
    "ac_day (counts (RecentActions ctx) (tc_EvaluatedAt (Timing ctx))) < mc_MaxContactsPerDay (MerchantCtx ctx)"
    "ac_week (counts (RecentActions ctx) (tc_EvaluatedAt (Timing ctx))) < mc_MaxContactsPerWeek (MerchantCtx ctx)"
    "\<not> inCooldown (RecentActions ctx) a (tc_EvaluatedAt (Timing ctx))
       (mc_MinimumContactIntervalMinutes (MerchantCtx ctx))"
proof -
  have "a \<noteq> ActionStop" "\<not> is_retry a" using assms(2) contact_retry_disjoint by auto
  show "\<not> cp_OptedOut (Profile ctx)"
    "set (mc_AllowedChannels (MerchantCtx ctx)) \<inter> set (ps_AvailableChannels (Payment ctx)) \<noteq> {}"
    "\<not> quietHours (mc_QuietHours (MerchantCtx ctx)) (tc_EvaluatedAt (Timing ctx))"
    "ac_day (counts (RecentActions ctx) (tc_EvaluatedAt (Timing ctx))) < mc_MaxContactsPerDay (MerchantCtx ctx)"
    "ac_week (counts (RecentActions ctx) (tc_EvaluatedAt (Timing ctx))) < mc_MaxContactsPerWeek (MerchantCtx ctx)"
    "\<not> inCooldown (RecentActions ctx) a (tc_EvaluatedAt (Timing ctx))
       (mc_MinimumContactIntervalMinutes (MerchantCtx ctx))"
    using assms unfolding excl_none [OF \<open>a \<noteq> ActionStop\<close>] contact_channels_eq not_le [symmetric]
    by blast+
qed

lemma retry_exclusionD:
  assumes "exclusion_reason ctx a = []" and "is_retry a"
  shows "ac_retries (counts (RecentActions ctx) (tc_EvaluatedAt (Timing ctx))) < mc_MaxRetries (MerchantCtx ctx)"
    "ps_MandateStatus (Payment ctx) \<noteq> ''REVOKED''" "ps_MandateStatus (Payment ctx) \<noteq> ''FAILED''"
    "ps_PaymentMethodStatus (Payment ctx) \<noteq> ''INVALID''"
    "rc_LeakType (Case ctx) = FailedSubscription"
    "\<not> inCooldown (RecentActions ctx) a (tc_EvaluatedAt (Timing ctx))
       (mc_MinimumContactIntervalMinutes (MerchantCtx ctx))"
proof -
  have "a \<noteq> ActionStop" "\<not> is_contact a" using assms(2) contact_retry_disjoint by auto
  note d = exclusion_reasonD [OF assms(1) this(1)]
  show "rc_LeakType (Case ctx) = FailedSubscription"
    using d(4) assms(2) by (auto simp: compatible_def is_retry_def retryActions_def)
  show "ac_retries (counts (RecentActions ctx) (tc_EvaluatedAt (Timing ctx))) < mc_MaxRetries (MerchantCtx ctx)"
    "ps_MandateStatus (Payment ctx) \<noteq> ''REVOKED''" "ps_MandateStatus (Payment ctx) \<noteq> ''FAILED''"
    "ps_PaymentMethodStatus (Payment ctx) \<noteq> ''INVALID''"
    "\<not> inCooldown (RecentActions ctx) a (tc_EvaluatedAt (Timing ctx))
       (mc_MinimumContactIntervalMinutes (MerchantCtx ctx))"
    using assms unfolding excl_none [OF \<open>a \<noteq> ActionStop\<close>] not_le [symmetric]
    by blast+
qed

section \<open>Properties\<close>

text \<open>C14. Every contact action that survives the filter respects every customer protection at
  once: the customer has not opted out, some channel is both allowed and available, it is not
  quiet hours, fewer contacts than the daily and weekly caps were made in the last 24 hours
  and 7 days, the same action is out of its cool-down, the case is neither recovered nor past
  its deadline, the merchant allows the action, and an active promise-to-pay leaves only the
  promise wait itself.\<close>

theorem eligible_contact_is_protected:
  assumes "a \<in> set (EligibleActions (Evaluate ctx))" and "is_contact a"
  defines "now \<equiv> tc_EvaluatedAt (Timing ctx)"
  shows "\<not> cp_OptedOut (Profile ctx)
    \<and> set (mc_AllowedChannels (MerchantCtx ctx)) \<inter> set (ps_AvailableChannels (Payment ctx)) \<noteq> {}
    \<and> \<not> quietHours (mc_QuietHours (MerchantCtx ctx)) now
    \<and> int (length (filter (\<lambda>r. is_contact (re_Type r) \<and> Sub now (re_CreatedAt r) \<le> 24 * Hour) (RecentActions ctx)))
        < mc_MaxContactsPerDay (MerchantCtx ctx)
    \<and> int (length (filter (\<lambda>r. is_contact (re_Type r) \<and> Sub now (re_CreatedAt r) \<le> 7 * 24 * Hour) (RecentActions ctx)))
        < mc_MaxContactsPerWeek (MerchantCtx ctx)
    \<and> \<not> inCooldown (RecentActions ctx) a now (mc_MinimumContactIntervalMinutes (MerchantCtx ctx))
    \<and> rc_CurrentState (Case ctx) \<noteq> StateRecovered \<and> now < rc_RecoveryDeadline (Case ctx)
    \<and> a \<in> set (mc_AllowedActions (MerchantCtx ctx))
    \<and> (\<forall>p. ActivePromise ctx = Some p \<and> pp_Status p = PromiseActive \<longrightarrow> a = ActionWaitForPromiseToPay)"
proof -
  have e: "exclusion_reason ctx a = []" using assms(1) by (simp add: mem_eligible)
  have "a \<noteq> ActionStop" "a \<noteq> ActionWait" "a \<noteq> ActionEscalateToHuman" using assms(2) by auto
  then show ?thesis
    using contact_exclusionD [OF e assms(2)] exclusion_reasonD [OF e] active_promiseD [OF e] assms(2)
    unfolding now_def counts_filter by blast
qed

definition contact_example :: RecoveryDecisionContext where
  "contact_example = viable_context (1000 * Hour)\<lparr>Timing := \<lparr>tc_EvaluatedAt = 1000 * Hour,
     tc_HoursSinceLeak = 0, tc_HoursUntilDeadline = 24\<rparr>\<rparr>"

lemma contact_example_eligible: "ActionSendReminder \<in> set (EligibleActions (Evaluate contact_example))"
proof -
  have "intersection [''email''] [''email''] = [''email'']"
    by (simp add: intersection_def)
  then have "exclusion_reason contact_example ActionSendReminder = []"
    by (simp add: excl_none contact_example_def viable_defs counts_def inCooldown_def quietHours_def
        compatible_def promise_active_def Hour_def is_retry_def retryActions_def)
  then show ?thesis by (simp add: mem_eligible allActions_def)
qed

theorem eligible_contact_is_protected_witness:
  "ActionSendReminder \<in> set (EligibleActions (Evaluate contact_example))
   \<and> \<not> cp_OptedOut (Profile contact_example)"
proof -
  have c: "is_contact ActionSendReminder" by (simp add: is_contact_def contactActions_def)
  show ?thesis
    using contact_example_eligible eligible_contact_is_protected [OF contact_example_eligible c] by blast
qed

text \<open>Every automatic retry that survives the filter is on a failed subscription, under the
  merchant's retry cap (counting every retry in the history), with a usable mandate and
  payment method, outside the retry cool-down, and never while a promise-to-pay is active.\<close>

theorem eligible_retry_is_bounded:
  assumes "a \<in> set (EligibleActions (Evaluate ctx))" and "is_retry a"
  shows "rc_LeakType (Case ctx) = FailedSubscription
    \<and> int (length (filter (\<lambda>r. is_retry (re_Type r)) (RecentActions ctx))) < mc_MaxRetries (MerchantCtx ctx)
    \<and> ps_MandateStatus (Payment ctx) \<notin> {''REVOKED'', ''FAILED''}
    \<and> ps_PaymentMethodStatus (Payment ctx) \<noteq> ''INVALID''
    \<and> \<not> inCooldown (RecentActions ctx) a (tc_EvaluatedAt (Timing ctx))
         (mc_MinimumContactIntervalMinutes (MerchantCtx ctx))
    \<and> (\<forall>p. ActivePromise ctx = Some p \<longrightarrow> pp_Status p \<noteq> PromiseActive)"
proof -
  have e: "exclusion_reason ctx a = []" using assms(1) by (simp add: mem_eligible)
  have "a \<noteq> ActionWaitForPromiseToPay"
    using assms(2) by (auto simp: is_retry_def retryActions_def)
  then show ?thesis
    using retry_exclusionD [OF e assms(2)] active_promiseD [OF e] assms(2)
    unfolding counts_filter by blast
qed

definition retry_example :: RecoveryDecisionContext where
  "retry_example = contact_example\<lparr>Case := (Case contact_example)\<lparr>rc_LeakType := FailedSubscription\<rparr>\<rparr>"

lemma retry_example_eligible: "ActionRetryNow \<in> set (EligibleActions (Evaluate retry_example))"
proof -
  have "exclusion_reason retry_example ActionRetryNow = []"
    by (simp add: excl_none retry_example_def contact_example_def viable_defs counts_def inCooldown_def
        compatible_def promise_active_def Hour_def is_contact_def contactActions_def)
  then show ?thesis by (simp add: mem_eligible allActions_def)
qed

theorem eligible_retry_is_bounded_witness:
  "ActionRetryNow \<in> set (EligibleActions (Evaluate retry_example))
   \<and> ps_MandateStatus (Payment retry_example) \<notin> {''REVOKED'', ''FAILED''}"
proof -
  have r: "is_retry ActionRetryNow" by (simp add: is_retry_def retryActions_def)
  show ?thesis
    using retry_example_eligible eligible_retry_is_bounded [OF retry_example_eligible r] by blast
qed

text \<open>The filter splits the twelve actions without loss, duplication or reordering; STOP is
  always eligible, so prediction is never refused for want of an eligible action; and for a
  recovered or expired case STOP is the only eligible action.\<close>

theorem eligibility_partition:
  fixes predict :: "RecoveryDecisionContext \<Rightarrow> ActionType list \<Rightarrow> (string, 'a) Prelude.result"
  shows "mset (EligibleActions (Evaluate ctx)) + mset (map ex_Action (ExcludedActions (Evaluate ctx))) = mset allActions
    \<and> distinct (EligibleActions (Evaluate ctx) @ map ex_Action (ExcludedActions (Evaluate ctx)))
    \<and> subseq (EligibleActions (Evaluate ctx)) allActions
    \<and> (\<forall>x \<in> set (ExcludedActions (Evaluate ctx)). ex_Reason x \<noteq> [])
    \<and> FilterThenPredict predict ctx = predict ctx (EligibleActions (Evaluate ctx))
    \<and> (ps_AlreadyRecovered (Payment ctx) \<or> rc_CurrentState (Case ctx) = StateRecovered
        \<or> rc_RecoveryDeadline (Case ctx) \<le> tc_EvaluatedAt (Timing ctx)
        \<longrightarrow> EligibleActions (Evaluate ctx) = [ActionStop])"
proof (intro conjI impI)
  have d: "distinct allActions" by (simp add: allActions_def)
  have m: "map ex_Action (ExcludedActions (Evaluate ctx)) = filter (\<lambda>a. exclusion_reason ctx a \<noteq> []) allActions"
    by (simp add: Evaluate_def comp_def)
  have stop: "ActionStop \<in> set (EligibleActions (Evaluate ctx))"
    by (simp add: mem_eligible stop_not_excluded allActions_def)
  show "mset (EligibleActions (Evaluate ctx)) + mset (map ex_Action (ExcludedActions (Evaluate ctx))) = mset allActions"
    unfolding m by (simp add: Evaluate_def mset_filter)
  show "distinct (EligibleActions (Evaluate ctx) @ map ex_Action (ExcludedActions (Evaluate ctx)))"
    unfolding m using d by (auto simp: Evaluate_def)
  show "subseq (EligibleActions (Evaluate ctx)) allActions" by (simp add: Evaluate_def)
  show "\<forall>x \<in> set (ExcludedActions (Evaluate ctx)). ex_Reason x \<noteq> []" by (simp add: Evaluate_def)
  show "FilterThenPredict predict ctx = predict ctx (EligibleActions (Evaluate ctx))"
    using stop by (auto simp: FilterThenPredict_def Let_def)
  assume "ps_AlreadyRecovered (Payment ctx) \<or> rc_CurrentState (Case ctx) = StateRecovered
        \<or> rc_RecoveryDeadline (Case ctx) \<le> tc_EvaluatedAt (Timing ctx)"
  then have "exclusion_reason ctx a = [] \<longleftrightarrow> a = ActionStop" for a
    using exclusion_reasonD(1-3) [of ctx a] stop_not_excluded [of ctx]
    by (cases "a = ActionStop") auto
  then show "EligibleActions (Evaluate ctx) = [ActionStop]"
    by (simp add: Evaluate_def allActions_def)
qed

definition recovered_example :: RecoveryDecisionContext where
  "recovered_example = contact_example\<lparr>Case := (Case contact_example)\<lparr>rc_CurrentState := StateRecovered\<rparr>\<rparr>"

theorem eligibility_partition_witness: "EligibleActions (Evaluate recovered_example) = [ActionStop]"
proof -
  have "rc_CurrentState (Case recovered_example) = StateRecovered" by (simp add: recovered_example_def)
  then show ?thesis
    using eligibility_partition [where ctx = recovered_example and predict = "\<lambda>_ _. Inr ()"] by blast
qed

end
