(* ===== verification/Optimizer.thy ===== *)
theory Optimizer
  imports Decision_Context
begin

text \<open>
  Package \<open>optimizer\<close> (\<open>internal/optimizer/optimizer.go\<close>): one candidate per action with a
  predicted probability, its net expected recovery value (NERV) and objective score in minor
  units, and the ranking. The runtime iterates the map \<open>byAction\<close> in an unspecified order:
  \<open>Rank_in\<close> takes that order as an argument and \<open>Rank\<close> uses one fixed order; that the choice
  does not matter is the first property.
\<close>

record Cost =
  co_ChannelMinor :: int
  co_OperationalMinor :: int
  co_Contact :: bool

record CostModel =
  cm_Version :: string
  cm_Actions :: "ActionType \<Rightarrow> Cost"
  cm_FatiguePenaltyBPS :: int
  cm_RiskPenaltyBPS :: int
  cm_RetentionIncentiveBPS :: int

text \<open>
  The default cost table. A lookup of a missing key in the Go map gives the zero cost, which
  is the last equation.
\<close>

fun default_cost :: "ActionType \<Rightarrow> Cost" where
  "default_cost ActionWait = \<lparr>co_ChannelMinor = 0, co_OperationalMinor = 0, co_Contact = False\<rparr>"
| "default_cost ActionRetryNow = \<lparr>co_ChannelMinor = 0, co_OperationalMinor = 35, co_Contact = False\<rparr>"
| "default_cost ActionRetryLater = \<lparr>co_ChannelMinor = 0, co_OperationalMinor = 35, co_Contact = False\<rparr>"
| "default_cost ActionSendReminder = \<lparr>co_ChannelMinor = 25, co_OperationalMinor = 0, co_Contact = True\<rparr>"
| "default_cost ActionSendPaymentLink = \<lparr>co_ChannelMinor = 25, co_OperationalMinor = 45, co_Contact = True\<rparr>"
| "default_cost ActionSendCheckoutRecoveryLink = \<lparr>co_ChannelMinor = 25, co_OperationalMinor = 45, co_Contact = True\<rparr>"
| "default_cost ActionRequestPaymentMethodUpdate = \<lparr>co_ChannelMinor = 25, co_OperationalMinor = 35, co_Contact = True\<rparr>"
| "default_cost ActionSuggestAlternateMethod = \<lparr>co_ChannelMinor = 25, co_OperationalMinor = 30, co_Contact = True\<rparr>"
| "default_cost ActionWaitForPromiseToPay = \<lparr>co_ChannelMinor = 0, co_OperationalMinor = 10, co_Contact = False\<rparr>"
| "default_cost ActionRetention = \<lparr>co_ChannelMinor = 25, co_OperationalMinor = 100, co_Contact = True\<rparr>"
| "default_cost _ = \<lparr>co_ChannelMinor = 0, co_OperationalMinor = 0, co_Contact = False\<rparr>"

definition DefaultCostModel :: CostModel where
  "DefaultCostModel = \<lparr>cm_Version = ''cost-v1'', cm_Actions = default_cost, cm_FatiguePenaltyBPS = 80,
     cm_RiskPenaltyBPS = 50, cm_RetentionIncentiveBPS = 500\<rparr>"

text \<open>\<open>decisionclient.OutcomePrediction\<close>: the action arrives as a string.\<close>

record OutcomePrediction =
  pr_Action :: string
  pr_RecoveryProbability :: float64
  pr_ModelVersion :: string
  pr_FeatureVersion :: string
  pr_PredictionTimestamp :: time

record Candidate =
  cd_Action :: ActionType
  cd_ActionRecoveryProbability :: float64
  cd_NaturalRecoveryProbability :: float64
  cd_IncrementalUplift :: float64
  cd_GrossIncrementalValueMinor :: int
  cd_ChannelCostMinor :: int
  cd_IncentiveCostMinor :: int
  cd_OperationalCostMinor :: int
  cd_FatiguePenaltyMinor :: int
  cd_RiskPenaltyMinor :: int
  cd_NERVMinor :: int
  cd_ObjectiveScoreMinor :: int
  cd_Rank :: int
  cd_ReasonCodes :: "string list"

record RankResult =
  rr_OptimizerVersion :: string
  rr_CostModelVersion :: string
  rr_MerchantObjective :: string
  rr_Candidates :: "Candidate list"
  rr_Selected :: Candidate
  rr_CreatedAt :: time
  rr_MerchantProfileID :: ID
  rr_MerchantProfileVersion :: int

definition probabilityValue :: "int \<Rightarrow> float64 \<Rightarrow> int" where
  "probabilityValue amount probability =
     mulDiv amount (int64_of (math_Round (fmul probability (float_of 1000000)))) 1000000"

definition objectiveScore :: "MerchantContext \<Rightarrow> int \<Rightarrow> int \<Rightarrow> int \<Rightarrow> int \<Rightarrow> int \<Rightarrow> int \<Rightarrow> int" where
  "objectiveScore ctx amountAtRisk gross nerv cost fatigue risk =
     (if 0 < mc_OptimizationProfileVersion ctx then
        (let retention = i64 (gross - risk);
             contact = (if 0 < fatigue then amountAtRisk else 0)
         in i64 (mulDiv gross (mc_RevenueWeightBPS ctx) 10000 + mulDiv retention (mc_RetentionWeightBPS ctx) 10000
              - mulDiv contact (mc_ContactPenaltyWeightBPS ctx) 10000 - mulDiv cost (mc_CostPenaltyWeightBPS ctx) 10000
              - mulDiv fatigue (mc_FatiguePenaltyWeightBPS ctx) 10000 - mulDiv risk (mc_RiskPenaltyWeightBPS ctx) 10000))
      else if mc_RecoveryObjective ctx = ''MINIMIZE_CONTACT'' then i64 (nerv - i64 (fatigue * 2))
      else if mc_RecoveryObjective ctx = ''MINIMIZE_RECOVERY_COST'' then i64 (nerv - cost)
      else if mc_RecoveryObjective ctx = ''MAXIMIZE_RETENTION'' then i64 (nerv - risk)
      else if mc_RecoveryObjective ctx = ''BALANCED'' then i64 (nerv - quo (i64 (fatigue + risk)) 2)
      else nerv)"

text \<open>The body of the loop over \<open>byAction\<close>.\<close>

definition fatigue_penalty :: "RecoveryDecisionContext \<Rightarrow> CostModel \<Rightarrow> Cost \<Rightarrow> int" where
  "fatigue_penalty ctx costs cost =
     (if co_Contact cost then
        mulDiv (rc_AmountAtRiskMinor (Case ctx))
          (int64_of (math_Round (fmul (cp_RecoveryFatigue (Profile ctx)) (float_of (cm_FatiguePenaltyBPS costs))))) 10000
      else 0)"

definition risk_penalty :: "RecoveryDecisionContext \<Rightarrow> CostModel \<Rightarrow> ActionType \<Rightarrow> int" where
  "risk_penalty ctx costs action =
     (if action = ActionWait then 0
      else mulDiv (rc_AmountAtRiskMinor (Case ctx))
          (int64_of (math_Round (fmul (fsub 1 (dg_Confidence (Diag ctx))) (float_of (cm_RiskPenaltyBPS costs))))) 10000)"

definition incentive_cost :: "RecoveryDecisionContext \<Rightarrow> CostModel \<Rightarrow> ActionType \<Rightarrow> int" where
  "incentive_cost ctx costs action =
     (if action = ActionRetention then
        (let incentive = mulDiv (rc_AmountAtRiskMinor (Case ctx)) (cm_RetentionIncentiveBPS costs) 10000;
             max = mc_MaximumIncentiveMinor (MerchantCtx ctx)
         in if 0 < max \<and> max < incentive then max else incentive)
      else 0)"

definition candidate_of ::
  "RecoveryDecisionContext \<Rightarrow> float64 \<Rightarrow> CostModel \<Rightarrow> ActionType \<Rightarrow> float64 \<Rightarrow> Candidate" where
  "candidate_of ctx natural costs action probability =
     (let uplift = fsub probability natural;
          amount = rc_AmountAtRiskMinor (Case ctx);
          gross = probabilityValue amount uplift;
          cost = cm_Actions costs action;
          fatigue = fatigue_penalty ctx costs cost;
          risk = risk_penalty ctx costs action;
          incentive = incentive_cost ctx costs action;
          nerv = i64 (gross - co_ChannelMinor cost - co_OperationalMinor cost - incentive - fatigue - risk);
          score = objectiveScore (MerchantCtx ctx) amount gross nerv
                    (i64 (co_ChannelMinor cost + co_OperationalMinor cost + incentive)) fatigue risk;
          reasons = [''INCREMENTAL_VALUE_SCORING'']
            @ (if uplift < 0 then [''NEGATIVE_INCREMENTAL_UPLIFT''] else [])
            @ (if action = ActionWait then [''NATURAL_RECOVERY_REFERENCE''] else [])
            @ (if nerv < 0 then [''NEGATIVE_NERV''] else [])
      in \<lparr>cd_Action = action, cd_ActionRecoveryProbability = probability, cd_NaturalRecoveryProbability = natural,
          cd_IncrementalUplift = uplift, cd_GrossIncrementalValueMinor = gross,
          cd_ChannelCostMinor = co_ChannelMinor cost, cd_IncentiveCostMinor = incentive,
          cd_OperationalCostMinor = co_OperationalMinor cost, cd_FatiguePenaltyMinor = fatigue,
          cd_RiskPenaltyMinor = risk, cd_NERVMinor = nerv, cd_ObjectiveScoreMinor = score, cd_Rank = 0,
          cd_ReasonCodes = reasons\<rparr>)"

text \<open>The comparator of \<open>sort.Slice\<close>: score, then NERV, then the action's spelling.\<close>

definition candidate_less :: "Candidate \<Rightarrow> Candidate \<Rightarrow> bool" where
  "candidate_less a b =
     (if cd_ObjectiveScoreMinor a \<noteq> cd_ObjectiveScoreMinor b then cd_ObjectiveScoreMinor b < cd_ObjectiveScoreMinor a
      else if cd_NERVMinor a \<noteq> cd_NERVMinor b then cd_NERVMinor b < cd_NERVMinor a
      else action_string (cd_Action a) < action_string (cd_Action b))"

fun set_ranks :: "int \<Rightarrow> Candidate list \<Rightarrow> Candidate list" where
  "set_ranks n [] = []"
| "set_ranks n (c # cs) = c\<lparr>cd_Rank := n\<rparr> # set_ranks (n + 1) cs"

definition byAction :: "OutcomePrediction list \<Rightarrow> float64 \<Rightarrow> ActionType \<rightharpoonup> float64" where
  "byAction predictions natural =
     (foldl (\<lambda>m p. m(action_of (pr_Action p) \<mapsto> pr_RecoveryProbability p)) Map.empty predictions)
       (ActionWait \<mapsto> natural)"

definition rank_candidates ::
  "RecoveryDecisionContext \<Rightarrow> (ActionType \<rightharpoonup> float64) \<Rightarrow> float64 \<Rightarrow> CostModel \<Rightarrow> ActionType list \<Rightarrow> Candidate list" where
  "rank_candidates ctx by natural costs order =
     map (\<lambda>a. candidate_of ctx natural costs a (case by a of Some p \<Rightarrow> p | None \<Rightarrow> 0)) order"

definition Rank_in :: "ActionType list \<Rightarrow> RecoveryDecisionContext \<Rightarrow> OutcomePrediction list \<Rightarrow> float64
    \<Rightarrow> CostModel \<Rightarrow> time \<Rightarrow> RankResult" where
  "Rank_in order ctx predictions natural costs now =
     (let candidates = set_ranks 1 (sort_by candidate_less
            (rank_candidates ctx (byAction predictions natural) natural costs order))
      in \<lparr>rr_OptimizerVersion = ''nba-v2-profiled'', rr_CostModelVersion = cm_Version costs,
          rr_MerchantObjective = mc_RecoveryObjective (MerchantCtx ctx), rr_Candidates = candidates,
          rr_Selected = candidates ! 0, rr_CreatedAt = now,
          rr_MerchantProfileID = mc_OptimizationProfileID (MerchantCtx ctx),
          rr_MerchantProfileVersion = mc_OptimizationProfileVersion (MerchantCtx ctx)\<rparr>)"

definition byAction_keys :: "OutcomePrediction list \<Rightarrow> ActionType list" where
  "byAction_keys predictions = remdups (ActionWait # map (\<lambda>p. action_of (pr_Action p)) predictions)"

definition Rank :: "RecoveryDecisionContext \<Rightarrow> OutcomePrediction list \<Rightarrow> float64 \<Rightarrow> CostModel \<Rightarrow> time
    \<Rightarrow> RankResult" where
  "Rank ctx predictions natural costs now =
     Rank_in (byAction_keys predictions) ctx predictions natural costs now"

section \<open>The ranking\<close>

lemma dom_byAction: "dom (byAction predictions natural) = set (byAction_keys predictions)"
proof -
  have "dom (foldl (\<lambda>m p. m(action_of (pr_Action p) \<mapsto> pr_RecoveryProbability p)) m predictions)
      = dom m \<union> (\<lambda>p. action_of (pr_Action p)) ` set predictions" for m
    by (induction predictions arbitrary: m) auto
  then show ?thesis by (auto simp: byAction_def byAction_keys_def)
qed

lemma cd_Action_candidate_of [simp]: "cd_Action (candidate_of ctx natural costs a p) = a"
  by (simp add: candidate_of_def Let_def)

lemma candidate_less_weak: "weak_order A candidate_less"
  by unfold_locales (auto simp: candidate_less_def split: if_splits)

text \<open>
  The candidates of one call are told apart by their actions, so the comparator is a strict
  total order on them and the sort has one possible result.
\<close>

definition call_candidates ::
  "RecoveryDecisionContext \<Rightarrow> float64 \<Rightarrow> CostModel \<Rightarrow> (ActionType \<Rightarrow> float64) \<Rightarrow> Candidate set" where
  "call_candidates ctx natural costs p =
     (\<lambda>a. candidate_of ctx natural costs a (p a)) ` {a. proper_action a}"

interpretation ranking: strict_order "call_candidates ctx natural costs p" candidate_less
  for ctx natural costs p
proof (intro strict_order.intro candidate_less_weak strict_order_axioms.intro)
  fix a b
  assume "a \<in> call_candidates ctx natural costs p" "b \<in> call_candidates ctx natural costs p" "a \<noteq> b"
  then have "action_string (cd_Action a) \<noteq> action_string (cd_Action b)"
    by (auto simp: call_candidates_def dest: action_string_inj)
  then show "candidate_less a b \<or> candidate_less b a"
    by (auto simp: candidate_less_def)
qed

lemma set_ranks_nth: "i < length cs \<Longrightarrow> set_ranks n cs ! i = (cs ! i)\<lparr>cd_Rank := n + int i\<rparr>"
  by (induction cs arbitrary: n i) (auto simp: nth_Cons' algebra_simps split: nat.splits)

lemma length_set_ranks [simp]: "length (set_ranks n cs) = length cs"
  by (induction cs arbitrary: n) auto

lemma map_set_ranks:
  "(\<And>c r. f (c\<lparr>cd_Rank := r\<rparr>) = f c) \<Longrightarrow> map f (set_ranks n cs) = map f cs"
  by (induction cs arbitrary: n) auto

lemma ranks_set_ranks: "map cd_Rank (set_ranks n cs) = [n .. n + int (length cs) - 1]"
  by (induction cs arbitrary: n) (auto simp: upto_rec1 algebra_simps)

lemma proper_keys: "a \<in> set (byAction_keys predictions) \<Longrightarrow> proper_action a"
  by (auto simp: byAction_keys_def split: if_splits)

lemma rank_candidates_carrier:
  "set order \<subseteq> set (byAction_keys predictions) \<Longrightarrow>
   set (rank_candidates ctx by natural costs order) \<subseteq>
     call_candidates ctx natural costs (\<lambda>a. case by a of Some p \<Rightarrow> p | None \<Rightarrow> 0)"
  by (auto simp: rank_candidates_def call_candidates_def dest: proper_keys)

text \<open>The ranking does not depend on the order in which the runtime walks the map of
  predictions: every order gives the same candidates, ranks and selection.\<close>

theorem rank_order_independent:
  assumes "distinct order" and "set order = dom (byAction predictions natural)"
  shows "Rank_in order ctx predictions natural costs now = Rank ctx predictions natural costs now"
proof -
  let ?rc = "rank_candidates ctx (byAction predictions natural) natural costs"
  have "mset order = mset (byAction_keys predictions)"
    using assms by (simp add: dom_byAction set_eq_iff_mset_eq_distinct byAction_keys_def)
  then have "mset (?rc order) = mset (?rc (byAction_keys predictions))"
    by (simp add: rank_candidates_def)
  then have "sort_by candidate_less (?rc order) = sort_by candidate_less (?rc (byAction_keys predictions))"
    by (intro ranking.sort_by_perm [OF rank_candidates_carrier [OF subset_refl]])
  then show ?thesis by (simp add: Rank_def Rank_in_def)
qed

theorem rank_order_independent_witness:
  "Rank_in [ActionStop, ActionWait] (viable_context 0) [\<lparr>pr_Action = ''STOP'', pr_RecoveryProbability = 1 / 2,
       pr_ModelVersion = [], pr_FeatureVersion = [], pr_PredictionTimestamp = 0\<rparr>] (1 / 4) DefaultCostModel 0
   = Rank (viable_context 0) [\<lparr>pr_Action = ''STOP'', pr_RecoveryProbability = 1 / 2,
       pr_ModelVersion = [], pr_FeatureVersion = [], pr_PredictionTimestamp = 0\<rparr>] (1 / 4) DefaultCostModel 0"
proof (rule rank_order_independent)
  have "action_of ''STOP'' = ActionStop" by code_simp
  then show "set [ActionStop, ActionWait] = dom (byAction [\<lparr>pr_Action = ''STOP'', pr_RecoveryProbability = 1 / 2,
       pr_ModelVersion = [], pr_FeatureVersion = [], pr_PredictionTimestamp = 0\<rparr>] (1 / 4))"
    by (auto simp: byAction_def)
qed simp

definition sorted_candidates ::
  "RecoveryDecisionContext \<Rightarrow> OutcomePrediction list \<Rightarrow> float64 \<Rightarrow> CostModel \<Rightarrow> Candidate list" where
  "sorted_candidates ctx predictions natural costs = sort_by candidate_less
     (rank_candidates ctx (byAction predictions natural) natural costs (byAction_keys predictions))"

lemma rr_Candidates_Rank:
  "rr_Candidates (Rank ctx predictions natural costs now) = set_ranks 1 (sorted_candidates ctx predictions natural costs)"
  by (simp add: Rank_def Rank_in_def sorted_candidates_def Let_def)

lemma keys_nonempty: "byAction_keys predictions \<noteq> []"
  by (auto simp: byAction_keys_def)

lemma sorted_candidates_nonempty: "sorted_candidates ctx predictions natural costs \<noteq> []"
proof -
  have "length (sorted_candidates ctx predictions natural costs) = length (byAction_keys predictions)"
    by (simp add: sorted_candidates_def rank_candidates_def)
  then show ?thesis using keys_nonempty [of predictions] by auto
qed

lemma sorted_candidates_actions:
  "set (map cd_Action (sorted_candidates ctx predictions natural costs)) = set (byAction_keys predictions)"
  "distinct (map cd_Action (sorted_candidates ctx predictions natural costs))"
proof -
  let ?rc = "rank_candidates ctx (byAction predictions natural) natural costs (byAction_keys predictions)"
  have m: "map cd_Action ?rc = byAction_keys predictions"
    by (simp add: rank_candidates_def comp_def)
  then show "set (map cd_Action (sorted_candidates ctx predictions natural costs)) = set (byAction_keys predictions)"
    unfolding sorted_candidates_def by (metis list.set_map set_sort_by)
  have "mset (map cd_Action (sorted_candidates ctx predictions natural costs)) = mset (byAction_keys predictions)"
    using m by (metis mset_map mset_sort_by sorted_candidates_def)
  then show "distinct (map cd_Action (sorted_candidates ctx predictions natural costs))"
    using mset_eq_imp_distinct_iff byAction_keys_def distinct_remdups by metis
qed

lemma selected_least:
  assumes "c \<in> set (sorted_candidates ctx predictions natural costs)"
  shows "\<not> candidate_less c (sorted_candidates ctx predictions natural costs ! 0)"
proof -
  obtain y ys where s: "sorted_candidates ctx predictions natural costs = y # ys"
    using sorted_candidates_nonempty by (cases "sorted_candidates ctx predictions natural costs") blast+
  show ?thesis
    using assms weak_order.head_least [OF candidate_less_weak [of UNIV], of _ y ys] s
    unfolding sorted_candidates_def by (metis nth_Cons_0 set_sort_by subset_UNIV)
qed

lemma candidate_less_rank [simp]:
  "candidate_less (a\<lparr>cd_Rank := n\<rparr>) b = candidate_less a b"
  "candidate_less a (b\<lparr>cd_Rank := n\<rparr>) = candidate_less a b"
  by (simp_all add: candidate_less_def)

lemma mem_set_ranks: "c \<in> set (set_ranks n cs) \<Longrightarrow> \<exists>c' r. c' \<in> set cs \<and> c = c'\<lparr>cd_Rank := r\<rparr>"
  by (induction cs arbitrary: n) (auto, blast)

lemma rr_Selected_Rank:
  "rr_Selected (Rank ctx predictions natural costs now) =
     (sorted_candidates ctx predictions natural costs ! 0)\<lparr>cd_Rank := 1\<rparr>"
  using sorted_candidates_nonempty [of ctx predictions natural costs]
  by (simp add: Rank_def Rank_in_def Let_def set_ranks_nth flip: sorted_candidates_def)

text \<open>C6. The ranking holds exactly one candidate for WAIT and one for every action the
  predictor scored, numbered from 1 without gaps; the selection exists, is the first of them,
  and no candidate beats it on score, then NERV, then the spelling of its action.\<close>

theorem rank_selects_the_best:
  fixes ctx predictions natural costs now
  defines "r \<equiv> Rank ctx predictions natural costs now"
  shows "distinct (map cd_Action (rr_Candidates r))
    \<and> cd_Action ` set (rr_Candidates r) = insert ActionWait ((\<lambda>p. action_of (pr_Action p)) ` set predictions)
    \<and> map cd_Rank (rr_Candidates r) = [1 .. int (length (rr_Candidates r))]
    \<and> rr_Candidates r \<noteq> [] \<and> rr_Selected r = rr_Candidates r ! 0
    \<and> (\<forall>c \<in> set (rr_Candidates r). cd_ObjectiveScoreMinor c < cd_ObjectiveScoreMinor (rr_Selected r)
          \<or> cd_ObjectiveScoreMinor c = cd_ObjectiveScoreMinor (rr_Selected r)
            \<and> (cd_NERVMinor c < cd_NERVMinor (rr_Selected r) \<or> cd_NERVMinor c = cd_NERVMinor (rr_Selected r)
              \<and> action_string (cd_Action (rr_Selected r)) \<le> action_string (cd_Action c)))"
proof (intro conjI ballI)
  let ?s = "sorted_candidates ctx predictions natural costs"
  have m: "map cd_Action (rr_Candidates r) = map cd_Action ?s"
    unfolding r_def rr_Candidates_Rank by (rule map_set_ranks) simp
  show "distinct (map cd_Action (rr_Candidates r))"
    unfolding m by (rule sorted_candidates_actions)
  have "cd_Action ` set (rr_Candidates r) = set (byAction_keys predictions)"
    using m sorted_candidates_actions(1) by (metis list.set_map)
  then show "cd_Action ` set (rr_Candidates r) = insert ActionWait ((\<lambda>p. action_of (pr_Action p)) ` set predictions)"
    by (auto simp: byAction_keys_def)
  show "map cd_Rank (rr_Candidates r) = [1 .. int (length (rr_Candidates r))]"
    by (simp add: r_def rr_Candidates_Rank ranks_set_ranks)
  show "rr_Candidates r \<noteq> []"
    using sorted_candidates_nonempty by (metis length_0_conv length_set_ranks r_def rr_Candidates_Rank)
  show "rr_Selected r = rr_Candidates r ! 0"
    by (simp add: r_def Rank_def Rank_in_def Let_def)
  fix c
  assume "c \<in> set (rr_Candidates r)"
  then obtain c' k where c: "c' \<in> set ?s" "c = c'\<lparr>cd_Rank := k\<rparr>"
    unfolding r_def rr_Candidates_Rank by (blast dest: mem_set_ranks)
  then have "\<not> candidate_less c (rr_Selected r)"
    using selected_least [OF c(1)] by (simp add: r_def rr_Selected_Rank)
  then show "cd_ObjectiveScoreMinor c < cd_ObjectiveScoreMinor (rr_Selected r)
      \<or> cd_ObjectiveScoreMinor c = cd_ObjectiveScoreMinor (rr_Selected r)
        \<and> (cd_NERVMinor c < cd_NERVMinor (rr_Selected r) \<or> cd_NERVMinor c = cd_NERVMinor (rr_Selected r)
          \<and> action_string (cd_Action (rr_Selected r)) \<le> action_string (cd_Action c))"
    by (auto simp: candidate_less_def not_less split: if_splits)
qed

theorem rank_selects_the_best_witness:
  "\<exists>c. rr_Candidates (Rank (viable_context 0) [] (1 / 4) DefaultCostModel 0) = [c] \<and> cd_Action c = ActionWait
     \<and> cd_Rank c = 1"
proof -
  let ?r = "Rank (viable_context 0) [] (1 / 4) DefaultCostModel 0"
  note best = rank_selects_the_best [of "viable_context 0" "[]" "1 / 4" DefaultCostModel 0]
  have "length (map cd_Action (rr_Candidates ?r)) = card {ActionWait}"
    using best by (metis distinct_card image_set insert_is_Un list.set_map set_empty image_empty Un_empty_right)
  then obtain c where "rr_Candidates ?r = [c]" by (auto simp: length_Suc_conv)
  then show ?thesis using best by auto
qed

section \<open>Waiting is always an alternative\<close>

text \<open>Inputs in the ranges the predictor, the diagnosis and the profile service promise.\<close>

abbreviation unit_interval :: "float64 \<Rightarrow> bool" where
  "unit_interval x \<equiv> 0 \<le> x \<and> x \<le> 1"

lemma fsub_unit: "unit_interval x \<Longrightarrow> unit_interval y \<Longrightarrow> \<bar>fsub x y\<bar> \<le> 1"
  using fl_abs_le_int [of "x - y" 1] by (auto simp: fsub_def abs_le_iff)

lemma fsub_one_unit: "unit_interval x \<Longrightarrow> unit_interval (fsub 1 x)"
  using fl_nonneg [of "1 - x"] fsub_unit [of 1 x] by (simp add: fsub_def)

lemma float_of_bounds: "0 \<le> m \<Longrightarrow> m \<le> 2 ^ 52 \<Longrightarrow> 0 \<le> float_of m \<and> float_of m \<le> of_int m"
  using fl_nonneg [of "of_int m"] fl_abs_le_int [of "of_int m" m] by (simp add: float_of_def)

lemma Round_scaled:
  assumes "\<bar>x\<bar> \<le> 1" and "0 \<le> m" and "m \<le> 2 ^ 52"
  shows "\<bar>int64_of (math_Round (fmul x (float_of m)))\<bar> \<le> m"
proof -
  note f = float_of_bounds [OF assms(2,3)]
  have "\<bar>x * float_of m\<bar> \<le> 1 * of_int m"
    unfolding abs_mult using f assms(1) by (intro mult_mono) auto
  then have "\<bar>fmul x (float_of m)\<bar> \<le> of_int m"
    using fl_abs_le_int assms(3) by (simp add: fmul_def)
  moreover have "in_i64 m" using assms(2,3) by (simp add: in_i64_def)
  ultimately show ?thesis using math_Round_abs_le by blast
qed

lemma Round_scaled_nonneg:
  assumes "unit_interval x" and "0 \<le> m" and "m \<le> 2 ^ 52"
  shows "0 \<le> int64_of (math_Round (fmul x (float_of m)))"
proof (rule int64_Round_sign)
  note f = float_of_bounds [OF assms(2,3)]
  have n: "0 \<le> x * float_of m" using f assms(1) by simp
  then show "0 \<le> fmul x (float_of m)" by (simp add: fmul_def fl_nonneg)
  have "x * float_of m \<le> 1 * of_int m"
    using f assms(1,2) by (intro mult_mono) auto
  then have "fmul x (float_of m) \<le> of_int m"
    using n fl_abs_le_int [of "x * float_of m" m] assms(3) by (simp add: fmul_def)
  also have "\<dots> \<le> of_int (2 ^ 52)" using assms(3) by (simp only: of_int_le_iff)
  finally show "fmul x (float_of m) < 2 ^ 62" by simp
qed

text \<open>The magnitudes of a candidate's parts, for the default cost model.\<close>

lemma gross_bound:
  assumes "unit_interval p" "unit_interval n" "\<bar>amount\<bar> < 2 ^ 63"
  shows "\<bar>probabilityValue amount (fsub p n)\<bar> \<le> \<bar>amount\<bar>"
  unfolding probabilityValue_def using assms Round_scaled [OF fsub_unit, of p n 1000000]
  by (intro mulDiv_abs_le) auto

lemma penalty_bounds:
  assumes "unit_interval x" "0 \<le> bps" "bps \<le> 10000" "0 \<le> amount" "amount < 2 ^ 63"
  shows "0 \<le> mulDiv amount (int64_of (math_Round (fmul x (float_of bps)))) 10000"
    and "mulDiv amount (int64_of (math_Round (fmul x (float_of bps)))) 10000 \<le> amount"
  using mulDiv_nonneg [of "int64_of (math_Round (fmul x (float_of bps)))" 10000 amount]
    Round_scaled [of x bps] Round_scaled_nonneg [of x bps] assms
  by (auto simp: in_i64_def)

definition default_inputs :: "RecoveryDecisionContext \<Rightarrow> OutcomePrediction list \<Rightarrow> float64 \<Rightarrow> bool" where
  "default_inputs ctx predictions natural \<longleftrightarrow>
     unit_interval natural \<and> (\<forall>p \<in> set predictions. unit_interval (pr_RecoveryProbability p))
     \<and> unit_interval (cp_RecoveryFatigue (Profile ctx)) \<and> unit_interval (dg_Confidence (Diag ctx))
     \<and> 0 \<le> rc_AmountAtRiskMinor (Case ctx) \<and> rc_AmountAtRiskMinor (Case ctx) \<le> 2 ^ 59
     \<and> mc_OptimizationProfileVersion (MerchantCtx ctx) = 0"

lemma default_penalties:
  assumes "default_inputs ctx predictions natural"
  shows "0 \<le> fatigue_penalty ctx DefaultCostModel cost" "fatigue_penalty ctx DefaultCostModel cost \<le> 2 ^ 59"
    and "0 \<le> risk_penalty ctx DefaultCostModel a" "risk_penalty ctx DefaultCostModel a \<le> 2 ^ 59"
    and "0 \<le> incentive_cost ctx DefaultCostModel a" "incentive_cost ctx DefaultCostModel a \<le> 2 ^ 59"
proof -
  let ?m = "rc_AmountAtRiskMinor (Case ctx)"
  have m: "0 \<le> ?m" "?m \<le> 2 ^ 59" "?m < 2 ^ 63" using assms by (auto simp: default_inputs_def)
  have u: "unit_interval (cp_RecoveryFatigue (Profile ctx))" "unit_interval (fsub 1 (dg_Confidence (Diag ctx)))"
    using assms fsub_one_unit by (auto simp: default_inputs_def)
  show "0 \<le> fatigue_penalty ctx DefaultCostModel cost" "fatigue_penalty ctx DefaultCostModel cost \<le> 2 ^ 59"
    using penalty_bounds [OF u(1), of 80 ?m] m by (auto simp: fatigue_penalty_def DefaultCostModel_def)
  show "0 \<le> risk_penalty ctx DefaultCostModel a" "risk_penalty ctx DefaultCostModel a \<le> 2 ^ 59"
    using penalty_bounds [OF u(2), of 50 ?m] m by (auto simp: risk_penalty_def DefaultCostModel_def)
  show "0 \<le> incentive_cost ctx DefaultCostModel a" "incentive_cost ctx DefaultCostModel a \<le> 2 ^ 59"
    using mulDiv_nonneg [of 500 10000 ?m] m
    by (auto simp: incentive_cost_def DefaultCostModel_def Let_def in_i64_def)
qed

lemma default_cost_bounds:
  "0 \<le> co_ChannelMinor (default_cost a)" "co_ChannelMinor (default_cost a) \<le> 1000"
  "0 \<le> co_OperationalMinor (default_cost a)" "co_OperationalMinor (default_cost a) \<le> 1000"
  by (cases a; simp)+

text \<open>No objective scores a candidate above its net value, so a candidate with a negative
  net value scores below waiting.\<close>

lemma candidate_of_score:
  assumes d: "default_inputs ctx predictions natural" and p: "unit_interval p"
  shows "cd_ObjectiveScoreMinor (candidate_of ctx natural DefaultCostModel a p)
    \<le> cd_NERVMinor (candidate_of ctx natural DefaultCostModel a p)"
proof -
  let ?c = "default_cost a"
  define g where "g = probabilityValue (rc_AmountAtRiskMinor (Case ctx)) (fsub p natural)"
  define f where "f = fatigue_penalty ctx DefaultCostModel ?c"
  define r where "r = risk_penalty ctx DefaultCostModel a"
  define i where "i = incentive_cost ctx DefaultCostModel a"
  have g: "\<bar>g\<bar> \<le> 2 ^ 59"
    using gross_bound [of p natural "rc_AmountAtRiskMinor (Case ctx)"] d p
    by (auto simp: default_inputs_def g_def)
  note b = default_penalties(1,2) [OF d, of ?c, folded f_def] default_penalties(3-6) [OF d, of a, folded r_def i_def]
    default_cost_bounds [of a] g
  have q: "0 \<le> quo (f + r) 2" "quo (f + r) 2 \<le> f + r"
    using b by (auto simp: quo_nonneg)
  have n: "mc_OptimizationProfileVersion (MerchantCtx ctx) = 0" using d by (simp add: default_inputs_def)
  have "cm_Actions DefaultCostModel = default_cost" by (simp add: DefaultCostModel_def)
  then show ?thesis
    using b q
    by (simp add: candidate_of_def Let_def objectiveScore_def n i64_id_bounds
          flip: f_def r_def i_def g_def)
qed

lemma wait_candidate:
  assumes "default_inputs ctx predictions natural"
  shows "cd_ObjectiveScoreMinor (candidate_of ctx natural DefaultCostModel ActionWait natural) = 0"
proof -
  have "int64_of (math_Round 0) = 0" using int64_Round_sign(1) [of 0] int64_Round_sign(2) [of 0] by simp
  then have g: "probabilityValue (rc_AmountAtRiskMinor (Case ctx)) (fsub natural natural) = 0"
    by (simp add: probabilityValue_def fsub_def fmul_def)
  have "mc_OptimizationProfileVersion (MerchantCtx ctx) = 0" using assms by (simp add: default_inputs_def)
  then show ?thesis
    by (simp add: candidate_of_def Let_def objectiveScore_def g DefaultCostModel_def
        fatigue_penalty_def risk_penalty_def incentive_cost_def)
qed

lemma byAction_unit:
  assumes "default_inputs ctx predictions natural"
  shows "byAction predictions natural a = Some p \<Longrightarrow> unit_interval p"
proof -
  have "foldl (\<lambda>m p. m(action_of (pr_Action p) \<mapsto> pr_RecoveryProbability p)) m ps a = Some q \<Longrightarrow>
      m a = Some q \<or> q \<in> pr_RecoveryProbability ` set ps" for m ps q
  proof (induction ps arbitrary: m)
    case (Cons x ps)
    from Cons.IH [of "m(action_of (pr_Action x) \<mapsto> pr_RecoveryProbability x)"] Cons.prems
    show ?case by (auto split: if_splits)
  qed simp
  from this [of Map.empty predictions p]
  show "byAction predictions natural a = Some p \<Longrightarrow> unit_interval p"
    using assms by (auto simp: byAction_def default_inputs_def split: if_splits)
qed

lemma candidate_from_map:
  assumes "c \<in> set (sorted_candidates ctx predictions natural costs)"
  obtains a p where "byAction predictions natural a = Some p" "c = candidate_of ctx natural costs a p"
proof -
  obtain a where a: "a \<in> set (byAction_keys predictions)"
    "c = candidate_of ctx natural costs a (case byAction predictions natural a of Some p \<Rightarrow> p | None \<Rightarrow> 0)"
    using assms by (auto simp: sorted_candidates_def rank_candidates_def)
  then obtain p where "byAction predictions natural a = Some p"
    using dom_byAction by blast
  then show ?thesis using that a(2) by simp
qed

lemma default_selection_nonneg:
  assumes "default_inputs ctx predictions natural"
  shows "0 \<le> cd_ObjectiveScoreMinor (rr_Selected (Rank ctx predictions natural DefaultCostModel now))
    \<and> 0 \<le> cd_NERVMinor (rr_Selected (Rank ctx predictions natural DefaultCostModel now))"
proof -
  let ?s = "sorted_candidates ctx predictions natural DefaultCostModel"
  let ?w = "candidate_of ctx natural DefaultCostModel ActionWait natural"
  have "ActionWait \<in> set (byAction_keys predictions)" by (simp add: byAction_keys_def)
  moreover have "byAction predictions natural ActionWait = Some natural" by (simp add: byAction_def)
  ultimately have "?w \<in> set ?s"
    by (force simp: sorted_candidates_def rank_candidates_def)
  then have w: "0 \<le> cd_ObjectiveScoreMinor (?s ! 0)"
    using selected_least [of ?w] wait_candidate [OF assms]
    by (fastforce simp: candidate_less_def split: if_splits)
  have "?s ! 0 \<in> set ?s" using sorted_candidates_nonempty by (metis length_greater_0_conv nth_mem)
  then obtain a p where "unit_interval p" "?s ! 0 = candidate_of ctx natural DefaultCostModel a p"
    by (metis candidate_from_map byAction_unit [OF assms])
  then have "cd_ObjectiveScoreMinor (?s ! 0) \<le> cd_NERVMinor (?s ! 0)"
    using candidate_of_score [OF assms] by metis
  then show ?thesis using w by (simp add: rr_Selected_Rank)
qed

definition reminder_prediction :: OutcomePrediction where
  "reminder_prediction = \<lparr>pr_Action = ''SEND_REMINDER'', pr_RecoveryProbability = 1 / 2,
     pr_ModelVersion = ''outcome-v1'', pr_FeatureVersion = [], pr_PredictionTimestamp = 0\<rparr>"

lemma default_inputs_viable: "default_inputs (viable_context now) [reminder_prediction] (1 / 4)"
  using fl_diagnosis_confidence(1) by (simp add: default_inputs_def viable_defs reminder_prediction_def)

text \<open>With the default cost model and no merchant profile, for every recovery objective,
  probabilities in the unit interval and amounts up to \<open>2 ^ 59\<close> minor units, the selected
  action is never expected to lose money: waiting scores zero, and an objective only lowers
  a score below the net value.\<close>

theorem selection_never_loses:
  assumes "default_inputs ctx predictions natural"
  shows "0 \<le> cd_ObjectiveScoreMinor (rr_Selected (Rank ctx predictions natural DefaultCostModel now))
    \<and> 0 \<le> cd_NERVMinor (rr_Selected (Rank ctx predictions natural DefaultCostModel now))"
  by (rule default_selection_nonneg [OF assms])

theorem selection_never_loses_witness:
  "0 \<le> cd_ObjectiveScoreMinor (rr_Selected (Rank (viable_context 0) [reminder_prediction] (1 / 4) DefaultCostModel 0))
    \<and> 0 \<le> cd_NERVMinor (rr_Selected (Rank (viable_context 0) [reminder_prediction] (1 / 4) DefaultCostModel 0))"
  by (rule selection_never_loses [OF default_inputs_viable])

end
