(* ===== verification/Economic_Gate.thy ===== *)
theory Economic_Gate
  imports Optimizer
begin

text \<open>
  Package \<open>economicgate\<close> (\<open>internal/economicgate/gate.go\<close>): the last economic check on the
  selected candidate before the decision goes to the policy engine.
\<close>

record GateResult =
  eg_ID :: ID
  eg_DecisionID :: ID
  eg_CaseID :: ID
  eg_Action :: ActionType
  eg_NERVMinor :: int
  eg_ThresholdMinor :: int
  eg_Decision :: string
  eg_Reason :: string
  eg_GateVersion :: string
  eg_CreatedAt :: time

definition gate_verdict :: "Candidate \<Rightarrow> int \<Rightarrow> string \<times> string" where
  "gate_verdict candidate threshold =
     (if cd_Action candidate = ActionWait then (''ALLOW'', ''WAIT_SELECTED'')
      else if cd_NERVMinor candidate < 0 then (''BLOCK'', ''ECONOMICALLY_UNJUSTIFIED'')
      else if cd_NERVMinor candidate < threshold then (''BLOCK'', ''BELOW_MINIMUM_VALUE'')
      else if cd_NERVMinor candidate = threshold then (''ALLOW'', ''AT_MINIMUM_VALUE'')
      else (''ALLOW'', ''ABOVE_MINIMUM_VALUE''))"

definition gate_Evaluate :: "ID \<Rightarrow> ID \<Rightarrow> Candidate \<Rightarrow> int \<Rightarrow> time \<Rightarrow> GateResult" where
  "gate_Evaluate decisionID caseID candidate threshold now =
     (case gate_verdict candidate threshold of (decision, reason) \<Rightarrow>
        \<lparr>eg_ID = [], eg_DecisionID = decisionID, eg_CaseID = caseID, eg_Action = cd_Action candidate,
         eg_NERVMinor = cd_NERVMinor candidate, eg_ThresholdMinor = threshold, eg_Decision = decision,
         eg_Reason = reason, eg_GateVersion = ''economic-gate-v1'', eg_CreatedAt = now\<rparr>)"

lemma gate_allow_iff:
  "eg_Decision (gate_Evaluate d c candidate threshold now) = ''ALLOW'' \<longleftrightarrow>
     cd_Action candidate = ActionWait \<or> (0 \<le> cd_NERVMinor candidate \<and> threshold \<le> cd_NERVMinor candidate)"
  by (simp add: gate_Evaluate_def gate_verdict_def)

lemma gate_decision_cases:
  "eg_Decision (gate_Evaluate d c candidate threshold now) = ''ALLOW''
   \<or> eg_Decision (gate_Evaluate d c candidate threshold now) = ''BLOCK''"
  by (simp add: gate_Evaluate_def gate_verdict_def)

lemma gate_unjustified_iff:
  "eg_Reason (gate_Evaluate d c candidate threshold now) = ''ECONOMICALLY_UNJUSTIFIED'' \<longleftrightarrow>
     cd_Action candidate \<noteq> ActionWait \<and> cd_NERVMinor candidate < 0"
  by (simp add: gate_Evaluate_def gate_verdict_def)

text \<open>With the default cost model and no merchant profile the gate never finds the selection
  economically unjustified, for any objective: it blocks exactly a selection other than WAIT
  whose net value misses the merchant's minimum, and so never blocks when the minimum is not
  positive. The verdict is recorded with the value and the threshold it compared.\<close>

theorem default_selection_gate:
  fixes t now :: time and d i :: ID and threshold :: int
  assumes "default_inputs ctx predictions natural"
  defines "c \<equiv> rr_Selected (Rank ctx predictions natural DefaultCostModel t)"
  defines "g \<equiv> gate_Evaluate d i c threshold now"
  shows "eg_Reason g \<noteq> ''ECONOMICALLY_UNJUSTIFIED''
    \<and> (eg_Decision g = ''BLOCK'' \<longleftrightarrow> cd_Action c \<noteq> ActionWait \<and> cd_NERVMinor c < threshold)
    \<and> (eg_Decision g = ''BLOCK'' \<or> eg_Decision g = ''ALLOW'')
    \<and> (threshold \<le> 0 \<longrightarrow> eg_Decision g = ''ALLOW'')
    \<and> eg_NERVMinor g = cd_NERVMinor c \<and> eg_ThresholdMinor g = threshold"
proof -
  have "0 \<le> cd_NERVMinor c"
    using default_selection_nonneg [OF assms(1)] by (simp add: c_def)
  then show ?thesis by (auto simp: g_def gate_Evaluate_def gate_verdict_def)
qed

theorem default_selection_gate_witness:
  "eg_Reason (gate_Evaluate ''d'' ''c'' (rr_Selected (Rank (viable_context 0) [reminder_prediction] (1 / 4)
     DefaultCostModel 0)) 500 0) \<noteq> ''ECONOMICALLY_UNJUSTIFIED''"
  using default_selection_gate [OF default_inputs_viable, where t = 0 and d = "''d''" and i = "''c''"
      and threshold = 500 and now = 0] by blast

end
