(* ===== verification/Policy.thy ===== *)
theory Policy
  imports Eligibility Economic_Gate
begin

text \<open>
  Package \<open>policy\<close> (\<open>internal/policy/policy.go\<close>): the deterministic checks between a decision
  and its execution. The source calls \<open>add(&group, reason, condition)\<close> once per check; the
  three lists below are those calls, in order, each with its condition. Loading a time zone
  reads the host's zone database and is the parameter \<open>zone\<close>: the UTC offset of an instant, or
  \<open>None\<close> when the zone does not load.
\<close>

type_synonym zone_db = "string \<Rightarrow> (time \<Rightarrow> int) option"

record PolicyResult =
  po_ID :: ID
  po_DecisionID :: ID
  po_EconomicGateID :: ID
  po_CaseID :: ID
  po_CaseVersion :: int
  po_SelectedAction :: ActionType
  po_PolicyVersion :: string
  po_Decision :: string
  po_ReasonCodes :: "string list"
  po_Checks :: "string \<rightharpoonup> bool"
  po_CreatedAt :: time

fun containsAction :: "ActionType list \<Rightarrow> ActionType \<Rightarrow> bool" where
  "containsAction [] wanted = False"
| "containsAction (action # actions) wanted = (if action = wanted then True else containsAction actions wanted)"

lemma containsAction_iff [simp]: "containsAction as a \<longleftrightarrow> a \<in> set as"
  by (induction as) auto

section \<open>The recent history\<close>

record History =
  hi_retry :: int
  hi_day :: int
  hi_week :: int
  hi_lastContact :: time
  hi_lastRetry :: time

definition history_step :: "time \<Rightarrow> History \<Rightarrow> RecentAction \<Rightarrow> History" where
  "history_step now h a =
     (let h = (if is_retry (re_Type a) then
                 (let h = h\<lparr>hi_retry := hi_retry h + 1\<rparr>
                  in if hi_lastRetry h < re_CreatedAt a then h\<lparr>hi_lastRetry := re_CreatedAt a\<rparr> else h)
               else h)
      in if is_contact (re_Type a) then
           (let age = Sub now (re_CreatedAt a);
                h = (if age \<le> 24 * Hour then h\<lparr>hi_day := hi_day h + 1\<rparr> else h);
                h = (if age \<le> 7 * 24 * Hour then h\<lparr>hi_week := hi_week h + 1\<rparr> else h)
            in if hi_lastContact h < re_CreatedAt a then h\<lparr>hi_lastContact := re_CreatedAt a\<rparr> else h)
         else h)"

definition history :: "RecentAction list \<Rightarrow> time \<Rightarrow> History" where
  "history actions now = foldl (history_step now)
     \<lparr>hi_retry = 0, hi_day = 0, hi_week = 0, hi_lastContact = 0, hi_lastRetry = 0\<rparr> actions"

text \<open>A window that cannot be evaluated counts as quiet: the check fails closed.\<close>

definition inQuietHours :: "zone_db \<Rightarrow> RawMessage \<Rightarrow> string \<Rightarrow> time \<Rightarrow> bool" where
  "inQuietHours zone raw timezone now =
     (case (decode_string_field raw ''start'', decode_string_field raw ''end'') of
        (Some s, Some e) \<Rightarrow>
          (if s = [] \<or> e = [] then False
           else (case zone timezone of None \<Rightarrow> True
             | Some offset \<Rightarrow>
                (case (parse_clock s, parse_clock e) of
                   (Some s, Some e) \<Rightarrow> in_window (minute_of_day now (offset now)) s e
                 | _ \<Rightarrow> True)))
      | _ \<Rightarrow> False)"

section \<open>The checks\<close>

definition interval :: "MerchantContext \<Rightarrow> duration" where
  "interval m = i64 (mc_MinimumContactIntervalMinutes m * Minute)"

definition stop_checks :: "RecoveryDecisionContext \<Rightarrow> time \<Rightarrow> (string \<times> bool) list" where
  "stop_checks ctx now =
     [(''PAYMENT_ALREADY_RECOVERED'', ps_AlreadyRecovered (Payment ctx) \<or> rc_CurrentState (Case ctx) = StateRecovered),
      (''TERMINAL_CASE_STATE'', IsTerminal (rc_CurrentState (Case ctx))),
      (''SUBSCRIPTION_CANCELLED'', rc_SourceStatus (Case ctx) = ''CANCELLED''),
      (''RECOVERY_WINDOW_EXPIRED'', \<not> now < rc_RecoveryDeadline (Case ctx))]"

definition deny_checks :: "zone_db \<Rightarrow> RecoveryDecisionContext \<Rightarrow> int \<Rightarrow> Candidate \<Rightarrow> GateResult \<Rightarrow> time
    \<Rightarrow> (string \<times> bool) list" where
  "deny_checks zone ctx decisionCaseVersion candidate gate now =
     (let m = MerchantCtx ctx; action = cd_Action candidate; h = history (RecentActions ctx) now in
     [(''STALE_DECISION'', rc_Version (Case ctx) \<noteq> decisionCaseVersion),
      (''ECONOMIC_GATE_BLOCKED'', eg_Decision gate \<noteq> ''ALLOW''),
      (''ACTION_NOT_ALLOWED'', 0 < length (mc_AllowedActions m) \<and> \<not> containsAction (mc_AllowedActions m) action),
      (''CHANNEL_NOT_ALLOWED'', is_contact action \<and> length (mc_AllowedChannels m) = 0),
      (''CUSTOMER_OPT_OUT'', cp_OptedOut (Profile ctx) \<and> is_contact action),
      (''MAX_RETRIES'', is_retry action \<and> mc_MaxRetries m \<le> hi_retry h),
      (''KNOWN_PERMANENT_FAILURE'', is_retry action \<and> dg_Recoverability (Diag ctx) = ''NON_RECOVERABLE''),
      (''RETRY_COOLDOWN'', is_retry action \<and> \<not> IsZero (hi_lastRetry h) \<and> Sub now (hi_lastRetry h) < interval m),
      (''MAX_CONTACTS_PER_DAY'', is_contact action \<and> mc_MaxContactsPerDay m \<le> hi_day h),
      (''MAX_CONTACTS_PER_WEEK'', is_contact action \<and> mc_MaxContactsPerWeek m \<le> hi_week h),
      (''MIN_CONTACT_INTERVAL'', is_contact action \<and> \<not> IsZero (hi_lastContact h)
         \<and> Sub now (hi_lastContact h) < interval m),
      (''ACTIVE_PROMISE_TO_PAY'', promise_active ctx \<and> (is_contact action \<or> is_retry action)),
      (''MANDATE_INVALID'', is_retry action \<and> (ps_MandateStatus (Payment ctx) = ''REVOKED''
         \<or> ps_MandateStatus (Payment ctx) = ''FAILED'')),
      (''PAYMENT_METHOD_INVALID'', is_retry action \<and> ps_PaymentMethodStatus (Payment ctx) = ''INVALID''),
      (''MAX_DISCOUNT'', mc_MaximumIncentiveMinor m < cd_IncentiveCostMinor candidate
         \<and> 0 \<le> mc_MaximumIncentiveMinor m),
      (''QUIET_HOURS'', is_contact action \<and> inQuietHours zone (mc_QuietHours m) (mc_Timezone m) now),
      (''CHANNEL_UNAVAILABLE'', is_contact action \<and> length (ps_AvailableChannels (Payment ctx)) = 0)])"

definition escalate_checks :: "RecoveryDecisionContext \<Rightarrow> (string \<times> bool) list" where
  "escalate_checks ctx =
     [(''HIGH_VALUE_APPROVAL'', 0 < mc_HighValueThresholdMinor (MerchantCtx ctx)
         \<and> mc_HighValueThresholdMinor (MerchantCtx ctx) \<le> rc_AmountAtRiskMinor (Case ctx)),
      (''LOW_CONFIDENCE_ESCALATION'', dg_Confidence (Diag ctx) < mc_LowConfidenceThreshold (MerchantCtx ctx))]"

text \<open>The closure \<open>add\<close>: record the check, and append its reason when the condition holds.\<close>

fun add_checks :: "(string \<times> bool) list \<Rightarrow> (string \<rightharpoonup> bool) \<times> string list \<Rightarrow> (string \<rightharpoonup> bool) \<times> string list" where
  "add_checks [] st = st"
| "add_checks ((reason, condition) # rest) (checks, target) =
     add_checks rest (checks(reason \<mapsto> \<not> condition), if condition then target @ [reason] else target)"

definition policy_verdict :: "string list \<Rightarrow> string list \<Rightarrow> string list \<Rightarrow> string \<times> string list" where
  "policy_verdict stop deny escalate =
     (if 0 < length stop then (''STOP'', stop)
      else if 0 < length deny then (''DENY'', deny)
      else if 0 < length escalate then (''ESCALATE'', escalate)
      else (''APPROVE'', [''ALL_POLICY_CHECKS_PASSED'']))"

definition policy_Evaluate :: "zone_db \<Rightarrow> RecoveryDecisionContext \<Rightarrow> ID \<Rightarrow> int \<Rightarrow> Candidate \<Rightarrow> GateResult \<Rightarrow> time
    \<Rightarrow> PolicyResult" where
  "policy_Evaluate zone ctx decisionID decisionCaseVersion candidate gate now =
     (let (checks, stop) = add_checks (stop_checks ctx now) (Map.empty, []);
          (checks, deny) = add_checks (deny_checks zone ctx decisionCaseVersion candidate gate now) (checks, []);
          (checks, escalate) = add_checks (escalate_checks ctx) (checks, []);
          (decision, reasons) = policy_verdict stop deny escalate
      in \<lparr>po_ID = [], po_DecisionID = decisionID, po_EconomicGateID = [], po_CaseID = rc_ID (Case ctx),
          po_CaseVersion = rc_Version (Case ctx), po_SelectedAction = cd_Action candidate,
          po_PolicyVersion = ''policy-v1'', po_Decision = decision, po_ReasonCodes = reasons,
          po_Checks = checks, po_CreatedAt = now\<rparr>)"

lemma add_checks_eq:
  "add_checks cs (checks, target) =
     (checks ++ map_of (rev (map (\<lambda>(r, c). (r, \<not> c)) cs)), target @ map fst (filter snd cs))"
proof (induction cs arbitrary: checks target)
  case (Cons rc cs)
  then show ?case by (cases rc) (auto simp: map_add_def fun_upd_def split: option.splits)
qed simp

section \<open>The history\<close>

lemma foldl_history:
  "hi_retry (foldl (history_step now) h as) = hi_retry h + int (length (filter (\<lambda>a. is_retry (re_Type a)) as))"
  "hi_day (foldl (history_step now) h as) = hi_day h +
     int (length (filter (\<lambda>a. is_contact (re_Type a) \<and> Sub now (re_CreatedAt a) \<le> 24 * Hour) as))"
  "hi_week (foldl (history_step now) h as) = hi_week h +
     int (length (filter (\<lambda>a. is_contact (re_Type a) \<and> Sub now (re_CreatedAt a) \<le> 7 * 24 * Hour) as))"
  "hi_lastContact (foldl (history_step now) h as) =
     foldl max (hi_lastContact h) (map re_CreatedAt (filter (\<lambda>a. is_contact (re_Type a)) as))"
  "hi_lastRetry (foldl (history_step now) h as) =
     foldl max (hi_lastRetry h) (map re_CreatedAt (filter (\<lambda>a. is_retry (re_Type a)) as))"
  by (induction as arbitrary: h)
    (auto simp: history_step_def Let_def max_def contact_retry_disjoint)

text \<open>The policy counts exactly what the eligibility filter counts.\<close>

lemma history_counts:
  "hi_retry (history as now) = ac_retries (counts as now)"
  "hi_day (history as now) = ac_day (counts as now)"
  "hi_week (history as now) = ac_week (counts as now)"
  by (simp_all add: history_def foldl_history counts_filter)

lemma foldl_max_ge: "(z::int) \<le> foldl max z ts" "t \<in> set ts \<Longrightarrow> t \<le> foldl max z ts"
  by (induction ts arbitrary: z) (auto intro: order_trans [OF max.cobounded1] order_trans [OF max.cobounded2])

lemma Sub_mono: "t \<le> u \<Longrightarrow> Sub now u \<le> Sub now t"
  by (auto simp: Sub_def)

lemma interval_kept:
  assumes "r \<in> set as" "P (re_Type r)" "0 < re_CreatedAt r"
    and "latest = foldl max 0 (map re_CreatedAt (filter (\<lambda>a. P (re_Type a)) as))"
    and "\<not> (\<not> IsZero latest \<and> Sub now latest < d)"
  shows "d \<le> Sub now (re_CreatedAt r)"
proof -
  have "re_CreatedAt r \<le> latest"
    unfolding assms(4) using assms(1,2) by (intro foldl_max_ge(2)) auto
  then show ?thesis using Sub_mono [of "re_CreatedAt r" latest now] assms(3,5) by auto
qed

section \<open>The verdict\<close>

definition failed :: "(string \<times> bool) list \<Rightarrow> string list" where
  "failed cs = map fst (filter snd cs)"

lemma policy_Evaluate_verdict:
  "(po_Decision (policy_Evaluate zone ctx d v c g now), po_ReasonCodes (policy_Evaluate zone ctx d v c g now))
   = policy_verdict (failed (stop_checks ctx now)) (failed (deny_checks zone ctx v c g now))
       (failed (escalate_checks ctx))"
  by (simp add: policy_Evaluate_def add_checks_eq failed_def split: prod.split)

lemma policy_Evaluate_checks:
  "po_Checks (policy_Evaluate zone ctx d v c g now) = map_of (rev (map (\<lambda>(r, b). (r, \<not> b))
     (stop_checks ctx now @ deny_checks zone ctx v c g now @ escalate_checks ctx)))"
  by (simp add: policy_Evaluate_def add_checks_eq split: prod.split)

definition check_names :: "string list" where
  "check_names = [''PAYMENT_ALREADY_RECOVERED'', ''TERMINAL_CASE_STATE'', ''SUBSCRIPTION_CANCELLED'',
     ''RECOVERY_WINDOW_EXPIRED'', ''STALE_DECISION'', ''ECONOMIC_GATE_BLOCKED'', ''ACTION_NOT_ALLOWED'',
     ''CHANNEL_NOT_ALLOWED'', ''CUSTOMER_OPT_OUT'', ''MAX_RETRIES'', ''KNOWN_PERMANENT_FAILURE'',
     ''RETRY_COOLDOWN'', ''MAX_CONTACTS_PER_DAY'', ''MAX_CONTACTS_PER_WEEK'', ''MIN_CONTACT_INTERVAL'',
     ''ACTIVE_PROMISE_TO_PAY'', ''MANDATE_INVALID'', ''PAYMENT_METHOD_INVALID'', ''MAX_DISCOUNT'',
     ''QUIET_HOURS'', ''CHANNEL_UNAVAILABLE'', ''HIGH_VALUE_APPROVAL'', ''LOW_CONFIDENCE_ESCALATION'']"

lemma check_names_distinct: "distinct check_names"
  by (simp add: check_names_def)

lemma check_names:
  "map fst (stop_checks ctx now @ deny_checks zone ctx v c g now @ escalate_checks ctx) = check_names"
  by (simp add: stop_checks_def deny_checks_def escalate_checks_def check_names_def Let_def)

lemma failed_Nil: "failed cs = [] \<longleftrightarrow> (\<forall>(r, b) \<in> set cs. \<not> b)"
  by (auto simp: failed_def filter_empty_conv)

lemma policy_decision_cases:
  "po_Decision (policy_Evaluate zone ctx d v c g now) =
     (if failed (stop_checks ctx now) \<noteq> [] then ''STOP''
      else if failed (deny_checks zone ctx v c g now) \<noteq> [] then ''DENY''
      else if failed (escalate_checks ctx) \<noteq> [] then ''ESCALATE'' else ''APPROVE'')"
  using policy_Evaluate_verdict [of zone ctx d v c g now]
  by (auto simp: policy_verdict_def split: if_splits)

lemma policy_approve_iff:
  "po_Decision (policy_Evaluate zone ctx d v c g now) = ''APPROVE'' \<longleftrightarrow>
     (\<forall>(r, b) \<in> set (stop_checks ctx now @ deny_checks zone ctx v c g now @ escalate_checks ctx). \<not> b)"
proof -
  have "po_Decision (policy_Evaluate zone ctx d v c g now) = ''APPROVE'' \<longleftrightarrow>
     failed (stop_checks ctx now) = [] \<and> failed (deny_checks zone ctx v c g now) = [] \<and> failed (escalate_checks ctx) = []"
    unfolding policy_decision_cases by simp
  then show ?thesis unfolding failed_Nil by auto
qed

text \<open>What an approval means for the deny group.\<close>

lemma approved_checks:
  assumes "po_Decision (policy_Evaluate zone ctx d v c g now) = ''APPROVE''"
  shows "list_all (\<lambda>x. \<not> snd x) (stop_checks ctx now)"
    "list_all (\<lambda>x. \<not> snd x) (deny_checks zone ctx v c g now)"
    "list_all (\<lambda>x. \<not> snd x) (escalate_checks ctx)"
  using assms unfolding policy_approve_iff list_all_iff by auto

lemma map_fst_negated: "map fst (map (\<lambda>(r, b). (r, \<not> b)) cs) = map fst cs"
  by (induction cs) auto

lemma check_lookup:
  assumes "(n, b) \<in> set (stop_checks ctx now @ deny_checks zone ctx v c g now @ escalate_checks ctx)"
  shows "po_Checks (policy_Evaluate zone ctx d v c g now) n = Some (\<not> b)"
proof -
  let ?cs = "stop_checks ctx now @ deny_checks zone ctx v c g now @ escalate_checks ctx"
  have "distinct (map fst (map (\<lambda>(r, b). (r, \<not> b)) ?cs))"
    unfolding map_fst_negated check_names by (rule check_names_distinct)
  then have "distinct (map fst (rev (map (\<lambda>(r, b). (r, \<not> b)) ?cs)))"
    by (simp only: rev_map [symmetric] distinct_rev)
  moreover have "(n, \<not> b) \<in> set (rev (map (\<lambda>(r, b). (r, \<not> b)) ?cs))"
    using imageI [OF assms, of "\<lambda>(r, b). (r, \<not> b)"] by (simp only: set_rev list.set_map prod.case)
  ultimately show ?thesis
    unfolding policy_Evaluate_checks by (rule map_of_is_SomeI)
qed

lemma check_dom: "dom (po_Checks (policy_Evaluate zone ctx d v c g now)) = set check_names"
proof -
  let ?cs = "stop_checks ctx now @ deny_checks zone ctx v c g now @ escalate_checks ctx"
  have "dom (po_Checks (policy_Evaluate zone ctx d v c g now)) = set (map fst (map (\<lambda>(r, b). (r, \<not> b)) ?cs))"
    unfolding policy_Evaluate_checks dom_map_of_conv_image_fst by (simp only: set_rev list.set_map)
  then show ?thesis unfolding map_fst_negated check_names .
qed

lemma failed_mem: "n \<in> set (failed cs) \<longleftrightarrow> (n, True) \<in> set cs"
  by (force simp: failed_def)

lemma policy_reasons_failed:
  assumes "po_Decision (policy_Evaluate zone ctx d v c g now) \<noteq> ''APPROVE''"
    and "n \<in> set (po_ReasonCodes (policy_Evaluate zone ctx d v c g now))"
  shows "(n, True) \<in> set (stop_checks ctx now @ deny_checks zone ctx v c g now @ escalate_checks ctx)"
proof -
  have "n \<in> set (failed (stop_checks ctx now)) \<or> n \<in> set (failed (deny_checks zone ctx v c g now))
      \<or> n \<in> set (failed (escalate_checks ctx))"
    using assms policy_Evaluate_verdict [of zone ctx d v c g now]
    by (auto simp: policy_verdict_def split: if_splits)
  then show ?thesis unfolding failed_mem by auto
qed

lemma policy_stop_iff:
  "po_Decision (policy_Evaluate zone ctx d v c g now) = ''STOP'' \<longleftrightarrow>
     ps_AlreadyRecovered (Payment ctx) \<or> IsTerminal (rc_CurrentState (Case ctx))
     \<or> rc_SourceStatus (Case ctx) = ''CANCELLED'' \<or> rc_RecoveryDeadline (Case ctx) \<le> now"
proof -
  have "failed (stop_checks ctx now) \<noteq> [] \<longleftrightarrow>
      (ps_AlreadyRecovered (Payment ctx) \<or> rc_CurrentState (Case ctx) = StateRecovered
       \<or> IsTerminal (rc_CurrentState (Case ctx))
       \<or> rc_SourceStatus (Case ctx) = ''CANCELLED'' \<or> rc_RecoveryDeadline (Case ctx) \<le> now)"
    by (auto simp: failed_def stop_checks_def)
  moreover have "IsTerminal StateRecovered" by (simp add: IsTerminal_def)
  ultimately show ?thesis unfolding policy_decision_cases by auto
qed

text \<open>The verdict is total and explained: STOP exactly for a recovered, closed, cancelled or
  expired case, whatever else fails; otherwise DENY when a deny check fails, ESCALATE when
  only approval checks fail, and APPROVE exactly when every one of the 23 recorded checks
  passed. A verdict other than APPROVE names at least one reason, and every reason it names
  is recorded as a failed check.\<close>

theorem policy_verdict_explained:
  fixes zone ctx d v c g now
  defines "r \<equiv> policy_Evaluate zone ctx d v c g now"
  shows "po_Decision r \<in> set [''STOP'', ''DENY'', ''ESCALATE'', ''APPROVE'']
    \<and> (po_Decision r = ''STOP'' \<longleftrightarrow>
        ps_AlreadyRecovered (Payment ctx) \<or> IsTerminal (rc_CurrentState (Case ctx))
        \<or> rc_SourceStatus (Case ctx) = ''CANCELLED'' \<or> rc_RecoveryDeadline (Case ctx) \<le> now)
    \<and> dom (po_Checks r) = set check_names
    \<and> (po_Decision r = ''APPROVE'' \<longleftrightarrow> (\<forall>n \<in> set check_names. po_Checks r n = Some True))
    \<and> (po_Decision r \<noteq> ''APPROVE'' \<longrightarrow> po_ReasonCodes r \<noteq> []
        \<and> (\<forall>n \<in> set (po_ReasonCodes r). po_Checks r n = Some False))
    \<and> (po_Decision r = ''ESCALATE'' \<longrightarrow>
        set (po_ReasonCodes r) \<subseteq> {''HIGH_VALUE_APPROVAL'', ''LOW_CONFIDENCE_ESCALATION''})"
proof (intro conjI impI ballI)
  let ?cs = "stop_checks ctx now @ deny_checks zone ctx v c g now @ escalate_checks ctx"
  note verdict = policy_Evaluate_verdict [of zone ctx d v c g now, folded r_def]
  show "po_Decision r \<in> set [''STOP'', ''DENY'', ''ESCALATE'', ''APPROVE'']"
    by (simp add: r_def policy_decision_cases)
  show "po_Decision r = ''STOP'' \<longleftrightarrow>
        ps_AlreadyRecovered (Payment ctx) \<or> IsTerminal (rc_CurrentState (Case ctx))
        \<or> rc_SourceStatus (Case ctx) = ''CANCELLED'' \<or> rc_RecoveryDeadline (Case ctx) \<le> now"
    unfolding r_def by (rule policy_stop_iff)
  show "dom (po_Checks r) = set check_names" unfolding r_def by (rule check_dom)
  have "(\<not> snd x) \<longleftrightarrow> po_Checks r (fst x) = Some True" if "x \<in> set ?cs" for x
    using check_lookup [of "fst x" "snd x" ctx now zone v c g d, folded r_def] that by simp
  then have "(\<forall>(n, b) \<in> set ?cs. \<not> b) \<longleftrightarrow> (\<forall>n \<in> fst ` set ?cs. po_Checks r n = Some True)"
    unfolding ball_simps(9) split_beta by blast
  then show "po_Decision r = ''APPROVE'' \<longleftrightarrow> (\<forall>n \<in> set check_names. po_Checks r n = Some True)"
    unfolding r_def policy_approve_iff check_names [of ctx now zone v c g, symmetric] list.set_map .
  show "po_ReasonCodes r \<noteq> []" if "po_Decision r \<noteq> ''APPROVE''"
    using that verdict by (auto simp: policy_verdict_def split: if_splits)
  show "po_Checks r n = Some False" if "po_Decision r \<noteq> ''APPROVE''" "n \<in> set (po_ReasonCodes r)" for n
    using check_lookup [OF policy_reasons_failed, of zone ctx d v c g now n] that by (simp add: r_def)
  show "set (po_ReasonCodes r) \<subseteq> {''HIGH_VALUE_APPROVAL'', ''LOW_CONFIDENCE_ESCALATION''}"
    if "po_Decision r = ''ESCALATE''"
  proof -
    have "po_ReasonCodes r = failed (escalate_checks ctx)"
      using that verdict by (auto simp: policy_verdict_def split: if_splits)
    then show ?thesis by (auto simp: failed_def escalate_checks_def)
  qed
qed

lemma approved_contact:
  assumes "po_Decision (policy_Evaluate zone ctx d v c g now) = ''APPROVE''" and "is_contact (cd_Action c)"
  shows "mc_AllowedChannels (MerchantCtx ctx) \<noteq> []" "ps_AvailableChannels (Payment ctx) \<noteq> []"
    "\<not> cp_OptedOut (Profile ctx)" "\<not> promise_active ctx"
    "hi_day (history (RecentActions ctx) now) < mc_MaxContactsPerDay (MerchantCtx ctx)"
    "hi_week (history (RecentActions ctx) now) < mc_MaxContactsPerWeek (MerchantCtx ctx)"
    "\<not> inQuietHours zone (mc_QuietHours (MerchantCtx ctx)) (mc_Timezone (MerchantCtx ctx)) now"
    "\<not> (\<not> IsZero (hi_lastContact (history (RecentActions ctx) now))
       \<and> Sub now (hi_lastContact (history (RecentActions ctx) now)) < interval (MerchantCtx ctx))"
  using approved_checks(2) [OF assms(1)] assms(2)
  by (simp_all add: deny_checks_def Let_def not_le)

lemma approved_retry:
  assumes "po_Decision (policy_Evaluate zone ctx d v c g now) = ''APPROVE''" and "is_retry (cd_Action c)"
  shows "hi_retry (history (RecentActions ctx) now) < mc_MaxRetries (MerchantCtx ctx)"
    "dg_Recoverability (Diag ctx) \<noteq> ''NON_RECOVERABLE''" "\<not> promise_active ctx"
    "ps_MandateStatus (Payment ctx) \<noteq> ''REVOKED''" "ps_MandateStatus (Payment ctx) \<noteq> ''FAILED''"
    "ps_PaymentMethodStatus (Payment ctx) \<noteq> ''INVALID''"
    "\<not> (\<not> IsZero (hi_lastRetry (history (RecentActions ctx) now))
       \<and> Sub now (hi_lastRetry (history (RecentActions ctx) now)) < interval (MerchantCtx ctx))"
  using approved_checks(2) [OF assms(1)] assms(2)
  by (simp_all add: deny_checks_def Let_def not_le)

lemma approved_any:
  assumes "po_Decision (policy_Evaluate zone ctx d v c g now) = ''APPROVE''"
  shows "rc_Version (Case ctx) = v" "eg_Decision g = ''ALLOW''"
    "mc_AllowedActions (MerchantCtx ctx) = [] \<or> cd_Action c \<in> set (mc_AllowedActions (MerchantCtx ctx))"
    "\<not> (mc_MaximumIncentiveMinor (MerchantCtx ctx) < cd_IncentiveCostMinor c
       \<and> 0 \<le> mc_MaximumIncentiveMinor (MerchantCtx ctx))"
  using approved_checks(2) [OF assms] unfolding deny_checks_def Let_def list.pred_inject snd_conv
    length_greater_0_conv containsAction_iff by blast+

lemma approved_escalation:
  assumes "po_Decision (policy_Evaluate zone ctx d v c g now) = ''APPROVE''"
  shows "mc_HighValueThresholdMinor (MerchantCtx ctx) \<le> 0
      \<or> rc_AmountAtRiskMinor (Case ctx) < mc_HighValueThresholdMinor (MerchantCtx ctx)"
    "mc_LowConfidenceThreshold (MerchantCtx ctx) \<le> dg_Confidence (Diag ctx)"
  using approved_checks(3) [OF assms] by (auto simp: escalate_checks_def)

text \<open>C1. An approval is safe whatever the decision component proposed. The case is open,
  unexpired and at the version the decision was made for, the economic gate allowed the
  action, high-value and low-confidence cases are left to a human; an approved contact keeps
  the caps, channels, opt-out, quiet hours in the merchant's zone, and the interval to every
  earlier contact of any kind; an approved retry keeps the retry cap, the permanent-failure
  stop and the interval to every earlier retry; and neither is approved during a promise.\<close>

theorem policy_approval_is_safe:
  assumes "po_Decision (policy_Evaluate zone ctx d v c g now) = ''APPROVE''"
  shows "\<not> IsTerminal (rc_CurrentState (Case ctx)) \<and> now < rc_RecoveryDeadline (Case ctx)
    \<and> rc_Version (Case ctx) = v \<and> eg_Decision g = ''ALLOW''
    \<and> (0 < mc_HighValueThresholdMinor (MerchantCtx ctx)
        \<longrightarrow> rc_AmountAtRiskMinor (Case ctx) < mc_HighValueThresholdMinor (MerchantCtx ctx))
    \<and> mc_LowConfidenceThreshold (MerchantCtx ctx) \<le> dg_Confidence (Diag ctx)
    \<and> (is_contact (cd_Action c) \<longrightarrow> \<not> cp_OptedOut (Profile ctx) \<and> \<not> promise_active ctx
        \<and> ac_day (counts (RecentActions ctx) now) < mc_MaxContactsPerDay (MerchantCtx ctx)
        \<and> ac_week (counts (RecentActions ctx) now) < mc_MaxContactsPerWeek (MerchantCtx ctx)
        \<and> mc_AllowedChannels (MerchantCtx ctx) \<noteq> [] \<and> ps_AvailableChannels (Payment ctx) \<noteq> []
        \<and> \<not> inQuietHours zone (mc_QuietHours (MerchantCtx ctx)) (mc_Timezone (MerchantCtx ctx)) now
        \<and> (\<forall>r \<in> set (RecentActions ctx). is_contact (re_Type r) \<and> 0 < re_CreatedAt r
              \<longrightarrow> interval (MerchantCtx ctx) \<le> Sub now (re_CreatedAt r)))
    \<and> (is_retry (cd_Action c) \<longrightarrow> dg_Recoverability (Diag ctx) \<noteq> ''NON_RECOVERABLE'' \<and> \<not> promise_active ctx
        \<and> ac_retries (counts (RecentActions ctx) now) < mc_MaxRetries (MerchantCtx ctx)
        \<and> ps_MandateStatus (Payment ctx) \<notin> {''REVOKED'', ''FAILED''}
        \<and> ps_PaymentMethodStatus (Payment ctx) \<noteq> ''INVALID''
        \<and> (\<forall>r \<in> set (RecentActions ctx). is_retry (re_Type r) \<and> 0 < re_CreatedAt r
              \<longrightarrow> interval (MerchantCtx ctx) \<le> Sub now (re_CreatedAt r)))"
proof -
  have n: "po_Decision (policy_Evaluate zone ctx d v c g now) \<noteq> ''STOP''" using assms by simp
  have c: "\<forall>r \<in> set (RecentActions ctx). is_contact (re_Type r) \<and> 0 < re_CreatedAt r
      \<longrightarrow> interval (MerchantCtx ctx) \<le> Sub now (re_CreatedAt r)" if k: "is_contact (cd_Action c)"
    using interval_kept [OF _ _ _ _ approved_contact(8) [OF assms k], of _ "RecentActions ctx" is_contact]
    by (simp add: history_def foldl_history)
  have r: "\<forall>r \<in> set (RecentActions ctx). is_retry (re_Type r) \<and> 0 < re_CreatedAt r
      \<longrightarrow> interval (MerchantCtx ctx) \<le> Sub now (re_CreatedAt r)" if k: "is_retry (cd_Action c)"
    using interval_kept [OF _ _ _ _ approved_retry(7) [OF assms k], of _ "RecentActions ctx" is_retry]
    by (simp add: history_def foldl_history)
  show ?thesis
    using n [unfolded policy_stop_iff] approved_any(1,2) [OF assms] approved_escalation [OF assms]
      approved_contact(1-7) [OF assms] approved_retry(1-6) [OF assms] c r
    unfolding history_counts not_le de_Morgan_disj by auto
qed

section \<open>Examples\<close>

definition example_candidate :: "ActionType \<Rightarrow> Candidate" where
  "example_candidate a = \<lparr>cd_Action = a, cd_ActionRecoveryProbability = 1 / 2, cd_NaturalRecoveryProbability = 1 / 4,
     cd_IncrementalUplift = 1 / 4, cd_GrossIncrementalValueMinor = 2500, cd_ChannelCostMinor = 25,
     cd_IncentiveCostMinor = 0, cd_OperationalCostMinor = 0, cd_FatiguePenaltyMinor = 0, cd_RiskPenaltyMinor = 5,
     cd_NERVMinor = 2470, cd_ObjectiveScoreMinor = 2470, cd_Rank = 1, cd_ReasonCodes = [''INCREMENTAL_VALUE_SCORING'']\<rparr>"

definition example_gate :: "ActionType \<Rightarrow> GateResult" where
  "example_gate a = gate_Evaluate ''d'' ''lab-case'' (example_candidate a) 0 (1000 * Hour)"

abbreviation example_verdict :: "ActionType \<Rightarrow> PolicyResult" where
  "example_verdict a \<equiv> policy_Evaluate (\<lambda>_. None) contact_example ''d'' 3 (example_candidate a) (example_gate a) (1000 * Hour)"

lemma example_approved: "po_Decision (example_verdict ActionSendReminder) = ''APPROVE''"
proof -
  have s: "failed (stop_checks contact_example (1000 * Hour)) = []"
    by (simp add: failed_def stop_checks_def contact_example_def viable_defs IsTerminal_def Hour_def)
  have e: "failed (escalate_checks contact_example) = []"
    using fl_nonneg [of "9 / 10"] by (simp add: failed_def escalate_checks_def contact_example_def viable_defs)
  have g: "eg_Decision (example_gate ActionSendReminder) = ''ALLOW''"
    by (simp add: example_gate_def gate_allow_iff example_candidate_def)
  have "failed (deny_checks (\<lambda>_. None) contact_example 3 (example_candidate ActionSendReminder)
      (example_gate ActionSendReminder) (1000 * Hour)) = []"
    by (simp add: failed_def deny_checks_def Let_def g example_candidate_def contact_example_def viable_defs
        history_def inQuietHours_def promise_active_def is_retry_def retryActions_def)
  then show ?thesis using s e by (simp add: policy_decision_cases)
qed

theorem policy_verdict_explained_witness:
  "po_Checks (example_verdict ActionSendReminder) ''QUIET_HOURS'' = Some True"
proof -
  have "''QUIET_HOURS'' \<in> set check_names" by (simp add: check_names_def)
  then show ?thesis
    using example_approved policy_verdict_explained [of "\<lambda>_. None" contact_example "''d''" 3
      "example_candidate ActionSendReminder" "example_gate ActionSendReminder" "1000 * Hour"] by blast
qed

theorem policy_approval_is_safe_witness:
  "ac_day (counts (RecentActions contact_example) (1000 * Hour)) < mc_MaxContactsPerDay (MerchantCtx contact_example)
   \<and> po_Decision (example_verdict ActionSendReminder) = ''APPROVE''"
proof -
  have "is_contact (cd_Action (example_candidate ActionSendReminder))"
    by (simp add: example_candidate_def is_contact_def contactActions_def)
  then show ?thesis using policy_approval_is_safe [OF example_approved] example_approved by blast
qed

section \<open>Where the two filters differ\<close>

text \<open>The eligibility filter exempts WAIT, ESCALATE_TO_HUMAN and STOP from the merchant's
  action list, the policy engine does not: for a merchant whose list is non-empty and omits
  the action, an eligible WAIT (or escalation, or stop) is never approved, and the failed
  check is ACTION_NOT_ALLOWED.\<close>

theorem exempt_action_never_approved:
  assumes "a \<in> set (EligibleActions (Evaluate ctx))"
    and "a \<in> {ActionWait, ActionEscalateToHuman, ActionStop}" and "cd_Action c = a"
    and "mc_AllowedActions (MerchantCtx ctx) \<noteq> []" and "a \<notin> set (mc_AllowedActions (MerchantCtx ctx))"
  shows "po_Decision (policy_Evaluate zone ctx d v c g now) \<noteq> ''APPROVE''
    \<and> po_Checks (policy_Evaluate zone ctx d v c g now) ''ACTION_NOT_ALLOWED'' = Some False"
proof -
  have "(''ACTION_NOT_ALLOWED'', True) \<in> set (deny_checks zone ctx v c g now)"
    using assms(3-5) by (simp add: deny_checks_def Let_def)
  then have m: "(''ACTION_NOT_ALLOWED'', True)
      \<in> set (stop_checks ctx now @ deny_checks zone ctx v c g now @ escalate_checks ctx)" by simp
  have "po_Decision (policy_Evaluate zone ctx d v c g now) \<noteq> ''APPROVE''"
  proof
    assume "po_Decision (policy_Evaluate zone ctx d v c g now) = ''APPROVE''"
    from bspec [OF this [unfolded policy_approve_iff] m] show False by simp
  qed
  then show ?thesis using check_lookup [OF m, of d] by simp
qed

theorem exempt_action_never_approved_witness:
  "ActionWait \<in> set (EligibleActions (Evaluate contact_example))
   \<and> po_Decision (example_verdict ActionWait) \<noteq> ''APPROVE''"
proof -
  have e: "exclusion_reason contact_example ActionWait = []"
    by (simp add: excl_none contact_example_def viable_defs compatible_def Hour_def)
  then have m: "ActionWait \<in> set (EligibleActions (Evaluate contact_example))"
    by (simp add: mem_eligible allActions_def)
  moreover have "cd_Action (example_candidate ActionWait) = ActionWait"
    "mc_AllowedActions (MerchantCtx contact_example) = [ActionSendReminder, ActionRetryNow]"
    by (simp_all add: example_candidate_def contact_example_def viable_defs)
  ultimately show ?thesis using exempt_action_never_approved [OF m] by simp
qed

end
