(* ===== verification/Decisioning.thy ===== *)
theory Decisioning
  imports Policy
begin

text \<open>
  Package \<open>decisioning\<close> (\<open>internal/decisioning/service.go\<close>): the pipeline from a decision
  context to an immutable snapshot: eligibility, prediction, ranking, economic gate, policy.
  The context provider and the prediction service (a separate Python process reached over
  HTTP) are arguments; a \<open>string\<close> on the left of a result is the text of the error they
  return. \<open>fresh\<close> gives the ids in the order \<open>id.New()\<close> is called.
\<close>

record NaturalPrediction =
  np_NaturalRecoveryProbability :: float64
  np_ModelVersion :: string
  np_FeatureVersion :: string
  np_PredictionTimestamp :: time

record NaturalSnapshot =
  ns_ID :: ID
  ns_CaseID :: ID
  ns_CaseVersion :: int
  ns_ContextVersion :: string
  ns_Probability :: float64
  ns_ModelVersion :: string
  ns_FeatureVersion :: string
  ns_PredictedAt :: time

record Decision =
  de_ID :: ID
  de_CaseID :: ID
  de_CaseVersion :: int
  de_ContextVersion :: string
  de_OutcomeModelVersion :: string
  de_NaturalModelVersion :: string
  de_Optimization :: RankResult

record Snapshot =
  sn_Decision :: Decision
  sn_Natural :: NaturalSnapshot
  sn_Context :: RecoveryDecisionContext
  sn_Eligibility :: Eligibility.Result
  sn_Gate :: GateResult
  sn_Policy :: PolicyResult

record Predictor =
  PredictNatural :: "RecoveryDecisionContext \<Rightarrow> (string, NaturalPrediction) result"
  PredictOutcomes :: "RecoveryDecisionContext \<Rightarrow> string list \<Rightarrow> (string, OutcomePrediction list) result"

definition scoreable :: "ActionType list" where
  "scoreable = [ActionRetryNow, ActionRetryLater, ActionSendReminder, ActionSendPaymentLink,
     ActionSendCheckoutRecoveryLink, ActionRequestPaymentMethodUpdate, ActionSuggestAlternateMethod]"

definition modelVersion :: "OutcomePrediction list \<Rightarrow> string" where
  "modelVersion predictions = (case predictions of [] \<Rightarrow> ''outcome-v1'' | p # _ \<Rightarrow> pr_ModelVersion p)"

definition scoreable_actions :: "RecoveryDecisionContext \<Rightarrow> string list" where
  "scoreable_actions ctx =
     map action_string (filter (\<lambda>a. a \<in> set scoreable) (EligibleActions (Eligibility.Evaluate ctx)))"

text \<open>Both predictions, in the order the service asks for them.\<close>

definition predict ::
  "Predictor \<Rightarrow> RecoveryDecisionContext \<Rightarrow> (string, NaturalPrediction \<times> OutcomePrediction list) result" where
  "predict predictor ctx =
     (let actions = scoreable_actions ctx in
      case PredictNatural predictor ctx of Inl e \<Rightarrow> Inl e
      | Inr natural \<Rightarrow>
          if 0 < length actions then
            (case PredictOutcomes predictor ctx actions of Inl e \<Rightarrow> Inl e | Inr ps \<Rightarrow> Inr (natural, ps))
          else Inr (natural, []))"

definition snapshot_of :: "zone_db \<Rightarrow> (nat \<Rightarrow> ID) \<Rightarrow> time \<Rightarrow> ID \<Rightarrow> RecoveryDecisionContext \<Rightarrow> NaturalPrediction
    \<Rightarrow> OutcomePrediction list \<Rightarrow> Snapshot" where
  "snapshot_of zone fresh now caseID ctx natural predictions =
     (let version = rc_Version (Case ctx);
          ranked = Rank ctx predictions (np_NaturalRecoveryProbability natural) DefaultCostModel now;
          gate = (gate_Evaluate (fresh 0) caseID (rr_Selected ranked) (mc_MinimumEconomicValueMinor (MerchantCtx ctx)) now)
                   \<lparr>eg_ID := fresh 2\<rparr>;
          verdict = (policy_Evaluate zone ctx (fresh 0) version (rr_Selected ranked) gate now)
                   \<lparr>po_ID := fresh 3, po_EconomicGateID := fresh 2\<rparr>
      in \<lparr>sn_Decision = \<lparr>de_ID = fresh 0, de_CaseID = caseID, de_CaseVersion = version,
            de_ContextVersion = FeatureVersion ctx, de_OutcomeModelVersion = modelVersion predictions,
            de_NaturalModelVersion = np_ModelVersion natural, de_Optimization = ranked\<rparr>,
          sn_Natural = \<lparr>ns_ID = fresh 1, ns_CaseID = caseID, ns_CaseVersion = version,
            ns_ContextVersion = FeatureVersion ctx, ns_Probability = np_NaturalRecoveryProbability natural,
            ns_ModelVersion = np_ModelVersion natural, ns_FeatureVersion = np_FeatureVersion natural,
            ns_PredictedAt = np_PredictionTimestamp natural\<rparr>,
          sn_Context = ctx, sn_Eligibility = Eligibility.Evaluate ctx, sn_Gate = gate, sn_Policy = verdict\<rparr>)"

definition decision_Evaluate :: "(ID \<Rightarrow> (string, RecoveryDecisionContext) result) \<Rightarrow> Predictor \<Rightarrow> zone_db
    \<Rightarrow> (nat \<Rightarrow> ID) \<Rightarrow> time \<Rightarrow> ID \<Rightarrow> (string, Snapshot) result" where
  "decision_Evaluate contexts predictor zone fresh now caseID =
     (case contexts caseID of Inl e \<Rightarrow> Inl e
      | Inr ctx \<Rightarrow>
          (case predict predictor ctx of Inl e \<Rightarrow> Inl e
           | Inr (natural, predictions) \<Rightarrow> Inr (snapshot_of zone fresh now caseID ctx natural predictions)))"

text \<open>\<open>Service.Decide\<close>, over a store with state \<open>'s\<close>.\<close>

definition decision_Decide :: "(ID \<Rightarrow> (string, RecoveryDecisionContext) result) \<Rightarrow> Predictor \<Rightarrow> zone_db
    \<Rightarrow> ('s \<Rightarrow> Snapshot \<Rightarrow> (string, 's) result) \<Rightarrow> (nat \<Rightarrow> ID) \<Rightarrow> time \<Rightarrow> 's \<Rightarrow> ID
    \<Rightarrow> (string, Snapshot \<times> 's) result" where
  "decision_Decide contexts predictor zone save fresh now s caseID =
     (case decision_Evaluate contexts predictor zone fresh now caseID of Inl e \<Rightarrow> Inl e
      | Inr snapshot \<Rightarrow> (case save s snapshot of Inl e \<Rightarrow> Inl e | Inr s' \<Rightarrow> Inr (snapshot, s')))"

record ObjectiveComparison =
  oc_Objective :: string
  oc_SelectedAction :: ActionType
  oc_NERVMinor :: int
  oc_ObjectiveScore :: int
  oc_Candidates :: "Candidate list"

definition objectives :: "string list" where
  "objectives = [''MAXIMIZE_NET_RECOVERY'', ''MAXIMIZE_RETENTION'', ''MINIMIZE_CONTACT'',
     ''MINIMIZE_RECOVERY_COST'', ''BALANCED'']"

definition objective_row :: "RecoveryDecisionContext \<Rightarrow> OutcomePrediction list \<Rightarrow> float64 \<Rightarrow> time \<Rightarrow> string
    \<Rightarrow> ObjectiveComparison" where
  "objective_row ctx predictions natural now objective =
     (let variant = ctx\<lparr>MerchantCtx := (MerchantCtx ctx)\<lparr>mc_RecoveryObjective := objective,
                          mc_OptimizationProfileVersion := 0\<rparr>\<rparr>;
          ranked = Rank variant predictions natural DefaultCostModel now
      in \<lparr>oc_Objective = objective, oc_SelectedAction = cd_Action (rr_Selected ranked),
          oc_NERVMinor = cd_NERVMinor (rr_Selected ranked),
          oc_ObjectiveScore = cd_ObjectiveScoreMinor (rr_Selected ranked), oc_Candidates = rr_Candidates ranked\<rparr>)"

definition CompareObjectives :: "(ID \<Rightarrow> (string, RecoveryDecisionContext) result) \<Rightarrow> Predictor \<Rightarrow> time \<Rightarrow> ID
    \<Rightarrow> (string, ObjectiveComparison list) result" where
  "CompareObjectives contexts predictor now caseID =
     (case contexts caseID of Inl e \<Rightarrow> Inl e
      | Inr ctx \<Rightarrow>
          (case predict predictor ctx of Inl e \<Rightarrow> Inl e
           | Inr (natural, predictions) \<Rightarrow>
               Inr (map (objective_row ctx predictions (np_NaturalRecoveryProbability natural) now) objectives)))"

section \<open>What a snapshot says\<close>

lemma decision_EvaluateE:
  assumes "decision_Evaluate contexts predictor zone fresh now caseID = Inr s"
  obtains ctx natural ps where "contexts caseID = Inr ctx" "predict predictor ctx = Inr (natural, ps)"
    "s = snapshot_of zone fresh now caseID ctx natural ps"
  using assms by (auto simp: decision_Evaluate_def split: sum.splits prod.splits)

text \<open>The contract of the prediction service: it answers for the actions it was asked for.\<close>

definition answers_only :: "Predictor \<Rightarrow> bool" where
  "answers_only predictor \<longleftrightarrow> (\<forall>ctx actions ps. PredictOutcomes predictor ctx actions = Inr ps \<longrightarrow>
     pr_Action ` set ps \<subseteq> set actions)"

lemma predicted_scoreable:
  assumes "answers_only predictor" and "predict predictor ctx = Inr (natural, ps)" and "p \<in> set ps"
  shows "action_of (pr_Action p) \<in> set scoreable \<inter> set (EligibleActions (Eligibility.Evaluate ctx))"
proof -
  have "pr_Action p \<in> set (scoreable_actions ctx)"
    using assms unfolding answers_only_def predict_def Let_def
    by (fastforce split: if_splits sum.splits)
  then obtain a where a: "pr_Action p = action_string a" "a \<in> set scoreable"
    "a \<in> set (EligibleActions (Eligibility.Evaluate ctx))"
    by (auto simp: scoreable_actions_def)
  have "proper_action a" using a(2) by (intro proper_declared) (auto simp: scoreable_def declared_actions_def)
  then have "action_of (pr_Action p) = a" by (simp add: a(1) proper_action_def)
  then show ?thesis using a by simp
qed

lemma selected_action:
  "cd_Action (rr_Selected (Rank ctx ps natural costs now)) \<in>
     insert ActionWait ((\<lambda>p. action_of (pr_Action p)) ` set ps)"
proof -
  let ?r = "Rank ctx ps natural costs now"
  have "sorted_candidates ctx ps natural costs ! 0 \<in> set (sorted_candidates ctx ps natural costs)"
    using sorted_candidates_nonempty by (metis length_greater_0_conv nth_mem)
  then have "cd_Action (rr_Selected ?r) \<in> set (byAction_keys ps)"
    using sorted_candidates_actions(1) [of ctx ps natural costs] by (simp add: rr_Selected_Rank) (metis imageI)
  then show ?thesis by (auto simp: byAction_keys_def split: if_splits)
qed

text \<open>A decision snapshot is coherent. Decision, natural prediction, gate and policy carry the
  version of the context they were computed from; gate and policy judge the selected
  candidate under the decision's and the gate's id; an approval implies that the gate allowed
  it; and with a predictor that answers only for the requested actions the selection is WAIT
  or an action that is both eligible and executable.\<close>

theorem snapshot_is_coherent:
  assumes "decision_Evaluate contexts predictor zone fresh now caseID = Inr s" and "answers_only predictor"
  shows "\<exists>ctx. contexts caseID = Inr ctx \<and> sn_Context s = ctx
    \<and> de_CaseVersion (sn_Decision s) = rc_Version (Case ctx)
    \<and> ns_CaseVersion (sn_Natural s) = rc_Version (Case ctx) \<and> po_CaseVersion (sn_Policy s) = rc_Version (Case ctx)
    \<and> eg_DecisionID (sn_Gate s) = de_ID (sn_Decision s) \<and> po_DecisionID (sn_Policy s) = de_ID (sn_Decision s)
    \<and> po_EconomicGateID (sn_Policy s) = eg_ID (sn_Gate s)
    \<and> eg_Action (sn_Gate s) = cd_Action (rr_Selected (de_Optimization (sn_Decision s)))
    \<and> po_SelectedAction (sn_Policy s) = cd_Action (rr_Selected (de_Optimization (sn_Decision s)))
    \<and> (po_Decision (sn_Policy s) = ''APPROVE'' \<longrightarrow> eg_Decision (sn_Gate s) = ''ALLOW'')
    \<and> cd_Action (rr_Selected (de_Optimization (sn_Decision s)))
        \<in> insert ActionWait (set scoreable \<inter> set (EligibleActions (Eligibility.Evaluate ctx)))"
proof -
  obtain ctx natural ps where c: "contexts caseID = Inr ctx" "predict predictor ctx = Inr (natural, ps)"
    and s: "s = snapshot_of zone fresh now caseID ctx natural ps"
    using assms(1) by (rule decision_EvaluateE)
  let ?c = "rr_Selected (Rank ctx ps (np_NaturalRecoveryProbability natural) DefaultCostModel now)"
  have sel: "cd_Action ?c \<in> insert ActionWait (set scoreable \<inter> set (EligibleActions (Eligibility.Evaluate ctx)))"
    using selected_action [of ctx ps "np_NaturalRecoveryProbability natural" DefaultCostModel now]
      predicted_scoreable [OF assms(2) c(2)] by auto
  have "eg_Decision (sn_Gate s) = ''ALLOW''" if "po_Decision (sn_Policy s) = ''APPROVE''"
  proof -
    have "po_Decision (policy_Evaluate zone ctx (fresh 0) (rc_Version (Case ctx)) ?c (sn_Gate s) now) = ''APPROVE''"
      using that by (simp add: s snapshot_of_def Let_def)
    then show ?thesis by (rule approved_any(2))
  qed
  then show ?thesis
    using c sel by (simp add: s snapshot_of_def Let_def gate_Evaluate_def policy_Evaluate_def split: prod.split)
qed

definition echo_predictor :: Predictor where
  "echo_predictor = \<lparr>PredictNatural = \<lambda>_. Inr \<lparr>np_NaturalRecoveryProbability = 1 / 4,
       np_ModelVersion = ''natural-v1'', np_FeatureVersion = [], np_PredictionTimestamp = 0\<rparr>,
     PredictOutcomes = \<lambda>_ actions. Inr (map (\<lambda>a. reminder_prediction\<lparr>pr_Action := a\<rparr>) actions)\<rparr>"

lemma echo_answers_only: "answers_only echo_predictor"
  by (auto simp: answers_only_def echo_predictor_def reminder_prediction_def)

lemma echo_predict: "\<exists>natural ps. predict echo_predictor ctx = Inr (natural, ps)"
  by (simp add: predict_def echo_predictor_def Let_def)

lemma echo_evaluates: "\<exists>s. decision_Evaluate (\<lambda>_. Inr ctx) echo_predictor zone fresh now c = Inr s"
  using echo_predict [of ctx] by (auto simp: decision_Evaluate_def)

theorem snapshot_is_coherent_witness:
  "\<exists>s. decision_Evaluate (\<lambda>_. Inr contact_example) echo_predictor (\<lambda>_. None) (\<lambda>_. ''x'') 0 ''lab-case'' = Inr s
     \<and> de_CaseVersion (sn_Decision s) = 3"
proof -
  obtain s where s: "decision_Evaluate (\<lambda>_. Inr contact_example) echo_predictor (\<lambda>_. None) (\<lambda>_. ''x'') 0 ''lab-case'' = Inr s"
    using echo_evaluates [of contact_example "\<lambda>_. None" "\<lambda>_. ''x''" 0 "''lab-case''"] by blast
  have "rc_Version (Case contact_example) = 3" by (simp add: contact_example_def viable_defs)
  then show ?thesis using s snapshot_is_coherent [OF s echo_answers_only] by auto
qed

text \<open>The comparison of objectives is explanation only, but safe to show: it has one row per
  merchant objective in the published order, and for probabilities in the unit interval no
  row recommends an action expected to lose money, even for a merchant with a profile.\<close>

theorem compare_objectives_safe:
  assumes "CompareObjectives contexts predictor now caseID = Inr rows"
    and "contexts caseID = Inr ctx" and "predict predictor ctx = Inr (natural, ps)"
    and "default_inputs (ctx\<lparr>MerchantCtx := (MerchantCtx ctx)\<lparr>mc_OptimizationProfileVersion := 0\<rparr>\<rparr>) ps
           (np_NaturalRecoveryProbability natural)"
  shows "map oc_Objective rows = objectives \<and> (\<forall>r \<in> set rows. 0 \<le> oc_NERVMinor r)"
proof -
  have rows: "rows = map (objective_row ctx ps (np_NaturalRecoveryProbability natural) now) objectives"
    using assms(1-3) by (simp add: CompareObjectives_def)
  have "0 \<le> oc_NERVMinor (objective_row ctx ps (np_NaturalRecoveryProbability natural) now objective)" for objective
  proof -
    let ?v = "ctx\<lparr>MerchantCtx := (MerchantCtx ctx)\<lparr>mc_RecoveryObjective := objective, mc_OptimizationProfileVersion := 0\<rparr>\<rparr>"
    have "default_inputs ?v ps (np_NaturalRecoveryProbability natural)"
      using assms(4) by (simp add: default_inputs_def)
    from default_selection_nonneg [OF this, of now] show ?thesis
      by (simp add: objective_row_def Let_def)
  qed
  moreover have "map oc_Objective rows = objectives"
    by (simp add: rows objectives_def objective_row_def Let_def)
  ultimately show ?thesis by (auto simp: rows)
qed

theorem compare_objectives_safe_witness:
  "\<exists>rows. CompareObjectives (\<lambda>_. Inr (viable_context 0)) echo_predictor 0 ''lab-case'' = Inr rows
     \<and> (\<forall>r \<in> set rows. 0 \<le> oc_NERVMinor r)"
proof -
  obtain natural ps where p: "predict echo_predictor (viable_context 0) = Inr (natural, ps)"
    using echo_predict by blast
  have n: "np_NaturalRecoveryProbability natural = 1 / 4" "\<forall>p \<in> set ps. pr_RecoveryProbability p = 1 / 2"
    using p by (auto simp: predict_def echo_predictor_def Let_def reminder_prediction_def split: if_splits)
  have d: "default_inputs ((viable_context 0)\<lparr>MerchantCtx := (MerchantCtx (viable_context 0))\<lparr>mc_OptimizationProfileVersion := 0\<rparr>\<rparr>)
      ps (np_NaturalRecoveryProbability natural)"
    using n default_inputs_viable [of 0] unfolding default_inputs_def by force
  obtain rows where r: "CompareObjectives (\<lambda>_. Inr (viable_context 0)) echo_predictor 0 ''lab-case'' = Inr rows"
    using p by (auto simp: CompareObjectives_def)
  show ?thesis using r compare_objectives_safe [OF r refl p d] by blast
qed

end
