(* ===== verification/Store_State.thy ===== *)
theory Store_State
  imports Decisioning
begin

text \<open>
  The tables of \<open>internal/store\<close> (PostgreSQL, \<open>infra/migrations\<close>) as lists of rows in insertion
  order, and the statements the package runs on them. A transaction is a function from the
  database to an error or a result with the new database: \<open>Inl\<close> is \<open>defer tx.Rollback\<close>, \<open>Inr\<close>
  the commit. Rows are locked (\<open>FOR UPDATE\<close>) before they are changed, so transactions on one
  case are serial. The failure of the database itself (a lost connection at any statement)
  rolls back and is not a separate branch. Unique and check constraints are branches,
  \<open>ErrConstraint\<close>; foreign keys are, where a caller could violate them.
\<close>

datatype error = ErrNotFound | ErrConflict | ErrTransition TransitionError | ErrNoDueWork
  | ErrNoDueObservation | ErrNoDuePromise | ErrCaseTerminal | ErrNotReviewable | ErrNoRows
  | ErrConstraint string | ErrMsg string

section \<open>Rows\<close>

datatype ScheduledStatus = SPending | SClaimed | SExecuting | SObservationPending | SObservationClaimed
  | SObserved | SFailed | SRetryPending | SCancelled | SSuperseded

record ScheduledAction =
  sa_ID :: ID
  sa_CaseID :: ID
  sa_DecisionID :: ID
  sa_PolicyEvaluationID :: ID
  sa_RecoveryActionID :: ID
  sa_Action :: ActionType
  sa_Parameters :: RawMessage
  sa_ScheduledFor :: time
  sa_Status :: ScheduledStatus
  sa_AttemptCount :: int
  sa_MaxAttempts :: int
  sa_IdempotencyKey :: string
  sa_CaseVersionAtSchedule :: int
  sa_NextRetryAt :: "time option"

text \<open>The columns of \<open>scheduled_actions\<close> the Go struct leaves out.\<close>

record ScheduledRow = ScheduledAction +
  sr_LeaseOwner :: "string option"
  sr_LeaseExpiresAt :: "time option"
  sr_FailureReason :: "string option"
  sr_CreatedAt :: time
  sr_StartedAt :: "time option"
  sr_CompletedAt :: "time option"

text \<open>\<open>executor.Result\<close>\<close>

record ExecResult =
  er_ExecutionID :: ID
  er_Action :: ActionType
  er_Status :: string
  er_Provider :: string
  er_ProviderReference :: string
  er_IdempotencyKey :: string
  er_ExecutedAt :: time
  er_FailureClass :: string
  er_Retryable :: bool

record Execution =
  ex_ID :: ID
  ex_CaseID :: ID
  ex_ActionID :: ID
  ex_Attempt :: int
  ex_Status :: string
  ex_ProviderReference :: string
  ex_Response :: ExecResult
  ex_StartedAt :: time
  ex_CompletedAt :: "time option"
  ex_ScheduledActionID :: ID
  ex_IdempotencyKey :: string
  ex_FailureClass :: string
  ex_Retryable :: bool

text \<open>A decision with the context and the eligibility result stored beside it.\<close>

record DecisionRow =
  dr_Decision :: Decision
  dr_Context :: RecoveryDecisionContext
  dr_Eligibility :: Eligibility.Result

datatype CheckStatus = CheckPending | CheckClaimed | CheckCompleted | CheckCancelled

record PromiseCheck =
  ck_ID :: ID
  ck_PromiseID :: ID
  ck_CaseID :: ID
  ck_ScheduledFor :: time
  ck_Status :: CheckStatus
  ck_AttemptCount :: int
  ck_LeaseOwner :: "string option"
  ck_LeaseExpiresAt :: "time option"
  ck_CompletedAt :: "time option"
  ck_Result :: "string option"
  ck_CreatedAt :: time

record PromiseEvent =
  pe_ID :: ID
  pe_PromiseID :: ID
  pe_CaseID :: ID
  pe_FromStatus :: "PromiseStatus option"
  pe_ToStatus :: PromiseStatus
  pe_ReasonCode :: string
  pe_Payload :: RawMessage
  pe_OccurredAt :: time
  pe_CorrelationID :: string

datatype Category = DirectAction | RetryCategory | Promise | Natural | Unknown

record Attribution =
  at_ID :: ID
  at_CaseID :: ID
  at_RecoveredAmountMinor :: int
  at_PaymentReference :: string
  at_Category :: Category
  at_DecisionID :: "ID option"
  at_ActionID :: "ID option"
  at_ExecutionID :: "ID option"
  at_PromiseID :: "ID option"
  at_Evidence :: RawMessage
  at_EvidenceStrength :: string
  at_RuleVersion :: string
  at_ObservedAt :: time
  at_CreatedAt :: time

record Response =
  rs_ID :: ID
  rs_CaseID :: ID
  rs_Type :: string
  rs_Payload :: RawMessage
  rs_Source :: string
  rs_ReceivedAt :: time
  rs_CorrelationID :: string

record Delivery =
  dl_ID :: ID
  dl_ScheduledActionID :: ID
  dl_IdempotencyKey :: string
  dl_Recipient :: string
  dl_Template :: string
  dl_Payload :: RawMessage

record RetryRequest =
  rq_ID :: ID
  rq_IdempotencyKey :: string
  rq_Payload :: RawMessage

text \<open>\<open>razorpay.PaymentLink\<close> and a row of \<open>provider_action_references\<close>.\<close>

record PaymentLink =
  pl_ID :: string
  pl_ShortURL :: string
  pl_Status :: string
  pl_ReferenceID :: string

record ProviderReference =
  lk_ID :: ID
  lk_ActionID :: ID
  lk_Link :: PaymentLink

datatype ReviewDecision = Approve | Reject | Defer | Stop

text \<open>\<open>operations.Review\<close>\<close>

record Review =
  rv_ID :: ID
  rv_CaseID :: ID
  rv_DecisionID :: ID
  rv_PolicyEvaluationID :: ID
  rv_RecommendedAction :: ActionType
  rv_OperatorID :: string
  rv_ActorType :: string
  rv_ActorMetadata :: RawMessage
  rv_Decision :: ReviewDecision
  rv_ReasonCode :: string
  rv_Notes :: string
  rv_CaseVersionAtReview :: int
  rv_MerchantPolicyVersionAtReview :: int
  rv_ReviewAfter :: "time option"
  rv_IdempotencyKey :: string
  rv_ReauthorizationResult :: string
  rv_ReauthorizationReasonCodes :: "string list"
  rv_ScheduledActionID :: "ID option"
  rv_CreatedAt :: time

text \<open>A row of \<open>feedback_records\<close>, the columns the row does not share with the tables it refers to.\<close>

record Feedback =
  fb_ID :: ID
  fb_CaseID :: ID
  fb_CaseVersion :: int
  fb_DecisionID :: ID
  fb_ExecutionID :: "ID option"
  fb_AttributionID :: ID
  fb_EligibleActions :: "ActionType list"
  fb_SelectedAction :: ActionType
  fb_PredictedNERVMinor :: int
  fb_RecoveredAmountMinor :: int
  fb_InterventionCostMinor :: int
  fb_TimeToOutcomeMinutes :: int
  fb_PolicyResult :: string
  fb_TrainingEligible :: bool
  fb_ExclusionReasons :: "string list"
  fb_CreatedAt :: time

record Database =
  db_cases :: "RecoveryCase list"
  db_events :: "RecoveryEvent list"
  db_merchants :: "Merchant list"
  db_customers :: "Customer list"
  db_profiles :: "CustomerRecoveryProfile list"
  db_actions :: "RecoveryAction list"
  db_scheduled :: "ScheduledRow list"
  db_executions :: "Execution list"
  db_naturals :: "NaturalSnapshot list"
  db_decisions :: "DecisionRow list"
  db_gates :: "GateResult list"
  db_policies :: "PolicyResult list"
  db_promises :: "PromiseToPay list"
  db_checks :: "PromiseCheck list"
  db_promise_events :: "PromiseEvent list"
  db_attributions :: "Attribution list"
  db_responses :: "Response list"
  db_deliveries :: "Delivery list"
  db_retry_requests :: "RetryRequest list"
  db_provider_refs :: "ProviderReference list"
  db_reviews :: "Review list"
  db_feedback :: "Feedback list"
  db_merchant_policies :: "MerchantPolicy list"
  db_optimization_profiles :: "MerchantOptimizationProfile list"

type_synonym 'a tx = "Database \<Rightarrow> (error, 'a \<times> Database) result"

section \<open>Statements on a table\<close>

definition lookup :: "('r \<Rightarrow> 'k) \<Rightarrow> 'k \<Rightarrow> 'r list \<Rightarrow> 'r option" where
  "lookup key k t = find (\<lambda>r. key r = k) t"

text \<open>\<open>UPDATE t SET f WHERE key = k\<close>\<close>

definition modify :: "('r \<Rightarrow> 'k) \<Rightarrow> 'k \<Rightarrow> ('r \<Rightarrow> 'r) \<Rightarrow> 'r list \<Rightarrow> 'r list" where
  "modify key k f t = map (\<lambda>r. if key r = k then f r else r) t"

definition keyed :: "('r \<Rightarrow> 'k) \<Rightarrow> 'r list \<Rightarrow> bool" where
  "keyed key t = distinct (map key t)"

lemma lookup_Nil [simp]: "lookup key k [] = None"
  by (simp add: lookup_def)

lemma lookup_Cons: "lookup key k (r # t) = (if key r = k then Some r else lookup key k t)"
  by (simp add: lookup_def)

lemma lookup_append:
  "lookup key k (t @ u) = (case lookup key k t of Some r \<Rightarrow> Some r | None \<Rightarrow> lookup key k u)"
  by (induction t) (auto simp: lookup_Cons)

lemma lookup_None: "lookup key k t = None \<longleftrightarrow> k \<notin> key ` set t"
  by (induction t) (auto simp: lookup_Cons)

lemma lookup_SomeD: "lookup key k t = Some r \<Longrightarrow> r \<in> set t \<and> key r = k"
  by (induction t) (auto simp: lookup_Cons split: if_splits)

lemma lookup_keyed: "keyed key t \<Longrightarrow> r \<in> set t \<Longrightarrow> lookup key (key r) t = Some r"
  by (induction t) (auto simp: lookup_Cons keyed_def rev_image_eqI)

text \<open>An update that keeps the key changes the row it names and no other.\<close>

lemma lookup_modify:
  "(\<And>r. key (f r) = key r) \<Longrightarrow>
   lookup key k' (modify key k f t) = (if k' = k then map_option f (lookup key k t) else lookup key k' t)"
  by (induction t) (auto simp: modify_def lookup_Cons)

lemma keys_modify: "(\<And>r. key (f r) = key r) \<Longrightarrow> map key (modify key k f t) = map key t"
  by (simp add: modify_def)

lemma keyed_modify: "(\<And>r. key (f r) = key r) \<Longrightarrow> keyed key (modify key k f t) = keyed key t"
  by (simp add: keyed_def keys_modify)

lemma keyed_append: "keyed key (t @ [r]) \<longleftrightarrow> keyed key t \<and> lookup key (key r) t = None"
  by (auto simp: keyed_def lookup_None)

text \<open>\<open>ORDER BY rank DESC LIMIT 1\<close>\<close>

definition latest :: "('r \<Rightarrow> 'v::linorder) \<Rightarrow> 'r list \<Rightarrow> 'r option" where
  "latest rank t = (case sort_by (\<lambda>a b. rank b < rank a) t of [] \<Rightarrow> None | r # _ \<Rightarrow> Some r)"

interpretation by_rank: weak_order UNIV "\<lambda>a b. rank b < rank a" for rank :: "'r \<Rightarrow> 'v::linorder"
  by unfold_locales auto

lemma latest_Nil [simp]: "latest rank [] = None"
  by (simp add: latest_def)

lemma latest_single [simp]: "latest rank [r] = Some r"
  by (simp add: latest_def)

lemma latest_Some:
  assumes "latest rank t = Some r"
  shows "r \<in> set t" "x \<in> set t \<Longrightarrow> rank x \<le> rank r"
proof -
  obtain rs where s: "sort_by (\<lambda>a b. rank b < rank a) t = r # rs" using assms by (auto simp: latest_def split: list.splits)
  have "r \<in> set (sort_by (\<lambda>a b. rank b < rank a) t)" by (simp add: s)
  then show "r \<in> set t" by simp
  show "x \<in> set t \<Longrightarrow> rank x \<le> rank r" using by_rank.head_least [OF _ s] by force
qed

lemma latest_None: "latest rank t = None \<longleftrightarrow> t = []"
  by (cases "sort_by (\<lambda>a b. rank b < rank a) t") (auto simp: latest_def dest: arg_cong [of _ _ length])

text \<open>\<open>ORDER BY created_at DESC, id DESC LIMIT 1\<close>; ids compare by their bytes.\<close>

definition newest :: "('r \<Rightarrow> time) \<Rightarrow> ('r \<Rightarrow> ID) \<Rightarrow> 'r list \<Rightarrow> 'r option" where
  "newest created key t = latest (\<lambda>r. created r # map of_char (key r)) t"

lemma newest_Some: "newest created key t = Some r \<Longrightarrow> r \<in> set t"
  unfolding newest_def by (rule latest_Some(1))

lemma newest_single [simp]: "newest created key [r] = Some r" "newest created key [] = None"
  by (simp_all add: newest_def)

section \<open>Events\<close>

definition nextSequence :: "Database \<Rightarrow> ID \<Rightarrow> int" where
  "nextSequence db caseID = foldl max 0 (map ev_Sequence (filter (\<lambda>e. ev_CaseID e = caseID) (db_events db))) + 1"

definition insertEvent :: "Database \<Rightarrow> RecoveryEvent \<Rightarrow> (error, Database) result" where
  "insertEvent db e =
     (if lookup rc_ID (ev_CaseID e) (db_cases db) = None then Inl (ErrConstraint ''recovery_events_case_id_fkey'')
      else if list_ex (\<lambda>x. ev_ID x = ev_ID e) (db_events db) then Inl (ErrConstraint ''recovery_events_pkey'')
      else if list_ex (\<lambda>x. ev_CaseID x = ev_CaseID e \<and> ev_Sequence x = ev_Sequence e) (db_events db)
        then Inl (ErrConstraint ''recovery_events_case_id_sequence_key'')
      else if ev_Sequence e \<le> 0 then Inl (ErrConstraint ''recovery_events_sequence_check'')
      else Inr (db\<lparr>db_events := db_events db @ [e]\<rparr>))"

fun insertEvents :: "Database \<Rightarrow> RecoveryEvent list \<Rightarrow> (error, Database) result" where
  "insertEvents db [] = Inr db"
| "insertEvents db (e # es) = (case insertEvent db e of Inl err \<Rightarrow> Inl err | Inr db' \<Rightarrow> insertEvents db' es)"

text \<open>Consecutive numbers from a first one (\<open>Sequence: sequence + int64(index)\<close>).\<close>

fun numbered :: "int \<Rightarrow> RecoveryEvent list \<Rightarrow> RecoveryEvent list" where
  "numbered n [] = []"
| "numbered n (e # es) = e\<lparr>ev_Sequence := n\<rparr> # numbered (n + 1) es"

text \<open>An event of a case with the fields every literal of the package sets.\<close>

definition event_of :: "ID \<Rightarrow> ID \<Rightarrow> EventType \<Rightarrow> time \<Rightarrow> Actor \<Rightarrow> RawMessage \<Rightarrow> string \<Rightarrow> RecoveryEvent" where
  "event_of newID caseID type now actor payload correlationID =
     \<lparr>ev_ID = newID, ev_CaseID = caseID, ev_Sequence = 0, ev_Type = type, ev_Timestamp = now, ev_Actor = actor,
      ev_Payload = payload, ev_ModelVersion = [], ev_CorrelationID = correlationID\<rparr>"

abbreviation system_actor :: "string \<Rightarrow> Actor" where
  "system_actor i \<equiv> \<lparr>actor_Type = ''SYSTEM'', actor_ID = i\<rparr>"

abbreviation worker_actor :: "string \<Rightarrow> Actor" where
  "worker_actor i \<equiv> \<lparr>actor_Type = ''WORKER'', actor_ID = i\<rparr>"

text \<open>Append events to the log of one case, numbered after its last one.\<close>

definition append_events :: "Database \<Rightarrow> ID \<Rightarrow> RecoveryEvent list \<Rightarrow> (error, Database) result" where
  "append_events db caseID es = insertEvents db (numbered (nextSequence db caseID) es)"

section \<open>Cases\<close>

text \<open>\<open>UPDATE recovery_cases SET current_state = s, version = version + 1, updated_at = now\<close>\<close>

definition advance :: "CaseState \<Rightarrow> time \<Rightarrow> RecoveryCase \<Rightarrow> RecoveryCase" where
  "advance s now c = c\<lparr>rc_CurrentState := s, rc_Version := rc_Version c + 1, rc_UpdatedAt := now\<rparr>"

definition update_case :: "ID \<Rightarrow> (RecoveryCase \<Rightarrow> RecoveryCase) \<Rightarrow> Database \<Rightarrow> Database" where
  "update_case i f db = db\<lparr>db_cases := modify rc_ID i f (db_cases db)\<rparr>"

definition find_case :: "Database \<Rightarrow> ID \<Rightarrow> RecoveryCase option" where
  "find_case db i = lookup rc_ID i (db_cases db)"

lemma advance_simps [simp]:
  "rc_ID (advance s now c) = rc_ID c" "rc_CurrentState (advance s now c) = s"
  "rc_Version (advance s now c) = rc_Version c + 1"
  "rc_RecoveredAmountMinor (advance s now c) = rc_RecoveredAmountMinor c"
  "rc_RecoveryDeadline (advance s now c) = rc_RecoveryDeadline c"
  by (simp_all add: advance_def)

lemma find_case_update:
  "(\<And>c. rc_ID (f c) = rc_ID c) \<Longrightarrow>
   find_case (update_case i f db) j = (if j = i then map_option f (find_case db i) else find_case db j)"
  by (simp add: find_case_def update_case_def lookup_modify)

lemma update_case_other [simp]:
  "db_events (update_case i f db) = db_events db" "db_scheduled (update_case i f db) = db_scheduled db"
  "db_promises (update_case i f db) = db_promises db" "db_attributions (update_case i f db) = db_attributions db"
  "db_actions (update_case i f db) = db_actions db" "db_executions (update_case i f db) = db_executions db"
  by (simp_all add: update_case_def)

section \<open>The event log\<close>

text \<open>The log of a case is numbered 1, 2, 3 without a gap, in insertion order.\<close>

definition case_log :: "Database \<Rightarrow> ID \<Rightarrow> RecoveryEvent list" where
  "case_log db i = filter (\<lambda>e. ev_CaseID e = i) (db_events db)"

definition gap_free :: "Database \<Rightarrow> bool" where
  "gap_free db \<longleftrightarrow> (\<forall>i. map ev_Sequence (case_log db i) = [1 .. int (length (case_log db i))])"

lemma nextSequence_gap_free:
  assumes "map ev_Sequence (case_log db i) = [1 .. int (length (case_log db i))]"
  shows "nextSequence db i = int (length (case_log db i)) + 1"
proof -
  have "foldl max m [a .. b] = max m b" if "a \<le> b" for m a b :: int
    using that
  proof (induction a b arbitrary: m rule: upto.induct)
    case (1 a b)
    show ?case
    proof (cases "a + 1 \<le> b")
      case True
      then show ?thesis using "1.IH" "1.prems" by (simp add: upto_rec1)
    next
      case False
      then have "a = b" using "1.prems" by simp
      then show ?thesis by simp
    qed
  qed
  then have "foldl max 0 [1 .. int n] = int n" for n by (cases "1 \<le> int n") auto
  then show ?thesis by (simp add: nextSequence_def case_log_def [symmetric] assms)
qed

lemma insertEvent_log:
  assumes "insertEvent db e = Inr db'"
  shows "db' = db\<lparr>db_events := db_events db @ [e]\<rparr>" and "find_case db (ev_CaseID e) \<noteq> None"
  using assms by (auto simp: insertEvent_def find_case_def split: if_splits)

lemma insertEvents_log: "insertEvents db es = Inr db' \<Longrightarrow> db' = db\<lparr>db_events := db_events db @ es\<rparr>"
proof (induction es arbitrary: db)
  case (Cons e es)
  then obtain d where d: "insertEvent db e = Inr d" "insertEvents d es = Inr db'"
    by (auto split: sum.splits)
  show ?case using Cons.IH [OF d(2)] insertEvent_log(1) [OF d(1)] by simp
qed simp

lemma insertEvents_case:
  "insertEvents db es = Inr db' \<Longrightarrow> e \<in> set es \<Longrightarrow> find_case db (ev_CaseID e) \<noteq> None"
proof (induction es arbitrary: db)
  case (Cons x es)
  then obtain d where d: "insertEvent db x = Inr d" "insertEvents d es = Inr db'"
    by (auto split: sum.splits)
  have "find_case d i = find_case db i" for i
    using insertEvent_log(1) [OF d(1)] by (simp add: find_case_def)
  then show ?case using Cons.IH [OF d(2)] Cons.prems(2) insertEvent_log(2) [OF d(1)] by fastforce
qed simp

lemma numbered_facts:
  "map ev_Sequence (numbered n es) = [n .. n + int (length es) - 1]"
  "map ev_CaseID (numbered n es) = map ev_CaseID es" "length (numbered n es) = length es"
  by (induction es arbitrary: n) (auto simp: upto_rec1 algebra_simps)

text \<open>Every writer appends to one case's log through \<open>append_events\<close>.\<close>

lemma append_events_log:
  assumes "append_events db i es = Inr db'"
  shows "db' = db\<lparr>db_events := db_events db @ numbered (nextSequence db i) es\<rparr>"
  using assms unfolding append_events_def by (rule insertEvents_log)

lemma append_events_gap_free:
  assumes "append_events db i es = Inr db'" and "gap_free db" and "\<forall>e \<in> set es. ev_CaseID e = i"
  shows "gap_free db'"
  unfolding gap_free_def
proof
  fix j
  let ?new = "numbered (nextSequence db i) es"
  have c: "\<forall>e \<in> set ?new. ev_CaseID e = i"
    using assms(3) numbered_facts(2) by (metis image_iff list.set_map)
  have log: "case_log db' j = case_log db j @ (if j = i then ?new else [])"
    unfolding append_events_log [OF assms(1)] case_log_def using c by (auto simp: filter_id_conv)
  have g: "map ev_Sequence (case_log db k) = [1 .. int (length (case_log db k))]" for k
    using assms(2) by (simp add: gap_free_def)
  show "map ev_Sequence (case_log db' j) = [1 .. int (length (case_log db' j))]"
  proof (cases "j = i")
    case True
    define n where "n = int (length (case_log db i))"
    have n: "0 \<le> n" by (simp add: n_def)
    have l: "case_log db' j = case_log db i @ ?new" using True log by simp
    have "map ev_Sequence (case_log db' j) = [1 .. n] @ [n + 1 .. n + int (length es)]"
      by (simp add: l g numbered_facts nextSequence_gap_free [OF g] n_def algebra_simps)
    also have "\<dots> = [1 .. n + int (length es)]"
      using upto_split2 [of 1 n "n + int (length es)"] n by (cases "n = 0") auto
    finally show ?thesis by (simp add: l numbered_facts n_def)
  next
    case False
    then show ?thesis by (simp add: log g)
  qed
qed

end
