(* ===== verification/Lease.thy ===== *)
theory Lease
  imports Store_State
begin

text \<open>
  Queues with leases, as the three claim statements of the store use them
  (\<open>store/workflow.go\<close> ClaimDue and ClaimDueObservation, \<open>store/promises.go\<close> ClaimDuePromise):
  pick the earliest ready row, give it to one worker until the lease expires. The contract is
  stated once, over a readiness test and a grant, and interpreted for each queue.
\<close>

section \<open>Claiming\<close>

text \<open>\<open>ORDER BY due, id\<close>\<close>

definition due_less :: "('r \<Rightarrow> time) \<Rightarrow> ('r \<Rightarrow> ID) \<Rightarrow> 'r \<Rightarrow> 'r \<Rightarrow> bool" where
  "due_less due key a b \<longleftrightarrow> due a < due b \<or> due a = due b \<and> key a < key b"

text \<open>
  \<open>WITH due AS (SELECT id ... WHERE ready ORDER BY due, id FOR UPDATE SKIP LOCKED LIMIT 1)
  UPDATE ... SET grant FROM due WHERE id = due.id RETURNING ...\<close>: the granted row and the
  table with it, or nothing. Claims are single statements, so they are serial.
\<close>

definition claim :: "('r \<Rightarrow> bool) \<Rightarrow> ('r \<Rightarrow> time) \<Rightarrow> ('r \<Rightarrow> ID) \<Rightarrow> ('r \<Rightarrow> 'r) \<Rightarrow> 'r list \<Rightarrow> ('r \<times> 'r list) option" where
  "claim ready due key grant t =
     (case sort_by (due_less due key) (filter ready t) of [] \<Rightarrow> None
      | r # _ \<Rightarrow> Some (grant r, modify key (key r) grant t))"

interpretation due_order: weak_order UNIV "due_less due key" for due :: "'r \<Rightarrow> time" and key
  by unfold_locales (auto simp: due_less_def)

lemma claim_None: "claim ready due key grant t = None \<longleftrightarrow> (\<forall>r \<in> set t. \<not> ready r)"
proof -
  have "claim ready due key grant t = None \<longleftrightarrow> sort_by (due_less due key) (filter ready t) = []"
    by (simp add: claim_def split: list.splits)
  also have "\<dots> \<longleftrightarrow> set (sort_by (due_less due key) (filter ready t)) = {}" by (simp only: set_empty)
  finally show ?thesis by auto
qed

lemma claim_Some:
  assumes "claim ready due key grant t = Some (r', t')"
  obtains r where "r \<in> set t" "ready r" "r' = grant r" "t' = modify key (key r) grant t"
    "\<forall>s \<in> set t. ready s \<longrightarrow> \<not> due_less due key s r"
proof -
  obtain r rs where s: "sort_by (due_less due key) (filter ready t) = r # rs" and r: "r' = grant r"
      "t' = modify key (key r) grant t"
    using assms by (auto simp: claim_def split: list.splits)
  have "r \<in> set (sort_by (due_less due key) (filter ready t))" by (simp add: s)
  then have "r \<in> set t" "ready r" by auto
  moreover have "\<not> due_less due key x r" if "x \<in> set t" "ready x" for x
    using due_order.head_least [OF _ s] that by simp
  ultimately show ?thesis using that r by blast
qed

section \<open>The contract\<close>

text \<open>
  A granted row keeps its id and is not ready again before its lease has run out, whoever asks.
\<close>

locale lease_queue =
  fixes ready :: "time \<Rightarrow> 'r \<Rightarrow> bool" and due :: "'r \<Rightarrow> time" and key :: "'r \<Rightarrow> ID"
    and grant :: "string \<Rightarrow> time \<Rightarrow> duration \<Rightarrow> 'r \<Rightarrow> 'r"
  assumes grant_key: "key (grant w now lease r) = key r"
    and grant_exclusive: "now' < now + lease \<Longrightarrow> \<not> ready now' (grant w now lease r)"
begin

lemma claim_keyed:
  "claim (ready now) due key (grant w now lease) t = Some (r, t') \<Longrightarrow> keyed key t \<Longrightarrow> keyed key t'"
  by (erule claim_Some) (simp add: keyed_modify grant_key)

lemma claim_earliest:
  assumes "claim (ready now) due key (grant w now lease) t = Some (r, t')" and "keyed key t"
  shows "\<exists>r0. lookup key (key r) t = Some r0 \<and> ready now r0 \<and> r = grant w now lease r0
     \<and> (\<forall>x \<in> set t. ready now x \<longrightarrow> due r0 < due x \<or> due r0 = due x \<and> key r0 \<le> key x)
     \<and> lookup key (key r) t' = Some r \<and> (\<forall>k. k \<noteq> key r \<longrightarrow> lookup key k t' = lookup key k t)"
proof -
  obtain r0 where r0: "r0 \<in> set t" "ready now r0" "r = grant w now lease r0"
      "t' = modify key (key r0) (grant w now lease) t"
      "\<forall>s \<in> set t. ready now s \<longrightarrow> \<not> due_less due key s r0"
    using assms(1) by (rule claim_Some)
  have k: "key r = key r0" by (simp add: r0(3) grant_key)
  have "due r0 < due x \<or> due r0 = due x \<and> key r0 \<le> key x" if "x \<in> set t" "ready now x" for x
    using r0(5) that by (force simp: due_less_def)
  then show ?thesis
    using r0(1-4) lookup_keyed [OF assms(2) r0(1)] k by (auto simp: lookup_modify grant_key)
qed

text \<open>Until the lease has run out, no claim returns the same row.\<close>

lemma claim_exclusive:
  assumes "claim (ready now) due key (grant w now lease) t = Some (r, t')" and "keyed key t"
    and "now' < now + lease" and "claim (ready now') due key (grant w' now' lease') t' = Some (r', t'')"
  shows "key r' \<noteq> key r"
proof
  assume eq: "key r' = key r"
  have k: "keyed key t'" using claim_keyed assms(1,2) by blast
  obtain r0 where r0: "lookup key (key r') t' = Some r0" "ready now' r0"
    using claim_earliest [OF assms(4) k] by blast
  moreover have "lookup key (key r) t' = Some r" "\<exists>x. r = grant w now lease x"
    using claim_earliest [OF assms(1,2)] by blast+
  ultimately show False using eq grant_exclusive [OF assms(3)] by auto
qed

end

section \<open>Draining a queue\<close>

text \<open>
  Workers that keep claiming at one instant, as ticks in quick succession do; the fuel bounds the
  number of claims. The rows in the order they were granted, and the table they leave.
\<close>

fun drain :: "nat \<Rightarrow> ('r list \<Rightarrow> ('r \<times> 'r list) option) \<Rightarrow> 'r list \<Rightarrow> 'r list \<times> 'r list" where
  "drain 0 next t = ([], t)"
| "drain (Suc n) next t =
     (case next t of None \<Rightarrow> ([], t)
      | Some (r, t') \<Rightarrow> (let (rs, t'') = drain n next t' in (r # rs, t'')))"

lemma filter_modify_key:
  assumes "keyed key t" and "r \<in> set t" and "\<not> P (f r)" and "\<And>x. key (f x) = key x"
  shows "filter P (modify key (key r) f t) = filter (\<lambda>x. key x \<noteq> key r) (filter P t)"
  using assms
proof (induction t)
  case (Cons a t)
  have m: "modify key (key r) f t = t" if "key r \<notin> key ` set t"
    using that by (auto simp: modify_def image_iff intro!: map_idI)
  have d: "key a \<notin> key ` set t" and k: "keyed key t" using Cons.prems(1) by (auto simp: keyed_def)
  show ?case
  proof (cases "key a = key r")
    case True
    then have "a = r" using Cons.prems(2) d by auto
    moreover have "filter (\<lambda>x. key x \<noteq> key r) (filter P t) = filter P t"
      unfolding filter_id_conv using d True by (auto simp: image_iff)
    ultimately show ?thesis using m d True Cons.prems(3) by (simp add: modify_def del: filter_filter)
  next
    case False
    then have "r \<in> set t" using Cons.prems(2) by auto
    with Cons.IH [OF k _ Cons.prems(3,4)] False show ?thesis by (simp add: modify_def)
  qed
qed simp

lemma keyed_filter: "keyed key t \<Longrightarrow> keyed key (filter P t)"
  by (simp add: keyed_def distinct_map_filter)

lemma mset_filter_key:
  assumes "keyed key t" and "r \<in> set t"
  shows "mset t = add_mset r (mset (filter (\<lambda>x. key x \<noteq> key r) t))"
  using assms
proof (induction t)
  case (Cons a t)
  have d: "key a \<notin> key ` set t" and k: "keyed key t" using Cons.prems(1) by (auto simp: keyed_def)
  show ?case
  proof (cases "a = r")
    case True
    then have "filter (\<lambda>x. key x \<noteq> key r) t = t" using d by (auto simp: filter_id_conv image_iff)
    then show ?thesis using True by simp
  next
    case False
    then have r: "r \<in> set t" using Cons.prems(2) by simp
    then have "key a \<noteq> key r" using d by auto
    then show ?thesis using Cons.IH [OF k r] by simp
  qed
qed simp

lemma due_strict:
  assumes "keyed key t"
  shows "strict_order (set t) (due_less due key)"
proof
  show "due_less due key a b \<or> due_less due key b a" if "a \<in> set t" "b \<in> set t" "a \<noteq> b" for a b
  proof -
    have "key a \<noteq> key b" using assms that by (auto simp: keyed_def distinct_map inj_on_def)
    then show ?thesis by (auto simp: due_less_def)
  qed
qed (auto simp: due_less_def)

context lease_queue
begin

text \<open>
  With a lease that lasts at all, draining ends after as many claims as there are ready rows,
  hands out each of them once and in due order, and leaves none ready.
\<close>

lemma drain_all:
  assumes "keyed key t" and "0 < lease" and "length (filter (ready now) t) \<le> n"
  shows "\<exists>rs t'. drain n (claim (ready now) due key (grant w now lease)) t = (rs, t')
    \<and> map key rs = map key (sort_by (due_less due key) (filter (ready now) t))
    \<and> (\<forall>x \<in> set t'. \<not> ready now x) \<and> keyed key t' \<and> map key t' = map key t"
  using assms
proof (induction n arbitrary: t)
  case 0
  then show ?case by (simp add: filter_empty_conv)
next
  case (Suc n)
  let ?claim = "claim (ready now) due key (grant w now lease)"
  show ?case
  proof (cases "?claim t")
    case None
    then have none: "\<forall>x \<in> set t. \<not> ready now x" by (simp add: claim_None)
    then have "filter (ready now) t = []" by (simp add: filter_empty_conv)
    then show ?thesis using None none Suc.prems(1) by simp
  next
    case (Some p)
    obtain r t1 where p: "?claim t = Some (r, t1)" using Some by (cases p) simp
    obtain r0 where r0: "r0 \<in> set t" "ready now r0" "r = grant w now lease r0"
      "t1 = modify key (key r0) (grant w now lease) t"
      "\<forall>s \<in> set t. ready now s \<longrightarrow> \<not> due_less due key s r0"
      using p by (rule claim_Some)
    let ?rest = "filter (\<lambda>x. key x \<noteq> key r0) (filter (ready now) t)"
    have d: "filter (ready now) t1 = ?rest"
      unfolding r0(4) using grant_exclusive [of now now lease w r0] Suc.prems(2)
      by (intro filter_modify_key) (simp_all add: Suc.prems(1) r0(1) grant_key)
    have perm: "mset (filter (ready now) t) = add_mset r0 (mset ?rest)"
      by (rule mset_filter_key) (simp_all add: r0 keyed_filter Suc.prems(1))
    have sorted: "r0 # sort_by (due_less due key) ?rest = sort_by (due_less due key) (filter (ready now) t)"
    proof (rule strict_order.sort_by_unique [OF due_strict [OF Suc.prems(1)]])
      show "ordered (due_less due key) (r0 # sort_by (due_less due key) ?rest)"
        using r0(5) due_order.ordered_sort_by [of ?rest due key] by simp
    qed (use perm in \<open>auto simp del: mset_filter\<close>)
    have keys: "map key t1 = map key t" unfolding r0(4) by (simp add: modify_def grant_key)
    have "length ?rest \<le> n" 
      using Suc.prems(3) arg_cong [OF perm, of size] by (simp only: size_add_mset size_mset)
    then obtain rs t' where ih: "drain n ?claim t1 = (rs, t')" "map key rs = map key (sort_by (due_less due key) ?rest)"
      "\<forall>x \<in> set t'. \<not> ready now x" "keyed key t'" "map key t' = map key t1"
      using Suc.IH [of t1] claim_keyed [OF p Suc.prems(1)] Suc.prems(2) d by auto
    have "drain (Suc n) ?claim t = (r # rs, t')" using p ih(1) by simp
    moreover have "map key (r # rs) = map key (sort_by (due_less due key) (filter (ready now) t))"
      unfolding sorted [symmetric] using ih(2) by (simp add: r0(3) grant_key)
    ultimately show ?thesis using ih keys by auto
  qed
qed

end

end
