(* ===== verification/Recovery.thy ===== *)
theory Recovery
  imports Store_State
begin

text \<open>
  The case aggregate: \<open>internal/store/postgres.go\<close> and the service over it,
  \<open>internal/recovery/service.go\<close>. \<open>fresh k\<close> stands for the ids an operation generates.
\<close>

section \<open>The store\<close>

definition insert_case :: "Database \<Rightarrow> RecoveryCase \<Rightarrow> (error, Database) result" where
  "insert_case db c =
     (if find_case db (rc_ID c) \<noteq> None then Inl (ErrConstraint ''recovery_cases_pkey'')
      else if list_ex (\<lambda>x. rc_MerchantID x = rc_MerchantID c \<and> rc_SourceReference x = rc_SourceReference c) (db_cases db)
        then Inl (ErrConstraint ''recovery_cases_merchant_id_source_reference_key'')
      else if lookup m_ID (rc_MerchantID c) (db_merchants db) = None then Inl (ErrConstraint ''recovery_cases_merchant_id_fkey'')
      else if lookup cu_ID (rc_CustomerID c) (db_customers db) = None then Inl (ErrConstraint ''recovery_cases_customer_id_fkey'')
      else if \<not> (rc_LeakType c \<in> {FailedSubscription, CheckoutAbandonment} \<and> 0 < rc_AmountAtRiskMinor c
           \<and> length (rc_Currency c) \<le> 3 \<and> IsValid (rc_CurrentState c) \<and> 0 \<le> rc_RecoveredAmountMinor c \<and> 0 < rc_Version c)
        then Inl (ErrConstraint ''recovery_cases_check'')
      else Inr (db\<lparr>db_cases := db_cases db @ [c]\<rparr>))"

definition CreateCase :: "RecoveryCase \<Rightarrow> RecoveryEvent list \<Rightarrow> unit tx" where
  "CreateCase c events db =
     (case insert_case db c of Inl e \<Rightarrow> Inl e
      | Inr db \<Rightarrow> (case insertEvents db (numbered 1 events) of Inl e \<Rightarrow> Inl e | Inr db \<Rightarrow> Inr ((), db)))"

definition GetCase :: "ID \<Rightarrow> Database \<Rightarrow> (error, RecoveryCase) result" where
  "GetCase i db = (case find_case db i of None \<Rightarrow> Inl ErrNotFound | Some c \<Rightarrow> Inr c)"

definition GetCaseBySource :: "ID \<Rightarrow> string \<Rightarrow> Database \<Rightarrow> (error, RecoveryCase) result" where
  "GetCaseBySource merchantID source db =
     (case find (\<lambda>c. rc_MerchantID c = merchantID \<and> rc_SourceReference c = source) (db_cases db) of
        None \<Rightarrow> Inl ErrNotFound | Some c \<Rightarrow> Inr c)"

text \<open>\<open>UPDATE ... WHERE id = $3 AND version = $4 RETURNING ...\<close>\<close>

definition TransitionCase :: "ID \<Rightarrow> int \<Rightarrow> CaseState \<Rightarrow> RecoveryEvent \<Rightarrow> RecoveryCase tx" where
  "TransitionCase caseID expectedVersion dst event db =
     (case find_case db caseID of None \<Rightarrow> Inl ErrConflict
      | Some c \<Rightarrow>
          if rc_Version c \<noteq> expectedVersion then Inl ErrConflict
          else if \<not> IsValid dst then Inl (ErrConstraint ''recovery_cases_current_state_check'')
          else
            (let db = update_case caseID (advance dst (ev_Timestamp event)) db
             in (case insertEvent db (event\<lparr>ev_Sequence := nextSequence db caseID\<rparr>) of Inl e \<Rightarrow> Inl e
                 | Inr db \<Rightarrow> Inr (advance dst (ev_Timestamp event) c, db))))"

definition AppendEvent :: "RecoveryEvent \<Rightarrow> RecoveryEvent tx" where
  "AppendEvent event db =
     (case find_case db (ev_CaseID event) of None \<Rightarrow> Inl ErrNotFound
      | Some _ \<Rightarrow>
          (let event = event\<lparr>ev_Sequence := nextSequence db (ev_CaseID event)\<rparr>
           in (case insertEvent db event of Inl e \<Rightarrow> Inl e | Inr db \<Rightarrow> Inr (event, db))))"

definition ListEvents :: "ID \<Rightarrow> Database \<Rightarrow> RecoveryEvent list" where
  "ListEvents caseID db =
     sort_by (\<lambda>a b. ev_Sequence a < ev_Sequence b) (filter (\<lambda>e. ev_CaseID e = caseID) (db_events db))"

section \<open>The service\<close>

record CreateCaseInput =
  ci_LeakType :: LeakType
  ci_MerchantID :: ID
  ci_CustomerID :: ID
  ci_AmountAtRiskMinor :: int
  ci_Currency :: string
  ci_SourceReference :: string
  ci_SourceStatus :: string
  ci_FailureOrLeakContext :: RawMessage
  ci_CustomerContextSnapshot :: RawMessage
  ci_MerchantPolicySnapshot :: RawMessage
  ci_RecoveryDeadline :: time
  ci_Actor :: Actor
  ci_CorrelationID :: string

definition normalizeActor :: "Actor \<Rightarrow> Actor" where
  "normalizeActor a = \<lparr>actor_Type = (if actor_Type a = [] then ''SYSTEM'' else actor_Type a),
     actor_ID = (if actor_ID a = [] then ''recovery-engine'' else actor_ID a)\<rparr>"

definition newEvent :: "ID \<Rightarrow> ID \<Rightarrow> EventType \<Rightarrow> Actor \<Rightarrow> RawMessage \<Rightarrow> string \<Rightarrow> time \<Rightarrow> RecoveryEvent" where
  "newEvent newID caseID type actor payload correlationID now =
     event_of newID caseID type now actor (jsonObject payload) correlationID"

definition case_of_input :: "CreateCaseInput \<Rightarrow> ID \<Rightarrow> time \<Rightarrow> RecoveryCase" where
  "case_of_input input caseID now =
     \<lparr>rc_ID = caseID, rc_LeakType = ci_LeakType input, rc_MerchantID = ci_MerchantID input,
      rc_CustomerID = ci_CustomerID input, rc_AmountAtRiskMinor = ci_AmountAtRiskMinor input,
      rc_Currency = upper (ci_Currency input), rc_SourceReference = ci_SourceReference input,
      rc_SourceStatus = ci_SourceStatus input, rc_FailureOrLeakContext = jsonObject (ci_FailureOrLeakContext input),
      rc_CustomerContextSnapshot = jsonObject (ci_CustomerContextSnapshot input),
      rc_MerchantPolicySnapshot = jsonObject (ci_MerchantPolicySnapshot input),
      rc_CurrentState = StateDetected, rc_RecoveryDeadline = ci_RecoveryDeadline input,
      rc_RecoveredAmountMinor = 0, rc_AttributionStatus = ''PENDING'', rc_Version = 1, rc_CreatedAt = now,
      rc_UpdatedAt = now\<rparr>"

definition service_CreateCase :: "(nat \<Rightarrow> ID) \<Rightarrow> time \<Rightarrow> CreateCaseInput \<Rightarrow> RecoveryCase tx" where
  "service_CreateCase fresh now input db =
     (if ci_LeakType input \<noteq> FailedSubscription \<and> ci_LeakType input \<noteq> CheckoutAbandonment
        then Inl (ErrMsg ''invalid leak_type'')
      else if ci_MerchantID input = [] \<or> ci_CustomerID input = [] \<or> TrimSpace (ci_SourceReference input) = []
        then Inl (ErrMsg ''merchant_id, customer_id and source_reference are required'')
      else if ci_AmountAtRiskMinor input \<le> 0 \<or> length (ci_Currency input) \<noteq> 3
        then Inl (ErrMsg ''amount_at_risk_minor must be positive and currency must be a 3-letter code'')
      else if \<not> now < ci_RecoveryDeadline input then Inl (ErrMsg ''recovery_deadline must be in the future'')
      else
        (let actor = normalizeActor (ci_Actor input);
             correlationID = (if ci_CorrelationID input = [] then fresh 0 else ci_CorrelationID input);
             caseID = fresh 1;
             c = case_of_input input caseID now;
             basePayload = Some (JObj [(''amount_at_risk_minor'', JInt (ci_AmountAtRiskMinor input)),
               (''currency'', JStr (rc_Currency c)), (''leak_type'', JStr (leak_string (ci_LeakType input))),
               (''source_reference'', JStr (ci_SourceReference input))]);
             events = [newEvent (fresh 2) caseID EventRevenueRiskDetected actor basePayload correlationID now,
               newEvent (fresh 3) caseID EventCaseCreated actor (Some (JObj [(''state'', JStr ''DETECTED'')])) correlationID now]
         in (case CreateCase c events db of Inl e \<Rightarrow> Inl e | Inr (_, db) \<Rightarrow> Inr (c, db))))"

record TransitionInput =
  ti_ToState :: CaseState
  ti_ExpectedVersion :: int
  ti_Actor :: Actor
  ti_Payload :: RawMessage
  ti_ModelVersion :: string
  ti_CorrelationID :: string

definition mergeTransitionPayload :: "RawMessage \<Rightarrow> CaseState \<Rightarrow> CaseState \<Rightarrow> int \<Rightarrow> RawMessage" where
  "mergeTransitionPayload extra src dst version =
     (let payload = [(''from_state'', JStr (state_string src)), (''to_state'', JStr (state_string dst)),
                     (''previous_version'', JInt version)]
      in Some (case extra of Some (JObj supplied) \<Rightarrow> canonical (JObj (payload @ supplied)) | _ \<Rightarrow> sorted_object payload))"

text \<open>
  \<open>Transition\<close> reads the case in one statement and changes it in a later transaction: \<open>seen\<close> is
  the database at the read, \<open>db\<close> at the change.
\<close>

definition service_Transition :: "(nat \<Rightarrow> ID) \<Rightarrow> time \<Rightarrow> ID \<Rightarrow> TransitionInput \<Rightarrow> Database \<Rightarrow> RecoveryCase tx" where
  "service_Transition fresh now caseID input seen db =
     (case GetCase caseID seen of Inl e \<Rightarrow> Inl e
      | Inr current \<Rightarrow>
          if ti_ExpectedVersion input \<noteq> 0 \<and> ti_ExpectedVersion input \<noteq> rc_Version current then Inl ErrConflict
          else (case ValidateTransition (rc_CurrentState current) (ti_ToState input) of Some e \<Rightarrow> Inl (ErrTransition e)
            | None \<Rightarrow>
                (let correlationID = (if ti_CorrelationID input = [] then fresh 0 else ti_CorrelationID input);
                     payload = mergeTransitionPayload (ti_Payload input) (rc_CurrentState current) (ti_ToState input)
                                 (rc_Version current);
                     event = (newEvent (fresh 1) caseID (EventForTransition (ti_ToState input))
                                (normalizeActor (ti_Actor input)) payload correlationID now)
                              \<lparr>ev_ModelVersion := ti_ModelVersion input\<rparr>
                 in TransitionCase caseID (rc_Version current) (ti_ToState input) event db)))"

record RecordEventInput =
  ri_Type :: EventType
  ri_Actor :: Actor
  ri_Payload :: RawMessage
  ri_ModelVersion :: string
  ri_CorrelationID :: string

definition service_RecordEvent :: "(nat \<Rightarrow> ID) \<Rightarrow> time \<Rightarrow> ID \<Rightarrow> RecordEventInput \<Rightarrow> RecoveryEvent tx" where
  "service_RecordEvent fresh now caseID input db =
     (if \<not> EventType_IsValid (ri_Type input) \<or> ri_Type input = EventCaseCreated \<or> ri_Type input = EventStateTransitioned
        then Inl (ErrMsg ''invalid manually recorded event type'')
      else (case GetCase caseID db of Inl e \<Rightarrow> Inl e
        | Inr _ \<Rightarrow>
            (let correlationID = (if ri_CorrelationID input = [] then fresh 0 else ri_CorrelationID input);
                 event = (newEvent (fresh 1) caseID (ri_Type input) (normalizeActor (ri_Actor input))
                            (jsonObject (ri_Payload input)) correlationID now)\<lparr>ev_ModelVersion := ri_ModelVersion input\<rparr>
             in AppendEvent event db)))"

definition service_Events :: "ID \<Rightarrow> Database \<Rightarrow> (error, RecoveryEvent list) result" where
  "service_Events caseID db =
     (case GetCase caseID db of Inl e \<Rightarrow> Inl e | Inr _ \<Rightarrow> Inr (ListEvents caseID db))"

section \<open>Well-formed databases\<close>

text \<open>Ids and sources identify cases, logs have no gaps, and every event belongs to a case.\<close>

definition sources_distinct :: "Database \<Rightarrow> bool" where
  "sources_distinct db \<longleftrightarrow> distinct (map (\<lambda>c. (rc_MerchantID c, rc_SourceReference c)) (db_cases db))"

definition well_formed :: "Database \<Rightarrow> bool" where
  "well_formed db \<longleftrightarrow> keyed rc_ID (db_cases db) \<and> sources_distinct db \<and> gap_free db
     \<and> (\<forall>e \<in> set (db_events db). find_case db (ev_CaseID e) \<noteq> None)
     \<and> (\<forall>c \<in> set (db_cases db). IsValid (rc_CurrentState c))"

text \<open>An update of one case that keeps its identity.\<close>

definition keeps_identity :: "(RecoveryCase \<Rightarrow> RecoveryCase) \<Rightarrow> bool" where
  "keeps_identity f \<longleftrightarrow> (\<forall>c. rc_ID (f c) = rc_ID c \<and> rc_MerchantID (f c) = rc_MerchantID c
     \<and> rc_SourceReference (f c) = rc_SourceReference c
     \<and> (IsValid (rc_CurrentState c) \<longrightarrow> IsValid (rc_CurrentState (f c))))"

lemma keeps_identity_advance: "IsValid s \<Longrightarrow> keeps_identity (advance s now)"
  by (simp add: keeps_identity_def advance_def)

lemma well_formed_update_case:
  assumes "keeps_identity f" and "well_formed db"
  shows "well_formed (update_case i f db)"
proof -
  have id: "rc_ID (f c) = rc_ID c" for c using assms(1) by (simp add: keeps_identity_def)
  have "map (\<lambda>c. (rc_MerchantID c, rc_SourceReference c)) (modify rc_ID i f (db_cases db))
      = map (\<lambda>c. (rc_MerchantID c, rc_SourceReference c)) (db_cases db)"
    using assms(1) by (simp add: modify_def keeps_identity_def)
  then have "sources_distinct (update_case i f db)"
    using assms(2) by (simp add: well_formed_def sources_distinct_def update_case_def)
  moreover have "keyed rc_ID (db_cases (update_case i f db))"
    using assms(2) keyed_modify [of rc_ID f, OF id] by (simp add: well_formed_def update_case_def)
  moreover have "gap_free (update_case i f db)"
    using assms(2) by (simp add: well_formed_def gap_free_def case_log_def)
  moreover have "find_case (update_case i f db) j = None \<longleftrightarrow> find_case db j = None" for j
    by (simp add: find_case_update [OF id])
  moreover have "\<forall>c \<in> set (db_cases (update_case i f db)). IsValid (rc_CurrentState c)"
    using assms by (auto simp: well_formed_def update_case_def modify_def keeps_identity_def)
  ultimately show ?thesis using assms(2) by (simp add: well_formed_def)
qed

lemma well_formed_append_events:
  assumes "append_events db i es = Inr db'" and "well_formed db" and "\<forall>e \<in> set es. ev_CaseID e = i"
  shows "well_formed db'"
proof -
  have c: "\<forall>e \<in> set (numbered (nextSequence db i) es). find_case db (ev_CaseID e) \<noteq> None"
    using insertEvents_case assms(1) unfolding append_events_def by blast
  have "gap_free db'" using append_events_gap_free assms by (auto simp: well_formed_def)
  then show ?thesis
    using assms(2) c unfolding append_events_log [OF assms(1)]
    by (auto simp: well_formed_def sources_distinct_def find_case_def)
qed

text \<open>A change of any other table keeps the database well formed.\<close>

lemma well_formed_cong:
  "db_cases db' = db_cases db \<Longrightarrow> db_events db' = db_events db \<Longrightarrow> well_formed db' = well_formed db"
  by (simp add: well_formed_def sources_distinct_def gap_free_def case_log_def find_case_def)

lemma insertEvent_append:
  "insertEvent db (e\<lparr>ev_Sequence := nextSequence db i\<rparr>) = append_events db i [e]"
  by (simp add: append_events_def split: sum.splits)

section \<open>The repository contract\<close>

text \<open>
  What \<open>recovery.Service\<close> needs of \<open>Repository\<close>: a transition succeeds only at the version it
  names, and then moves that case and no other.
\<close>

locale case_repository =
  fixes get :: "'s \<Rightarrow> ID \<Rightarrow> RecoveryCase option"
    and move :: "ID \<Rightarrow> int \<Rightarrow> CaseState \<Rightarrow> RecoveryEvent \<Rightarrow> 's \<Rightarrow> (error, RecoveryCase \<times> 's) result"
  assumes move_ok: "move i v dst e s = Inr (c', s') \<Longrightarrow>
      \<exists>c. get s i = Some c \<and> rc_Version c = v \<and> c' = advance dst (ev_Timestamp e) c \<and> get s' i = Some c'"
    and move_frame: "move i v dst e s = Inr (c', s') \<Longrightarrow> j \<noteq> i \<Longrightarrow> get s' j = get s j"
    and move_stale: "get s i = Some c \<Longrightarrow> rc_Version c \<noteq> v \<Longrightarrow> move i v dst e s = Inl ErrConflict"
begin

lemma move_version: "move i v dst e s = Inr (c', s') \<Longrightarrow> rc_Version c' = v + 1 \<and> rc_CurrentState c' = dst"
  using move_ok by force

text \<open>A version is consumed by the transition that names it.\<close>

lemma version_consumed:
  assumes "move i v dst e s = Inr (c', s')"
  shows "move i v dst' e' s' = Inl ErrConflict"
proof -
  have "get s' i = Some c'" using move_ok [OF assms] by blast
  then show ?thesis using move_version [OF assms] by (intro move_stale) auto
qed

text \<open>Of two writers that saw the same version, in whatever order, one at most succeeds.\<close>

lemma one_writer_wins:
  assumes "move i v dst e s = Inr r" and "move i v dst' e' (snd r) = Inr r'"
  shows False
  using assms version_consumed [of i v dst e s "fst r" "snd r"] by simp

end

lemma TransitionCaseD:
  assumes "TransitionCase i v dst e db = Inr (c', db')"
  shows "\<exists>c. find_case db i = Some c \<and> rc_Version c = v \<and> c' = advance dst (ev_Timestamp e) c \<and> find_case db' i = Some c'"
    and "\<And>j. j \<noteq> i \<Longrightarrow> find_case db' j = find_case db j"
    and "append_events (update_case i (advance dst (ev_Timestamp e)) db) i [e] = Inr db'"
    and "IsValid dst"
proof -
  have *: "\<exists>c. find_case db i = Some c \<and> rc_Version c = v \<and> IsValid dst \<and> c' = advance dst (ev_Timestamp e) c
      \<and> append_events (update_case i (advance dst (ev_Timestamp e)) db) i [e] = Inr db'"
    using assms unfolding TransitionCase_def insertEvent_append Let_def
    by (auto split: option.splits if_splits sum.splits)
  then obtain c where c: "find_case db i = Some c" "rc_Version c = v" "c' = advance dst (ev_Timestamp e) c"
    and a: "append_events (update_case i (advance dst (ev_Timestamp e)) db) i [e] = Inr db'" by blast
  have f: "find_case db' j = (if j = i then Some c' else find_case db j)" for j
    unfolding append_events_log [OF a] using c find_case_update [of "advance dst (ev_Timestamp e)" i db j]
    by (simp add: find_case_def)
  show "\<exists>c. find_case db i = Some c \<and> rc_Version c = v \<and> c' = advance dst (ev_Timestamp e) c \<and> find_case db' i = Some c'"
    using c f by auto
  show "j \<noteq> i \<Longrightarrow> find_case db' j = find_case db j" for j using f by simp
  show "append_events (update_case i (advance dst (ev_Timestamp e)) db) i [e] = Inr db'" by (rule a)
  show "IsValid dst" using * by blast
qed

interpretation repository: case_repository find_case TransitionCase
proof
  show "TransitionCase i v dst e s = Inl ErrConflict"
    if "find_case s i = Some c" "rc_Version c \<noteq> v" for s i c v dst e
    using that by (simp add: TransitionCase_def)
qed (use TransitionCaseD in blast)+

section \<open>Properties\<close>

lemma service_TransitionD:
  assumes "service_Transition fresh now i input seen db = Inr (c', db')"
  obtains c0 e where "find_case seen i = Some c0" "CanTransition (rc_CurrentState c0) (ti_ToState input)"
    "ti_ExpectedVersion input = 0 \<or> ti_ExpectedVersion input = rc_Version c0"
    "TransitionCase i (rc_Version c0) (ti_ToState input) e db = Inr (c', db')"
    "ev_Type e = EventForTransition (ti_ToState input)" "ev_CaseID e = i" "ev_Timestamp e = now"
proof -
  obtain c0 where c0: "find_case seen i = Some c0"
    using assms by (auto simp: service_Transition_def GetCase_def split: option.splits)
  have v: "ti_ExpectedVersion input = 0 \<or> ti_ExpectedVersion input = rc_Version c0"
    using assms c0 by (auto simp: service_Transition_def GetCase_def split: if_splits)
  have t: "ValidateTransition (rc_CurrentState c0) (ti_ToState input) = None"
    using assms c0 v by (auto simp: service_Transition_def GetCase_def split: option.splits)
  then have t': "CanTransition (rc_CurrentState c0) (ti_ToState input)"
    by (simp add: ValidateTransition_def split: if_splits)
  show ?thesis
    using assms c0 v t by (intro that [OF c0 t' v])
      (auto simp: service_Transition_def GetCase_def Let_def newEvent_def event_of_def)
qed

text \<open>C13. A transition requested through the service succeeds only along a declared edge out of
  the state the service read, and only if the case is still at the version it read (and at
  the version the client expected, if any); it then sets the state, raises the version by
  one, appends exactly the transition's event at the end of the case's gap-free log and
  touches no other case.\<close>

theorem transition_is_legal:
  assumes "service_Transition fresh now i input seen db = Inr (c', db')" and "well_formed db"
  shows "\<exists>c0 c e. find_case seen i = Some c0 \<and> find_case db i = Some c \<and> rc_Version c = rc_Version c0
    \<and> (ti_ExpectedVersion input = 0 \<or> ti_ExpectedVersion input = rc_Version c)
    \<and> CanTransition (rc_CurrentState c0) (ti_ToState input) \<and> c' = advance (ti_ToState input) now c
    \<and> find_case db' i = Some c' \<and> (\<forall>j. j \<noteq> i \<longrightarrow> find_case db' j = find_case db j \<and> case_log db' j = case_log db j)
    \<and> case_log db' i = case_log db i @ [e] \<and> ev_Type e = EventForTransition (ti_ToState input)
    \<and> ev_Sequence e = int (length (case_log db i)) + 1 \<and> well_formed db'"
proof -
  obtain c0 e where c0: "find_case seen i = Some c0" "CanTransition (rc_CurrentState c0) (ti_ToState input)"
    and v: "ti_ExpectedVersion input = 0 \<or> ti_ExpectedVersion input = rc_Version c0"
    and t: "TransitionCase i (rc_Version c0) (ti_ToState input) e db = Inr (c', db')"
    and e: "ev_Type e = EventForTransition (ti_ToState input)" "ev_CaseID e = i" "ev_Timestamp e = now"
    using assms(1) by (rule service_TransitionD)
  let ?db = "update_case i (advance (ti_ToState input) now) db"
  note a = TransitionCaseD(3) [OF t, unfolded e(3)]
  have wf: "well_formed ?db" by (intro well_formed_update_case keeps_identity_advance assms(2) TransitionCaseD(4) [OF t])
  have log: "case_log ?db j = case_log db j" for j by (simp add: case_log_def)
  have "map ev_Sequence (case_log ?db i) = [1 .. int (length (case_log ?db i))]"
    using wf by (simp add: well_formed_def gap_free_def)
  then have n: "nextSequence ?db i = int (length (case_log db i)) + 1"
    using nextSequence_gap_free by (simp add: log)
  have new: "case_log db' j = case_log db j @ (if j = i then [e\<lparr>ev_Sequence := int (length (case_log db i)) + 1\<rparr>] else [])" for j
    unfolding append_events_log [OF a] using n log [of j] e(2) by (simp add: case_log_def)
  have "well_formed db'" by (rule well_formed_append_events [OF a wf]) (simp add: e)
  then show ?thesis
    using c0 v TransitionCaseD(1,2) [OF t] new e
    by (intro exI [of _ c0] exI [of _ "the (find_case db i)"]
          exI [of _ "e\<lparr>ev_Sequence := int (length (case_log db i)) + 1\<rparr>"]) auto
qed

text \<open>Two clients that read a case at the same time cannot both change it: once one of their
  transitions has committed, the other is refused, whatever each asked for.\<close>

theorem concurrent_transition_refused:
  assumes "service_Transition fresh now i input seen db = Inr (c', db')"
  shows "\<not> is_ok (service_Transition fresh2 now2 i input2 seen db')"
proof
  assume "is_ok (service_Transition fresh2 now2 i input2 seen db')"
  then obtain c2 db2 where s2: "service_Transition fresh2 now2 i input2 seen db' = Inr (c2, db2)"
    by (cases "service_Transition fresh2 now2 i input2 seen db'") auto
  obtain c0 e where c0: "find_case seen i = Some c0"
    and t: "TransitionCase i (rc_Version c0) (ti_ToState input) e db = Inr (c', db')"
    using assms by (rule service_TransitionD)
  obtain c1 e2 where c1: "find_case seen i = Some c1"
    and t2: "TransitionCase i (rc_Version c1) (ti_ToState input2) e2 db' = Inr (c2, db2)"
    using s2 by (rule service_TransitionD)
  have "c1 = c0" using c0 c1 by simp
  then show False using t2 repository.version_consumed [OF t] by simp
qed

lemma insert_caseD:
  assumes "insert_case db c = Inr db'"
  shows "db' = db\<lparr>db_cases := db_cases db @ [c]\<rparr>" "find_case db (rc_ID c) = None"
    "\<not> list_ex (\<lambda>x. rc_MerchantID x = rc_MerchantID c \<and> rc_SourceReference x = rc_SourceReference c) (db_cases db)"
    "IsValid (rc_CurrentState c)"
  using assms by (auto simp: insert_case_def split: if_splits)

lemma insert_case_well_formed:
  assumes "insert_case db c = Inr db'" and "well_formed db"
  shows "well_formed db'" and "case_log db' (rc_ID c) = []"
    and "find_case db' j = (if j = rc_ID c then Some c else find_case db j)"
proof -
  note i = insert_caseD [OF assms(1)]
  show f: "find_case db' j = (if j = rc_ID c then Some c else find_case db j)" for j
    using i(2) by (auto simp: i(1) find_case_def lookup_append lookup_Cons split: option.splits)
  have "sources_distinct db'"
    using assms(2) i(3) by (auto simp: well_formed_def sources_distinct_def i(1) list_ex_iff)
  moreover have "keyed rc_ID (db_cases db')"
    using assms(2) i(2) by (simp add: well_formed_def i(1) keyed_append find_case_def)
  ultimately show "well_formed db'"
    using assms(2) f i(4) by (auto simp: well_formed_def i(1) gap_free_def case_log_def)
  show "case_log db' (rc_ID c) = []"
    using assms(2) i(2) by (auto simp: well_formed_def i(1) case_log_def filter_empty_conv)
qed

lemma CreateCase_append:
  assumes "insert_case db c = Inr d" and "well_formed db"
  shows "nextSequence d (rc_ID c) = 1"
  using insert_case_well_formed(2) [OF assms] by (simp add: nextSequence_def case_log_def)

lemma service_CreateCaseD:
  assumes "service_CreateCase fresh now input db = Inr (c, db')"
  obtains d e1 e2 where "insert_case db c = Inr d" "insertEvents d (numbered 1 [e1, e2]) = Inr db'"
    "c = case_of_input input (fresh 1) now" "0 < ci_AmountAtRiskMinor input" "now < ci_RecoveryDeadline input"
    "ev_CaseID e1 = rc_ID c" "ev_CaseID e2 = rc_ID c" "ev_Type e1 = EventRevenueRiskDetected"
    "ev_Type e2 = EventCaseCreated"
proof -
  define cc where "cc = case_of_input input (fresh 1) now"
  define actor where "actor = normalizeActor (ci_Actor input)"
  define corr where "corr = (if ci_CorrelationID input = [] then fresh 0 else ci_CorrelationID input)"
  define e1 where "e1 = newEvent (fresh 2) (fresh 1) EventRevenueRiskDetected actor
    (Some (JObj [(''amount_at_risk_minor'', JInt (ci_AmountAtRiskMinor input)),
               (''currency'', JStr (rc_Currency cc)), (''leak_type'', JStr (leak_string (ci_LeakType input))),
               (''source_reference'', JStr (ci_SourceReference input))])) corr now"
  define e2 where "e2 = newEvent (fresh 3) (fresh 1) EventCaseCreated actor
    (Some (JObj [(''state'', JStr ''DETECTED'')])) corr now"
  have pos: "0 < ci_AmountAtRiskMinor input" "now < ci_RecoveryDeadline input"
    using assms unfolding service_CreateCase_def by (force split: if_split_asm)+
  have "(case CreateCase cc [e1, e2] db of Inl e \<Rightarrow> Inl e | Inr (_, db) \<Rightarrow> Inr (cc, db)) = Inr (c, db')"
    using assms unfolding service_CreateCase_def Let_def cc_def e1_def e2_def actor_def corr_def
    by (simp only: split: if_split_asm) simp_all
  then have cr: "CreateCase cc [e1, e2] db = Inr ((), db')" "c = cc" by (simp_all split: sum.split_asm prod.split_asm)
  obtain d where "insert_case db cc = Inr d" "insertEvents d (numbered 1 [e1, e2]) = Inr db'"
    using cr(1) unfolding CreateCase_def by (simp only: split: sum.split_asm) auto
  then show ?thesis
    using pos cr(2) by (intro that [of d e1 e2]) (simp_all add: cc_def e1_def e2_def newEvent_def event_of_def case_of_input_def)
qed

lemma create_case_facts:
  assumes "service_CreateCase fresh now input db = Inr (c, db')" and "well_formed db"
  shows "well_formed db' \<and> find_case db (rc_ID c) = None \<and> find_case db' (rc_ID c) = Some c
    \<and> rc_CurrentState c = StateDetected \<and> rc_Version c = 1 \<and> 0 < rc_AmountAtRiskMinor c
    \<and> now < rc_RecoveryDeadline c \<and> rc_RecoveredAmountMinor c = 0
    \<and> map ev_Type (case_log db' (rc_ID c)) = [EventRevenueRiskDetected, EventCaseCreated]
    \<and> map ev_Sequence (case_log db' (rc_ID c)) = [1, 2]
    \<and> (\<forall>j. j \<noteq> rc_ID c \<longrightarrow> find_case db' j = find_case db j)
    \<and> (ci_MerchantID input2 = ci_MerchantID input \<and> ci_SourceReference input2 = ci_SourceReference input
        \<longrightarrow> \<not> is_ok (service_CreateCase fresh2 now2 input2 db'))"
proof -
  obtain d e1 e2 where d: "insert_case db c = Inr d" and ev: "insertEvents d (numbered 1 [e1, e2]) = Inr db'"
    and c: "c = case_of_input input (fresh 1) now" "0 < ci_AmountAtRiskMinor input" "now < ci_RecoveryDeadline input"
    and e: "ev_CaseID e1 = rc_ID c" "ev_CaseID e2 = rc_ID c" "ev_Type e1 = EventRevenueRiskDetected"
      "ev_Type e2 = EventCaseCreated"
    using assms(1) by (rule service_CreateCaseD)
  note i = insert_caseD [OF d] and w = insert_case_well_formed [OF d assms(2)]
  have a: "append_events d (rc_ID c) [e1, e2] = Inr db'"
    using ev CreateCase_append [OF d assms(2)] by (simp add: append_events_def)
  have wf: "well_formed db'" by (rule well_formed_append_events [OF a w(1)]) (simp add: e)
  have f: "find_case db' j = find_case d j" for j
    unfolding insertEvents_log [OF ev] by (simp add: find_case_def)
  have log: "case_log db' (rc_ID c) = numbered 1 [e1, e2]"
    using w(2) e unfolding insertEvents_log [OF ev] case_log_def by simp
  have "\<not> is_ok (service_CreateCase fresh2 now2 input2 db')"
    if "ci_MerchantID input2 = ci_MerchantID input" "ci_SourceReference input2 = ci_SourceReference input"
  proof
    assume "is_ok (service_CreateCase fresh2 now2 input2 db')"
    then obtain c2 db2 where "service_CreateCase fresh2 now2 input2 db' = Inr (c2, db2)"
      by (cases "service_CreateCase fresh2 now2 input2 db'") auto
    then obtain d2 where "insert_case db' c2 = Inr d2" "c2 = case_of_input input2 (fresh2 1) now2"
      by (rule service_CreateCaseD)
    moreover have "c \<in> set (db_cases db')" unfolding insertEvents_log [OF ev] i(1) by simp
    ultimately show False
      using insert_caseD(3) that c(1) by (fastforce simp: list_ex_iff case_of_input_def)
  qed
  then show ?thesis
    using wf i(2) f w(3) c log e by (simp add: case_of_input_def)
qed

section \<open>Examples\<close>

definition empty_db :: Database where
  "empty_db = \<lparr>db_cases = [], db_events = [], db_merchants = [], db_customers = [], db_profiles = [],
     db_actions = [], db_scheduled = [], db_executions = [], db_naturals = [], db_decisions = [], db_gates = [],
     db_policies = [], db_promises = [], db_checks = [], db_promise_events = [], db_attributions = [],
     db_responses = [], db_deliveries = [], db_retry_requests = [], db_provider_refs = [], db_reviews = [],
     db_feedback = [], db_merchant_policies = [],
     db_optimization_profiles = []\<rparr>"

definition shop_policy :: MerchantPolicy where
  "shop_policy = \<lparr>mp_ID = ''mp1'', mp_MerchantID = ''m1'', mp_Objective = ''BALANCED'', mp_MaxRetries = 3,
     mp_MaxContactsPerDay = 3, mp_MaxContactsPerWeek = 5, mp_MinContactIntervalMinutes = 60,
     mp_RecoveryWindowHours = 168, mp_QuietHours = emptyObject, mp_AllowedActions = [ActionSendReminder],
     mp_AllowedChannels = [''email''], mp_HighValueThresholdMinor = 0, mp_LowConfidenceThreshold = 0,
     mp_MinimumEconomicValueMinor = 0, mp_MaximumIncentiveMinor = 100, mp_RequiresHighValueHumanApproval = False,
     mp_Version = 1, mp_CreatedAt = 0, mp_UpdatedAt = 0, mp_OptimizationProfile = None\<rparr>"

definition shop_db :: Database where
  "shop_db = empty_db\<lparr>
     db_merchants := [\<lparr>m_ID = ''m1'', m_Name = ''Shop'', m_Type = ''SUBSCRIPTION'', m_Metadata = emptyObject,
       m_CreatedAt = 0, m_UpdatedAt = 0\<rparr>],
     db_customers := [\<lparr>cu_ID = ''c1'', cu_MerchantID = ''m1'', cu_ExternalID = ''e1'', cu_Contact = emptyObject,
       cu_OptedOut = False, cu_CreatedAt = 0, cu_UpdatedAt = 0\<rparr>],
     db_merchant_policies := [shop_policy]\<rparr>"

definition example_input :: CreateCaseInput where
  "example_input = \<lparr>ci_LeakType = FailedSubscription, ci_MerchantID = ''m1'', ci_CustomerID = ''c1'',
     ci_AmountAtRiskMinor = 10000, ci_Currency = ''inr'', ci_SourceReference = ''sub_1'', ci_SourceStatus = [],
     ci_FailureOrLeakContext = None, ci_CustomerContextSnapshot = None, ci_MerchantPolicySnapshot = None,
     ci_RecoveryDeadline = 24 * Hour, ci_Actor = \<lparr>actor_Type = [], actor_ID = []\<rparr>, ci_CorrelationID = ''corr''\<rparr>"

text \<open>Ids of one operation: a tag and a number in unary.\<close>

definition ids :: "char \<Rightarrow> nat \<Rightarrow> ID" where
  "ids tag k = tag # replicate k (CHR ''0'')"

lemma ids_eq [simp]: "ids t k = ids u l \<longleftrightarrow> t = u \<and> k = l"
  by (metis ids_def length_replicate list.inject)

lemma ids_nonempty [simp]: "ids t k \<noteq> []"
  by (simp add: ids_def)

lemma example_created:
  "\<exists>c db. service_CreateCase (ids CHR ''a'') 0 example_input shop_db = Inr (c, db)"
  by (simp add: Let_def service_CreateCase_def example_input_def CreateCase_def insert_case_def case_of_input_def
      shop_db_def empty_db_def find_case_def lookup_Cons insertEvent_def newEvent_def event_of_def Hour_def
      TrimSpace_def is_space_def IsValid_def)

lemma shop_well_formed: "well_formed shop_db"
  by (simp add: well_formed_def keyed_def sources_distinct_def gap_free_def case_log_def shop_db_def empty_db_def)

definition created_db :: Database where
  "created_db = snd (projr (service_CreateCase (ids CHR ''a'') 0 example_input shop_db))"

definition created_case :: RecoveryCase where
  "created_case = fst (projr (service_CreateCase (ids CHR ''a'') 0 example_input shop_db))"

lemma created: "service_CreateCase (ids CHR ''a'') 0 example_input shop_db = Inr (created_case, created_db)"
  using example_created by (auto simp: created_case_def created_db_def)

definition example_transition :: "CaseState \<Rightarrow> TransitionInput" where
  "example_transition s = \<lparr>ti_ToState = s, ti_ExpectedVersion = 0, ti_Actor = \<lparr>actor_Type = [], actor_ID = []\<rparr>,
     ti_Payload = None, ti_ModelVersion = [], ti_CorrelationID = ''corr''\<rparr>"

lemma example_transitioned:
  "\<exists>c db. service_Transition (ids CHR ''b'') 0 (rc_ID created_case) (example_transition StateDiagnosing)
     created_db created_db = Inr (c, db)"
  by (simp add: created_db_def created_case_def example_transition_def Let_def service_CreateCase_def example_input_def
      CreateCase_def insert_case_def case_of_input_def shop_db_def empty_db_def find_case_def lookup_Cons
      insertEvent_def newEvent_def event_of_def Hour_def TrimSpace_def is_space_def IsValid_def
      service_Transition_def GetCase_def ValidateTransition_def CanTransition_def TransitionCase_def update_case_def
      modify_def nextSequence_def advance_def)

text \<open>A created case is registered once and for all: it starts in DETECTED at version 1 with a
  positive amount, a deadline in the future and nothing recovered; its log is risk detected,
  case created, numbered 1 and 2; nothing else changes; and a second case for the same
  merchant and source reference is refused, whatever ids it draws.\<close>

theorem create_case_registers:
  assumes "service_CreateCase fresh now input db = Inr (c, db')" and "well_formed db"
  shows "well_formed db' \<and> find_case db (rc_ID c) = None \<and> find_case db' (rc_ID c) = Some c
    \<and> rc_CurrentState c = StateDetected \<and> rc_Version c = 1 \<and> 0 < rc_AmountAtRiskMinor c
    \<and> now < rc_RecoveryDeadline c \<and> rc_RecoveredAmountMinor c = 0
    \<and> map ev_Type (case_log db' (rc_ID c)) = [EventRevenueRiskDetected, EventCaseCreated]
    \<and> map ev_Sequence (case_log db' (rc_ID c)) = [1, 2]
    \<and> (\<forall>j. j \<noteq> rc_ID c \<longrightarrow> find_case db' j = find_case db j)
    \<and> (ci_MerchantID input2 = ci_MerchantID input \<and> ci_SourceReference input2 = ci_SourceReference input
        \<longrightarrow> \<not> is_ok (service_CreateCase fresh2 now2 input2 db'))"
  by (rule create_case_facts [OF assms])

theorem create_case_registers_witness:
  "find_case created_db (rc_ID created_case) = Some created_case
   \<and> \<not> is_ok (service_CreateCase (ids CHR ''b'') 5 example_input created_db)"
  using create_case_registers [OF created shop_well_formed, of example_input "ids CHR ''b''" 5] by blast

lemma created_well_formed: "well_formed created_db"
  using create_case_facts [OF created shop_well_formed] by blast

theorem transition_is_legal_witness:
  "\<exists>c db. service_Transition (ids CHR ''b'') 0 (rc_ID created_case) (example_transition StateDiagnosing)
     created_db created_db = Inr (c, db) \<and> rc_CurrentState c = StateDiagnosing \<and> well_formed db"
proof -
  obtain c db where t: "service_Transition (ids CHR ''b'') 0 (rc_ID created_case) (example_transition StateDiagnosing)
     created_db created_db = Inr (c, db)" using example_transitioned by blast
  show ?thesis using t transition_is_legal [OF t created_well_formed] by (auto simp: example_transition_def)
qed

theorem concurrent_transition_refused_witness:
  "\<exists>c db. service_Transition (ids CHR ''b'') 0 (rc_ID created_case) (example_transition StateDiagnosing)
     created_db created_db = Inr (c, db)
   \<and> \<not> is_ok (service_Transition (ids CHR ''d'') 0 (rc_ID created_case) (example_transition StateStopped) created_db db)"
proof -
  obtain c db where t: "service_Transition (ids CHR ''b'') 0 (rc_ID created_case) (example_transition StateDiagnosing)
     created_db created_db = Inr (c, db)" using example_transitioned by blast
  show ?thesis using t concurrent_transition_refused [OF t] by blast
qed

end
