(* ===== verification/Evolution.thy ===== *)
theory Evolution
  imports Recovery
begin

text \<open>
  How a transaction may change the cases: the relation every operation of the store is shown to
  keep, built from the three things a transaction does (move one case, append to one log,
  touch other tables).
\<close>

text \<open>
  A case is left alone, or it was open, its version rises, and its state follows declared
  transitions without changing what was recovered; its identity, amount and deadline are
  fixed.
\<close>

definition same_case :: "RecoveryCase \<Rightarrow> RecoveryCase \<Rightarrow> bool" where
  "same_case c c' \<longleftrightarrow> rc_ID c' = rc_ID c \<and> rc_MerchantID c' = rc_MerchantID c \<and> rc_CustomerID c' = rc_CustomerID c
     \<and> rc_SourceReference c' = rc_SourceReference c \<and> rc_AmountAtRiskMinor c' = rc_AmountAtRiskMinor c
     \<and> rc_RecoveryDeadline c' = rc_RecoveryDeadline c"

definition case_lawful :: "RecoveryCase \<Rightarrow> RecoveryCase \<Rightarrow> bool" where
  "case_lawful c c' \<longleftrightarrow> c' = c \<or> (same_case c c' \<and> \<not> IsTerminal (rc_CurrentState c) \<and> rc_Version c < rc_Version c'
     \<and> rc_RecoveredAmountMinor c' = rc_RecoveredAmountMinor c \<and> lifecycle_path (rc_CurrentState c) (rc_CurrentState c'))"

definition lawful :: "Database \<Rightarrow> Database \<Rightarrow> bool" where
  "lawful db db' \<longleftrightarrow> (well_formed db \<longrightarrow> well_formed db'
     \<and> (\<forall>i c. find_case db i = Some c \<longrightarrow> (\<exists>c'. find_case db' i = Some c' \<and> case_lawful c c')))"

lemma lifecycle_terminal: "lifecycle_path s t \<Longrightarrow> IsTerminal s \<Longrightarrow> t = s"
  by (induction rule: converse_rtranclp_induct) auto

lemma same_case_trans: "same_case a b \<Longrightarrow> same_case b c \<Longrightarrow> same_case a c"
  by (simp add: same_case_def)

lemma case_lawful_refl [simp]: "case_lawful c c"
  by (simp add: case_lawful_def)

lemma case_lawful_trans: "case_lawful a b \<Longrightarrow> case_lawful b c \<Longrightarrow> case_lawful a c"
  unfolding case_lawful_def by (metis less_trans rtranclp_trans same_case_trans)

lemma lawful_refl [simp]: "lawful db db"
  by (simp add: lawful_def)

lemma lawful_trans:
  assumes "lawful a b" and "lawful b c"
  shows "lawful a c"
  unfolding lawful_def
proof (intro conjI allI impI)
  assume wa: "well_formed a"
  then have wb: "well_formed b" using assms(1) by (simp add: lawful_def)
  then show "well_formed c" using assms(2) by (simp add: lawful_def)
  fix i x assume "find_case a i = Some x"
  then obtain y where y: "find_case b i = Some y" "case_lawful x y"
    using assms(1) wa unfolding lawful_def by blast
  then obtain z where "find_case c i = Some z" "case_lawful y z"
    using assms(2) wb unfolding lawful_def by blast
  then show "\<exists>z. find_case c i = Some z \<and> case_lawful x z" using y(2) case_lawful_trans by blast
qed

text \<open>The three building blocks.\<close>

lemma lawful_other_tables:
  "db_cases db' = db_cases db \<Longrightarrow> db_events db' = db_events db \<Longrightarrow> lawful db db'"
  using well_formed_cong [of db' db] by (simp add: lawful_def find_case_def)

lemma lawful_append_events:
  assumes "append_events db i es = Inr db'" and "\<forall>e \<in> set es. ev_CaseID e = i"
  shows "lawful db db'"
  using assms well_formed_append_events [OF assms(1) _ assms(2)] append_events_log [OF assms(1)]
  by (auto simp: lawful_def find_case_def)

lemma case_lawful_advance: "CanTransition (rc_CurrentState c) s \<Longrightarrow> case_lawful c (advance s now c)"
  by (auto simp: case_lawful_def same_case_def advance_def)

lemma lawful_advance:
  assumes "\<And>c. well_formed db \<Longrightarrow> find_case db i = Some c \<Longrightarrow> CanTransition (rc_CurrentState c) s" and "IsValid s"
  shows "lawful db (update_case i (advance s now) db)"
proof -
  have "well_formed (update_case i (advance s now) db)" if "well_formed db"
    by (intro well_formed_update_case keeps_identity_advance that assms(2))
  then show ?thesis
    using assms by (auto simp: lawful_def find_case_update case_lawful_advance)
qed

text \<open>
  \<open>UPDATE ... SET current_state = dst ... WHERE id = i AND current_state = src AND version = v\<close>
  with the check that exactly one row was affected.
\<close>

definition move_case :: "ID \<Rightarrow> CaseState \<Rightarrow> int \<Rightarrow> CaseState \<Rightarrow> time \<Rightarrow> Database \<Rightarrow> (error, Database) result" where
  "move_case i src v dst now db =
     (case find_case db i of None \<Rightarrow> Inl ErrConflict
      | Some c \<Rightarrow> if rc_CurrentState c = src \<and> rc_Version c = v then Inr (update_case i (advance dst now) db)
          else Inl ErrConflict)"

lemma move_caseD:
  assumes "move_case i src v dst now db = Inr db'"
  shows "db' = update_case i (advance dst now) db"
    "\<exists>c. find_case db i = Some c \<and> rc_CurrentState c = src \<and> rc_Version c = v \<and> find_case db' i = Some (advance dst now c)"
    "\<And>j. j \<noteq> i \<Longrightarrow> find_case db' j = find_case db j"
  using assms by (auto simp: move_case_def find_case_update split: option.splits if_splits)

lemma lawful_move_case:
  assumes "move_case i src v dst now db = Inr db'" and "CanTransition src dst"
  shows "lawful db db'"
  unfolding move_caseD(1) [OF assms(1)]
proof (rule lawful_advance)
  show "CanTransition (rc_CurrentState c) dst" if "find_case db i = Some c" for c
    using move_caseD(2) [OF assms(1)] assms(2) that by auto
  show "IsValid dst" using CanTransition_valid [OF assms(2)] by simp
qed

text \<open>The same statement without a version, \<open>WHERE id = i AND current_state = src\<close>.\<close>

definition move_from :: "ID \<Rightarrow> CaseState \<Rightarrow> CaseState \<Rightarrow> time \<Rightarrow> Database \<Rightarrow> (error, Database) result" where
  "move_from i src dst now db =
     (case find_case db i of None \<Rightarrow> Inl ErrConflict | Some c \<Rightarrow> move_case i src (rc_Version c) dst now db)"

lemma move_fromD:
  assumes "move_from i src dst now db = Inr db'"
  shows "db' = update_case i (advance dst now) db"
    "\<exists>c. find_case db i = Some c \<and> rc_CurrentState c = src \<and> find_case db' i = Some (advance dst now c)"
    "\<And>j. j \<noteq> i \<Longrightarrow> find_case db' j = find_case db j" "CanTransition src dst \<Longrightarrow> lawful db db'"
proof -
  obtain c where c: "find_case db i = Some c" using assms by (cases "find_case db i") (auto simp: move_from_def)
  have m: "move_case i src (rc_Version c) dst now db = Inr db'" using assms c by (simp add: move_from_def)
  note d = move_caseD [OF m]
  show "db' = update_case i (advance dst now) db" by (rule d(1))
  show "\<exists>c. find_case db i = Some c \<and> rc_CurrentState c = src \<and> find_case db' i = Some (advance dst now c)" using d(2) by blast
  show "find_case db' j = find_case db j" if "j \<noteq> i" for j by (rule d(3) [OF that])
  show "lawful db db'" if "CanTransition src dst" by (rule lawful_move_case [OF m that])
qed

lemma valid_state: "well_formed db \<Longrightarrow> find_case db i = Some c \<Longrightarrow> IsValid (rc_CurrentState c)"
  by (auto simp: well_formed_def find_case_def dest: lookup_SomeD)

text \<open>Inserting a row under a uniqueness constraint.\<close>

definition insert_row :: "string \<Rightarrow> ('r \<Rightarrow> 'r \<Rightarrow> bool) \<Rightarrow> 'r \<Rightarrow> 'r list \<Rightarrow> (error, 'r list) result" where
  "insert_row name clash r t = (if list_ex (clash r) t then Inl (ErrConstraint name) else Inr (t @ [r]))"

lemma insert_row_Inr: "insert_row name clash r t = Inr t' \<longleftrightarrow> t' = t @ [r] \<and> \<not> list_ex (clash r) t"
  by (auto simp: insert_row_def)

text \<open>What an operation that appends to the log of case \<open>i\<close> leaves as it was.\<close>

lemma append_events_case [simp]:
  "append_events db i es = Inr db' \<Longrightarrow> find_case db' j = find_case db j"
  by (drule append_events_log) (simp add: find_case_def)

lemma append_events_log_of:
  assumes "append_events db i es = Inr db'" and "well_formed db" and "\<forall>e \<in> set es. ev_CaseID e = i"
  shows "map ev_Type (case_log db' i) = map ev_Type (case_log db i) @ map ev_Type es"
proof -
  have t: "map ev_Type (numbered n es) = map ev_Type es" for n
    by (induction es arbitrary: n) auto
  have "\<forall>e \<in> set (numbered (nextSequence db i) es). ev_CaseID e = i"
    using assms(3) numbered_facts(2) by (metis image_iff list.set_map)
  then have "case_log db' i = case_log db i @ numbered (nextSequence db i) es"
    unfolding append_events_log [OF assms(1)] case_log_def by (simp add: filter_id_conv)
  then show ?thesis by (simp add: t)
qed

text \<open>With unused ids, appending to the log of an existing case never fails.\<close>

lemma insertEvents_ok:
  assumes "\<forall>x \<in> set (db_events db). ev_CaseID x = i \<longrightarrow> ev_Sequence x < n" and "1 \<le> n" and "find_case db i \<noteq> None"
    and "\<forall>e \<in> set es. ev_CaseID e = i" and "distinct (map ev_ID es)" and "ev_ID ` set es \<inter> ev_ID ` set (db_events db) = {}"
  shows "insertEvents db (numbered n es) = Inr (db\<lparr>db_events := db_events db @ numbered n es\<rparr>)"
  using assms
proof (induction es arbitrary: n db)
  case (Cons e es)
  let ?d = "db\<lparr>db_events := db_events db @ [e\<lparr>ev_Sequence := n\<rparr>]\<rparr>"
  have e: "ev_CaseID e = i" using Cons.prems(4) by simp
  have "\<not> list_ex (\<lambda>x. ev_ID x = ev_ID e) (db_events db)"
    using Cons.prems(6) unfolding list_ex_iff by (metis disjoint_iff image_eqI list.set_intros(1))
  moreover have "\<not> list_ex (\<lambda>x. ev_CaseID x = i \<and> ev_Sequence x = n) (db_events db)"
    using Cons.prems(1) by (auto simp: list_ex_iff)
  moreover have "lookup rc_ID i (db_cases db) \<noteq> None" using Cons.prems(3) by (simp add: find_case_def)
  ultimately have "insertEvent db (e\<lparr>ev_Sequence := n\<rparr>) = Inr ?d"
    using Cons.prems(2) e by (simp add: insertEvent_def)
  moreover have "insertEvents ?d (numbered (n + 1) es) = Inr (?d\<lparr>db_events := db_events ?d @ numbered (n + 1) es\<rparr>)"
  proof (rule Cons.IH)
    show "\<forall>x \<in> set (db_events ?d). ev_CaseID x = i \<longrightarrow> ev_Sequence x < n + 1"
      using Cons.prems(1) by (auto intro: less_trans)
    show "ev_ID ` set es \<inter> ev_ID ` set (db_events ?d) = {}" using Cons.prems(5,6) by auto
    show "find_case ?d i \<noteq> None" using Cons.prems(3) by (simp add: find_case_def)
  qed (use Cons.prems in auto)
  ultimately show ?case by simp
qed simp

lemma append_events_ok:
  assumes "well_formed db" and "find_case db i \<noteq> None" and "\<forall>e \<in> set es. ev_CaseID e = i"
    and "distinct (map ev_ID es)" and "ev_ID ` set es \<inter> ev_ID ` set (db_events db) = {}"
  shows "append_events db i es = Inr (db\<lparr>db_events := db_events db @ numbered (nextSequence db i) es\<rparr>)"
  unfolding append_events_def
proof (rule insertEvents_ok)
  have g: "map ev_Sequence (case_log db i) = [1 .. int (length (case_log db i))]"
    using assms(1) by (simp add: well_formed_def gap_free_def)
  have n: "nextSequence db i = int (length (case_log db i)) + 1" using g by (rule nextSequence_gap_free)
  show "1 \<le> nextSequence db i" by (simp add: n)
  show "\<forall>x \<in> set (db_events db). ev_CaseID x = i \<longrightarrow> ev_Sequence x < nextSequence db i"
  proof (intro ballI impI)
    fix x assume "x \<in> set (db_events db)" "ev_CaseID x = i"
    then have "ev_Sequence x \<in> set (map ev_Sequence (case_log db i))" by (simp add: case_log_def)
    then show "ev_Sequence x < nextSequence db i" unfolding g n by simp
  qed
qed (use assms in auto)

end
