(* ===== verification/Decision_Store.thy ===== *)
theory Decision_Store
  imports Evolution
begin

text \<open>
  Persisting decisions: \<open>internal/store/decisions.go\<close>, \<open>internal/store/decision_workflow.go\<close> and
  the scheduling transaction of \<open>internal/store/workflow.go\<close>. \<open>fresh k\<close> names the ids of one
  transaction.
\<close>

section \<open>Saving a decision\<close>

abbreviation probability_ok :: "float64 \<Rightarrow> bool" where
  "probability_ok p \<equiv> 0 \<le> p \<and> p \<le> 1"

definition insert_natural :: "NaturalSnapshot \<Rightarrow> Database \<Rightarrow> (error, Database) result" where
  "insert_natural n db =
     (if \<not> probability_ok (ns_Probability n) then Inl (ErrConstraint ''natural_recovery_predictions_probability_check'')
      else case insert_row ''natural_recovery_predictions_pkey'' (\<lambda>r x. ns_ID x = ns_ID r) n (db_naturals db) of
        Inl e \<Rightarrow> Inl e | Inr t \<Rightarrow> Inr (db\<lparr>db_naturals := t\<rparr>))"

definition candidate_row_ok :: "Candidate \<Rightarrow> bool" where
  "candidate_row_ok c \<longleftrightarrow> probability_ok (cd_ActionRecoveryProbability c) \<and> probability_ok (cd_NaturalRecoveryProbability c)
     \<and> -1 \<le> cd_IncrementalUplift c \<and> cd_IncrementalUplift c \<le> 1"

text \<open>The decision row and one row per candidate (unique by action).\<close>

definition insert_decision :: "DecisionRow \<Rightarrow> Database \<Rightarrow> (error, Database) result" where
  "insert_decision r db =
     (let candidates = rr_Candidates (de_Optimization (dr_Decision r)) in
      case insert_row ''recovery_decisions_pkey'' (\<lambda>r x. de_ID (dr_Decision x) = de_ID (dr_Decision r)) r (db_decisions db) of
        Inl e \<Rightarrow> Inl e
      | Inr t \<Rightarrow>
          if \<not> distinct (map cd_Action candidates) then Inl (ErrConstraint ''recovery_decision_candidates_decision_id_action_key'')
          else if \<not> list_all candidate_row_ok candidates then Inl (ErrConstraint ''recovery_decision_candidates_check'')
          else Inr (db\<lparr>db_decisions := t\<rparr>))"

definition insert_gate :: "GateResult \<Rightarrow> Database \<Rightarrow> (error, Database) result" where
  "insert_gate g db =
     (if eg_Decision g \<notin> {''ALLOW'', ''BLOCK''} then Inl (ErrConstraint ''economic_gate_evaluations_result_check'')
      else case insert_row ''economic_gate_evaluations_pkey'' (\<lambda>r x. eg_ID x = eg_ID r) g (db_gates db) of
        Inl e \<Rightarrow> Inl e | Inr t \<Rightarrow> Inr (db\<lparr>db_gates := t\<rparr>))"

definition insert_policy :: "PolicyResult \<Rightarrow> Database \<Rightarrow> (error, Database) result" where
  "insert_policy p db =
     (if po_Decision p \<notin> {''APPROVE'', ''DENY'', ''ESCALATE'', ''STOP''} then Inl (ErrConstraint ''policy_evaluations_result_check'')
      else case insert_row ''policy_evaluations_pkey'' (\<lambda>r x. po_ID x = po_ID r) p (db_policies db) of
        Inl e \<Rightarrow> Inl e | Inr t \<Rightarrow> Inr (db\<lparr>db_policies := t\<rparr>))"

definition checks_json :: "(string \<rightharpoonup> bool) \<Rightarrow> json" where
  "checks_json m = JObj (List.map_filter (\<lambda>n. map_option (\<lambda>b. (n, JBool b)) (m n)) (sort_by (<) check_names))"

text \<open>The map from a policy result to its event; a missing key gives the empty event type.\<close>

definition policy_event :: "string \<Rightarrow> EventType" where
  "policy_event d = (if d = ''APPROVE'' then EventPolicyApproved else if d = ''DENY'' then EventPolicyDenied
     else if d = ''ESCALATE'' then EventPolicyEscalated else if d = ''STOP'' then EventCaseStopped else OtherEvent [])"

definition decision_events :: "(nat \<Rightarrow> ID) \<Rightarrow> Snapshot \<Rightarrow> RecoveryEvent list" where
  "decision_events fresh s =
     (let d = sn_Decision s; g = sn_Gate s; p = sn_Policy s; c = de_CaseID d; opt = de_Optimization d;
          payload = Some (JObj [(''case_version'', JInt (de_CaseVersion d)), (''decision_id'', JStr (de_ID d)),
            (''natural_probability'', JNum (ns_Probability (sn_Natural s))),
            (''nerv_minor'', JInt (cd_NERVMinor (rr_Selected opt))),
            (''selected_action'', JStr (action_string (cd_Action (rr_Selected opt))))]);
          policyPayload = Some (JObj [(''checks'', checks_json (po_Checks p)), (''decision_id'', JStr (de_ID d)),
            (''reason_codes'', JArr (map JStr (po_ReasonCodes p))), (''result'', JStr (po_Decision p))]);
          policy_actor = \<lparr>actor_Type = ''POLICY'', actor_ID = po_PolicyVersion p\<rparr>
      in [(event_of (fresh 0) c EventDecisionCreated (rr_CreatedAt opt) (system_actor (rr_OptimizerVersion opt)) payload (de_ID d))
            \<lparr>ev_ModelVersion := de_OutcomeModelVersion d\<rparr>,
          event_of (fresh 1) c (if eg_Decision g = ''ALLOW'' then EventEconomicGateAllowed else EventEconomicGateBlocked)
            (eg_CreatedAt g) (system_actor (eg_GateVersion g)) emptyObject (de_ID d),
          event_of (fresh 2) c EventPolicyEvaluated (po_CreatedAt p) policy_actor (Some (checks_json (po_Checks p))) (de_ID d),
          event_of (fresh 3) c (policy_event (po_Decision p)) (po_CreatedAt p) policy_actor policyPayload (de_ID d)]
         @ (if po_Decision p = ''ESCALATE'' then
              [event_of (fresh 4) c EventHumanReviewRequested (po_CreatedAt p) policy_actor policyPayload (de_ID d)]
            else []))"

text \<open>The last statements: what the policy result does to the case.\<close>

definition apply_policy :: "CaseState \<Rightarrow> Snapshot \<Rightarrow> Database \<Rightarrow> (error, Database) result" where
  "apply_policy currentState s db =
     (let d = sn_Decision s; p = sn_Policy s in
      if po_Decision p = ''ESCALATE'' then
        move_case (de_CaseID d) StateActionPending (de_CaseVersion d) StateEscalated (po_CreatedAt p) db
      else if po_Decision p = ''STOP'' \<and> \<not> IsTerminal currentState then
        (case find_case db (de_CaseID d) of None \<Rightarrow> Inl ErrConflict
         | Some c \<Rightarrow>
             if rc_CurrentState c \<notin> {StateRecovered, StateExhausted, StateStopped} \<and> rc_Version c = de_CaseVersion d
             then Inr (update_case (de_CaseID d) (advance StateStopped (po_CreatedAt p)) db) else Inl ErrConflict)
      else Inr db)"

definition saveDecisionTx :: "(nat \<Rightarrow> ID) \<Rightarrow> Snapshot \<Rightarrow> Database \<Rightarrow> (error, Database) result" where
  "saveDecisionTx fresh s db =
     (case find_case db (de_CaseID (sn_Decision s)) of None \<Rightarrow> Inl ErrNotFound
      | Some c \<Rightarrow>
          if rc_Version c \<noteq> de_CaseVersion (sn_Decision s) then Inl ErrConflict
          else
            (case insert_natural (sn_Natural s) db of Inl e \<Rightarrow> Inl e | Inr db \<Rightarrow>
             (case insert_decision \<lparr>dr_Decision = sn_Decision s, dr_Context = sn_Context s, dr_Eligibility = sn_Eligibility s\<rparr> db of
                Inl e \<Rightarrow> Inl e | Inr db \<Rightarrow>
             (case insert_gate (sn_Gate s) db of Inl e \<Rightarrow> Inl e | Inr db \<Rightarrow>
             (case insert_policy (sn_Policy s) db of Inl e \<Rightarrow> Inl e | Inr db \<Rightarrow>
             (case append_events db (de_CaseID (sn_Decision s)) (decision_events fresh s) of Inl e \<Rightarrow> Inl e | Inr db \<Rightarrow>
                apply_policy (rc_CurrentState c) s db))))))"

definition SaveDecision :: "(nat \<Rightarrow> ID) \<Rightarrow> Snapshot \<Rightarrow> unit tx" where
  "SaveDecision fresh s db = (case saveDecisionTx fresh s db of Inl e \<Rightarrow> Inl e | Inr db \<Rightarrow> Inr ((), db))"

section \<open>Preparing a case for a decision\<close>

definition preparation_targets :: "CaseState \<Rightarrow> (CaseState \<times> CaseState \<times> EventType) list option" where
  "preparation_targets state =
     (if state = StateDetected then Some [(StateDetected, StateDiagnosing, EventDiagnosisStarted),
        (StateDiagnosing, StateActionPending, EventDiagnosisCompleted)]
      else if state = StateDiagnosing then Some [(StateDiagnosing, StateActionPending, EventDiagnosisCompleted)]
      else if state = StateReassessing then Some [(StateReassessing, StateActionPending, EventStateTransitioned)]
      else if state = StateActionPending then Some []
      else None)"

definition preparation_event :: "ID \<Rightarrow> ID \<Rightarrow> int \<Rightarrow> time \<Rightarrow> CaseState \<Rightarrow> CaseState \<Rightarrow> EventType \<Rightarrow> RecoveryEvent" where
  "preparation_event newID caseID version now src dst type =
     event_of newID caseID type now (system_actor ''decision-lifecycle-v1'')
       (Some (JObj [(''from_state'', JStr (state_string src)), (''previous_version'', JInt version),
          (''to_state'', JStr (state_string dst))]))
       (''decision-preparation:'' @ caseID @ '':'' @ itoa version)"

fun preparation_loop :: "(nat \<Rightarrow> ID) \<Rightarrow> ID \<Rightarrow> time \<Rightarrow> int \<Rightarrow> nat \<Rightarrow> int \<Rightarrow> (CaseState \<times> CaseState \<times> EventType) list
    \<Rightarrow> Database \<Rightarrow> (error, Database) result" where
  "preparation_loop fresh caseID now sequence index version [] db = Inr db"
| "preparation_loop fresh caseID now sequence index version ((src, dst, type) # targets) db =
     (if \<not> CanTransition src dst then Inl (ErrMsg ''invalid configured decision transition'')
      else (case move_case caseID src version dst now db of Inl e \<Rightarrow> Inl e
        | Inr db \<Rightarrow>
            (case insertEvent db ((preparation_event (fresh index) caseID version now src dst type)
                \<lparr>ev_Sequence := sequence + int index\<rparr>) of Inl e \<Rightarrow> Inl e
             | Inr db \<Rightarrow> preparation_loop fresh caseID now sequence (Suc index) (version + 1) targets db)))"

definition PrepareForDecision :: "(nat \<Rightarrow> ID) \<Rightarrow> ID \<Rightarrow> time \<Rightarrow> unit tx" where
  "PrepareForDecision fresh caseID now db =
     (case find_case db caseID of None \<Rightarrow> Inl ErrNotFound
      | Some c \<Rightarrow>
          (case preparation_targets (rc_CurrentState c) of None \<Rightarrow> Inl ErrConflict
           | Some targets \<Rightarrow>
               (case preparation_loop fresh caseID now (nextSequence db caseID) 0 (rc_Version c) targets db of
                  Inl e \<Rightarrow> Inl e | Inr db \<Rightarrow> Inr ((), db))))"

section \<open>Scheduling\<close>

definition insert_action :: "RecoveryAction \<Rightarrow> Database \<Rightarrow> (error, Database) result" where
  "insert_action a db =
     (if ra_Type a \<notin> set declared_actions then Inl (ErrConstraint ''recovery_actions_action_type_check'')
      else case insert_row ''recovery_actions_key'' (\<lambda>r x. ra_ID x = ra_ID r \<or> ra_IdempotencyKey x = ra_IdempotencyKey r)
          a (db_actions db) of Inl e \<Rightarrow> Inl e | Inr t \<Rightarrow> Inr (db\<lparr>db_actions := t\<rparr>))"

definition insert_scheduled :: "ScheduledRow \<Rightarrow> Database \<Rightarrow> (error, Database) result" where
  "insert_scheduled r db =
     (case insert_row ''scheduled_actions_key'' (\<lambda>r x. sa_ID x = sa_ID r \<or> sa_IdempotencyKey x = sa_IdempotencyKey r)
        r (db_scheduled db) of Inl e \<Rightarrow> Inl e | Inr t \<Rightarrow> Inr (db\<lparr>db_scheduled := t\<rparr>))"

text \<open>A row of \<open>scheduled_actions\<close> as it is inserted.\<close>

definition new_scheduled :: "ScheduledAction \<Rightarrow> time \<Rightarrow> ScheduledRow" where
  "new_scheduled a now = ScheduledAction.extend a \<lparr>sr_LeaseOwner = None, sr_LeaseExpiresAt = None,
     sr_FailureReason = None, sr_CreatedAt = now, sr_StartedAt = None, sr_CompletedAt = None\<rparr>"

definition schedule_of :: "(nat \<Rightarrow> ID) \<Rightarrow> Snapshot \<Rightarrow> int \<Rightarrow> time \<Rightarrow> ScheduledAction" where
  "schedule_of fresh s version now =
     (let action = cd_Action (rr_Selected (de_Optimization (sn_Decision s))) in
      \<lparr>sa_ID = fresh 6, sa_CaseID = de_CaseID (sn_Decision s), sa_DecisionID = de_ID (sn_Decision s),
       sa_PolicyEvaluationID = po_ID (sn_Policy s), sa_RecoveryActionID = fresh 5, sa_Action = action,
       sa_Parameters = Some (JObj [(''decision_id'', JStr (de_ID (sn_Decision s)))]),
       sa_ScheduledFor = (if action = ActionRetryLater then now + 24 * Hour else now), sa_Status = SPending,
       sa_AttemptCount = 0, sa_MaxAttempts = 3, sa_IdempotencyKey = ''scheduled-action:'' @ fresh 6,
       sa_CaseVersionAtSchedule = version, sa_NextRetryAt = None\<rparr>)"

definition action_of_schedule :: "ScheduledAction \<Rightarrow> time \<Rightarrow> RecoveryAction" where
  "action_of_schedule a now =
     \<lparr>ra_ID = sa_RecoveryActionID a, ra_CaseID = sa_CaseID a, ra_Type = sa_Action a, ra_Status = ''SCHEDULED'',
      ra_Parameters = sa_Parameters a, ra_IdempotencyKey = sa_IdempotencyKey a, ra_PolicyDecisionID = None,
      ra_ScheduledAt = Some (sa_ScheduledFor a), ra_CreatedAt = now, ra_UpdatedAt = now\<rparr>"

definition schedule_events :: "(nat \<Rightarrow> ID) \<Rightarrow> ScheduledAction \<Rightarrow> time \<Rightarrow> RecoveryEvent list" where
  "schedule_events fresh a now =
     (let ev = (\<lambda>k type payload. event_of (fresh k) (sa_CaseID a) type now (system_actor ''durable-scheduler-v1'')
                  (Some (JObj payload)) (sa_ID a));
          d = (''decision_id'', JStr (sa_DecisionID a)); i = (''scheduled_action_id'', JStr (sa_ID a)) in
      [ev 7 EventStateTransitioned [d, (''from_state'', JStr ''ACTION_PENDING''), (''to_state'', JStr ''POLICY_REVIEW'')],
       ev 8 EventStateTransitioned [d, (''from_state'', JStr ''POLICY_REVIEW''), i, (''to_state'', JStr ''SCHEDULED'')],
       ev 9 EventActionScheduled [(''action'', JStr (action_string (sa_Action a))), d, i,
         (''scheduled_for'', JStr (format_time (sa_ScheduledFor a)))]])"

definition scheduleDecisionTx :: "(nat \<Rightarrow> ID) \<Rightarrow> time \<Rightarrow> Snapshot \<Rightarrow> ScheduledAction tx" where
  "scheduleDecisionTx fresh now s db =
     (let i = de_CaseID (sn_Decision s); v = de_CaseVersion (sn_Decision s); a = schedule_of fresh s (v + 2) now in
      case find_case db i of None \<Rightarrow> Inl ErrNotFound
      | Some c \<Rightarrow>
          if rc_CurrentState c \<noteq> StateActionPending \<or> rc_Version c \<noteq> v then Inl ErrConflict
          else
            (case insert_action (action_of_schedule a now) db of Inl e \<Rightarrow> Inl e | Inr db \<Rightarrow>
             (case move_case i StateActionPending v StatePolicyReview now db of Inl e \<Rightarrow> Inl e | Inr db \<Rightarrow>
             (case move_case i StatePolicyReview (v + 1) StateScheduled now db of Inl e \<Rightarrow> Inl e | Inr db \<Rightarrow>
             (case insert_scheduled (new_scheduled a now) db of Inl e \<Rightarrow> Inl e | Inr db \<Rightarrow>
             (case append_events db i (schedule_events fresh a now) of Inl e \<Rightarrow> Inl e | Inr db \<Rightarrow> Inr (a, db)))))))"

definition SaveDecisionAndSchedule :: "(nat \<Rightarrow> ID) \<Rightarrow> time \<Rightarrow> Snapshot \<Rightarrow> ScheduledAction option tx" where
  "SaveDecisionAndSchedule fresh now s db =
     (case saveDecisionTx fresh s db of Inl e \<Rightarrow> Inl e
      | Inr db \<Rightarrow>
          if po_Decision (sn_Policy s) = ''APPROVE'' then
            if eg_Decision (sn_Gate s) \<noteq> ''ALLOW'' then Inl (ErrMsg ''economically blocked decision may not be scheduled'')
            else if cd_Action (rr_Selected (de_Optimization (sn_Decision s))) \<noteq> ActionWait then
              (case scheduleDecisionTx fresh now s db of Inl e \<Rightarrow> Inl e | Inr (a, db) \<Rightarrow> Inr (Some a, db))
            else Inr (None, db)
          else Inr (None, db))"

text \<open>\<open>Scheduler.Schedule\<close> of \<open>internal/orchestrator\<close>, over \<open>ScheduleDecision\<close>.\<close>

definition Schedule :: "(nat \<Rightarrow> ID) \<Rightarrow> time \<Rightarrow> Snapshot \<Rightarrow> ScheduledAction option tx" where
  "Schedule fresh now s db =
     (if po_Decision (sn_Policy s) \<noteq> ''APPROVE'' then Inr (None, db)
      else if eg_Decision (sn_Gate s) \<noteq> ''ALLOW'' then Inl (ErrMsg ''economically blocked decision may not be scheduled'')
      else if cd_Action (rr_Selected (de_Optimization (sn_Decision s))) = ActionWait then Inr (None, db)
      else (case scheduleDecisionTx fresh now s db of Inl e \<Rightarrow> Inl e | Inr (a, db) \<Rightarrow> Inr (Some a, db)))"

section \<open>What the transactions do\<close>

text \<open>Inserts touch neither the cases nor the log.\<close>

lemma inserts_other_tables:
  "insert_natural n db = Inr db' \<Longrightarrow> db_cases db' = db_cases db \<and> db_events db' = db_events db"
  "insert_decision r db = Inr db' \<Longrightarrow> db_cases db' = db_cases db \<and> db_events db' = db_events db"
  "insert_gate g db = Inr db' \<Longrightarrow> db_cases db' = db_cases db \<and> db_events db' = db_events db"
  "insert_policy p db = Inr db' \<Longrightarrow> db_cases db' = db_cases db \<and> db_events db' = db_events db"
  "insert_action a db = Inr db' \<Longrightarrow> db_cases db' = db_cases db \<and> db_events db' = db_events db"
  "insert_scheduled x db = Inr db' \<Longrightarrow> db_cases db' = db_cases db \<and> db_events db' = db_events db"
  by (auto simp: insert_natural_def insert_decision_def insert_gate_def insert_policy_def insert_action_def
      insert_scheduled_def Let_def split: if_splits sum.splits)

lemma inserts_rows:
  "insert_natural n db = Inr db' \<Longrightarrow> db' = db\<lparr>db_naturals := db_naturals db @ [n]\<rparr>"
  "insert_decision r db = Inr db' \<Longrightarrow> db' = db\<lparr>db_decisions := db_decisions db @ [r]\<rparr>"
  "insert_gate g db = Inr db' \<Longrightarrow> db' = db\<lparr>db_gates := db_gates db @ [g]\<rparr>"
  "insert_policy p db = Inr db' \<Longrightarrow> db' = db\<lparr>db_policies := db_policies db @ [p]\<rparr>"
  "insert_action a db = Inr db' \<Longrightarrow> db' = db\<lparr>db_actions := db_actions db @ [a]\<rparr>"
  "insert_scheduled x db = Inr db' \<Longrightarrow> db' = db\<lparr>db_scheduled := db_scheduled db @ [x]\<rparr>"
  by (auto simp: insert_natural_def insert_decision_def insert_gate_def insert_policy_def insert_action_def
      insert_scheduled_def insert_row_def Let_def split: if_splits)

lemma lawful_inserts:
  "insert_natural n db = Inr db' \<Longrightarrow> lawful db db'" "insert_decision r db = Inr db' \<Longrightarrow> lawful db db'"
  "insert_gate g db = Inr db' \<Longrightarrow> lawful db db'" "insert_policy p db = Inr db' \<Longrightarrow> lawful db db'"
  "insert_action a db = Inr db' \<Longrightarrow> lawful db db'" "insert_scheduled x db = Inr db' \<Longrightarrow> lawful db db'"
  using inserts_other_tables lawful_other_tables by blast+

lemma decision_events_case: "\<forall>e \<in> set (decision_events fresh s). ev_CaseID e = de_CaseID (sn_Decision s)"
  by (simp add: decision_events_def Let_def event_of_def)

text \<open>The rows a saved decision adds.\<close>

definition with_decision :: "Snapshot \<Rightarrow> Database \<Rightarrow> Database" where
  "with_decision s db = db\<lparr>db_naturals := db_naturals db @ [sn_Natural s],
     db_decisions := db_decisions db @ [\<lparr>dr_Decision = sn_Decision s, dr_Context = sn_Context s, dr_Eligibility = sn_Eligibility s\<rparr>],
     db_gates := db_gates db @ [sn_Gate s], db_policies := db_policies db @ [sn_Policy s]\<rparr>"

lemma saveDecisionTxD:
  assumes "saveDecisionTx fresh s db = Inr db'"
  obtains c d where "find_case db (de_CaseID (sn_Decision s)) = Some c" "rc_Version c = de_CaseVersion (sn_Decision s)"
    "append_events (with_decision s db) (de_CaseID (sn_Decision s)) (decision_events fresh s) = Inr d"
    "apply_policy (rc_CurrentState c) s d = Inr db'"
proof -
  obtain c where c: "find_case db (de_CaseID (sn_Decision s)) = Some c" "rc_Version c = de_CaseVersion (sn_Decision s)"
    using assms by (auto simp: saveDecisionTx_def split: option.splits if_splits)
  obtain d1 where d1: "insert_natural (sn_Natural s) db = Inr d1"
    using assms c by (auto simp: saveDecisionTx_def split: sum.splits)
  obtain d2 where d2: "insert_decision \<lparr>dr_Decision = sn_Decision s, dr_Context = sn_Context s, dr_Eligibility = sn_Eligibility s\<rparr> d1 = Inr d2"
    using assms c d1 by (auto simp: saveDecisionTx_def split: sum.splits)
  obtain d3 where d3: "insert_gate (sn_Gate s) d2 = Inr d3"
    using assms c d1 d2 by (auto simp: saveDecisionTx_def split: sum.splits)
  obtain d4 where d4: "insert_policy (sn_Policy s) d3 = Inr d4"
    using assms c d1 d2 d3 by (auto simp: saveDecisionTx_def split: sum.splits)
  obtain d where d: "append_events d4 (de_CaseID (sn_Decision s)) (decision_events fresh s) = Inr d"
    using assms c d1 d2 d3 d4 by (auto simp: saveDecisionTx_def split: sum.splits)
  have "d4 = with_decision s db"
    using inserts_rows(1) [OF d1] inserts_rows(2) [OF d2] inserts_rows(3) [OF d3] inserts_rows(4) [OF d4]
    by (simp add: with_decision_def)
  moreover have "apply_policy (rc_CurrentState c) s d = Inr db'"
    using assms c d1 d2 d3 d4 d by (simp add: saveDecisionTx_def)
  ultimately show ?thesis using that c d by blast
qed

lemma with_decision_case [simp]: "find_case (with_decision s db) i = find_case db i"
  by (simp add: with_decision_def find_case_def)

lemma lawful_with_decision: "lawful db (with_decision s db)"
  by (rule lawful_other_tables) (simp_all add: with_decision_def)

lemma can_stop: "IsValid s \<Longrightarrow> \<not> IsTerminal s \<Longrightarrow> CanTransition s StateStopped"
  by (cases s) (simp_all add: state_machine_defs)

lemma lawful_apply_policy:
  assumes "apply_policy st s db = Inr db'"
  shows "lawful db db'"
proof -
  consider "po_Decision (sn_Policy s) = ''ESCALATE''" | "po_Decision (sn_Policy s) = ''STOP'' \<and> \<not> IsTerminal st"
    | "db' = db" using assms by (auto simp: apply_policy_def Let_def split: if_splits)
  then show ?thesis
  proof cases
    case 1
    then show ?thesis using assms lawful_move_case by (auto simp: apply_policy_def Let_def CanTransition_def)
  next
    case 2
    obtain c where c: "find_case db (de_CaseID (sn_Decision s)) = Some c" "\<not> IsTerminal (rc_CurrentState c)"
      "db' = update_case (de_CaseID (sn_Decision s)) (advance StateStopped (po_CreatedAt (sn_Policy s))) db"
      using assms 2 by (auto simp: apply_policy_def Let_def IsTerminal_def split: option.splits if_splits)
    show ?thesis unfolding c(3) using c(1,2) valid_state can_stop
      by (intro lawful_advance) (auto simp: IsValid_def)
  qed simp
qed

lemma lawful_saveDecisionTx: "saveDecisionTx fresh s db = Inr db' \<Longrightarrow> lawful db db'"
  by (erule saveDecisionTxD)
    (meson lawful_trans lawful_with_decision lawful_append_events decision_events_case lawful_apply_policy)

lemma schedule_events_case: "sa_CaseID a = i \<Longrightarrow> \<forall>e \<in> set (schedule_events fresh a now). ev_CaseID e = i"
  by (simp add: schedule_events_def Let_def event_of_def)

lemma schedule_of_case [simp]:
  "sa_CaseID (schedule_of fresh s v now) = de_CaseID (sn_Decision s)"
  "sa_CaseVersionAtSchedule (schedule_of fresh s v now) = v" "sa_Status (schedule_of fresh s v now) = SPending"
  "sa_Action (schedule_of fresh s v now) = cd_Action (rr_Selected (de_Optimization (sn_Decision s)))"
  "sa_DecisionID (schedule_of fresh s v now) = de_ID (sn_Decision s)"
  "sa_PolicyEvaluationID (schedule_of fresh s v now) = po_ID (sn_Policy s)"
  by (simp_all add: schedule_of_def Let_def)

lemma scheduleDecisionTxD:
  assumes "scheduleDecisionTx fresh now s db = Inr (a, db')"
  obtains c d1 d2 d3 d4 where
    "a = schedule_of fresh s (de_CaseVersion (sn_Decision s) + 2) now"
    "find_case db (de_CaseID (sn_Decision s)) = Some c" "rc_CurrentState c = StateActionPending"
    "rc_Version c = de_CaseVersion (sn_Decision s)"
    "insert_action (action_of_schedule a now) db = Inr d1"
    "move_case (de_CaseID (sn_Decision s)) StateActionPending (de_CaseVersion (sn_Decision s)) StatePolicyReview now d1 = Inr d2"
    "move_case (de_CaseID (sn_Decision s)) StatePolicyReview (de_CaseVersion (sn_Decision s) + 1) StateScheduled now d2 = Inr d3"
    "insert_scheduled (new_scheduled a now) d3 = Inr d4"
    "append_events d4 (de_CaseID (sn_Decision s)) (schedule_events fresh a now) = Inr db'"
proof -
  let ?a = "schedule_of fresh s (de_CaseVersion (sn_Decision s) + 2) now"
  obtain c where c: "find_case db (de_CaseID (sn_Decision s)) = Some c" "rc_CurrentState c = StateActionPending"
    "rc_Version c = de_CaseVersion (sn_Decision s)"
    using assms by (auto simp: scheduleDecisionTx_def Let_def split: option.splits if_splits)
  obtain d1 where d1: "insert_action (action_of_schedule ?a now) db = Inr d1"
    using assms c by (auto simp: scheduleDecisionTx_def Let_def split: sum.splits)
  obtain d2 where d2: "move_case (de_CaseID (sn_Decision s)) StateActionPending (de_CaseVersion (sn_Decision s)) StatePolicyReview now d1 = Inr d2"
    using assms c d1 by (auto simp: scheduleDecisionTx_def Let_def split: sum.splits)
  obtain d3 where d3: "move_case (de_CaseID (sn_Decision s)) StatePolicyReview (de_CaseVersion (sn_Decision s) + 1) StateScheduled now d2 = Inr d3"
    using assms c d1 d2 by (auto simp: scheduleDecisionTx_def Let_def split: sum.splits)
  obtain d4 where d4: "insert_scheduled (new_scheduled ?a now) d3 = Inr d4"
    using assms c d1 d2 d3 by (auto simp: scheduleDecisionTx_def Let_def split: sum.splits)
  have "append_events d4 (de_CaseID (sn_Decision s)) (schedule_events fresh ?a now) = Inr db'" "a = ?a"
    using assms c d1 d2 d3 d4 by (auto simp: scheduleDecisionTx_def Let_def split: sum.splits)
  then show ?thesis using that c d1 d2 d3 d4 by blast
qed

lemma lawful_scheduleDecisionTx: "scheduleDecisionTx fresh now s db = Inr (a, db') \<Longrightarrow> lawful db db'"
proof (erule scheduleDecisionTxD)
  fix c d1 d2 d3 d4
  assume a: "a = schedule_of fresh s (de_CaseVersion (sn_Decision s) + 2) now"
    and d: "insert_action (action_of_schedule a now) db = Inr d1"
      "move_case (de_CaseID (sn_Decision s)) StateActionPending (de_CaseVersion (sn_Decision s)) StatePolicyReview now d1 = Inr d2"
      "move_case (de_CaseID (sn_Decision s)) StatePolicyReview (de_CaseVersion (sn_Decision s) + 1) StateScheduled now d2 = Inr d3"
      "insert_scheduled (new_scheduled a now) d3 = Inr d4"
      "append_events d4 (de_CaseID (sn_Decision s)) (schedule_events fresh a now) = Inr db'"
  have t: "CanTransition StateActionPending StatePolicyReview" "CanTransition StatePolicyReview StateScheduled"
    by (simp_all add: CanTransition_def)
  have "sa_CaseID a = de_CaseID (sn_Decision s)" by (simp add: a)
  then show "lawful db db'"
    using lawful_inserts(5) [OF d(1)] lawful_move_case [OF d(2) t(1)] lawful_move_case [OF d(3) t(2)]
      lawful_inserts(6) [OF d(4)] lawful_append_events [OF d(5) schedule_events_case] lawful_trans by blast
qed

lemma lawful_SaveDecisionAndSchedule:
  assumes "SaveDecisionAndSchedule fresh now s db = Inr (r, db')"
  shows "lawful db db'"
proof -
  obtain d where d: "saveDecisionTx fresh s db = Inr d"
    using assms by (auto simp: SaveDecisionAndSchedule_def split: sum.splits)
  have "d = db' \<or> (\<exists>a. scheduleDecisionTx fresh now s d = Inr (a, db'))"
    using assms d by (auto simp: SaveDecisionAndSchedule_def split: sum.splits if_splits prod.splits)
  then show ?thesis
    using lawful_saveDecisionTx [OF d] lawful_scheduleDecisionTx lawful_trans by blast
qed

lemma lawful_Schedule: "Schedule fresh now s db = Inr (r, db') \<Longrightarrow> lawful db db'"
  using lawful_scheduleDecisionTx by (auto simp: Schedule_def split: sum.splits if_splits prod.splits)

lemma lawful_SaveDecision: "SaveDecision fresh s db = Inr (r, db') \<Longrightarrow> lawful db db'"
  using lawful_saveDecisionTx by (auto simp: SaveDecision_def split: sum.splits)

section \<open>Preparation\<close>

lemma find_case_insertEvent: "insertEvent db e = Inr db' \<Longrightarrow> find_case db' i = find_case db i"
  using insertEvent_log(1) [of db e db'] by (simp add: find_case_def)

lemma preparation_event_case [simp]: "ev_CaseID (preparation_event n i v now src dst type) = i"
  by (simp add: preparation_event_def event_of_def)

text \<open>In a well-formed database the running number of the loop is the next one of the log.\<close>

lemma preparation_loop_lawful:
  assumes "preparation_loop fresh i now sequence index version targets db = Inr db'"
    and "well_formed db" and "nextSequence db i = sequence + int index"
  shows "lawful db db'"
  using assms
proof (induction targets arbitrary: index version db)
  case (Cons t targets)
  obtain src dst type where t: "t = (src, dst, type)" by (cases t)
  have ct: "CanTransition src dst" using Cons.prems(1) t by (simp split: if_splits)
  obtain d1 where d1: "move_case i src version dst now db = Inr d1"
    using Cons.prems(1) t ct by (auto split: sum.splits)
  let ?e = "preparation_event (fresh index) i version now src dst type"
  obtain d2 where d2: "insertEvent d1 (?e\<lparr>ev_Sequence := sequence + int index\<rparr>) = Inr d2"
    and rest: "preparation_loop fresh i now sequence (Suc index) (version + 1) targets d2 = Inr db'"
    using Cons.prems(1) t ct d1 by (auto split: sum.splits)
  have l1: "lawful db d1" using d1 ct by (rule lawful_move_case)
  then have w1: "well_formed d1" using Cons.prems(2) by (simp add: lawful_def)
  have n1: "nextSequence d1 i = sequence + int index"
    using Cons.prems(3) move_caseD(1) [OF d1] by (simp add: nextSequence_def)
  have a: "append_events d1 i [?e] = Inr d2"
    using d2 n1 by (simp add: append_events_def)
  have l2: "lawful d1 d2" by (rule lawful_append_events [OF a]) simp
  then have w2: "well_formed d2" using w1 by (simp add: lawful_def)
  have "case_log d2 i = case_log d1 i @ [?e\<lparr>ev_Sequence := sequence + int index\<rparr>]"
    using insertEvent_log(1) [OF d2] by (simp add: case_log_def)
  moreover have "nextSequence d i = int (length (case_log d i)) + 1" if "well_formed d" for d
    using that nextSequence_gap_free by (simp add: well_formed_def gap_free_def)
  ultimately have "nextSequence d2 i = sequence + int (Suc index)" using w1 w2 n1 by simp
  then have "lawful d2 db'" using Cons.IH rest w2 by blast
  then show ?case using l1 l2 lawful_trans by blast
qed simp

lemma lawful_PrepareForDecision:
  assumes "PrepareForDecision fresh i now db = Inr (r, db')"
  shows "lawful db db'"
proof (cases "well_formed db")
  case True
  obtain c targets where "find_case db i = Some c" "preparation_targets (rc_CurrentState c) = Some targets"
      "preparation_loop fresh i now (nextSequence db i) 0 (rc_Version c) targets db = Inr db'"
    using assms by (auto simp: PrepareForDecision_def split: option.splits sum.splits)
  then show ?thesis using preparation_loop_lawful [OF _ True] by simp
qed (simp add: lawful_def)

lemma preparation_loop_path:
  assumes "preparation_loop fresh i now sequence index version targets db = Inr db'"
    and "find_case db i = Some c"
  shows "find_case db' i = Some (fold (\<lambda>(src, dst, type). advance dst now) targets c)"
  using assms
proof (induction targets arbitrary: index version db c)
  case (Cons t targets)
  obtain src dst type where t: "t = (src, dst, type)" by (cases t)
  obtain d1 d2 where d1: "move_case i src version dst now db = Inr d1"
    and d2: "insertEvent d1 ((preparation_event (fresh index) i version now src dst type)\<lparr>ev_Sequence := sequence + int index\<rparr>) = Inr d2"
    and rest: "preparation_loop fresh i now sequence (Suc index) (version + 1) targets d2 = Inr db'"
    using Cons.prems(1) t by (auto split: sum.splits if_splits)
  have "find_case d2 i = Some (advance dst now c)"
    using move_caseD(2) [OF d1] Cons.prems(2) find_case_insertEvent [OF d2] by auto
  then show ?case using Cons.IH [OF rest] t by simp
qed simp

text \<open>Preparation succeeds from the four states it serves, when the ids are unused.\<close>

definition preparable :: "CaseState \<Rightarrow> bool" where
  "preparable st \<longleftrightarrow> preparation_targets st \<noteq> None"

fun chain :: "CaseState \<Rightarrow> (CaseState \<times> CaseState \<times> EventType) list \<Rightarrow> CaseState \<Rightarrow> bool" where
  "chain st [] dst \<longleftrightarrow> st = dst"
| "chain st ((src, mid, type) # ts) dst \<longleftrightarrow> src = st \<and> CanTransition src mid \<and> chain mid ts dst"

lemma targets_chain: "preparation_targets st = Some ts \<Longrightarrow> chain st ts StateActionPending"
  by (auto simp: preparation_targets_def CanTransition_def split: if_splits)

lemma preparation_loop_ok:
  assumes "well_formed db" and "find_case db i = Some c" and "chain (rc_CurrentState c) targets dst"
    and "rc_Version c = version" and "nextSequence db i = sequence + int index"
    and "inj fresh" and "\<forall>k \<ge> index. fresh k \<notin> ev_ID ` set (db_events db)"
  shows "\<exists>db'. preparation_loop fresh i now sequence index version targets db = Inr db'"
  using assms
proof (induction targets arbitrary: index version db c)
  case (Cons t targets)
  obtain src mid type where t: "t = (src, mid, type)" by (cases t)
  have ct: "CanTransition src mid" and src: "rc_CurrentState c = src" and ch: "chain mid targets dst"
    using Cons.prems(3) t by auto
  let ?e = "preparation_event (fresh index) i version now src mid type"
  define d1 where "d1 = update_case i (advance mid now) db"
  have d1: "move_case i src version mid now db = Inr d1"
    using Cons.prems(2,4) src by (simp add: move_case_def d1_def)
  have w1: "well_formed d1" using lawful_move_case [OF d1 ct] Cons.prems(1) by (simp add: lawful_def)
  have c1: "find_case d1 i = Some (advance mid now c)" using Cons.prems(2) by (simp add: d1_def find_case_update)
  have n1: "nextSequence d1 i = sequence + int index" using Cons.prems(5) by (simp add: nextSequence_def d1_def)
  have e1: "db_events d1 = db_events db" by (simp add: d1_def)
  define d2 where "d2 = d1\<lparr>db_events := db_events d1 @ numbered (nextSequence d1 i) [?e]\<rparr>"
  have "ev_ID ?e = fresh index" by (simp add: preparation_event_def event_of_def)
  then have a: "append_events d1 i [?e] = Inr d2"
    unfolding d2_def using Cons.prems(7) by (intro append_events_ok w1) (auto simp: c1 e1)
  then have d2: "insertEvent d1 (?e\<lparr>ev_Sequence := sequence + int index\<rparr>) = Inr d2"
    by (simp add: append_events_def n1 split: sum.splits)
  have w2: "well_formed d2" using lawful_append_events [OF a] w1 by (simp add: lawful_def)
  have n: "nextSequence d i = int (length (case_log d i)) + 1" if "well_formed d" for d
    using that nextSequence_gap_free by (simp add: well_formed_def gap_free_def)
  have "length (case_log d2 i) = Suc (length (case_log d1 i))" by (simp add: d2_def case_log_def)
  then have n2: "nextSequence d2 i = sequence + int (Suc index)" using n [OF w1] n [OF w2] n1 by simp
  have f: "\<forall>k \<ge> Suc index. fresh k \<notin> ev_ID ` set (db_events d2)"
  proof (intro allI impI)
    fix k assume "Suc index \<le> k"
    then have "fresh k \<notin> ev_ID ` set (db_events db)" "fresh k \<noteq> fresh index"
      using Cons.prems(7) injD [OF \<open>inj fresh\<close>, of k index] by auto
    then show "fresh k \<notin> ev_ID ` set (db_events d2)"
      using \<open>ev_ID ?e = fresh index\<close> by (simp add: d2_def e1)
  qed
  have "find_case d2 i = Some (advance mid now c)" using c1 by (simp add: d2_def find_case_def)
  then have "\<exists>db'. preparation_loop fresh i now sequence (Suc index) (version + 1) targets d2 = Inr db'"
    using Cons.prems(4,6) ch by (intro Cons.IH [OF w2 _ _ _ n2 _ f]) auto
  then show ?case using t ct d1 d2 by simp
qed simp

lemma chain_end: "chain st ts dst \<Longrightarrow> rc_CurrentState c = st \<Longrightarrow>
    rc_CurrentState (fold (\<lambda>(src, dst, type). advance dst now) ts c) = dst
  \<and> rc_Version (fold (\<lambda>(src, dst, type). advance dst now) ts c) = rc_Version c + int (length ts)"
  by (induction st ts dst arbitrary: c rule: chain.induct) auto

lemma preparation_result:
  assumes "well_formed db" and "find_case db i = Some c"
    and "inj fresh" and "\<forall>k. fresh k \<notin> ev_ID ` set (db_events db)"
  shows "(case preparation_targets (rc_CurrentState c) of
      None \<Rightarrow> PrepareForDecision fresh i now db = Inl ErrConflict
    | Some ts \<Rightarrow> \<exists>db' c'. PrepareForDecision fresh i now db = Inr ((), db') \<and> lawful db db'
        \<and> find_case db' i = Some c' \<and> rc_CurrentState c' = StateActionPending
        \<and> rc_Version c' = rc_Version c + int (length ts))"
proof (cases "preparation_targets (rc_CurrentState c)")
  case (Some ts)
  obtain db' where l: "preparation_loop fresh i now (nextSequence db i) 0 (rc_Version c) ts db = Inr db'"
    using preparation_loop_ok [OF assms(1,2) targets_chain [OF Some] refl _ assms(3)] assms(4) by fastforce
  then have p: "PrepareForDecision fresh i now db = Inr ((), db')"
    using Some assms(2) by (simp add: PrepareForDecision_def)
  show ?thesis
    using p lawful_PrepareForDecision [OF p] preparation_loop_path [OF l assms(2)]
      chain_end [OF targets_chain [OF Some] refl] Some by auto
qed (simp add: PrepareForDecision_def assms(2))

section \<open>What a saved decision does to its case\<close>

lemma apply_policy_effect:
  assumes "apply_policy (rc_CurrentState c) s db = Inr db'" and "find_case db (de_CaseID (sn_Decision s)) = Some c"
  shows "db_scheduled db' = db_scheduled db \<and> db_decisions db' = db_decisions db \<and> db_policies db' = db_policies db
     \<and> db_gates db' = db_gates db
     \<and> (\<forall>j. j \<noteq> de_CaseID (sn_Decision s) \<longrightarrow> find_case db' j = find_case db j)
     \<and> find_case db' (de_CaseID (sn_Decision s)) = Some
        (if po_Decision (sn_Policy s) = ''ESCALATE'' then advance StateEscalated (po_CreatedAt (sn_Policy s)) c
         else if po_Decision (sn_Policy s) = ''STOP'' \<and> \<not> IsTerminal (rc_CurrentState c)
           then advance StateStopped (po_CreatedAt (sn_Policy s)) c
         else c)
     \<and> (po_Decision (sn_Policy s) = ''ESCALATE'' \<longrightarrow> rc_CurrentState c = StateActionPending)"
  using assms by (auto simp: apply_policy_def move_case_def Let_def find_case_update update_case_def find_case_def
      lookup_modify split: if_splits option.splits)

text \<open>What scheduling a decision leaves behind.\<close>

lemma scheduled_effect:
  assumes "scheduleDecisionTx fresh now s db = Inr (a, db')" and "find_case db (de_CaseID (sn_Decision s)) = Some c"
  shows "a = schedule_of fresh s (de_CaseVersion (sn_Decision s) + 2) now \<and> rc_CurrentState c = StateActionPending
     \<and> rc_Version c = de_CaseVersion (sn_Decision s)
     \<and> find_case db' (de_CaseID (sn_Decision s)) = Some (advance StateScheduled now (advance StatePolicyReview now c))
     \<and> (\<forall>j. j \<noteq> de_CaseID (sn_Decision s) \<longrightarrow> find_case db' j = find_case db j)
     \<and> db_scheduled db' = db_scheduled db @ [new_scheduled a now]
     \<and> db_decisions db' = db_decisions db \<and> db_policies db' = db_policies db \<and> db_gates db' = db_gates db"
proof -
  obtain c' d1 d2 d3 d4 where a: "a = schedule_of fresh s (de_CaseVersion (sn_Decision s) + 2) now"
    and c': "find_case db (de_CaseID (sn_Decision s)) = Some c'" "rc_CurrentState c' = StateActionPending"
      "rc_Version c' = de_CaseVersion (sn_Decision s)"
    and d1: "insert_action (action_of_schedule a now) db = Inr d1"
    and d2: "move_case (de_CaseID (sn_Decision s)) StateActionPending (de_CaseVersion (sn_Decision s)) StatePolicyReview now d1 = Inr d2"
    and d3: "move_case (de_CaseID (sn_Decision s)) StatePolicyReview (de_CaseVersion (sn_Decision s) + 1) StateScheduled now d2 = Inr d3"
    and d4: "insert_scheduled (new_scheduled a now) d3 = Inr d4"
    and d5: "append_events d4 (de_CaseID (sn_Decision s)) (schedule_events fresh a now) = Inr db'"
    using assms(1) by (rule scheduleDecisionTxD)
  have f: "find_case d1 j = find_case db j" for j
    using inserts_other_tables(5) [OF d1] by (simp add: find_case_def)
  have f4: "find_case db' j = find_case d3 j" for j
    using inserts_other_tables(6) [OF d4] append_events_case [OF d5] by (simp add: find_case_def)
  have "find_case d3 (de_CaseID (sn_Decision s)) = Some (advance StateScheduled now (advance StatePolicyReview now c))"
    using move_caseD(2) [OF d2] move_caseD(2) [OF d3] f assms(2) by auto
  moreover have "find_case d3 j = find_case db j" if "j \<noteq> de_CaseID (sn_Decision s)" for j
    using move_caseD(3) [OF d2 that] move_caseD(3) [OF d3 that] f by simp
  ultimately show ?thesis
    using a c' assms(2) f4 inserts_rows(5) [OF d1] move_caseD(1) [OF d2] move_caseD(1) [OF d3] inserts_rows(6) [OF d4]
      append_events_log [OF d5] by (simp add: update_case_def)
qed

section \<open>The contract of a saved decision\<close>

text \<open>The rows of a decision are in the database.\<close>

definition recorded :: "Snapshot \<Rightarrow> Database \<Rightarrow> bool" where
  "recorded s db \<longleftrightarrow> \<lparr>dr_Decision = sn_Decision s, dr_Context = sn_Context s, dr_Eligibility = sn_Eligibility s\<rparr> \<in> set (db_decisions db)
     \<and> sn_Gate s \<in> set (db_gates db) \<and> sn_Policy s \<in> set (db_policies db)"

text \<open>Abstract outcome of a decision: the case, the returned schedule and the schedule table.\<close>

definition outcome :: "(nat \<Rightarrow> ID) \<Rightarrow> time \<Rightarrow> Snapshot \<Rightarrow> RecoveryCase \<Rightarrow> RecoveryCase \<times> ScheduledAction option" where
  "outcome fresh now s c =
     (let p = sn_Policy s in
      if po_Decision p = ''APPROVE'' \<and> cd_Action (rr_Selected (de_Optimization (sn_Decision s))) \<noteq> ActionWait then
        (advance StateScheduled now (advance StatePolicyReview now c), Some (schedule_of fresh s (rc_Version c + 2) now))
      else if po_Decision p = ''ESCALATE'' then (advance StateEscalated (po_CreatedAt p) c, None)
      else if po_Decision p = ''STOP'' \<and> \<not> IsTerminal (rc_CurrentState c) then (advance StateStopped (po_CreatedAt p) c, None)
      else (c, None))"

lemma save_and_schedule_facts:
  assumes "SaveDecisionAndSchedule fresh now s db = Inr (r, db')" and "find_case db (de_CaseID (sn_Decision s)) = Some c"
  shows "rc_Version c = de_CaseVersion (sn_Decision s) \<and> recorded s db'
     \<and> (find_case db' (de_CaseID (sn_Decision s)), r) = (Some (fst (outcome fresh now s c)), snd (outcome fresh now s c))
     \<and> (\<forall>j. j \<noteq> de_CaseID (sn_Decision s) \<longrightarrow> find_case db' j = find_case db j)
     \<and> db_scheduled db' = db_scheduled db @ (case r of None \<Rightarrow> [] | Some a \<Rightarrow> [new_scheduled a now])
     \<and> (r \<noteq> None \<longrightarrow> po_Decision (sn_Policy s) = ''APPROVE'' \<and> eg_Decision (sn_Gate s) = ''ALLOW'')
     \<and> (r \<noteq> None \<or> po_Decision (sn_Policy s) = ''ESCALATE'' \<longrightarrow> rc_CurrentState c = StateActionPending)"
proof -
  let ?i = "de_CaseID (sn_Decision s)"
  obtain d where d: "saveDecisionTx fresh s db = Inr d"
    using assms(1) by (auto simp: SaveDecisionAndSchedule_def split: sum.splits)
  obtain c0 d0 where c0: "find_case db ?i = Some c0" "rc_Version c0 = de_CaseVersion (sn_Decision s)"
    and a: "append_events (with_decision s db) ?i (decision_events fresh s) = Inr d0"
    and p: "apply_policy (rc_CurrentState c0) s d0 = Inr d" using d by (rule saveDecisionTxD)
  have [simp]: "c0 = c" using c0(1) assms(2) by simp
  have c1: "find_case d0 ?i = Some c" using append_events_case [OF a] assms(2) by simp
  have p': "apply_policy (rc_CurrentState c) s d0 = Inr d" using p by simp
  note e = apply_policy_effect [OF p' c1]
  have rec: "recorded s d" "db_scheduled d = db_scheduled db"
    using e append_events_log [OF a] by (simp_all add: recorded_def with_decision_def)
  have oth: "find_case d j = find_case db j" if "j \<noteq> ?i" for j
    using e append_events_case [OF a] that by simp
  show ?thesis
  proof (cases "po_Decision (sn_Policy s) = ''APPROVE'' \<and> cd_Action (rr_Selected (de_Optimization (sn_Decision s))) \<noteq> ActionWait")
    case True
    then obtain x where x: "eg_Decision (sn_Gate s) = ''ALLOW''" "scheduleDecisionTx fresh now s d = Inr (x, db')" "r = Some x"
      using assms(1) d by (auto simp: SaveDecisionAndSchedule_def split: if_splits sum.splits)
    have c2: "find_case d ?i = Some c" using e True by simp
    show ?thesis using scheduled_effect [OF x(2) c2] x True rec oth by (simp add: outcome_def recorded_def)
  next
    case False
    then have "r = None \<and> db' = d" using assms(1) d by (auto simp: SaveDecisionAndSchedule_def split: if_splits)
    then show ?thesis using False e rec oth c0(2) by (auto simp: outcome_def Let_def)
  qed
qed

text \<open>Neither touches the executions, and the ids of the new events come from \<open>fresh\<close>.\<close>

lemma save_frame:
  assumes "SaveDecisionAndSchedule fresh now s db = Inr (r, db')"
  shows "db_executions db' = db_executions db \<and> ev_ID ` set (db_events db') \<subseteq> ev_ID ` set (db_events db) \<union> range fresh"
proof -
  have num: "ev_ID ` set (numbered n es) = ev_ID ` set es" for n es by (induction es arbitrary: n) auto
  obtain d where d: "saveDecisionTx fresh s db = Inr d"
    using assms by (auto simp: SaveDecisionAndSchedule_def split: sum.splits)
  obtain c d0 where "find_case db (de_CaseID (sn_Decision s)) = Some c" "rc_Version c = de_CaseVersion (sn_Decision s)"
    and a: "append_events (with_decision s db) (de_CaseID (sn_Decision s)) (decision_events fresh s) = Inr d0"
    and p: "apply_policy (rc_CurrentState c) s d0 = Inr d" using d by (rule saveDecisionTxD)
  have "ev_ID ` set (decision_events fresh s) \<subseteq> range fresh" by (auto simp: decision_events_def Let_def event_of_def)
  then have e0: "db_executions d0 = db_executions db" "ev_ID ` set (db_events d0) \<subseteq> ev_ID ` set (db_events db) \<union> range fresh"
    unfolding append_events_log [OF a] by (simp_all add: with_decision_def image_Un num le_supI2)
  have "db_executions d = db_executions d0 \<and> db_events d = db_events d0"
    using p by (auto simp: apply_policy_def Let_def move_case_def split: if_splits option.splits)
  with e0 have e: "db_executions d = db_executions db \<and> ev_ID ` set (db_events d) \<subseteq> ev_ID ` set (db_events db) \<union> range fresh"
    by simp
  have "d = db' \<or> (\<exists>a. scheduleDecisionTx fresh now s d = Inr (a, db'))"
    using assms d by (auto simp: SaveDecisionAndSchedule_def split: sum.splits if_splits prod.splits)
  then show ?thesis
  proof
    assume "\<exists>a. scheduleDecisionTx fresh now s d = Inr (a, db')"
    then obtain a where "scheduleDecisionTx fresh now s d = Inr (a, db')" by blast
    then show ?thesis
    proof (rule scheduleDecisionTxD)
      fix c d1 d2 d3 d4
      assume i: "insert_action (action_of_schedule a now) d = Inr d1"
        "move_case (de_CaseID (sn_Decision s)) StateActionPending (de_CaseVersion (sn_Decision s)) StatePolicyReview now d1 = Inr d2"
        "move_case (de_CaseID (sn_Decision s)) StatePolicyReview (de_CaseVersion (sn_Decision s) + 1) StateScheduled now d2 = Inr d3"
        "insert_scheduled (new_scheduled a now) d3 = Inr d4"
        "append_events d4 (de_CaseID (sn_Decision s)) (schedule_events fresh a now) = Inr db'"
      have "ev_ID ` set (schedule_events fresh a now) \<subseteq> range fresh" by (auto simp: schedule_events_def Let_def event_of_def)
      moreover have "db_events d4 = db_events d" "db_executions d4 = db_executions d"
        using inserts_rows(5) [OF i(1)] move_caseD(1) [OF i(2)] move_caseD(1) [OF i(3)] inserts_rows(6) [OF i(4)] by simp_all
      ultimately show ?thesis
        unfolding append_events_log [OF i(5)] using e by (simp add: image_Un num le_supI2)
    qed
  qed (use e in simp)
qed

lemmas save_executions = save_frame [THEN conjunct1]
lemmas save_event_ids = save_frame [THEN conjunct2]

lemma save_rows:
  assumes "SaveDecisionAndSchedule fresh now s db = Inr (r, db')"
  shows "db_decisions db' = db_decisions db @ [\<lparr>dr_Decision = sn_Decision s, dr_Context = sn_Context s, dr_Eligibility = sn_Eligibility s\<rparr>]
     \<and> db_gates db' = db_gates db @ [sn_Gate s] \<and> db_policies db' = db_policies db @ [sn_Policy s]
     \<and> lookup (\<lambda>x. de_ID (dr_Decision x)) (de_ID (sn_Decision s)) (db_decisions db) = None
     \<and> lookup po_ID (po_ID (sn_Policy s)) (db_policies db) = None
     \<and> distinct (map cd_Action (rr_Candidates (de_Optimization (sn_Decision s))))"
proof -
  obtain d where d: "saveDecisionTx fresh s db = Inr d"
    using assms by (auto simp: SaveDecisionAndSchedule_def split: sum.splits)
  obtain c where c: "find_case db (de_CaseID (sn_Decision s)) = Some c" "rc_Version c = de_CaseVersion (sn_Decision s)"
    using d by (auto simp: saveDecisionTx_def split: option.splits if_splits)
  obtain c1 d0 where c1: "find_case db (de_CaseID (sn_Decision s)) = Some c1" "rc_Version c1 = de_CaseVersion (sn_Decision s)"
    and a: "append_events (with_decision s db) (de_CaseID (sn_Decision s)) (decision_events fresh s) = Inr d0"
    and p: "apply_policy (rc_CurrentState c1) s d0 = Inr d" using d by (rule saveDecisionTxD)
  have "find_case d0 (de_CaseID (sn_Decision s)) = Some c1" using append_events_case [OF a] c1 by simp
  note e = apply_policy_effect [OF p this]
  obtain d1 where d1: "insert_natural (sn_Natural s) db = Inr d1"
    using d c by (auto simp: saveDecisionTx_def split: sum.splits)
  obtain d2 where d2: "insert_decision \<lparr>dr_Decision = sn_Decision s, dr_Context = sn_Context s, dr_Eligibility = sn_Eligibility s\<rparr> d1 = Inr d2"
    using d c d1 by (auto simp: saveDecisionTx_def split: sum.splits)
  obtain d3 where d3: "insert_gate (sn_Gate s) d2 = Inr d3"
    using d c d1 d2 by (auto simp: saveDecisionTx_def split: sum.splits)
  obtain d4 where d4: "insert_policy (sn_Policy s) d3 = Inr d4"
    using d c d1 d2 d3 by (auto simp: saveDecisionTx_def split: sum.splits)
  have k: "lookup (\<lambda>x. de_ID (dr_Decision x)) (de_ID (sn_Decision s)) (db_decisions d1) = None"
    "distinct (map cd_Action (rr_Candidates (de_Optimization (sn_Decision s))))"
    using d2 by (auto simp: insert_decision_def insert_row_Inr Let_def lookup_None list_ex_iff split: sum.splits if_splits)
  have k': "lookup po_ID (po_ID (sn_Policy s)) (db_policies d3) = None"
    using d4 by (auto simp: insert_policy_def insert_row_Inr lookup_None list_ex_iff split: sum.splits if_splits)
  have rows: "db_decisions d = db_decisions db @ [\<lparr>dr_Decision = sn_Decision s, dr_Context = sn_Context s, dr_Eligibility = sn_Eligibility s\<rparr>]"
    "db_gates d = db_gates db @ [sn_Gate s]" "db_policies d = db_policies db @ [sn_Policy s]"
    using e append_events_log [OF a] by (simp_all add: with_decision_def)
  have "d = db' \<or> (\<exists>a. scheduleDecisionTx fresh now s d = Inr (a, db'))"
    using assms d by (auto simp: SaveDecisionAndSchedule_def split: sum.splits if_splits prod.splits)
  moreover have "db_decisions db' = db_decisions d \<and> db_gates db' = db_gates d \<and> db_policies db' = db_policies d"
    if "scheduleDecisionTx fresh now s d = Inr (a, db')" for a
    using scheduled_effect [OF that] e by blast
  ultimately have "db_decisions db' = db_decisions d \<and> db_gates db' = db_gates d \<and> db_policies db' = db_policies d" by blast
  then show ?thesis
    using rows k k' inserts_rows(1) [OF d1] inserts_rows(2) [OF d2] inserts_rows(3) [OF d3] by simp
qed

lemma outcome_version:
  "r = snd (outcome fresh now s c) \<Longrightarrow> r \<noteq> None \<Longrightarrow> rc_Version (fst (outcome fresh now s c)) = rc_Version c + 2"
  by (auto simp: outcome_def Let_def split: if_splits)

lemma stale_decision:
  "find_case db (de_CaseID (sn_Decision s)) = Some c \<Longrightarrow> rc_Version c \<noteq> de_CaseVersion (sn_Decision s) \<Longrightarrow>
   SaveDecisionAndSchedule fresh now s db = Inl ErrConflict"
  by (simp add: SaveDecisionAndSchedule_def saveDecisionTx_def)

section \<open>Examples\<close>

definition pending_db :: Database where
  "pending_db = shop_db\<lparr>db_cases := [created_case\<lparr>rc_CurrentState := StateActionPending\<rparr>]\<rparr>"

definition example_snapshot :: "ActionType \<Rightarrow> string \<Rightarrow> Snapshot" where
  "example_snapshot a verdict =
     \<lparr>sn_Decision = \<lparr>de_ID = ''d1'', de_CaseID = rc_ID created_case, de_CaseVersion = 1, de_ContextVersion = ''v1'',
        de_OutcomeModelVersion = ''outcome-v1'', de_NaturalModelVersion = ''natural-v1'',
        de_Optimization = \<lparr>rr_OptimizerVersion = ''o'', rr_CostModelVersion = ''c'', rr_MerchantObjective = ''BALANCED'',
          rr_Candidates = [example_candidate a], rr_Selected = example_candidate a, rr_CreatedAt = 0,
          rr_MerchantProfileID = [], rr_MerchantProfileVersion = 0\<rparr>\<rparr>,
      sn_Natural = \<lparr>ns_ID = ''n1'', ns_CaseID = rc_ID created_case, ns_CaseVersion = 1, ns_ContextVersion = ''v1'',
        ns_Probability = 1 / 4, ns_ModelVersion = ''natural-v1'', ns_FeatureVersion = [], ns_PredictedAt = 0\<rparr>,
      sn_Context = contact_example, sn_Eligibility = Eligibility.Evaluate contact_example,
      sn_Gate = \<lparr>eg_ID = ''g1'', eg_DecisionID = ''d1'', eg_CaseID = rc_ID created_case, eg_Action = a, eg_NERVMinor = 100,
        eg_ThresholdMinor = 0, eg_Decision = ''ALLOW'', eg_Reason = ''POSITIVE'', eg_GateVersion = ''g'', eg_CreatedAt = 0\<rparr>,
      sn_Policy = \<lparr>po_ID = ''p1'', po_DecisionID = ''d1'', po_EconomicGateID = ''g1'', po_CaseID = rc_ID created_case,
        po_CaseVersion = 1, po_SelectedAction = a, po_PolicyVersion = ''p'', po_Decision = verdict, po_ReasonCodes = [],
        po_Checks = Map.empty, po_CreatedAt = 0\<rparr>\<rparr>"

lemma created_case_facts: "rc_ID created_case = ids CHR ''a'' 1" "rc_Version created_case = 1" "rc_CurrentState created_case = StateDetected"
  by (simp_all add: created_case_def Let_def service_CreateCase_def example_input_def CreateCase_def insert_case_def
      case_of_input_def shop_db_def empty_db_def find_case_def lookup_Cons insertEvent_def newEvent_def event_of_def
      Hour_def TrimSpace_def is_space_def IsValid_def)

lemma example_scheduled:
  "\<exists>a db. SaveDecisionAndSchedule (ids CHR ''b'') 0 (example_snapshot ActionSendReminder ''APPROVE'') pending_db = Inr (Some a, db)"
  by (simp add: SaveDecisionAndSchedule_def saveDecisionTx_def example_snapshot_def pending_db_def shop_db_def empty_db_def
      find_case_def lookup_Cons created_case_facts insert_natural_def insert_row_def insert_decision_def candidate_row_ok_def
      example_candidate_def insert_gate_def insert_policy_def append_events_def decision_events_def insertEvent_def
      nextSequence_def event_of_def apply_policy_def scheduleDecisionTx_def insert_action_def insert_scheduled_def
      move_case_def update_case_def modify_def advance_def Let_def schedule_events_def declared_actions_def
      action_of_schedule_def schedule_of_def policy_event_def)

definition scheduled_db :: Database where
  "scheduled_db = snd (projr (SaveDecisionAndSchedule (ids CHR ''b'') 0 (example_snapshot ActionSendReminder ''APPROVE'') pending_db))"

definition scheduled_action :: ScheduledAction where
  "scheduled_action = the (fst (projr (SaveDecisionAndSchedule (ids CHR ''b'') 0
     (example_snapshot ActionSendReminder ''APPROVE'') pending_db)))"

lemma scheduled: "SaveDecisionAndSchedule (ids CHR ''b'') 0 (example_snapshot ActionSendReminder ''APPROVE'') pending_db
    = Inr (Some scheduled_action, scheduled_db)"
  using example_scheduled by (auto simp: scheduled_db_def scheduled_action_def)

lemma pending_found: "find_case pending_db (de_CaseID (sn_Decision (example_snapshot a v)))
    = Some (created_case\<lparr>rc_CurrentState := StateActionPending\<rparr>)"
  by (simp add: pending_db_def find_case_def lookup_Cons example_snapshot_def)

lemma pending_well_formed: "well_formed pending_db"
  by (simp add: well_formed_def keyed_def sources_distinct_def gap_free_def case_log_def pending_db_def shop_db_def
      empty_db_def IsValid_def)

text \<open>C3. Persisting a decision implements its abstract outcome exactly: the decision, gate and policy
  rows are stored; an approved contact or retry moves the case from ACTION_PENDING to SCHEDULED,
  two versions on, with one pending row of the schedule pinned to that version; an escalation
  or a stop moves the case to ESCALATED or STOPPED; a denial or an approved WAIT leaves it.
  Nothing is scheduled without APPROVE and ALLOW, and no other case is touched.\<close>

theorem decision_refines_outcome:
  assumes "SaveDecisionAndSchedule fresh now s db = Inr (r, db')" and "find_case db (de_CaseID (sn_Decision s)) = Some c"
  shows "rc_Version c = de_CaseVersion (sn_Decision s) \<and> recorded s db'
     \<and> (find_case db' (de_CaseID (sn_Decision s)), r) = (Some (fst (outcome fresh now s c)), snd (outcome fresh now s c))
     \<and> (\<forall>j. j \<noteq> de_CaseID (sn_Decision s) \<longrightarrow> find_case db' j = find_case db j)
     \<and> db_scheduled db' = db_scheduled db @ (case r of None \<Rightarrow> [] | Some a \<Rightarrow> [new_scheduled a now])
     \<and> (r \<noteq> None \<longrightarrow> po_Decision (sn_Policy s) = ''APPROVE'' \<and> eg_Decision (sn_Gate s) = ''ALLOW'')
     \<and> (r \<noteq> None \<or> po_Decision (sn_Policy s) = ''ESCALATE'' \<longrightarrow> rc_CurrentState c = StateActionPending)"
  by (rule save_and_schedule_facts [OF assms])

theorem decision_refines_outcome_witness:
  "db_scheduled scheduled_db = [new_scheduled scheduled_action 0] \<and> recorded (example_snapshot ActionSendReminder ''APPROVE'') scheduled_db"
  using decision_refines_outcome [OF scheduled pending_found] by (simp add: pending_db_def shop_db_def empty_db_def)

text \<open>One schedule per case version: when two decisions were made for the same version of a case
  and one of them has been scheduled, persisting the other is refused with a conflict.\<close>

theorem decision_schedules_once:
  assumes "SaveDecisionAndSchedule fresh now s db = Inr (Some a, db')" and "well_formed db"
    and "de_CaseID (sn_Decision s2) = de_CaseID (sn_Decision s)"
    and "de_CaseVersion (sn_Decision s2) = de_CaseVersion (sn_Decision s)"
  shows "SaveDecisionAndSchedule fresh2 now2 s2 db' = Inl ErrConflict
     \<and> sa_CaseVersionAtSchedule a = de_CaseVersion (sn_Decision s) + 2 \<and> well_formed db'"
proof -
  obtain c where c: "find_case db (de_CaseID (sn_Decision s)) = Some c"
    using assms(1) by (auto simp: SaveDecisionAndSchedule_def saveDecisionTx_def split: option.splits)
  note f = save_and_schedule_facts [OF assms(1) c]
  then have o: "Some a = snd (outcome fresh now s c)" by simp
  then have "rc_Version (fst (outcome fresh now s c)) = rc_Version c + 2" using outcome_version [OF o] by blast
  then have "SaveDecisionAndSchedule fresh2 now2 s2 db' = Inl ErrConflict"
    using f assms(3,4) by (intro stale_decision) auto
  moreover have "sa_CaseVersionAtSchedule a = rc_Version c + 2"
    using o by (auto simp: outcome_def Let_def split: if_splits)
  ultimately show ?thesis
    using f lawful_SaveDecisionAndSchedule [OF assms(1)] assms(2) by (simp add: lawful_def)
qed

theorem decision_schedules_once_witness:
  "SaveDecisionAndSchedule (ids CHR ''c'') 1 (example_snapshot ActionRetryNow ''APPROVE'') scheduled_db = Inl ErrConflict"
  using decision_schedules_once [OF scheduled pending_well_formed, of "example_snapshot ActionRetryNow ''APPROVE''"]
  by (simp add: example_snapshot_def)

text \<open>Preparation is total: with unused ids it succeeds from DETECTED, DIAGNOSING, REASSESSING and
  ACTION_PENDING, ends in ACTION_PENDING along declared transitions with one version and one
  event per step, keeping every invariant of the store; from any other state it is refused
  with a conflict.\<close>

theorem preparation_is_total:
  assumes "well_formed db" and "find_case db i = Some c"
    and "inj fresh" and "\<forall>k. fresh k \<notin> ev_ID ` set (db_events db)"
  shows "(case preparation_targets (rc_CurrentState c) of
      None \<Rightarrow> PrepareForDecision fresh i now db = Inl ErrConflict
    | Some ts \<Rightarrow> \<exists>db' c'. PrepareForDecision fresh i now db = Inr ((), db') \<and> lawful db db'
        \<and> find_case db' i = Some c' \<and> rc_CurrentState c' = StateActionPending
        \<and> rc_Version c' = rc_Version c + int (length ts))"
  by (rule preparation_result [OF assms])

theorem preparation_is_total_witness:
  "(\<exists>db c. PrepareForDecision (ids CHR ''b'') (rc_ID created_case) 0 created_db = Inr ((), db)
     \<and> find_case db (rc_ID created_case) = Some c \<and> rc_CurrentState c = StateActionPending \<and> rc_Version c = 3)"
proof -
  have "inj (ids CHR ''b'')" by (simp add: inj_def)
  moreover have "\<forall>k. ids CHR ''b'' k \<notin> ev_ID ` set (db_events created_db)"
    by (simp add: created_db_def Let_def service_CreateCase_def example_input_def CreateCase_def insert_case_def
      case_of_input_def shop_db_def empty_db_def find_case_def lookup_Cons insertEvent_def newEvent_def event_of_def
      Hour_def TrimSpace_def is_space_def IsValid_def)
  moreover have "find_case created_db (rc_ID created_case) = Some created_case"
    using create_case_facts [OF created shop_well_formed] by blast
  ultimately show ?thesis
    using preparation_is_total [OF created_well_formed, of "rc_ID created_case" created_case "ids CHR ''b''" 0]
    by (simp add: created_case_facts preparation_targets_def) blast
qed

end
