(* ===== verification/Workflow_Store.thy ===== *)
theory Workflow_Store
  imports Lease Decision_Store
begin

text \<open>
  The worker's transactions of \<open>internal/store/workflow.go\<close>: claiming due work and due
  observations under a lease, loading the authorization, marking, completing and suppressing
  an execution, preparing a reassessment, and the two outboxes of the local executors.
\<close>

section \<open>Claims\<close>

definition due_at :: "ScheduledRow \<Rightarrow> time" where
  "due_at r = (case sa_NextRetryAt r of Some t \<Rightarrow> t | None \<Rightarrow> sa_ScheduledFor r)"

definition lease_over :: "time \<Rightarrow> time option \<Rightarrow> bool" where
  "lease_over now expires = (case expires of None \<Rightarrow> False | Some t \<Rightarrow> t \<le> now)"

definition work_ready :: "time \<Rightarrow> ScheduledRow \<Rightarrow> bool" where
  "work_ready now r \<longleftrightarrow> sa_Status r \<in> {SPending, SRetryPending, SClaimed, SExecuting} \<and> due_at r \<le> now
     \<and> (sa_Status r \<notin> {SClaimed, SExecuting} \<or> lease_over now (sr_LeaseExpiresAt r))"

definition grant_work :: "string \<Rightarrow> time \<Rightarrow> duration \<Rightarrow> ScheduledRow \<Rightarrow> ScheduledRow" where
  "grant_work worker now lease r = r\<lparr>sa_Status := SClaimed, sr_LeaseOwner := Some worker,
     sr_LeaseExpiresAt := Some (now + lease), sa_AttemptCount := sa_AttemptCount r + 1\<rparr>"

definition ClaimDue :: "string \<Rightarrow> time \<Rightarrow> duration \<Rightarrow> ScheduledAction tx" where
  "ClaimDue worker now lease db =
     (case claim (work_ready now) due_at sa_ID (grant_work worker now lease) (db_scheduled db) of
        None \<Rightarrow> Inl ErrNoDueWork
      | Some (r, t) \<Rightarrow> Inr (ScheduledAction.truncate r, db\<lparr>db_scheduled := t\<rparr>))"

text \<open>\<open>next_retry_at <= now\<close> is not true of a NULL.\<close>

definition observation_due :: "ScheduledRow \<Rightarrow> time" where
  "observation_due r = (case sa_NextRetryAt r of Some t \<Rightarrow> t | None \<Rightarrow> 0)"

definition observation_ready :: "time \<Rightarrow> ScheduledRow \<Rightarrow> bool" where
  "observation_ready now r \<longleftrightarrow> sa_Status r \<in> {SObservationPending, SObservationClaimed}
     \<and> (case sa_NextRetryAt r of None \<Rightarrow> False | Some t \<Rightarrow> t \<le> now)
     \<and> (sa_Status r \<noteq> SObservationClaimed \<or> lease_over now (sr_LeaseExpiresAt r))"

definition grant_observation :: "string \<Rightarrow> time \<Rightarrow> duration \<Rightarrow> ScheduledRow \<Rightarrow> ScheduledRow" where
  "grant_observation worker now lease r = r\<lparr>sa_Status := SObservationClaimed, sr_LeaseOwner := Some worker,
     sr_LeaseExpiresAt := Some (now + lease)\<rparr>"

definition ClaimDueObservation :: "string \<Rightarrow> time \<Rightarrow> duration \<Rightarrow> ScheduledAction tx" where
  "ClaimDueObservation worker now lease db =
     (case claim (observation_ready now) observation_due sa_ID (grant_observation worker now lease) (db_scheduled db) of
        None \<Rightarrow> Inl ErrNoDueObservation
      | Some (r, t) \<Rightarrow> Inr (ScheduledAction.truncate r, db\<lparr>db_scheduled := t\<rparr>))"

interpretation work: lease_queue work_ready due_at sa_ID grant_work
  by unfold_locales (auto simp: work_ready_def grant_work_def lease_over_def)

interpretation observation: lease_queue observation_ready observation_due sa_ID grant_observation
  by unfold_locales (auto simp: observation_ready_def grant_observation_def lease_over_def)

section \<open>Authorization\<close>

text \<open>\<open>orchestrator.Authorization\<close>\<close>

record Authorization =
  au_DecisionCaseVersion :: int
  au_Candidate :: Candidate
  au_Gate :: GateResult
  au_HumanApproved :: bool

text \<open>
  The join of a decision with its selected candidate and its gate evaluation, first matching
  row of each; \<open>ErrNoRows\<close> when the join is empty.
\<close>

definition LoadAuthorization :: "ID \<Rightarrow> ID \<Rightarrow> Database \<Rightarrow> (error, Authorization) result" where
  "LoadAuthorization decisionID policyEvaluationID db =
     (case lookup (\<lambda>r. de_ID (dr_Decision r)) decisionID (db_decisions db) of None \<Rightarrow> Inl ErrNoRows
      | Some r \<Rightarrow>
          (let opt = de_Optimization (dr_Decision r) in
           case lookup cd_Action (cd_Action (rr_Selected opt)) (rr_Candidates opt) of None \<Rightarrow> Inl ErrNoRows
           | Some c \<Rightarrow>
               (case lookup eg_DecisionID decisionID (db_gates db) of None \<Rightarrow> Inl ErrNoRows
                | Some g \<Rightarrow> Inr \<lparr>au_DecisionCaseVersion = de_CaseVersion (dr_Decision r), au_Candidate = c, au_Gate = g,
                    au_HumanApproved = list_ex (\<lambda>p. po_ID p = policyEvaluationID \<and> po_Decision p = ''APPROVE''
                      \<and> ''HUMAN_APPROVAL_SATISFIED'' \<in> set (po_ReasonCodes p)) (db_policies db)\<rparr>)))"

section \<open>Executing\<close>

definition update_scheduled :: "ID \<Rightarrow> (ScheduledRow \<Rightarrow> ScheduledRow) \<Rightarrow> Database \<Rightarrow> Database" where
  "update_scheduled i f db = db\<lparr>db_scheduled := modify sa_ID i f (db_scheduled db)\<rparr>"

definition MarkExecuting :: "ScheduledAction \<Rightarrow> time \<Rightarrow> unit tx" where
  "MarkExecuting scheduled now db =
     (case lookup sa_ID (sa_ID scheduled) (db_scheduled db) of None \<Rightarrow> Inl ErrConflict
      | Some r \<Rightarrow>
          if sa_Status r \<noteq> SClaimed then Inl ErrConflict
          else
            (let db = update_scheduled (sa_ID scheduled) (\<lambda>r. r\<lparr>sa_Status := SExecuting,
                   sr_StartedAt := (case sr_StartedAt r of None \<Rightarrow> Some now | Some t \<Rightarrow> Some t)\<rparr>) db in
             case find_case db (sa_CaseID scheduled) of None \<Rightarrow> Inl ErrNoRows
             | Some c \<Rightarrow>
                 if rc_CurrentState c = StateScheduled then
                   Inr ((), update_scheduled (sa_ID scheduled) (\<lambda>r. r\<lparr>sa_CaseVersionAtSchedule := rc_Version c + 1\<rparr>)
                          (update_case (sa_CaseID scheduled) (advance StateExecuting now) db))
                 else Inr ((), db)))"

text \<open>\<open>INSERT INTO executions ... ON CONFLICT(idempotency_key) DO NOTHING\<close>\<close>

definition execution_of :: "ScheduledAction \<Rightarrow> ExecResult \<Rightarrow> string \<Rightarrow> time \<Rightarrow> Execution" where
  "execution_of scheduled result status now =
     \<lparr>ex_ID = er_ExecutionID result, ex_CaseID = sa_CaseID scheduled, ex_ActionID = sa_RecoveryActionID scheduled,
      ex_Attempt = sa_AttemptCount scheduled, ex_Status = status, ex_ProviderReference = er_ProviderReference result,
      ex_Response = result, ex_StartedAt = now, ex_CompletedAt = Some now, ex_ScheduledActionID = sa_ID scheduled,
      ex_IdempotencyKey = sa_IdempotencyKey scheduled @ '':'' @ itoa (sa_AttemptCount scheduled),
      ex_FailureClass = er_FailureClass result, ex_Retryable = er_Retryable result\<rparr>"

definition insert_execution :: "Execution \<Rightarrow> Database \<Rightarrow> (error, Database) result" where
  "insert_execution x db =
     (if ex_Attempt x \<le> 0 then Inl (ErrConstraint ''executions_attempt_check'')
      else if list_ex (\<lambda>y. ex_IdempotencyKey y = ex_IdempotencyKey x) (db_executions db) then Inr db
      else if list_ex (\<lambda>y. ex_ID y = ex_ID x \<or> ex_ActionID y = ex_ActionID x \<and> ex_Attempt y = ex_Attempt x) (db_executions db)
        then Inl (ErrConstraint ''executions_key'')
      else Inr (db\<lparr>db_executions := db_executions db @ [x]\<rparr>))"

definition execution_status :: "ExecResult \<Rightarrow> string" where
  "execution_status result =
     (if er_Status result \<noteq> ''SUCCEEDED'' \<and> er_Status result \<noteq> ''OUTCOME_PENDING'' then ''FAILED'' else er_Status result)"

text \<open>\<open>time.Duration(1<<min(attempt-1, 6)) * time.Minute\<close>\<close>

definition retry_delay :: "int \<Rightarrow> duration" where
  "retry_delay attempt = 2 ^ nat (min (attempt - 1) 6) * Minute"

text \<open>What the end of an execution does to its case: two steps for a failure, one otherwise.\<close>

definition settle_case :: "ID \<Rightarrow> bool \<Rightarrow> time \<Rightarrow> RecoveryCase \<Rightarrow> Database \<Rightarrow> Database" where
  "settle_case i unsuccessful now c db =
     (if rc_CurrentState c \<noteq> StateExecuting then db
      else if unsuccessful then update_case i (advance StateActionPending now) (update_case i (advance StateReassessing now) db)
      else update_case i (advance StateWaitingOutcome now) db)"

definition execution_event :: "(nat \<Rightarrow> ID) \<Rightarrow> ScheduledAction \<Rightarrow> ExecResult \<Rightarrow> string \<Rightarrow> time \<Rightarrow> RecoveryEvent" where
  "execution_event fresh scheduled result status now =
     event_of (fresh 0) (sa_CaseID scheduled) (if status = ''FAILED'' then EventActionFailed else EventActionExecuted) now
       (worker_actor ''durable-worker-v1'')
       (Some (JObj [(''execution_id'', JStr (er_ExecutionID result)), (''failure_class'', JStr (er_FailureClass result)),
          (''retryable'', JBool (er_Retryable result)), (''scheduled_action_id'', JStr (sa_ID scheduled)),
          (''status'', JStr status)])) (sa_ID scheduled)"

definition will_retry :: "ScheduledAction \<Rightarrow> ExecResult \<Rightarrow> bool" where
  "will_retry scheduled result \<longleftrightarrow> execution_status result = ''FAILED'' \<and> er_Retryable result
     \<and> sa_AttemptCount scheduled < sa_MaxAttempts scheduled"

text \<open>The row of the schedule after a failure that will be retried, and once the execution is final.\<close>

definition retried_row :: "time \<Rightarrow> ScheduledAction \<Rightarrow> ExecResult \<Rightarrow> ScheduledRow \<Rightarrow> ScheduledRow" where
  "retried_row now a result r = r\<lparr>sa_Status := SRetryPending,
     sa_NextRetryAt := Some (now + retry_delay (sa_AttemptCount a)), sr_LeaseOwner := None,
     sr_LeaseExpiresAt := None, sr_FailureReason := Some (er_FailureClass result)\<rparr>"

definition finished_row :: "time \<Rightarrow> bool \<Rightarrow> ExecResult \<Rightarrow> ScheduledRow \<Rightarrow> ScheduledRow" where
  "finished_row now failing result r = r\<lparr>sa_Status := (if failing then SFailed else SObservationPending),
     sr_CompletedAt := Some now, sa_NextRetryAt := (if failing then None else Some (now + 24 * Hour)),
     sr_LeaseOwner := None, sr_LeaseExpiresAt := None,
     sr_FailureReason := (if er_FailureClass result = [] then None else Some (er_FailureClass result))\<rparr>"

text \<open>The rows of the schedule and of the action once the execution is final.\<close>

definition finish_rows :: "ScheduledAction \<Rightarrow> ExecResult \<Rightarrow> bool \<Rightarrow> time \<Rightarrow> Database \<Rightarrow> Database" where
  "finish_rows scheduled result unsuccessful now db =
     (let db = update_scheduled (sa_ID scheduled) (finished_row now unsuccessful result) db
      in db\<lparr>db_actions := modify ra_ID (sa_RecoveryActionID scheduled)
             (\<lambda>a. a\<lparr>ra_Status := (if unsuccessful then ''FAILED'' else ''EXECUTED''), ra_UpdatedAt := now\<rparr>) (db_actions db)\<rparr>)"

definition CompleteExecution :: "(nat \<Rightarrow> ID) \<Rightarrow> ScheduledAction \<Rightarrow> ExecResult \<Rightarrow> time \<Rightarrow> unit tx" where
  "CompleteExecution fresh scheduled result now db =
     (let status = execution_status result; unsuccessful = (status = ''FAILED'') in
      case insert_execution (execution_of scheduled result status now) db of Inl e \<Rightarrow> Inl e
      | Inr db \<Rightarrow>
          if will_retry scheduled result then
            Inr ((), update_scheduled (sa_ID scheduled) (retried_row now scheduled result) db)
          else
            (let db = finish_rows scheduled result unsuccessful now db in
             case find_case db (sa_CaseID scheduled) of None \<Rightarrow> Inl ErrNoRows
             | Some c \<Rightarrow>
                 (case append_events (settle_case (sa_CaseID scheduled) unsuccessful now c db) (sa_CaseID scheduled)
                         [execution_event fresh scheduled result status now] of
                    Inl e \<Rightarrow> Inl e | Inr db \<Rightarrow> Inr ((), db))))"

definition suppressed_row :: "string \<Rightarrow> time \<Rightarrow> ScheduledRow \<Rightarrow> ScheduledRow" where
  "suppressed_row reason now r = (if sa_Status r \<in> {SClaimed, SPending, SRetryPending}
     then r\<lparr>sa_Status := SSuperseded, sr_FailureReason := Some reason, sr_CompletedAt := Some now,
            sr_LeaseOwner := None, sr_LeaseExpiresAt := None\<rparr> else r)"

definition suppression_event :: "(nat \<Rightarrow> ID) \<Rightarrow> ScheduledAction \<Rightarrow> string \<Rightarrow> time \<Rightarrow> RecoveryEvent" where
  "suppression_event fresh a reason now = event_of (fresh 0) (sa_CaseID a) EventActionSuppressed now
     (worker_actor ''durable-worker-v1'')
     (Some (JObj [(''reason'', JStr reason), (''scheduled_action_id'', JStr (sa_ID a))])) (sa_ID a)"

definition MarkSuppressed :: "(nat \<Rightarrow> ID) \<Rightarrow> ScheduledAction \<Rightarrow> string \<Rightarrow> time \<Rightarrow> unit tx" where
  "MarkSuppressed fresh a reason now db =
     (case append_events (update_scheduled (sa_ID a) (suppressed_row reason now) db) (sa_CaseID a)
        [suppression_event fresh a reason now] of Inl e \<Rightarrow> Inl e | Inr db \<Rightarrow> Inr ((), db))"

section \<open>Observing\<close>

definition observe_case :: "ID \<Rightarrow> time \<Rightarrow> RecoveryCase \<Rightarrow> Database \<Rightarrow> bool \<times> string \<times> Database" where
  "observe_case i now c db =
     (if rc_CurrentState c = StateWaitingOutcome then
        (if rc_RecoveryDeadline c \<le> now then (False, ''RECOVERY_WINDOW_EXPIRED'', update_case i (advance StateExhausted now) db)
         else (True, ''NO_RECOVERY_OBSERVED'',
               update_case i (advance StateActionPending now) (update_case i (advance StateReassessing now) db)))
      else (False, (if rc_CurrentState c = StateRecovered then ''RECOVERED_BEFORE_TIMEOUT'' else ''NO_RECOVERY_OBSERVED''), db))"

definition PrepareReassessment :: "(nat \<Rightarrow> ID) \<Rightarrow> ScheduledAction \<Rightarrow> time \<Rightarrow> bool tx" where
  "PrepareReassessment fresh scheduled now db =
     (case find_case db (sa_CaseID scheduled) of None \<Rightarrow> Inl ErrNoRows
      | Some c \<Rightarrow>
          (let (ready, outcome, db) = observe_case (sa_CaseID scheduled) now c db;
               db = update_scheduled (sa_ID scheduled) (\<lambda>r. if sa_Status r = SObservationClaimed
                 then r\<lparr>sa_Status := SObserved, sr_LeaseOwner := None, sr_LeaseExpiresAt := None\<rparr> else r) db
           in case append_events db (sa_CaseID scheduled) [event_of (fresh 0) (sa_CaseID scheduled) EventOutcomeObserved now
                (worker_actor ''outcome-observer-v1'') (Some (JObj [(''outcome'', JStr outcome),
                  (''reassessment_ready'', JBool ready), (''scheduled_action_id'', JStr (sa_ID scheduled))])) (sa_ID scheduled)] of
                Inl e \<Rightarrow> Inl e | Inr db \<Rightarrow> Inr (ready, db)))"

section \<open>Outboxes\<close>

text \<open>\<open>CaptureEmail\<close>, the fields of \<open>executor.Request\<close> it reads as arguments.\<close>

definition CaptureEmail :: "ID \<Rightarrow> ID \<Rightarrow> string \<Rightarrow> string \<Rightarrow> string \<Rightarrow> RawMessage \<Rightarrow> (ID \<times> bool) tx" where
  "CaptureEmail newID scheduledID key recipient template payload db =
     (case lookup dl_IdempotencyKey key (db_deliveries db) of Some d \<Rightarrow> Inr ((dl_ID d, False), db)
      | None \<Rightarrow>
          if list_ex (\<lambda>d. dl_ID d = newID) (db_deliveries db) then Inl (ErrConstraint ''email_deliveries_pkey'')
          else if lookup sa_ID scheduledID (db_scheduled db) = None
            then Inl (ErrConstraint ''email_deliveries_scheduled_action_id_fkey'')
          else Inr ((newID, True), db\<lparr>db_deliveries := db_deliveries db @
            [\<lparr>dl_ID = newID, dl_ScheduledActionID = scheduledID, dl_IdempotencyKey = key, dl_Recipient = recipient,
              dl_Template = template, dl_Payload = payload\<rparr>]\<rparr>))"

definition RequestRetry :: "ID \<Rightarrow> string \<Rightarrow> RawMessage \<Rightarrow> ID tx" where
  "RequestRetry newID key payload db =
     (case lookup rq_IdempotencyKey key (db_retry_requests db) of Some q \<Rightarrow> Inr (rq_ID q, db)
      | None \<Rightarrow>
          if list_ex (\<lambda>q. rq_ID q = newID) (db_retry_requests db) then Inl (ErrConstraint ''retry_requests_pkey'')
          else Inr (newID, db\<lparr>db_retry_requests := db_retry_requests db @
            [\<lparr>rq_ID = newID, rq_IdempotencyKey = key, rq_Payload = payload\<rparr>]\<rparr>))"

section \<open>Lawfulness\<close>

lemma update_scheduled_other [simp]:
  "db_cases (update_scheduled i f db) = db_cases db" "db_events (update_scheduled i f db) = db_events db"
  "db_executions (update_scheduled i f db) = db_executions db" "db_actions (update_scheduled i f db) = db_actions db"
  "find_case (update_scheduled i f db) j = find_case db j"
  by (simp_all add: update_scheduled_def find_case_def)

lemma lawful_update_scheduled [simp]: "lawful db (update_scheduled i f db)"
  by (rule lawful_other_tables) simp_all

lemma lawful_ClaimDue: "ClaimDue w now lease db = Inr (a, db') \<Longrightarrow> lawful db db'"
  by (rule lawful_other_tables) (auto simp: ClaimDue_def split: option.splits)

lemma lawful_ClaimDueObservation: "ClaimDueObservation w now lease db = Inr (a, db') \<Longrightarrow> lawful db db'"
  by (rule lawful_other_tables) (auto simp: ClaimDueObservation_def split: option.splits)

text \<open>Moving a locked case along declared transitions.\<close>

lemma lawful_step:
  assumes "find_case db i = Some c" and "CanTransition (rc_CurrentState c) s"
  shows "lawful db (update_case i (advance s now) db)"
  using assms CanTransition_valid [OF assms(2)] by (intro lawful_advance) auto

lemma lawful_two_steps:
  assumes "find_case db i = Some c" and "CanTransition (rc_CurrentState c) s" and "CanTransition s s'"
  shows "lawful db (update_case i (advance s' now) (update_case i (advance s now) db))"
proof (rule lawful_trans [OF lawful_step [OF assms(1,2)] lawful_step])
  show "find_case (update_case i (advance s now) db) i = Some (advance s now c)"
    using assms(1) by (simp add: find_case_update)
qed (simp add: assms(3))

lemma MarkExecutingD:
  assumes "MarkExecuting scheduled now db = Inr (u, db')"
  obtains r c d where "lookup sa_ID (sa_ID scheduled) (db_scheduled db) = Some r" "sa_Status r = SClaimed"
    "find_case db (sa_CaseID scheduled) = Some c"
    "d = update_scheduled (sa_ID scheduled) (\<lambda>r. r\<lparr>sa_Status := SExecuting,
           sr_StartedAt := (case sr_StartedAt r of None \<Rightarrow> Some now | Some t \<Rightarrow> Some t)\<rparr>) db"
    "db' = (if rc_CurrentState c = StateScheduled
        then update_scheduled (sa_ID scheduled) (\<lambda>r. r\<lparr>sa_CaseVersionAtSchedule := rc_Version c + 1\<rparr>)
               (update_case (sa_CaseID scheduled) (advance StateExecuting now) d) else d)"
  using assms by (auto simp: MarkExecuting_def Let_def split: option.splits if_splits)

lemma lawful_MarkExecuting:
  assumes "MarkExecuting scheduled now db = Inr (u, db')"
  shows "lawful db db'"
proof -
  obtain r c d where c: "find_case db (sa_CaseID scheduled) = Some c"
    and d: "d = update_scheduled (sa_ID scheduled) (\<lambda>r. r\<lparr>sa_Status := SExecuting,
           sr_StartedAt := (case sr_StartedAt r of None \<Rightarrow> Some now | Some t \<Rightarrow> Some t)\<rparr>) db"
    and e: "db' = (if rc_CurrentState c = StateScheduled
        then update_scheduled (sa_ID scheduled) (\<lambda>r. r\<lparr>sa_CaseVersionAtSchedule := rc_Version c + 1\<rparr>)
               (update_case (sa_CaseID scheduled) (advance StateExecuting now) d) else d)"
    using assms by (rule MarkExecutingD)
  have l: "lawful db d" by (simp add: d)
  show ?thesis
  proof (cases "rc_CurrentState c = StateScheduled")
    case True
    have "find_case d (sa_CaseID scheduled) = Some c" using c by (simp add: d)
    then have "lawful d (update_case (sa_CaseID scheduled) (advance StateExecuting now) d)"
      using True by (intro lawful_step) (auto simp: CanTransition_def)
    then show ?thesis using e True l lawful_trans lawful_update_scheduled by metis
  qed (use e l in simp)
qed

lemma insert_execution_rows:
  "insert_execution x db = Inr db' \<Longrightarrow> db' = db \<or> db' = db\<lparr>db_executions := db_executions db @ [x]\<rparr>"
  by (auto simp: insert_execution_def split: if_splits)

lemma insert_execution_other:
  assumes "insert_execution x db = Inr db'"
  shows "db_cases db' = db_cases db" "db_events db' = db_events db" "db_scheduled db' = db_scheduled db"
    "find_case db' j = find_case db j"
  using insert_execution_rows [OF assms] by (auto simp: find_case_def)

lemma finish_rows_other [simp]:
  "db_cases (finish_rows a r f now db) = db_cases db" "db_events (finish_rows a r f now db) = db_events db"
  "db_executions (finish_rows a r f now db) = db_executions db" "find_case (finish_rows a r f now db) j = find_case db j"
  by (simp_all add: finish_rows_def Let_def find_case_def)

lemma lawful_settle_case: "find_case db i = Some c \<Longrightarrow> lawful db (settle_case i f now c db)"
  using lawful_step [of db i c StateWaitingOutcome now]
    lawful_two_steps [of db i c StateReassessing StateActionPending now]
  by (auto simp: settle_case_def CanTransition_def)

lemma CompleteExecutionD:
  assumes "CompleteExecution fresh a result now db = Inr (u, db')"
  obtains (retry) d where "insert_execution (execution_of a result (execution_status result) now) db = Inr d"
      "will_retry a result"
      "db' = update_scheduled (sa_ID a) (retried_row now a result) d"
    | (final) d c where "insert_execution (execution_of a result (execution_status result) now) db = Inr d"
      "\<not> will_retry a result" "find_case db (sa_CaseID a) = Some c"
      "append_events (settle_case (sa_CaseID a) (execution_status result = ''FAILED'') now c
         (finish_rows a result (execution_status result = ''FAILED'') now d)) (sa_CaseID a)
         [execution_event fresh a result (execution_status result) now] = Inr db'"
proof -
  obtain d where d: "insert_execution (execution_of a result (execution_status result) now) db = Inr d"
    using assms by (auto simp: CompleteExecution_def Let_def split: sum.splits)
  note f = insert_execution_other(4) [OF d]
  show ?thesis
  proof (cases "will_retry a result")
    case True
    then show ?thesis using retry d assms by (simp add: CompleteExecution_def Let_def)
  next
    case False
    let ?d = "finish_rows a result (execution_status result = ''FAILED'') now d"
    obtain c where c: "find_case d (sa_CaseID a) = Some c"
      using assms d False by (auto simp: CompleteExecution_def Let_def split: option.splits)
    have "append_events (settle_case (sa_CaseID a) (execution_status result = ''FAILED'') now c ?d) (sa_CaseID a)
         [execution_event fresh a result (execution_status result) now] = Inr db'"
      using assms d False c by (auto simp: CompleteExecution_def Let_def split: sum.splits)
    then show ?thesis using final d False c f by simp
  qed
qed

lemma lawful_CompleteExecution:
  assumes "CompleteExecution fresh a result now db = Inr (u, db')"
  shows "lawful db db'"
  using assms
proof (cases rule: CompleteExecutionD)
  case (retry d)
  have "lawful db d" using insert_execution_other [OF retry(1)] by (intro lawful_other_tables) auto
  then show ?thesis unfolding retry(3) using lawful_trans lawful_update_scheduled by blast
next
  case (final d c)
  let ?f = "execution_status result = ''FAILED''"
  let ?d = "finish_rows a result ?f now d"
  have l: "lawful db ?d" using insert_execution_other [OF final(1)] by (intro lawful_other_tables) auto
  have c: "find_case ?d (sa_CaseID a) = Some c" using final(3) insert_execution_other(4) [OF final(1)] by simp
  have "lawful (settle_case (sa_CaseID a) ?f now c ?d) db'"
    by (rule lawful_append_events [OF final(4)]) (simp add: execution_event_def event_of_def)
  then show ?thesis using l lawful_settle_case [OF c] lawful_trans by blast
qed

lemma lawful_MarkSuppressed:
  assumes "MarkSuppressed fresh a reason now db = Inr (u, db')"
  shows "lawful db db'"
proof -
  obtain f es where f: "append_events (update_scheduled (sa_ID a) f db) (sa_CaseID a) es = Inr db'"
    "\<forall>e \<in> set es. ev_CaseID e = sa_CaseID a"
    using assms by (auto simp: MarkSuppressed_def suppression_event_def event_of_def split: sum.splits)
  show ?thesis using lawful_trans [OF lawful_update_scheduled lawful_append_events [OF f]] .
qed

lemma lawful_observe_case:
  assumes c: "find_case db i = Some c" and o: "observe_case i now c db = (ready, out, db')"
  shows "lawful db db'"
proof -
  consider "db' = db" | "rc_CurrentState c = StateWaitingOutcome" "db' = update_case i (advance StateExhausted now) db"
    | "rc_CurrentState c = StateWaitingOutcome"
      "db' = update_case i (advance StateActionPending now) (update_case i (advance StateReassessing now) db)"
    using o by (auto simp: observe_case_def split: if_splits)
  then show ?thesis
  proof cases
    case 2
    then show ?thesis using lawful_step [OF c] by (simp add: CanTransition_def)
  next
    case 3
    then show ?thesis using lawful_two_steps [OF c] by (simp add: CanTransition_def)
  qed simp
qed

lemma PrepareReassessmentD:
  assumes "PrepareReassessment fresh a now db = Inr (ready, db')"
  obtains c out d f e where "find_case db (sa_CaseID a) = Some c" "observe_case (sa_CaseID a) now c db = (ready, out, d)"
    "append_events (update_scheduled (sa_ID a) f d) (sa_CaseID a) [e] = Inr db'" "ev_CaseID e = sa_CaseID a"
    "ev_Type e = EventOutcomeObserved"
proof -
  obtain c where c: "find_case db (sa_CaseID a) = Some c"
    using assms by (auto simp: PrepareReassessment_def split: option.splits)
  obtain rd out d where o: "observe_case (sa_CaseID a) now c db = (rd, out, d)" by (metis prod_cases3)
  show ?thesis using assms c o that [of c out d]
    by (auto simp: PrepareReassessment_def Let_def event_of_def split: sum.splits)
qed

lemma lawful_PrepareReassessment:
  assumes "PrepareReassessment fresh a now db = Inr (ready, db')"
  shows "lawful db db'"
proof -
  obtain c out d f e where c: "find_case db (sa_CaseID a) = Some c" "observe_case (sa_CaseID a) now c db = (ready, out, d)"
    and e: "append_events (update_scheduled (sa_ID a) f d) (sa_CaseID a) [e] = Inr db'" "ev_CaseID e = sa_CaseID a"
    using assms by (rule PrepareReassessmentD)
  have "lawful (update_scheduled (sa_ID a) f d) db'" by (rule lawful_append_events [OF e(1)]) (simp add: e(2))
  then show ?thesis
    using lawful_trans [OF lawful_observe_case [OF c] lawful_trans [OF lawful_update_scheduled]] by blast
qed

lemma lawful_CaptureEmail: "CaptureEmail n s k r t p db = Inr (x, db') \<Longrightarrow> lawful db db'"
  by (rule lawful_other_tables) (auto simp: CaptureEmail_def split: option.splits if_splits)

lemma lawful_RequestRetry: "RequestRetry n k p db = Inr (x, db') \<Longrightarrow> lawful db db'"
  by (rule lawful_other_tables) (auto simp: RequestRetry_def split: option.splits if_splits)

section \<open>Effects\<close>

lemma find_update_advance:
  "find_case (update_case i (advance s now) db) j = (if j = i then map_option (advance s now) (find_case db i) else find_case db j)"
  by (simp add: find_case_update)

lemma lookup_update_scheduled:
  "(\<And>r. sa_ID (f r) = sa_ID r) \<Longrightarrow> lookup sa_ID j (db_scheduled (update_scheduled i f db))
     = (if j = i then map_option f (lookup sa_ID i (db_scheduled db)) else lookup sa_ID j (db_scheduled db))"
  by (simp add: update_scheduled_def lookup_modify)

lemma append_events_other:
  assumes "append_events db i es = Inr db'"
  shows "db_scheduled db' = db_scheduled db" "db_executions db' = db_executions db" "db_actions db' = db_actions db"
  by (simp_all add: append_events_log [OF assms])

text \<open>The abstract end of an execution, for its case.\<close>

definition settled :: "bool \<Rightarrow> time \<Rightarrow> RecoveryCase \<Rightarrow> RecoveryCase" where
  "settled failing now c =
     (if rc_CurrentState c \<noteq> StateExecuting then c
      else if failing then advance StateActionPending now (advance StateReassessing now c)
      else advance StateWaitingOutcome now c)"

lemma settle_case_effect:
  "find_case db i = Some c \<Longrightarrow> find_case (settle_case i f now c db) j = (if j = i then Some (settled f now c) else find_case db j)"
  "db_scheduled (settle_case i f now c db) = db_scheduled db" "db_executions (settle_case i f now c db) = db_executions db"
  "db_events (settle_case i f now c db) = db_events db"
  by (auto simp: settle_case_def settled_def find_update_advance)

lemma finish_rows_scheduled:
  "db_scheduled (finish_rows a result f now db) = modify sa_ID (sa_ID a) (finished_row now f result) (db_scheduled db)"
  by (simp add: finish_rows_def update_scheduled_def Let_def)

lemma execution_effect:
  assumes "CompleteExecution fresh a result now db = Inr (u, db')" and "find_case db (sa_CaseID a) = Some c"
    and "lookup sa_ID (sa_ID a) (db_scheduled db) = Some r"
  defines "failing \<equiv> execution_status result = ''FAILED''"
  shows "if will_retry a result then
       find_case db' (sa_CaseID a) = Some c \<and> db_events db' = db_events db
       \<and> lookup sa_ID (sa_ID a) (db_scheduled db') = Some (retried_row now a result r)
     else find_case db' (sa_CaseID a) = Some (settled failing now c)
       \<and> map ev_Type (case_log db' (sa_CaseID a))
         = map ev_Type (case_log db (sa_CaseID a)) @ [if failing then EventActionFailed else EventActionExecuted]
       \<and> lookup sa_ID (sa_ID a) (db_scheduled db') = Some (finished_row now failing result r)"
  using assms(1)
proof (cases rule: CompleteExecutionD)
  case (retry d)
  then show ?thesis
    using insert_execution_other [OF retry(1)] assms(2,3)
    by (simp add: lookup_update_scheduled retried_row_def)
next
  case (final d c')
  let ?d = "finish_rows a result failing now d"
  let ?x = "settle_case (sa_CaseID a) failing now c ?d"
  have c: "c' = c" using final(3) assms(2) by simp
  note o = insert_execution_other [OF final(1)]
  have x: "append_events ?x (sa_CaseID a) [execution_event fresh a result (execution_status result) now] = Inr db'"
    using final(4) by (simp add: c failing_def)
  have fd: "find_case ?d (sa_CaseID a) = Some c" using assms(2) o(4) by simp
  have "map ev_Type (case_log db' (sa_CaseID a)) = map ev_Type (case_log ?x (sa_CaseID a))
      @ [if failing then EventActionFailed else EventActionExecuted]"
    using append_events_log [OF x] by (simp add: case_log_def execution_event_def event_of_def failing_def)
  moreover have "case_log ?x (sa_CaseID a) = case_log db (sa_CaseID a)"
    using o(2) by (simp add: case_log_def settle_case_effect)
  moreover have "find_case db' (sa_CaseID a) = Some (settled failing now c)"
    using settle_case_effect(1) [OF fd] append_events_case [OF x] by simp
  moreover have "lookup sa_ID (sa_ID a) (db_scheduled db') = Some (finished_row now failing result r)"
    using assms(3) o(3) append_events_other(1) [OF x]
    by (simp add: settle_case_effect finish_rows_scheduled lookup_modify finished_row_def)
  ultimately show ?thesis using final(2) by simp
qed

lemma retry_delay_bounds:
  assumes "1 \<le> attempt"
  shows "Minute \<le> retry_delay attempt \<and> retry_delay attempt \<le> 64 * Minute"
proof -
  let ?n = "nat (min (attempt - 1) 6)"
  have "(2::int) ^ 0 \<le> 2 ^ ?n" "(2::int) ^ ?n \<le> 2 ^ 6" by (rule power_increasing; simp)+
  moreover have "0 < Minute" by (simp add: Minute_def)
  ultimately show ?thesis by (simp add: retry_delay_def)
qed

text \<open>The journal of executions: one row per idempotency key and per attempt of an action.\<close>

definition journal_ok :: "Database \<Rightarrow> bool" where
  "journal_ok db \<longleftrightarrow> keyed ex_IdempotencyKey (db_executions db) \<and> keyed ex_ID (db_executions db)
     \<and> keyed (\<lambda>x. (ex_ActionID x, ex_Attempt x)) (db_executions db) \<and> (\<forall>x \<in> set (db_executions db). 0 < ex_Attempt x)"

lemma insert_execution_journal:
  assumes "insert_execution x db = Inr db'" and "journal_ok db"
  shows "journal_ok db'" "0 < ex_Attempt x" "\<exists>y \<in> set (db_executions db'). ex_IdempotencyKey y = ex_IdempotencyKey x"
    "(\<exists>y \<in> set (db_executions db). ex_IdempotencyKey y = ex_IdempotencyKey x) \<Longrightarrow> db_executions db' = db_executions db"
proof -
  show pos: "0 < ex_Attempt x" using assms(1) by (auto simp: insert_execution_def split: if_splits)
  show "\<exists>y \<in> set (db_executions db'). ex_IdempotencyKey y = ex_IdempotencyKey x"
    using assms(1) by (auto simp: insert_execution_def list_ex_iff split: if_splits)
  show "(\<exists>y \<in> set (db_executions db). ex_IdempotencyKey y = ex_IdempotencyKey x) \<Longrightarrow> db_executions db' = db_executions db"
    using assms(1) by (auto simp: insert_execution_def list_ex_iff split: if_splits)
  consider "db' = db" | "db' = db\<lparr>db_executions := db_executions db @ [x]\<rparr>"
      "\<forall>y \<in> set (db_executions db). ex_IdempotencyKey y \<noteq> ex_IdempotencyKey x \<and> ex_ID y \<noteq> ex_ID x
         \<and> (ex_ActionID y, ex_Attempt y) \<noteq> (ex_ActionID x, ex_Attempt x)"
    using assms(1) by (auto simp: insert_execution_def list_ex_iff split: if_splits)
  then show "journal_ok db'"
  proof cases
    case 2
    then show ?thesis using assms(2) pos by (auto simp: journal_ok_def keyed_append lookup_None)
  qed (use assms(2) in simp)
qed

section \<open>Properties\<close>

lemma ClaimDue_claim:
  assumes "ClaimDue w now lease db = Inr (a, db')"
  obtains r t where "claim (work_ready now) due_at sa_ID (grant_work w now lease) (db_scheduled db) = Some (r, t)"
    "a = ScheduledAction.truncate r" "db' = db\<lparr>db_scheduled := t\<rparr>"
  using assms by (auto simp: ClaimDue_def split: option.splits)

lemma truncate_simps [simp]:
  "sa_ID (ScheduledAction.truncate r) = sa_ID r" "sa_CaseID (ScheduledAction.truncate r) = sa_CaseID r"
  "sa_AttemptCount (ScheduledAction.truncate r) = sa_AttemptCount r"
  "sa_Status (ScheduledAction.truncate r) = sa_Status r"
  "sa_CaseVersionAtSchedule (ScheduledAction.truncate r) = sa_CaseVersionAtSchedule r"
  by (simp_all add: ScheduledAction.truncate_def)

lemma claim_due_facts:
  assumes "ClaimDue w now lease db = Inr (a, db')" and "keyed sa_ID (db_scheduled db)"
  shows "\<exists>r. lookup sa_ID (sa_ID a) (db_scheduled db) = Some r \<and> work_ready now r
      \<and> (\<forall>x \<in> set (db_scheduled db). work_ready now x \<longrightarrow> due_at r < due_at x \<or> due_at r = due_at x \<and> sa_ID r \<le> sa_ID x)
      \<and> lookup sa_ID (sa_ID a) (db_scheduled db') = Some (grant_work w now lease r)
      \<and> a = ScheduledAction.truncate (grant_work w now lease r)"
proof -
  obtain r t where r: "claim (work_ready now) due_at sa_ID (grant_work w now lease) (db_scheduled db) = Some (r, t)"
    "a = ScheduledAction.truncate r" "db' = db\<lparr>db_scheduled := t\<rparr>" using assms(1) by (rule ClaimDue_claim)
  show ?thesis using work.claim_earliest [OF r(1) assms(2)] r(2,3) by auto
qed

lemma claim_due_exclusive:
  assumes "ClaimDue w now lease db = Inr (a, db')" and "keyed sa_ID (db_scheduled db)"
    and "now' < now + lease" and "ClaimDue w' now' lease' db' = Inr (a', db'')"
  shows "sa_ID a' \<noteq> sa_ID a"
proof -
  obtain r t where r: "claim (work_ready now) due_at sa_ID (grant_work w now lease) (db_scheduled db) = Some (r, t)"
    "a = ScheduledAction.truncate r" "db' = db\<lparr>db_scheduled := t\<rparr>" using assms(1) by (rule ClaimDue_claim)
  obtain r' t' where r': "claim (work_ready now') due_at sa_ID (grant_work w' now' lease') (db_scheduled db') = Some (r', t')"
    "a' = ScheduledAction.truncate r'" using assms(4) by (rule ClaimDue_claim)
  show ?thesis using work.claim_exclusive [OF r(1) assms(2,3)] r' r(2,3) by simp
qed

text \<open>Due work is leased to one worker at a time: a claim takes the earliest ready row, by due
  time and then id, records the worker, the expiry of its lease and one more attempt, and until
  the lease has run out no claim of any worker returns that row again. The queue answers
  "no due work" exactly when no row is ready.\<close>

theorem due_work_is_leased:
  assumes "ClaimDue w now lease db = Inr (a, db')" and "keyed sa_ID (db_scheduled db)"
  shows "(\<exists>r. lookup sa_ID (sa_ID a) (db_scheduled db) = Some r \<and> work_ready now r
      \<and> (\<forall>x \<in> set (db_scheduled db). work_ready now x \<longrightarrow> due_at r < due_at x \<or> due_at r = due_at x \<and> sa_ID r \<le> sa_ID x)
      \<and> lookup sa_ID (sa_ID a) (db_scheduled db') = Some (grant_work w now lease r)
      \<and> sa_AttemptCount a = sa_AttemptCount r + 1 \<and> sa_Status a = SClaimed)
    \<and> (now' < now + lease \<and> ClaimDue w' now' lease' db' = Inr (a', db'') \<longrightarrow> sa_ID a' \<noteq> sa_ID a)
    \<and> (ClaimDue w2 t2 l2 db2 = Inl ErrNoDueWork \<longleftrightarrow> (\<forall>r \<in> set (db_scheduled db2). \<not> work_ready t2 r))"
proof (intro conjI)
  show "\<exists>r. lookup sa_ID (sa_ID a) (db_scheduled db) = Some r \<and> work_ready now r
      \<and> (\<forall>x \<in> set (db_scheduled db). work_ready now x \<longrightarrow> due_at r < due_at x \<or> due_at r = due_at x \<and> sa_ID r \<le> sa_ID x)
      \<and> lookup sa_ID (sa_ID a) (db_scheduled db') = Some (grant_work w now lease r)
      \<and> sa_AttemptCount a = sa_AttemptCount r + 1 \<and> sa_Status a = SClaimed"
    using claim_due_facts [OF assms] by (auto simp: grant_work_def)
  show "now' < now + lease \<and> ClaimDue w' now' lease' db' = Inr (a', db'') \<longrightarrow> sa_ID a' \<noteq> sa_ID a"
    using claim_due_exclusive [OF assms] by blast
  show "ClaimDue w2 t2 l2 db2 = Inl ErrNoDueWork \<longleftrightarrow> (\<forall>r \<in> set (db_scheduled db2). \<not> work_ready t2 r)"
    using claim_None [of "work_ready t2" due_at sa_ID "grant_work w2 t2 l2" "db_scheduled db2"]
    by (auto simp: ClaimDue_def split: option.splits)
qed


section \<open>Examples\<close>

abbreviation reminder_snapshot :: Snapshot where
  "reminder_snapshot \<equiv> example_snapshot ActionSendReminder ''APPROVE''"

lemma scheduled_facts:
  "scheduled_action = schedule_of (ids CHR ''b'') reminder_snapshot 3 0"
  "db_scheduled scheduled_db = [new_scheduled scheduled_action 0]"
  "find_case scheduled_db (rc_ID created_case) = Some (advance StateScheduled 0 (advance StatePolicyReview 0
     (created_case\<lparr>rc_CurrentState := StateActionPending\<rparr>)))"
proof -
  note f = save_and_schedule_facts [OF scheduled pending_found]
  show "db_scheduled scheduled_db = [new_scheduled scheduled_action 0]"
    using f by (simp add: pending_db_def shop_db_def empty_db_def)
  show "scheduled_action = schedule_of (ids CHR ''b'') reminder_snapshot 3 0"
    using f by (simp add: outcome_def example_snapshot_def example_candidate_def created_case_facts)
  show "find_case scheduled_db (rc_ID created_case) = Some (advance StateScheduled 0 (advance StatePolicyReview 0
     (created_case\<lparr>rc_CurrentState := StateActionPending\<rparr>)))"
    using f by (simp add: outcome_def example_snapshot_def example_candidate_def created_case_facts)
qed

lemma claim_single: "ready r \<Longrightarrow> claim ready due key grant [r] = Some (grant r, [grant r])"
  by (simp add: claim_def modify_def)

definition claimed_row :: ScheduledRow where
  "claimed_row = grant_work ''w'' 0 (2 * Minute) (new_scheduled scheduled_action 0)"

definition claimed_db :: Database where
  "claimed_db = scheduled_db\<lparr>db_scheduled := [claimed_row]\<rparr>"

lemma new_scheduled_simps [simp]:
  "sa_ID (new_scheduled a t) = sa_ID a" "sa_Status (new_scheduled a t) = sa_Status a"
  "sa_NextRetryAt (new_scheduled a t) = sa_NextRetryAt a" "sa_ScheduledFor (new_scheduled a t) = sa_ScheduledFor a"
  "sa_AttemptCount (new_scheduled a t) = sa_AttemptCount a" "sa_CaseID (new_scheduled a t) = sa_CaseID a"
  "sr_LeaseExpiresAt (new_scheduled a t) = None"
  by (simp_all add: new_scheduled_def ScheduledAction.extend_def)

lemma claimed: "ClaimDue ''w'' 0 (2 * Minute) scheduled_db = Inr (ScheduledAction.truncate claimed_row, claimed_db)"
proof -
  have "sa_Status scheduled_action = SPending" "sa_NextRetryAt scheduled_action = None" "sa_ScheduledFor scheduled_action = 0"
    by (simp_all add: scheduled_facts(1) schedule_of_def example_snapshot_def example_candidate_def)
  then have "work_ready 0 (new_scheduled scheduled_action 0)" by (simp add: work_ready_def due_at_def)
  then show ?thesis by (simp add: ClaimDue_def scheduled_facts(2) claim_single claimed_row_def claimed_db_def)
qed

theorem due_work_is_leased_witness:
  "sa_AttemptCount claimed_row = sa_AttemptCount scheduled_action + 1
   \<and> \<not> is_ok (ClaimDue ''v'' (2 * Minute - 1) Minute claimed_db)"
proof -
  have k: "keyed sa_ID (db_scheduled scheduled_db)" by (simp add: scheduled_facts(2) keyed_def)
  note d = due_work_is_leased [OF claimed k]
  have s: "db_scheduled claimed_db = [claimed_row]" by (simp add: claimed_db_def)
  have "sa_ID a = sa_ID claimed_row" if "ClaimDue w t l claimed_db = Inr (a, db)" for w t l a db
  proof -
    obtain r t' where "claim (work_ready t) due_at sa_ID (grant_work w t l) (db_scheduled claimed_db) = Some (r, t')"
      "a = ScheduledAction.truncate r" using \<open>ClaimDue w t l claimed_db = _\<close> by (rule ClaimDue_claim)
    then show ?thesis by (auto simp: s claim_def grant_work_def split: if_splits)
  qed
  then have "ClaimDue ''v'' (2 * Minute - 1) Minute claimed_db \<noteq> Inr (a, db)" for a db
    using d [of "2 * Minute - 1" "''v''" Minute a db] by fastforce
  then have "\<not> is_ok (ClaimDue ''v'' (2 * Minute - 1) Minute claimed_db)"
    by (cases "ClaimDue ''v'' (2 * Minute - 1) Minute claimed_db") auto
  moreover have "sa_AttemptCount claimed_row = sa_AttemptCount scheduled_action + 1" by (simp add: claimed_row_def grant_work_def)
  ultimately show ?thesis by simp
qed

definition timeout_result :: ExecResult where
  "timeout_result = \<lparr>er_ExecutionID = ''x1'', er_Action = ActionSendReminder, er_Status = ''FAILED'', er_Provider = [],
     er_ProviderReference = [], er_IdempotencyKey = [], er_ExecutedAt = 0, er_FailureClass = ''TIMEOUT'', er_Retryable = True\<rparr>"

lemma claimed_row_facts:
  "sa_ID claimed_row = sa_ID scheduled_action" "sa_CaseID claimed_row = rc_ID created_case" "sa_AttemptCount claimed_row = 1"
  "sa_MaxAttempts claimed_row = 3" "sa_Status claimed_row = SClaimed" "sa_DecisionID claimed_row = ''d1''"
  by (simp_all add: claimed_row_def grant_work_def new_scheduled_def ScheduledAction.extend_def scheduled_facts(1)
      schedule_of_def example_snapshot_def Let_def)

lemma claimed_case: "find_case claimed_db (rc_ID created_case) = find_case scheduled_db (rc_ID created_case)"
  by (simp add: claimed_db_def find_case_def)

lemma claimed_executions: "db_executions claimed_db = []"
proof -
  have "db_executions scheduled_db = db_executions pending_db"
    using save_executions [OF scheduled] .
  then show ?thesis by (simp add: claimed_db_def pending_db_def shop_db_def empty_db_def)
qed


section \<open>Reassessment\<close>

definition observed :: "time \<Rightarrow> RecoveryCase \<Rightarrow> RecoveryCase" where
  "observed now c =
     (if rc_CurrentState c \<noteq> StateWaitingOutcome then c
      else if rc_RecoveryDeadline c \<le> now then advance StateExhausted now c
      else advance StateActionPending now (advance StateReassessing now c))"

lemma observe_case_effect:
  "find_case db i = Some c \<Longrightarrow> observe_case i now c db = (ready, out, db') \<Longrightarrow>
     find_case db' i = Some (observed now c) \<and> db_events db' = db_events db
     \<and> (ready \<longleftrightarrow> rc_CurrentState c = StateWaitingOutcome \<and> now < rc_RecoveryDeadline c)"
  by (auto simp: observe_case_def observed_def find_update_advance split: if_splits)

lemma prepare_pending:
  "find_case db i = Some c \<Longrightarrow> rc_CurrentState c = StateActionPending \<Longrightarrow> PrepareForDecision fresh i now db = Inr ((), db)"
  by (simp add: PrepareForDecision_def preparation_targets_def)

text \<open>An observation ends the wait exactly once: a case still waiting is exhausted when its
  deadline has passed and made ready for the next decision otherwise, every other case is left
  as it is; the observation is logged; and when it reports a case ready, the preparation of the
  decision that follows succeeds without a further step.\<close>

theorem reassessment_is_ready:
  assumes "PrepareReassessment fresh a now db = Inr (ready, db')" and "find_case db (sa_CaseID a) = Some c"
  shows "find_case db' (sa_CaseID a) = Some (observed now c)
     \<and> (ready \<longleftrightarrow> rc_CurrentState c = StateWaitingOutcome \<and> now < rc_RecoveryDeadline c)
     \<and> map ev_Type (case_log db' (sa_CaseID a)) = map ev_Type (case_log db (sa_CaseID a)) @ [EventOutcomeObserved]
     \<and> (ready \<longrightarrow> PrepareForDecision fresh2 (sa_CaseID a) now2 db' = Inr ((), db'))"
proof -
  obtain c0 out d f e where c0: "find_case db (sa_CaseID a) = Some c0" "observe_case (sa_CaseID a) now c0 db = (ready, out, d)"
    and e: "append_events (update_scheduled (sa_ID a) f d) (sa_CaseID a) [e] = Inr db'" "ev_CaseID e = sa_CaseID a"
      "ev_Type e = EventOutcomeObserved"
    using assms(1) by (rule PrepareReassessmentD)
  have o: "observe_case (sa_CaseID a) now c db = (ready, out, d)" using c0 assms(2) by simp
  note x = observe_case_effect [OF assms(2) o]
  have c': "find_case db' (sa_CaseID a) = Some (observed now c)" using x append_events_case [OF e(1)] by simp
  moreover have "map ev_Type (case_log db' (sa_CaseID a)) = map ev_Type (case_log db (sa_CaseID a)) @ [EventOutcomeObserved]"
    using append_events_log [OF e(1)] x e(2,3) by (simp add: case_log_def)
  moreover have "PrepareForDecision fresh2 (sa_CaseID a) now2 db' = Inr ((), db')" if ready
    using x that by (intro prepare_pending [OF c']) (simp add: observed_def)
  ultimately show ?thesis using x by blast
qed

text \<open>With unused ids neither transaction fails on an existing case.\<close>

lemma append_one_ok:
  assumes "lawful db d" and "well_formed db" and "find_case d (ev_CaseID e) \<noteq> None"
    and "db_events d = db_events db" and "ev_ID e \<notin> ev_ID ` set (db_events db)"
  shows "\<exists>db'. append_events d (ev_CaseID e) [e] = Inr db'"
proof -
  have "well_formed d" using assms(1,2) by (simp add: lawful_def)
  then have "append_events d (ev_CaseID e) [e] = Inr (d\<lparr>db_events := db_events d @ numbered (nextSequence d (ev_CaseID e)) [e]\<rparr>)"
    using assms(3-5) by (intro append_events_ok) simp_all
  then show ?thesis by blast
qed

lemma PrepareReassessment_ok:
  assumes "well_formed db" and "find_case db (sa_CaseID a) = Some c" and "fresh 0 \<notin> ev_ID ` set (db_events db)"
  shows "\<exists>ready db'. PrepareReassessment fresh a now db = Inr (ready, db')"
proof -
  obtain rd out d where o: "observe_case (sa_CaseID a) now c db = (rd, out, d)" by (metis prod_cases3)
  note x = observe_case_effect [OF assms(2) o]
  let ?d = "update_scheduled (sa_ID a) (\<lambda>r. if sa_Status r = SObservationClaimed
                 then r\<lparr>sa_Status := SObserved, sr_LeaseOwner := None, sr_LeaseExpiresAt := None\<rparr> else r) d"
  let ?e = "event_of (fresh 0) (sa_CaseID a) EventOutcomeObserved now
                (worker_actor ''outcome-observer-v1'') (Some (JObj [(''outcome'', JStr out),
                  (''reassessment_ready'', JBool rd), (''scheduled_action_id'', JStr (sa_ID a))])) (sa_ID a)"
  have "lawful db ?d" using lawful_trans [OF lawful_observe_case [OF assms(2) o] lawful_update_scheduled] .
  then have "\<exists>db'. append_events ?d (ev_CaseID ?e) [?e] = Inr db'"
    using x assms by (intro append_one_ok [of db]) (auto simp: event_of_def)
  then show ?thesis using o assms(2) by (auto simp: PrepareReassessment_def Let_def event_of_def)
qed

lemma MarkSuppressed_ok:
  assumes "well_formed db" and "find_case db (sa_CaseID a) = Some c" and "fresh 0 \<notin> ev_ID ` set (db_events db)"
  shows "\<exists>db'. MarkSuppressed fresh a reason now db = Inr ((), db')"
proof -
  have "\<exists>db'. append_events (update_scheduled (sa_ID a) (suppressed_row reason now) db)
      (ev_CaseID (suppression_event fresh a reason now)) [suppression_event fresh a reason now] = Inr db'"
    using assms by (intro append_one_ok [of db]) (auto simp: suppression_event_def event_of_def)
  then show ?thesis by (auto simp: MarkSuppressed_def suppression_event_def event_of_def)
qed

definition waiting_db :: Database where
  "waiting_db = shop_db\<lparr>db_cases := [created_case\<lparr>rc_CurrentState := StateWaitingOutcome\<rparr>]\<rparr>"

lemma waiting_well_formed: "well_formed waiting_db"
  by (simp add: well_formed_def keyed_def sources_distinct_def gap_free_def case_log_def waiting_db_def shop_db_def
      empty_db_def IsValid_def)

theorem reassessment_is_ready_witness:
  "\<exists>db. PrepareReassessment (ids CHR ''c'') scheduled_action (rc_RecoveryDeadline created_case - 1) waiting_db = Inr (True, db)
     \<and> PrepareForDecision (ids CHR ''d'') (rc_ID created_case) 0 db = Inr ((), db)"
proof -
  have i: "sa_CaseID scheduled_action = rc_ID created_case"
    by (simp add: scheduled_facts(1) schedule_of_def example_snapshot_def Let_def)
  have c: "find_case waiting_db (sa_CaseID scheduled_action) = Some (created_case\<lparr>rc_CurrentState := StateWaitingOutcome\<rparr>)"
    by (simp add: waiting_db_def find_case_def lookup_Cons i)
  have "db_events waiting_db = []" by (simp add: waiting_db_def shop_db_def empty_db_def)
  then obtain ready db where p: "PrepareReassessment (ids CHR ''c'') scheduled_action (rc_RecoveryDeadline created_case - 1)
      waiting_db = Inr (ready, db)"
    using PrepareReassessment_ok [OF waiting_well_formed c, of "ids CHR ''c''"] by (metis empty_iff image_empty list.set(1))
  then show ?thesis using reassessment_is_ready [OF p c, of "ids CHR ''d''" 0] i by auto
qed


lemma claimed_well_formed: "well_formed claimed_db"
  using lawful_SaveDecisionAndSchedule [OF scheduled] pending_well_formed lawful_ClaimDue [OF claimed]
  by (simp add: lawful_def)

lemma claimed_fresh: "ids CHR ''c'' k \<notin> ev_ID ` set (db_events claimed_db)"
proof -
  have "ev_ID ` set (db_events scheduled_db) \<subseteq> range (ids CHR ''b'')"
    using save_event_ids [OF scheduled] by (auto simp: pending_db_def shop_db_def empty_db_def)
  then show ?thesis by (auto simp: claimed_db_def)
qed


section \<open>The authorization of scheduled work\<close>

text \<open>Gate evaluations belong to stored decisions (the foreign key of the table).\<close>

definition gates_referenced :: "Database \<Rightarrow> bool" where
  "gates_referenced db \<longleftrightarrow> (\<forall>g \<in> set (db_gates db). lookup (\<lambda>x. de_ID (dr_Decision x)) (eg_DecisionID g) (db_decisions db) \<noteq> None)"

definition snapshot_consistent :: "Snapshot \<Rightarrow> bool" where
  "snapshot_consistent s \<longleftrightarrow> eg_DecisionID (sn_Gate s) = de_ID (sn_Decision s)
     \<and> rr_Selected (de_Optimization (sn_Decision s)) \<in> set (rr_Candidates (de_Optimization (sn_Decision s)))
     \<and> ''HUMAN_APPROVAL_SATISFIED'' \<notin> set (po_ReasonCodes (sn_Policy s))"

lemma lookup_distinct: "distinct (map key xs) \<Longrightarrow> x \<in> set xs \<Longrightarrow> lookup key (key x) xs = Some x"
  by (rule lookup_keyed) (simp_all add: keyed_def)

lemma load_saved_authorization:
  assumes "SaveDecisionAndSchedule fresh now s db = Inr (Some a, db')" and "snapshot_consistent s" and "gates_referenced db"
  shows "LoadAuthorization (sa_DecisionID a) (sa_PolicyEvaluationID a) db' =
     Inr \<lparr>au_DecisionCaseVersion = de_CaseVersion (sn_Decision s), au_Candidate = rr_Selected (de_Optimization (sn_Decision s)),
          au_Gate = sn_Gate s, au_HumanApproved = False\<rparr>"
proof -
  obtain c where c: "find_case db (de_CaseID (sn_Decision s)) = Some c"
    using assms(1) by (auto simp: SaveDecisionAndSchedule_def saveDecisionTx_def split: option.splits)
  have "Some a = snd (outcome fresh now s c)" using save_and_schedule_facts [OF assms(1) c] by simp
  then have a: "sa_DecisionID a = de_ID (sn_Decision s)" "sa_PolicyEvaluationID a = po_ID (sn_Policy s)"
    by (auto simp: outcome_def Let_def split: if_splits)
  note r = save_rows [OF assms(1)]
  have "lookup eg_DecisionID (de_ID (sn_Decision s)) (db_gates db) = None"
    using assms(3) r by (force simp: gates_referenced_def lookup_None)
  then have g: "lookup eg_DecisionID (de_ID (sn_Decision s)) (db_gates db') = Some (sn_Gate s)"
    using r assms(2) by (simp add: lookup_append lookup_Cons snapshot_consistent_def)
  have d: "lookup (\<lambda>r. de_ID (dr_Decision r)) (de_ID (sn_Decision s)) (db_decisions db')
     = Some \<lparr>dr_Decision = sn_Decision s, dr_Context = sn_Context s, dr_Eligibility = sn_Eligibility s\<rparr>"
    using r by (simp add: lookup_append lookup_Cons)
  have k: "lookup cd_Action (cd_Action (rr_Selected (de_Optimization (sn_Decision s))))
      (rr_Candidates (de_Optimization (sn_Decision s))) = Some (rr_Selected (de_Optimization (sn_Decision s)))"
    using r assms(2) by (intro lookup_distinct) (simp_all add: snapshot_consistent_def)
  have "\<forall>p \<in> set (db_policies db). po_ID p \<noteq> po_ID (sn_Policy s)" using r by (metis image_eqI lookup_None)
  then have h: "\<not> list_ex (\<lambda>p. po_ID p = po_ID (sn_Policy s) \<and> po_Decision p = ''APPROVE''
      \<and> ''HUMAN_APPROVAL_SATISFIED'' \<in> set (po_ReasonCodes p)) (db_policies db')"
    using r assms(2) by (auto simp: list_ex_iff snapshot_consistent_def)
  show ?thesis unfolding a LoadAuthorization_def d g using k h by (simp add: Let_def)
qed

text \<open>The worker acts on what was decided: loading the authorization of a scheduled action
  returns the version, the selected candidate and the gate result of exactly the snapshot that
  was persisted with it, and no human approval when none was recorded.\<close>

theorem authorization_roundtrip:
  assumes "SaveDecisionAndSchedule fresh now s db = Inr (Some a, db')" and "snapshot_consistent s" and "gates_referenced db"
  shows "LoadAuthorization (sa_DecisionID a) (sa_PolicyEvaluationID a) db' =
     Inr \<lparr>au_DecisionCaseVersion = de_CaseVersion (sn_Decision s), au_Candidate = rr_Selected (de_Optimization (sn_Decision s)),
          au_Gate = sn_Gate s, au_HumanApproved = False\<rparr>"
  by (rule load_saved_authorization [OF assms])

lemma example_consistent: "snapshot_consistent reminder_snapshot" "gates_referenced pending_db"
  by (simp_all add: snapshot_consistent_def example_snapshot_def gates_referenced_def pending_db_def shop_db_def empty_db_def)

theorem authorization_roundtrip_witness:
  "LoadAuthorization (sa_DecisionID scheduled_action) (sa_PolicyEvaluationID scheduled_action) scheduled_db =
     Inr \<lparr>au_DecisionCaseVersion = 1, au_Candidate = example_candidate ActionSendReminder,
          au_Gate = sn_Gate reminder_snapshot, au_HumanApproved = False\<rparr>"
  using authorization_roundtrip [OF scheduled example_consistent] by (simp add: example_snapshot_def)

end
