(* ===== verification/Promise_Store.thy ===== *)
theory Promise_Store
  imports Workflow_Store
begin

text \<open>
  Promises to pay in the store (\<open>internal/store/promises.go\<close>): creation with a durable due check,
  the queue of due checks, resolution, cancellation and the customer's reliability. The
  generated ids of an operation are \<open>fresh 0\<close>, \<open>fresh 1\<close>, and so on, in the order they are drawn.
\<close>

section \<open>Rows\<close>

definition update_promise :: "ID \<Rightarrow> (PromiseToPay \<Rightarrow> PromiseToPay) \<Rightarrow> Database \<Rightarrow> Database" where
  "update_promise i f db = db\<lparr>db_promises := modify pp_ID i f (db_promises db)\<rparr>"

definition update_checks :: "ID \<Rightarrow> (PromiseCheck \<Rightarrow> PromiseCheck) \<Rightarrow> Database \<Rightarrow> Database" where
  "update_checks promiseID f db = db\<lparr>db_checks := modify ck_PromiseID promiseID f (db_checks db)\<rparr>"

text \<open>The columns the insert names; the others are NULL.\<close>

definition new_promise :: "PromiseToPay \<Rightarrow> PromiseToPay" where
  "new_promise p = p\<lparr>pp_Status := PromiseActive, pp_ResolvedAt := None, pp_FulfilledAt := None, pp_BrokenAt := None,
     pp_ExpiredAt := None, pp_CancelledAt := None, pp_VerificationReference := []\<rparr>"

definition insert_promise :: "PromiseToPay \<Rightarrow> Database \<Rightarrow> (error, Database) result" where
  "insert_promise p db =
     (if lookup pp_ID (pp_ID p) (db_promises db) \<noteq> None then Inl (ErrConstraint ''promises_to_pay_pkey'')
      else if list_ex (\<lambda>q. pp_CaseID q = pp_CaseID p \<and> pp_Status q = PromiseActive) (db_promises db)
        then Inl (ErrConstraint ''one_active_promise_per_case_idx'')
      else if list_ex (\<lambda>q. pp_SourceResponseID p \<noteq> None \<and> pp_SourceResponseID q = pp_SourceResponseID p) (db_promises db)
        then Inl (ErrConstraint ''promises_source_response_idx'')
      else if \<not> (0 \<le> pp_Confidence p \<and> pp_Confidence p \<le> 1) \<or> pp_Source p = None
          \<or> (case pp_PromisedAmountMinor p of None \<Rightarrow> False | Some n \<Rightarrow> n \<le> 0) then Inl (ErrConstraint ''promises_to_pay_check'')
      else if (case pp_SourceResponseID p of None \<Rightarrow> False | Some i \<Rightarrow> lookup rs_ID i (db_responses db) = None)
        then Inl (ErrConstraint ''promises_to_pay_source_response_id_fkey'')
      else Inr (db\<lparr>db_promises := db_promises db @ [new_promise p]\<rparr>))"

definition insert_check :: "PromiseCheck \<Rightarrow> Database \<Rightarrow> (error, Database) result" where
  "insert_check k db =
     (if list_ex (\<lambda>x. ck_ID x = ck_ID k \<or> ck_PromiseID x = ck_PromiseID k) (db_checks db)
        then Inl (ErrConstraint ''promise_checks_key'')
      else Inr (db\<lparr>db_checks := db_checks db @ [k]\<rparr>))"

definition insert_promise_event :: "PromiseEvent \<Rightarrow> Database \<Rightarrow> (error, Database) result" where
  "insert_promise_event e db =
     (if list_ex (\<lambda>x. pe_ID x = pe_ID e \<or> pe_PromiseID x = pe_PromiseID e \<and> pe_CorrelationID x = pe_CorrelationID e)
          (db_promise_events db) then Inl (ErrConstraint ''promise_events_key'')
      else Inr (db\<lparr>db_promise_events := db_promise_events db @ [e]\<rparr>))"

section \<open>Creation\<close>

definition check_of :: "ID \<Rightarrow> PromiseToPay \<Rightarrow> PromiseCheck" where
  "check_of newID p = \<lparr>ck_ID = newID, ck_PromiseID = pp_ID p, ck_CaseID = pp_CaseID p, ck_ScheduledFor = pp_DueAt p,
     ck_Status = CheckPending, ck_AttemptCount = 0, ck_LeaseOwner = None, ck_LeaseExpiresAt = None,
     ck_CompletedAt = None, ck_Result = None, ck_CreatedAt = pp_CreatedAt p\<rparr>"

definition creation_payload :: "ID \<Rightarrow> PromiseToPay \<Rightarrow> RawMessage" where
  "creation_payload checkID p = Some (JObj [(''check_id'', JStr checkID), (''confidence'', JNum (pp_Confidence p)),
     (''extractor_version'', JStr (pp_ExtractorVersion p)), (''promise_id'', JStr (pp_ID p)),
     (''promised_for'', JStr (format_time (pp_DueAt p)))])"

definition creation_events :: "(nat \<Rightarrow> ID) \<Rightarrow> PromiseToPay \<Rightarrow> string \<Rightarrow> RecoveryEvent list" where
  "creation_events fresh p correlationID =
     [event_of (fresh 2) (pp_CaseID p) EventPromiseCreated (pp_CreatedAt p) \<lparr>actor_Type = ''CUSTOMER'', actor_ID = pp_CustomerID p\<rparr>
        (creation_payload (fresh 0) p) correlationID,
      event_of (fresh 3) (pp_CaseID p) EventPromiseCheckScheduled (pp_CreatedAt p) (system_actor ''promise-worker-v1'')
        (creation_payload (fresh 0) p) correlationID]"

definition existing_promise :: "PromiseToPay \<Rightarrow> Database \<Rightarrow> PromiseToPay option" where
  "existing_promise p db = (case pp_SourceResponseID p of None \<Rightarrow> None
     | Some i \<Rightarrow> find (\<lambda>q. pp_SourceResponseID q = Some i) (db_promises db))"

definition CreatePromise :: "(nat \<Rightarrow> ID) \<Rightarrow> PromiseToPay \<Rightarrow> string \<Rightarrow> (PromiseToPay \<times> bool) tx" where
  "CreatePromise fresh promise correlationID db =
     (case find_case db (pp_CaseID promise) of None \<Rightarrow> Inl ErrNotFound
      | Some c \<Rightarrow>
          (let p = promise\<lparr>pp_CustomerID := rc_CustomerID c\<rparr> in
           case existing_promise p db of Some q \<Rightarrow> Inr ((q, False), db)
           | None \<Rightarrow>
               andThen (insert_promise p db) (\<lambda>db.
               andThen (insert_check (check_of (fresh 0) p) db) (\<lambda>db.
               andThen (insert_promise_event \<lparr>pe_ID = fresh 1, pe_PromiseID = pp_ID p, pe_CaseID = pp_CaseID p,
                  pe_FromStatus = None, pe_ToStatus = PromiseActive, pe_ReasonCode = ''CUSTOMER_PROMISE_CREATED'',
                  pe_Payload = creation_payload (fresh 0) p, pe_OccurredAt = pp_CreatedAt p,
                  pe_CorrelationID = correlationID\<rparr> db) (\<lambda>db.
               andThen (append_events db (pp_CaseID p) (creation_events fresh p correlationID)) (\<lambda>db.
               Inr ((p, True), db)))))))"

definition GetPromise :: "ID \<Rightarrow> Database \<Rightarrow> (error, PromiseToPay) result" where
  "GetPromise i db = (case lookup pp_ID i (db_promises db) of None \<Rightarrow> Inl ErrNotFound | Some p \<Rightarrow> Inr p)"

definition ListPromises :: "ID \<Rightarrow> Database \<Rightarrow> PromiseToPay list" where
  "ListPromises caseID db =
     sort_by (due_less pp_CreatedAt pp_ID) (filter (\<lambda>p. pp_CaseID p = caseID) (db_promises db))"

section \<open>Due checks\<close>

definition check_ready :: "time \<Rightarrow> PromiseCheck \<Rightarrow> bool" where
  "check_ready now k \<longleftrightarrow> ck_Status k \<in> {CheckPending, CheckClaimed} \<and> ck_ScheduledFor k \<le> now
     \<and> (ck_Status k \<noteq> CheckClaimed \<or> lease_over now (ck_LeaseExpiresAt k))"

definition grant_check :: "string \<Rightarrow> time \<Rightarrow> duration \<Rightarrow> PromiseCheck \<Rightarrow> PromiseCheck" where
  "grant_check worker now lease k = k\<lparr>ck_Status := CheckClaimed, ck_LeaseOwner := Some worker,
     ck_LeaseExpiresAt := Some (now + lease), ck_AttemptCount := ck_AttemptCount k + 1\<rparr>"

text \<open>The claim commits before the promise is read.\<close>

definition ClaimDuePromise :: "string \<Rightarrow> time \<Rightarrow> duration \<Rightarrow> Database \<Rightarrow> (error, PromiseToPay) result \<times> Database" where
  "ClaimDuePromise worker now lease db =
     (case claim (check_ready now) ck_ScheduledFor ck_ID (grant_check worker now lease) (db_checks db) of
        None \<Rightarrow> (Inl ErrNoDuePromise, db)
      | Some (k, t) \<Rightarrow> (let db = db\<lparr>db_checks := t\<rparr> in (GetPromise (ck_PromiseID k) db, db)))"

interpretation checks: lease_queue check_ready ck_ScheduledFor ck_ID grant_check
  by unfold_locales (auto simp: check_ready_def grant_check_def lease_over_def)

section \<open>Transitions\<close>

fun resolution_event :: "PromiseStatus \<Rightarrow> EventType" where
  "resolution_event PromiseFulfilled = EventPromiseFulfilled"
| "resolution_event PromiseBroken = EventPromiseBroken"
| "resolution_event PromiseExpired = EventPromiseExpired"
| "resolution_event PromiseCancelled = EventPromiseCancelled"
| "resolution_event PromiseActive = OtherEvent []"

fun stamp :: "PromiseStatus \<Rightarrow> time \<Rightarrow> PromiseToPay \<Rightarrow> PromiseToPay" where
  "stamp PromiseFulfilled now p = p\<lparr>pp_FulfilledAt := Some now\<rparr>"
| "stamp PromiseBroken now p = p\<lparr>pp_BrokenAt := Some now\<rparr>"
| "stamp PromiseExpired now p = p\<lparr>pp_ExpiredAt := Some now\<rparr>"
| "stamp PromiseCancelled now p = p\<lparr>pp_CancelledAt := Some now\<rparr>"
| "stamp PromiseActive now p = p"

definition resolved_promise :: "PromiseStatus \<Rightarrow> string \<Rightarrow> time \<Rightarrow> PromiseToPay \<Rightarrow> PromiseToPay" where
  "resolved_promise target reference now p =
     stamp target now (p\<lparr>pp_Status := target, pp_ResolvedAt := Some now, pp_VerificationReference := reference\<rparr>)"

definition transition_payload :: "PromiseToPay \<Rightarrow> PromiseStatus \<Rightarrow> string \<Rightarrow> string \<Rightarrow> RawMessage" where
  "transition_payload p target reason reference =
     Some (JObj [(''from_status'', JStr (promise_status_string (pp_Status p))), (''promise_id'', JStr (pp_ID p)),
       (''reason'', JStr reason), (''to_status'', JStr (promise_status_string target)), (''verification_reference'', JStr reference)])"

definition transitionPromiseTx :: "(nat \<Rightarrow> ID) \<Rightarrow> PromiseToPay \<Rightarrow> PromiseStatus \<Rightarrow> string \<Rightarrow> string \<Rightarrow> string \<Rightarrow> time
    \<Rightarrow> PromiseToPay tx" where
  "transitionPromiseTx fresh p target reason correlationID reference now db =
     (if pp_Status p \<noteq> PromiseActive then Inl ErrConflict
      else if target = PromiseActive then Inl (ErrMsg ''invalid promise transition'')
      else
        (let payload = transition_payload p target reason reference in
         andThen (insert_promise_event \<lparr>pe_ID = fresh 0, pe_PromiseID = pp_ID p, pe_CaseID = pp_CaseID p,
            pe_FromStatus = Some (pp_Status p), pe_ToStatus = target, pe_ReasonCode = reason, pe_Payload = payload,
            pe_OccurredAt = now, pe_CorrelationID = correlationID\<rparr>
            (update_promise (pp_ID p) (resolved_promise target reference now) db)) (\<lambda>db.
         andThen (append_events db (pp_CaseID p) [event_of (fresh 1) (pp_CaseID p) (resolution_event target) now
            (system_actor ''promise-engine-v1'') payload correlationID]) (\<lambda>db.
         Inr (resolved_promise target reference now p, db)))))"

definition cancelled_check :: "PromiseStatus \<Rightarrow> time \<Rightarrow> PromiseCheck \<Rightarrow> PromiseCheck" where
  "cancelled_check target now k = (if ck_Status k \<in> {CheckPending, CheckClaimed}
     then k\<lparr>ck_Status := CheckCancelled, ck_CompletedAt := Some now, ck_Result := Some (promise_status_string target)\<rparr> else k)"

definition transitionPromise :: "(nat \<Rightarrow> ID) \<Rightarrow> ID \<Rightarrow> PromiseStatus \<Rightarrow> string \<Rightarrow> string \<Rightarrow> string \<Rightarrow> time
    \<Rightarrow> PromiseToPay tx" where
  "transitionPromise fresh promiseID target reason correlationID reference now db =
     (case lookup pp_ID promiseID (db_promises db) of None \<Rightarrow> Inl ErrNoRows
      | Some p \<Rightarrow>
          andThen (transitionPromiseTx fresh p target reason correlationID reference now db) (\<lambda>(resolved, db).
          Inr (resolved, update_checks promiseID (cancelled_check target now) db)))"

definition CancelPromise :: "(nat \<Rightarrow> ID) \<Rightarrow> ID \<Rightarrow> string \<Rightarrow> time \<Rightarrow> PromiseToPay tx" where
  "CancelPromise fresh promiseID correlationID now =
     transitionPromise fresh promiseID PromiseCancelled ''EXPLICIT_CANCELLATION'' correlationID [] now"

section \<open>Resolution\<close>

text \<open>A new version of the customer's profile with the share of kept promises, Laplace-smoothed.\<close>

definition promise_reliability :: "ID \<Rightarrow> Database \<Rightarrow> float64" where
  "promise_reliability customerID db =
     (let ps = filter (\<lambda>p. pp_CustomerID p = customerID) (db_promises db);
          fulfilled = int (length (filter (\<lambda>p. pp_Status p = PromiseFulfilled) ps));
          broken = int (length (filter (\<lambda>p. pp_Status p = PromiseBroken) ps))
      in fdiv (float_of (fulfilled + 1)) (float_of (fulfilled + broken + 2)))"

definition updatePromiseReliability :: "ID \<Rightarrow> ID \<Rightarrow> time \<Rightarrow> Database \<Rightarrow> (error, Database) result" where
  "updatePromiseReliability newID customerID now db =
     (let base = (case latest pf_Version (filter (\<lambda>p. pf_CustomerID p = customerID) (db_profiles db)) of
            Some p \<Rightarrow> p
          | None \<Rightarrow> \<lparr>pf_ID = [], pf_CustomerID = customerID, pf_SuccessfulPayments = 0, pf_FailedPayments = 0,
              pf_SubscriptionTenureDays = 0, pf_PromiseReliability = 0, pf_FatigueScore = 0, pf_Features = emptyObject,
              pf_Version = 0, pf_UpdatedAt = 0\<rparr>);
          row = base\<lparr>pf_ID := newID, pf_PromiseReliability := promise_reliability customerID db,
            pf_Version := pf_Version base + 1, pf_UpdatedAt := now\<rparr>
      in if list_ex (\<lambda>x. pf_ID x = newID \<or> pf_CustomerID x = customerID \<and> pf_Version x = pf_Version row) (db_profiles db)
         then Inl (ErrConstraint ''customer_recovery_profiles_key'')
         else Inr (db\<lparr>db_profiles := db_profiles db @ [row]\<rparr>))"

text \<open>Target, reason and reference of a resolution; \<open>None\<close> is the empty forced outcome.\<close>

definition resolution :: "PromiseStatus option \<Rightarrow> CaseState \<Rightarrow> time \<Rightarrow> time \<Rightarrow> PromiseStatus \<times> string \<times> string" where
  "resolution forced state deadline now =
     (case forced of Some forcedOutcome \<Rightarrow> (forcedOutcome, ''DEMO_OUTCOME_SIMULATION'', ''demo-control'')
      | None \<Rightarrow>
          if state = StateRecovered then (PromiseFulfilled, ''CASE_RECOVERED'', ''case-state'')
          else if deadline \<le> now then (PromiseExpired, ''RECOVERY_WINDOW_EXPIRED'', [])
          else (PromiseBroken, ''PAYMENT_NOT_OBSERVED'', []))"

definition completed_check :: "PromiseStatus \<Rightarrow> time \<Rightarrow> PromiseCheck \<Rightarrow> PromiseCheck" where
  "completed_check target now k = k\<lparr>ck_Status := CheckCompleted, ck_CompletedAt := Some now,
     ck_Result := Some (promise_status_string target), ck_LeaseOwner := None, ck_LeaseExpiresAt := None\<rparr>"

definition reopen_events :: "(nat \<Rightarrow> ID) \<Rightarrow> PromiseToPay \<Rightarrow> CaseState \<Rightarrow> time \<Rightarrow> RecoveryEvent list" where
  "reopen_events fresh p state now =
     (let ev = (\<lambda>k src dst. event_of (fresh k) (pp_CaseID p) EventStateTransitioned now (system_actor ''promise-engine-v1'')
          (Some (JObj [(''from_state'', JStr (state_string src)), (''promise_id'', JStr (pp_ID p)),
            (''reason'', JStr ''BROKEN_PROMISE''), (''to_state'', JStr (state_string dst))])) (''promise-check:'' @ pp_ID p))
      in [ev 2 state StateReassessing, ev 3 StateReassessing StateActionPending])"

text \<open>A broken promise sends a case that was waiting for it back to the next decision.\<close>

definition reopen_case :: "(nat \<Rightarrow> ID) \<Rightarrow> PromiseToPay \<Rightarrow> CaseState \<Rightarrow> PromiseStatus \<Rightarrow> time \<Rightarrow> Database \<Rightarrow> (error, Database) result" where
  "reopen_case fresh p state target now db =
     (if target = PromiseBroken \<and> (state = StateWaitingOutcome \<or> state = StateEscalated) then
        append_events (update_case (pp_CaseID p) (advance StateActionPending now)
          (update_case (pp_CaseID p) (advance StateReassessing now) db)) (pp_CaseID p) (reopen_events fresh p state now)
      else Inr db)"

definition resolvePromise :: "(nat \<Rightarrow> ID) \<Rightarrow> ID \<Rightarrow> PromiseStatus option \<Rightarrow> time \<Rightarrow> PromiseToPay tx" where
  "resolvePromise fresh promiseID forced now db =
     (case lookup pp_ID promiseID (db_promises db) of None \<Rightarrow> Inl ErrNoRows
      | Some p \<Rightarrow>
          if pp_Status p \<noteq> PromiseActive then Inl ErrConflict
          else (case find_case db (pp_CaseID p) of None \<Rightarrow> Inl ErrNoRows
            | Some c \<Rightarrow>
                (case resolution forced (rc_CurrentState c) (rc_RecoveryDeadline c) now of (target, reason, reference) \<Rightarrow>
                   andThen (transitionPromiseTx fresh p target reason (''promise-check:'' @ pp_ID p) reference now db) (\<lambda>(resolved, db).
                   andThen (reopen_case fresh p (rc_CurrentState c) target now
                      (update_checks (pp_ID p) (completed_check target now) db)) (\<lambda>db.
                   andThen (if target = PromiseBroken \<or> target = PromiseFulfilled
                      then updatePromiseReliability (fresh 4) (pp_CustomerID p) now db else Inr db) (\<lambda>db.
                   Inr (resolved, db)))))))"

definition ResolveDuePromise :: "(nat \<Rightarrow> ID) \<Rightarrow> ID \<Rightarrow> time \<Rightarrow> PromiseToPay tx" where
  "ResolveDuePromise fresh promiseID now = resolvePromise fresh promiseID None now"

definition ResolvePromiseForDemo :: "(nat \<Rightarrow> ID) \<Rightarrow> ID \<Rightarrow> PromiseStatus \<Rightarrow> time \<Rightarrow> PromiseToPay tx" where
  "ResolvePromiseForDemo fresh promiseID wanted now db =
     (if wanted \<noteq> PromiseFulfilled \<and> wanted \<noteq> PromiseBroken then Inl (ErrMsg ''invalid demo promise outcome'')
      else resolvePromise fresh promiseID (Some wanted) now db)"

section \<open>What the operations change\<close>

lemma insert_promiseD:
  assumes "insert_promise p db = Inr db'"
  shows "db' = db\<lparr>db_promises := db_promises db @ [new_promise p]\<rparr>" "lookup pp_ID (pp_ID p) (db_promises db) = None"
    "\<forall>q \<in> set (db_promises db). pp_CaseID q = pp_CaseID p \<longrightarrow> pp_Status q \<noteq> PromiseActive"
  using assms by (auto simp: insert_promise_def list_ex_iff split: if_splits)

lemma insert_checkD:
  assumes "insert_check k db = Inr db'"
  shows "db' = db\<lparr>db_checks := db_checks db @ [k]\<rparr>"
    "lookup ck_ID (ck_ID k) (db_checks db) = None" "lookup ck_PromiseID (ck_PromiseID k) (db_checks db) = None"
  using assms by (auto simp: insert_check_def list_ex_iff lookup_None split: if_splits)

lemma insert_promise_eventD:
  "insert_promise_event e db = Inr db' \<Longrightarrow> db' = db\<lparr>db_promise_events := db_promise_events db @ [e]\<rparr>"
  by (auto simp: insert_promise_event_def split: if_splits)

lemma new_promise_simps [simp]:
  "pp_ID (new_promise p) = pp_ID p" "pp_CaseID (new_promise p) = pp_CaseID p" "pp_DueAt (new_promise p) = pp_DueAt p"
  "pp_CustomerID (new_promise p) = pp_CustomerID p" "pp_Status (new_promise p) = PromiseActive"
  "pp_SourceResponseID (new_promise p) = pp_SourceResponseID p"
  by (simp_all add: new_promise_def)

lemma check_of_simps [simp]:
  "ck_ID (check_of n p) = n" "ck_PromiseID (check_of n p) = pp_ID p" "ck_ScheduledFor (check_of n p) = pp_DueAt p"
  "ck_Status (check_of n p) = CheckPending"
  by (simp_all add: check_of_def)

lemma resolved_promise_simps [simp]:
  "pp_ID (resolved_promise t ref now p) = pp_ID p" "pp_CaseID (resolved_promise t ref now p) = pp_CaseID p"
  "pp_CustomerID (resolved_promise t ref now p) = pp_CustomerID p" "pp_DueAt (resolved_promise t ref now p) = pp_DueAt p"
  "pp_Status (resolved_promise t ref now p) = t" "pp_SourceResponseID (resolved_promise t ref now p) = pp_SourceResponseID p"
  "pp_ResolvedAt (resolved_promise t ref now p) = Some now"
  by (cases t; simp add: resolved_promise_def)+

lemma CreatePromiseD:
  assumes "CreatePromise fresh p corr db = Inr ((q, created), db')"
  obtains (existing) c where "find_case db (pp_CaseID p) = Some c"
      "existing_promise p db = Some q" "created = False" "db' = db"
  | (inserted) c e d where "find_case db (pp_CaseID p) = Some c" "q = p\<lparr>pp_CustomerID := rc_CustomerID c\<rparr>" "created = True"
      "existing_promise p db = None" "insert_promise q db = Inr (db\<lparr>db_promises := db_promises db @ [new_promise q]\<rparr>)"
      "insert_check (check_of (fresh 0) q) (db\<lparr>db_promises := db_promises db @ [new_promise q]\<rparr>) = Inr (db\<lparr>db_promises := db_promises db @ [new_promise q], db_checks := db_checks db @ [check_of (fresh 0) q]\<rparr>)"
      "d = db\<lparr>db_promises := db_promises db @ [new_promise q], db_checks := db_checks db @ [check_of (fresh 0) q],
         db_promise_events := db_promise_events db @ [e]\<rparr>"
      "append_events d (pp_CaseID p) (creation_events fresh q corr) = Inr db'"
proof -
  obtain c where c: "find_case db (pp_CaseID p) = Some c"
    using assms by (auto simp: CreatePromise_def split: option.splits)
  let ?p = "p\<lparr>pp_CustomerID := rc_CustomerID c\<rparr>"
  have ex: "existing_promise ?p db = existing_promise p db" by (simp add: existing_promise_def)
  show ?thesis
  proof (cases "existing_promise p db")
    case (Some r)
    then have "r = q" "created = False" "db' = db" using assms c by (auto simp: CreatePromise_def ex)
    then show ?thesis using Some c existing by simp
  next
    case None
    note run = assms [unfolded CreatePromise_def c option.case Let_def ex None]
    obtain d1 where d1: "insert_promise ?p db = Inr d1" using run by (auto simp: andThen_Inr)
    note i1 = insert_promiseD [OF d1]
    obtain d2 where d2: "insert_check (check_of (fresh 0) ?p) d1 = Inr d2" using run d1 by (auto simp: andThen_Inr)
    note i2 = insert_checkD [OF d2]
    obtain e d3 where d3: "insert_promise_event e d2 = Inr d3"
      and ev: "append_events d3 (pp_CaseID ?p) (creation_events fresh ?p corr) = Inr db'" and q: "q = ?p" "created = True"
      using run d1 d2 by (auto simp: andThen_Inr)
    note i3 = insert_promise_eventD [OF d3]
    show ?thesis
      by (rule inserted [of c d3 e]) (use c None ev d1 d2 in \<open>simp_all add: i1(1) i2(1) i3 q\<close>)
  qed
qed

lemma transitionPromiseTxD:
  assumes "transitionPromiseTx fresh p target reason corr reference now db = Inr (q, db')"
  obtains d e ev where "pp_Status p = PromiseActive" "target \<noteq> PromiseActive" "q = resolved_promise target reference now p"
    "d = update_promise (pp_ID p) (resolved_promise target reference now) db\<lparr>db_promise_events := db_promise_events db @ [e]\<rparr>"
    "append_events d (pp_CaseID p) [ev] = Inr db'" "ev_CaseID ev = pp_CaseID p" "ev_Type ev = resolution_event target"
    "ev_Timestamp ev = now"
proof -
  have a: "pp_Status p = PromiseActive" "target \<noteq> PromiseActive"
    using assms by (auto simp: transitionPromiseTx_def split: if_splits)
  note run = assms [unfolded transitionPromiseTx_def Let_def, simplified a, simplified]
  obtain e d where d: "insert_promise_event e (update_promise (pp_ID p) (resolved_promise target reference now) db) = Inr d"
    and ev: "append_events d (pp_CaseID p) [event_of (fresh 1) (pp_CaseID p) (resolution_event target) now
            (system_actor ''promise-engine-v1'') (transition_payload p target reason reference) corr] = Inr db'"
    and q: "q = resolved_promise target reference now p"
    using run by (auto simp: andThen_Inr)
  show ?thesis
    by (rule that [OF a q _ ev]) (use insert_promise_eventD [OF d] in \<open>simp_all add: event_of_def update_promise_def\<close>)
qed

text \<open>What closing a promise does to the two tables of the ledger, whichever operation closes it.\<close>

definition closes :: "ID \<Rightarrow> PromiseStatus \<Rightarrow> time \<Rightarrow> Database \<Rightarrow> Database \<Rightarrow> bool" where
  "closes i target now db db' \<longleftrightarrow> target \<noteq> PromiseActive
     \<and> (\<exists>p. lookup pp_ID i (db_promises db) = Some p \<and> pp_Status p = PromiseActive)
     \<and> (\<exists>reference. db_promises db' = modify pp_ID i (resolved_promise target reference now) (db_promises db))
     \<and> (\<exists>g. db_checks db' = modify ck_PromiseID i g (db_checks db)
          \<and> (\<forall>k. ck_ID (g k) = ck_ID k \<and> ck_PromiseID (g k) = ck_PromiseID k \<and> ck_ScheduledFor (g k) = ck_ScheduledFor k
            \<and> ck_Status (g k) \<notin> {CheckPending, CheckClaimed}))"

lemma cancelled_check_simps [simp]:
  "ck_ID (cancelled_check t now k) = ck_ID k" "ck_PromiseID (cancelled_check t now k) = ck_PromiseID k"
  "ck_ScheduledFor (cancelled_check t now k) = ck_ScheduledFor k"
  "ck_Status (cancelled_check t now k) \<noteq> CheckPending" "ck_Status (cancelled_check t now k) \<noteq> CheckClaimed"
  by (simp_all add: cancelled_check_def)

lemma completed_check_simps [simp]:
  "ck_ID (completed_check t now k) = ck_ID k" "ck_PromiseID (completed_check t now k) = ck_PromiseID k"
  "ck_ScheduledFor (completed_check t now k) = ck_ScheduledFor k"
  "ck_Status (completed_check t now k) = CheckCompleted"
  by (simp_all add: completed_check_def)

lemma append_events_ledger:
  assumes "append_events db i es = Inr db'"
  shows "db_promises db' = db_promises db" "db_checks db' = db_checks db" "db_cases db' = db_cases db"
    "db_profiles db' = db_profiles db" "db_scheduled db' = db_scheduled db"
  by (simp_all add: append_events_log [OF assms])

lemma update_case_ledger [simp]:
  "db_promises (update_case i f db) = db_promises db" "db_checks (update_case i f db) = db_checks db"
  "db_profiles (update_case i f db) = db_profiles db" "db_scheduled (update_case i f db) = db_scheduled db"
  by (simp_all add: update_case_def)

lemma update_promise_tables [simp]:
  "db_promises (update_promise i f db) = modify pp_ID i f (db_promises db)" "db_checks (update_promise i f db) = db_checks db"
  "db_cases (update_promise i f db) = db_cases db" "db_events (update_promise i f db) = db_events db"
  "db_profiles (update_promise i f db) = db_profiles db" "db_scheduled (update_promise i f db) = db_scheduled db"
  "find_case (update_promise i f db) j = find_case db j"
  by (simp_all add: update_promise_def find_case_def)

lemma update_checks_tables [simp]:
  "db_checks (update_checks i f db) = modify ck_PromiseID i f (db_checks db)" "db_promises (update_checks i f db) = db_promises db"
  "db_cases (update_checks i f db) = db_cases db" "db_events (update_checks i f db) = db_events db"
  "db_profiles (update_checks i f db) = db_profiles db" "db_scheduled (update_checks i f db) = db_scheduled db"
  "find_case (update_checks i f db) j = find_case db j"
  by (simp_all add: update_checks_def find_case_def)

lemma lawful_transitionPromiseTx:
  assumes "transitionPromiseTx fresh p target reason corr reference now db = Inr (q, db')"
  shows "lawful db db'"
proof -
  obtain d e ev where d: "d = update_promise (pp_ID p) (resolved_promise target reference now) db\<lparr>db_promise_events := db_promise_events db @ [e]\<rparr>"
    and ev: "append_events d (pp_CaseID p) [ev] = Inr db'" "ev_CaseID ev = pp_CaseID p"
    using assms by (rule transitionPromiseTxD)
  have "lawful db d" by (rule lawful_other_tables) (simp_all add: d)
  moreover have "lawful d db'" using ev by (intro lawful_append_events [OF ev(1)]) simp
  ultimately show ?thesis by (rule lawful_trans)
qed

lemma transitionPromiseD:
  assumes "transitionPromise fresh i target reason corr reference now db = Inr (q, db')"
  shows "closes i target now db db'" "lawful db db'" "db_cases db' = db_cases db"
    "pp_ID q = i \<and> pp_Status q = target"
proof -
  obtain p d where p: "lookup pp_ID i (db_promises db) = Some p"
    and d: "transitionPromiseTx fresh p target reason corr reference now db = Inr (q, d)"
    and db': "db' = update_checks i (cancelled_check target now) d"
    using assms by (auto simp: transitionPromise_def andThen_Inr split: option.splits)
  obtain d0 e ev where t: "pp_Status p = PromiseActive" "target \<noteq> PromiseActive" "q = resolved_promise target reference now p"
    and d0: "d0 = update_promise (pp_ID p) (resolved_promise target reference now) db\<lparr>db_promise_events := db_promise_events db @ [e]\<rparr>"
    and ev: "append_events d0 (pp_CaseID p) [ev] = Inr d"
    using d by (rule transitionPromiseTxD)
  have i: "pp_ID p = i" using p lookup_SomeD by metis
  note a = append_events_ledger [OF ev, unfolded d0, simplified]
  have c: "db_checks db' = modify ck_PromiseID i (cancelled_check target now) (db_checks db)" by (simp add: db' a)
  have "db_promises db' = modify pp_ID i (resolved_promise target reference now) (db_promises db)" by (simp add: db' a i)
  then show "closes i target now db db'"
    unfolding closes_def using t p c by (fastforce intro: exI [of _ "cancelled_check target now"])
  show "lawful db db'"
    using lawful_trans [OF lawful_transitionPromiseTx [OF d] lawful_other_tables [of db' d]] by (simp add: db')
  show "db_cases db' = db_cases db" by (simp add: db' a)
  show "pp_ID q = i \<and> pp_Status q = target" by (simp add: t i)
qed

lemma updatePromiseReliabilityD:
  assumes "updatePromiseReliability n customerID now db = Inr db'"
  obtains row where "db' = db\<lparr>db_profiles := db_profiles db @ [row]\<rparr>" "pf_CustomerID row = customerID"
    "pf_PromiseReliability row = promise_reliability customerID db" "pf_UpdatedAt row = now"
    "pf_Version row = (case latest pf_Version (filter (\<lambda>p. pf_CustomerID p = customerID) (db_profiles db)) of
       Some p \<Rightarrow> pf_Version p | None \<Rightarrow> 0) + 1"
proof -
  define base where "base = (case latest pf_Version (filter (\<lambda>p. pf_CustomerID p = customerID) (db_profiles db)) of
      Some p \<Rightarrow> p
    | None \<Rightarrow> \<lparr>pf_ID = [], pf_CustomerID = customerID, pf_SuccessfulPayments = 0, pf_FailedPayments = 0,
        pf_SubscriptionTenureDays = 0, pf_PromiseReliability = 0, pf_FatigueScore = 0, pf_Features = emptyObject,
        pf_Version = 0, pf_UpdatedAt = 0\<rparr>)"
  have cu: "pf_CustomerID base = customerID"
    using latest_Some(1) by (fastforce simp: base_def split: option.split)
  have v: "pf_Version base = (case latest pf_Version (filter (\<lambda>p. pf_CustomerID p = customerID) (db_profiles db)) of
       Some p \<Rightarrow> pf_Version p | None \<Rightarrow> 0)"
    by (simp add: base_def split: option.split)
  define row where "row = base\<lparr>pf_ID := n, pf_PromiseReliability := promise_reliability customerID db,
    pf_Version := pf_Version base + 1, pf_UpdatedAt := now\<rparr>"
  have "db' = db\<lparr>db_profiles := db_profiles db @ [row]\<rparr>"
    using assms unfolding updatePromiseReliability_def Let_def base_def [symmetric] row_def [symmetric]
    by (simp split: if_splits)
  then show ?thesis using cu v by (intro that [of row]) (simp_all add: row_def)
qed

text \<open>What resolution does to the case of the promise.\<close>

definition reopened :: "PromiseStatus \<Rightarrow> time \<Rightarrow> RecoveryCase \<Rightarrow> RecoveryCase" where
  "reopened target now c =
     (if target = PromiseBroken \<and> (rc_CurrentState c = StateWaitingOutcome \<or> rc_CurrentState c = StateEscalated)
      then advance StateActionPending now (advance StateReassessing now c) else c)"

lemma reopen_events_case: "\<forall>e \<in> set (reopen_events fresh p state now). ev_CaseID e = pp_CaseID p"
  by (simp add: reopen_events_def event_of_def)

lemma reopen_caseD:
  assumes "reopen_case fresh p (rc_CurrentState c) target now db = Inr db'" and "find_case db (pp_CaseID p) = Some c"
  shows "lawful db db'" "find_case db' j = (if j = pp_CaseID p then Some (reopened target now c) else find_case db j)"
    "db_promises db' = db_promises db" "db_checks db' = db_checks db" "db_profiles db' = db_profiles db"
proof -
  let ?moves = "target = PromiseBroken \<and> (rc_CurrentState c = StateWaitingOutcome \<or> rc_CurrentState c = StateEscalated)"
  let ?d = "update_case (pp_CaseID p) (advance StateActionPending now) (update_case (pp_CaseID p) (advance StateReassessing now) db)"
  have *: "(if ?moves then append_events ?d (pp_CaseID p) (reopen_events fresh p (rc_CurrentState c) now) else Inr db) = Inr db'"
    using assms(1) by (simp add: reopen_case_def)
  show "lawful db db'"
  proof (cases ?moves)
    case True
    then have a: "append_events ?d (pp_CaseID p) (reopen_events fresh p (rc_CurrentState c) now) = Inr db'" using * by simp
    have "lawful db ?d" using assms(2) True by (intro lawful_two_steps) (auto simp: CanTransition_def)
    then show ?thesis using lawful_append_events [OF a reopen_events_case] lawful_trans by blast
  next
    case False
    then show ?thesis using * by (auto split: if_splits)
  qed
  have "find_case db' j = (if j = pp_CaseID p then Some (reopened target now c) else find_case db j)
        \<and> db_promises db' = db_promises db \<and> db_checks db' = db_checks db \<and> db_profiles db' = db_profiles db"
  proof (cases ?moves)
    case True
    then have a: "append_events ?d (pp_CaseID p) (reopen_events fresh p (rc_CurrentState c) now) = Inr db'" using * by simp
    then show ?thesis
      using True append_events_case [OF a] append_events_ledger [OF a] by (simp add: reopened_def find_update_advance assms(2))
  next
    case False
    then have "db' = db" using * by (auto split: if_splits)
    then show ?thesis
      using False assms(2) by (auto simp: reopened_def)
  qed
  then show "find_case db' j = (if j = pp_CaseID p then Some (reopened target now c) else find_case db j)"
    "db_promises db' = db_promises db" "db_checks db' = db_checks db" "db_profiles db' = db_profiles db"
    by simp_all
qed

lemma closes_cong:
  "closes i t now db d \<Longrightarrow> db_promises db' = db_promises d \<Longrightarrow> db_checks db' = db_checks d \<Longrightarrow> closes i t now db db'"
  by (simp add: closes_def)

lemma resolvePromiseD:
  assumes "resolvePromise fresh i forced now db = Inr (q, db')"
  obtains p c target reason reference where "lookup pp_ID i (db_promises db) = Some p" "pp_Status p = PromiseActive"
    "find_case db (pp_CaseID p) = Some c"
    "resolution forced (rc_CurrentState c) (rc_RecoveryDeadline c) now = (target, reason, reference)"
    "q = resolved_promise target reference now p" "closes i target now db db'" "lawful db db'"
    "\<forall>j. find_case db' j = (if j = pp_CaseID p then Some (reopened target now c) else find_case db j)"
    "db_promises db' = modify pp_ID i (resolved_promise target reference now) (db_promises db)"
    "if target = PromiseBroken \<or> target = PromiseFulfilled
      then \<exists>d. updatePromiseReliability (fresh 4) (pp_CustomerID p) now d = Inr db' \<and> db_profiles d = db_profiles db
             \<and> db_promises d = db_promises db'
      else db_profiles db' = db_profiles db"
proof -
  obtain p where p: "lookup pp_ID i (db_promises db) = Some p"
    using assms by (auto simp: resolvePromise_def split: option.splits)
  have i: "pp_ID p = i" using p lookup_SomeD by metis
  have act: "pp_Status p = PromiseActive" using assms p by (auto simp: resolvePromise_def split: if_splits)
  obtain c where c: "find_case db (pp_CaseID p) = Some c"
    using assms p act by (auto simp: resolvePromise_def split: option.splits)
  obtain target reason reference where r: "resolution forced (rc_CurrentState c) (rc_RecoveryDeadline c) now = (target, reason, reference)"
    by (metis prod_cases3)
  obtain d1 d2 where d1: "transitionPromiseTx fresh p target reason (''promise-check:'' @ pp_ID p) reference now db = Inr (q, d1)"
    and d2: "reopen_case fresh p (rc_CurrentState c) target now (update_checks (pp_ID p) (completed_check target now) d1) = Inr d2"
    and db': "(if target = PromiseBroken \<or> target = PromiseFulfilled
                 then updatePromiseReliability (fresh 4) (pp_CustomerID p) now d2 else Inr d2) = Inr db'"
    using assms by (auto simp: resolvePromise_def p act c r andThen_Inr)
  obtain d0 e ev where t: "target \<noteq> PromiseActive" "q = resolved_promise target reference now p"
    and d0: "d0 = update_promise (pp_ID p) (resolved_promise target reference now) db\<lparr>db_promise_events := db_promise_events db @ [e]\<rparr>"
    and ev: "append_events d0 (pp_CaseID p) [ev] = Inr d1"
    using d1 by (rule transitionPromiseTxD)
  note a = append_events_ledger [OF ev, unfolded d0, simplified]
  have c1: "find_case (update_checks (pp_ID p) (completed_check target now) d1) j = find_case db j" for j
    by (simp add: find_case_def a)
  note ro = reopen_caseD [OF d2 c1 [of "pp_CaseID p", unfolded c]]
  have pr: "db_promises db' = db_promises d2 \<and> db_checks db' = db_checks d2 \<and> db_cases db' = db_cases d2 \<and> db_events db' = db_events d2"
  proof (cases "target = PromiseBroken \<or> target = PromiseFulfilled")
    case True
    then have "updatePromiseReliability (fresh 4) (pp_CustomerID p) now d2 = Inr db'" using db' by simp
    then show ?thesis by (rule updatePromiseReliabilityD) simp
  qed (use db' in simp)
  have ps: "db_promises db' = modify pp_ID i (resolved_promise target reference now) (db_promises db)"
    using pr ro(3) a i by simp
  have "db_checks db' = modify ck_PromiseID i (completed_check target now) (db_checks db)" using pr ro(4) a i by simp
  then have cl: "closes i target now db db'"
    unfolding closes_def using t p act ps by (fastforce intro: exI [of _ "completed_check target now"])
  have "lawful d1 (update_checks (pp_ID p) (completed_check target now) d1)" by (rule lawful_other_tables) simp_all
  moreover have "lawful d2 db'" using pr by (intro lawful_other_tables) simp_all
  ultimately have "lawful db db'" using lawful_transitionPromiseTx [OF d1] ro(1) lawful_trans by blast
  moreover have "\<forall>j. find_case db' j = (if j = pp_CaseID p then Some (reopened target now c) else find_case db j)"
    using pr ro(2) c1 by (simp add: find_case_def)
  moreover have "if target = PromiseBroken \<or> target = PromiseFulfilled
      then \<exists>d. updatePromiseReliability (fresh 4) (pp_CustomerID p) now d = Inr db' \<and> db_profiles d = db_profiles db
             \<and> db_promises d = db_promises db'
      else db_profiles db' = db_profiles db"
    using db' pr ro(5) a by (auto split: if_splits)
  ultimately show ?thesis using that [OF p act c r t(2) cl _ _ ps] by blast
qed

section \<open>The ledger\<close>

definition open_check :: "PromiseCheck \<Rightarrow> bool" where
  "open_check k \<longleftrightarrow> ck_Status k \<in> {CheckPending, CheckClaimed}"

text \<open>
  The promises and their checks agree: ids identify rows, a case has one active promise at
  most, and every promise has exactly one check, due when the promise is, which is open exactly
  while the promise is active.
\<close>

definition ledger_ok :: "Database \<Rightarrow> bool" where
  "ledger_ok db \<longleftrightarrow> keyed pp_ID (db_promises db) \<and> keyed ck_ID (db_checks db) \<and> keyed ck_PromiseID (db_checks db)
     \<and> (\<forall>i j p q. lookup pp_ID i (db_promises db) = Some p \<longrightarrow> lookup pp_ID j (db_promises db) = Some q
          \<longrightarrow> pp_Status p = PromiseActive \<longrightarrow> pp_Status q = PromiseActive \<longrightarrow> pp_CaseID p = pp_CaseID q \<longrightarrow> i = j)
     \<and> (\<forall>i. case lookup pp_ID i (db_promises db) of None \<Rightarrow> lookup ck_PromiseID i (db_checks db) = None
          | Some p \<Rightarrow> \<exists>k. lookup ck_PromiseID i (db_checks db) = Some k \<and> ck_ScheduledFor k = pp_DueAt p
               \<and> (open_check k \<longleftrightarrow> pp_Status p = PromiseActive))"

text \<open>An update under one key, seen under another.\<close>

lemma lookup_modify_by:
  "(\<And>r. key (f r) = key r) \<Longrightarrow>
   lookup key k (modify key2 i f t) = map_option (\<lambda>r. if key2 r = i then f r else r) (lookup key k t)"
  by (induction t) (auto simp: modify_def lookup_Cons)

lemma keyed_modify_by: "(\<And>r. key (f r) = key r) \<Longrightarrow> keyed key (modify key2 i f t) = keyed key t"
  by (simp add: keyed_def modify_def comp_def if_distrib [of key] cong: if_cong)

lemma ledger_create:
  assumes "CreatePromise fresh p corr db = Inr ((q, created), db')" and "ledger_ok db"
  shows "ledger_ok db'"
  using assms(1)
proof (cases rule: CreatePromiseD)
  case (inserted c e d)
  note i1 = insert_promiseD [OF inserted(5)] and i2 = insert_checkD [OF inserted(6)]
  have ps: "db_promises db' = db_promises db @ [new_promise q]" "db_checks db' = db_checks db @ [check_of (fresh 0) q]"
    using append_events_ledger [OF inserted(8)] by (simp_all add: inserted(7))
  have look: "lookup pp_ID j (db_promises db') = (if j = pp_ID q then Some (new_promise q) else lookup pp_ID j (db_promises db))"
    "lookup ck_PromiseID j (db_checks db') = (if j = pp_ID q then Some (check_of (fresh 0) q) else lookup ck_PromiseID j (db_checks db))" for j
    using i1(2) i2(3) by (auto simp: ps lookup_append lookup_Cons split: option.split)
  have old: "pp_CaseID r \<noteq> pp_CaseID q" if "lookup pp_ID j (db_promises db) = Some r" "pp_Status r = PromiseActive" for j r
    using i1(3) that lookup_SomeD by fastforce
  have "keyed pp_ID (db_promises db')" "keyed ck_ID (db_checks db')" "keyed ck_PromiseID (db_checks db')"
    using assms(2) i1(2) i2(2,3) by (simp_all add: ps keyed_append ledger_ok_def)
  moreover have "\<forall>i j p q. lookup pp_ID i (db_promises db') = Some p \<longrightarrow> lookup pp_ID j (db_promises db') = Some q
      \<longrightarrow> pp_Status p = PromiseActive \<longrightarrow> pp_Status q = PromiseActive \<longrightarrow> pp_CaseID p = pp_CaseID q \<longrightarrow> i = j"
    using assms(2) unfolding look(1) ledger_ok_def by (auto dest: old split: if_splits)
  moreover have "case lookup pp_ID j (db_promises db') of None \<Rightarrow> lookup ck_PromiseID j (db_checks db') = None
      | Some p \<Rightarrow> \<exists>k. lookup ck_PromiseID j (db_checks db') = Some k \<and> ck_ScheduledFor k = pp_DueAt p
           \<and> (open_check k \<longleftrightarrow> pp_Status p = PromiseActive)" for j
    using assms(2) unfolding look ledger_ok_def by (simp add: open_check_def)
  ultimately show ?thesis by (simp add: ledger_ok_def)
qed (use assms(2) in simp)

lemma ledger_close:
  assumes "closes i target now db db'" and "ledger_ok db"
  shows "ledger_ok db'"
proof -
  obtain reference g where t: "target \<noteq> PromiseActive"
    and ps: "db_promises db' = modify pp_ID i (resolved_promise target reference now) (db_promises db)"
    and cs: "db_checks db' = modify ck_PromiseID i g (db_checks db)"
    and g: "\<And>k. ck_ID (g k) = ck_ID k" "\<And>k. ck_PromiseID (g k) = ck_PromiseID k" "\<And>k. ck_ScheduledFor (g k) = ck_ScheduledFor k"
      "\<And>k. \<not> open_check (g k)"
    using assms(1) unfolding closes_def open_check_def by blast
  have look: "lookup pp_ID j (db_promises db')
      = (if j = i then map_option (resolved_promise target reference now) (lookup pp_ID i (db_promises db)) else lookup pp_ID j (db_promises db))"
    "lookup ck_PromiseID j (db_checks db')
      = (if j = i then map_option g (lookup ck_PromiseID i (db_checks db)) else lookup ck_PromiseID j (db_checks db))" for j
    by (simp_all add: ps cs lookup_modify g)
  have "keyed pp_ID (db_promises db')" "keyed ck_ID (db_checks db')" "keyed ck_PromiseID (db_checks db')"
    using assms(2) by (simp_all add: ps cs keyed_modify_by g ledger_ok_def)
  moreover have "\<forall>i j p q. lookup pp_ID i (db_promises db') = Some p \<longrightarrow> lookup pp_ID j (db_promises db') = Some q
      \<longrightarrow> pp_Status p = PromiseActive \<longrightarrow> pp_Status q = PromiseActive \<longrightarrow> pp_CaseID p = pp_CaseID q \<longrightarrow> i = j"
    using assms(2) t unfolding look(1) ledger_ok_def by (auto split: if_splits)
  moreover have "case lookup pp_ID j (db_promises db') of None \<Rightarrow> lookup ck_PromiseID j (db_checks db') = None
      | Some p \<Rightarrow> \<exists>k. lookup ck_PromiseID j (db_checks db') = Some k \<and> ck_ScheduledFor k = pp_DueAt p
           \<and> (open_check k \<longleftrightarrow> pp_Status p = PromiseActive)" for j
  proof -
    have "case lookup pp_ID j (db_promises db) of None \<Rightarrow> lookup ck_PromiseID j (db_checks db) = None
      | Some p \<Rightarrow> \<exists>k. lookup ck_PromiseID j (db_checks db) = Some k \<and> ck_ScheduledFor k = pp_DueAt p
           \<and> (open_check k \<longleftrightarrow> pp_Status p = PromiseActive)"
      using assms(2) by (simp add: ledger_ok_def)
    then show ?thesis unfolding look using t g by (auto split: option.splits)
  qed
  ultimately show ?thesis by (simp add: ledger_ok_def)
qed

lemma ledger_claim:
  assumes "ClaimDuePromise w now lease db = (r, db')" and "ledger_ok db"
  shows "ledger_ok db'"
proof (cases "claim (check_ready now) ck_ScheduledFor ck_ID (grant_check w now lease) (db_checks db)")
  case None
  then show ?thesis using assms by (simp add: ClaimDuePromise_def)
next
  case (Some kt)
  obtain k t where kt: "kt = (k, t)" by (cases kt)
  obtain k0 where k0: "check_ready now k0" "k0 \<in> set (db_checks db)" "t = modify ck_ID (ck_ID k0) (grant_check w now lease) (db_checks db)"
    using Some kt by (auto elim: claim_Some)
  have db': "db' = db\<lparr>db_checks := t\<rparr>" using assms(1) Some kt by (simp add: ClaimDuePromise_def Let_def)
  have g: "ck_ID (grant_check w now lease x) = ck_ID x" "ck_PromiseID (grant_check w now lease x) = ck_PromiseID x"
    "ck_ScheduledFor (grant_check w now lease x) = ck_ScheduledFor x" "open_check (grant_check w now lease x)" for x
    by (simp_all add: grant_check_def open_check_def)
  have u: "keyed ck_ID (db_checks db)" using assms(2) by (simp add: ledger_ok_def)
  have same: "open_check x" if "lookup ck_PromiseID j (db_checks db) = Some x" "ck_ID x = ck_ID k0" for j x
  proof -
    have "x = k0" using lookup_keyed [OF u, of x] lookup_keyed [OF u k0(2)] lookup_SomeD [OF that(1)] that(2) by (metis option.inject)
    then show ?thesis using k0(1) by (auto simp: open_check_def check_ready_def)
  qed
  have look: "lookup ck_PromiseID j (db_checks db')
      = map_option (\<lambda>x. if ck_ID x = ck_ID k0 then grant_check w now lease x else x) (lookup ck_PromiseID j (db_checks db))" for j
    by (simp add: db' k0(3) lookup_modify_by g)
  have "keyed ck_ID (db_checks db')" "keyed ck_PromiseID (db_checks db')"
    using assms(2) by (simp_all add: db' k0(3) keyed_modify_by g ledger_ok_def)
  moreover have "case lookup pp_ID j (db_promises db') of None \<Rightarrow> lookup ck_PromiseID j (db_checks db') = None
      | Some p \<Rightarrow> \<exists>k. lookup ck_PromiseID j (db_checks db') = Some k \<and> ck_ScheduledFor k = pp_DueAt p
           \<and> (open_check k \<longleftrightarrow> pp_Status p = PromiseActive)" for j
  proof -
    have "case lookup pp_ID j (db_promises db) of None \<Rightarrow> lookup ck_PromiseID j (db_checks db) = None
      | Some p \<Rightarrow> \<exists>k. lookup ck_PromiseID j (db_checks db) = Some k \<and> ck_ScheduledFor k = pp_DueAt p
           \<and> (open_check k \<longleftrightarrow> pp_Status p = PromiseActive)"
      using assms(2) by (simp add: ledger_ok_def)
    moreover have "open_check (if ck_ID x = ck_ID k0 then grant_check w now lease x else x) \<longleftrightarrow> open_check x"
        "ck_ScheduledFor (if ck_ID x = ck_ID k0 then grant_check w now lease x else x) = ck_ScheduledFor x"
      if "lookup ck_PromiseID j (db_checks db) = Some x" for x
      using same [OF that] g by simp_all
    ultimately show ?thesis
      unfolding look by (cases "lookup pp_ID j (db_promises db)"; cases "lookup ck_PromiseID j (db_checks db)") (simp_all add: db')
  qed
  moreover have ps: "db_promises db' = db_promises db" by (simp add: db')
  ultimately show ?thesis using assms(2) unfolding ledger_ok_def ps by blast
qed

section \<open>The life of the promises\<close>

text \<open>One committed operation of the store on promises.\<close>

inductive promise_step :: "Database \<Rightarrow> Database \<Rightarrow> bool" where
  create: "CreatePromise fresh p corr db = Inr (r, db') \<Longrightarrow> promise_step db db'"
| cancel: "CancelPromise fresh i corr now db = Inr (q, db') \<Longrightarrow> promise_step db db'"
| due: "ResolveDuePromise fresh i now db = Inr (q, db') \<Longrightarrow> promise_step db db'"
| demo: "ResolvePromiseForDemo fresh i wanted now db = Inr (q, db') \<Longrightarrow> promise_step db db'"
| claim: "ClaimDuePromise w now lease db = (r, db') \<Longrightarrow> promise_step db db'"

inductive_cases promise_stepE: "promise_step db db'"

text \<open>Promises are never removed, their terms are fixed, and a resolved one is final.\<close>

definition promises_kept :: "Database \<Rightarrow> Database \<Rightarrow> bool" where
  "promises_kept db db' \<longleftrightarrow> (\<forall>i p. lookup pp_ID i (db_promises db) = Some p \<longrightarrow>
     (\<exists>q. lookup pp_ID i (db_promises db') = Some q \<and> pp_CaseID q = pp_CaseID p \<and> pp_CustomerID q = pp_CustomerID p
        \<and> pp_DueAt q = pp_DueAt p \<and> (pp_Status p \<noteq> PromiseActive \<longrightarrow> q = p)))"

lemma promises_kept_trans: "promises_kept a b \<Longrightarrow> promises_kept b c \<Longrightarrow> promises_kept a c"
  unfolding promises_kept_def by metis

lemma promises_kept_same: "db_promises db' = db_promises db \<Longrightarrow> promises_kept db db'"
  by (simp add: promises_kept_def)

lemma closes_kept: "closes i t now db db' \<Longrightarrow> promises_kept db db'"
  by (auto simp: closes_def promises_kept_def lookup_modify)

lemma lawful_CreatePromise:
  assumes "CreatePromise fresh p corr db = Inr ((q, created), db')"
  shows "lawful db db' \<and> promises_kept db db' \<and> db_cases db' = db_cases db"
  using assms
proof (cases rule: CreatePromiseD)
  case (inserted c e d)
  have "\<forall>x \<in> set (creation_events fresh q corr). ev_CaseID x = pp_CaseID p"
    by (simp add: creation_events_def event_of_def inserted(2))
  then have "lawful d db'" by (rule lawful_append_events [OF inserted(8)])
  moreover have "lawful db d" by (rule lawful_other_tables) (simp_all add: inserted(7))
  moreover have "promises_kept db db'"
    by (simp add: promises_kept_def append_events_ledger [OF inserted(8)] inserted(7) lookup_append)
  ultimately show ?thesis
    using lawful_trans append_events_ledger [OF inserted(8)] inserted(7) by auto
qed (simp add: promises_kept_def)

lemma resolve_facts:
  assumes "resolvePromise fresh i forced now db = Inr (q, db')"
  shows "lawful db db'" "\<exists>t. closes i t now db db'"
  using assms by (auto elim: resolvePromiseD)

lemma demo_resolves:
  "ResolvePromiseForDemo fresh i wanted now db = Inr (q, db') \<Longrightarrow> resolvePromise fresh i (Some wanted) now db = Inr (q, db')"
  by (simp add: ResolvePromiseForDemo_def split: if_splits)

lemma promise_step_facts:
  assumes "promise_step db db'"
  shows "lawful db db' \<and> promises_kept db db' \<and> (ledger_ok db \<longrightarrow> ledger_ok db')"
  using assms
proof (cases rule: promise_step.cases)
  case (create fresh p corr r)
  then have c: "CreatePromise fresh p corr db = Inr ((fst r, snd r), db')" by simp
  show ?thesis using lawful_CreatePromise [OF c] ledger_create [OF c] by blast
next
  case (cancel fresh i corr now q)
  note t = transitionPromiseD [OF cancel [unfolded CancelPromise_def]]
  show ?thesis using t(2) closes_kept [OF t(1)] ledger_close [OF t(1)] by blast
next
  case (due fresh i now q)
  note t = resolve_facts [OF due [unfolded ResolveDuePromise_def]]
  show ?thesis using t closes_kept ledger_close by blast
next
  case (demo fresh i wanted now q)
  note t = resolve_facts [OF demo_resolves [OF demo]]
  show ?thesis using t closes_kept ledger_close by blast
next
  case (claim w now lease r)
  then have "db_cases db' = db_cases db" "db_events db' = db_events db" "db_promises db' = db_promises db"
    by (auto simp: ClaimDuePromise_def Let_def split: option.splits)
  then show ?thesis using ledger_claim [OF claim] lawful_other_tables promises_kept_same by blast
qed

text \<open>With unused ids, the resolution of an active promise never fails.\<close>

lemma transition_succeeds:
  assumes "well_formed db" and "pp_Status p = PromiseActive" and "target \<noteq> PromiseActive" and "find_case db (pp_CaseID p) \<noteq> None"
    and "\<forall>x \<in> set (db_promise_events db). pe_ID x \<noteq> fresh 0 \<and> (pe_PromiseID x = pp_ID p \<longrightarrow> pe_CorrelationID x \<noteq> corr)"
    and "fresh 1 \<notin> ev_ID ` set (db_events db)"
  shows "\<exists>d e. transitionPromiseTx fresh p target reason corr reference now db = Inr (resolved_promise target reference now p, d)
    \<and> well_formed d \<and> db_events d = db_events db @ [e] \<and> ev_ID e = fresh 1"
proof -
  define payload where "payload = transition_payload p target reason reference"
  define x where "x = \<lparr>pe_ID = fresh 0, pe_PromiseID = pp_ID p, pe_CaseID = pp_CaseID p, pe_FromStatus = Some (pp_Status p),
      pe_ToStatus = target, pe_ReasonCode = reason, pe_Payload = payload, pe_OccurredAt = now, pe_CorrelationID = corr\<rparr>"
  define d0 where "d0 = update_promise (pp_ID p) (resolved_promise target reference now) db\<lparr>db_promise_events := db_promise_events db @ [x]\<rparr>"
  define e where "e = event_of (fresh 1) (pp_CaseID p) (resolution_event target) now (system_actor ''promise-engine-v1'') payload corr"
  have i: "insert_promise_event x (update_promise (pp_ID p) (resolved_promise target reference now) db) = Inr d0"
    using assms(5) by (auto simp: insert_promise_event_def x_def d0_def list_ex_iff update_promise_def)
  have "lawful db d0" by (rule lawful_other_tables) (simp_all add: d0_def)
  then have w: "well_formed d0" using assms(1) by (simp add: lawful_def)
  have a: "append_events d0 (pp_CaseID p) [e] = Inr (d0\<lparr>db_events := db_events d0 @ numbered (nextSequence d0 (pp_CaseID p)) [e]\<rparr>)"
    using w assms(4,6) by (intro append_events_ok) (simp_all add: d0_def e_def event_of_def find_case_def)
  have t: "transitionPromiseTx fresh p target reason corr reference now db
      = Inr (resolved_promise target reference now p, d0\<lparr>db_events := db_events d0 @ numbered (nextSequence d0 (pp_CaseID p)) [e]\<rparr>)"
    using assms(2,3) i a by (simp add: transitionPromiseTx_def x_def e_def payload_def del: numbered.simps)
  have "lawful db (d0\<lparr>db_events := db_events d0 @ numbered (nextSequence d0 (pp_CaseID p)) [e]\<rparr>)"
    by (rule lawful_transitionPromiseTx [OF t])
  then show ?thesis using t assms(1) by (auto simp: lawful_def d0_def e_def event_of_def)
qed

lemma reliability_succeeds:
  assumes "\<forall>x \<in> set (db_profiles db). pf_ID x \<noteq> n"
  shows "\<exists>d. updatePromiseReliability n customerID now db = Inr d"
proof -
  define base where "base = (case latest pf_Version (filter (\<lambda>p. pf_CustomerID p = customerID) (db_profiles db)) of
      Some p \<Rightarrow> p
    | None \<Rightarrow> \<lparr>pf_ID = [], pf_CustomerID = customerID, pf_SuccessfulPayments = 0, pf_FailedPayments = 0,
        pf_SubscriptionTenureDays = 0, pf_PromiseReliability = 0, pf_FatigueScore = 0, pf_Features = emptyObject,
        pf_Version = 0, pf_UpdatedAt = 0\<rparr>)"
  have "pf_Version x \<noteq> pf_Version base + 1" if x: "x \<in> set (db_profiles db)" "pf_CustomerID x = customerID" for x
  proof (cases "latest pf_Version (filter (\<lambda>p. pf_CustomerID p = customerID) (db_profiles db))")
    case None
    then have "filter (\<lambda>p. pf_CustomerID p = customerID) (db_profiles db) = []" by (simp only: latest_None)
    then show ?thesis using x by (simp add: filter_empty_conv)
  next
    case (Some g)
    then have "pf_Version base = pf_Version g" by (simp add: base_def)
    moreover have "pf_Version x \<le> pf_Version g" using latest_Some(2) [OF Some, of x] x by simp
    ultimately show ?thesis by simp
  qed
  then have "\<not> list_ex (\<lambda>x. pf_ID x = n \<or> pf_CustomerID x = customerID \<and> pf_Version x = pf_Version base + 1) (db_profiles db)"
    using assms by (auto simp: list_ex_iff)
  then show ?thesis unfolding updatePromiseReliability_def Let_def base_def [symmetric] by simp
qed

lemma resolve_succeeds:
  assumes "well_formed db" and p: "lookup pp_ID i (db_promises db) = Some p" "pp_Status p = PromiseActive"
    and c: "find_case db (pp_CaseID p) = Some c" and "forced \<noteq> Some PromiseActive" and "inj fresh"
    and "\<forall>k. fresh k \<notin> ev_ID ` set (db_events db)" and "\<forall>x \<in> set (db_profiles db). pf_ID x \<noteq> fresh 4"
    and "\<forall>x \<in> set (db_promise_events db). pe_ID x \<noteq> fresh 0 \<and> (pe_PromiseID x = i \<longrightarrow> pe_CorrelationID x \<noteq> ''promise-check:'' @ i)"
  shows "\<exists>q db'. resolvePromise fresh i forced now db = Inr (q, db')"
proof -
  have i: "pp_ID p = i" using p lookup_SomeD by metis
  obtain target reason reference where r: "resolution forced (rc_CurrentState c) (rc_RecoveryDeadline c) now = (target, reason, reference)"
    by (metis prod_cases3)
  then have t: "target \<noteq> PromiseActive" using assms(5) by (auto simp: resolution_def split: option.splits if_splits)
  obtain d e where d: "transitionPromiseTx fresh p target reason (''promise-check:'' @ pp_ID p) reference now db
        = Inr (resolved_promise target reference now p, d)" "well_formed d" "db_events d = db_events db @ [e]" "ev_ID e = fresh 1"
    using transition_succeeds [OF assms(1) p(2) t, of fresh "''promise-check:'' @ pp_ID p" reason reference now] c assms(7,9) i by auto
  obtain d0 x ev where "d0 = update_promise (pp_ID p) (resolved_promise target reference now) db\<lparr>db_promise_events := db_promise_events db @ [x]\<rparr>"
    and "append_events d0 (pp_CaseID p) [ev] = Inr d" using d(1) by (rule transitionPromiseTxD)
  then have keep: "find_case d j = find_case db j" "db_profiles d = db_profiles db" for j
    by (simp_all add: append_events_ledger find_case_def)
  let ?d = "update_checks (pp_ID p) (completed_check target now) d"
  have w: "well_formed ?d" using d(2) well_formed_cong [of ?d d] by simp
  have "\<exists>d2. reopen_case fresh p (rc_CurrentState c) target now ?d = Inr d2"
  proof (cases "target = PromiseBroken \<and> (rc_CurrentState c = StateWaitingOutcome \<or> rc_CurrentState c = StateEscalated)")
    case True
    let ?u = "update_case (pp_CaseID p) (advance StateActionPending now) (update_case (pp_CaseID p) (advance StateReassessing now) ?d)"
    have "well_formed ?u" by (intro well_formed_update_case keeps_identity_advance w) (simp_all add: IsValid_def)
    moreover have "fresh 2 \<noteq> fresh 1" "fresh 3 \<noteq> fresh 1" "fresh 2 \<noteq> fresh 3" using assms(6) by (auto dest: injD)
    ultimately have "append_events ?u (pp_CaseID p) (reopen_events fresh p (rc_CurrentState c) now)
        = Inr (?u\<lparr>db_events := db_events ?u @ numbered (nextSequence ?u (pp_CaseID p)) (reopen_events fresh p (rc_CurrentState c) now)\<rparr>)"
      using assms(7) c by (intro append_events_ok) (auto simp: find_update_advance keep reopen_events_def event_of_def d(3,4) Let_def)
    then show ?thesis using True by (simp add: reopen_case_def)
  qed (auto simp: reopen_case_def)
  then obtain d2 where d2: "reopen_case fresh p (rc_CurrentState c) target now ?d = Inr d2" by blast
  have "db_profiles d2 = db_profiles db" using reopen_caseD(5) [OF d2] c keep by simp
  then obtain d3 where "updatePromiseReliability (fresh 4) (pp_CustomerID p) now d2 = Inr d3"
    using reliability_succeeds assms(8) by fastforce
  then show ?thesis using p c r d(1) d2 by (simp add: resolvePromise_def)
qed

section \<open>Properties\<close>

text \<open>C20. Whatever sequence of creations, cancellations, claims of due checks and resolutions runs, the
  ledger of promises stays in order (a case has one active promise at most; every promise has
  exactly one check, due when it is, open exactly while it is active), no promise disappears or
  changes its terms, a resolved one is final, and cases only move along declared transitions.\<close>

theorem promise_ledger_invariant:
  assumes "promise_step\<^sup>*\<^sup>* db db'" and "ledger_ok db"
  shows "ledger_ok db' \<and> promises_kept db db' \<and> lawful db db'"
  using assms
proof (induction rule: rtranclp_induct)
  case base
  then show ?case by (simp add: promises_kept_same)
next
  case (step d d')
  then show ?case using promise_step_facts [OF step.hyps(2)] promises_kept_trans lawful_trans by blast
qed

text \<open>C21. The due check of an active promise settles it once: it is fulfilled if the case has been
  recovered, expired if the recovery window is over, and broken otherwise; the result is what
  is stored; a broken promise takes a case that was waiting or escalated back to the next
  decision, whose preparation then has nothing left to do, and every other case is untouched;
  and no later resolution of the promise, due or forced, succeeds.\<close>

theorem due_promise_resolution:
  assumes "ResolveDuePromise fresh i now db = Inr (q, db')"
  shows "\<exists>p c. lookup pp_ID i (db_promises db) = Some p \<and> pp_Status p = PromiseActive
     \<and> find_case db (pp_CaseID p) = Some c
     \<and> pp_Status q = (if rc_CurrentState c = StateRecovered then PromiseFulfilled
          else if rc_RecoveryDeadline c \<le> now then PromiseExpired else PromiseBroken)
     \<and> pp_ResolvedAt q = Some now \<and> lookup pp_ID i (db_promises db') = Some q
     \<and> (\<forall>j. find_case db' j = (if j = pp_CaseID p then Some (reopened (pp_Status q) now c) else find_case db j))
     \<and> (pp_Status q = PromiseBroken \<and> rc_CurrentState c \<in> {StateWaitingOutcome, StateEscalated}
          \<longrightarrow> PrepareForDecision fresh2 (pp_CaseID p) now2 db' = Inr ((), db'))
     \<and> resolvePromise fresh2 i forced now2 db' = Inl ErrConflict"
proof -
  obtain p c target reason reference where p: "lookup pp_ID i (db_promises db) = Some p" "pp_Status p = PromiseActive"
    and c: "find_case db (pp_CaseID p) = Some c"
    and r: "resolution None (rc_CurrentState c) (rc_RecoveryDeadline c) now = (target, reason, reference)"
    and q: "q = resolved_promise target reference now p" and cl: "closes i target now db db'"
    and f: "\<forall>j. find_case db' j = (if j = pp_CaseID p then Some (reopened target now c) else find_case db j)"
    and ps: "db_promises db' = modify pp_ID i (resolved_promise target reference now) (db_promises db)"
    using assms unfolding ResolveDuePromise_def by (rule resolvePromiseD)
  have t: "target = (if rc_CurrentState c = StateRecovered then PromiseFulfilled
          else if rc_RecoveryDeadline c \<le> now then PromiseExpired else PromiseBroken)"
    using r by (auto simp: resolution_def split: if_splits)
  have look: "lookup pp_ID i (db_promises db') = Some q" using p by (simp add: ps lookup_modify q)
  have "PrepareForDecision fresh2 (pp_CaseID p) now2 db' = Inr ((), db')"
    if "target = PromiseBroken" "rc_CurrentState c \<in> {StateWaitingOutcome, StateEscalated}"
    using f that by (intro prepare_pending [of _ _ "reopened target now c"]) (auto simp: reopened_def)
  moreover have "resolvePromise fresh2 i forced now2 db' = Inl ErrConflict"
    using look cl by (auto simp: resolvePromise_def q closes_def)
  ultimately show ?thesis using p c f look t q by (intro exI [of _ p] exI [of _ c]) auto
qed

text \<open>No due promise is lost: as long as an active promise is due and its check is not held
  under a running lease, a claim returns an active promise that is due no later, with its case
  data untouched, and until the new lease has run out no claim returns that promise again.\<close>

theorem due_promise_is_claimed:
  assumes "ledger_ok db" and "lookup pp_ID i (db_promises db) = Some p" and "pp_Status p = PromiseActive"
    and "pp_DueAt p \<le> now"
    and "\<forall>k \<in> set (db_checks db). ck_PromiseID k = i \<and> ck_Status k = CheckClaimed \<longrightarrow> lease_over now (ck_LeaseExpiresAt k)"
  shows "\<exists>q db'. ClaimDuePromise w now lease db = (Inr q, db') \<and> pp_Status q = PromiseActive \<and> pp_DueAt q \<le> pp_DueAt p
     \<and> db_promises db' = db_promises db \<and> db_cases db' = db_cases db
     \<and> (\<forall>w' now' lease' q' db''. now' < now + lease \<and> ClaimDuePromise w' now' lease' db' = (Inr q', db'') \<longrightarrow> pp_ID q' \<noteq> pp_ID q)"
proof -
  have led: "case lookup pp_ID j (db_promises db) of None \<Rightarrow> lookup ck_PromiseID j (db_checks db) = None
      | Some p \<Rightarrow> \<exists>k. lookup ck_PromiseID j (db_checks db) = Some k \<and> ck_ScheduledFor k = pp_DueAt p
           \<and> (open_check k \<longleftrightarrow> pp_Status p = PromiseActive)" for j
    using assms(1) by (simp add: ledger_ok_def)
  have u: "keyed ck_ID (db_checks db)" "keyed ck_PromiseID (db_checks db)" using assms(1) by (simp_all add: ledger_ok_def)
  obtain k where k: "lookup ck_PromiseID i (db_checks db) = Some k" "ck_ScheduledFor k = pp_DueAt p" "open_check k"
    using led [of i] assms(2,3) by auto
  note k' = lookup_SomeD [OF k(1)]
  have ready: "check_ready now k"
    using k(2,3) k' assms(4,5) by (auto simp: check_ready_def open_check_def)
  then have "claim (check_ready now) ck_ScheduledFor ck_ID (grant_check w now lease) (db_checks db) \<noteq> None"
    using k' unfolding claim_None by blast
  then obtain x t where x: "claim (check_ready now) ck_ScheduledFor ck_ID (grant_check w now lease) (db_checks db) = Some (x, t)"
    by auto
  obtain x0 where x0: "lookup ck_ID (ck_ID x) (db_checks db) = Some x0" "check_ready now x0" "x = grant_check w now lease x0"
    "\<forall>y \<in> set (db_checks db). check_ready now y \<longrightarrow> ck_ScheduledFor x0 < ck_ScheduledFor y \<or> ck_ScheduledFor x0 = ck_ScheduledFor y \<and> ck_ID x0 \<le> ck_ID y"
    using checks.claim_earliest [OF x u(1)] by blast
  have le: "ck_ScheduledFor x0 \<le> ck_ScheduledFor k" using x0(4) k' ready by force
  have x1: "lookup ck_PromiseID (ck_PromiseID x0) (db_checks db) = Some x0" "ck_PromiseID x = ck_PromiseID x0"
    using lookup_keyed [OF u(2), of x0] lookup_SomeD [OF x0(1)] by (simp_all add: x0(3) grant_check_def)
  obtain q where q: "lookup pp_ID (ck_PromiseID x) (db_promises db) = Some q" "ck_ScheduledFor x0 = pp_DueAt q" "pp_Status q = PromiseActive"
    using led [of "ck_PromiseID x0"] x1 x0(2) by (auto simp: open_check_def check_ready_def split: option.splits)
  let ?db = "db\<lparr>db_checks := t\<rparr>"
  have c: "ClaimDuePromise w now lease db = (Inr q, ?db)" using x q(1) by (simp add: ClaimDuePromise_def GetPromise_def)
  have "pp_ID q' \<noteq> pp_ID q" if lt: "now' < now + lease" and second: "ClaimDuePromise w' now' lease' ?db = (Inr q', db'')" for w' now' lease' q' db''
  proof -
    have u': "keyed ck_PromiseID t" using ledger_claim [OF c assms(1)] by (simp add: ledger_ok_def)
    obtain y s where y: "claim (check_ready now') ck_ScheduledFor ck_ID (grant_check w' now' lease') t = Some (y, s)"
      and q': "lookup pp_ID (ck_PromiseID y) (db_promises db) = Some q'"
      using second by (auto simp: ClaimDuePromise_def GetPromise_def Let_def split: option.splits)
    have "ck_ID y \<noteq> ck_ID x" by (rule checks.claim_exclusive [OF x u(1) lt y])
    obtain y0 where y0: "lookup ck_ID (ck_ID y) t = Some y0" "y = grant_check w' now' lease' y0"
      using checks.claim_earliest [OF y] checks.claim_keyed [OF x u(1)] by blast
    have "lookup ck_ID (ck_ID x) t = Some x" using checks.claim_earliest [OF x u(1)] by blast
    then have "ck_PromiseID y0 \<noteq> ck_PromiseID x"
      using lookup_keyed [OF u'] lookup_SomeD [OF y0(1)] lookup_SomeD [of ck_ID "ck_ID x" t x] \<open>ck_ID y \<noteq> ck_ID x\<close>
      by (metis option.inject)
    moreover have "ck_PromiseID y = ck_PromiseID y0" by (simp add: y0(2) grant_check_def)
    ultimately show ?thesis using lookup_SomeD [OF q'] lookup_SomeD [OF q(1)] by simp
  qed
  then show ?thesis using c q le k(2) by (intro exI [of _ q] exI [of _ ?db]) auto
qed

lemma find_append: "find P (xs @ ys) = (case find P xs of Some x \<Rightarrow> Some x | None \<Rightarrow> find P ys)"
  by (induction xs) auto

text \<open>Creating a promise either returns the one its response already created, changing nothing, or
  stores it active for the case's own customer with a pending check due when the promise is,
  logs both, and leaves every case as it is; from then on the same response returns the stored
  promise, and any further promise on the case is refused while this one is active.\<close>

theorem promise_creation:
  assumes "CreatePromise fresh p corr db = Inr ((q, created), db')" and "well_formed db"
  shows "(\<not> created \<longrightarrow> db' = db \<and> existing_promise p db = Some q)
     \<and> (created \<longrightarrow> existing_promise p db = None
         \<and> lookup pp_ID (pp_ID p) (db_promises db') = Some (new_promise q)
         \<and> (\<exists>c. find_case db (pp_CaseID p) = Some c \<and> q = p\<lparr>pp_CustomerID := rc_CustomerID c\<rparr>)
         \<and> lookup ck_PromiseID (pp_ID p) (db_checks db') = Some (check_of (fresh 0) q)
         \<and> db_cases db' = db_cases db
         \<and> map ev_Type (case_log db' (pp_CaseID p)) = map ev_Type (case_log db (pp_CaseID p)) @ [EventPromiseCreated, EventPromiseCheckScheduled]
         \<and> (pp_CaseID p2 = pp_CaseID p \<and> pp_SourceResponseID p \<noteq> None \<and> pp_SourceResponseID p2 = pp_SourceResponseID p
              \<longrightarrow> CreatePromise fresh2 p2 corr2 db' = Inr ((new_promise q, False), db'))
         \<and> (pp_CaseID p2 = pp_CaseID p \<and> existing_promise p2 db' = None \<longrightarrow> \<not> is_ok (CreatePromise fresh2 p2 corr2 db')))"
  using assms(1)
proof (cases rule: CreatePromiseD)
  case (inserted c e d)
  note i1 = insert_promiseD [OF inserted(5)] and i2 = insert_checkD [OF inserted(6)]
  note a = append_events_ledger [OF inserted(8), unfolded inserted(7), simplified]
  have id: "pp_ID q = pp_ID p" "pp_CaseID q = pp_CaseID p" "pp_SourceResponseID q = pp_SourceResponseID p" by (simp_all add: inserted(2))
  have "well_formed d" using assms(2) lawful_other_tables [of d db] by (simp add: inserted(7) lawful_def)
  moreover have "\<forall>x \<in> set (creation_events fresh q corr). ev_CaseID x = pp_CaseID p"
    by (simp add: creation_events_def event_of_def id)
  ultimately have log: "map ev_Type (case_log db' (pp_CaseID p)) = map ev_Type (case_log db (pp_CaseID p)) @ [EventPromiseCreated, EventPromiseCheckScheduled]"
    using append_events_log_of [OF inserted(8)] by (simp add: inserted(7) case_log_def creation_events_def event_of_def)
  have look: "lookup pp_ID (pp_ID p) (db_promises db') = Some (new_promise q)"
    "lookup ck_PromiseID (pp_ID p) (db_checks db') = Some (check_of (fresh 0) q)"
    using i1(2) i2(3) by (simp_all add: a lookup_append lookup_Cons id)
  have c: "find_case db' (pp_CaseID p) = Some c" using inserted(1) a(3) by (simp add: find_case_def)
  have again: "CreatePromise fresh2 p2 corr2 db' = Inr ((new_promise q, False), db')"
    if "pp_CaseID p2 = pp_CaseID p" "pp_SourceResponseID p = Some r" "pp_SourceResponseID p2 = Some r" for r
  proof -
    have "find (\<lambda>x. pp_SourceResponseID x = Some r) (db_promises db) = None"
      using inserted(4) that(2) by (simp add: existing_promise_def)
    then have "existing_promise (p2\<lparr>pp_CustomerID := rc_CustomerID c\<rparr>) db' = Some (new_promise q)"
      using that by (simp add: existing_promise_def a(1) find_append id)
    then show ?thesis using c that(1) by (simp add: CreatePromise_def)
  qed
  have refused: "\<not> is_ok (CreatePromise fresh2 p2 corr2 db')" if "pp_CaseID p2 = pp_CaseID p" "existing_promise p2 db' = None"
  proof
    assume "is_ok (CreatePromise fresh2 p2 corr2 db')"
    then obtain q2 b d2 where "CreatePromise fresh2 p2 corr2 db' = Inr ((q2, b), d2)"
      by (cases "CreatePromise fresh2 p2 corr2 db'") auto
    then show False
    proof (cases rule: CreatePromiseD)
      case (inserted c2 e2 x2)
      have "new_promise q \<in> set (db_promises db')" by (simp add: a(1))
      then have "pp_CaseID (new_promise q) \<noteq> pp_CaseID q2" using insert_promiseD(3) [OF inserted(5)] by fastforce
      then show False using that(1) by (simp add: inserted(2) id)
    qed (use that(2) in simp)
  qed
  show ?thesis using inserted(1-4) look log again refused a(3) by auto
qed simp

lemma latest_append:
  assumes "\<forall>x \<in> set t. rank x < rank r"
  shows "latest rank (t @ [r]) = Some r"
proof (cases "latest rank (t @ [r])")
  case (Some s)
  have "s = r" using latest_Some(1) [OF Some] latest_Some(2) [OF Some, of r] assms by fastforce
  then show ?thesis using Some by simp
qed (simp add: latest_None)

text \<open>Keeping or breaking a promise gives the customer a new latest profile, one version up, whose
  reliability is the rounded share (kept + 1) / (kept + broken + 2) over all of the customer's
  promises with this one counted; it is a probability. Expiry leaves the profiles alone.\<close>

theorem reliability_is_a_probability:
  assumes "resolvePromise fresh i forced now db = Inr (q, db')" and "int (length (db_promises db)) < 2 ^ 51"
  shows "(let mine = filter (\<lambda>p. pp_CustomerID p = pp_CustomerID q) (db_promises db');
              kept = int (length (filter (\<lambda>p. pp_Status p = PromiseFulfilled) mine));
              broken = int (length (filter (\<lambda>p. pp_Status p = PromiseBroken) mine));
              profiles = (\<lambda>d. filter (\<lambda>f. pf_CustomerID f = pp_CustomerID q) (db_profiles d))
          in if pp_Status q = PromiseBroken \<or> pp_Status q = PromiseFulfilled
             then \<exists>f. latest pf_Version (profiles db') = Some f \<and> 0 \<le> pf_PromiseReliability f \<and> pf_PromiseReliability f \<le> 1
                \<and> pf_PromiseReliability f = fl (of_int (kept + 1) / of_int (kept + broken + 2))
                \<and> pf_Version f = (case latest pf_Version (profiles db) of Some g \<Rightarrow> pf_Version g | None \<Rightarrow> 0) + 1
             else db_profiles db' = db_profiles db)"
proof -
  obtain p c target reason reference where q: "q = resolved_promise target reference now p"
    and ps: "db_promises db' = modify pp_ID i (resolved_promise target reference now) (db_promises db)"
    and rel: "if target = PromiseBroken \<or> target = PromiseFulfilled
      then \<exists>d. updatePromiseReliability (fresh 4) (pp_CustomerID p) now d = Inr db' \<and> db_profiles d = db_profiles db
             \<and> db_promises d = db_promises db'
      else db_profiles db' = db_profiles db"
    using assms(1) by (rule resolvePromiseD)
  define cu where "cu = pp_CustomerID q"
  have cu: "pp_CustomerID p = cu" by (simp add: cu_def q)
  define mine where "mine = filter (\<lambda>p. pp_CustomerID p = cu) (db_promises db')"
  define kept where "kept = int (length (filter (\<lambda>p. pp_Status p = PromiseFulfilled) mine))"
  define broken where "broken = int (length (filter (\<lambda>p. pp_Status p = PromiseBroken) mine))"
  have "kept \<le> int (length mine)" "broken \<le> int (length mine)" by (simp_all add: kept_def broken_def)
  moreover have "length mine \<le> length (db_promises db')" by (simp add: mine_def)
  moreover have "length (db_promises db') = length (db_promises db)" by (simp add: ps modify_def)
  ultimately have b: "kept < 2 ^ 51" "broken < 2 ^ 51" using assms(2) by linarith+
  have "0 \<le> kept" "0 \<le> broken" by (simp_all add: kept_def broken_def)
  note b = b this
  have exact: "float_of (kept + 1) = of_int (kept + 1)" "float_of (kept + broken + 2) = of_int (kept + broken + 2)"
    by (rule float_of_exact, use b in simp)+
  have "\<exists>f. latest pf_Version (filter (\<lambda>f. pf_CustomerID f = cu) (db_profiles db')) = Some f
      \<and> 0 \<le> pf_PromiseReliability f \<and> pf_PromiseReliability f \<le> 1
      \<and> pf_PromiseReliability f = fl (of_int (kept + 1) / of_int (kept + broken + 2))
      \<and> pf_Version f = (case latest pf_Version (filter (\<lambda>f. pf_CustomerID f = cu) (db_profiles db)) of Some g \<Rightarrow> pf_Version g | None \<Rightarrow> 0) + 1"
    if tgt: "target = PromiseBroken \<or> target = PromiseFulfilled"
  proof -
    obtain d where d: "updatePromiseReliability (fresh 4) cu now d = Inr db'" "db_profiles d = db_profiles db" "db_promises d = db_promises db'"
      using rel tgt cu by auto
    obtain row where row: "db' = d\<lparr>db_profiles := db_profiles d @ [row]\<rparr>" "pf_CustomerID row = cu"
      "pf_PromiseReliability row = promise_reliability cu d"
      "pf_Version row = (case latest pf_Version (filter (\<lambda>p. pf_CustomerID p = cu) (db_profiles d)) of
         Some p \<Rightarrow> pf_Version p | None \<Rightarrow> 0) + 1"
      using d(1) by (rule updatePromiseReliabilityD)
    let ?old = "filter (\<lambda>f. pf_CustomerID f = cu) (db_profiles db)"
    have "\<forall>x \<in> set ?old. pf_Version x < pf_Version row"
    proof (cases "latest pf_Version ?old")
      case None
      then have "?old = []" by (simp only: latest_None)
      then show ?thesis by simp
    next
      case (Some g)
      then have "pf_Version row = pf_Version g + 1" by (simp add: row(4) d(2))
      then show ?thesis using latest_Some(2) [OF Some] by fastforce
    qed
    then have "latest pf_Version (?old @ [row]) = Some row" by (rule latest_append)
    then have l: "latest pf_Version (filter (\<lambda>f. pf_CustomerID f = cu) (db_profiles db')) = Some row"
      by (simp add: row(1,2) d(2))
    have r: "pf_PromiseReliability row = fl (of_int (kept + 1) / of_int (kept + broken + 2))"
      using exact by (simp add: row(3) promise_reliability_def d(3) Let_def fdiv_def mine_def kept_def broken_def)
    let ?share = "of_int (kept + 1) / of_int (kept + broken + 2) :: rat"
    have share: "?share \<le> 1" "0 \<le> ?share" using b by (simp_all add: divide_le_eq)
    have "0 \<le> fl ?share" by (rule fl_nonneg [OF share(2)])
    moreover have "\<bar>fl ?share\<bar> \<le> of_int 1" by (rule fl_abs_le_int) (simp_all only: abs_of_nonneg [OF share(2)] of_int_1 share, simp)
    ultimately have "0 \<le> pf_PromiseReliability row" "pf_PromiseReliability row \<le> 1" unfolding r by simp_all
    then show ?thesis using l r row(4) d(2) by auto
  qed
  then show ?thesis
    using rel unfolding Let_def cu_def [symmetric] mine_def [symmetric] kept_def [symmetric] broken_def [symmetric]
    by (auto simp: q split: if_splits)
qed

section \<open>Examples\<close>

definition example_promise :: PromiseToPay where
  "example_promise = \<lparr>pp_ID = ''p1'', pp_CaseID = rc_ID created_case, pp_CustomerID = [], pp_Status = PromiseActive,
     pp_DueAt = Hour, pp_Confidence = 1, pp_Source = emptyObject, pp_CreatedAt = 0, pp_ResolvedAt = None,
     pp_PromisedAmountMinor = None, pp_ExtractorVersion = ''v1'', pp_ExtractionTimestamp = None,
     pp_SourceResponseID = Some ''r1'', pp_FulfilledAt = None, pp_BrokenAt = None, pp_ExpiredAt = None,
     pp_CancelledAt = None, pp_VerificationReference = []\<rparr>"

definition answered_db :: Database where
  "answered_db = waiting_db\<lparr>db_responses := [\<lparr>rs_ID = ''r1'', rs_CaseID = rc_ID created_case, rs_Type = ''PROMISE_TO_PAY'',
     rs_Payload = emptyObject, rs_Source = ''email'', rs_ReceivedAt = 0, rs_CorrelationID = ''corr''\<rparr>]\<rparr>"

lemma answered_tables [simp]:
  "db_promises answered_db = []" "db_checks answered_db = []" "db_promise_events answered_db = []"
  "db_events answered_db = []" "db_profiles answered_db = []" "db_attributions answered_db = []"
  "db_cases answered_db = [created_case\<lparr>rc_CurrentState := StateWaitingOutcome\<rparr>]"
  by (simp_all add: answered_db_def waiting_db_def shop_db_def empty_db_def)

lemma answered_case: "find_case answered_db (rc_ID created_case) = Some (created_case\<lparr>rc_CurrentState := StateWaitingOutcome\<rparr>)"
  by (simp add: find_case_def lookup_Cons)

lemma answered_well_formed: "well_formed answered_db"
  using waiting_well_formed well_formed_cong [of answered_db waiting_db] by (simp add: answered_db_def)

lemma answered_ledger: "ledger_ok answered_db"
  by (simp add: ledger_ok_def keyed_def)

definition promised :: PromiseToPay where
  "promised = example_promise\<lparr>pp_CustomerID := rc_CustomerID created_case\<rparr>"

definition promised_db :: Database where
  "promised_db = answered_db\<lparr>db_promises := [new_promise promised], db_checks := [check_of (ids CHR ''p'' 0) promised],
     db_promise_events := [\<lparr>pe_ID = ids CHR ''p'' 1, pe_PromiseID = ''p1'', pe_CaseID = rc_ID created_case,
        pe_FromStatus = None, pe_ToStatus = PromiseActive, pe_ReasonCode = ''CUSTOMER_PROMISE_CREATED'',
        pe_Payload = creation_payload (ids CHR ''p'' 0) promised, pe_OccurredAt = 0, pe_CorrelationID = ''corr''\<rparr>],
     db_events := numbered 1 (creation_events (ids CHR ''p'') promised ''corr'')\<rparr>"

lemma promised_simps [simp]:
  "pp_ID promised = ''p1''" "pp_CaseID promised = rc_ID created_case" "pp_DueAt promised = Hour"
  "pp_CreatedAt promised = 0" "pp_Status promised = PromiseActive" "pp_SourceResponseID promised = Some ''r1''"
  "pp_Confidence promised = 1" "pp_Source promised = emptyObject" "pp_PromisedAmountMinor promised = None"
  by (simp_all add: promised_def example_promise_def)

lemma promised_run: "CreatePromise (ids CHR ''p'') example_promise ''corr'' answered_db = Inr ((promised, True), promised_db)"
proof -
  have e: "pp_CaseID example_promise = rc_ID created_case" "pp_SourceResponseID example_promise = Some ''r1''"
    by (simp_all add: example_promise_def)
  have r: "lookup rs_ID ''r1'' (db_responses answered_db) \<noteq> None" by (simp add: answered_db_def lookup_Cons)
  show ?thesis
    using r by (simp add: CreatePromise_def e answered_case promised_def [symmetric] existing_promise_def insert_promise_def
        insert_check_def insert_promise_event_def append_events_def creation_events_def event_of_def insertEvent_def
        nextSequence_def lookup_Cons promised_db_def)
qed

lemma promised_well_formed: "well_formed promised_db"
  using lawful_CreatePromise [OF promised_run] answered_well_formed by (simp add: lawful_def)

lemma promised_ledger: "ledger_ok promised_db"
  by (rule ledger_create [OF promised_run answered_ledger])

lemma promised_tables [simp]:
  "db_promises promised_db = [new_promise promised]" "db_checks promised_db = [check_of (ids CHR ''p'' 0) promised]"
  "db_cases promised_db = [created_case\<lparr>rc_CurrentState := StateWaitingOutcome\<rparr>]" "db_profiles promised_db = []"
  by (simp_all add: promised_db_def)

lemma promised_case: "find_case promised_db (rc_ID created_case) = Some (created_case\<lparr>rc_CurrentState := StateWaitingOutcome\<rparr>)"
  by (simp add: find_case_def lookup_Cons)

lemma created_case_deadline: "rc_RecoveryDeadline created_case = 24 * Hour"
proof -
  have "created_case = case_of_input example_input (ids CHR ''a'' 1) 0" by (rule service_CreateCaseD [OF created])
  then have "rc_RecoveryDeadline created_case = rc_RecoveryDeadline (case_of_input example_input (ids CHR ''a'' 1) 0)"
    by (rule arg_cong)
  then show ?thesis by (simp add: case_of_input_def example_input_def)
qed

lemma example_resolved: "\<exists>q db. ResolveDuePromise (ids CHR ''q'') ''p1'' Hour promised_db = Inr (q, db)"
proof -
  have c: "find_case promised_db (pp_CaseID (new_promise promised)) = Some (created_case\<lparr>rc_CurrentState := StateWaitingOutcome\<rparr>)"
    by (simp add: promised_case)
  show ?thesis
    unfolding ResolveDuePromise_def
    by (rule resolve_succeeds [OF promised_well_formed _ _ c])
      (auto simp: lookup_Cons promised_db_def creation_events_def event_of_def inj_def)
qed

theorem promise_ledger_invariant_witness:
  "\<exists>q db. ResolveDuePromise (ids CHR ''q'') ''p1'' Hour promised_db = Inr (q, db) \<and> ledger_ok db \<and> lawful answered_db db"
proof -
  obtain q db where r: "ResolveDuePromise (ids CHR ''q'') ''p1'' Hour promised_db = Inr (q, db)" using example_resolved by blast
  have "promise_step answered_db promised_db" by (rule promise_step.create [OF promised_run])
  moreover have "promise_step promised_db db" by (rule promise_step.due [OF r])
  ultimately have "promise_step\<^sup>*\<^sup>* answered_db db" by (meson rtranclp.simps)
  then show ?thesis using r promise_ledger_invariant [of answered_db db] answered_ledger by blast
qed

theorem due_promise_resolution_witness:
  "\<exists>q db. ResolveDuePromise (ids CHR ''q'') ''p1'' Hour promised_db = Inr (q, db) \<and> pp_Status q = PromiseBroken
     \<and> PrepareForDecision (ids CHR ''r'') (rc_ID created_case) 0 db = Inr ((), db)
     \<and> ResolveDuePromise (ids CHR ''r'') ''p1'' (2 * Hour) db = Inl ErrConflict"
proof -
  obtain q db where r: "ResolveDuePromise (ids CHR ''q'') ''p1'' Hour promised_db = Inr (q, db)" using example_resolved by blast
  have "\<not> 24 * Hour \<le> Hour" by (simp add: Hour_def)
  then show ?thesis
    using r due_promise_resolution [OF r, of "ids CHR ''r''" 0 None] due_promise_resolution [OF r, of "ids CHR ''r''" "2 * Hour" None]
    by (auto simp: lookup_Cons promised_case created_case_deadline ResolveDuePromise_def)
qed

theorem due_promise_is_claimed_witness:
  "\<exists>q db. ClaimDuePromise ''w'' Hour Minute promised_db = (Inr q, db) \<and> pp_Status q = PromiseActive"
  using due_promise_is_claimed [OF promised_ledger, of "''p1''" "new_promise promised" Hour "''w''" Minute]
  by (auto simp: lookup_Cons)

theorem promise_creation_witness:
  "lookup ck_PromiseID ''p1'' (db_checks promised_db) = Some (check_of (ids CHR ''p'' 0) promised)
   \<and> CreatePromise (ids CHR ''q'') example_promise ''corr'' promised_db = Inr ((new_promise promised, False), promised_db)"
proof -
  have e: "pp_ID example_promise = ''p1''" "pp_SourceResponseID example_promise \<noteq> None" by (simp_all add: example_promise_def)
  show ?thesis using promise_creation [OF promised_run answered_well_formed, of example_promise "ids CHR ''q''" "''corr''"] by (simp add: e)
qed

theorem reliability_is_a_probability_witness:
  "\<exists>q db f. resolvePromise (ids CHR ''q'') ''p1'' None Hour promised_db = Inr (q, db)
     \<and> latest pf_Version (filter (\<lambda>f. pf_CustomerID f = pp_CustomerID q) (db_profiles db)) = Some f \<and> pf_PromiseReliability f \<le> 1 \<and> pf_Version f = 1"
proof -
  obtain q db where r: "ResolveDuePromise (ids CHR ''q'') ''p1'' Hour promised_db = Inr (q, db)" using example_resolved by blast
  then have r: "resolvePromise (ids CHR ''q'') ''p1'' None Hour promised_db = Inr (q, db)" by (simp add: ResolveDuePromise_def)
  have "pp_Status q = PromiseBroken"
    using r by (rule resolvePromiseD) (auto simp: lookup_Cons promised_case resolution_def created_case_deadline Hour_def)
  then show ?thesis
    using r reliability_is_a_probability [OF r] by (auto simp: Let_def)
qed

end
