(* ===== verification/Promise_Text.thy ===== *)
theory Promise_Text
  imports Promise_Store "HOL-Library.Sublist"
begin

text \<open>
  \<open>Extract\<close> of \<open>internal/promises/promises.go\<close>: the instant a customer promises to pay at, read
  from free text. A location is the UTC offset in seconds in force at an instant; \<open>time.Date\<close>
  and \<open>AddDate\<close> are its day and clock arithmetic. The two regular expressions are matched by
  their alternatives in the order of the expression, leftmost first, as package \<open>regexp\<close> does;
  \<open>strings.ToLower\<close> is the ASCII one. The order in which Go visits the map of weekdays is not
  fixed and is the argument \<open>weekdays\<close>.
\<close>

section \<open>Local time\<close>

type_synonym location = "time \<Rightarrow> int"

definition UTC :: location where "UTC = (\<lambda>_. 0)"

definition Day :: duration where "Day = 24 * Hour"

definition local_of :: "location \<Rightarrow> time \<Rightarrow> int" where
  "local_of loc t = t + loc t * Second"

text \<open>The day of an instant, from 0001-01-01, and the time of day.\<close>

definition day_of :: "location \<Rightarrow> time \<Rightarrow> int" where
  "day_of loc t = local_of loc t div Day"

definition clock_of :: "location \<Rightarrow> time \<Rightarrow> duration" where
  "clock_of loc t = local_of loc t mod Day"

text \<open>
  \<open>time.Date\<close> finds the instant of a local time: the offset in force when the local time is read
  as UTC gives a first instant, the offset in force there the result.
\<close>

definition resolve_local :: "location \<Rightarrow> int \<Rightarrow> time" where
  "resolve_local loc l = (if loc l = 0 then l else l - loc (l - loc l * Second) * Second)"

definition date_at :: "location \<Rightarrow> int \<Rightarrow> int \<Rightarrow> int \<Rightarrow> time" where
  "date_at loc day hour minute = resolve_local loc (day * Day + hour * Hour + minute * Minute)"

definition add_days :: "location \<Rightarrow> time \<Rightarrow> int \<Rightarrow> time" where
  "add_days loc t n = resolve_local loc ((day_of loc t + n) * Day + clock_of loc t)"

text \<open>0001-01-01 was a Monday; \<open>time.Sunday\<close> is 0.\<close>

definition weekday_of :: "int \<Rightarrow> int" where
  "weekday_of day = (day + 1) mod 7"

text \<open>The inverse of \<open>civil_of_days\<close>.\<close>

definition days_of_civil :: "int \<Rightarrow> int \<Rightarrow> int \<Rightarrow> int" where
  "days_of_civil y m d =
     (let y = (if m \<le> 2 then y - 1 else y); era = y div 400; yoe = y mod 400;
          doy = (153 * (if m \<le> 2 then m + 9 else m - 3) + 2) div 5 + d - 1
      in era * 146097 + (yoe * 365 + yoe div 4 - yoe div 100 + doy) - 306)"

definition days_in :: "int \<Rightarrow> int \<Rightarrow> int" where
  "days_in y m = (if m = 2 then (if y mod 4 = 0 \<and> (y mod 100 \<noteq> 0 \<or> y mod 400 = 0) then 29 else 28)
     else if m \<in> {4, 6, 9, 11} then 30 else 31)"

definition valid_date :: "int \<Rightarrow> int \<Rightarrow> int \<Rightarrow> bool" where
  "valid_date y m d \<longleftrightarrow> 1 \<le> m \<and> m \<le> 12 \<and> 1 \<le> d \<and> d \<le> days_in y m"

section \<open>Numbers in text\<close>

text \<open>A run of exactly \<open>n\<close> digits, and what follows.\<close>

fun number :: "nat \<Rightarrow> int \<Rightarrow> string \<Rightarrow> (int \<times> string) option" where
  "number 0 acc s = Some (acc, s)"
| "number (Suc n) acc [] = None"
| "number (Suc n) acc (c # s) = (case digit_val c of None \<Rightarrow> None | Some x \<Rightarrow> number n (10 * acc + x) s)"

fun literal :: "char \<Rightarrow> string \<Rightarrow> string option" where
  "literal c [] = None"
| "literal c (x # s) = (if x = c then Some s else None)"

text \<open>\<open>dddd-dd-dd\<close>\<close>

definition date_digits :: "string \<Rightarrow> ((int \<times> int \<times> int) \<times> string) option" where
  "date_digits s =
     (case number 4 0 s of None \<Rightarrow> None | Some (y, s) \<Rightarrow>
      (case literal CHR ''-'' s of None \<Rightarrow> None | Some s \<Rightarrow>
      (case number 2 0 s of None \<Rightarrow> None | Some (m, s) \<Rightarrow>
      (case literal CHR ''-'' s of None \<Rightarrow> None | Some s \<Rightarrow>
      (case number 2 0 s of None \<Rightarrow> None | Some (d, s) \<Rightarrow> Some ((y, m, d), s))))))"

text \<open>\<open>dd:dd\<close>\<close>

definition clock_digits :: "string \<Rightarrow> ((int \<times> int) \<times> string) option" where
  "clock_digits s =
     (case number 2 0 s of None \<Rightarrow> None | Some (h, s) \<Rightarrow>
      (case literal CHR '':'' s of None \<Rightarrow> None | Some s \<Rightarrow>
      (case number 2 0 s of None \<Rightarrow> None | Some (m, s) \<Rightarrow> Some ((h, m), s))))"

section \<open>The regular expressions\<close>

definition is_word :: "char \<Rightarrow> bool" where
  "is_word c = (let n = of_char c :: nat in 48 \<le> n \<and> n \<le> 57 \<or> 65 \<le> n \<and> n \<le> 90 \<or> 97 \<le> n \<and> n \<le> 122 \<or> n = 95)"

definition boundary :: "char option \<Rightarrow> string \<Rightarrow> bool" where
  "boundary prev s = ((case prev of None \<Rightarrow> False | Some c \<Rightarrow> is_word c) \<noteq> (case s of [] \<Rightarrow> False | c # _ \<Rightarrow> is_word c))"

text \<open>The leftmost match: an expression is tried at every position with the character before it.\<close>

fun leftmost :: "(char option \<Rightarrow> string \<Rightarrow> 'm option) \<Rightarrow> char option \<Rightarrow> string \<Rightarrow> 'm option" where
  "leftmost r prev [] = r prev []"
| "leftmost r prev (c # s) = (case r prev (c # s) of Some m \<Rightarrow> Some m | None \<Rightarrow> leftmost r (Some c) s)"

text \<open>\<open>\b(20\d{2}-\d{2}-\d{2})(?:[ T](\d{2}:\d{2}))?\b\<close>\<close>

definition iso_at :: "char option \<Rightarrow> string \<Rightarrow> ((int \<times> int \<times> int) \<times> (int \<times> int) option) option" where
  "iso_at prev s =
     (if \<not> boundary prev s then None
      else (case date_digits s of None \<Rightarrow> None
        | Some ((y, m, d), rest) \<Rightarrow>
            if y div 100 \<noteq> 20 then None
            else
              (case (case rest of [] \<Rightarrow> None | c # t \<Rightarrow> if c = CHR '' '' \<or> c = CHR ''T'' then clock_digits t else None) of
                 Some (hm, after) \<Rightarrow>
                   if boundary (Some CHR ''0'') after then Some ((y, m, d), Some hm)
                   else if boundary (Some CHR ''0'') rest then Some ((y, m, d), None) else None
               | None \<Rightarrow> if boundary (Some CHR ''0'') rest then Some ((y, m, d), None) else None)))"

definition isoDate :: "string \<Rightarrow> ((int \<times> int \<times> int) \<times> (int \<times> int) option) option" where
  "isoDate s = leftmost iso_at None s"

text \<open>\<open>\b(\d{1,2})(?::(\d{2}))?\s*(am|pm)?\b\<close>, every way to match it in the order of preference.\<close>

datatype meridiem = AM | PM

definition hour_options :: "string \<Rightarrow> (int \<times> string) list" where
  "hour_options s = (case number 2 0 s of None \<Rightarrow> [] | Some m \<Rightarrow> [m]) @ (case number 1 0 s of None \<Rightarrow> [] | Some m \<Rightarrow> [m])"

definition minute_options :: "string \<Rightarrow> (int option \<times> string) list" where
  "minute_options s =
     (case Option.bind (literal CHR '':'' s) (number 2 0) of None \<Rightarrow> [] | Some (m, t) \<Rightarrow> [(Some m, t)]) @ [(None, s)]"

definition regex_space :: "char \<Rightarrow> bool" where
  "regex_space c = ((of_char c :: nat) \<in> {9, 10, 12, 13, 32})"

text \<open>\<open>\s*\<close>, the last character consumed and the rest, longest first; a digit comes before.\<close>

definition space_options :: "string \<Rightarrow> (char \<times> string) list" where
  "space_options s = map (\<lambda>k. (last (CHR ''0'' # take k s), drop k s)) (rev [0 ..< Suc (length (takeWhile regex_space s))])"

definition meridiem_options :: "char \<times> string \<Rightarrow> (meridiem option \<times> char \<times> string) list" where
  "meridiem_options cs =
     (case snd cs of a # b # t \<Rightarrow> if b = CHR ''m'' \<and> a = CHR ''a'' then [(Some AM, b, t)]
        else if b = CHR ''m'' \<and> a = CHR ''p'' then [(Some PM, b, t)] else [] | _ \<Rightarrow> []) @ [(None, cs)]"

definition clock_options :: "string \<Rightarrow> ((int \<times> int option \<times> meridiem option) \<times> char \<times> string) list" where
  "clock_options s = concat (map (\<lambda>(h, s1). concat (map (\<lambda>(m, s2). concat (map (\<lambda>cs. map (\<lambda>(ap, c, rest). ((h, m, ap), c, rest))
     (meridiem_options cs)) (space_options s2))) (minute_options s1))) (hour_options s))"

definition clock_at :: "char option \<Rightarrow> string \<Rightarrow> (int \<times> int option \<times> meridiem option) option" where
  "clock_at prev s =
     (if \<not> boundary prev s then None
      else map_option fst (find (\<lambda>(m, c, rest). boundary (Some c) rest) (clock_options s)))"

definition clockTime :: "string \<Rightarrow> (int \<times> int option \<times> meridiem option) option" where
  "clockTime s = leftmost clock_at None s"

definition parseClock :: "string \<Rightarrow> int \<Rightarrow> int \<Rightarrow> int \<times> int" where
  "parseClock text fallbackHour fallbackMinute =
     (case clockTime text of None \<Rightarrow> (fallbackHour, fallbackMinute)
      | Some (h, m, ap) \<Rightarrow>
          (let minute = (case m of None \<Rightarrow> 0 | Some m \<Rightarrow> m);
               hour = (if ap = Some PM \<and> h < 12 then h + 12 else h);
               hour = (if ap = Some AM \<and> hour = 12 then 0 else hour)
           in if 23 < hour \<or> 59 < minute then (fallbackHour, fallbackMinute) else (hour, minute)))"

section \<open>Extraction\<close>

record Extraction =
  xt_Intent :: string
  xt_PromisedFor :: time
  xt_Confidence :: float64
  xt_ExtractorVersion :: string
  xt_ExtractedAt :: time

definition extraction :: "time \<Rightarrow> float64 \<Rightarrow> time \<Rightarrow> Extraction" where
  "extraction due confidence now = \<lparr>xt_Intent = ''PROMISE_TO_PAY'', xt_PromisedFor = due, xt_Confidence = confidence,
     xt_ExtractorVersion = ''ptp-extractor-v1'', xt_ExtractedAt = now\<rparr>"

definition weekday_names :: "(string \<times> int) list" where
  "weekday_names = [(''sunday'', 0), (''monday'', 1), (''tuesday'', 2), (''wednesday'', 3), (''thursday'', 4), (''friday'', 5), (''saturday'', 6)]"

definition weekday_promise :: "location \<Rightarrow> time \<Rightarrow> string \<Rightarrow> int \<Rightarrow> time" where
  "weekday_promise loc now text weekday =
     (let days = (weekday - weekday_of (day_of loc now) + 7) mod 7; days = (if days = 0 then 7 else days);
          target = add_days loc now days; (hour, minute) = parseClock text 10 0
      in date_at loc (day_of loc target) hour minute)"

text \<open>
  The instant and the confidence; the zero instant when nothing matched. A clock of the ISO form
  that is no time of day counts as midnight: \<open>time.Parse\<close> returns the zero time then.
\<close>

definition promised_instant :: "(string \<times> int) list \<Rightarrow> location \<Rightarrow> time \<Rightarrow> string \<Rightarrow> (error, time \<times> float64) result" where
  "promised_instant weekdays loc now text =
     (case isoDate text of
        Some ((y, m, d), hm) \<Rightarrow>
          (let (hour, minute) = (case hm of None \<Rightarrow> (10, 0) | Some (h, mi) \<Rightarrow> if h < 24 \<and> mi < 60 then (h, mi) else (0, 0))
           in if \<not> valid_date y m d then Inl (ErrMsg ''invalid promised date'')
              else Inr (date_at loc (day_of loc (date_at loc (days_of_civil y m d) 0 0)) hour minute, fl (95 / 100)))
      | None \<Rightarrow>
          if sublist ''tomorrow'' text then
            (let (hour, minute) = parseClock text 10 0
             in Inr (date_at loc (day_of loc (add_days loc now 1)) hour minute, fl (88 / 100)))
          else (case find (\<lambda>(name, _). sublist name text) weekdays of
              Some (_, weekday) \<Rightarrow> Inr (weekday_promise loc now text weekday, fl (82 / 100))
            | None \<Rightarrow> Inr (0, 0)))"

definition Extract :: "(string \<times> int) list \<Rightarrow> string \<Rightarrow> time option \<Rightarrow> time \<Rightarrow> location option \<Rightarrow> (error, Extraction) result" where
  "Extract weekdays text explicit now location =
     (let loc = (case location of None \<Rightarrow> UTC | Some l \<Rightarrow> l) in
      case explicit of
        Some due \<Rightarrow> if \<not> now < due then Inl (ErrMsg ''promised time must be in the future'')
          else Inr (extraction due (fl (99 / 100)) now)
      | None \<Rightarrow>
          (let lowered = lower (TrimSpace text) in
           if lowered = [] then Inl (ErrMsg ''promise text or promised_for is required'')
           else
             (case promised_instant weekdays loc now lowered of Inl e \<Rightarrow> Inl e
              | Inr (due, confidence) \<Rightarrow>
                  if IsZero due then Inl (ErrMsg ''ambiguous promised date'')
                  else if \<not> now < due then Inl (ErrMsg ''promised time must be in the future'')
                  else Inr (extraction due confidence now))))"

section \<open>What is extracted\<close>

lemma number_nonneg: "number n acc s = Some (x, t) \<Longrightarrow> 0 \<le> acc \<Longrightarrow> 0 \<le> x"
  by (induction n acc s rule: number.induct) (auto simp: digit_val_def Let_def split: option.splits if_splits)

lemma leftmost_Some: "leftmost r prev s = Some m \<Longrightarrow> \<exists>prev s. r prev s = Some m"
  by (induction s arbitrary: prev) (auto split: option.splits)

lemma clock_options_parts:
  "((h, m, ap), r) \<in> set (clock_options t) \<Longrightarrow> \<exists>s1 s2. (h, s1) \<in> set (hour_options t) \<and> (m, s2) \<in> set (minute_options s1)"
  by (auto simp: clock_options_def)

lemma clockTime_nonneg:
  assumes "clockTime s = Some (h, m, ap)"
  shows "0 \<le> h \<and> (\<forall>x. m = Some x \<longrightarrow> 0 \<le> x)"
proof -
  obtain prev t where "clock_at prev t = Some (h, m, ap)" using leftmost_Some [OF assms [unfolded clockTime_def]] by blast
  then obtain r where "find (\<lambda>(m, c, rest). boundary (Some c) rest) (clock_options t) = Some ((h, m, ap), r)"
    by (auto simp: clock_at_def split: if_splits)
  then have "((h, m, ap), r) \<in> set (clock_options t)" by (metis find_Some_iff nth_mem)
  then obtain s1 s2 where o1: "(h, s1) \<in> set (hour_options t)" and o2: "(m, s2) \<in> set (minute_options s1)"
    using clock_options_parts by blast
  have "0 \<le> h" using o1 number_nonneg [of _ 0] by (auto simp: hour_options_def split: option.splits dest!: sym [of "Some _"])
  moreover have "0 \<le> x" if "m = Some x" for x
    using o2 that number_nonneg [of 2 0] by (auto simp: minute_options_def bind_eq_Some_conv split: option.splits dest!: sym [of "Some _"])
  ultimately show ?thesis by blast
qed

lemma parseClock_range:
  assumes "parseClock s fh fm = (h, m)" and "0 \<le> fh" "fh \<le> 23" "0 \<le> fm" "fm \<le> 59"
  shows "0 \<le> h \<and> h \<le> 23 \<and> 0 \<le> m \<and> m \<le> 59"
proof (cases "clockTime s")
  case None
  then show ?thesis using assms by (simp add: parseClock_def)
next
  case (Some x)
  obtain h' m' ap where x: "x = (h', m', ap)" by (cases x)
  have "0 \<le> h'" "\<forall>y. m' = Some y \<longrightarrow> 0 \<le> y" using clockTime_nonneg Some x by blast+
  then show ?thesis using assms Some x by (auto simp: parseClock_def Let_def split: if_splits option.splits)
qed

lemma day_of_date:
  assumes "0 \<le> h" "h \<le> 23" "0 \<le> m" "m \<le> 59"
  shows "day_of (\<lambda>_. off) (date_at (\<lambda>_. off) day h m) = day" "clock_of (\<lambda>_. off) (date_at (\<lambda>_. off) day h m) = h * Hour + m * Minute"
proof -
  have l: "local_of (\<lambda>_. off) (date_at (\<lambda>_. off) day h m) = day * Day + (h * Hour + m * Minute)"
    by (simp add: local_of_def date_at_def resolve_local_def)
  have "0 \<le> h * Hour + m * Minute" "h * Hour + m * Minute < Day"
    using assms by (simp_all add: Hour_def Minute_def Day_def)
  then show "day_of (\<lambda>_. off) (date_at (\<lambda>_. off) day h m) = day" "clock_of (\<lambda>_. off) (date_at (\<lambda>_. off) day h m) = h * Hour + m * Minute"
    unfolding day_of_def clock_of_def l by (simp_all add: div_pos_pos_trivial mod_pos_pos_trivial)
qed

lemma day_of_add_days: "day_of (\<lambda>_. off) (add_days (\<lambda>_. off) t n) = day_of (\<lambda>_. off) t + n"
proof -
  have "local_of (\<lambda>_. off) (add_days (\<lambda>_. off) t n) = (day_of (\<lambda>_. off) t + n) * Day + clock_of (\<lambda>_. off) t"
    by (simp add: local_of_def add_days_def resolve_local_def)
  moreover have "0 \<le> clock_of (\<lambda>_. off) t" "clock_of (\<lambda>_. off) t < Day" by (simp_all add: clock_of_def Day_def Hour_def)
  ultimately show ?thesis by (simp add: day_of_def [of _ "add_days _ _ _"] div_pos_pos_trivial)
qed

lemma weekday_distance:
  assumes "0 \<le> w" "w < 7" and "days = (w - weekday_of d + 7) mod 7" and "days' = (if days = 0 then 7 else days)"
  shows "weekday_of (d + days') = w \<and> 1 \<le> days' \<and> days' \<le> 7"
proof -
  have "days = (w - (d + 1)) mod 7" unfolding assms(3) weekday_of_def by (simp add: mod_simps)
  then have "(d + 1 + days) mod 7 = (d + 1 + (w - (d + 1))) mod 7" by (simp only: mod_add_right_eq)
  then have "(d + days + 1) mod 7 = w" using assms(1,2) by (simp add: ac_simps)
  moreover have "(d + days' + 1) mod 7 = (d + days + 1) mod 7" by (simp add: assms(4) mod_simps) presburger
  moreover have "0 \<le> days" "days < 7" by (simp_all add: assms(3))
  ultimately show ?thesis by (simp add: weekday_of_def assms(4))
qed

lemma confidence_bounds:
  "3 / 4 \<le> fl (82 / 100) \<and> fl (82 / 100) \<le> 1" "3 / 4 \<le> fl (88 / 100) \<and> fl (88 / 100) \<le> 1"
  "3 / 4 \<le> fl (95 / 100) \<and> fl (95 / 100) \<le> 1" "3 / 4 \<le> fl (99 / 100) \<and> fl (99 / 100) \<le> 1"
  by code_simp+

section \<open>Properties\<close>

lemma find_SomeD: "find P xs = Some x \<Longrightarrow> x \<in> set xs \<and> P x"
  by (induction xs) (auto split: if_splits)

lemma ExtractD:
  assumes "Extract weekdays text None now (Some loc) = Inr e"
  obtains due c where "promised_instant weekdays loc now (lower (TrimSpace text)) = Inr (due, c)" "due \<noteq> 0" "now < due"
    "e = extraction due c now"
  using assms by (auto simp: Extract_def Let_def split: if_splits sum.splits)

lemma promised_instant_confidence:
  assumes "promised_instant weekdays loc now text = Inr (due, c)" and "due \<noteq> 0"
  shows "c \<in> {fl (82 / 100), fl (88 / 100), fl (95 / 100)}"
  using assms unfolding promised_instant_def Let_def
  by (auto split: option.splits if_splits prod.splits)


text \<open>A named weekday means the next one. In a zone of constant offset, text that names one weekday,
  and neither a date nor "tomorrow", promises that weekday one to seven days ahead, never today,
  at the hour and minute read from the text or ten o'clock, whatever the order in which the
  weekdays are tried.\<close>

theorem weekday_promise_is_next:
  assumes "Extract weekdays text None now (Some (\<lambda>_. off)) = Inr e"
    and "set weekdays = set weekday_names" and "(name, w) \<in> set weekdays" and "sublist name (lower (TrimSpace text))"
    and "\<And>n v. (n, v) \<in> set weekdays \<Longrightarrow> sublist n (lower (TrimSpace text)) \<Longrightarrow> n = name"
    and "isoDate (lower (TrimSpace text)) = None" and "\<not> sublist ''tomorrow'' (lower (TrimSpace text))"
  shows "let day = day_of (\<lambda>_. off) (xt_PromisedFor e); (h, m) = parseClock (lower (TrimSpace text)) 10 0 in
     weekday_of day = w \<and> day_of (\<lambda>_. off) now < day \<and> day \<le> day_of (\<lambda>_. off) now + 7
     \<and> clock_of (\<lambda>_. off) (xt_PromisedFor e) = h * Hour + m * Minute"
proof -
  let ?text = "lower (TrimSpace text)"
  obtain due c where d: "promised_instant weekdays (\<lambda>_. off) now ?text = Inr (due, c)" "e = extraction due c now"
    using assms(1) by (rule ExtractD)
  have "find (\<lambda>(n, _). sublist n ?text) weekdays \<noteq> None" using assms(3,4) by (auto simp: find_None_iff)
  then obtain n v where f: "find (\<lambda>(n, _). sublist n ?text) weekdays = Some (n, v)" by auto
  have nv: "(n, v) \<in> set weekdays" "sublist n ?text" using find_SomeD [OF f] by auto
  then have "n = name" using assms(5) by blast
  moreover have "distinct (map fst weekday_names)" by (simp add: weekday_names_def)
  ultimately have v: "v = w" using nv(1) assms(3) unfolding assms(2) by (metis eq_key_imp_eq_value)
  have due: "due = weekday_promise (\<lambda>_. off) now ?text w" using d(1) f v assms(6,7) by (simp add: promised_instant_def)
  obtain h m where hm: "parseClock ?text 10 0 = (h, m)" by fastforce
  have r: "0 \<le> h" "h \<le> 23" "0 \<le> m" "m \<le> 59" using parseClock_range [OF hm] by simp_all
  have "list_all (\<lambda>(_, v). 0 \<le> v \<and> v < 7) weekday_names" by (simp add: weekday_names_def)
  then have w: "0 \<le> w" "w < 7" using assms(3) unfolding assms(2) list_all_iff by blast+
  define days where "days = (w - weekday_of (day_of (\<lambda>_. off) now) + 7) mod 7"
  define days' where "days' = (if days = 0 then 7 else days)"
  have due': "due = date_at (\<lambda>_. off) (day_of (\<lambda>_. off) now + days') h m"
    unfolding due weekday_promise_def Let_def hm days_def [symmetric] days'_def [symmetric] day_of_add_days by simp
  show ?thesis
    using weekday_distance [OF w days_def days'_def] day_of_date [OF r] hm d(2) due' by (simp add: extraction_def)
qed

text \<open>Text that names two weekdays has no one meaning: Go visits a map in no fixed order, so the same
  words at the same instant are read as a promise for Monday or for Friday.\<close>

theorem two_weekdays_are_ambiguous:
  "\<exists>order1 order2 text now e1 e2. mset order1 = mset weekday_names \<and> mset order2 = mset weekday_names
     \<and> Extract order1 text None now None = Inr e1 \<and> Extract order2 text None now None = Inr e2
     \<and> weekday_of (day_of UTC (xt_PromisedFor e1)) \<noteq> weekday_of (day_of UTC (xt_PromisedFor e2))"
proof -
  have "mset weekday_names = mset (rev weekday_names)" by simp
  moreover have "case (Extract weekday_names ''monday or friday'' None 1 None, Extract (rev weekday_names) ''monday or friday'' None 1 None) of
      (Inr e1, Inr e2) \<Rightarrow> weekday_of (day_of UTC (xt_PromisedFor e1)) \<noteq> weekday_of (day_of UTC (xt_PromisedFor e2)) | _ \<Rightarrow> False"
    by code_simp
  ultimately show ?thesis
    by (intro exI [of _ weekday_names] exI [of _ "rev weekday_names"] exI [of _ "''monday or friday''"] exI [of _ 1])
      (auto split: sum.splits)
qed


theorem weekday_promise_is_next_witness:
  "weekday_of (day_of (\<lambda>_. 19800) (xt_PromisedFor (projr (Extract weekday_names ''by Friday'' None 1 (Some (\<lambda>_. 19800)))))) = 5"
proof -
  have "case Extract weekday_names ''by Friday'' None 1 (Some (\<lambda>_. 19800)) of Inr e \<Rightarrow> True | _ \<Rightarrow> False" by code_simp
  then obtain e where e: "Extract weekday_names ''by Friday'' None 1 (Some (\<lambda>_. 19800)) = Inr e" by (auto split: sum.splits)
  have t: "lower (TrimSpace ''by Friday'') = ''by friday''" by code_simp
  have l: "list_all (\<lambda>(n, v). sublist n ''by friday'' \<longrightarrow> n = ''friday'') weekday_names" by code_simp
  have h: "n = ''friday''" if "(n, v) \<in> set weekday_names" "sublist n (lower (TrimSpace ''by Friday''))" for n v
    using l that unfolding t list_all_iff by auto
  have m: "(''friday'', 5) \<in> set weekday_names" by (simp add: weekday_names_def)
  have s: "sublist ''friday'' (lower (TrimSpace ''by Friday''))" "isoDate (lower (TrimSpace ''by Friday'')) = None"
    "\<not> sublist ''tomorrow'' (lower (TrimSpace ''by Friday''))" unfolding t by code_simp+
  show ?thesis
    using weekday_promise_is_next [OF e refl m s(1) h s(2,3)] by (simp add: e Let_def case_prod_beta)
qed

end
