(* ===== verification/Executor.thy ===== *)
theory Executor
  imports Workflow_Store
begin

text \<open>
  Package \<open>executor\<close> (\<open>internal/executor/executor.go\<close>) with the Razorpay link executor of
  \<open>internal/integrations/razorpay/client.go\<close> and its reference table
  (\<open>internal/store/integrations.go\<close>). The provider behind the HTTP client is a parameter with a
  state of its own; executors run on the pair of the database and that state.
\<close>

section \<open>Requests and faults\<close>

record Request =
  xq_ExecutionID :: ID
  xq_ScheduledActionID :: ID
  xq_RecoveryActionID :: ID
  xq_CaseID :: ID
  xq_Action :: ActionType
  xq_IdempotencyKey :: string
  xq_AmountMinor :: int
  xq_Currency :: string
  xq_MerchantID :: ID
  xq_CustomerID :: ID
  xq_RecipientReference :: string
  xq_Parameters :: RawMessage

text \<open>
  What \<open>classify\<close> asks of an error: whether its chain holds \<open>context.DeadlineExceeded\<close>, the
  \<open>Timeout()\<close> of a \<open>net.Error\<close> in it, the status of an \<open>APIError\<close> in it.
\<close>

record fault =
  ft_DeadlineExceeded :: bool
  ft_NetworkTimeout :: "bool option"
  ft_APIStatus :: "int option"

definition plain_fault :: fault where
  "plain_fault = \<lparr>ft_DeadlineExceeded = False, ft_NetworkTimeout = None, ft_APIStatus = None\<rparr>"

definition classify :: "fault \<Rightarrow> string \<times> bool" where
  "classify err =
     (if ft_DeadlineExceeded err then (''TIMEOUT'', True)
      else if ft_NetworkTimeout err = Some True then (''TIMEOUT'', True)
      else (case ft_APIStatus err of
          Some code \<Rightarrow> if 400 \<le> code \<and> code < 500 \<and> code \<noteq> 408 \<and> code \<noteq> 429
            then (''PERMANENT_PROVIDER_ERROR'', False) else (''TRANSIENT_PROVIDER_ERROR'', True)
        | None \<Rightarrow> (''TRANSIENT_PROVIDER_ERROR'', True)))"

section \<open>Results\<close>

definition failed_result :: "Request \<Rightarrow> string \<times> bool \<Rightarrow> ExecResult" where
  "failed_result r c = \<lparr>er_ExecutionID = xq_ExecutionID r, er_Action = xq_Action r, er_Status = ''FAILED'',
     er_Provider = [], er_ProviderReference = [], er_IdempotencyKey = xq_IdempotencyKey r, er_ExecutedAt = 0,
     er_FailureClass = fst c, er_Retryable = snd c\<rparr>"

definition done_result :: "Request \<Rightarrow> string \<Rightarrow> string \<Rightarrow> string \<Rightarrow> time \<Rightarrow> ExecResult" where
  "done_result r status provider reference now = \<lparr>er_ExecutionID = xq_ExecutionID r, er_Action = xq_Action r,
     er_Status = status, er_Provider = provider, er_ProviderReference = reference,
     er_IdempotencyKey = xq_IdempotencyKey r, er_ExecutedAt = now, er_FailureClass = [], er_Retryable = False\<rparr>"

text \<open>The interface \<open>Executor\<close>, over a state \<open>'s\<close>.\<close>

record 's Executor =
  xe_Supports :: "ActionType \<Rightarrow> bool"
  xe_Execute :: "Request \<Rightarrow> 's \<Rightarrow> (ExecResult \<times> fault option) \<times> 's"
  xe_Reconcile :: "string \<Rightarrow> 's \<Rightarrow> (fault, ExecResult) result"

definition registry_Execute :: "'s Executor list \<Rightarrow> Request \<Rightarrow> 's \<Rightarrow> (ExecResult \<times> fault option) \<times> 's" where
  "registry_Execute executors r s =
     (case find (\<lambda>x. xe_Supports x (xq_Action r)) executors of
        Some x \<Rightarrow> xe_Execute x r s
      | None \<Rightarrow> ((failed_result r (''UNSUPPORTED_ACTION'', False), Some plain_fault), s))"

definition registry_Reconcile :: "'s Executor list \<Rightarrow> ActionType \<Rightarrow> string \<Rightarrow> 's \<Rightarrow> (fault, ExecResult) result" where
  "registry_Reconcile executors action key s =
     (case find (\<lambda>x. xe_Supports x action) executors of
        Some x \<Rightarrow> xe_Reconcile x key s | None \<Rightarrow> Inl plain_fault)"

section \<open>E-mail\<close>

definition email_supports :: "ActionType \<Rightarrow> bool" where
  "email_supports a \<longleftrightarrow> a \<in> {ActionSendReminder, ActionRequestPaymentMethodUpdate,
     ActionSendCheckoutRecoveryLink, ActionSuggestAlternateMethod}"

fun email_template :: "ActionType \<Rightarrow> string" where
  "email_template ActionSendReminder = ''failed-payment-reminder''"
| "email_template ActionRequestPaymentMethodUpdate = ''payment-method-update''"
| "email_template ActionSendCheckoutRecoveryLink = ''checkout-recovery''"
| "email_template ActionSuggestAlternateMethod = ''alternate-payment-method''"
| "email_template _ = []"

text \<open>
  The amount, the currency and the three named parameters, keys in the order \<open>json.Marshal\<close>
  writes a map; \<open>null\<close> decodes to an empty map, anything but an object does not decode.
\<close>

definition safe_members :: "Request \<Rightarrow> (string \<times> json) list \<Rightarrow> (string \<times> json) list" where
  "safe_members r supplied =
     (let pick = (\<lambda>key. case member_of supplied key of Some v \<Rightarrow> [(key, canonical v)] | None \<Rightarrow> []) in
      [(''amount_minor'', JInt (xq_AmountMinor r)), (''currency'', JStr (xq_Currency r))]
      @ pick ''deadline'' @ pick ''merchant_name'' @ pick ''recovery_url'')"

definition safe_payload :: "Request \<Rightarrow> json" where
  "safe_payload r =
     (case xq_Parameters r of
        Some (JObj supplied) \<Rightarrow> JObj (safe_members r supplied)
      | Some JNull \<Rightarrow> JObj (safe_members r [])
      | _ \<Rightarrow> JObj [(''amount_minor'', JInt 0)])"

text \<open>\<open>CaptureEmail\<close> for a request; a database error carries nothing \<open>classify\<close> looks for.\<close>

definition capture :: "ID \<Rightarrow> Request \<Rightarrow> string \<Rightarrow> json \<Rightarrow> Database \<Rightarrow> (fault, ID) result \<times> Database" where
  "capture newID r template payload db =
     (case CaptureEmail newID (xq_ScheduledActionID r) (xq_IdempotencyKey r) (xq_RecipientReference r) template
             (Some payload) db of
        Inl _ \<Rightarrow> (Inl plain_fault, db) | Inr ((reference, _), db) \<Rightarrow> (Inr reference, db))"

definition email_Execute :: "ID \<Rightarrow> time \<Rightarrow> Request \<Rightarrow> Database \<times> 'p \<Rightarrow> (ExecResult \<times> fault option) \<times> Database \<times> 'p" where
  "email_Execute newID now r s =
     (case capture newID r (email_template (xq_Action r)) (safe_payload r) (fst s) of
        (Inl err, db) \<Rightarrow> ((failed_result r (classify err), Some err), (db, snd s))
      | (Inr reference, db) \<Rightarrow>
          ((done_result r ''SUCCEEDED'' ''local-email-capture'' reference now, None), (db, snd s)))"

definition EmailExecutor :: "ID \<Rightarrow> time \<Rightarrow> (Database \<times> 'p) Executor" where
  "EmailExecutor newID now = \<lparr>xe_Supports = email_supports, xe_Execute = email_Execute newID now,
     xe_Reconcile = (\<lambda>_ _. Inl plain_fault)\<rparr>"

section \<open>Payment links\<close>

record PaymentLinkRequest =
  lq_Amount :: int
  lq_Currency :: string
  lq_Description :: string
  lq_ReferenceID :: string
  lq_Notes :: "(string \<times> string) list"

record 'p Provider =
  CreatePaymentLink :: "PaymentLinkRequest \<Rightarrow> 'p \<Rightarrow> (fault, PaymentLink) result \<times> 'p"
  FetchPaymentLink :: "string \<Rightarrow> 'p \<Rightarrow> (fault, PaymentLink) result"

definition GetPaymentLink :: "string \<Rightarrow> Database \<Rightarrow> PaymentLink option" where
  "GetPaymentLink actionID db =
     map_option lk_Link (find (\<lambda>f. list_ex (\<lambda>a. ra_ID a = lk_ActionID f
       \<and> (lk_ActionID f = actionID \<or> ra_IdempotencyKey a = actionID)) (db_actions db)) (db_provider_refs db))"

definition SavePaymentLink :: "ID \<Rightarrow> ID \<Rightarrow> PaymentLink \<Rightarrow> Database \<Rightarrow> (error, Database) result" where
  "SavePaymentLink newID actionID link db =
     (if list_ex (\<lambda>f. lk_ActionID f = actionID) (db_provider_refs db) then Inr db
      else if list_ex (\<lambda>f. lk_ID f = newID) (db_provider_refs db) then Inl (ErrConstraint ''provider_action_references_pkey'')
      else if \<not> list_ex (\<lambda>a. ra_ID a = actionID) (db_actions db)
        then Inl (ErrConstraint ''provider_action_references_action_id_fkey'')
      else Inr (db\<lparr>db_provider_refs := db_provider_refs db @ [\<lparr>lk_ID = newID, lk_ActionID = actionID, lk_Link = link\<rparr>]\<rparr>))"

text \<open>\<open>razorpay.PaymentLinkExecutor\<close>: the stored link of the action, or a new one that is stored.\<close>

definition link_Execute :: "'p Provider \<Rightarrow> ID \<Rightarrow> ID \<Rightarrow> PaymentLinkRequest \<Rightarrow> Database \<times> 'p
    \<Rightarrow> (fault, PaymentLink) result \<times> Database \<times> 'p" where
  "link_Execute provider newID actionID input s =
     (case GetPaymentLink actionID (fst s) of Some existing \<Rightarrow> (Inr existing, s)
      | None \<Rightarrow>
          (case CreatePaymentLink provider input (snd s) of (Inl err, p) \<Rightarrow> (Inl err, (fst s, p))
           | (Inr created, p) \<Rightarrow>
               (case SavePaymentLink newID actionID created (fst s) of Inl _ \<Rightarrow> (Inl plain_fault, (fst s, p))
                | Inr db \<Rightarrow> (Inr created, (db, p)))))"

definition link_Reconcile :: "'p Provider \<Rightarrow> string \<Rightarrow> Database \<times> 'p \<Rightarrow> (fault, PaymentLink) result" where
  "link_Reconcile provider actionID s =
     (case GetPaymentLink actionID (fst s) of None \<Rightarrow> Inl plain_fault
      | Some existing \<Rightarrow> FetchPaymentLink provider (pl_ID existing) (snd s))"

definition link_request :: "Request \<Rightarrow> PaymentLinkRequest" where
  "link_request r = \<lparr>lq_Amount = xq_AmountMinor r, lq_Currency = xq_Currency r,
     lq_Description = ''Merchant-approved revenue recovery'', lq_ReferenceID = xq_ScheduledActionID r,
     lq_Notes = [(''merchant_id'', xq_MerchantID r), (''customer_id'', xq_CustomerID r),
       (''recovery_case_id'', xq_CaseID r), (''recovery_action_id'', xq_RecoveryActionID r)]\<rparr>"

definition payment_Execute :: "'p Provider \<Rightarrow> ID \<Rightarrow> time \<Rightarrow> Request \<Rightarrow> Database \<times> 'p
    \<Rightarrow> (ExecResult \<times> fault option) \<times> Database \<times> 'p" where
  "payment_Execute provider newID now r s =
     (case link_Execute provider newID (xq_RecoveryActionID r) (link_request r) s of
        (Inl err, s) \<Rightarrow> ((failed_result r (classify err), Some err), s)
      | (Inr link, s) \<Rightarrow> ((done_result r ''SUCCEEDED'' ''razorpay'' (pl_ID link) now, None), s))"

definition payment_Reconcile :: "'p Provider \<Rightarrow> time \<Rightarrow> string \<Rightarrow> Database \<times> 'p \<Rightarrow> (fault, ExecResult) result" where
  "payment_Reconcile provider now key s =
     (case link_Reconcile provider key s of Inl err \<Rightarrow> Inl err
      | Inr link \<Rightarrow> Inr \<lparr>er_ExecutionID = [], er_Action = ActionSendPaymentLink, er_Status = ''SUCCEEDED'',
          er_Provider = ''razorpay'', er_ProviderReference = pl_ID link, er_IdempotencyKey = [], er_ExecutedAt = now,
          er_FailureClass = [], er_Retryable = False\<rparr>)"

definition PaymentLinkExecutor :: "'p Provider \<Rightarrow> ID \<Rightarrow> time \<Rightarrow> (Database \<times> 'p) Executor" where
  "PaymentLinkExecutor provider newID now = \<lparr>xe_Supports = (\<lambda>a. a = ActionSendPaymentLink),
     xe_Execute = payment_Execute provider newID now, xe_Reconcile = payment_Reconcile provider now\<rparr>"

definition local_link_Execute :: "ID \<Rightarrow> time \<Rightarrow> Request \<Rightarrow> Database \<times> 'p \<Rightarrow> (ExecResult \<times> fault option) \<times> Database \<times> 'p" where
  "local_link_Execute newID now r s =
     (case capture newID r ''local-payment-link'' (JObj [(''amount_minor'', JInt (xq_AmountMinor r)),
             (''currency'', JStr (xq_Currency r)),
             (''recovery_url'', JStr (''https://local.invalid/recovery/'' @ xq_ScheduledActionID r))]) (fst s) of
        (Inl err, db) \<Rightarrow> ((failed_result r (''LOCAL_CAPTURE_ERROR'', False), Some err), (db, snd s))
      | (Inr reference, db) \<Rightarrow>
          ((done_result r ''SUCCEEDED'' ''local-payment-link'' reference now, None), (db, snd s)))"

definition LocalPaymentLinkExecutor :: "ID \<Rightarrow> time \<Rightarrow> (Database \<times> 'p) Executor" where
  "LocalPaymentLinkExecutor newID now = \<lparr>xe_Supports = (\<lambda>a. a = ActionSendPaymentLink),
     xe_Execute = local_link_Execute newID now, xe_Reconcile = (\<lambda>_ _. Inl plain_fault)\<rparr>"

section \<open>Retries\<close>

text \<open>The provider is the store's outbox (\<open>ProviderName\<close> gives its name), or none is configured.\<close>

definition retry_Execute :: "bool \<Rightarrow> ID \<Rightarrow> time \<Rightarrow> Request \<Rightarrow> Database \<times> 'p \<Rightarrow> (ExecResult \<times> fault option) \<times> Database \<times> 'p" where
  "retry_Execute configured newID now r s =
     (if \<not> configured then ((failed_result r (''PROVIDER_CAPABILITY_UNAVAILABLE'', False), Some plain_fault), s)
      else (case RequestRetry newID (xq_IdempotencyKey r) (xq_Parameters r) (fst s) of
          Inl _ \<Rightarrow> ((failed_result r (''TRANSIENT_PROVIDER_ERROR'', True), Some plain_fault), s)
        | Inr (reference, db) \<Rightarrow>
            ((done_result r ''OUTCOME_PENDING'' ''local-retry-capture'' reference now, None), (db, snd s))))"

definition RetryExecutor :: "bool \<Rightarrow> ID \<Rightarrow> time \<Rightarrow> (Database \<times> 'p) Executor" where
  "RetryExecutor configured newID now = \<lparr>xe_Supports = (\<lambda>a. a = ActionRetryNow \<or> a = ActionRetryLater),
     xe_Execute = retry_Execute configured newID now, xe_Reconcile = (\<lambda>_ _. Inl plain_fault)\<rparr>"

text \<open>The registry of \<open>cmd/worker\<close>, with the local or the Razorpay link executor.\<close>

definition worker_registry :: "'p Provider option \<Rightarrow> ID \<Rightarrow> time \<Rightarrow> (Database \<times> 'p) Executor list" where
  "worker_registry provider newID now =
     [EmailExecutor newID now,
      (case provider of None \<Rightarrow> LocalPaymentLinkExecutor newID now | Some p \<Rightarrow> PaymentLinkExecutor p newID now),
      RetryExecutor True newID now]"

section \<open>Replays\<close>

text \<open>
  The contract of an executor the worker may call again after a lost response: a request that
  has succeeded, repeated, succeeds with the same reference and changes nothing.
\<close>

locale idempotent_executor =
  fixes run :: "ID \<Rightarrow> time \<Rightarrow> Request \<Rightarrow> 's \<Rightarrow> (ExecResult \<times> fault option) \<times> 's"
    and same :: "Request \<Rightarrow> Request \<Rightarrow> bool" and ok :: "'s \<Rightarrow> bool"
  assumes replay: "ok s \<Longrightarrow> run n t r s = ((x, None), s') \<Longrightarrow> same r r' \<Longrightarrow>
    \<exists>x'. run n' t' r' s' = ((x', None), s') \<and> er_ProviderReference x' = er_ProviderReference x \<and> er_Status x' = er_Status x"
begin

lemma replays:
  assumes "ok s" and "run n t r s = ((x, None), s')" and "list_all (\<lambda>(n', t', r'). same r r') calls"
  shows "foldl (\<lambda>s (n', t', r'). snd (run n' t' r' s)) s' calls = s'"
  using assms(3)
proof (induction calls)
  case (Cons call calls)
  obtain n' t' r' where call: "call = (n', t', r')" by (cases call)
  have "snd (run n' t' r' s') = s'" using replay [OF assms(1,2), of r' n' t'] Cons.prems call by auto
  then show ?case using Cons call by simp
qed simp

end

definition same_work :: "Request \<Rightarrow> Request \<Rightarrow> bool" where
  "same_work r r' \<longleftrightarrow> xq_Action r' = xq_Action r \<and> xq_IdempotencyKey r' = xq_IdempotencyKey r
     \<and> xq_RecoveryActionID r' = xq_RecoveryActionID r"

lemma done_result_simps [simp]:
  "er_ProviderReference (done_result r st p ref now) = ref" "er_Status (done_result r st p ref now) = st"
  by (simp_all add: done_result_def)

text \<open>The outboxes keep the first reference under a key.\<close>

lemma capture_replay:
  assumes "capture n r template payload db = (Inr reference, db')" and "xq_IdempotencyKey r' = xq_IdempotencyKey r"
  shows "capture n' r' template' payload' db' = (Inr reference, db')"
proof -
  obtain fresh where c: "CaptureEmail n (xq_ScheduledActionID r) (xq_IdempotencyKey r) (xq_RecipientReference r) template
      (Some payload) db = Inr ((reference, fresh), db')"
    using assms(1) by (auto simp: capture_def split: sum.splits prod.splits)
  have "\<exists>d. lookup dl_IdempotencyKey (xq_IdempotencyKey r) (db_deliveries db') = Some d \<and> dl_ID d = reference"
    using c by (auto simp: CaptureEmail_def lookup_append lookup_Cons split: option.splits if_splits)
  then show ?thesis using assms(2) by (auto simp: capture_def CaptureEmail_def)
qed

lemma retry_replay:
  assumes "RequestRetry n key payload db = Inr (reference, db')"
  shows "RequestRetry n' key payload' db' = Inr (reference, db')"
proof -
  have "\<exists>q. lookup rq_IdempotencyKey key (db_retry_requests db') = Some q \<and> rq_ID q = reference"
    using assms by (auto simp: RequestRetry_def lookup_append lookup_Cons split: option.splits if_splits)
  then show ?thesis by (auto simp: RequestRetry_def)
qed

text \<open>The foreign key of the reference table: every stored link belongs to an action.\<close>

definition links_referenced :: "Database \<Rightarrow> bool" where
  "links_referenced db \<longleftrightarrow> (\<forall>f \<in> set (db_provider_refs db). list_ex (\<lambda>a. ra_ID a = lk_ActionID f) (db_actions db))"

lemma link_stored:
  assumes "SavePaymentLink n a link db = Inr db'" and "GetPaymentLink a db = None" and "links_referenced db"
  shows "GetPaymentLink a db' = Some link"
proof -
  have no: "\<not> list_ex (\<lambda>f. lk_ActionID f = a) (db_provider_refs db)"
    using assms(2,3) by (fastforce simp: GetPaymentLink_def links_referenced_def find_None_iff list_ex_iff)
  then have db': "db' = db\<lparr>db_provider_refs := db_provider_refs db @ [\<lparr>lk_ID = n, lk_ActionID = a, lk_Link = link\<rparr>]\<rparr>"
    and act: "list_ex (\<lambda>x. ra_ID x = a) (db_actions db)"
    using assms(1) by (auto simp: SavePaymentLink_def split: if_splits)
  have f: "find P (xs @ [y]) = (case find P xs of None \<Rightarrow> if P y then Some y else None | Some z \<Rightarrow> Some z)"
    for P and xs :: "ProviderReference list" and y by (induction xs) auto
  show ?thesis using assms(2) act by (auto simp: GetPaymentLink_def db' f list_ex_iff split: option.splits)
qed

lemma link_replay:
  assumes "links_referenced (fst s)" and "link_Execute provider n a input s = (Inr link, s')"
  shows "link_Execute provider n' a input' s' = (Inr link, s')"
proof (cases "GetPaymentLink a (fst s)")
  case (Some existing)
  then show ?thesis using assms(2) by (auto simp: link_Execute_def)
next
  case None
  obtain p db where c: "CreatePaymentLink provider input (snd s) = (Inr link, p)" "SavePaymentLink n a link (fst s) = Inr db"
    "s' = (db, p)" using assms(2) None by (auto simp: link_Execute_def split: sum.splits prod.splits)
  show ?thesis using link_stored [OF c(2) None assms(1)] c(3) by (simp add: link_Execute_def)
qed

interpretation email: idempotent_executor "email_Execute :: ID \<Rightarrow> time \<Rightarrow> Request \<Rightarrow> Database \<times> 'p \<Rightarrow> _" same_work "\<lambda>_. True"
proof
  fix n t r s x s' r' n' t'
  assume run: "email_Execute n t r s = ((x, None), s' :: Database \<times> 'p)" and same: "same_work r r'"
  obtain reference db where c: "capture n r (email_template (xq_Action r)) (safe_payload r) (fst s) = (Inr reference, db)"
    "x = done_result r ''SUCCEEDED'' ''local-email-capture'' reference t" "s' = (db, snd s)"
    using run by (auto simp: email_Execute_def split: sum.splits prod.splits)
  show "\<exists>x'. email_Execute n' t' r' s' = ((x', None), s') \<and> er_ProviderReference x' = er_ProviderReference x
      \<and> er_Status x' = er_Status x"
    using capture_replay [OF c(1), of r'] same c(2,3) by (simp add: email_Execute_def same_work_def)
qed

interpretation local_link: idempotent_executor "local_link_Execute :: ID \<Rightarrow> time \<Rightarrow> Request \<Rightarrow> Database \<times> 'p \<Rightarrow> _" same_work "\<lambda>_. True"
proof
  fix n t r s x s' r' n' t'
  assume run: "local_link_Execute n t r s = ((x, None), s' :: Database \<times> 'p)" and same: "same_work r r'"
  obtain reference db payload where c: "capture n r ''local-payment-link'' payload (fst s) = (Inr reference, db)"
    "x = done_result r ''SUCCEEDED'' ''local-payment-link'' reference t" "s' = (db, snd s)"
    using run by (auto simp: local_link_Execute_def split: sum.splits prod.splits)
  show "\<exists>x'. local_link_Execute n' t' r' s' = ((x', None), s') \<and> er_ProviderReference x' = er_ProviderReference x
      \<and> er_Status x' = er_Status x"
    using capture_replay [OF c(1), of r'] same c(2,3) by (simp add: local_link_Execute_def same_work_def)
qed

interpretation retry: idempotent_executor "retry_Execute configured :: ID \<Rightarrow> time \<Rightarrow> Request \<Rightarrow> Database \<times> 'p \<Rightarrow> _" same_work "\<lambda>_. True"
  for configured
proof
  fix n t r s x s' r' n' t'
  assume run: "retry_Execute configured n t r s = ((x, None), s' :: Database \<times> 'p)" and same: "same_work r r'"
  obtain reference db where c: "configured" "RequestRetry n (xq_IdempotencyKey r) (xq_Parameters r) (fst s) = Inr (reference, db)"
    "x = done_result r ''OUTCOME_PENDING'' ''local-retry-capture'' reference t" "s' = (db, snd s)"
    using run by (auto simp: retry_Execute_def split: sum.splits prod.splits if_splits)
  show "\<exists>x'. retry_Execute configured n' t' r' s' = ((x', None), s') \<and> er_ProviderReference x' = er_ProviderReference x
      \<and> er_Status x' = er_Status x"
    using retry_replay [OF c(2)] same c(1,3,4) by (simp add: retry_Execute_def same_work_def)
qed

interpretation payment: idempotent_executor "payment_Execute provider" same_work "\<lambda>s. links_referenced (fst s)"
  for provider
proof
  fix n t r s x s' r' n' t'
  assume ok: "links_referenced (fst s)" and run: "payment_Execute provider n t r s = ((x, None), s')" and same: "same_work r r'"
  obtain link where c: "link_Execute provider n (xq_RecoveryActionID r) (link_request r) s = (Inr link, s')"
    "x = done_result r ''SUCCEEDED'' ''razorpay'' (pl_ID link) t"
    using run by (auto simp: payment_Execute_def split: sum.splits prod.splits)
  show "\<exists>x'. payment_Execute provider n' t' r' s' = ((x', None), s') \<and> er_ProviderReference x' = er_ProviderReference x
      \<and> er_Status x' = er_Status x"
    using link_replay [OF ok c(1)] same c(2) by (simp add: payment_Execute_def same_work_def)
qed

text \<open>So does the registry of the worker, whichever executor it dispatches to.\<close>

lemmas registry_defs = registry_Execute_def worker_registry_def EmailExecutor_def LocalPaymentLinkExecutor_def
  PaymentLinkExecutor_def RetryExecutor_def

lemma registry_cases:
  "registry_Execute (worker_registry provider n t) r s =
     (if email_supports (xq_Action r) then email_Execute n t r s
      else if xq_Action r = ActionSendPaymentLink then
        (case provider of None \<Rightarrow> local_link_Execute n t r s | Some p \<Rightarrow> payment_Execute p n t r s)
      else if xq_Action r = ActionRetryNow \<or> xq_Action r = ActionRetryLater then retry_Execute True n t r s
      else ((failed_result r (''UNSUPPORTED_ACTION'', False), Some plain_fault), s))"
  by (cases provider) (auto simp: registry_defs)

interpretation worker: idempotent_executor "\<lambda>n t. registry_Execute (worker_registry provider n t)" same_work
    "\<lambda>s. links_referenced (fst s)"
  for provider
proof
  fix n t r s x s' r' n' t'
  assume ok: "links_referenced (fst s)" and run: "registry_Execute (worker_registry provider n t) r s = ((x, None), s')"
    and same: "same_work r r'"
  have a: "xq_Action r' = xq_Action r" using same by (simp add: same_work_def)
  consider "email_supports (xq_Action r)" | "\<not> email_supports (xq_Action r)" "xq_Action r = ActionSendPaymentLink"
    | "\<not> email_supports (xq_Action r)" "xq_Action r \<noteq> ActionSendPaymentLink" "xq_Action r = ActionRetryNow \<or> xq_Action r = ActionRetryLater"
    using run by (auto simp: registry_cases split: if_splits)
  then show "\<exists>x'. registry_Execute (worker_registry provider n' t') r' s' = ((x', None), s')
      \<and> er_ProviderReference x' = er_ProviderReference x \<and> er_Status x' = er_Status x"
  proof cases
    case 1
    then show ?thesis using email.replay [OF TrueI _ same] run a by (simp add: registry_cases)
  next
    case 2
    then show ?thesis
      using local_link.replay [OF TrueI _ same] payment.replay [OF ok _ same] run a
      by (cases provider) (simp_all add: registry_cases)
  next
    case 3
    then show ?thesis using retry.replay [OF TrueI _ same] run a by (simp add: registry_cases)
  qed
qed

section \<open>Properties\<close>

text \<open>C15. Execution is idempotent for the worker's registry: once a request has succeeded, any number
  of further executions of the same work (same action, idempotency key and recovery action)
  succeed with the same provider reference and change neither the database nor the provider:
  no second e-mail, retry request or payment link is ever created.\<close>

theorem execution_is_idempotent:
  assumes "links_referenced db" and "registry_Execute (worker_registry provider n t) r (db, p) = ((x, None), s')"
    and "list_all (\<lambda>(n', t', r'). same_work r r') calls" and "same_work r r2"
  shows "foldl (\<lambda>s (n', t', r'). snd (registry_Execute (worker_registry provider n' t') r' s)) s' calls = s'
     \<and> (\<exists>x2. registry_Execute (worker_registry provider n2 t2) r2 s' = ((x2, None), s')
          \<and> er_ProviderReference x2 = er_ProviderReference x \<and> er_Status x2 = er_Status x)"
  using worker.replays [OF _ assms(2,3)] worker.replay [OF _ assms(2,4)] assms(1) by simp

definition example_request :: Request where
  "example_request = \<lparr>xq_ExecutionID = ''x1'', xq_ScheduledActionID = sa_ID scheduled_action,
     xq_RecoveryActionID = sa_RecoveryActionID scheduled_action, xq_CaseID = rc_ID created_case,
     xq_Action = ActionSendReminder, xq_IdempotencyKey = sa_IdempotencyKey scheduled_action, xq_AmountMinor = 10000,
     xq_Currency = ''INR'', xq_MerchantID = ''m1'', xq_CustomerID = ''c1'', xq_RecipientReference = ''c1'',
     xq_Parameters = sa_Parameters scheduled_action\<rparr>"

lemma example_executes:
  "\<exists>x db. registry_Execute (worker_registry None ''n1'' 5) example_request (waiting_db\<lparr>db_scheduled := db_scheduled scheduled_db\<rparr>, ())
     = ((x, None), (db, ()))"
  by (simp add: registry_cases example_request_def email_supports_def email_Execute_def capture_def CaptureEmail_def
      scheduled_facts(2) lookup_Cons waiting_db_def shop_db_def empty_db_def)

theorem execution_is_idempotent_witness:
  "\<exists>x db. registry_Execute (worker_registry None ''n1'' 5) example_request (waiting_db\<lparr>db_scheduled := db_scheduled scheduled_db\<rparr>, ())
     = ((x, None), (db, ())) \<and> snd (registry_Execute (worker_registry None ''n2'' 9) example_request (db, ())) = (db, ())"
proof -
  let ?db = "waiting_db\<lparr>db_scheduled := db_scheduled scheduled_db\<rparr>"
  obtain x db where e: "registry_Execute (worker_registry None ''n1'' 5) example_request (?db, ()) = ((x, None), (db, ()))"
    using example_executes by blast
  have "links_referenced ?db" by (simp add: links_referenced_def waiting_db_def shop_db_def empty_db_def)
  moreover have "same_work example_request example_request" by (simp add: same_work_def)
  ultimately show ?thesis
    using execution_is_idempotent [OF _ e, of "[(''n2'', 9, example_request)]" example_request] e by auto
qed

lemma safe_members_keys:
  "set (map fst (safe_members r kvs)) \<subseteq> {''amount_minor'', ''currency'', ''deadline'', ''merchant_name'', ''recovery_url''}
   \<and> distinct (map fst (safe_members r kvs))"
  by (cases "member_of kvs ''deadline''"; cases "member_of kvs ''merchant_name''"; cases "member_of kvs ''recovery_url''")
    (simp_all add: safe_members_def)

lemma safe_members_own:
  "map_of (safe_members r kvs) ''amount_minor'' = Some (JInt (xq_AmountMinor r))"
  "map_of (safe_members r kvs) ''currency'' = Some (JStr (xq_Currency r))"
  by (simp_all add: safe_members_def Let_def)

lemma safe_payload_cases:
  "(\<exists>kvs. safe_payload r = JObj (safe_members r kvs)) \<or> safe_payload r = JObj [(''amount_minor'', JInt 0)]"
  unfolding safe_payload_def by (auto split: option.split json.split)

text \<open>An e-mail carries no more than it may: whatever parameters were stored with the action, the
  payload has at most the amount, the currency and the three allowed parameters, and amount and
  currency are the case's own, never a supplied value.\<close>

theorem email_payload_is_minimal:
  "\<exists>kvs. safe_payload r = JObj kvs
     \<and> set (map fst kvs) \<subseteq> {''amount_minor'', ''currency'', ''deadline'', ''merchant_name'', ''recovery_url''}
     \<and> distinct (map fst kvs)
     \<and> map_of kvs ''amount_minor'' \<in> {Some (JInt (xq_AmountMinor r)), Some (JInt 0)}
     \<and> map_of kvs ''currency'' \<in> {Some (JStr (xq_Currency r)), None}"
proof (rule disjE [OF safe_payload_cases [of r]])
  assume "\<exists>kvs. safe_payload r = JObj (safe_members r kvs)"
  then obtain kvs where "safe_payload r = JObj (safe_members r kvs)" by blast
  then show ?thesis using safe_members_keys [of r kvs] safe_members_own [of r kvs] by simp
next
  assume "safe_payload r = JObj [(''amount_minor'', JInt 0)]"
  then show ?thesis by simp
qed

end
