(* ===== verification/Context_Store.thy ===== *)
theory Context_Store
  imports Workflow_Store "HOL-Library.Sublist"
begin

text \<open>
  Building the decision context: \<open>Build\<close>, \<open>RejectHiddenFeatures\<close> and \<open>Service.Get\<close> of
  \<open>internal/context/context.go\<close> and the rows they read, \<open>LoadContextInputs\<close> of
  \<open>internal/store/context.go\<close>. Rows of equal creation time come in insertion order, which SQL
  leaves open.
\<close>

section \<open>Hidden features\<close>

definition hiddenFeatureNames :: "string list" where
  "hiddenFeatureNames = [''liquidity_pattern'', ''retry_responsiveness'', ''payment_link_responsiveness'',
     ''reminder_responsiveness'', ''contact_sensitivity'', ''natural_recovery_probability'', ''churn_intent'']"

text \<open>
  The strings of a JSON text, member names included. \<open>RejectHiddenFeatures\<close> looks for a name
  between quotes in the lower-cased text. The closing quote is the end of a string; the opening
  one is its start or an escaped quote inside, so a text is refused for a string that is a name
  or ends with a quote and a name. (Stored documents are \<open>JSONB\<close>, which has no other escapes of
  these letters.)
\<close>

fun json_strings :: "json \<Rightarrow> string list" where
  "json_strings (JStr s) = [s]"
| "json_strings (JArr vs) = concat (map json_strings vs)"
| "json_strings (JObj kvs) = concat (map (\<lambda>(k, v). k # json_strings v) kvs)"
| "json_strings _ = []"

definition raw_strings :: "RawMessage \<Rightarrow> string list" where
  "raw_strings raw = (case raw of None \<Rightarrow> [] | Some v \<Rightarrow> json_strings v)"

definition mentions :: "string \<Rightarrow> string \<Rightarrow> bool" where
  "mentions name s \<longleftrightarrow> lower s = name \<or> suffix (CHR 0x22 # name) (lower s)"

definition RejectHiddenFeatures :: "string list \<Rightarrow> (error, unit) result" where
  "RejectHiddenFeatures encoded =
     (case find (\<lambda>name. list_ex (mentions name) encoded) hiddenFeatureNames of
        Some name \<Rightarrow> Inl (ErrMsg (''hidden simulator feature '' @ name @ '' cannot enter decision context''))
      | None \<Rightarrow> Inr ())"

section \<open>Build\<close>

record BuildInput =
  bi_Case :: RecoveryCase
  bi_Customer :: Customer
  bi_Profile :: CustomerRecoveryProfile
  bi_Merchant :: Merchant
  bi_Policy :: MerchantPolicy
  bi_Actions :: "RecoveryAction list"
  bi_ActivePromise :: "PromiseToPay option"
  bi_Now :: time

text \<open>\<open>number(features[k])\<close>\<close>

fun number_field :: "RawMessage \<Rightarrow> string \<Rightarrow> float64" where
  "number_field (Some (JObj kvs)) k = (case member_of kvs k of Some (JNum x) \<Rightarrow> x | _ \<Rightarrow> 0)"
| "number_field _ k = 0"

text \<open>\<open>value, ok := m[k].(string)\<close>\<close>

fun string_member :: "RawMessage \<Rightarrow> string \<Rightarrow> string option" where
  "string_member (Some (JObj kvs)) k = (case member_of kvs k of Some (JStr s) \<Rightarrow> Some s | _ \<Rightarrow> None)"
| "string_member _ k = None"

definition recent_actions :: "RecoveryAction list \<Rightarrow> RecentAction list" where
  "recent_actions actions = map (\<lambda>a. \<lparr>re_Type = ra_Type a, re_Status = ra_Status a, re_CreatedAt = ra_CreatedAt a\<rparr>)
     (filter (\<lambda>a. ra_Status a \<noteq> ''SCHEDULED'') actions)"

definition profile_of :: "BuildInput \<Rightarrow> CustomerProfile" where
  "profile_of b =
     (let p = bi_Profile b; total = i64 (pf_SuccessfulPayments p + pf_FailedPayments p); recent = recent_actions (bi_Actions b)
      in \<lparr>cp_SuccessfulPaymentRatio = (if 0 < total then fdiv (float_of (pf_SuccessfulPayments p)) (float_of total) else 0),
          cp_SuccessfulPaymentCount = pf_SuccessfulPayments p, cp_RecentFailures = pf_FailedPayments p,
          cp_PreviousRecoveryAttempts = int (length recent),
          cp_AverageTransactionValueMinor = int64_of (number_field (pf_Features p) ''average_transaction_value_minor''),
          cp_ContactCount = int (length (filter (\<lambda>r. isContact (re_Type r)) recent)),
          cp_PromiseReliability = clamp (pf_PromiseReliability p), cp_RecoveryFatigue = clamp (pf_FatigueScore p),
          cp_SubscriptionTenureDays = pf_SubscriptionTenureDays p,
          cp_PreferredPaymentMethod = string_field (pf_Features p) ''preferred_payment_method'',
          cp_PriorCheckoutRecoveries = int64_of (number_field (pf_Features p) ''prior_checkout_recoveries''),
          cp_OptedOut = cu_OptedOut (bi_Customer b)\<rparr>)"

definition payment_of :: "BuildInput \<Rightarrow> Diagnosis \<Rightarrow> PaymentState" where
  "payment_of b diagnosis =
     \<lparr>ps_AlreadyRecovered = (rc_CurrentState (bi_Case b) = StateRecovered),
      ps_MandateStatus = (case string_member (rc_FailureOrLeakContext (bi_Case b)) ''mandate_status'' of
        Some v \<Rightarrow> upper v | None \<Rightarrow> ''ACTIVE''),
      ps_PaymentMethodStatus = (if dg_FailureCategory diagnosis = ''PAYMENT_METHOD_INVALID'' then ''INVALID'' else ''VALID''),
      ps_AvailableChannels = mp_AllowedChannels (bi_Policy b)\<rparr>"

definition merchant_of :: "BuildInput \<Rightarrow> MerchantContext" where
  "merchant_of b =
     (let p = bi_Policy b;
          base = zero_merchant_context\<lparr>mc_MerchantType := m_Type (bi_Merchant b), mc_RecoveryObjective := mp_Objective p,
            mc_AllowedChannels := mp_AllowedChannels p, mc_AllowedActions := mp_AllowedActions p,
            mc_MaxRetries := mp_MaxRetries p, mc_MaxContactsPerDay := mp_MaxContactsPerDay p,
            mc_MaxContactsPerWeek := mp_MaxContactsPerWeek p,
            mc_MinimumContactIntervalMinutes := mp_MinContactIntervalMinutes p,
            mc_RecoveryWindowHours := mp_RecoveryWindowHours p, mc_QuietHours := mp_QuietHours p,
            mc_MinimumEconomicValueMinor := mp_MinimumEconomicValueMinor p,
            mc_HighValueThresholdMinor := mp_HighValueThresholdMinor p,
            mc_LowConfidenceThreshold := mp_LowConfidenceThreshold p,
            mc_MaximumIncentiveMinor := mp_MaximumIncentiveMinor p\<rparr>;
          tuned = (case mp_OptimizationProfile p of None \<Rightarrow> base
            | Some t \<Rightarrow> base\<lparr>mc_OptimizationProfileID := op_ID t, mc_OptimizationProfileVersion := op_ConfigurationVersion t,
                mc_RecoveryObjective := op_Objective t, mc_RevenueWeightBPS := op_RevenueWeightBPS t,
                mc_RetentionWeightBPS := op_RetentionWeightBPS t, mc_ContactPenaltyWeightBPS := op_ContactPenaltyWeightBPS t,
                mc_CostPenaltyWeightBPS := op_CostPenaltyWeightBPS t, mc_FatiguePenaltyWeightBPS := op_FatiguePenaltyWeightBPS t,
                mc_RiskPenaltyWeightBPS := op_RiskPenaltyWeightBPS t, mc_EscalationPreference := op_EscalationPreference t,
                mc_MinimumEconomicValueMinor := op_MinimumNERVMinor t,
                mc_AllowedActions := (if op_AllowedActions t \<noteq> [] then op_AllowedActions t else mp_AllowedActions p),
                mc_AllowedChannels := (if op_AllowedChannels t \<noteq> [] then op_AllowedChannels t else mp_AllowedChannels p)\<rparr>);
          zone = string_field (m_Metadata (bi_Merchant b)) ''timezone''
      in tuned\<lparr>mc_Timezone := (if zone = [] then ''UTC'' else zone)\<rparr>)"

definition assemble :: "BuildInput \<Rightarrow> RecoveryDecisionContext" where
  "assemble b =
     (let c = bi_Case b; diagnosis = Diagnose c
      in \<lparr>FeatureVersion = ''recovery-context-v1'', Case = c, Diag = diagnosis, Profile = profile_of b,
          MerchantCtx = merchant_of b, RecentActions = recent_actions (bi_Actions b), ActivePromise = bi_ActivePromise b,
          Timing = \<lparr>tc_EvaluatedAt = bi_Now b, tc_HoursSinceLeak = duration_Hours (Sub (bi_Now b) (rc_CreatedAt c)),
            tc_HoursUntilDeadline = duration_Hours (Sub (rc_RecoveryDeadline c) (bi_Now b))\<rparr>,
          Payment = payment_of b diagnosis\<rparr>)"

text \<open>
  The strings of \<open>json.Marshal\<close> of a context: every string field and every stored document. The
  member names are the fields' tags, none of which is hidden; instants and numbers have no
  letters in quotes that could be a name.
\<close>

definition case_strings :: "RecoveryCase \<Rightarrow> string list" where
  "case_strings c = [rc_ID c, leak_string (rc_LeakType c), rc_MerchantID c, rc_CustomerID c, rc_Currency c,
       rc_SourceReference c, rc_SourceStatus c, state_string (rc_CurrentState c), rc_AttributionStatus c]
     @ raw_strings (rc_FailureOrLeakContext c) @ raw_strings (rc_CustomerContextSnapshot c)
     @ raw_strings (rc_MerchantPolicySnapshot c)"

definition merchant_strings :: "MerchantContext \<Rightarrow> string list" where
  "merchant_strings m = [mc_OptimizationProfileID m, mc_MerchantType m, mc_RecoveryObjective m, mc_Timezone m,
       mc_EscalationPreference m] @ mc_AllowedChannels m @ map action_string (mc_AllowedActions m)
     @ raw_strings (mc_QuietHours m)"

definition promise_strings :: "PromiseToPay \<Rightarrow> string list" where
  "promise_strings p = [pp_ID p, pp_CaseID p, pp_CustomerID p, promise_status_string (pp_Status p), pp_ExtractorVersion p,
       pp_VerificationReference p] @ (case pp_SourceResponseID p of None \<Rightarrow> [] | Some i \<Rightarrow> [i]) @ raw_strings (pp_Source p)"

definition context_strings :: "RecoveryDecisionContext \<Rightarrow> string list" where
  "context_strings ctx = [FeatureVersion ctx, dg_FailureCategory (Diag ctx), dg_Recoverability (Diag ctx),
       cp_PreferredPaymentMethod (Profile ctx), ps_MandateStatus (Payment ctx), ps_PaymentMethodStatus (Payment ctx)]
     @ case_strings (Case ctx) @ dg_Evidence (Diag ctx) @ merchant_strings (MerchantCtx ctx)
     @ concat (map (\<lambda>r. [action_string (re_Type r), re_Status r]) (RecentActions ctx))
     @ (case ActivePromise ctx of None \<Rightarrow> [] | Some p \<Rightarrow> promise_strings p) @ ps_AvailableChannels (Payment ctx)"

definition Build :: "BuildInput \<Rightarrow> (error, RecoveryDecisionContext) result" where
  "Build b =
     (if IsZero (bi_Now b) then Inl (ErrMsg ''context evaluation time is required'')
      else andThen (RejectHiddenFeatures (raw_strings (pf_Features (bi_Profile b)))) (\<lambda>_.
           andThen (RejectHiddenFeatures (raw_strings (rc_CustomerContextSnapshot (bi_Case b)))) (\<lambda>_.
           andThen (RejectHiddenFeatures (raw_strings (rc_FailureOrLeakContext (bi_Case b)))) (\<lambda>_.
           (let ctx = assemble b in andThen (RejectHiddenFeatures (context_strings ctx)) (\<lambda>_. Inr ctx))))))"

section \<open>Loading the inputs\<close>

definition default_profile :: "ID \<Rightarrow> CustomerRecoveryProfile" where
  "default_profile customerID = \<lparr>pf_ID = [], pf_CustomerID = customerID, pf_SuccessfulPayments = 0, pf_FailedPayments = 0,
     pf_SubscriptionTenureDays = 0, pf_PromiseReliability = 1 / 2, pf_FatigueScore = 0, pf_Features = emptyObject,
     pf_Version = 0, pf_UpdatedAt = 0\<rparr>"

definition LoadContextInputs :: "RecoveryCase \<Rightarrow> time \<Rightarrow> Database \<Rightarrow> (error, BuildInput) result" where
  "LoadContextInputs c now db =
     (case lookup cu_ID (rc_CustomerID c) (db_customers db) of None \<Rightarrow> Inl ErrNoRows | Some customer \<Rightarrow>
      (case lookup m_ID (rc_MerchantID c) (db_merchants db) of None \<Rightarrow> Inl ErrNoRows | Some merchant \<Rightarrow>
      (case latest mp_Version (filter (\<lambda>p. mp_MerchantID p = rc_MerchantID c) (db_merchant_policies db)) of
         None \<Rightarrow> Inl ErrNoRows
       | Some policy \<Rightarrow> Inr \<lparr>bi_Case = c, bi_Customer = customer,
           bi_Profile = (case latest pf_Version (filter (\<lambda>p. pf_CustomerID p = rc_CustomerID c) (db_profiles db)) of
              None \<Rightarrow> default_profile (rc_CustomerID c) | Some p \<Rightarrow> p),
           bi_Merchant = merchant,
           bi_Policy = policy\<lparr>mp_OptimizationProfile :=
              latest op_ConfigurationVersion (filter (\<lambda>t. op_MerchantID t = rc_MerchantID c) (db_optimization_profiles db))\<rparr>,
           bi_Actions = take 50 (sort_by (\<lambda>a b. ra_CreatedAt b < ra_CreatedAt a)
              (filter (\<lambda>a. ra_CaseID a = rc_ID c \<and> ra_Status a \<noteq> ''SCHEDULED'') (db_actions db))),
           bi_ActivePromise = latest pp_CreatedAt
              (filter (\<lambda>p. pp_CaseID p = rc_ID c \<and> pp_Status p = PromiseActive) (db_promises db)),
           bi_Now = now\<rparr>)))"

definition context_Get :: "ID \<Rightarrow> time \<Rightarrow> Database \<Rightarrow> (error, RecoveryDecisionContext) result" where
  "context_Get caseID now db =
     andThen (GetCase caseID db) (\<lambda>c. andThen (LoadContextInputs c now db) Build)"

section \<open>What a context holds\<close>

lemma RejectHiddenFeatures_ok:
  "RejectHiddenFeatures encoded = Inr u \<longleftrightarrow> (\<forall>s \<in> set encoded. \<forall>name \<in> set hiddenFeatureNames. \<not> mentions name s)"
proof (cases "find (\<lambda>name. list_ex (mentions name) encoded) hiddenFeatureNames")
  case None
  then have "\<forall>name \<in> set hiddenFeatureNames. \<not> list_ex (mentions name) encoded" by (auto simp: find_None_iff)
  moreover have "RejectHiddenFeatures encoded = Inr u" by (simp add: RejectHiddenFeatures_def None)
  ultimately show ?thesis by (auto simp: list_ex_iff)
next
  case (Some name)
  then have "name \<in> set hiddenFeatureNames" "list_ex (mentions name) encoded" by (auto simp: find_Some_iff)
  moreover have "RejectHiddenFeatures encoded \<noteq> Inr u" by (simp add: RejectHiddenFeatures_def Some)
  ultimately show ?thesis by (auto simp: list_ex_iff)
qed

lemma context_GetE:
  assumes "context_Get i now db = Inr ctx"
  obtains c b where "find_case db i = Some c" "LoadContextInputs c now db = Inr b" "ctx = assemble b" "now \<noteq> 0"
    "RejectHiddenFeatures (context_strings ctx) = Inr ()" "bi_Case b = c" "bi_Now b = now"
proof -
  obtain c where c: "find_case db i = Some c" using assms by (auto simp: context_Get_def GetCase_def split: option.splits)
  obtain b where b: "LoadContextInputs c now db = Inr b" "Build b = Inr ctx"
    using assms c by (auto simp: context_Get_def GetCase_def andThen_Inr)
  have n: "bi_Case b = c" "bi_Now b = now" using b(1) by (auto simp: LoadContextInputs_def split: option.splits)
  have "ctx = assemble b" "now \<noteq> 0" "RejectHiddenFeatures (context_strings ctx) = Inr ()"
    using b(2) n by (auto simp: Build_def andThen_Inr Let_def split: if_splits)
  then show ?thesis using that c b n by blast
qed

lemma LoadContextInputsD:
  assumes "LoadContextInputs c now db = Inr b"
  obtains customer merchant policy where "lookup cu_ID (rc_CustomerID c) (db_customers db) = Some customer"
    "lookup m_ID (rc_MerchantID c) (db_merchants db) = Some merchant"
    "latest mp_Version (filter (\<lambda>p. mp_MerchantID p = rc_MerchantID c) (db_merchant_policies db)) = Some policy"
    "bi_Customer b = customer" "bi_Merchant b = merchant" "bi_Case b = c" "bi_Now b = now"
    "bi_Policy b = policy\<lparr>mp_OptimizationProfile :=
        latest op_ConfigurationVersion (filter (\<lambda>t. op_MerchantID t = rc_MerchantID c) (db_optimization_profiles db))\<rparr>"
    "bi_Actions b = take 50 (sort_by (\<lambda>a b. ra_CreatedAt b < ra_CreatedAt a)
        (filter (\<lambda>a. ra_CaseID a = rc_ID c \<and> ra_Status a \<noteq> ''SCHEDULED'') (db_actions db)))"
    "bi_ActivePromise b = latest pp_CreatedAt (filter (\<lambda>p. pp_CaseID p = rc_ID c \<and> pp_Status p = PromiseActive) (db_promises db))"
  using assms by (auto simp: LoadContextInputs_def split: option.splits)

lemma loaded_actions:
  "set (take 50 (sort_by lt (filter P xs))) \<subseteq> {a \<in> set xs. P a}" "length (take 50 (sort_by lt (filter P xs))) \<le> 50"
  using set_take_subset [of 50 "sort_by lt (filter P xs)"] by auto

lemma assemble_simps [simp]:
  "Case (assemble b) = bi_Case b" "Profile (assemble b) = profile_of b" "MerchantCtx (assemble b) = merchant_of b"
  "RecentActions (assemble b) = recent_actions (bi_Actions b)" "ActivePromise (assemble b) = bi_ActivePromise b"
  "Payment (assemble b) = payment_of b (Diagnose (bi_Case b))" "Diag (assemble b) = Diagnose (bi_Case b)"
  by (simp_all add: assemble_def Let_def)

lemma recent_actions_facts:
  "length (recent_actions xs) \<le> length xs"
  "r \<in> set (recent_actions xs) \<Longrightarrow> \<exists>a \<in> set xs. ra_Status a \<noteq> ''SCHEDULED'' \<and> r = \<lparr>re_Type = ra_Type a, re_Status = ra_Status a, re_CreatedAt = ra_CreatedAt a\<rparr>"
  by (auto simp: recent_actions_def)

text \<open>A decision context is guarded and faithful: no string anywhere in it is, or ends with the
  quoted name of, a hidden simulator feature; its case is the stored case and it says
  "recovered" exactly when that case is; reliability and fatigue are in the unit interval; the
  recent actions are at most 50, all of this case and none of them merely scheduled, and the
  contacts counted are among them; an active promise is this case's; and the merchant's limits
  are those of the latest version of the merchant's policy.\<close>

theorem context_is_guarded:
  assumes "context_Get i now db = Inr ctx"
  shows "(\<forall>s \<in> set (context_strings ctx). \<forall>name \<in> set hiddenFeatureNames. \<not> mentions name s)
    \<and> find_case db i = Some (Case ctx)
    \<and> (ps_AlreadyRecovered (Payment ctx) \<longleftrightarrow> rc_CurrentState (Case ctx) = StateRecovered)
    \<and> 0 \<le> cp_PromiseReliability (Profile ctx) \<and> cp_PromiseReliability (Profile ctx) \<le> 1
    \<and> 0 \<le> cp_RecoveryFatigue (Profile ctx) \<and> cp_RecoveryFatigue (Profile ctx) \<le> 1
    \<and> length (RecentActions ctx) \<le> 50 \<and> cp_ContactCount (Profile ctx) \<le> cp_PreviousRecoveryAttempts (Profile ctx)
    \<and> cp_PreviousRecoveryAttempts (Profile ctx) = int (length (RecentActions ctx))
    \<and> (\<forall>r \<in> set (RecentActions ctx). \<exists>a \<in> set (db_actions db). ra_CaseID a = rc_ID (Case ctx) \<and> ra_Status a \<noteq> ''SCHEDULED''
          \<and> re_Type r = ra_Type a \<and> re_CreatedAt r = ra_CreatedAt a)
    \<and> (\<forall>p. ActivePromise ctx = Some p \<longrightarrow> p \<in> set (db_promises db) \<and> pp_CaseID p = rc_ID (Case ctx) \<and> pp_Status p = PromiseActive)
    \<and> (\<exists>policy \<in> set (db_merchant_policies db). mp_MerchantID policy = rc_MerchantID (Case ctx)
          \<and> (\<forall>x \<in> set (db_merchant_policies db). mp_MerchantID x = rc_MerchantID (Case ctx) \<longrightarrow> mp_Version x \<le> mp_Version policy)
          \<and> mc_MaxContactsPerDay (MerchantCtx ctx) = mp_MaxContactsPerDay policy
          \<and> mc_MaxContactsPerWeek (MerchantCtx ctx) = mp_MaxContactsPerWeek policy
          \<and> mc_MaxRetries (MerchantCtx ctx) = mp_MaxRetries policy)"
proof -
  obtain c b where c: "find_case db i = Some c" and b: "LoadContextInputs c now db = Inr b" and ctx: "ctx = assemble b"
    and r: "RejectHiddenFeatures (context_strings ctx) = Inr ()" using assms by (rule context_GetE)
  obtain customer merchant policy where
    p: "latest mp_Version (filter (\<lambda>p. mp_MerchantID p = rc_MerchantID c) (db_merchant_policies db)) = Some policy"
    and f: "bi_Case b = c" "bi_Policy b = policy\<lparr>mp_OptimizationProfile :=
        latest op_ConfigurationVersion (filter (\<lambda>t. op_MerchantID t = rc_MerchantID c) (db_optimization_profiles db))\<rparr>"
    and a: "bi_Actions b = take 50 (sort_by (\<lambda>a b. ra_CreatedAt b < ra_CreatedAt a)
        (filter (\<lambda>a. ra_CaseID a = rc_ID c \<and> ra_Status a \<noteq> ''SCHEDULED'') (db_actions db)))"
    and pr: "bi_ActivePromise b = latest pp_CreatedAt (filter (\<lambda>p. pp_CaseID p = rc_ID c \<and> pp_Status p = PromiseActive) (db_promises db))"
    using b by (rule LoadContextInputsD)
  have "set (bi_Actions b) \<subseteq> {a \<in> set (db_actions db). ra_CaseID a = rc_ID c \<and> ra_Status a \<noteq> ''SCHEDULED''}" "length (bi_Actions b) \<le> 50"
    unfolding a by (rule loaded_actions)+
  then have acts: "\<exists>a \<in> set (db_actions db). ra_CaseID a = rc_ID c \<and> ra_Status a \<noteq> ''SCHEDULED'' \<and> re_Type x = ra_Type a
      \<and> re_CreatedAt x = ra_CreatedAt a" if "x \<in> set (recent_actions (bi_Actions b))" for x
    using recent_actions_facts(2) [OF that] by auto
  have len: "length (recent_actions (bi_Actions b)) \<le> 50"
    using recent_actions_facts(1) [of "bi_Actions b"] \<open>length (bi_Actions b) \<le> 50\<close> by simp
  have limits: "mc_MaxContactsPerDay (merchant_of b) = mp_MaxContactsPerDay policy"
    "mc_MaxContactsPerWeek (merchant_of b) = mp_MaxContactsPerWeek policy" "mc_MaxRetries (merchant_of b) = mp_MaxRetries policy"
    by (simp_all add: merchant_of_def f Let_def split: option.split)
  have pol: "policy \<in> set (db_merchant_policies db)" "mp_MerchantID policy = rc_MerchantID c"
    "\<forall>x \<in> set (db_merchant_policies db). mp_MerchantID x = rc_MerchantID c \<longrightarrow> mp_Version x \<le> mp_Version policy"
    using latest_Some [OF p] by auto
  have prom: "\<forall>p. bi_ActivePromise b = Some p \<longrightarrow> p \<in> set (db_promises db) \<and> pp_CaseID p = rc_ID c \<and> pp_Status p = PromiseActive"
    unfolding pr using latest_Some(1) by fastforce
  have prof: "cp_PromiseReliability (profile_of b) = clamp (pf_PromiseReliability (bi_Profile b))"
    "cp_RecoveryFatigue (profile_of b) = clamp (pf_FatigueScore (bi_Profile b))"
    "cp_PreviousRecoveryAttempts (profile_of b) = int (length (recent_actions (bi_Actions b)))"
    "cp_ContactCount (profile_of b) \<le> int (length (recent_actions (bi_Actions b)))"
    by (simp_all add: profile_of_def Let_def)
  show ?thesis
    using r RejectHiddenFeatures_ok c acts len limits pol prom prof clamp_range
    by (simp add: ctx f(1) payment_of_def) blast
qed

section \<open>The rows a context reads\<close>

definition same_inputs :: "Database \<Rightarrow> Database \<Rightarrow> bool" where
  "same_inputs db db' \<longleftrightarrow> db_customers db' = db_customers db \<and> db_merchants db' = db_merchants db
     \<and> db_merchant_policies db' = db_merchant_policies db \<and> db_profiles db' = db_profiles db
     \<and> db_optimization_profiles db' = db_optimization_profiles db \<and> db_promises db' = db_promises db"

lemma save_inputs:
  assumes "SaveDecisionAndSchedule fresh now s db = Inr (Some a, db')"
  shows "same_inputs db db' \<and> (\<exists>x. ra_Status x = ''SCHEDULED'' \<and> db_actions db' = db_actions db @ [x])"
proof -
  obtain d where d: "saveDecisionTx fresh s db = Inr d" and sch: "scheduleDecisionTx fresh now s d = Inr (a, db')"
    using assms by (auto simp: SaveDecisionAndSchedule_def split: sum.splits if_splits prod.splits)
  obtain c d0 where "find_case db (de_CaseID (sn_Decision s)) = Some c" "rc_Version c = de_CaseVersion (sn_Decision s)"
    and e: "append_events (with_decision s db) (de_CaseID (sn_Decision s)) (decision_events fresh s) = Inr d0"
    and p: "apply_policy (rc_CurrentState c) s d0 = Inr d" using d by (rule saveDecisionTxD)
  have "same_inputs db d0 \<and> db_actions d0 = db_actions db"
    unfolding append_events_log [OF e] by (simp add: same_inputs_def with_decision_def)
  moreover have "same_inputs d0 d \<and> db_actions d = db_actions d0"
    using p by (auto simp: same_inputs_def apply_policy_def Let_def move_case_def update_case_def split: if_splits option.splits)
  moreover have "same_inputs d db' \<and> (\<exists>x. ra_Status x = ''SCHEDULED'' \<and> db_actions db' = db_actions d @ [x])"
    using sch
  proof (rule scheduleDecisionTxD)
    fix c d1 d2 d3 d4
    assume i: "insert_action (action_of_schedule a now) d = Inr d1"
      "move_case (de_CaseID (sn_Decision s)) StateActionPending (de_CaseVersion (sn_Decision s)) StatePolicyReview now d1 = Inr d2"
      "move_case (de_CaseID (sn_Decision s)) StatePolicyReview (de_CaseVersion (sn_Decision s) + 1) StateScheduled now d2 = Inr d3"
      "insert_scheduled (new_scheduled a now) d3 = Inr d4"
      "append_events d4 (de_CaseID (sn_Decision s)) (schedule_events fresh a now) = Inr db'"
    show ?thesis
      using append_events_log [OF i(5)] inserts_rows(5) [OF i(1)] move_caseD(1) [OF i(2)] move_caseD(1) [OF i(3)]
        inserts_rows(6) [OF i(4)] by (simp add: same_inputs_def update_case_def action_of_schedule_def)
  qed
  ultimately show ?thesis by (simp add: same_inputs_def)
qed

text \<open>The parts of a loaded context that do not come from the case itself.\<close>

lemma load_same:
  assumes "same_inputs db db'" and "LoadContextInputs c now db = Inr b" and "LoadContextInputs c' now db' = Inr b'"
    and "rc_ID c' = rc_ID c" "rc_MerchantID c' = rc_MerchantID c" "rc_CustomerID c' = rc_CustomerID c"
    and "filter (\<lambda>a. ra_CaseID a = rc_ID c \<and> ra_Status a \<noteq> ''SCHEDULED'') (db_actions db')
       = filter (\<lambda>a. ra_CaseID a = rc_ID c \<and> ra_Status a \<noteq> ''SCHEDULED'') (db_actions db)"
  shows "b' = b\<lparr>bi_Case := c'\<rparr>"
  using assms by (auto simp: LoadContextInputs_def same_inputs_def split: option.splits)

lemma keeps_assembled:
  "RecentActions (assemble (b\<lparr>bi_Case := c\<rparr>)) = RecentActions (assemble b)"
  "Profile (assemble (b\<lparr>bi_Case := c\<rparr>)) = Profile (assemble b)"
  "MerchantCtx (assemble (b\<lparr>bi_Case := c\<rparr>)) = MerchantCtx (assemble b)"
  "ActivePromise (assemble (b\<lparr>bi_Case := c\<rparr>)) = ActivePromise (assemble b)"
  by (simp_all add: profile_of_def merchant_of_def Let_def split: option.splits)

text \<open>Scheduling is not contact: the context the worker reads when it re-checks a scheduled action
  has the same recent actions, customer profile, merchant limits and active promise as the
  context at the moment before the decision was persisted, so the scheduled action never counts
  against its own cooldown or caps.\<close>

theorem scheduling_is_not_contact:
  assumes "SaveDecisionAndSchedule fresh t s db = Inr (Some a, db')"
    and "context_Get (sa_CaseID a) now db = Inr ctx" and "context_Get (sa_CaseID a) now db' = Inr ctx'"
  shows "RecentActions ctx' = RecentActions ctx \<and> Profile ctx' = Profile ctx \<and> MerchantCtx ctx' = MerchantCtx ctx
     \<and> ActivePromise ctx' = ActivePromise ctx
     \<and> rc_Version (Case ctx') = sa_CaseVersionAtSchedule a \<and> rc_Version (Case ctx') = rc_Version (Case ctx) + 2
     \<and> rc_CurrentState (Case ctx') = StateScheduled"
proof -
  let ?i = "sa_CaseID a"
  obtain c b where c: "find_case db ?i = Some c" and b: "LoadContextInputs c now db = Inr b" and ctx: "ctx = assemble b"
    and bc: "bi_Case b = c" using assms(2) by (rule context_GetE)
  obtain c' b' where c': "find_case db' ?i = Some c'" and b': "LoadContextInputs c' now db' = Inr b'" and ctx': "ctx' = assemble b'"
    and bc': "bi_Case b' = c'" using assms(3) by (rule context_GetE)
  obtain c0 where c0: "find_case db (de_CaseID (sn_Decision s)) = Some c0"
    using assms(1) by (auto simp: SaveDecisionAndSchedule_def saveDecisionTx_def split: option.splits)
  note f = save_and_schedule_facts [OF assms(1) c0]
  have o: "Some a = snd (outcome fresh t s c0)" using f by simp
  then have i: "?i = de_CaseID (sn_Decision s)" "sa_CaseVersionAtSchedule a = rc_Version c0 + 2"
    "fst (outcome fresh t s c0) = advance StateScheduled t (advance StatePolicyReview t c0)"
    by (auto simp: outcome_def Let_def split: if_splits)
  have e: "c0 = c" "c' = advance StateScheduled t (advance StatePolicyReview t c)" using f c c0 c' i by simp_all
  obtain x where x: "ra_Status x = ''SCHEDULED''" "db_actions db' = db_actions db @ [x]" and same: "same_inputs db db'"
    using save_inputs [OF assms(1)] by blast
  have "b' = b\<lparr>bi_Case := c'\<rparr>"
    using load_same [OF same b b'] x e by (simp add: advance_def)
  then show ?thesis using e i bc by (simp add: ctx ctx' keeps_assembled del: assemble_simps(2-5))
qed

section \<open>Examples\<close>

lemma upper_inr: "upper_char CHR ''i'' = CHR ''I''" "upper_char CHR ''n'' = CHR ''N''" "upper_char CHR ''r'' = CHR ''R''"
  by code_simp+

lemma created_case_eq: "created_case = \<lparr>rc_ID = ''a0'', rc_LeakType = FailedSubscription, rc_MerchantID = ''m1'',
     rc_CustomerID = ''c1'', rc_AmountAtRiskMinor = 10000, rc_Currency = ''INR'', rc_SourceReference = ''sub_1'',
     rc_SourceStatus = [], rc_FailureOrLeakContext = emptyObject, rc_CustomerContextSnapshot = emptyObject,
     rc_MerchantPolicySnapshot = emptyObject, rc_CurrentState = StateDetected, rc_RecoveryDeadline = 24 * Hour,
     rc_RecoveredAmountMinor = 0, rc_AttributionStatus = ''PENDING'', rc_Version = 1, rc_CreatedAt = 0, rc_UpdatedAt = 0\<rparr>"
  by (simp add: created_case_def Let_def service_CreateCase_def example_input_def CreateCase_def insert_case_def
      case_of_input_def shop_db_def empty_db_def find_case_def lookup_Cons insertEvent_def newEvent_def event_of_def
      Hour_def TrimSpace_def is_space_def IsValid_def upper_inr jsonObject_def ids_def)

definition example_build :: "RecoveryCase \<Rightarrow> time \<Rightarrow> BuildInput" where
  "example_build c now = \<lparr>bi_Case = c, bi_Customer = \<lparr>cu_ID = ''c1'', cu_MerchantID = ''m1'', cu_ExternalID = ''e1'',
       cu_Contact = emptyObject, cu_OptedOut = False, cu_CreatedAt = 0, cu_UpdatedAt = 0\<rparr>,
     bi_Profile = default_profile ''c1'', bi_Merchant = \<lparr>m_ID = ''m1'', m_Name = ''Shop'', m_Type = ''SUBSCRIPTION'',
       m_Metadata = emptyObject, m_CreatedAt = 0, m_UpdatedAt = 0\<rparr>, bi_Policy = shop_policy, bi_Actions = [],
     bi_ActivePromise = None, bi_Now = now\<rparr>"

lemma example_loads:
  assumes "same_inputs shop_db db" and "filter (\<lambda>a. ra_Status a \<noteq> ''SCHEDULED'') (db_actions db) = []"
    and "rc_MerchantID c = ''m1''" "rc_CustomerID c = ''c1''"
  shows "LoadContextInputs c now db = Inr (example_build c now)"
proof -
  have "filter (\<lambda>a. ra_CaseID a = rc_ID c \<and> ra_Status a \<noteq> ''SCHEDULED'') (db_actions db) = []"
    using assms(2) by (auto simp: filter_empty_conv)
  then show ?thesis
    using assms by (simp add: LoadContextInputs_def same_inputs_def shop_db_def empty_db_def lookup_Cons example_build_def
        shop_policy_def)
qed

definition example_case_at :: "CaseState \<Rightarrow> int \<Rightarrow> time \<Rightarrow> RecoveryCase" where
  "example_case_at s v t = created_case\<lparr>rc_CurrentState := s, rc_Version := v, rc_UpdatedAt := t\<rparr>"

definition example_strings :: "CaseState \<Rightarrow> string list" where
  "example_strings s = [''recovery-context-v1'', ''CUSTOMER_INTENT_OR_UNKNOWN'', ''UNKNOWN'', [], ''ACTIVE'', ''VALID'', ''a0'',
     ''FAILED_SUBSCRIPTION'', ''m1'', ''c1'', ''INR'', ''sub_1'', [], state_string s, ''PENDING'',
     ''normalized_failure_context'', [], ''SUBSCRIPTION'', ''BALANCED'', ''UTC'', [], ''email'', ''SEND_REMINDER'', ''email'']"

lemma example_context_strings:
  "context_strings (assemble (example_build (example_case_at s v t) now)) = example_strings s"
  by (simp add: example_strings_def example_case_at_def context_strings_def created_case_eq assemble_def example_build_def
     Let_def Diagnose_def recoverability_of_def canonical_category_def member_of_def profile_of_def merchant_of_def
     payment_of_def case_strings_def merchant_strings_def raw_strings_def shop_policy_def default_profile_def
     recent_actions_def zero_merchant_context_def)

lemma lower_upper:
  "lower_char CHR ''A'' = CHR ''a''" "lower_char CHR ''B'' = CHR ''b''" "lower_char CHR ''C'' = CHR ''c''"
  "lower_char CHR ''D'' = CHR ''d''" "lower_char CHR ''E'' = CHR ''e''" "lower_char CHR ''F'' = CHR ''f''"
  "lower_char CHR ''G'' = CHR ''g''" "lower_char CHR ''H'' = CHR ''h''" "lower_char CHR ''I'' = CHR ''i''"
  "lower_char CHR ''J'' = CHR ''j''" "lower_char CHR ''K'' = CHR ''k''" "lower_char CHR ''L'' = CHR ''l''"
  "lower_char CHR ''M'' = CHR ''m''" "lower_char CHR ''N'' = CHR ''n''" "lower_char CHR ''O'' = CHR ''o''"
  "lower_char CHR ''P'' = CHR ''p''" "lower_char CHR ''Q'' = CHR ''q''" "lower_char CHR ''R'' = CHR ''r''"
  "lower_char CHR ''S'' = CHR ''s''" "lower_char CHR ''T'' = CHR ''t''" "lower_char CHR ''U'' = CHR ''u''"
  "lower_char CHR ''V'' = CHR ''v''" "lower_char CHR ''W'' = CHR ''w''" "lower_char CHR ''X'' = CHR ''x''"
  "lower_char CHR ''Y'' = CHR ''y''" "lower_char CHR ''Z'' = CHR ''z''"
  by code_simp+

definition clean :: "string \<Rightarrow> bool" where
  "clean s = list_all (\<lambda>name. \<not> mentions name s) hiddenFeatureNames"

lemma example_clean:
  assumes "s \<in> {StateActionPending, StateScheduled}"
  shows "RejectHiddenFeatures (example_strings s) = Inr ()" "RejectHiddenFeatures [] = Inr ()"
proof -
  have "list_all clean (example_strings StateActionPending)"
    by (simp add: clean_def example_strings_def hiddenFeatureNames_def mentions_def lower_upper lower_char_def suffix_Cons)
  moreover have "list_all clean (example_strings StateScheduled)"
    by (simp add: clean_def example_strings_def hiddenFeatureNames_def mentions_def lower_upper lower_char_def suffix_Cons)
  ultimately show "RejectHiddenFeatures (example_strings s) = Inr ()"
    using assms unfolding RejectHiddenFeatures_ok clean_def list_all_iff by blast
  show "RejectHiddenFeatures [] = Inr ()" by (simp add: RejectHiddenFeatures_ok)
qed

lemma example_context:
  assumes "same_inputs shop_db db" and "filter (\<lambda>a. ra_Status a \<noteq> ''SCHEDULED'') (db_actions db) = []"
    and "find_case db i = Some (example_case_at s v t)" and "now \<noteq> 0" and "s \<in> {StateActionPending, StateScheduled}"
  shows "context_Get i now db = Inr (assemble (example_build (example_case_at s v t) now))"
proof -
  let ?c = "example_case_at s v t"
  have "rc_MerchantID ?c = ''m1''" "rc_CustomerID ?c = ''c1''" "rc_FailureOrLeakContext ?c = emptyObject"
    "rc_CustomerContextSnapshot ?c = emptyObject" by (simp_all add: example_case_at_def created_case_eq)
  moreover have "RejectHiddenFeatures (context_strings (assemble (example_build ?c now))) = Inr ()"
    unfolding example_context_strings by (rule example_clean(1) [OF assms(5)])
  moreover have "bi_Case (example_build ?c now) = ?c" "bi_Now (example_build ?c now) = now"
    "bi_Profile (example_build ?c now) = default_profile ''c1''" by (simp_all add: example_build_def)
  ultimately show ?thesis
    using assms example_loads [OF assms(1,2)] example_clean(2) [OF assms(5)]
    by (simp add: context_Get_def GetCase_def Build_def Let_def raw_strings_def default_profile_def)
qed

lemma pending_context:
  "now \<noteq> 0 \<Longrightarrow> context_Get (rc_ID created_case) now pending_db
     = Inr (assemble (example_build (example_case_at StateActionPending 1 0) now))"
  by (rule example_context) (simp_all add: same_inputs_def pending_db_def shop_db_def empty_db_def find_case_def
      lookup_Cons example_case_at_def created_case_eq)

lemma scheduled_context:
  "now \<noteq> 0 \<Longrightarrow> context_Get (rc_ID created_case) now scheduled_db
     = Inr (assemble (example_build (example_case_at StateScheduled 3 0) now))"
proof (rule example_context)
  note f = save_inputs [OF scheduled]
  show "same_inputs shop_db scheduled_db" using f by (simp add: same_inputs_def pending_db_def)
  show "filter (\<lambda>a. ra_Status a \<noteq> ''SCHEDULED'') (db_actions scheduled_db) = []"
    using f by (auto simp: pending_db_def shop_db_def empty_db_def)
  show "find_case scheduled_db (rc_ID created_case) = Some (example_case_at StateScheduled 3 0)"
    unfolding scheduled_facts(3) by (simp add: example_case_at_def advance_def created_case_eq)
qed simp_all

theorem context_is_guarded_witness:
  "\<exists>ctx. context_Get (rc_ID created_case) 5 pending_db = Inr ctx \<and> find_case pending_db (rc_ID created_case) = Some (Case ctx)"
  using context_is_guarded [OF pending_context [of 5]] pending_context [of 5] by simp

theorem scheduling_is_not_contact_witness:
  "\<exists>ctx. context_Get (rc_ID created_case) 5 scheduled_db = Inr ctx \<and> rc_Version (Case ctx) = sa_CaseVersionAtSchedule scheduled_action
     \<and> RecentActions ctx = []"
proof -
  have i: "sa_CaseID scheduled_action = rc_ID created_case"
    by (simp add: scheduled_facts(1) schedule_of_def example_snapshot_def Let_def)
  have n: "(5 :: time) \<noteq> 0" by simp
  note p = pending_context [OF n, folded i] and q = scheduled_context [OF n, folded i]
  have "RecentActions (assemble (example_build c 5)) = []" for c by (simp add: example_build_def recent_actions_def)
  then show ?thesis using scheduling_is_not_contact [OF scheduled p q] scheduled_context [OF n] by auto
qed

end
