(* ===== verification/Orchestrator.thy ===== *)
theory Orchestrator
  imports Executor Context_Store
begin

text \<open>
  Package \<open>orchestrator\<close> (\<open>internal/orchestrator/orchestrator.go\<close>): the decision coordinator and
  the worker. Their steps commit one by one, so an operation returns its result together with
  the state it leaves, also when it fails. \<open>clock k\<close> is the k-th reading of the clock and
  \<open>fresh k\<close> the ids of the k-th operation. The prediction service, the time zone database and the
  payment provider are parameters.
\<close>

section \<open>Decisions\<close>

text \<open>\<open>decisioning.Service.Evaluate\<close> over the context service.\<close>

definition evaluate_case :: "Predictor \<Rightarrow> zone_db \<Rightarrow> (nat \<Rightarrow> ID) \<Rightarrow> time \<Rightarrow> time \<Rightarrow> ID \<Rightarrow> Database \<Rightarrow> (error, Snapshot) result" where
  "evaluate_case predictor zone fresh contextNow now caseID db =
     (case context_Get caseID contextNow db of Inl e \<Rightarrow> Inl e
      | Inr ctx \<Rightarrow> (case decision_Evaluate (\<lambda>_. Inr ctx) predictor zone fresh now caseID of
          Inl message \<Rightarrow> Inl (ErrMsg message) | Inr s \<Rightarrow> Inr s))"

definition Decide :: "Predictor \<Rightarrow> zone_db \<Rightarrow> (nat \<Rightarrow> nat \<Rightarrow> ID) \<Rightarrow> (nat \<Rightarrow> time) \<Rightarrow> ID \<Rightarrow> Database
    \<Rightarrow> (error, Snapshot \<times> ScheduledAction option) result \<times> Database" where
  "Decide predictor zone fresh clock caseID db =
     (case PrepareForDecision (fresh 0) caseID (clock 0) db of Inl e \<Rightarrow> (Inl e, db)
      | Inr (_, db) \<Rightarrow>
          (case evaluate_case predictor zone (fresh 1) (clock 1) (clock 2) caseID db of Inl e \<Rightarrow> (Inl e, db)
           | Inr s \<Rightarrow>
               (case SaveDecisionAndSchedule (fresh 2) (clock 3) s db of Inl e \<Rightarrow> (Inl e, db)
                | Inr (a, db) \<Rightarrow> (Inr (s, a), db))))"

text \<open>The interface \<open>Reassessor\<close>, and the coordinator behind it.\<close>

type_synonym Reassessor = "ID \<Rightarrow> Database \<Rightarrow> error option \<times> Database"

definition Reassess :: "Predictor \<Rightarrow> zone_db \<Rightarrow> (nat \<Rightarrow> nat \<Rightarrow> ID) \<Rightarrow> (nat \<Rightarrow> time) \<Rightarrow> Reassessor" where
  "Reassess predictor zone fresh clock caseID db =
     (case Decide predictor zone fresh clock caseID db of (Inl e, db) \<Rightarrow> (Some e, db) | (Inr _, db) \<Rightarrow> (None, db))"

section \<open>The worker\<close>

record 'p Worker =
  wk_ID :: string
  wk_Zone :: zone_db
  wk_Registry :: "ID \<Rightarrow> time \<Rightarrow> (Database \<times> 'p) Executor list"
  wk_Reassessor :: "Reassessor option"

datatype RunError = RunErr error | ReassessErr error | ExecuteErr fault

text \<open>\<open>_ = MarkSuppressed(...)\<close>: a failure to record the suppression is ignored.\<close>

definition suppress :: "(nat \<Rightarrow> ID) \<Rightarrow> ScheduledAction \<Rightarrow> string \<Rightarrow> time \<Rightarrow> Database \<Rightarrow> Database" where
  "suppress fresh a reason now db = (case MarkSuppressed fresh a reason now db of Inl _ \<Rightarrow> db | Inr (_, db) \<Rightarrow> db)"

definition request_of :: "ID \<Rightarrow> ScheduledAction \<Rightarrow> RecoveryDecisionContext \<Rightarrow> Request" where
  "request_of newID a ctx =
     (let c = Case ctx in
      \<lparr>xq_ExecutionID = newID, xq_ScheduledActionID = sa_ID a, xq_RecoveryActionID = sa_RecoveryActionID a,
       xq_CaseID = rc_ID c, xq_Action = sa_Action a, xq_IdempotencyKey = sa_IdempotencyKey a,
       xq_AmountMinor = rc_AmountAtRiskMinor c, xq_Currency = rc_Currency c, xq_MerchantID = rc_MerchantID c,
       xq_CustomerID = rc_CustomerID c, xq_RecipientReference = rc_CustomerID c, xq_Parameters = sa_Parameters a\<rparr>)"

text \<open>The end of \<open>RunOnce\<close>: a permanent failure is reassessed at once, a reported error returned.\<close>

definition after_execution :: "'p Worker \<Rightarrow> ScheduledAction \<Rightarrow> ExecResult \<Rightarrow> fault option \<Rightarrow> Database \<times> 'p
    \<Rightarrow> (ExecResult option \<times> RunError option) \<times> Database \<times> 'p" where
  "after_execution w a result executeErr s =
     (case (if er_Status result = ''FAILED'' \<and> \<not> er_Retryable result then wk_Reassessor w else None) of
        Some reassess \<Rightarrow>
          (case reassess (sa_CaseID a) (fst s) of
             (Some e, db) \<Rightarrow> ((Some result, Some (ReassessErr e)), (db, snd s))
           | (None, db) \<Rightarrow> ((Some result, map_option ExecuteErr executeErr), (db, snd s)))
      | None \<Rightarrow> ((Some result, map_option ExecuteErr executeErr), s))"

definition execute_scheduled :: "'p Worker \<Rightarrow> (nat \<Rightarrow> nat \<Rightarrow> ID) \<Rightarrow> (nat \<Rightarrow> time) \<Rightarrow> time \<Rightarrow> ScheduledAction
    \<Rightarrow> RecoveryDecisionContext \<Rightarrow> Database \<times> 'p \<Rightarrow> (ExecResult option \<times> RunError option) \<times> Database \<times> 'p" where
  "execute_scheduled w fresh clock now a ctx s =
     (case MarkExecuting a now (fst s) of Inl e \<Rightarrow> ((None, Some (RunErr e)), s)
      | Inr (_, db) \<Rightarrow>
          (case registry_Execute (wk_Registry w (fresh 2 0) (clock 2)) (request_of (fresh 1 0) a ctx) (db, snd s) of
             ((result, executeErr), s) \<Rightarrow>
               (case CompleteExecution (fresh 3) a result (clock 3) (fst s) of
                  Inl e \<Rightarrow> ((Some result, Some (RunErr e)), s)
                | Inr (_, db) \<Rightarrow> after_execution w a result executeErr (db, snd s))))"

text \<open>After an earlier attempt: ask the provider whether it already succeeded.\<close>

definition reconcile_result :: "'p Worker \<Rightarrow> ID \<Rightarrow> time \<Rightarrow> ID \<Rightarrow> ScheduledAction \<Rightarrow> Database \<times> 'p \<Rightarrow> ExecResult option" where
  "reconcile_result w newID now executionID a s =
     (if 1 < sa_AttemptCount a then
        (case registry_Reconcile (wk_Registry w newID now) (sa_Action a) (sa_IdempotencyKey a) s of
           Inl _ \<Rightarrow> None
         | Inr r \<Rightarrow> if er_Status r \<noteq> [] then Some (r\<lparr>er_ExecutionID := executionID, er_Action := sa_Action a,
             er_IdempotencyKey := sa_IdempotencyKey a\<rparr>) else None)
      else None)"

definition perform :: "'p Worker \<Rightarrow> (nat \<Rightarrow> nat \<Rightarrow> ID) \<Rightarrow> (nat \<Rightarrow> time) \<Rightarrow> time \<Rightarrow> ScheduledAction
    \<Rightarrow> RecoveryDecisionContext \<Rightarrow> Database \<times> 'p \<Rightarrow> (ExecResult option \<times> RunError option) \<times> Database \<times> 'p" where
  "perform w fresh clock now a ctx s =
     (case reconcile_result w (fresh 2 0) (clock 2) (fresh 1 0) a s of
        None \<Rightarrow> execute_scheduled w fresh clock now a ctx s
      | Some reconciled \<Rightarrow>
          (case MarkExecuting a now (fst s) of Inl e \<Rightarrow> ((None, Some (RunErr e)), s)
           | Inr (_, db) \<Rightarrow>
               (case CompleteExecution (fresh 3) a reconciled (clock 3) db of
                  Inl e \<Rightarrow> ((Some reconciled, Some (RunErr e)), (db, snd s))
                | Inr (_, db) \<Rightarrow> ((Some reconciled, None), (db, snd s)))))"

text \<open>Why a claimed action is not executed: stale or recovered, blocked, or refused by a fresh policy.\<close>

definition stale_or_recovered :: "ScheduledAction \<Rightarrow> RecoveryDecisionContext \<Rightarrow> bool" where
  "stale_or_recovered a ctx \<longleftrightarrow> rc_Version (Case ctx) \<noteq> sa_CaseVersionAtSchedule a
     \<or> rc_CurrentState (Case ctx) = StateRecovered \<or> ps_AlreadyRecovered (Payment ctx)"

definition refusal :: "zone_db \<Rightarrow> ScheduledAction \<Rightarrow> RecoveryDecisionContext \<Rightarrow> Authorization \<Rightarrow> time \<Rightarrow> string option" where
  "refusal zone a ctx auth now =
     (if eg_Decision (au_Gate auth) \<noteq> ''ALLOW'' then Some ''ECONOMIC_GATE_BLOCKED''
      else
        (let freshPolicy = policy_Evaluate zone ctx (sa_DecisionID a) (rc_Version (Case ctx)) (au_Candidate auth) (au_Gate auth) now
         in if po_Decision freshPolicy \<noteq> ''APPROVE'' \<and> \<not> (po_Decision freshPolicy = ''ESCALATE'' \<and> au_HumanApproved auth)
            then Some (''POLICY_RECHECK_'' @ po_Decision freshPolicy) else None))"

definition RunOnce :: "'p Worker \<Rightarrow> (nat \<Rightarrow> nat \<Rightarrow> ID) \<Rightarrow> (nat \<Rightarrow> time) \<Rightarrow> Database \<times> 'p
    \<Rightarrow> (ExecResult option \<times> RunError option) \<times> Database \<times> 'p" where
  "RunOnce w fresh clock s =
     (let now = clock 0 in
      case ClaimDue (wk_ID w) now (2 * Minute) (fst s) of Inl e \<Rightarrow> ((None, Some (RunErr e)), s)
      | Inr (a, db) \<Rightarrow>
          (case context_Get (sa_CaseID a) (clock 1) db of Inl e \<Rightarrow> ((None, Some (RunErr e)), (db, snd s))
           | Inr ctx \<Rightarrow>
               if stale_or_recovered a ctx then ((None, None), (suppress (fresh 0) a ''STALE_OR_RECOVERED'' now db, snd s))
               else
                 (case LoadAuthorization (sa_DecisionID a) (sa_PolicyEvaluationID a) db of
                    Inl e \<Rightarrow> ((None, Some (RunErr e)), (db, snd s))
                  | Inr auth \<Rightarrow>
                      (case refusal (wk_Zone w) a ctx auth now of
                         Some reason \<Rightarrow> ((None, None), (suppress (fresh 0) a reason now db, snd s))
                       | None \<Rightarrow> perform w fresh clock now a ctx (db, snd s)))))"

text \<open>\<open>RunObservationOnce\<close>\<close>

definition RunObservationOnce :: "'p Worker \<Rightarrow> (nat \<Rightarrow> ID) \<Rightarrow> time \<Rightarrow> Database \<Rightarrow> RunError option \<times> Database" where
  "RunObservationOnce w fresh now db =
     (case ClaimDueObservation (wk_ID w) now (2 * Minute) db of Inl e \<Rightarrow> (Some (RunErr e), db)
      | Inr (a, db) \<Rightarrow>
          (case PrepareReassessment fresh a now db of Inl e \<Rightarrow> (Some (RunErr e), db)
           | Inr (ready, db) \<Rightarrow>
               if \<not> ready then (None, db)
               else (case wk_Reassessor w of
                   None \<Rightarrow> (Some (RunErr (ErrMsg ''reassessor is not configured'')), db)
                 | Some reassess \<Rightarrow> (case reassess (sa_CaseID a) db of (e, db) \<Rightarrow> (map_option RunErr e, db)))))"

section \<open>What the worker relies on\<close>

text \<open>The tables an executor writes: what has left, or is about to leave, for a customer.\<close>

definition outboxes :: "Database \<Rightarrow> Delivery list \<times> RetryRequest list \<times> ProviderReference list" where
  "outboxes db = (db_deliveries db, db_retry_requests db, db_provider_refs db)"

lemma outboxes_ClaimDue: "ClaimDue w now lease db = Inr (a, d) \<Longrightarrow> outboxes d = outboxes db \<and> db_cases d = db_cases db"
  by (auto simp: ClaimDue_def outboxes_def split: option.splits)

lemma outboxes_append: "append_events db i es = Inr d \<Longrightarrow> outboxes d = outboxes db"
  by (drule append_events_log) (simp add: outboxes_def)

lemma suppress_cases:
  obtains "suppress fresh a reason now db = db" | u where "MarkSuppressed fresh a reason now db = Inr (u, suppress fresh a reason now db)"
  by (cases "MarkSuppressed fresh a reason now db") (auto simp: suppress_def)

lemma outboxes_suppress: "outboxes (suppress fresh a reason now db) = outboxes db"
proof (rule suppress_cases [of fresh a reason now db])
  fix u assume "MarkSuppressed fresh a reason now db = Inr (u, suppress fresh a reason now db)"
  then have "append_events (update_scheduled (sa_ID a) (suppressed_row reason now) db) (sa_CaseID a)
      [suppression_event fresh a reason now] = Inr (suppress fresh a reason now db)"
    by (simp add: MarkSuppressed_def split: sum.splits)
  then show ?thesis using outboxes_append by (fastforce simp: outboxes_def update_scheduled_def)
qed simp

text \<open>A run that reports no result has not reached an executor.\<close>

lemma after_execution_result: "fst (fst (after_execution w a result executeErr s)) = Some result"
  by (simp add: after_execution_def split: option.split prod.split)

lemma execute_scheduled_None:
  assumes "execute_scheduled w fresh clock now a ctx s = ((None, e), s')"
  shows "s' = s"
proof (cases "MarkExecuting a now (fst s)")
  case (Inl err)
  then show ?thesis using assms by (simp add: execute_scheduled_def)
next
  case (Inr ud)
  obtain u d where ud: "ud = (u, d)" by (cases ud)
  obtain result f s1 where r: "registry_Execute (wk_Registry w (fresh 2 0) (clock 2)) (request_of (fresh 1 0) a ctx) (d, snd s)
      = ((result, f), s1)" by (metis prod.exhaust)
  have "fst (fst (execute_scheduled w fresh clock now a ctx s)) = Some result"
    by (simp add: execute_scheduled_def Inr ud r [simplified] after_execution_result split: sum.split prod.split)
  then show ?thesis using assms by simp
qed

lemma perform_None:
  assumes "perform w fresh clock now a ctx s = ((None, e), s')"
  shows "s' = s"
proof (cases "reconcile_result w (fresh 2 0) (clock 2) (fresh 1 0) a s")
  case None
  then show ?thesis using assms execute_scheduled_None by (simp add: perform_def)
next
  case (Some r)
  then show ?thesis using assms by (simp add: perform_def split: sum.splits prod.splits)
qed

lemma RunOnceE:
  assumes "RunOnce w fresh clock s = ((x, e), s')"
  obtains (idle) err where "ClaimDue (wk_ID w) (clock 0) (2 * Minute) (fst s) = Inl err" "x = None" "s' = s"
    | (refused) a d where "ClaimDue (wk_ID w) (clock 0) (2 * Minute) (fst s) = Inr (a, d)" "x = None" "snd s' = snd s"
        "fst s' = d \<or> (\<exists>reason. fst s' = suppress (fresh 0) a reason (clock 0) d)"
    | (performed) a d ctx auth where "ClaimDue (wk_ID w) (clock 0) (2 * Minute) (fst s) = Inr (a, d)"
        "context_Get (sa_CaseID a) (clock 1) d = Inr ctx" "\<not> stale_or_recovered a ctx"
        "LoadAuthorization (sa_DecisionID a) (sa_PolicyEvaluationID a) d = Inr auth"
        "refusal (wk_Zone w) a ctx auth (clock 0) = None"
        "perform w fresh clock (clock 0) a ctx (d, snd s) = ((x, e), s')"
proof (cases "ClaimDue (wk_ID w) (clock 0) (2 * Minute) (fst s)")
  case (Inl err)
  then have "x = None" "s' = s" using assms by (simp_all add: RunOnce_def Let_def)
  then show ?thesis using idle Inl by blast
next
  case (Inr ad)
  obtain a d where ad: "ClaimDue (wk_ID w) (clock 0) (2 * Minute) (fst s) = Inr (a, d)" using Inr by (cases ad) simp
  have stop: ?thesis if "x = None \<and> s' = (d, snd s) \<or> (\<exists>reason. x = None \<and> s' = (suppress (fresh 0) a reason (clock 0) d, snd s))"
    using refused [OF ad] that by (elim disjE exE conjE) (simp, metis fst_conv snd_conv)
  note run = assms [unfolded RunOnce_def Let_def ad sum.case prod.case]
  show ?thesis
  proof (cases "context_Get (sa_CaseID a) (clock 1) d")
    case (Inl err)
    then have "x = None" "s' = (d, snd s)" using run by simp_all
    then show ?thesis using stop by blast
  next
    case ctx: (Inr ctx)
    show ?thesis
    proof (cases "stale_or_recovered a ctx")
      case True
      then have "x = None" "s' = (suppress (fresh 0) a ''STALE_OR_RECOVERED'' (clock 0) d, snd s)" using run ctx by simp_all
      then show ?thesis using stop by blast
    next
      case fresh: False
      show ?thesis
      proof (cases "LoadAuthorization (sa_DecisionID a) (sa_PolicyEvaluationID a) d")
        case (Inl err)
        then have "x = None" "s' = (d, snd s)" using run ctx fresh by simp_all
        then show ?thesis using stop by blast
      next
        case auth: (Inr auth)
        show ?thesis
        proof (cases "refusal (wk_Zone w) a ctx auth (clock 0)")
          case None
          then have "perform w fresh clock (clock 0) a ctx (d, snd s) = ((x, e), s')" using run ctx fresh auth by simp
          then show ?thesis using performed [OF ad ctx fresh auth None] by blast
        next
          case (Some reason)
          then have "x = None" "s' = (suppress (fresh 0) a reason (clock 0) d, snd s)" using run ctx fresh auth by simp_all
          then show ?thesis using stop by blast
        qed
      qed
    qed
  qed
qed

text \<open>A policy that would at most escalate has no failed stop or deny check.\<close>

lemma executable_checks:
  assumes "po_Decision (policy_Evaluate zone ctx d v c g now) \<in> {''APPROVE'', ''ESCALATE''}"
  shows "list_all (\<lambda>x. \<not> snd x) (stop_checks ctx now)" "list_all (\<lambda>x. \<not> snd x) (deny_checks zone ctx v c g now)"
proof -
  have "failed (stop_checks ctx now) = []" "failed (deny_checks zone ctx v c g now) = []"
    using assms unfolding policy_decision_cases by (auto split: if_splits)
  then show "list_all (\<lambda>x. \<not> snd x) (stop_checks ctx now)" "list_all (\<lambda>x. \<not> snd x) (deny_checks zone ctx v c g now)"
    unfolding failed_Nil list_all_iff by auto
qed

lemma executable_contact:
  assumes "po_Decision (policy_Evaluate zone ctx d v c g now) \<in> {''APPROVE'', ''ESCALATE''}" and "is_contact (cd_Action c)"
  shows "\<not> cp_OptedOut (Profile ctx)" "\<not> promise_active ctx"
    "hi_day (history (RecentActions ctx) now) < mc_MaxContactsPerDay (MerchantCtx ctx)"
    "hi_week (history (RecentActions ctx) now) < mc_MaxContactsPerWeek (MerchantCtx ctx)"
    "\<not> inQuietHours zone (mc_QuietHours (MerchantCtx ctx)) (mc_Timezone (MerchantCtx ctx)) now"
  using executable_checks(2) [OF assms(1)] assms(2) by (simp_all add: deny_checks_def Let_def not_le)

lemma executable_open:
  assumes "po_Decision (policy_Evaluate zone ctx d v c g now) \<in> {''APPROVE'', ''ESCALATE''}"
  shows "\<not> IsTerminal (rc_CurrentState (Case ctx))" "now < rc_RecoveryDeadline (Case ctx)"
  using executable_checks(1) [OF assms] by (simp_all add: stop_checks_def)

lemma no_refusal:
  assumes "refusal zone a ctx auth now = None"
  defines "verdict \<equiv> po_Decision (policy_Evaluate zone ctx (sa_DecisionID a) (rc_Version (Case ctx)) (au_Candidate auth) (au_Gate auth) now)"
  shows "eg_Decision (au_Gate auth) = ''ALLOW''" "verdict = ''APPROVE'' \<or> verdict = ''ESCALATE'' \<and> au_HumanApproved auth"
  using assms(1) unfolding verdict_def by (auto simp: refusal_def Let_def split: if_splits)


section \<open>Failed executions\<close>

text \<open>The executors touch neither cases nor log, schedule nor journal.\<close>

definition untouched :: "Database \<Rightarrow> Database \<Rightarrow> bool" where
  "untouched db db' \<longleftrightarrow> db_cases db' = db_cases db \<and> db_events db' = db_events db
     \<and> db_scheduled db' = db_scheduled db \<and> db_executions db' = db_executions db"

lemma untouched_refl [simp]: "untouched db db"
  by (simp add: untouched_def)

lemma capture_untouched: "capture n r tmpl payload db = (y, db') \<Longrightarrow> untouched db db'"
  by (auto simp: capture_def CaptureEmail_def untouched_def split: option.splits if_splits sum.splits prod.splits)

lemma link_untouched: "link_Execute p n i q s = (y, s') \<Longrightarrow> untouched (fst s) (fst s')"
  by (auto simp: link_Execute_def SavePaymentLink_def untouched_def split: option.splits if_splits sum.splits prod.splits)

lemma registry_untouched:
  assumes "registry_Execute (worker_registry provider n t) r s = (y, s')"
  shows "untouched (fst s) (fst s')"
proof -
  have email: "email_Execute n t r s = (y, s') \<Longrightarrow> untouched (fst s) (fst s')"
    by (auto simp: email_Execute_def capture_untouched split: sum.splits prod.splits)
  have local: "local_link_Execute n t r s = (y, s') \<Longrightarrow> untouched (fst s) (fst s')"
    by (auto simp: local_link_Execute_def capture_untouched split: sum.splits prod.splits)
  have pay: "payment_Execute p n t r s = (y, s') \<Longrightarrow> untouched (fst s) (fst s')" for p
    by (auto simp: payment_Execute_def dest: link_untouched split: sum.splits prod.splits)
  have retry: "retry_Execute True n t r s = (y, s') \<Longrightarrow> untouched (fst s) (fst s')"
    by (auto simp: retry_Execute_def RequestRetry_def untouched_def split: sum.splits prod.splits option.splits if_splits)
  show ?thesis
    using assms email local pay retry unfolding registry_cases by (auto split: if_splits option.splits)
qed

lemma MarkExecuting_state:
  assumes "MarkExecuting a now db = Inr (u, d)"
  obtains c r where "find_case d (sa_CaseID a) = Some c" "rc_CurrentState c \<noteq> StateScheduled"
    "lookup sa_ID (sa_ID a) (db_scheduled d) = Some r"
proof -
  obtain r c d0 where r: "lookup sa_ID (sa_ID a) (db_scheduled db) = Some r" and c: "find_case db (sa_CaseID a) = Some c"
    and d0: "d0 = update_scheduled (sa_ID a) (\<lambda>r. r\<lparr>sa_Status := SExecuting,
           sr_StartedAt := (case sr_StartedAt r of None \<Rightarrow> Some now | Some t \<Rightarrow> Some t)\<rparr>) db"
    and d: "d = (if rc_CurrentState c = StateScheduled
        then update_scheduled (sa_ID a) (\<lambda>r. r\<lparr>sa_CaseVersionAtSchedule := rc_Version c + 1\<rparr>)
               (update_case (sa_CaseID a) (advance StateExecuting now) d0) else d0)"
    using assms by (rule MarkExecutingD)
  have f: "find_case d0 (sa_CaseID a) = Some c" using c d0 by simp
  have l: "\<exists>r. lookup sa_ID (sa_ID a) (db_scheduled d0) = Some r" using r by (simp add: d0 lookup_update_scheduled)
  show ?thesis
  proof (cases "rc_CurrentState c = StateScheduled")
    case True
    have "find_case d (sa_CaseID a) = Some (advance StateExecuting now c)" using d True f by (simp add: find_update_advance)
    moreover have "\<exists>r. lookup sa_ID (sa_ID a) (db_scheduled d) = Some r"
      using d True l by (auto simp: lookup_update_scheduled)
    ultimately show ?thesis using that by force
  next
    case False
    then show ?thesis using that f l d by auto
  qed
qed

lemma after_execution_quiet:
  "er_Status result \<noteq> ''FAILED'' \<or> er_Retryable result \<Longrightarrow> after_execution w a result f s = ((Some result, map_option ExecuteErr f), s)"
  by (auto simp: after_execution_def)

text \<open>A failure that could be retried but has used up its attempts is given up silently: the row
  ends FAILED, never due again, a case that was executing is back in ACTION_PENDING, and no
  reassessment is started whatever reassessor is configured, although a permanent failure is
  reassessed at once. Only an operation from outside the worker moves such a case again.\<close>

theorem exhausted_retry_is_dropped:
  assumes "execute_scheduled w fresh clock now a ctx (db, p) = ((Some x, map_option ExecuteErr f), (db', p'))"
    and "wk_Registry w = worker_registry provider"
    and "er_Status x = ''FAILED''" and "er_Retryable x" and "sa_MaxAttempts a \<le> sa_AttemptCount a"
  shows "execute_scheduled (w\<lparr>wk_Reassessor := other\<rparr>) fresh clock now a ctx (db, p)
       = ((Some x, map_option ExecuteErr f), (db', p'))
     \<and> (\<exists>r. lookup sa_ID (sa_ID a) (db_scheduled db') = Some r \<and> sa_Status r = SFailed
          \<and> (\<forall>t. \<not> work_ready t r \<and> \<not> observation_ready t r))
     \<and> (\<exists>c. find_case db' (sa_CaseID a) = Some c \<and> rc_CurrentState c \<notin> {StateScheduled, StateExecuting})"
proof -
  obtain u d where m: "MarkExecuting a now db = Inr (u, d)"
    using assms(1) by (auto simp: execute_scheduled_def split: sum.splits)
  obtain result g s1 where q: "registry_Execute (wk_Registry w (fresh 2 0) (clock 2)) (request_of (fresh 1 0) a ctx) (d, p)
      = ((result, g), s1)" by (metis prod.exhaust)
  note run = assms(1) [unfolded execute_scheduled_def fst_conv snd_conv m sum.case prod.case q]
  obtain v d1 where c: "CompleteExecution (fresh 3) a result (clock 3) (fst s1) = Inr (v, d1)"
    using run by (cases "CompleteExecution (fresh 3) a result (clock 3) (fst s1)") (cases f; auto)+
  have x: "result = x"
    using run c after_execution_result [of w a result g "(d1, snd s1)"] by simp
  have quiet: "after_execution w' a result g s = ((Some result, map_option ExecuteErr g), s)" for w' :: "'a Worker" and s
    using assms(3,4) x by (intro after_execution_quiet) simp
  have e: "db' = d1" "p' = snd s1" "map_option ExecuteErr f = map_option ExecuteErr g" using run c quiet by simp_all
  have "execute_scheduled (w\<lparr>wk_Reassessor := other\<rparr>) fresh clock now a ctx (db, p) = ((Some result, map_option ExecuteErr g), (d1, snd s1))"
    by (simp add: execute_scheduled_def m q [simplified] c quiet)
  then have same: "execute_scheduled (w\<lparr>wk_Reassessor := other\<rparr>) fresh clock now a ctx (db, p) = ((Some x, map_option ExecuteErr f), (db', p'))"
    using e x by simp
  obtain k r where k: "find_case d (sa_CaseID a) = Some k" "rc_CurrentState k \<noteq> StateScheduled"
    "lookup sa_ID (sa_ID a) (db_scheduled d) = Some r" using m by (rule MarkExecuting_state)
  have "untouched d (fst s1)" using registry_untouched [of provider "fresh 2 0" "clock 2" _ "(d, p)" "(result, g)" s1] q assms(2) by simp
  then have k': "find_case (fst s1) (sa_CaseID a) = Some k" "lookup sa_ID (sa_ID a) (db_scheduled (fst s1)) = Some r"
    using k by (simp_all add: untouched_def find_case_def)
  have w: "\<not> will_retry a x" using assms(5) by (simp add: will_retry_def)
  have st: "execution_status x = ''FAILED''" using assms(3) by (simp add: execution_status_def)
  have "find_case db' (sa_CaseID a) = Some (settled True (clock 3) k)"
    "lookup sa_ID (sa_ID a) (db_scheduled db') = Some (finished_row (clock 3) True x r)"
    using execution_effect [OF c k'] w st x e by simp_all
  then show ?thesis
    using same k(2) by (auto simp: settled_def finished_row_def work_ready_def observation_ready_def)
qed

section \<open>Examples\<close>

lemma execute_scheduled_Some:
  assumes "MarkExecuting a now (fst s) = Inr (u, d)"
  shows "\<exists>x e s'. execute_scheduled w fresh clock now a ctx s = ((Some x, e), s')"
proof -
  obtain x e s' where r: "execute_scheduled w fresh clock now a ctx s = ((x, e), s')" by (metis prod.exhaust)
  obtain result f s1 where q: "registry_Execute (wk_Registry w (fresh 2 0) (clock 2)) (request_of (fresh 1 0) a ctx) (d, snd s)
      = ((result, f), s1)" by (metis prod.exhaust)
  have "fst (fst (execute_scheduled w fresh clock now a ctx s)) = Some result"
    by (simp add: execute_scheduled_def assms q [simplified] after_execution_result split: sum.split prod.split)
  then show ?thesis using r by simp
qed

definition local_worker :: "unit Worker" where
  "local_worker = \<lparr>wk_ID = ''w'', wk_Zone = \<lambda>_. None, wk_Registry = worker_registry None, wk_Reassessor = None\<rparr>"

definition example_clock :: "nat \<Rightarrow> time" where
  "example_clock k = (if k = 0 then 0 else 5)"

abbreviation claimed_action :: ScheduledAction where
  "claimed_action \<equiv> ScheduledAction.truncate claimed_row"

lemma claimed_action_facts:
  "sa_CaseID claimed_row = rc_ID created_case" "sa_AttemptCount claimed_row = 1" "sa_ID claimed_row = sa_ID scheduled_action"
  "sa_DecisionID claimed_action = sa_DecisionID scheduled_action" "sa_CaseVersionAtSchedule claimed_row = 3"
  "sa_PolicyEvaluationID claimed_action = sa_PolicyEvaluationID scheduled_action" "sa_Status claimed_row = SClaimed"
  by (simp_all add: claimed_row_def grant_work_def new_scheduled_def ScheduledAction.extend_def ScheduledAction.truncate_def
      scheduled_facts(1) schedule_of_def example_snapshot_def Let_def)

abbreviation worker_context :: RecoveryDecisionContext where
  "worker_context \<equiv> assemble (example_build (example_case_at StateScheduled 3 0) 5)"

lemma context_of_schedule [simp]: "context_Get i now (db\<lparr>db_scheduled := t\<rparr>) = context_Get i now db"
proof -
  have "LoadContextInputs c now (db\<lparr>db_scheduled := t\<rparr>) = LoadContextInputs c now db" for c
    by (simp add: LoadContextInputs_def split: option.split)
  then show ?thesis by (simp add: context_Get_def GetCase_def find_case_def)
qed

lemma worker_reads:
  "context_Get (rc_ID created_case) 5 claimed_db = Inr worker_context"
  using scheduled_context [of 5] by (simp add: claimed_db_def)

lemma authorization_of_schedule [simp]: "LoadAuthorization i j (db\<lparr>db_scheduled := t\<rparr>) = LoadAuthorization i j db"
  by (simp add: LoadAuthorization_def Let_def split: option.split)

lemma worker_authorized:
  "LoadAuthorization (sa_DecisionID claimed_action) (sa_PolicyEvaluationID claimed_action) claimed_db =
     Inr \<lparr>au_DecisionCaseVersion = 1, au_Candidate = example_candidate ActionSendReminder,
          au_Gate = sn_Gate reminder_snapshot, au_HumanApproved = False\<rparr>"
  using load_saved_authorization [OF scheduled example_consistent]
  by (simp add: claimed_action_facts claimed_db_def example_snapshot_def)

lemma worker_approved:
  "po_Decision (policy_Evaluate (\<lambda>_. None) worker_context d 3 (example_candidate ActionSendReminder) (sn_Gate reminder_snapshot) 0) = ''APPROVE''"
proof -
  have c: "Case worker_context = example_case_at StateScheduled 3 0" "RecentActions worker_context = []"
    "ActivePromise worker_context = None" by (simp_all add: example_build_def recent_actions_def)
  have m: "mc_AllowedActions (MerchantCtx worker_context) = [ActionSendReminder]" "mc_AllowedChannels (MerchantCtx worker_context) = [''email'']"
    "mc_MaxContactsPerDay (MerchantCtx worker_context) = 3" "mc_MaxContactsPerWeek (MerchantCtx worker_context) = 5"
    "mc_MaximumIncentiveMinor (MerchantCtx worker_context) = 100" "mc_QuietHours (MerchantCtx worker_context) = emptyObject"
    "mc_HighValueThresholdMinor (MerchantCtx worker_context) = 0" "mc_LowConfidenceThreshold (MerchantCtx worker_context) = 0"
    "\<not> cp_OptedOut (Profile worker_context)" "ps_AvailableChannels (Payment worker_context) = [''email'']"
    "\<not> ps_AlreadyRecovered (Payment worker_context)"
    by (simp_all add: example_build_def merchant_of_def shop_policy_def profile_of_def payment_of_def example_case_at_def Let_def)
  have q: "\<not> inQuietHours (\<lambda>_. None) emptyObject z 0" for z by (simp add: inQuietHours_def)
  have k: "rc_CurrentState (example_case_at StateScheduled 3 0) = StateScheduled" "rc_Version (example_case_at StateScheduled 3 0) = 3"
    "rc_SourceStatus (example_case_at StateScheduled 3 0) = []" "rc_RecoveryDeadline (example_case_at StateScheduled 3 0) = 24 * Hour"
    by (simp_all add: example_case_at_def created_case_eq)
  have conf: "0 \<le> dg_Confidence (Diag worker_context)"
    using recoverability_of_confidence by (simp add: Diagnose_fields)
  have "failed (stop_checks worker_context 0) = []"
    unfolding stop_checks_def c k by (simp add: failed_def m IsTerminal_def Hour_def del: assemble_simps)
  moreover have "failed (deny_checks (\<lambda>_. None) worker_context 3 (example_candidate ActionSendReminder) (sn_Gate reminder_snapshot) 0) = []"
    unfolding deny_checks_def Let_def c k m
    by (simp add: failed_def m example_candidate_def q example_snapshot_def promise_active_def c history_def is_retry_def
        retryActions_def del: assemble_simps)
  moreover have "failed (escalate_checks worker_context) = []"
    unfolding escalate_checks_def using conf by (simp add: failed_def m del: assemble_simps)
  ultimately show ?thesis by (simp add: policy_decision_cases)
qed

lemma worker_runs: "\<exists>x e s. RunOnce local_worker tags example_clock (scheduled_db, ()) = ((Some x, e), s)"
proof -
  let ?auth = "\<lparr>au_DecisionCaseVersion = 1, au_Candidate = example_candidate ActionSendReminder,
          au_Gate = sn_Gate reminder_snapshot, au_HumanApproved = False\<rparr>"
  have v: "rc_Version (Case worker_context) = 3" by (simp add: example_build_def example_case_at_def)
  have g: "eg_Decision (sn_Gate reminder_snapshot) = ''ALLOW''" by (simp add: example_snapshot_def)
  have s: "\<not> stale_or_recovered claimed_action worker_context"
    by (simp add: stale_or_recovered_def claimed_action_facts example_build_def example_case_at_def payment_of_def)
  have z: "wk_Zone local_worker = (\<lambda>_. None)" "wk_ID local_worker = ''w''" by (simp_all add: local_worker_def)
  have f: "refusal (\<lambda>_. None) claimed_action worker_context ?auth 0 = None"
    unfolding refusal_def v by (simp add: worker_approved g Let_def del: assemble_simps)
  obtain d where d: "MarkExecuting claimed_action 0 claimed_db = Inr ((), d)"
    using scheduled_facts(3) claimed_case claimed_row_facts
    by (simp add: MarkExecuting_def Let_def claimed_db_def lookup_Cons claimed_action_facts find_case_def)
  have r: "reconcile_result local_worker n t x claimed_action s = None" for n t x s
    by (simp add: reconcile_result_def claimed_action_facts)
  have c: "example_clock 0 = 0" "example_clock 1 = 5" by (simp_all add: example_clock_def)
  have i: "sa_CaseID claimed_action = rc_ID created_case" by (simp add: claimed_action_facts)
  have "RunOnce local_worker tags example_clock (scheduled_db, ()) =
      execute_scheduled local_worker tags example_clock 0 claimed_action worker_context (claimed_db, ())"
    unfolding RunOnce_def Let_def c fst_conv snd_conv z claimed sum.case prod.case i worker_reads worker_authorized f option.case perform_def r
    using s by simp
  then show ?thesis using execute_scheduled_Some [of claimed_action 0 "(claimed_db, ())"] d by simp
qed


text \<open>With an unused event id and room in the journal, completing an execution does not fail.\<close>

lemma CompleteExecution_ok:
  assumes "well_formed db" and "find_case db (sa_CaseID a) = Some c" and "fresh 0 \<notin> ev_ID ` set (db_events db)"
    and "insert_execution (execution_of a x (execution_status x) now) db = Inr d"
  shows "\<exists>db'. CompleteExecution fresh a x now db = Inr ((), db')"
proof (cases "will_retry a x")
  case True
  then show ?thesis using assms(4) by (simp add: CompleteExecution_def Let_def)
next
  case False
  let ?f = "execution_status x = ''FAILED''"
  let ?d = "finish_rows a x ?f now d"
  let ?e = "execution_event fresh a x (execution_status x) now"
  note o = insert_execution_other [OF assms(4)]
  have c: "find_case ?d (sa_CaseID a) = Some c" using assms(2) o(4) by simp
  have "lawful db (settle_case (sa_CaseID a) ?f now c ?d)"
    using lawful_trans [OF lawful_other_tables lawful_settle_case [OF c]] o by simp
  then have "\<exists>db'. append_events (settle_case (sa_CaseID a) ?f now c ?d) (ev_CaseID ?e) [?e] = Inr db'"
    using assms o settle_case_effect(1) [OF c] settle_case_effect(4) by (intro append_one_ok [of db]) (auto simp: execution_event_def event_of_def)
  then show ?thesis using False assms(2,4) o by (auto simp: CompleteExecution_def Let_def execution_event_def event_of_def)
qed

definition late_row :: ScheduledRow where
  "late_row = claimed_row\<lparr>sa_Action := ActionSendPaymentLink, sa_AttemptCount := 3\<rparr>"

definition late_db :: Database where
  "late_db = shop_db\<lparr>db_cases := [created_case\<lparr>rc_CurrentState := StateScheduled\<rparr>], db_scheduled := [late_row]\<rparr>"

definition unreachable :: "unit Provider" where
  "unreachable = \<lparr>CreatePaymentLink = \<lambda>_ p. (Inl (plain_fault\<lparr>ft_DeadlineExceeded := True\<rparr>), p), FetchPaymentLink = \<lambda>_ _. Inl plain_fault\<rparr>"

definition remote_worker :: "unit Worker" where
  "remote_worker = local_worker\<lparr>wk_Registry := worker_registry (Some unreachable)\<rparr>"

lemma late_fails:
  "\<exists>x f s. execute_scheduled remote_worker (ids \<circ> char_of) example_clock 0 (ScheduledAction.truncate late_row) worker_context (late_db, ())
     = ((Some x, map_option ExecuteErr f), s) \<and> er_Status x = ''FAILED'' \<and> er_Retryable x"
proof -
  let ?a = "ScheduledAction.truncate late_row"
  let ?n = "ids \<circ> char_of :: nat \<Rightarrow> nat \<Rightarrow> ID"
  have a: "sa_ID late_row = sa_ID scheduled_action" "sa_CaseID late_row = rc_ID created_case" "sa_Status late_row = SClaimed"
    "sa_AttemptCount late_row = 3" "sa_Action ?a = ActionSendPaymentLink"
    using claimed_action_facts by (simp_all add: late_row_def ScheduledAction.truncate_def)
  let ?d = "update_scheduled (sa_ID late_row) (\<lambda>r. r\<lparr>sa_CaseVersionAtSchedule := rc_Version created_case + 1\<rparr>)
     (update_case (sa_CaseID late_row) (advance StateExecuting 0) (update_scheduled (sa_ID late_row) (\<lambda>r. r\<lparr>sa_Status := SExecuting,
       sr_StartedAt := (case sr_StartedAt r of None \<Rightarrow> Some 0 | Some t \<Rightarrow> Some t)\<rparr>) late_db))"
  have m: "MarkExecuting ?a 0 late_db = Inr ((), ?d)"
    by (simp add: MarkExecuting_def a late_db_def lookup_Cons find_case_def Let_def)
  have wf: "well_formed late_db"
    by (simp add: well_formed_def keyed_def sources_distinct_def gap_free_def case_log_def late_db_def shop_db_def
        empty_db_def IsValid_def)
  have wd: "well_formed ?d" using lawful_MarkExecuting [OF m] wf by (simp add: lawful_def)
  have e: "db_events ?d = []" "db_executions ?d = []" "db_actions ?d = []" "db_provider_refs ?d = []"
    by (simp_all add: update_scheduled_def update_case_def late_db_def shop_db_def empty_db_def)
  have c: "\<exists>c. find_case ?d (sa_CaseID ?a) = Some c"
    using m by (rule MarkExecuting_state) blast
  define q where "q = request_of (?n 1 0) ?a worker_context"
  have qa: "xq_Action q = ActionSendPaymentLink" by (simp add: q_def request_of_def Let_def a)
  let ?x = "failed_result q (''TIMEOUT'', True)"
  let ?f = "plain_fault\<lparr>ft_DeadlineExceeded := True\<rparr>"
  have r: "registry_Execute (wk_Registry remote_worker n t) q (?d, ()) = ((?x, Some ?f), (?d, ()))" for n t
    using e by (simp add: remote_worker_def registry_cases qa email_supports_def payment_Execute_def link_Execute_def
        GetPaymentLink_def unreachable_def classify_def)
  have "\<exists>d. insert_execution (execution_of ?a ?x (execution_status ?x) 5) ?d = Inr d"
    using e by (simp add: insert_execution_def execution_of_def a)
  then obtain d' where k: "CompleteExecution (?n 3) ?a ?x (example_clock 3) ?d = Inr ((), d')"
    using CompleteExecution_ok [OF wd, of ?a _ "?n 3" ?x 5] c e(1) by (auto simp: example_clock_def)
  have s: "er_Status ?x = ''FAILED''" "er_Retryable ?x" by (simp_all add: failed_result_def)
  have "execute_scheduled remote_worker ?n example_clock 0 ?a worker_context (late_db, ()) = ((Some ?x, map_option ExecuteErr (Some ?f)), (d', ()))"
    unfolding execute_scheduled_def fst_conv snd_conv m sum.case prod.case q_def [symmetric] r k
    using after_execution_quiet [of ?x remote_worker ?a "Some ?f"] s by simp
  then show ?thesis using s by blast
qed

theorem exhausted_retry_is_dropped_witness:
  "\<exists>x e db r. execute_scheduled remote_worker (ids \<circ> char_of) example_clock 0 (ScheduledAction.truncate late_row) worker_context (late_db, ())
     = ((Some x, e), (db, ())) \<and> er_Retryable x \<and> lookup sa_ID (sa_ID scheduled_action) (db_scheduled db) = Some r \<and> sa_Status r = SFailed"
proof -
  obtain x f s where l: "execute_scheduled remote_worker (ids \<circ> char_of) example_clock 0 (ScheduledAction.truncate late_row) worker_context (late_db, ())
     = ((Some x, map_option ExecuteErr f), s)" "er_Status x = ''FAILED''" "er_Retryable x" using late_fails by blast
  obtain db where s: "s = (db, ())" by (cases s) auto
  have w: "wk_Registry remote_worker = worker_registry (Some unreachable)" by (simp add: remote_worker_def)
  have m: "sa_MaxAttempts (ScheduledAction.truncate late_row) \<le> sa_AttemptCount (ScheduledAction.truncate late_row)"
    using claimed_row_facts by (simp add: late_row_def ScheduledAction.truncate_def)
  have i: "sa_ID late_row = sa_ID scheduled_action" by (simp add: late_row_def claimed_action_facts)
  show ?thesis using exhausted_retry_is_dropped [OF l(1) [unfolded s] w l(2,3) m] l s i by auto
qed

end
