(* ===== verification/Responses.thy ===== *)
theory Responses
  imports Orchestrator Promise_Store
begin

text \<open>
  Customer responses: the service (\<open>internal/responses/service.go\<close>) and the transaction that
  records a response and its effect on the customer and the case (\<open>internal/store/responses.go\<close>).
  The creator of promises is the interface \<open>PromiseCreator\<close>, a parameter; theory \<open>Promises\<close>
  provides it.
\<close>

section \<open>The store\<close>

definition validTypes :: "string list" where
  "validTypes = [''ACKNOWLEDGEMENT'', ''INTENT_TO_PAY'', ''PROMISE_TO_PAY'', ''OPT_OUT'', ''PAYMENT_METHOD_ISSUE'', ''UNRESOLVED'']"

text \<open>\<open>INSERT ... ON CONFLICT(correlation_id) DO NOTHING\<close>, with the number of rows it inserted.\<close>

definition insert_response :: "Response \<Rightarrow> nat tx" where
  "insert_response r db =
     (if list_ex (\<lambda>x. rs_CorrelationID x = rs_CorrelationID r) (db_responses db) then Inr (0, db)
      else if list_ex (\<lambda>x. rs_ID x = rs_ID r) (db_responses db) then Inl (ErrConstraint ''customer_responses_pkey'')
      else if rs_Type r \<notin> set validTypes then Inl (ErrConstraint ''customer_responses_response_type_check'')
      else Inr (1, db\<lparr>db_responses := db_responses db @ [r]\<rparr>))"

definition opt_out :: "ID \<Rightarrow> time \<Rightarrow> Database \<Rightarrow> Database" where
  "opt_out customerID now db = db\<lparr>db_customers := modify cu_ID customerID
     (\<lambda>c. c\<lparr>cu_OptedOut := True, cu_UpdatedAt := now\<rparr>) (db_customers db)\<rparr>"

text \<open>A promise holds the case, an acknowledgement says nothing; any other answer ends the wait.\<close>

definition ends_wait :: "RecoveryCase \<Rightarrow> Response \<Rightarrow> bool" where
  "ends_wait c r \<longleftrightarrow> rc_CurrentState c = StateWaitingOutcome \<and> rs_Type r \<noteq> ''ACKNOWLEDGEMENT'' \<and> rs_Type r \<noteq> ''PROMISE_TO_PAY''"

definition response_events :: "(nat \<Rightarrow> ID) \<Rightarrow> RecoveryCase \<Rightarrow> Response \<Rightarrow> RecoveryEvent list" where
  "response_events fresh c r =
     (let ev = (\<lambda>k type payload. event_of (fresh k) (rs_CaseID r) type (rs_ReceivedAt r)
                  \<lparr>actor_Type = ''CUSTOMER'', actor_ID = rc_CustomerID c\<rparr> (Some (JObj payload)) (rs_CorrelationID r));
          i = (''response_id'', JStr (rs_ID r)) in
      [ev 0 EventCustomerResponded [i, (''response_type'', JStr (rs_Type r)), (''source'', JStr (rs_Source r))]]
      @ (if ends_wait c r then
           [ev 1 EventStateTransitioned [i, (''to_state'', JStr ''REASSESSING'')],
            ev 2 EventStateTransitioned [i, (''to_state'', JStr ''ACTION_PENDING'')]] else []))"

definition respond_case :: "RecoveryCase \<Rightarrow> Response \<Rightarrow> Database \<Rightarrow> Database" where
  "respond_case c r db =
     (if ends_wait c r then update_case (rs_CaseID r) (advance StateActionPending (rs_ReceivedAt r))
        (update_case (rs_CaseID r) (advance StateReassessing (rs_ReceivedAt r)) db) else db)"

definition SaveCustomerResponse :: "(nat \<Rightarrow> ID) \<Rightarrow> Response \<Rightarrow> bool tx" where
  "SaveCustomerResponse fresh r db =
     (case find_case db (rs_CaseID r) of None \<Rightarrow> Inl ErrNotFound
      | Some c \<Rightarrow>
          andThen (insert_response r db) (\<lambda>(affected, db).
          if affected = 0 then Inr (False, db)
          else
            (let db = (if rs_Type r = ''OPT_OUT'' then opt_out (rc_CustomerID c) (rs_ReceivedAt r) db else db) in
             andThen (append_events (respond_case c r db) (rs_CaseID r) (response_events fresh c r)) (\<lambda>db. Inr (True, db)))))"

section \<open>The service\<close>

record ResponseInput =
  ir_ID :: ID
  ir_CaseID :: ID
  ir_Type :: string
  ir_Payload :: payload
  ir_Source :: string
  ir_ReceivedAt :: time
  ir_CorrelationID :: string

type_synonym PromiseCreator = "Response \<Rightarrow> Database \<Rightarrow> error option \<times> Database"

definition response_of :: "ID \<Rightarrow> time \<Rightarrow> json \<Rightarrow> ResponseInput \<Rightarrow> Response" where
  "response_of newID now v input = \<lparr>rs_ID = (if ir_ID input = [] then newID else ir_ID input), rs_CaseID = ir_CaseID input,
     rs_Type = ir_Type input, rs_Payload = Some v, rs_Source = ir_Source input,
     rs_ReceivedAt = (if IsZero (ir_ReceivedAt input) then now else ir_ReceivedAt input),
     rs_CorrelationID = ir_CorrelationID input\<rparr>"

text \<open>
  The response is committed before the promise is created, so the result comes with the state left
  also when the creation fails.
\<close>

definition ingest_response :: "PromiseCreator option \<Rightarrow> (nat \<Rightarrow> ID) \<Rightarrow> Response \<Rightarrow> Database
    \<Rightarrow> (error, Response \<times> bool \<times> error option) result \<times> Database" where
  "ingest_response creator fresh r db =
     (case SaveCustomerResponse fresh r db of Inl e \<Rightarrow> (Inl e, db)
      | Inr (created, db) \<Rightarrow>
          (case creator of
             Some create \<Rightarrow>
               if created \<and> rs_Type r = ''PROMISE_TO_PAY'' then
                 (case create r db of (e, db) \<Rightarrow> (Inr (r, created, e), db))
               else (Inr (r, created, None), db)
           | None \<Rightarrow> (Inr (r, created, None), db)))"

definition Ingest :: "PromiseCreator option \<Rightarrow> (nat \<Rightarrow> ID) \<Rightarrow> time \<Rightarrow> ResponseInput \<Rightarrow> Database
    \<Rightarrow> (error, Response \<times> bool \<times> error option) result \<times> Database" where
  "Ingest creator fresh now input db =
     (if ir_Type input \<notin> set validTypes then (Inl (ErrMsg ''invalid customer response type''), db)
      else if ir_CaseID input = [] \<or> ir_Source input = [] \<or> ir_CorrelationID input = []
        then (Inl (ErrMsg ''case_id, source, and correlation_id are required''), db)
      else (case ir_Payload input of
          BadPayload \<Rightarrow> (Inl (ErrMsg ''payload must be valid JSON''), db)
        | NoPayload \<Rightarrow> ingest_response creator (\<lambda>k. fresh (k + 1)) (response_of (fresh 0) now (JObj []) input) db
        | Payload v \<Rightarrow> ingest_response creator (\<lambda>k. fresh (k + 1)) (response_of (fresh 0) now v input) db))"

section \<open>What the transaction does\<close>

lemma insert_responseD:
  assumes "insert_response r db = Inr (n, db')"
  shows "if n = 0 then db' = db \<and> (\<exists>x \<in> set (db_responses db). rs_CorrelationID x = rs_CorrelationID r)
    else db' = db\<lparr>db_responses := db_responses db @ [r]\<rparr> \<and> rs_Type r \<in> set validTypes"
  using assms by (auto simp: insert_response_def list_ex_iff split: if_splits)

definition responded :: "RecoveryCase \<Rightarrow> Response \<Rightarrow> RecoveryCase" where
  "responded c r = (if ends_wait c r
     then advance StateActionPending (rs_ReceivedAt r) (advance StateReassessing (rs_ReceivedAt r) c) else c)"

lemma respond_case_effect:
  assumes "find_case db (rs_CaseID r) = Some c"
  shows "lawful db (respond_case c r db)"
    "find_case (respond_case c r db) j = (if j = rs_CaseID r then Some (responded c r) else find_case db j)"
    "db_customers (respond_case c r db) = db_customers db" "db_responses (respond_case c r db) = db_responses db"
    "db_events (respond_case c r db) = db_events db"
proof -
  show "lawful db (respond_case c r db)"
    unfolding respond_case_def using assms
    by (cases "ends_wait c r") (auto intro!: lawful_two_steps simp: ends_wait_def CanTransition_def)
  show "find_case (respond_case c r db) j = (if j = rs_CaseID r then Some (responded c r) else find_case db j)"
    using assms by (simp add: respond_case_def responded_def find_update_advance)
qed (simp_all add: respond_case_def update_case_def)

lemma response_events_case: "\<forall>e \<in> set (response_events fresh c r). ev_CaseID e = rs_CaseID r"
  by (auto simp: response_events_def event_of_def Let_def)

lemma SaveCustomerResponseE:
  assumes "SaveCustomerResponse fresh r db = Inr (created, db')"
  obtains (known) "created = False" "db' = db" "find_case db (rs_CaseID r) \<noteq> None"
      "\<exists>x \<in> set (db_responses db). rs_CorrelationID x = rs_CorrelationID r"
  | (recorded) c d where "created = True" "find_case db (rs_CaseID r) = Some c" "rs_Type r \<in> set validTypes" "lawful db d"
      "\<forall>j. find_case d j = (if j = rs_CaseID r then Some (responded c r) else find_case db j)"
      "db_responses d = db_responses db @ [r]"
      "db_customers d = (if rs_Type r = ''OPT_OUT'' then modify cu_ID (rc_CustomerID c)
          (\<lambda>x. x\<lparr>cu_OptedOut := True, cu_UpdatedAt := rs_ReceivedAt r\<rparr>) (db_customers db) else db_customers db)"
      "db_events d = db_events db" "append_events d (rs_CaseID r) (response_events fresh c r) = Inr db'"
      "same_inputs db (d\<lparr>db_customers := db_customers db\<rparr>)" "db_actions d = db_actions db"
proof -
  obtain c where c: "find_case db (rs_CaseID r) = Some c"
    using assms by (auto simp: SaveCustomerResponse_def split: option.splits)
  obtain n d0 where i: "insert_response r db = Inr (n, d0)"
    using assms c by (auto simp: SaveCustomerResponse_def andThen_Inr)
  note run = assms [unfolded SaveCustomerResponse_def c option.case i andThen_simps prod.case Let_def]
  show ?thesis
  proof (cases "n = 0")
    case True
    then show ?thesis using run insert_responseD [OF i] c known by auto
  next
    case False
    define d1 where "d1 = (if rs_Type r = ''OPT_OUT'' then opt_out (rc_CustomerID c) (rs_ReceivedAt r) d0 else d0)"
    have d0: "d0 = db\<lparr>db_responses := db_responses db @ [r]\<rparr>" "rs_Type r \<in> set validTypes" using insert_responseD [OF i] False by auto
    have ev: "append_events (respond_case c r d1) (rs_CaseID r) (response_events fresh c r) = Inr db'" "created = True"
      using run False by (auto simp: d1_def andThen_Inr)
    have same: "db_cases d1 = db_cases db" "db_events d1 = db_events db" by (simp_all add: d1_def d0 opt_out_def)
    then have c1: "find_case d1 (rs_CaseID r) = Some c" using c by (simp add: find_case_def)
    note e = respond_case_effect [OF c1]
    have "lawful db (respond_case c r d1)" using lawful_trans [OF lawful_other_tables [OF same] e(1)] .
    moreover have "\<forall>j. find_case (respond_case c r d1) j = (if j = rs_CaseID r then Some (responded c r) else find_case db j)"
      using e(2) same by (simp add: find_case_def)
    moreover have "db_customers d1 = (if rs_Type r = ''OPT_OUT'' then modify cu_ID (rc_CustomerID c)
          (\<lambda>x. x\<lparr>cu_OptedOut := True, cu_UpdatedAt := rs_ReceivedAt r\<rparr>) (db_customers db) else db_customers db)"
      "db_responses d1 = db_responses db @ [r]" by (simp_all add: d1_def d0 opt_out_def)
    moreover have "same_inputs db ((respond_case c r d1)\<lparr>db_customers := db_customers db\<rparr>)" "db_actions (respond_case c r d1) = db_actions db"
      by (simp_all add: d1_def d0 opt_out_def respond_case_def update_case_def same_inputs_def)
    ultimately show ?thesis using recorded [of c "respond_case c r d1"] c d0 ev e same by simp
  qed
qed

lemma SaveCustomerResponse_ok:
  assumes "well_formed db" and "find_case db (rs_CaseID r) = Some c" and "rs_Type r \<in> set validTypes"
    and "\<forall>x \<in> set (db_responses db). rs_CorrelationID x \<noteq> rs_CorrelationID r \<and> rs_ID x \<noteq> rs_ID r"
    and "inj_on fresh {0, 1, 2}" and "fresh ` {0, 1, 2} \<inter> ev_ID ` set (db_events db) = {}"
  shows "\<exists>db'. SaveCustomerResponse fresh r db = Inr (True, db')"
proof -
  define d where "d = db\<lparr>db_responses := db_responses db @ [r]\<rparr>"
  define d1 where "d1 = (if rs_Type r = ''OPT_OUT'' then opt_out (rc_CustomerID c) (rs_ReceivedAt r) d else d)"
  have i: "insert_response r db = Inr (1, d)"
    using assms(3,4) by (auto simp: insert_response_def d_def list_ex_iff)
  have same: "db_cases d1 = db_cases db" "db_events d1 = db_events db" by (simp_all add: d1_def d_def opt_out_def)
  then have c1: "find_case d1 (rs_CaseID r) = Some c" using assms(2) by (simp add: find_case_def)
  note e = respond_case_effect [OF c1]
  have "lawful db (respond_case c r d1)" using lawful_trans [OF lawful_other_tables [OF same] e(1)] .
  then have w: "well_formed (respond_case c r d1)" using assms(1) by (simp add: lawful_def)
  have "append_events (respond_case c r d1) (rs_CaseID r) (response_events fresh c r) = Inr ((respond_case c r d1)
      \<lparr>db_events := db_events (respond_case c r d1) @ numbered (nextSequence (respond_case c r d1) (rs_CaseID r)) (response_events fresh c r)\<rparr>)"
  proof (rule append_events_ok [OF w _ response_events_case])
    show "find_case (respond_case c r d1) (rs_CaseID r) \<noteq> None" by (simp add: e(2))
    show "distinct (map ev_ID (response_events fresh c r))"
      using assms(5) by (auto simp: response_events_def event_of_def Let_def inj_on_def)
    show "ev_ID ` set (response_events fresh c r) \<inter> ev_ID ` set (db_events (respond_case c r d1)) = {}"
      using assms(6) by (auto simp: response_events_def event_of_def Let_def e(5) same)
  qed
  then show ?thesis
    using assms(2) i by (auto simp: SaveCustomerResponse_def d1_def [symmetric] Let_def)
qed

lemma lawful_SaveCustomerResponse:
  assumes "SaveCustomerResponse fresh r db = Inr (created, db')"
  shows "lawful db db'"
  using assms
proof (cases rule: SaveCustomerResponseE)
  case (recorded c d)
  then show ?thesis using lawful_append_events [OF recorded(9) response_events_case] lawful_trans by blast
qed simp

lemma recorded_facts:
  assumes "SaveCustomerResponse fresh r db = Inr (True, db')"
  shows "db_responses db' = db_responses db @ [r]" "db_promises db' = db_promises db"
    "\<exists>c. find_case db (rs_CaseID r) = Some c
      \<and> (\<forall>j. find_case db' j = (if j = rs_CaseID r then Some (responded c r) else find_case db j))"
    "rs_CaseID r2 = rs_CaseID r \<Longrightarrow> rs_CorrelationID r2 = rs_CorrelationID r \<Longrightarrow> SaveCustomerResponse fresh2 r2 db' = Inr (False, db')"
proof -
  show f: "\<exists>c. find_case db (rs_CaseID r) = Some c
      \<and> (\<forall>j. find_case db' j = (if j = rs_CaseID r then Some (responded c r) else find_case db j))"
    using assms
  proof (cases rule: SaveCustomerResponseE)
    case (recorded c d)
    then show ?thesis using append_events_case [OF recorded(9)] by simp
  qed simp
  have t: "db_responses db' = db_responses db @ [r] \<and> db_promises db' = db_promises db"
    using assms
  proof (cases rule: SaveCustomerResponseE)
    case (recorded c d)
    then show ?thesis unfolding append_events_log [OF recorded(9)] by (simp add: same_inputs_def)
  qed simp
  then show rs: "db_responses db' = db_responses db @ [r]" and "db_promises db' = db_promises db" by simp_all
  show "SaveCustomerResponse fresh2 r2 db' = Inr (False, db')"
    if "rs_CaseID r2 = rs_CaseID r" "rs_CorrelationID r2 = rs_CorrelationID r"
    using f that by (auto simp: SaveCustomerResponse_def insert_response_def rs)
qed

section \<open>Properties\<close>

text \<open>A response counts once. A new one is stored and logged; a case that was waiting for an outcome
  goes back to the next decision unless the answer is an acknowledgement or a promise, and its
  preparation then has nothing left to do; every other case is untouched. A response whose
  correlation id is known changes nothing and is reported as not created.\<close>

theorem response_recorded_once:
  assumes "SaveCustomerResponse fresh r db = Inr (created, db')" and "well_formed db"
  shows "(\<not> created \<longrightarrow> db' = db \<and> (\<exists>x \<in> set (db_responses db). rs_CorrelationID x = rs_CorrelationID r))
     \<and> (created \<longrightarrow> (\<exists>c. find_case db (rs_CaseID r) = Some c \<and> db_responses db' = db_responses db @ [r]
          \<and> (\<forall>j. find_case db' j = (if j = rs_CaseID r then Some (responded c r) else find_case db j))
          \<and> map ev_Type (case_log db' (rs_CaseID r)) = map ev_Type (case_log db (rs_CaseID r)) @ EventCustomerResponded
              # (if ends_wait c r then [EventStateTransitioned, EventStateTransitioned] else [])
          \<and> (ends_wait c r \<longrightarrow> PrepareForDecision fresh2 (rs_CaseID r) now2 db' = Inr ((), db')))
        \<and> (rs_CaseID r2 = rs_CaseID r \<and> rs_CorrelationID r2 = rs_CorrelationID r
             \<longrightarrow> SaveCustomerResponse fresh2 r2 db' = Inr (False, db')))"
  using assms(1)
proof (cases rule: SaveCustomerResponseE)
  case (recorded c d)
  note saved = recorded_facts [OF assms(1) [unfolded recorded(1)]]
  have f: "find_case db' j = (if j = rs_CaseID r then Some (responded c r) else find_case db j)" for j
    using saved(3) recorded(2) by simp
  have "well_formed d" using recorded(4) assms(2) by (simp add: lawful_def)
  then have "map ev_Type (case_log db' (rs_CaseID r)) = map ev_Type (case_log d (rs_CaseID r)) @ map ev_Type (response_events fresh c r)"
    by (rule append_events_log_of [OF recorded(9) _ response_events_case])
  moreover have "case_log d (rs_CaseID r) = case_log db (rs_CaseID r)" using recorded(8) by (simp add: case_log_def)
  ultimately have log: "map ev_Type (case_log db' (rs_CaseID r)) = map ev_Type (case_log db (rs_CaseID r)) @ EventCustomerResponded
      # (if ends_wait c r then [EventStateTransitioned, EventStateTransitioned] else [])"
    by (simp add: response_events_def event_of_def Let_def)
  have "PrepareForDecision fresh2 (rs_CaseID r) now2 db' = Inr ((), db')" if "ends_wait c r"
    using f that by (intro prepare_pending [of _ _ "responded c r"]) (simp_all add: responded_def)
  then show ?thesis using recorded(1,2) f saved(1,4) log by auto
qed simp

lemma opted_out_profile:
  assumes "context_Get i now db = Inr ctx" and "find_case db i = Some c"
    and "\<forall>x \<in> set (db_customers db). cu_ID x = rc_CustomerID c \<longrightarrow> cu_OptedOut x"
  shows "cp_OptedOut (Profile ctx)"
proof -
  obtain c1 b where b: "find_case db i = Some c1" "LoadContextInputs c1 now db = Inr b" "ctx = assemble b"
    using assms(1) by (rule context_GetE)
  obtain customer where "lookup cu_ID (rc_CustomerID c1) (db_customers db) = Some customer" "bi_Customer b = customer"
    using b(2) by (rule LoadContextInputsD)
  then have "cu_OptedOut (bi_Customer b)" using lookup_SomeD assms(2,3) b(1) by fastforce
  then show ?thesis by (simp add: b(3) profile_of_def Let_def)
qed

text \<open>C33. An opt-out silences every channel of every case of the customer: once it is recorded, no
  context built for a case of that customer makes a contact action eligible, and the policy
  engine answers neither APPROVE nor ESCALATE to one, so not even a human approval can send it.\<close>

theorem opt_out_stops_contact:
  assumes "SaveCustomerResponse fresh r db = Inr (True, db')" and "rs_Type r = ''OPT_OUT''"
    and "find_case db (rs_CaseID r) = Some c" and "find_case db' i = Some c2" and "rc_CustomerID c2 = rc_CustomerID c"
    and "context_Get i now db' = Inr ctx" and "is_contact (cd_Action k)"
  shows "cd_Action k \<notin> set (EligibleActions (Evaluate ctx))
     \<and> po_Decision (policy_Evaluate zone ctx decisionID version k gate now2) \<notin> {''APPROVE'', ''ESCALATE''}"
proof -
  have "cp_OptedOut (Profile ctx)"
    using assms(1)
  proof (cases rule: SaveCustomerResponseE)
    case (recorded c0 d)
    have "db_customers db' = modify cu_ID (rc_CustomerID c) (\<lambda>x. x\<lparr>cu_OptedOut := True, cu_UpdatedAt := rs_ReceivedAt r\<rparr>) (db_customers db)"
      using append_events_log [OF recorded(9)] recorded(2,7) assms(2,3) by simp
    then have "\<forall>x \<in> set (db_customers db'). cu_ID x = rc_CustomerID c2 \<longrightarrow> cu_OptedOut x"
      using assms(5) by (auto simp: modify_def)
    then show ?thesis by (rule opted_out_profile [OF assms(6,4)])
  qed simp
  moreover have "\<not> cp_OptedOut (Profile ctx)" if "cd_Action k \<in> set (EligibleActions (Evaluate ctx))"
    using contact_exclusionD(1) [of ctx "cd_Action k"] that assms(7) mem_eligible by blast
  moreover have "\<not> cp_OptedOut (Profile ctx)"
    if "po_Decision (policy_Evaluate zone ctx decisionID version k gate now2) \<in> {''APPROVE'', ''ESCALATE''}"
    by (rule executable_contact(1) [OF that assms(7)])
  ultimately show ?thesis by blast
qed

section \<open>Examples\<close>

definition example_response :: "string \<Rightarrow> Response" where
  "example_response type = \<lparr>rs_ID = ''r2'', rs_CaseID = rc_ID created_case, rs_Type = type, rs_Payload = emptyObject,
     rs_Source = ''email'', rs_ReceivedAt = 5, rs_CorrelationID = ''corr2''\<rparr>"

lemma example_response_simps [simp]:
  "rs_CaseID (example_response t) = rc_ID created_case" "rs_Type (example_response t) = t" "rs_ID (example_response t) = ''r2''"
  "rs_CorrelationID (example_response t) = ''corr2''" "rs_ReceivedAt (example_response t) = 5"
  by (simp_all add: example_response_def)

lemma example_tables:
  "db_responses waiting_db = []" "db_events waiting_db = []"
  "db_cases waiting_db = [created_case\<lparr>rc_CurrentState := StateWaitingOutcome\<rparr>]"
  by (simp_all add: waiting_db_def shop_db_def empty_db_def)

lemma example_saved:
  "\<exists>db. SaveCustomerResponse (ids CHR ''r'') (example_response ''OPT_OUT'') waiting_db = Inr (True, db)"
  by (rule SaveCustomerResponse_ok [OF waiting_well_formed])
    (auto simp: example_tables validTypes_def ids_def lookup_Cons find_case_def numeral_2_eq_2 intro: inj_onI)

lemma waiting_case: "find_case waiting_db (rc_ID created_case) = Some (created_case\<lparr>rc_CurrentState := StateWaitingOutcome\<rparr>)"
  by (simp add: waiting_db_def find_case_def lookup_Cons)

theorem response_recorded_once_witness:
  "\<exists>db. SaveCustomerResponse (ids CHR ''r'') (example_response ''OPT_OUT'') waiting_db = Inr (True, db)
     \<and> PrepareForDecision (ids CHR ''s'') (rc_ID created_case) 9 db = Inr ((), db)
     \<and> SaveCustomerResponse (ids CHR ''s'') (example_response ''OPT_OUT'') db = Inr (False, db)"
proof -
  obtain db where s: "SaveCustomerResponse (ids CHR ''r'') (example_response ''OPT_OUT'') waiting_db = Inr (True, db)"
    using example_saved by blast
  show ?thesis
    using s response_recorded_once [OF s waiting_well_formed, of "ids CHR ''s''" 9 "example_response ''OPT_OUT''"]
    by (auto simp: waiting_case ends_wait_def)
qed

definition opted_build :: "RecoveryCase \<Rightarrow> time \<Rightarrow> BuildInput" where
  "opted_build c now = (example_build c now)\<lparr>bi_Customer := (bi_Customer (example_build c now))\<lparr>cu_OptedOut := True, cu_UpdatedAt := 5\<rparr>\<rparr>"

lemma opted_out_example:
  assumes "SaveCustomerResponse (ids CHR ''r'') (example_response ''OPT_OUT'') waiting_db = Inr (True, db)"
  shows "context_Get (rc_ID created_case) 9 db = Inr (assemble (opted_build (example_case_at StateActionPending 3 5) 9))"
    "find_case db (rc_ID created_case) = Some (example_case_at StateActionPending 3 5)"
proof -
  let ?c = "example_case_at StateActionPending 3 5"
  have f: "find_case db (rc_ID created_case) = Some ?c
    \<and> LoadContextInputs ?c 9 db = Inr (opted_build ?c 9)"
    using assms
  proof (cases rule: SaveCustomerResponseE)
    case (recorded c0 d)
    have c0: "c0 = created_case\<lparr>rc_CurrentState := StateWaitingOutcome\<rparr>" using recorded(2) waiting_case by simp
    have r: "responded c0 (example_response ''OPT_OUT'') = ?c"
      by (simp add: responded_def ends_wait_def advance_def example_case_at_def c0 created_case_eq)
    have t: "db_merchants d = db_merchants shop_db" "db_merchant_policies d = db_merchant_policies shop_db"
      "db_profiles d = db_profiles shop_db" "db_optimization_profiles d = db_optimization_profiles shop_db"
      "db_promises d = db_promises shop_db" "db_actions d = db_actions shop_db"
      using recorded(10,11) by (simp_all add: same_inputs_def waiting_db_def)
    have cs: "db_customers d = [(bi_Customer (example_build ?c 9))\<lparr>cu_OptedOut := True, cu_UpdatedAt := 5\<rparr>]"
      using recorded(7) by (simp add: c0 created_case_eq waiting_db_def shop_db_def modify_def example_build_def)
    have e: "rc_MerchantID ?c = ''m1''" "rc_CustomerID ?c = ''c1''" by (simp_all add: example_case_at_def created_case_eq)
    have "LoadContextInputs ?c 9 db = LoadContextInputs ?c 9 d"
      unfolding append_events_log [OF recorded(9)] by (simp add: LoadContextInputs_def cong: option.case_cong)
    moreover have "LoadContextInputs ?c 9 d = Inr (opted_build ?c 9)"
      by (simp add: LoadContextInputs_def e t cs shop_db_def empty_db_def lookup_Cons opted_build_def example_build_def shop_policy_def)
    moreover have "find_case db (rc_ID created_case) = Some ?c"
      using recorded(5) append_events_case [OF recorded(9)] r by simp
    ultimately show ?thesis by simp
  qed simp
  then show "find_case db (rc_ID created_case) = Some ?c" by simp
  have l: "context_strings (assemble (opted_build ?c 9)) = example_strings StateActionPending"
    using example_context_strings [of StateActionPending 3 5 9]
    by (simp add: context_strings_def opted_build_def assemble_def Let_def profile_of_def merchant_of_def payment_of_def)
  have "raw_strings (pf_Features (bi_Profile (opted_build ?c 9))) = []" "raw_strings (rc_CustomerContextSnapshot (bi_Case (opted_build ?c 9))) = []"
    "raw_strings (rc_FailureOrLeakContext (bi_Case (opted_build ?c 9))) = []" "bi_Now (opted_build ?c 9) = 9"
    by (simp_all add: opted_build_def example_build_def default_profile_def raw_strings_def example_case_at_def created_case_eq)
  then show "context_Get (rc_ID created_case) 9 db = Inr (assemble (opted_build ?c 9))"
    using f l example_clean [of StateActionPending]
    by (simp add: context_Get_def GetCase_def Build_def Let_def)
qed

theorem opt_out_stops_contact_witness:
  "\<exists>db ctx. SaveCustomerResponse (ids CHR ''r'') (example_response ''OPT_OUT'') waiting_db = Inr (True, db)
     \<and> context_Get (rc_ID created_case) 9 db = Inr ctx \<and> ActionSendReminder \<notin> set (EligibleActions (Evaluate ctx))"
proof -
  obtain db where s: "SaveCustomerResponse (ids CHR ''r'') (example_response ''OPT_OUT'') waiting_db = Inr (True, db)"
    using example_saved by blast
  have k: "is_contact (cd_Action (example_candidate ActionSendReminder))"
    by (simp add: example_candidate_def is_contact_def contactActions_def)
  have c: "find_case waiting_db (rs_CaseID (example_response ''OPT_OUT'')) = Some (created_case\<lparr>rc_CurrentState := StateWaitingOutcome\<rparr>)"
    using waiting_case by simp
  have i: "rc_CustomerID (example_case_at StateActionPending 3 5) = rc_CustomerID (created_case\<lparr>rc_CurrentState := StateWaitingOutcome\<rparr>)"
    by (simp add: example_case_at_def)
  note e = opted_out_example [OF s]
  show ?thesis
    using s e(1) opt_out_stops_contact [OF s _ c e(2) i e(1) k] by (auto simp: example_candidate_def)
qed

end
