(* ===== verification/Promises.thy ===== *)
theory Promises
  imports Promise_Text Responses
begin

text \<open>
  The promise service (\<open>internal/promises/promises.go\<close>) over the promise store: creation from an
  API request or from a customer's response, cancellation, the worker's due check and the demo
  resolution. \<open>time.LoadLocation\<close> is the parameter \<open>zone\<close> of the policy engine.
\<close>

section \<open>Creation\<close>

record CreateInput =
  ci_CaseID :: ID
  ci_Text :: string
  ci_PromisedFor :: "time option"
  ci_PromisedAmountMinor :: "int option"
  ci_Source :: RawMessage
  ci_SourceResponseID :: "ID option"
  ci_CorrelationID :: string
  ci_Timezone :: string

definition minimumConfidence :: float64 where "minimumConfidence = 3 / 4"

definition promise_of :: "ID \<Rightarrow> CreateInput \<Rightarrow> Extraction \<Rightarrow> PromiseToPay" where
  "promise_of newID input e =
     \<lparr>pp_ID = newID, pp_CaseID = ci_CaseID input, pp_CustomerID = [], pp_Status = PromiseActive, pp_DueAt = xt_PromisedFor e,
      pp_Confidence = xt_Confidence e, pp_Source = (case ci_Source input of None \<Rightarrow> emptyObject | Some v \<Rightarrow> Some v),
      pp_CreatedAt = xt_ExtractedAt e, pp_ResolvedAt = None, pp_PromisedAmountMinor = ci_PromisedAmountMinor input,
      pp_ExtractorVersion = xt_ExtractorVersion e, pp_ExtractionTimestamp = Some (xt_ExtractedAt e),
      pp_SourceResponseID = ci_SourceResponseID input, pp_FulfilledAt = None, pp_BrokenAt = None, pp_ExpiredAt = None,
      pp_CancelledAt = None, pp_VerificationReference = []\<rparr>"

text \<open>\<open>Service.Create\<close>. The empty zone loads as UTC.\<close>

definition promises_Create :: "(string \<times> int) list \<Rightarrow> zone_db \<Rightarrow> (nat \<Rightarrow> ID) \<Rightarrow> time \<Rightarrow> CreateInput \<Rightarrow> (PromiseToPay \<times> bool) tx" where
  "promises_Create weekdays zone fresh now input db =
     (case (case zone (ci_Timezone input) of Some l \<Rightarrow> Some l | None \<Rightarrow> if ci_Timezone input = [] then Some UTC else None) of
        None \<Rightarrow> Inl (ErrMsg ''invalid IANA timezone'')
      | Some location \<Rightarrow>
          andThen (Extract weekdays (ci_Text input) (ci_PromisedFor input) now (Some location)) (\<lambda>e.
          if xt_Confidence e < minimumConfidence then Inl (ErrMsg ''promise interpretation confidence below threshold'')
          else if (case ci_PromisedAmountMinor input of None \<Rightarrow> False | Some n \<Rightarrow> n \<le> 0)
            then Inl (ErrMsg ''promised amount must be positive'')
          else CreatePromise (\<lambda>k. fresh (k + 2)) (promise_of (fresh 1) input e)
                 (if ci_CorrelationID input = [] then fresh 0 else ci_CorrelationID input) db))"

section \<open>From a response\<close>

text \<open>
  RFC 3339 as \<open>Time.UnmarshalJSON\<close> accepts it: two-digit fields in range, a fraction of any length
  cut to nanoseconds, and \<open>Z\<close> or an offset below 24 hours.
\<close>

fun fraction :: "nat \<Rightarrow> int \<Rightarrow> string \<Rightarrow> int \<times> string" where
  "fraction n acc [] = (acc * 10 ^ n, [])"
| "fraction n acc (c # s) =
     (case digit_val c of None \<Rightarrow> (acc * 10 ^ n, c # s)
      | Some x \<Rightarrow> (case n of 0 \<Rightarrow> fraction 0 acc s | Suc n \<Rightarrow> fraction n (10 * acc + x) s))"

definition parse_fraction :: "string \<Rightarrow> int \<times> string" where
  "parse_fraction s = (case s of p # d # t \<Rightarrow> if p = CHR ''.'' \<and> digit_val d \<noteq> None then fraction 9 0 (d # t) else (0, s) | _ \<Rightarrow> (0, s))"

definition parse_offset :: "string \<Rightarrow> int option" where
  "parse_offset s =
     (if s = ''Z'' then Some 0
      else case s of [] \<Rightarrow> None
       | sign # t \<Rightarrow>
           (case clock_digits t of Some ((h, m), []) \<Rightarrow>
              if h < 24 \<and> m < 60 \<and> sign = CHR ''+'' then Some (h * 3600 + m * 60)
              else if h < 24 \<and> m < 60 \<and> sign = CHR ''-'' then Some (- (h * 3600 + m * 60)) else None
            | _ \<Rightarrow> None))"

definition parse_time :: "string \<Rightarrow> time option" where
  "parse_time s =
     (case date_digits s of None \<Rightarrow> None | Some ((y, m, d), s) \<Rightarrow>
      (case literal CHR ''T'' s of None \<Rightarrow> None | Some s \<Rightarrow>
      (case clock_digits s of None \<Rightarrow> None | Some ((h, mi), s) \<Rightarrow>
      (case literal CHR '':'' s of None \<Rightarrow> None | Some s \<Rightarrow>
      (case number 2 0 s of None \<Rightarrow> None | Some (sec, s) \<Rightarrow>
      (case parse_fraction s of (ns, s) \<Rightarrow>
      (case parse_offset s of None \<Rightarrow> None | Some off \<Rightarrow>
         if valid_date y m d \<and> h < 24 \<and> mi < 60 \<and> sec < 60
         then Some (days_of_civil y m d * Day + h * Hour + mi * Minute + (sec - off) * Second + ns) else None)))))))"

text \<open>
  Decoding a member into a pointer field: \<open>null\<close> clears it, a value of the wrong type fails the
  whole decoding, the last member of a name counts.
\<close>

fun decode_pointer :: "(json \<Rightarrow> 'a option) \<Rightarrow> (string \<times> json) list \<Rightarrow> string \<Rightarrow> 'a option \<Rightarrow> 'a option option" where
  "decode_pointer dec [] k acc = Some acc"
| "decode_pointer dec ((n, v) # kvs) k acc =
     (if lower n \<noteq> k then decode_pointer dec kvs k acc
      else if v = JNull then decode_pointer dec kvs k None
      else (case dec v of None \<Rightarrow> None | Some x \<Rightarrow> decode_pointer dec kvs k (Some x)))"

fun json_time :: "json \<Rightarrow> time option" where
  "json_time (JStr s) = parse_time s"
| "json_time _ = None"

text \<open>An \<open>int64\<close>; a number written with a point or an exponent, which Go refuses, is not told apart.\<close>

fun json_int64 :: "json \<Rightarrow> int option" where
  "json_int64 (JNum x) = (if of_int \<lfloor>x\<rfloor> = x \<and> in_i64 \<lfloor>x\<rfloor> then Some \<lfloor>x\<rfloor> else None)"
| "json_int64 _ = None"

record PromiseBody =
  pb_Text :: string
  pb_PromisedFor :: "time option"
  pb_DueAt :: "time option"
  pb_PromisedAmountMinor :: "int option"
  pb_Timezone :: string

definition decode_body :: "RawMessage \<Rightarrow> PromiseBody option" where
  "decode_body raw =
     (case raw of Some (JObj kvs) \<Rightarrow>
        (case decode_string_members kvs ''text'' [] of None \<Rightarrow> None | Some text \<Rightarrow>
         (case decode_pointer json_time kvs ''promised_for'' None of None \<Rightarrow> None | Some pf \<Rightarrow>
          (case decode_pointer json_time kvs ''due_at'' None of None \<Rightarrow> None | Some due \<Rightarrow>
           (case decode_pointer json_int64 kvs ''promised_amount_minor'' None of None \<Rightarrow> None | Some amount \<Rightarrow>
            (case decode_string_members kvs ''timezone'' [] of None \<Rightarrow> None | Some tz \<Rightarrow>
               Some \<lparr>pb_Text = text, pb_PromisedFor = pf, pb_DueAt = due, pb_PromisedAmountMinor = amount, pb_Timezone = tz\<rparr>)))))
      | Some JNull \<Rightarrow> Some \<lparr>pb_Text = [], pb_PromisedFor = None, pb_DueAt = None, pb_PromisedAmountMinor = None, pb_Timezone = []\<rparr>
      | _ \<Rightarrow> None)"

definition create_input :: "Response \<Rightarrow> PromiseBody \<Rightarrow> CreateInput" where
  "create_input r b = \<lparr>ci_CaseID = rs_CaseID r, ci_Text = pb_Text b,
     ci_PromisedFor = (case pb_PromisedFor b of None \<Rightarrow> pb_DueAt b | Some t \<Rightarrow> Some t),
     ci_PromisedAmountMinor = pb_PromisedAmountMinor b, ci_Source = rs_Payload r, ci_SourceResponseID = Some (rs_ID r),
     ci_CorrelationID = rs_CorrelationID r, ci_Timezone = pb_Timezone b\<rparr>"

definition CreateFromResponse :: "(string \<times> int) list \<Rightarrow> zone_db \<Rightarrow> (nat \<Rightarrow> ID) \<Rightarrow> time \<Rightarrow> PromiseCreator" where
  "CreateFromResponse weekdays zone fresh now r db =
     (case decode_body (rs_Payload r) of None \<Rightarrow> (Some (ErrMsg ''invalid promise response payload''), db)
      | Some b \<Rightarrow>
          (case promises_Create weekdays zone fresh now (create_input r b) db of
             Inl e \<Rightarrow> (Some e, db) | Inr (_, db) \<Rightarrow> (None, db)))"

section \<open>The other operations\<close>

definition promises_Cancel :: "(nat \<Rightarrow> ID) \<Rightarrow> time \<Rightarrow> ID \<Rightarrow> string \<Rightarrow> PromiseToPay tx" where
  "promises_Cancel fresh now promiseID correlationID =
     CancelPromise (\<lambda>k. fresh (k + 1)) promiseID (if correlationID = [] then fresh 0 else correlationID) now"

definition RunDueCheck :: "Reassessor option \<Rightarrow> (nat \<Rightarrow> ID) \<Rightarrow> (nat \<Rightarrow> time) \<Rightarrow> string \<Rightarrow> Database \<Rightarrow> error option \<times> Database" where
  "RunDueCheck reassessor fresh clock workerID db =
     (case ClaimDuePromise workerID (clock 0) (2 * Minute) db of (Inl e, db) \<Rightarrow> (Some e, db)
      | (Inr promise, db) \<Rightarrow>
          (case ResolveDuePromise fresh (pp_ID promise) (clock 1) db of Inl e \<Rightarrow> (Some e, db)
           | Inr (p, db) \<Rightarrow>
               (case reassessor of Some reassess \<Rightarrow>
                  if pp_Status p = PromiseBroken then reassess (pp_CaseID p) db else (None, db)
                | None \<Rightarrow> (None, db))))"

definition ResolveForDemo :: "Reassessor option \<Rightarrow> (nat \<Rightarrow> ID) \<Rightarrow> time \<Rightarrow> ID \<Rightarrow> string \<Rightarrow> Database
    \<Rightarrow> (error, PromiseToPay \<times> error option) result \<times> Database" where
  "ResolveForDemo reassessor fresh now promiseID wanted db =
     (let wanted = upper (TrimSpace wanted) in
      if wanted \<noteq> ''FULFILLED'' \<and> wanted \<noteq> ''BROKEN''
        then (Inl (ErrMsg ''demo promise outcome must be FULFILLED or BROKEN''), db)
      else
        (case ResolvePromiseForDemo fresh promiseID (if wanted = ''BROKEN'' then PromiseBroken else PromiseFulfilled) now db of
           Inl e \<Rightarrow> (Inl e, db)
         | Inr (p, db) \<Rightarrow>
             (case reassessor of Some reassess \<Rightarrow>
                if wanted = ''BROKEN'' then (case reassess (pp_CaseID p) db of (e, db) \<Rightarrow> (Inr (p, e), db)) else (Inr (p, None), db)
              | None \<Rightarrow> (Inr (p, None), db))))"

section \<open>What becomes of a promise in a response\<close>

lemma CreateFromResponse_fails: "CreateFromResponse weekdays zone f t r db = (Some e, db') \<Longrightarrow> db' = db"
  by (auto simp: CreateFromResponse_def split: option.splits sum.splits)

lemma CreateFromResponse_creates:
  assumes "CreateFromResponse weekdays zone f t r db = (None, db')"
  shows "\<exists>p \<in> set (db_promises db'). pp_SourceResponseID p = Some (rs_ID r)"
proof -
  obtain b where b: "decode_body (rs_Payload r) = Some b"
    using assms by (cases "decode_body (rs_Payload r)") (auto simp: CreateFromResponse_def)
  obtain q created where "promises_Create weekdays zone f t (create_input r b) db = Inr ((q, created), db')"
    using assms b by (cases "promises_Create weekdays zone f t (create_input r b) db") (auto simp: CreateFromResponse_def)
  then obtain x corr where c: "CreatePromise (\<lambda>k. f (k + 2)) (promise_of (f 1) (create_input r b) x) corr db = Inr ((q, created), db')"
    unfolding promises_Create_def
    by (auto simp: andThen_Inr Let_def split: option.splits if_splits)
  have s: "pp_SourceResponseID (promise_of (f 1) (create_input r b) x) = Some (rs_ID r)"
    by (simp only: promise_of_def create_input_def PromiseToPay.select_convs CreateInput.select_convs)
  from c show ?thesis
  proof (cases rule: CreatePromiseD)
    case (existing c)
    then have "q \<in> set (db_promises db) \<and> pp_SourceResponseID q = Some (rs_ID r)"
      using s find_SomeD [of _ "db_promises db" q] by (auto simp: existing_promise_def)
    then show ?thesis using existing by blast
  next
    case (inserted c e d)
    have "new_promise q \<in> set (db_promises db')" by (simp add: append_events_ledger(1) [OF inserted(8)] inserted(7))
    moreover have "pp_SourceResponseID (new_promise q) = Some (rs_ID r)" by (simp add: inserted(2) s [simplified])
    ultimately show ?thesis by blast
  qed
qed

text \<open>An accepted request, and the same request again.\<close>

lemma IngestE:
  assumes "Ingest creator fresh now input db = (Inr (r, created, e), db')"
  obtains v where "r = response_of (fresh 0) now v input"
    "ingest_response creator (\<lambda>k. fresh (k + 1)) r db = (Inr (r, created, e), db')"
    "\<forall>creator2 fresh2 now2 d. Ingest creator2 fresh2 now2 input d
       = ingest_response creator2 (\<lambda>k. fresh2 (k + 1)) (response_of (fresh2 0) now2 v input) d"
proof -
  have ok: "ir_Type input \<in> set validTypes" "ir_CaseID input \<noteq> []" "ir_Source input \<noteq> []" "ir_CorrelationID input \<noteq> []"
    "ir_Payload input \<noteq> BadPayload"
    using assms by (auto simp: Ingest_def split: if_splits payload.splits)
  define v where "v = (case ir_Payload input of Payload v \<Rightarrow> v | _ \<Rightarrow> JObj [])"
  have all: "Ingest creator2 fresh2 now2 input d
      = ingest_response creator2 (\<lambda>k. fresh2 (k + 1)) (response_of (fresh2 0) now2 v input) d" for creator2 fresh2 now2 d
    using ok by (simp add: Ingest_def v_def split: payload.split)
  have run: "ingest_response creator (\<lambda>k. fresh (k + 1)) (response_of (fresh 0) now v input) db = (Inr (r, created, e), db')"
    using assms all by simp
  then have "r = response_of (fresh 0) now v input"
    unfolding ingest_response_def by (auto split: sum.splits option.splits if_splits prod.splits)
  then show ?thesis using that run all by blast
qed

lemma ingest_responseD:
  assumes "ingest_response creator fresh r db = (Inr (r', True, e), db')"
  obtains d where "SaveCustomerResponse fresh r db = Inr (True, d)"
    "(e, db') = (case creator of Some create \<Rightarrow> if rs_Type r = ''PROMISE_TO_PAY'' then create r d else (None, d) | None \<Rightarrow> (None, d))"
  using assms unfolding ingest_response_def by (auto split: sum.splits option.splits if_splits prod.splits)

text \<open>C34. A promise is kept or lost. When a promise in a response is accepted, it is on record with the
  response as its source. When its creation fails, say because the text names no date, the
  response has been stored all the same, and the loss is final: sending the same response again
  reports success without an error, and no promise is ever created from it.\<close>

theorem promise_in_response_kept_or_lost:
  assumes "Ingest (Some (CreateFromResponse weekdays zone f t)) fresh now input db = (Inr (r, True, e), db')"
    and "ir_Type input = ''PROMISE_TO_PAY''"
  shows "case e of
       None \<Rightarrow> \<exists>p \<in> set (db_promises db'). pp_SourceResponseID p = Some (rs_ID r)
     | Some _ \<Rightarrow> db_responses db' = db_responses db @ [r] \<and> db_promises db' = db_promises db
         \<and> (\<forall>weekdays2 zone2 f2 t2 fresh2 now2. \<exists>r2.
              Ingest (Some (CreateFromResponse weekdays2 zone2 f2 t2)) fresh2 now2 input db' = (Inr (r2, False, None), db'))"
proof -
  obtain v where r: "r = response_of (fresh 0) now v input"
    and run: "ingest_response (Some (CreateFromResponse weekdays zone f t)) (\<lambda>k. fresh (k + 1)) r db = (Inr (r, True, e), db')"
    and again: "\<forall>creator2 fresh2 now2 d. Ingest creator2 fresh2 now2 input d
       = ingest_response creator2 (\<lambda>k. fresh2 (k + 1)) (response_of (fresh2 0) now2 v input) d"
    using assms(1) by (rule IngestE)
  obtain d where save: "SaveCustomerResponse (\<lambda>k. fresh (k + 1)) r db = Inr (True, d)"
    and c: "(e, db') = (case Some (CreateFromResponse weekdays zone f t) of
        Some create \<Rightarrow> if rs_Type r = ''PROMISE_TO_PAY'' then create r d else (None, d) | None \<Rightarrow> (None, d))"
    using run by (rule ingest_responseD)
  have c: "CreateFromResponse weekdays zone f t r d = (e, db')" using c assms(2) by (simp add: r response_of_def)
  show ?thesis
  proof (cases e)
    case None
    then show ?thesis using CreateFromResponse_creates c by simp
  next
    case (Some x)
    have d: "db' = d" using CreateFromResponse_fails c Some by blast
    note saved = recorded_facts [OF save]
    have "Ingest (Some (CreateFromResponse weekdays2 zone2 f2 t2)) fresh2 now2 input db'
        = (Inr (response_of (fresh2 0) now2 v input, False, None), db')" for weekdays2 zone2 f2 t2 fresh2 now2
    proof -
      have "SaveCustomerResponse (\<lambda>k. fresh2 (k + 1)) (response_of (fresh2 0) now2 v input) d = Inr (False, d)"
        by (rule saved(4)) (simp_all add: r response_of_def)
      then show ?thesis by (simp add: again d ingest_response_def)
    qed
    then show ?thesis using Some saved(1,2) d by simp
  qed
qed

definition vague_promise :: ResponseInput where
  "vague_promise = \<lparr>ir_ID = ''r2'', ir_CaseID = rc_ID created_case, ir_Type = ''PROMISE_TO_PAY'',
     ir_Payload = Payload (JObj [(''text'', JStr ''soon'')]), ir_Source = ''email'', ir_ReceivedAt = 5, ir_CorrelationID = ''corr2''\<rparr>"

theorem promise_in_response_kept_or_lost_witness:
  "\<exists>r e db r2. Ingest (Some (CreateFromResponse weekday_names (\<lambda>_. None) (ids CHR ''x'') 5)) (ids CHR ''r'') 5 vague_promise waiting_db
       = (Inr (r, True, Some e), db)
     \<and> Ingest (Some (CreateFromResponse weekday_names (\<lambda>_. None) (ids CHR ''x'') 9)) (ids CHR ''s'') 9 vague_promise db = (Inr (r2, False, None), db)"
proof -
  have cre: "CreateFromResponse weekday_names (\<lambda>_. None) (ids CHR ''x'') 5 r d = (Some (ErrMsg ''ambiguous promised date''), d)"
    if "rs_Payload r = Some (JObj [(''text'', JStr ''soon'')])" for r d
  proof -
    have "decode_body (Some (JObj [(''text'', JStr ''soon'')])) = Some \<lparr>pb_Text = ''soon'', pb_PromisedFor = None, pb_DueAt = None,
        pb_PromisedAmountMinor = None, pb_Timezone = []\<rparr>" by (simp add: decode_body_def lower_char_def)
    moreover have "Extract weekday_names ''soon'' None 5 (Some UTC) = Inl (ErrMsg ''ambiguous promised date'')" by code_simp
    ultimately show ?thesis
      using that by (simp add: CreateFromResponse_def promises_Create_def create_input_def)
  qed
  define r where "r = response_of (ids CHR ''r'' 0) 5 (JObj [(''text'', JStr ''soon'')]) vague_promise"
  have r: "rs_CaseID r = rc_ID created_case" "rs_Type r = ''PROMISE_TO_PAY''" "rs_CorrelationID r = ''corr2''"
    "rs_Payload r = Some (JObj [(''text'', JStr ''soon'')])" by (simp_all add: r_def response_of_def vague_promise_def)
  have "\<exists>db. SaveCustomerResponse (\<lambda>k. ids CHR ''r'' (k + 1)) r waiting_db = Inr (True, db)"
    by (rule SaveCustomerResponse_ok [OF waiting_well_formed])
      (auto simp: example_tables validTypes_def ids_def r find_case_def lookup_Cons numeral_2_eq_2 intro: inj_onI)
  then obtain db where s: "SaveCustomerResponse (\<lambda>k. ids CHR ''r'' (k + 1)) r waiting_db = Inr (True, db)" by blast
  have i: "Ingest (Some (CreateFromResponse weekday_names (\<lambda>_. None) (ids CHR ''x'') 5)) (ids CHR ''r'') 5 vague_promise waiting_db
       = (Inr (r, True, Some (ErrMsg ''ambiguous promised date'')), db)"
  proof -
    have "ir_Type vague_promise \<in> set validTypes" "ir_CaseID vague_promise \<noteq> []" "ir_Source vague_promise \<noteq> []"
      "ir_CorrelationID vague_promise \<noteq> []" "ir_Payload vague_promise = Payload (JObj [(''text'', JStr ''soon'')])"
      by (simp_all add: vague_promise_def validTypes_def created_case_eq)
    then show ?thesis using s cre r by (simp add: Ingest_def r_def [symmetric] ingest_response_def)
  qed
  have t: "ir_Type vague_promise = ''PROMISE_TO_PAY''" by (simp add: vague_promise_def)
  show ?thesis using i promise_in_response_kept_or_lost [OF i t] by auto
qed

end
