(* ===== verification/Detection.thy ===== *)
theory Detection
  imports Promises "HOL-Library.Monad_Syntax"
begin

text \<open>
  Package \<open>detection\<close> (\<open>internal/detection\<close>): provider events normalized to leaks, and the
  registration of a leak as a recovery case; with the checkout sessions of
  \<open>internal/store/integrations.go\<close>. Steps commit one by one, so an operation returns its result
  with the state it leaves. The messages of errors leave out the values they quote.
\<close>

section \<open>State\<close>

record CheckoutSession =
  cs_CheckoutID :: string
  cs_MerchantID :: ID
  cs_CustomerID :: ID
  cs_AmountMinor :: int
  cs_Currency :: string
  cs_Stage :: string
  cs_PaymentMethod :: string
  cs_ValidUntil :: time

datatype WebhookStatus = WebhookReceived | WebhookProcessed | WebhookFailed

record WebhookRecord =
  wh_ProviderEventID :: string
  wh_EventType :: string
  wh_SignatureStatus :: string
  wh_Status :: WebhookStatus
  wh_Payload :: RawMessage
  wh_ProviderReferences :: RawMessage
  wh_ReceivedAt :: time
  wh_ProcessedAt :: "time option"

text \<open>The database together with the two tables only the intake of events uses.\<close>

record Intake =
  in_db :: Database
  in_checkouts :: "CheckoutSession list"
  in_webhooks :: "WebhookRecord list"

section \<open>Leaks\<close>

record NormalizedLeak =
  nl_Provider :: string
  nl_ProviderEventID :: string
  nl_EventType :: string
  nl_LeakType :: LeakType
  nl_MerchantID :: ID
  nl_CustomerID :: ID
  nl_AmountMinor :: int
  nl_Currency :: string
  nl_SourceReference :: string
  nl_SourceStatus :: string
  nl_FailureCategory :: string
  nl_OccurredAt :: time
  nl_RecoveryDeadline :: time
  nl_ProviderReferences :: RawMessage
  nl_Context :: RawMessage

definition Validate :: "NormalizedLeak \<Rightarrow> error option" where
  "Validate n =
     (if nl_MerchantID n = [] \<or> nl_CustomerID n = [] \<or> nl_SourceReference n = [] \<or> nl_ProviderEventID n = []
        then Some (ErrMsg ''merchant_id, customer_id, source_reference and provider_event_id are required'')
      else if nl_AmountMinor n \<le> 0 \<or> length (nl_Currency n) \<noteq> 3
        then Some (ErrMsg ''amount_minor must be positive and currency must contain 3 letters'')
      else if nl_LeakType n \<noteq> FailedSubscription \<and> nl_LeakType n \<noteq> CheckoutAbandonment
        then Some (ErrMsg ''unsupported leak type'')
      else if IsZero (nl_OccurredAt n) \<or> \<not> nl_OccurredAt n < nl_RecoveryDeadline n
        then Some (ErrMsg ''valid occurred_at and later recovery_deadline are required'')
      else None)"

type_synonym Adapter = "RawMessage \<Rightarrow> string \<Rightarrow> Intake \<Rightarrow> (error, NormalizedLeak option) result \<times> Intake"

section \<open>Decoding\<close>

text \<open>
  A member into a field that is not a pointer: \<open>null\<close> leaves the field as it is, a value of the
  wrong type fails the decoding, the last member of a name counts. \<open>json.RawMessage\<close> takes any
  value, \<open>null\<close> too.
\<close>

fun decode_value :: "(json \<Rightarrow> 'a option) \<Rightarrow> (string \<times> json) list \<Rightarrow> string \<Rightarrow> 'a \<Rightarrow> 'a option" where
  "decode_value dec [] k acc = Some acc"
| "decode_value dec ((n, v) # kvs) k acc =
     (if lower n \<noteq> k \<or> v = JNull then decode_value dec kvs k acc
      else (case dec v of None \<Rightarrow> None | Some x \<Rightarrow> decode_value dec kvs k x))"

fun decode_raw :: "(string \<times> json) list \<Rightarrow> string \<Rightarrow> RawMessage \<Rightarrow> RawMessage" where
  "decode_raw [] k acc = acc"
| "decode_raw ((n, v) # kvs) k acc = decode_raw kvs k (if lower n = k then Some v else acc)"

fun json_string :: "json \<Rightarrow> string option" where
  "json_string (JStr s) = Some s"
| "json_string _ = None"

text \<open>
  A member decoded into a struct inside a struct: the members of every object of that name, in
  order; \<open>null\<close> leaves it as it is.
\<close>

fun nested :: "(string \<times> json) list \<Rightarrow> string \<Rightarrow> (string \<times> json) list option" where
  "nested [] k = Some []"
| "nested ((n, v) # kvs) k =
     (if lower n \<noteq> k then nested kvs k
      else (case v of JObj m \<Rightarrow> map_option ((@) m) (nested kvs k) | JNull \<Rightarrow> nested kvs k | _ \<Rightarrow> None))"

text \<open>The members of a value decoded into a struct; \<open>null\<close> leaves the struct as it is.\<close>

definition members :: "RawMessage \<Rightarrow> (string \<times> json) list option" where
  "members raw = (case raw of Some (JObj kvs) \<Rightarrow> Some kvs | Some JNull \<Rightarrow> Some [] | _ \<Rightarrow> None)"

section \<open>Subscription events\<close>

record SubscriptionEvent =
  se_EventType :: string
  se_MerchantID :: ID
  se_CustomerID :: ID
  se_AmountMinor :: int
  se_Currency :: string
  se_PaymentID :: string
  se_SubscriptionID :: string
  se_OrderID :: string
  se_FailureCode :: string
  se_FailureCategory :: string
  se_OccurredAt :: time
  se_RecoveryWindowHours :: int
  se_Metadata :: RawMessage

definition subscriptionEvents :: "string list" where
  "subscriptionEvents = [''payment.failed'', ''subscription.pending'', ''subscription.halted'', ''mandate.failed'',
     ''payment.mandate.failed'']"

definition decode_subscription :: "RawMessage \<Rightarrow> SubscriptionEvent option" where
  "decode_subscription raw = do {
     kvs \<leftarrow> members raw;
     let text = (\<lambda>k. decode_value json_string kvs k []);
     type \<leftarrow> text ''event_type'';
     merchant \<leftarrow> text ''merchant_id'';
     customer \<leftarrow> text ''customer_id'';
     amount \<leftarrow> decode_value json_int64 kvs ''amount_minor'' 0;
     currency \<leftarrow> text ''currency'';
     payment \<leftarrow> text ''payment_id'';
     subscription \<leftarrow> text ''subscription_id'';
     order \<leftarrow> text ''order_id'';
     code \<leftarrow> text ''failure_code'';
     category \<leftarrow> text ''failure_category'';
     occurred \<leftarrow> decode_value json_time kvs ''occurred_at'' 0;
     window \<leftarrow> decode_value json_int64 kvs ''recovery_window_hours'' 0;
     Some \<lparr>se_EventType = type, se_MerchantID = merchant, se_CustomerID = customer, se_AmountMinor = amount,
       se_Currency = currency, se_PaymentID = payment, se_SubscriptionID = subscription, se_OrderID = order,
       se_FailureCode = code, se_FailureCategory = category, se_OccurredAt = occurred,
       se_RecoveryWindowHours = window, se_Metadata = decode_raw kvs ''metadata'' None\<rparr>
   }"

definition normalizeFailureCode :: "string \<Rightarrow> string" where
  "normalizeFailureCode code =
     (if code \<in> {''BAD_REQUEST_PAYMENT_CARD_INSUFFICIENT_BALANCE'', ''insufficient_funds''} then ''INSUFFICIENT_FUNDS''
      else if code \<in> {''BAD_REQUEST_PAYMENT_CARD_EXPIRED'', ''invalid_payment_method''} then ''PAYMENT_METHOD_INVALID''
      else if code \<in> {''mandate_failed'', ''mandate_revoked''} then ''MANDATE_FAILURE''
      else if code \<in> {''hard_decline'', ''payment_not_allowed''} then ''HARD_DECLINE''
      else if code \<in> {''gateway_timeout'', ''bank_unavailable'', ''server_error''} then ''TEMPORARY_BANK_FAILURE''
      else ''CUSTOMER_INTENT_OR_UNKNOWN'')"

text \<open>\<open>event.OccurredAt.Add(time.Duration(hours) * time.Hour)\<close>: the product wraps at 64 bits.\<close>

definition window_end :: "time \<Rightarrow> int \<Rightarrow> time" where
  "window_end occurred hours = occurred + i64 (hours * Hour)"

definition references_json :: "(string \<times> string) list \<Rightarrow> json" where
  "references_json kvs = sorted_object (map (\<lambda>(k, v). (k, JStr v)) kvs)"

definition leak_of_subscription :: "string \<Rightarrow> string \<Rightarrow> SubscriptionEvent \<Rightarrow> NormalizedLeak" where
  "leak_of_subscription provider providerEventID e =
     (let hours = (if se_RecoveryWindowHours e \<le> 0 then 7 * 24 else se_RecoveryWindowHours e) in
      \<lparr>nl_Provider = (if provider = [] then ''normalized'' else provider), nl_ProviderEventID = providerEventID,
       nl_EventType = se_EventType e, nl_LeakType = FailedSubscription, nl_MerchantID = se_MerchantID e,
       nl_CustomerID = se_CustomerID e, nl_AmountMinor = se_AmountMinor e, nl_Currency = se_Currency e,
       nl_SourceReference = (if se_SubscriptionID e = [] then se_PaymentID e else se_SubscriptionID e),
       nl_SourceStatus = ''FAILED'',
       nl_FailureCategory = (if se_FailureCategory e = [] then normalizeFailureCode (se_FailureCode e) else se_FailureCategory e),
       nl_OccurredAt = se_OccurredAt e, nl_RecoveryDeadline = window_end (se_OccurredAt e) hours,
       nl_ProviderReferences = Some (references_json [(''payment_id'', se_PaymentID e),
         (''subscription_id'', se_SubscriptionID e), (''order_id'', se_OrderID e)]),
       nl_Context = se_Metadata e\<rparr>)"

definition SubscriptionAdapter :: "string \<Rightarrow> Adapter" where
  "SubscriptionAdapter provider payload providerEventID s =
     (case decode_subscription payload of None \<Rightarrow> (Inl (ErrMsg ''decode subscription event''), s)
      | Some e \<Rightarrow>
          if se_EventType e \<notin> set subscriptionEvents then (Inl (ErrMsg ''unsupported subscription event''), s)
          else if se_SubscriptionID e = [] \<and> se_PaymentID e = [] then (Inl (ErrMsg ''payment_id or subscription_id is required''), s)
          else (Inr (Some (leak_of_subscription provider providerEventID e)), s))"

section \<open>Checkouts\<close>

record CheckoutEvent =
  ce_EventType :: string
  ce_CheckoutID :: string
  ce_MerchantID :: ID
  ce_CustomerID :: ID
  ce_AmountMinor :: int
  ce_Currency :: string
  ce_CheckoutStage :: string
  ce_PaymentMethod :: string
  ce_FailureCode :: string
  ce_AbandonmentReason :: string
  ce_OccurredAt :: time
  ce_ValidUntil :: time
  ce_Metadata :: RawMessage

definition decode_checkout :: "RawMessage \<Rightarrow> CheckoutEvent option" where
  "decode_checkout raw = do {
     kvs \<leftarrow> members raw;
     let text = (\<lambda>k. decode_value json_string kvs k []);
     type \<leftarrow> text ''event_type'';
     checkout \<leftarrow> text ''checkout_id'';
     merchant \<leftarrow> text ''merchant_id'';
     customer \<leftarrow> text ''customer_id'';
     amount \<leftarrow> decode_value json_int64 kvs ''amount_minor'' 0;
     currency \<leftarrow> text ''currency'';
     stage \<leftarrow> text ''checkout_stage'';
     method \<leftarrow> text ''payment_method'';
     code \<leftarrow> text ''failure_code'';
     reason \<leftarrow> text ''abandonment_reason'';
     occurred \<leftarrow> decode_value json_time kvs ''occurred_at'' 0;
     valid \<leftarrow> decode_value json_time kvs ''valid_until'' 0;
     Some \<lparr>ce_EventType = type, ce_CheckoutID = checkout, ce_MerchantID = merchant, ce_CustomerID = customer,
       ce_AmountMinor = amount, ce_Currency = currency, ce_CheckoutStage = stage, ce_PaymentMethod = method,
       ce_FailureCode = code, ce_AbandonmentReason = reason, ce_OccurredAt = occurred, ce_ValidUntil = valid,
       ce_Metadata = decode_raw kvs ''metadata'' None\<rparr>
   }"

definition GetCheckout :: "string \<Rightarrow> Intake \<Rightarrow> CheckoutSession option" where
  "GetCheckout i s = lookup cs_CheckoutID i (in_checkouts s)"

text \<open>\<open>CHAR(3)\<close>: padded with spaces, only spaces may exceed it.\<close>

definition char3 :: "string \<Rightarrow> string option" where
  "char3 v = (if list_all (\<lambda>c. c = CHR '' '') (drop 3 v) then Some (take 3 v @ replicate (3 - length v) (CHR '' '')) else None)"

text \<open>
  \<open>INSERT ... ON CONFLICT(checkout_id) DO UPDATE\<close>: the checks of the table are made on the
  proposed row, the foreign keys on the row that is stored; a conflict updates the stage, the
  payment method and the validity only.
\<close>

definition UpsertCheckout :: "CheckoutSession \<Rightarrow> Intake \<Rightarrow> (error, Intake) result" where
  "UpsertCheckout c s =
     (if cs_AmountMinor c \<le> 0 then Inl (ErrConstraint ''checkout_sessions_amount_minor_check'')
      else if char3 (cs_Currency c) = None then Inl (ErrMsg ''value too long for type character(3)'')
      else if GetCheckout (cs_CheckoutID c) s \<noteq> None then
        Inr (s\<lparr>in_checkouts := modify cs_CheckoutID (cs_CheckoutID c) (\<lambda>x. x\<lparr>cs_Stage := cs_Stage c,
          cs_PaymentMethod := cs_PaymentMethod c, cs_ValidUntil := cs_ValidUntil c\<rparr>) (in_checkouts s)\<rparr>)
      else if lookup m_ID (cs_MerchantID c) (db_merchants (in_db s)) = None
        then Inl (ErrConstraint ''checkout_sessions_merchant_id_fkey'')
      else if lookup cu_ID (cs_CustomerID c) (db_customers (in_db s)) = None
        then Inl (ErrConstraint ''checkout_sessions_customer_id_fkey'')
      else Inr (s\<lparr>in_checkouts := in_checkouts s @ [c\<lparr>cs_Currency := the (char3 (cs_Currency c))\<rparr>]\<rparr>))"

definition new_session :: "CheckoutEvent \<Rightarrow> CheckoutSession" where
  "new_session e =
     \<lparr>cs_CheckoutID = ce_CheckoutID e, cs_MerchantID = ce_MerchantID e, cs_CustomerID = ce_CustomerID e,
      cs_AmountMinor = ce_AmountMinor e, cs_Currency = ce_Currency e, cs_Stage = ce_CheckoutStage e, cs_PaymentMethod = [],
      cs_ValidUntil = (if IsZero (ce_ValidUntil e) then ce_OccurredAt e + 24 * Hour else ce_ValidUntil e)\<rparr>"

definition next_session :: "CheckoutEvent \<Rightarrow> CheckoutSession \<Rightarrow> CheckoutSession" where
  "next_session e c = c\<lparr>cs_Stage := (if ce_CheckoutStage e \<noteq> [] then ce_CheckoutStage e else cs_Stage c),
     cs_PaymentMethod := (if ce_PaymentMethod e \<noteq> [] then ce_PaymentMethod e else cs_PaymentMethod c)\<rparr>"

definition checkout_category :: "CheckoutEvent \<Rightarrow> string" where
  "checkout_category e =
     (if ce_EventType e = ''CHECKOUT_PAYMENT_FAILED'' then
        (if ce_FailureCode e = ''method_mismatch'' then ''PAYMENT_METHOD_MISMATCH'' else ''PAYMENT_FAILURE'')
      else if ce_AbandonmentReason e = ''payment_friction'' then ''PAYMENT_FRICTION''
      else if ce_AbandonmentReason e = ''method_mismatch'' then ''PAYMENT_METHOD_MISMATCH''
      else if ce_AbandonmentReason e = ''delayed_intent'' then ''DELAYED_INTENT''
      else if ce_AbandonmentReason e = ''price_hesitation'' then ''PRICE_OR_VALUE_HESITATION''
      else ''UNKNOWN_ABANDONMENT'')"

text \<open>\<open>json.Marshal\<close> of a raw message: \<open>null\<close> when it is empty, its value with compacted text.\<close>

definition raw_json :: "RawMessage \<Rightarrow> json" where
  "raw_json r = (case r of None \<Rightarrow> JNull | Some v \<Rightarrow> v)"

definition leak_of_checkout :: "string \<Rightarrow> CheckoutEvent \<Rightarrow> CheckoutSession \<Rightarrow> NormalizedLeak" where
  "leak_of_checkout providerEventID e c =
     \<lparr>nl_Provider = ''checkout-demo'', nl_ProviderEventID = providerEventID, nl_EventType = ce_EventType e,
      nl_LeakType = CheckoutAbandonment, nl_MerchantID = cs_MerchantID c, nl_CustomerID = cs_CustomerID c,
      nl_AmountMinor = cs_AmountMinor c, nl_Currency = cs_Currency c, nl_SourceReference = cs_CheckoutID c,
      nl_SourceStatus = ''ABANDONED'', nl_FailureCategory = checkout_category e, nl_OccurredAt = ce_OccurredAt e,
      nl_RecoveryDeadline = cs_ValidUntil c, nl_ProviderReferences = emptyObject,
      nl_Context = Some (sorted_object [(''checkout_stage'', JStr (cs_Stage c)), (''payment_method'', JStr (cs_PaymentMethod c)),
        (''failure_code'', JStr (ce_FailureCode e)), (''metadata'', raw_json (ce_Metadata e))])\<rparr>"

definition CheckoutAdapter :: Adapter where
  "CheckoutAdapter payload providerEventID s =
     (case decode_checkout payload of None \<Rightarrow> (Inl (ErrMsg ''decode checkout event''), s)
      | Some e \<Rightarrow>
          if ce_CheckoutID e = [] \<or> ce_EventType e = [] then (Inl (ErrMsg ''checkout_id and event_type are required''), s)
          else
            (case (if ce_EventType e = ''CHECKOUT_STARTED'' then Some (new_session e)
                   else map_option (next_session e) (GetCheckout (ce_CheckoutID e) s)) of
               None \<Rightarrow> (Inl (ErrMsg ''checkout state not found''), s)
             | Some c \<Rightarrow>
                 (case UpsertCheckout c s of Inl err \<Rightarrow> (Inl err, s)
                  | Inr s \<Rightarrow>
                      if ce_EventType e \<in> {''CHECKOUT_STARTED'', ''CHECKOUT_PAYMENT_SELECTED''} then (Inr None, s)
                      else if ce_EventType e \<notin> {''CHECKOUT_PAYMENT_FAILED'', ''CHECKOUT_ABANDONED''}
                        then (Inl (ErrMsg ''unsupported checkout event''), s)
                      else if \<not> ce_OccurredAt e < cs_ValidUntil c
                        then (Inl (ErrMsg ''checkout is expired and not recoverable''), s)
                      else (Inr (Some (leak_of_checkout providerEventID e c)), s))))"

section \<open>Detection\<close>

text \<open>The time of the event is written in UTC; the code keeps the offset it was sent with.\<close>

definition failure_context :: "NormalizedLeak \<Rightarrow> json" where
  "failure_context n = sorted_object [(''provider'', JStr (nl_Provider n)), (''provider_event_id'', JStr (nl_ProviderEventID n)),
     (''source_event_type'', JStr (nl_EventType n)), (''failure_category'', JStr (nl_FailureCategory n)),
     (''occurred_at'', JStr (format_time (nl_OccurredAt n))), (''provider_references'', raw_json (nl_ProviderReferences n)),
     (''adapter_context'', raw_json (nl_Context n))]"

definition case_input :: "NormalizedLeak \<Rightarrow> CreateCaseInput" where
  "case_input n =
     \<lparr>ci_LeakType = nl_LeakType n, ci_MerchantID = nl_MerchantID n, ci_CustomerID = nl_CustomerID n,
      ci_AmountAtRiskMinor = nl_AmountMinor n, ci_Currency = upper (nl_Currency n),
      ci_SourceReference = nl_SourceReference n, ci_SourceStatus = nl_SourceStatus n,
      ci_FailureOrLeakContext = Some (failure_context n), ci_CustomerContextSnapshot = None,
      ci_MerchantPolicySnapshot = None, ci_RecoveryDeadline = nl_RecoveryDeadline n,
      ci_Actor = \<lparr>actor_Type = ''SYSTEM'', actor_ID = ''detection:'' @ nl_Provider n\<rparr>, CreateCaseInput.ci_CorrelationID = nl_ProviderEventID n\<rparr>"

record DetectionResult =
  dt_Case :: "RecoveryCase option"
  dt_Created :: bool
  dt_RiskDetected :: bool

definition Detect :: "Adapter \<Rightarrow> (nat \<Rightarrow> ID) \<Rightarrow> time \<Rightarrow> RawMessage \<Rightarrow> string \<Rightarrow> Intake
    \<Rightarrow> (error, DetectionResult) result \<times> Intake" where
  "Detect adapter fresh now payload providerEventID s =
     (case adapter payload providerEventID s of (Inl e, s) \<Rightarrow> (Inl e, s)
      | (Inr None, s) \<Rightarrow> (Inr \<lparr>dt_Case = None, dt_Created = False, dt_RiskDetected = False\<rparr>, s)
      | (Inr (Some leak), s) \<Rightarrow>
          (case Validate leak of Some e \<Rightarrow> (Inl e, s)
           | None \<Rightarrow>
               (case GetCaseBySource (nl_MerchantID leak) (nl_SourceReference leak) (in_db s) of
                  Inr c \<Rightarrow> (Inr \<lparr>dt_Case = Some c, dt_Created = False, dt_RiskDetected = True\<rparr>, s)
                | Inl e \<Rightarrow>
                    if e \<noteq> ErrNotFound then (Inl e, s)
                    else (case service_CreateCase fresh now (case_input leak) (in_db s) of Inl e \<Rightarrow> (Inl e, s)
                      | Inr (c, db) \<Rightarrow> (Inr \<lparr>dt_Case = Some c, dt_Created = True, dt_RiskDetected = True\<rparr>, s\<lparr>in_db := db\<rparr>)))))"

section \<open>What detection does\<close>

lemma UpsertCheckout_tables:
  assumes "UpsertCheckout c s = Inr s'"
  shows "in_db s' = in_db s" "in_webhooks s' = in_webhooks s"
  using assms by (auto simp: UpsertCheckout_def split: if_splits)

text \<open>An adapter leaves the database alone.\<close>

definition reads_only :: "Adapter \<Rightarrow> bool" where
  "reads_only adapter \<longleftrightarrow> (\<forall>payload i s r s'. adapter payload i s = (r, s') \<longrightarrow> in_db s' = in_db s \<and> in_webhooks s' = in_webhooks s)"

lemma SubscriptionAdapter_pure: "SubscriptionAdapter p payload i s = (r, s') \<Longrightarrow> s' = s"
  by (auto simp: SubscriptionAdapter_def split: option.splits if_splits)

lemma reads_only_subscription: "reads_only (SubscriptionAdapter p)"
  by (auto simp: reads_only_def dest: SubscriptionAdapter_pure)

lemma CheckoutAdapter_stored:
  assumes "CheckoutAdapter payload i s = (r, s')"
  shows "s' = s \<or> (\<exists>c. UpsertCheckout c s = Inr s')"
  using assms
  by (auto simp: CheckoutAdapter_def split: option.splits if_splits sum.splits)

lemma reads_only_checkout: "reads_only CheckoutAdapter"
  unfolding reads_only_def using CheckoutAdapter_stored UpsertCheckout_tables by metis

lemma GetCaseBySource_Inr:
  assumes "GetCaseBySource m source db = Inr c" and "well_formed db"
  shows "rc_MerchantID c = m" "rc_SourceReference c = source" "find_case db (rc_ID c) = Some c"
proof -
  have f: "find (\<lambda>c. rc_MerchantID c = m \<and> rc_SourceReference c = source) (db_cases db) = Some c"
    using assms(1) by (auto simp: GetCaseBySource_def split: option.splits)
  then show "rc_MerchantID c = m" "rc_SourceReference c = source" by (auto simp: find_Some_iff)
  have "c \<in> set (db_cases db)" using f unfolding find_Some_iff by (metis nth_mem)
  then show "find_case db (rc_ID c) = Some c"
    using assms(2) by (simp add: find_case_def well_formed_def lookup_keyed)
qed

lemma GetCaseBySource_Inl: "GetCaseBySource m source db = Inl e \<Longrightarrow> e = ErrNotFound
    \<and> (\<forall>c \<in> set (db_cases db). \<not> (rc_MerchantID c = m \<and> rc_SourceReference c = source))"
  by (auto simp: GetCaseBySource_def find_None_iff split: option.splits)

lemma GetCaseBySource_only:
  assumes "well_formed db" and "find_case db i = Some c"
  shows "GetCaseBySource (rc_MerchantID c) (rc_SourceReference c) db = Inr c"
proof -
  have c: "c \<in> set (db_cases db)" using assms(2) by (auto simp: find_case_def dest: lookup_SomeD)
  obtain d where d: "find (\<lambda>d. rc_MerchantID d = rc_MerchantID c \<and> rc_SourceReference d = rc_SourceReference c) (db_cases db) = Some d"
    using c by (cases "find (\<lambda>d. rc_MerchantID d = rc_MerchantID c \<and> rc_SourceReference d = rc_SourceReference c) (db_cases db)")
      (auto simp: find_None_iff)
  then have "d \<in> set (db_cases db)" "rc_MerchantID d = rc_MerchantID c" "rc_SourceReference d = rc_SourceReference c"
    unfolding find_Some_iff by (metis nth_mem)+
  then have "d = c" using c assms(1) by (auto simp: well_formed_def sources_distinct_def distinct_map inj_on_def)
  then show ?thesis using d by (simp add: GetCaseBySource_def)
qed

lemma DetectE:
  assumes "Detect adapter fresh now payload i s = (Inr r, s')"
  obtains (no_risk) "adapter payload i s = (Inr None, s')" "dt_Case r = None" "\<not> dt_Created r" "\<not> dt_RiskDetected r"
  | (known) leak c where "adapter payload i s = (Inr (Some leak), s')" "Validate leak = None"
      "GetCaseBySource (nl_MerchantID leak) (nl_SourceReference leak) (in_db s') = Inr c"
      "r = \<lparr>dt_Case = Some c, dt_Created = False, dt_RiskDetected = True\<rparr>"
  | (registered) leak s1 c db where "adapter payload i s = (Inr (Some leak), s1)" "Validate leak = None"
      "GetCaseBySource (nl_MerchantID leak) (nl_SourceReference leak) (in_db s1) = Inl ErrNotFound"
      "service_CreateCase fresh now (case_input leak) (in_db s1) = Inr (c, db)" "s' = s1\<lparr>in_db := db\<rparr>"
      "r = \<lparr>dt_Case = Some c, dt_Created = True, dt_RiskDetected = True\<rparr>"
proof -
  obtain x s1 where x: "adapter payload i s = (x, s1)" by (metis prod.exhaust)
  show ?thesis
  proof (cases x)
    case (Inl e)
    then show ?thesis using assms x by (simp add: Detect_def)
  next
    case (Inr o')
    show ?thesis
    proof (cases o')
      case None
      then show ?thesis using assms x Inr no_risk by (auto simp: Detect_def)
    next
      case (Some leak)
      note run = assms [unfolded Detect_def x prod.case Inr sum.case Some option.case]
      have v: "Validate leak = None" using run by (cases "Validate leak") simp_all
      show ?thesis
      proof (cases "GetCaseBySource (nl_MerchantID leak) (nl_SourceReference leak) (in_db s1)")
        case (Inr c)
        then show ?thesis using run v known x \<open>x = Inr o'\<close> Some by auto
      next
        case (Inl e)
        then have e: "e = ErrNotFound" using GetCaseBySource_Inl by blast
        obtain c db where c: "service_CreateCase fresh now (case_input leak) (in_db s1) = Inr (c, db)"
          using run v Inl e by (cases "service_CreateCase fresh now (case_input leak) (in_db s1)") auto
        show ?thesis using run v Inl e c registered x \<open>x = Inr o'\<close> Some by auto
      qed
    qed
  qed
qed

lemma ValidateD:
  assumes "Validate n = None"
  shows "nl_MerchantID n \<noteq> []" "nl_CustomerID n \<noteq> []" "nl_SourceReference n \<noteq> []" "nl_ProviderEventID n \<noteq> []"
    "0 < nl_AmountMinor n" "length (nl_Currency n) = 3" "nl_OccurredAt n < nl_RecoveryDeadline n"
  using assms by (auto simp: Validate_def split: if_splits)

lemma CreateCase_input:
  assumes "service_CreateCase fresh now input db = Inr (c, db')"
  shows "rc_MerchantID c = Recovery.ci_MerchantID input" "rc_SourceReference c = ci_SourceReference input"
    "rc_AmountAtRiskMinor c = ci_AmountAtRiskMinor input" "rc_RecoveryDeadline c = ci_RecoveryDeadline input"
    "rc_LeakType c = ci_LeakType input"
  by (rule service_CreateCaseD [OF assms], simp add: case_of_input_def)+

section \<open>Properties\<close>

lemma subscription_again:
  assumes "SubscriptionAdapter p payload i s = (Inr (Some leak), s1)" and "Validate leak = None"
    and "GetCaseBySource (nl_MerchantID leak) (nl_SourceReference leak) (in_db s') = Inr c"
  shows "Detect (SubscriptionAdapter p) fresh2 now2 payload i s' = (Inr \<lparr>dt_Case = Some c, dt_Created = False, dt_RiskDetected = True\<rparr>, s')"
proof -
  have "SubscriptionAdapter p payload i s' = (Inr (Some leak), s')"
    using assms(1) by (auto simp: SubscriptionAdapter_def split: option.splits if_splits)
  then show ?thesis using assms(2,3) by (simp add: Detect_def)
qed

text \<open>C24. An event registers a leak at most once. A detection that reports no risk leaves the cases as
  they are. One that reports risk returns a stored case of the leak's merchant and source: an
  existing one, and then the database is unchanged, or a new one, when the merchant had none
  with that source, which is DETECTED with the leak's amount and deadline at version 1 and
  leaves every other case alone. The same subscription event sent again, at any time, creates
  nothing and returns the same case.\<close>

theorem leak_registered_once:
  assumes "Detect adapter fresh now payload i s = (Inr r, s')" and "adapter = SubscriptionAdapter p \<or> adapter = CheckoutAdapter"
    and "well_formed (in_db s)"
  shows "well_formed (in_db s') \<and> in_webhooks s' = in_webhooks s
    \<and> (\<not> dt_RiskDetected r \<longrightarrow> dt_Case r = None \<and> in_db s' = in_db s)
    \<and> (dt_RiskDetected r \<longrightarrow> (\<exists>c leak s1. dt_Case r = Some c \<and> adapter payload i s = (Inr (Some leak), s1)
        \<and> find_case (in_db s') (rc_ID c) = Some c
        \<and> rc_MerchantID c = nl_MerchantID leak \<and> rc_SourceReference c = nl_SourceReference leak
        \<and> (\<not> dt_Created r \<longrightarrow> in_db s' = in_db s)
        \<and> (dt_Created r \<longrightarrow> (\<forall>x \<in> set (db_cases (in_db s)). \<not> (rc_MerchantID x = nl_MerchantID leak \<and> rc_SourceReference x = nl_SourceReference leak))
            \<and> rc_CurrentState c = StateDetected \<and> rc_Version c = 1 \<and> rc_AmountAtRiskMinor c = nl_AmountMinor leak \<and> 0 < nl_AmountMinor leak
            \<and> rc_RecoveryDeadline c = nl_RecoveryDeadline leak \<and> now < nl_RecoveryDeadline leak
            \<and> (\<forall>j. j \<noteq> rc_ID c \<longrightarrow> find_case (in_db s') j = find_case (in_db s) j))
        \<and> (adapter = SubscriptionAdapter p \<longrightarrow> Detect adapter fresh2 now2 payload i s'
             = (Inr \<lparr>dt_Case = Some c, dt_Created = False, dt_RiskDetected = True\<rparr>, s'))))"
proof -
  have ro: "reads_only adapter" using assms(2) reads_only_subscription reads_only_checkout by auto
  show ?thesis
    using assms(1)
  proof (cases rule: DetectE)
    case no_risk
    then show ?thesis using ro assms(3) by (auto simp: reads_only_def)
  next
    case (known leak c)
    have same: "in_db s' = in_db s" "in_webhooks s' = in_webhooks s" using ro known(1) by (auto simp: reads_only_def)
    note g = GetCaseBySource_Inr [OF known(3)]
    have "Detect adapter fresh2 now2 payload i s' = (Inr \<lparr>dt_Case = Some c, dt_Created = False, dt_RiskDetected = True\<rparr>, s')"
      if a: "adapter = SubscriptionAdapter p"
      unfolding a by (rule subscription_again [OF known(1) [unfolded a] known(2,3)])
    then show ?thesis using same g assms(3) known by auto
  next
    case (registered leak s1 c db)
    have same: "in_db s1 = in_db s" "in_webhooks s1 = in_webhooks s" using ro registered(1) by (auto simp: reads_only_def)
    have wf: "well_formed (in_db s1)" using assms(3) same by simp
    note f = create_case_facts [OF registered(4) wf] and k = CreateCase_input [OF registered(4)] and v = ValidateD [OF registered(2)]
    have key: "rc_MerchantID c = nl_MerchantID leak" "rc_SourceReference c = nl_SourceReference leak"
      "rc_AmountAtRiskMinor c = nl_AmountMinor leak" "rc_RecoveryDeadline c = nl_RecoveryDeadline leak"
      using k by (simp_all add: case_input_def)
    have found: "find_case (in_db s') (rc_ID c) = Some c" and w': "well_formed (in_db s')" using f registered(5) by simp_all
    have "Detect adapter fresh2 now2 payload i s' = (Inr \<lparr>dt_Case = Some c, dt_Created = False, dt_RiskDetected = True\<rparr>, s')"
      if a: "adapter = SubscriptionAdapter p"
      unfolding a using GetCaseBySource_only [OF w' found] key
      by (intro subscription_again [OF registered(1) [unfolded a] registered(2)]) simp
    moreover have "\<forall>x \<in> set (db_cases (in_db s)). \<not> (rc_MerchantID x = nl_MerchantID leak \<and> rc_SourceReference x = nl_SourceReference leak)"
      using GetCaseBySource_Inl [OF registered(3)] same by simp
    ultimately show ?thesis using f key v found w' registered same by auto
  qed
qed

text \<open>A checkout keeps what it started with: after any event its merchant, customer, amount and
  currency are those of the first event stored, also when it is started again; a failed or
  abandoned payment of an unknown checkout is refused, and a leak is raised only by those two
  events, while the checkout is valid, for the stored merchant, customer and amount.\<close>

theorem checkout_is_fixed:
  assumes "CheckoutAdapter payload i s = (r, s')" and "keyed cs_CheckoutID (in_checkouts s)"
  shows "keyed cs_CheckoutID (in_checkouts s')
    \<and> (\<forall>c. GetCheckout k s = Some c \<longrightarrow> (\<exists>c'. GetCheckout k s' = Some c' \<and> cs_MerchantID c' = cs_MerchantID c
          \<and> cs_CustomerID c' = cs_CustomerID c \<and> cs_AmountMinor c' = cs_AmountMinor c \<and> cs_Currency c' = cs_Currency c))
    \<and> (\<forall>leak. r = Inr (Some leak) \<longrightarrow> nl_EventType leak \<in> {''CHECKOUT_PAYMENT_FAILED'', ''CHECKOUT_ABANDONED''}
        \<and> nl_OccurredAt leak < nl_RecoveryDeadline leak
        \<and> (\<exists>c. GetCheckout (nl_SourceReference leak) s = Some c \<and> nl_MerchantID leak = cs_MerchantID c
             \<and> nl_CustomerID leak = cs_CustomerID c \<and> nl_AmountMinor leak = cs_AmountMinor c \<and> nl_RecoveryDeadline leak = cs_ValidUntil c))"
proof (intro conjI allI impI)
  have id: "s' = s \<or> (\<exists>c. UpsertCheckout c s = Inr s')" using CheckoutAdapter_stored [OF assms(1)] .
  show "keyed cs_CheckoutID (in_checkouts s')"
    using id assms(2) by (auto simp: UpsertCheckout_def keyed_modify keyed_append GetCheckout_def split: if_splits)
  show "\<exists>c'. GetCheckout k s' = Some c' \<and> cs_MerchantID c' = cs_MerchantID c \<and> cs_CustomerID c' = cs_CustomerID c
      \<and> cs_AmountMinor c' = cs_AmountMinor c \<and> cs_Currency c' = cs_Currency c" if "GetCheckout k s = Some c" for c
    using id that by (auto simp: UpsertCheckout_def GetCheckout_def lookup_modify lookup_append split: if_splits)
next
  fix leak assume r: "r = Inr (Some leak)"
  obtain e where e: "decode_checkout payload = Some e"
    using assms(1) r by (cases "decode_checkout payload") (simp_all add: CheckoutAdapter_def)
  define found where "found = (if ce_EventType e = ''CHECKOUT_STARTED'' then Some (new_session e)
                   else map_option (next_session e) (GetCheckout (ce_CheckoutID e) s))"
  have req: "\<not> (ce_CheckoutID e = [] \<or> ce_EventType e = [])" using assms(1) r e by (auto simp: CheckoutAdapter_def)
  note run = assms(1) [unfolded CheckoutAdapter_def e option.case if_not_P [OF req] found_def [symmetric]]
  obtain c where c: "found = Some c" using run r by (cases found) simp_all
  obtain s1 where u: "UpsertCheckout c s = Inr s1" using run r c by (cases "UpsertCheckout c s") simp_all
  have t: "ce_EventType e \<in> {''CHECKOUT_PAYMENT_FAILED'', ''CHECKOUT_ABANDONED''}" "ce_OccurredAt e < cs_ValidUntil c"
    "leak = leak_of_checkout i e c"
    using run r c u by (auto split: if_splits)
  then obtain c0 where c0: "GetCheckout (ce_CheckoutID e) s = Some c0" "c = next_session e c0"
    using c by (auto simp: found_def)
  have "cs_CheckoutID c0 = ce_CheckoutID e" using c0(1) by (auto simp: GetCheckout_def dest: lookup_SomeD)
  then show "nl_EventType leak \<in> {''CHECKOUT_PAYMENT_FAILED'', ''CHECKOUT_ABANDONED''}"
      "nl_OccurredAt leak < nl_RecoveryDeadline leak"
      "\<exists>c. GetCheckout (nl_SourceReference leak) s = Some c \<and> nl_MerchantID leak = cs_MerchantID c
             \<and> nl_CustomerID leak = cs_CustomerID c \<and> nl_AmountMinor leak = cs_AmountMinor c \<and> nl_RecoveryDeadline leak = cs_ValidUntil c"
    using t c0 by (simp_all add: leak_of_checkout_def next_session_def)
qed

text \<open>The recovery window of a subscription event is its number of hours, or seven days when none or
  a negative one is given, as long as it is below 2562048 hours (292 years); above that the
  64-bit product wraps and the deadline is not the one asked for. With a window that does not
  wrap a leak is never refused for its deadline.\<close>

theorem recovery_window:
  assumes "SubscriptionAdapter p payload i s = (Inr (Some leak), s')" and "decode_subscription payload = Some e"
  shows "(se_RecoveryWindowHours e \<le> 0 \<longrightarrow> nl_RecoveryDeadline leak = nl_OccurredAt leak + 168 * Hour)
    \<and> (0 < se_RecoveryWindowHours e \<longrightarrow>
        (nl_RecoveryDeadline leak = nl_OccurredAt leak + se_RecoveryWindowHours e * Hour \<longleftrightarrow> se_RecoveryWindowHours e < 2562048))
    \<and> (se_RecoveryWindowHours e < 2562048 \<and> \<not> IsZero (nl_OccurredAt leak) \<longrightarrow> nl_OccurredAt leak < nl_RecoveryDeadline leak
        \<and> Validate leak \<noteq> Some (ErrMsg ''valid occurred_at and later recovery_deadline are required''))"
proof -
  let ?h = "se_RecoveryWindowHours e"
  have l: "leak = leak_of_subscription p i e"
    using assms by (auto simp: SubscriptionAdapter_def split: if_splits)
  have w: "i64 (h * Hour) = h * Hour \<longleftrightarrow> h < 2562048" if "0 < h" for h
  proof
    assume "h < 2562048"
    then have "in_i64 (h * Hour)" using that by (simp add: in_i64_def Hour_def)
    then show "i64 (h * Hour) = h * Hour" by simp
  next
    assume "i64 (h * Hour) = h * Hour"
    then have "h * Hour < 2 ^ 63" using in_i64_i64 [of "h * Hour"] by (simp add: in_i64_def)
    then show "h < 2562048" by (simp add: Hour_def)
  qed
  have d: "nl_RecoveryDeadline leak = nl_OccurredAt leak + i64 ((if ?h \<le> 0 then 168 else ?h) * Hour)"
    by (simp add: l leak_of_subscription_def window_end_def Let_def)
  have pos: "0 < k * Hour" if "0 < k" for k using that by (simp add: Hour_def)
  have later: "nl_OccurredAt leak < nl_RecoveryDeadline leak" if "?h < 2562048"
    using that d w [of 168] w [of ?h] pos [of 168] pos [of ?h] by (cases "?h \<le> 0") simp_all
  show ?thesis
    using d w [of 168] w [of ?h] later by (auto simp: Validate_def)
qed

section \<open>Examples\<close>

definition failed_payment :: json where
  "failed_payment = JObj [(''event_type'', JStr ''payment.failed''), (''merchant_id'', JStr ''m1''), (''customer_id'', JStr ''c1''),
     (''amount_minor'', JNum 10000), (''currency'', JStr ''inr''), (''payment_id'', JStr ''pay_9''),
     (''failure_code'', JStr ''mandate_failed''), (''occurred_at'', JStr ''2026-01-01T10:00:00Z'')]"

definition failed_event :: SubscriptionEvent where
  "failed_event = \<lparr>se_EventType = ''payment.failed'', se_MerchantID = ''m1'', se_CustomerID = ''c1'', se_AmountMinor = 10000,
     se_Currency = ''inr'', se_PaymentID = ''pay_9'', se_SubscriptionID = [], se_OrderID = [], se_FailureCode = ''mandate_failed'',
     se_FailureCategory = [], se_OccurredAt = 63902858400 * Second, se_RecoveryWindowHours = 0, se_Metadata = None\<rparr>"

lemma failed_decoded: "decode_subscription (Some failed_payment) = Some failed_event"
  by code_simp

definition shop_intake :: Intake where
  "shop_intake = \<lparr>in_db = shop_db, in_checkouts = [], in_webhooks = []\<rparr>"

definition failed_leak :: NormalizedLeak where
  "failed_leak = leak_of_subscription [] ''evt_1'' failed_event"

lemma failed_normalized: "SubscriptionAdapter [] (Some failed_payment) ''evt_1'' s = (Inr (Some failed_leak), s)"
  by (simp add: SubscriptionAdapter_def failed_decoded failed_leak_def) (simp add: failed_event_def subscriptionEvents_def)

lemma failed_leak_simps [simp]:
  "nl_MerchantID failed_leak = ''m1''" "nl_CustomerID failed_leak = ''c1''" "nl_SourceReference failed_leak = ''pay_9''"
  "nl_ProviderEventID failed_leak = ''evt_1''" "nl_AmountMinor failed_leak = 10000" "nl_Currency failed_leak = ''inr''"
  "nl_LeakType failed_leak = FailedSubscription" "nl_OccurredAt failed_leak = 63902858400 * Second"
  "nl_RecoveryDeadline failed_leak = 63902858400 * Second + 168 * Hour"
proof -
  have "i64 (168 * Hour) = 168 * Hour" by (simp add: Hour_def in_i64_def)
  then show "nl_RecoveryDeadline failed_leak = 63902858400 * Second + 168 * Hour"
    by (simp add: failed_leak_def leak_of_subscription_def failed_event_def window_end_def)
qed (simp_all add: failed_leak_def leak_of_subscription_def failed_event_def)

lemma failed_valid: "Validate failed_leak = None"
  by (simp add: Validate_def Second_def Hour_def)

lemma failed_registered:
  "\<exists>c db. service_CreateCase (ids CHR ''a'') (63902858400 * Second) (case_input failed_leak) shop_db = Inr (c, db)"
  by (simp add: Let_def service_CreateCase_def case_input_def CreateCase_def insert_case_def case_of_input_def
      shop_db_def empty_db_def find_case_def lookup_Cons insertEvent_def newEvent_def event_of_def Hour_def
      TrimSpace_def is_space_def IsValid_def)

lemma failed_detected:
  "\<exists>r s. Detect (SubscriptionAdapter []) (ids CHR ''a'') (63902858400 * Second) (Some failed_payment) ''evt_1'' shop_intake = (Inr r, s)
     \<and> dt_Created r \<and> dt_RiskDetected r"
proof -
  obtain c db where c: "service_CreateCase (ids CHR ''a'') (63902858400 * Second) (case_input failed_leak) shop_db = Inr (c, db)"
    using failed_registered by blast
  have "GetCaseBySource ''m1'' ''pay_9'' shop_db = Inl ErrNotFound" by (simp add: GetCaseBySource_def shop_db_def empty_db_def)
  then show ?thesis using c by (simp add: Detect_def failed_normalized failed_valid shop_intake_def)
qed

theorem leak_registered_once_witness:
  "\<exists>r s c. Detect (SubscriptionAdapter []) (ids CHR ''a'') (63902858400 * Second) (Some failed_payment) ''evt_1'' shop_intake = (Inr r, s)
     \<and> dt_Case r = Some c \<and> rc_AmountAtRiskMinor c = 10000
     \<and> Detect (SubscriptionAdapter []) (ids CHR ''b'') 0 (Some failed_payment) ''evt_1'' s
         = (Inr \<lparr>dt_Case = Some c, dt_Created = False, dt_RiskDetected = True\<rparr>, s)"
proof -
  obtain r s where d: "Detect (SubscriptionAdapter []) (ids CHR ''a'') (63902858400 * Second) (Some failed_payment) ''evt_1'' shop_intake = (Inr r, s)"
    "dt_Created r" "dt_RiskDetected r" using failed_detected by blast
  have "well_formed (in_db shop_intake)" using shop_well_formed by (simp add: shop_intake_def)
  note f = leak_registered_once [OF d(1) disjI1 [OF refl] this, of "ids CHR ''b''" 0]
  obtain c leak s1 where c: "dt_Case r = Some c" "SubscriptionAdapter [] (Some failed_payment) ''evt_1'' shop_intake = (Inr (Some leak), s1)"
    "rc_AmountAtRiskMinor c = nl_AmountMinor leak"
    "Detect (SubscriptionAdapter []) (ids CHR ''b'') 0 (Some failed_payment) ''evt_1'' s
         = (Inr \<lparr>dt_Case = Some c, dt_Created = False, dt_RiskDetected = True\<rparr>, s)"
    using f d(2,3) by blast
  then show ?thesis using d(1) failed_normalized [of shop_intake] by auto
qed

theorem recovery_window_witness:
  "nl_RecoveryDeadline failed_leak = nl_OccurredAt failed_leak + 168 * Hour"
  using recovery_window [OF failed_normalized failed_decoded, THEN conjunct1] by (simp add: failed_event_def)

definition abandonment :: json where
  "abandonment = JObj [(''event_type'', JStr ''CHECKOUT_ABANDONED''), (''checkout_id'', JStr ''co1''),
     (''amount_minor'', JNum 1), (''occurred_at'', JStr ''2026-01-01T10:00:00Z'')]"

definition basket :: CheckoutSession where
  "basket = \<lparr>cs_CheckoutID = ''co1'', cs_MerchantID = ''m1'', cs_CustomerID = ''c1'', cs_AmountMinor = 2500, cs_Currency = ''INR'',
     cs_Stage = ''CART'', cs_PaymentMethod = [], cs_ValidUntil = 63902858401 * Second\<rparr>"

lemma abandonment_decoded: "decode_checkout (Some abandonment) =
    Some \<lparr>ce_EventType = ''CHECKOUT_ABANDONED'', ce_CheckoutID = ''co1'', ce_MerchantID = [], ce_CustomerID = [], ce_AmountMinor = 1,
      ce_Currency = [], ce_CheckoutStage = [], ce_PaymentMethod = [], ce_FailureCode = [], ce_AbandonmentReason = [],
      ce_OccurredAt = 63902858400 * Second, ce_ValidUntil = 0, ce_Metadata = None\<rparr>"
  by code_simp

theorem checkout_is_fixed_witness:
  "\<exists>leak s. CheckoutAdapter (Some abandonment) ''evt_2'' (shop_intake\<lparr>in_checkouts := [basket]\<rparr>) = (Inr (Some leak), s)
     \<and> nl_AmountMinor leak = 2500 \<and> nl_MerchantID leak = ''m1''"
proof -
  let ?s = "shop_intake\<lparr>in_checkouts := [basket]\<rparr>"
  have g: "GetCheckout ''co1'' ?s = Some basket" by (simp add: GetCheckout_def lookup_Cons basket_def)
  obtain leak s where a: "CheckoutAdapter (Some abandonment) ''evt_2'' ?s = (Inr (Some leak), s)" "nl_SourceReference leak = ''co1''"
    by (simp add: CheckoutAdapter_def abandonment_decoded GetCheckout_def lookup_Cons UpsertCheckout_def next_session_def basket_def
        char3_def Second_def leak_of_checkout_def)
  have "keyed cs_CheckoutID (in_checkouts ?s)" by (simp add: keyed_def)
  from checkout_is_fixed [OF a(1) this] show ?thesis using a g by (auto simp: basket_def)
qed

end
