(* ===== verification/Attribution_Store.thy ===== *)
theory Attribution_Store
  imports Promise_Store
begin

text \<open>
  Attribution of an observed payment (\<open>internal/store/attribution.go\<close> and the service over it,
  \<open>internal/attribution/service.go\<close>): which evidence explains the recovery, and the transaction
  that records it, ends the case and keeps the feedback for training. Where SQL leaves the choice
  among rows of equal rank open, the model takes the first.
\<close>

section \<open>The service\<close>

record ObserveInput =
  ob_CaseID :: ID
  ob_RecoveredAmountMinor :: int
  ob_PaymentReference :: string
  ob_ObservedAt :: time
  ob_CorrelationID :: string

fun category_string :: "Category \<Rightarrow> string" where
  "category_string DirectAction = ''DIRECT_ACTION_ATTRIBUTED''"
| "category_string RetryCategory = ''RETRY_ATTRIBUTED''"
| "category_string Promise = ''PTP_ATTRIBUTED''"
| "category_string Natural = ''NATURAL_RECOVERY''"
| "category_string Unknown = ''UNKNOWN''"

definition Precedence :: "string list" where
  "Precedence = [''EXACT_PROVIDER_REFERENCE'', ''PTP'', ''RETRY'', ''DIRECT_ACTION'', ''NATURAL'', ''UNKNOWN'']"

record EvidenceCandidate =
  cn_Name :: string
  cn_Category :: Category

text \<open>The inner loop returns the first candidate of a name, the outer one the first name that has any.\<close>

fun resolve_by :: "string list \<Rightarrow> EvidenceCandidate list \<Rightarrow> Category" where
  "resolve_by [] cs = Unknown"
| "resolve_by (name # names) cs =
     (case find (\<lambda>c. cn_Name c = name) cs of Some c \<Rightarrow> cn_Category c | None \<Rightarrow> resolve_by names cs)"

definition ResolveCandidates :: "EvidenceCandidate list \<Rightarrow> Category" where
  "ResolveCandidates cs = resolve_by Precedence cs"

section \<open>Evidence\<close>

text \<open>The row \<open>attribution-v2\<close> of \<open>attribution_rule_configs\<close> (migration 000008), in minutes.\<close>

definition retryWindow :: int where "retryWindow = 1440"
definition directWindow :: int where "directWindow = 10080"
definition ptpWindow :: int where "ptpWindow = 1440"

text \<open>\<open>executions e JOIN recovery_actions a ON a.id = e.action_id\<close>\<close>

definition joined :: "Database \<Rightarrow> (Execution \<times> RecoveryAction) list" where
  "joined db = concat (map (\<lambda>x. map (\<lambda>a. (x, a)) (filter (\<lambda>a. ra_ID a = ex_ActionID x) (db_actions db))) (db_executions db))"

definition effective :: "Execution \<Rightarrow> bool" where
  "effective x \<longleftrightarrow> ex_Status x = ''SUCCEEDED'' \<or> ex_Status x = ''OUTCOME_PENDING'' \<or> ex_Status x = ''RECOVERY_CONFIRMED''"

text \<open>\<open>ORDER BY completed_at DESC\<close> puts NULL first.\<close>

definition completed_rank :: "Execution \<times> RecoveryAction \<Rightarrow> int list" where
  "completed_rank xa = (case ex_CompletedAt (fst xa) of None \<Rightarrow> [1] | Some t \<Rightarrow> [0, t])"

definition exact_match :: "ObserveInput \<Rightarrow> Database \<Rightarrow> (Execution \<times> RecoveryAction) option" where
  "exact_match input db = latest completed_rank (filter (\<lambda>(x, a). ex_CaseID x = ob_CaseID input
     \<and> ex_ProviderReference x = ob_PaymentReference input \<and> effective x) (joined db))"

definition completed_within :: "int \<Rightarrow> time \<Rightarrow> Execution \<Rightarrow> bool" where
  "completed_within window seen x \<longleftrightarrow> (case ex_CompletedAt x of None \<Rightarrow> False | Some t \<Rightarrow> t \<le> seen \<and> seen - window * Minute \<le> t)"

definition window_match :: "int \<Rightarrow> (ActionType \<Rightarrow> bool) \<Rightarrow> ObserveInput \<Rightarrow> Database \<Rightarrow> (Execution \<times> RecoveryAction) option" where
  "window_match window kind input db = latest completed_rank (filter (\<lambda>(x, a). ex_CaseID x = ob_CaseID input
     \<and> effective x \<and> completed_within window (ob_ObservedAt input) x \<and> kind (ra_Type a)) (joined db))"

definition ptp_match :: "ObserveInput \<Rightarrow> Database \<Rightarrow> PromiseToPay option" where
  "ptp_match input db = latest (\<lambda>p. - pp_DueAt p) (filter (\<lambda>p. pp_CaseID p = ob_CaseID input
     \<and> pp_Status p \<in> {PromiseActive, PromiseFulfilled}
     \<and> ob_ObservedAt input - ptpWindow * Minute \<le> pp_DueAt p \<and> pp_DueAt p \<le> ob_ObservedAt input + ptpWindow * Minute)
     (db_promises db))"

definition prior_executions :: "ObserveInput \<Rightarrow> Database \<Rightarrow> nat" where
  "prior_executions input db = length (filter (\<lambda>x. ex_CaseID x = ob_CaseID input
     \<and> (case ex_CompletedAt x of None \<Rightarrow> False | Some t \<Rightarrow> t \<le> ob_ObservedAt input)) (db_executions db))"

text \<open>The fields of the record the evidence decides, and its entries in the evidence document.\<close>

record Basis =
  bs_Category :: Category
  bs_ActionID :: "ID option"
  bs_ExecutionID :: "ID option"
  bs_PromiseID :: "ID option"
  bs_Strength :: string
  bs_Evidence :: "(string \<times> json) list"

definition action_basis :: "Category \<Rightarrow> string \<Rightarrow> Execution \<times> RecoveryAction \<Rightarrow> Basis" where
  "action_basis category strength xa = \<lparr>bs_Category = category, bs_ActionID = Some (ra_ID (snd xa)),
     bs_ExecutionID = Some (ex_ID (fst xa)), bs_PromiseID = None, bs_Strength = strength,
     bs_Evidence = [(''matched_action'', JStr (action_string (ra_Type (snd xa))))]\<rparr>"

definition is_retry_action :: "ActionType \<Rightarrow> bool" where
  "is_retry_action a \<longleftrightarrow> a = ActionRetryNow \<or> a = ActionRetryLater"

definition exact_basis :: "ObserveInput \<Rightarrow> Execution \<times> RecoveryAction \<Rightarrow> Basis" where
  "exact_basis input xa =
     (let b = action_basis (if is_retry_action (ra_Type (snd xa)) then RetryCategory else DirectAction) ''STRONG'' xa
      in b\<lparr>bs_Evidence := bs_Evidence b @ [(''matched_provider_reference'', JStr (ob_PaymentReference input))]\<rparr>)"

definition plain_basis :: "Category \<Rightarrow> string \<Rightarrow> (string \<times> json) list \<Rightarrow> Basis" where
  "plain_basis category strength evidence = \<lparr>bs_Category = category, bs_ActionID = None, bs_ExecutionID = None,
     bs_PromiseID = None, bs_Strength = strength, bs_Evidence = evidence\<rparr>"

definition promise_basis :: "PromiseToPay \<Rightarrow> Basis" where
  "promise_basis p = (plain_basis Promise ''STRONG'' [(''matched_promise_due_at'', JStr (format_time (pp_DueAt p)))])
     \<lparr>bs_PromiseID := Some (pp_ID p)\<rparr>"

definition basis_of :: "ObserveInput \<Rightarrow> Database \<Rightarrow> Basis" where
  "basis_of input db =
     (case exact_match input db of Some xa \<Rightarrow> exact_basis input xa | None \<Rightarrow>
      (case ptp_match input db of Some p \<Rightarrow> promise_basis p | None \<Rightarrow>
       (case window_match retryWindow is_retry_action input db of Some xa \<Rightarrow> action_basis RetryCategory ''STRONG'' xa | None \<Rightarrow>
        (case window_match directWindow (\<lambda>_. True) input db of Some xa \<Rightarrow> action_basis DirectAction ''MODERATE'' xa | None \<Rightarrow>
         if prior_executions input db = 0 then plain_basis Natural ''WEAK'' [(''prior_execution_count'', JInt 0)]
         else plain_basis Unknown ''INSUFFICIENT'' []))))"

section \<open>The transaction\<close>

definition latest_decision :: "ObserveInput \<Rightarrow> Database \<Rightarrow> DecisionRow option" where
  "latest_decision input db = latest (\<lambda>r. rr_CreatedAt (de_Optimization (dr_Decision r)))
     (filter (\<lambda>r. de_CaseID (dr_Decision r) = ob_CaseID input
        \<and> rr_CreatedAt (de_Optimization (dr_Decision r)) \<le> ob_ObservedAt input) (db_decisions db))"

definition record_of :: "ID \<Rightarrow> ObserveInput \<Rightarrow> Basis \<Rightarrow> ID option \<Rightarrow> RawMessage \<Rightarrow> Attribution" where
  "record_of newID input b decisionID evidence =
     \<lparr>at_ID = newID, at_CaseID = ob_CaseID input, at_RecoveredAmountMinor = ob_RecoveredAmountMinor input,
      at_PaymentReference = ob_PaymentReference input, at_Category = bs_Category b, at_DecisionID = decisionID,
      at_ActionID = bs_ActionID b, at_ExecutionID = bs_ExecutionID b, at_PromiseID = bs_PromiseID b,
      at_Evidence = evidence, at_EvidenceStrength = bs_Strength b, at_RuleVersion = ''attribution-v2'',
      at_ObservedAt = ob_ObservedAt input, at_CreatedAt = ob_ObservedAt input\<rparr>"

definition evidence_json :: "Basis \<Rightarrow> RawMessage" where
  "evidence_json b = Some (sorted_object ([(''rule_precedence'', JArr (map JStr Precedence)),
     (''overlap_resolution'', JStr ''highest_precedence_evidence_wins'')] @ bs_Evidence b))"

definition insert_attribution :: "Attribution \<Rightarrow> Database \<Rightarrow> (error, Database) result" where
  "insert_attribution r db =
     (if list_ex (\<lambda>x. at_ID x = at_ID r \<or> at_CaseID x = at_CaseID r \<and> at_PaymentReference x = at_PaymentReference r)
          (db_attributions db) then Inl (ErrConstraint ''recovery_attributions_key'')
      else if at_RecoveredAmountMinor r \<le> 0 then Inl (ErrConstraint ''recovery_attributions_recovered_amount_minor_check'')
      else Inr (db\<lparr>db_attributions := db_attributions db @ [r]\<rparr>))"

definition fulfil_promise :: "(nat \<Rightarrow> ID) \<Rightarrow> ObserveInput \<Rightarrow> Basis \<Rightarrow> PromiseToPay option \<Rightarrow> Database \<Rightarrow> (error, Database) result" where
  "fulfil_promise fresh input b promise db =
     (case promise of
        Some p \<Rightarrow>
          if bs_Category b = Promise \<and> pp_Status p = PromiseActive then
            andThen (transitionPromiseTx fresh p PromiseFulfilled ''ATTRIBUTED_PAYMENT'' (ob_CorrelationID input)
              (ob_PaymentReference input) (ob_ObservedAt input) db) (\<lambda>(_, db). Inr db)
          else Inr db
      | None \<Rightarrow> Inr db)"

text \<open>\<open>UPDATE recovery_cases SET current_state = 'RECOVERED', recovered_amount_minor = recovered_amount_minor + $2 ...\<close>\<close>

definition recovered_case :: "int \<Rightarrow> Category \<Rightarrow> time \<Rightarrow> RecoveryCase \<Rightarrow> RecoveryCase" where
  "recovered_case amount category now c = (advance StateRecovered now c)
     \<lparr>rc_RecoveredAmountMinor := rc_RecoveredAmountMinor c + amount, rc_AttributionStatus := category_string category\<rparr>"

definition recover_case :: "ObserveInput \<Rightarrow> Category \<Rightarrow> RecoveryCase \<Rightarrow> Database \<Rightarrow> (error, Database) result" where
  "recover_case input category c db =
     (if \<not> in_i64 (rc_RecoveredAmountMinor c + ob_RecoveredAmountMinor input) then Inl (ErrMsg ''bigint out of range'')
      else Inr (update_case (ob_CaseID input) (recovered_case (ob_RecoveredAmountMinor input) category (ob_ObservedAt input)) db))"

definition feedback_of :: "ID \<Rightarrow> Attribution \<Rightarrow> DecisionRow \<Rightarrow> Candidate \<Rightarrow> string \<Rightarrow> Feedback" where
  "feedback_of newID r d selected policyResult =
     \<lparr>fb_ID = newID, fb_CaseID = at_CaseID r, fb_CaseVersion = de_CaseVersion (dr_Decision d),
      fb_DecisionID = de_ID (dr_Decision d), fb_ExecutionID = at_ExecutionID r, fb_AttributionID = at_ID r,
      fb_EligibleActions = map cd_Action (sort_by (\<lambda>a b. cd_Rank a < cd_Rank b) (rr_Candidates (de_Optimization (dr_Decision d)))),
      fb_SelectedAction = cd_Action selected, fb_PredictedNERVMinor = cd_NERVMinor selected,
      fb_RecoveredAmountMinor = at_RecoveredAmountMinor r,
      fb_InterventionCostMinor = cd_ChannelCostMinor selected + cd_IncentiveCostMinor selected + cd_OperationalCostMinor selected,
      fb_TimeToOutcomeMinutes = max 0 (int64_of (duration_Minutes
         (Sub (at_ObservedAt r) (rr_CreatedAt (de_Optimization (dr_Decision d)))))),
      fb_PolicyResult = policyResult, fb_TrainingEligible = (at_Category r \<noteq> Unknown),
      fb_ExclusionReasons = (if at_Category r \<noteq> Unknown then [] else [''UNKNOWN_ATTRIBUTION'']), fb_CreatedAt = at_CreatedAt r\<rparr>"

definition insertFeedbackForAttribution :: "ID \<Rightarrow> Attribution \<Rightarrow> ID \<Rightarrow> bool tx" where
  "insertFeedbackForAttribution newID r decisionID db =
     (case lookup (\<lambda>d. de_ID (dr_Decision d)) decisionID (db_decisions db) of None \<Rightarrow> Inr (False, db)
      | Some d \<Rightarrow>
          (let opt = de_Optimization (dr_Decision d) in
           case lookup cd_Action (cd_Action (rr_Selected opt)) (rr_Candidates opt) of None \<Rightarrow> Inr (False, db)
           | Some selected \<Rightarrow>
               (let row = feedback_of newID r d selected (case lookup po_DecisionID decisionID (db_policies db) of
                    Some p \<Rightarrow> po_Decision p | None \<Rightarrow> ''UNKNOWN'')
                in if \<not> in_i64 (fb_InterventionCostMinor row) then Inl (ErrMsg ''bigint out of range'')
                   else if list_ex (\<lambda>x. fb_ID x = newID) (db_feedback db) then Inl (ErrConstraint ''feedback_records_pkey'')
                   else Inr (True, db\<lparr>db_feedback := db_feedback db @ [row]\<rparr>))))"

definition feedback_step :: "ID \<Rightarrow> Attribution \<Rightarrow> bool tx" where
  "feedback_step newID r db = (case at_DecisionID r of None \<Rightarrow> Inr (False, db) | Some i \<Rightarrow> insertFeedbackForAttribution newID r i db)"

text \<open>\<open>json.Marshal(record)\<close>\<close>

definition attribution_json :: "Attribution \<Rightarrow> json" where
  "attribution_json r =
     (let opt = (\<lambda>k v. case v of None \<Rightarrow> [] | Some i \<Rightarrow> [(k, JStr i)]) in
      JObj ([(''attribution_id'', JStr (at_ID r)), (''case_id'', JStr (at_CaseID r)),
        (''recovered_amount_minor'', JInt (at_RecoveredAmountMinor r)), (''payment_reference'', JStr (at_PaymentReference r)),
        (''category'', JStr (category_string (at_Category r)))] @ opt ''decision_id'' (at_DecisionID r)
        @ opt ''action_id'' (at_ActionID r) @ opt ''execution_id'' (at_ExecutionID r) @ opt ''promise_id'' (at_PromiseID r)
        @ [(''evidence'', case at_Evidence r of None \<Rightarrow> JNull | Some v \<Rightarrow> v), (''evidence_strength'', JStr (at_EvidenceStrength r)),
           (''rule_version'', JStr (at_RuleVersion r)), (''observed_at'', JStr (format_time (at_ObservedAt r))),
           (''created_at'', JStr (format_time (at_CreatedAt r)))]))"

definition recovery_events :: "(nat \<Rightarrow> ID) \<Rightarrow> ObserveInput \<Rightarrow> CaseState \<Rightarrow> Attribution \<Rightarrow> bool \<Rightarrow> RecoveryEvent list" where
  "recovery_events fresh input state r feedbackCreated =
     (let ev = (\<lambda>k type payload. event_of (fresh k) (ob_CaseID input) type (ob_ObservedAt input)
                  (system_actor ''attribution-engine-v1'') (Some payload) (ob_CorrelationID input)) in
      [ev 4 EventStateTransitioned (JObj [(''attribution_id'', JStr (at_ID r)), (''from_state'', JStr (state_string state)),
         (''to_state'', JStr ''RECOVERED'')]),
       ev 5 EventRecoveryAttributed (attribution_json r), ev 6 EventRecoveryCompleted (attribution_json r)]
      @ (if feedbackCreated then [ev 7 EventFeedbackRecorded (attribution_json r)] else []))"

text \<open>
  An exact match together with a promise in the window leaves through the \<open>else if\<close> after the
  promise query: \<open>promiseErr\<close> is nil there, so the record is returned without an error and the
  deferred rollback undoes the transaction.
\<close>

definition AttributeRecovery :: "(nat \<Rightarrow> ID) \<Rightarrow> ObserveInput \<Rightarrow> (Attribution \<times> bool) tx" where
  "AttributeRecovery fresh input db =
     (case find_case db (ob_CaseID input) of None \<Rightarrow> Inl ErrNotFound
      | Some c \<Rightarrow>
          if IsTerminal (rc_CurrentState c) then Inl ErrCaseTerminal
          else (case find (\<lambda>a. at_CaseID a = ob_CaseID input \<and> at_PaymentReference a = ob_PaymentReference input) (db_attributions db) of
            Some a \<Rightarrow> Inr ((a, False), db)
          | None \<Rightarrow>
              (let b = basis_of input db; promise = ptp_match input db in
               if exact_match input db \<noteq> None \<and> promise \<noteq> None then Inr ((record_of (fresh 0) input b None None, False), db)
               else
                 (let r = record_of (fresh 0) input b (map_option (\<lambda>d. de_ID (dr_Decision d)) (latest_decision input db)) (evidence_json b) in
                  andThen (insert_attribution r db) (\<lambda>db.
                  andThen (fulfil_promise (\<lambda>k. fresh (k + 1)) input b promise db) (\<lambda>db.
                  andThen (recover_case input (bs_Category b) c db) (\<lambda>db.
                  andThen (feedback_step (fresh 3) r db) (\<lambda>(feedbackCreated, db).
                  andThen (append_events db (ob_CaseID input) (recovery_events fresh input (rc_CurrentState c) r feedbackCreated)) (\<lambda>db.
                  Inr ((r, True), db))))))))))"

definition Observe :: "(nat \<Rightarrow> ID) \<Rightarrow> time \<Rightarrow> ObserveInput \<Rightarrow> (Attribution \<times> bool) tx" where
  "Observe fresh now input db =
     (if ob_CaseID input = [] \<or> ob_PaymentReference input = [] \<or> ob_RecoveredAmountMinor input \<le> 0
        then Inl (ErrMsg ''case_id, payment_reference and a positive recovered amount are required'')
      else AttributeRecovery fresh (input\<lparr>
        ob_ObservedAt := (if IsZero (ob_ObservedAt input) then now else ob_ObservedAt input),
        ob_CorrelationID := (if ob_CorrelationID input = [] then ''payment:'' @ ob_PaymentReference input else ob_CorrelationID input)\<rparr>) db)"

definition ListAttributions :: "ID \<Rightarrow> Database \<Rightarrow> Attribution list" where
  "ListAttributions caseID db = sort_by (due_less at_ObservedAt at_ID) (filter (\<lambda>a. at_CaseID a = caseID) (db_attributions db))"

section \<open>What the transaction does\<close>

lemma insert_attributionD:
  assumes "insert_attribution r db = Inr db'"
  shows "db' = db\<lparr>db_attributions := db_attributions db @ [r]\<rparr>" "0 < at_RecoveredAmountMinor r"
    "lookup at_ID (at_ID r) (db_attributions db) = None"
  using assms by (auto simp: insert_attribution_def list_ex_iff lookup_None split: if_splits)

text \<open>The promise the payment fulfils, if any.\<close>

definition fulfilled_promise :: "Basis \<Rightarrow> PromiseToPay option \<Rightarrow> PromiseToPay option" where
  "fulfilled_promise b promise = (case promise of
     Some p \<Rightarrow> if bs_Category b = Promise \<and> pp_Status p = PromiseActive then Some p else None | None \<Rightarrow> None)"

lemma fulfil_promiseD:
  assumes "fulfil_promise fresh input b promise db = Inr db'"
  shows "lawful db db' \<and> db_cases db' = db_cases db \<and> db_attributions db' = db_attributions db \<and> db_checks db' = db_checks db
    \<and> db_executions db' = db_executions db \<and> db_decisions db' = db_decisions db
    \<and> db_promises db' = (case fulfilled_promise b promise of None \<Rightarrow> db_promises db
       | Some p \<Rightarrow> modify pp_ID (pp_ID p) (resolved_promise PromiseFulfilled (ob_PaymentReference input) (ob_ObservedAt input)) (db_promises db))
    \<and> (\<exists>es. case_log db' i = case_log db i @ es)"
proof (cases "fulfilled_promise b promise")
  case None
  then have "db' = db"
    using assms by (auto simp: fulfil_promise_def fulfilled_promise_def split: option.splits if_splits)
  then show ?thesis
    using None by simp
next
  case (Some p)
  then obtain q where q: "transitionPromiseTx fresh p PromiseFulfilled ''ATTRIBUTED_PAYMENT'' (ob_CorrelationID input)
              (ob_PaymentReference input) (ob_ObservedAt input) db = Inr (q, db')"
    using assms by (auto simp: fulfil_promise_def fulfilled_promise_def andThen_Inr split: option.splits if_splits)
  obtain d e ev where d: "d = update_promise (pp_ID p) (resolved_promise PromiseFulfilled (ob_PaymentReference input) (ob_ObservedAt input)) db
       \<lparr>db_promise_events := db_promise_events db @ [e]\<rparr>" and ev: "append_events d (pp_CaseID p) [ev] = Inr db'"
    using q by (rule transitionPromiseTxD)
  show ?thesis
    using lawful_transitionPromiseTx [OF q] append_events_log [OF ev] Some by (simp add: d update_promise_def case_log_def)
qed

lemma recovered_case_simps [simp]:
  "rc_ID (recovered_case n k now c) = rc_ID c" "rc_CurrentState (recovered_case n k now c) = StateRecovered"
  "rc_RecoveredAmountMinor (recovered_case n k now c) = rc_RecoveredAmountMinor c + n"
  "rc_Version (recovered_case n k now c) = rc_Version c + 1" "rc_AttributionStatus (recovered_case n k now c) = category_string k"
  by (simp_all add: recovered_case_def advance_def)

lemma keeps_identity_recovered: "keeps_identity (recovered_case n k now)"
  by (simp add: keeps_identity_def recovered_case_def advance_def IsValid_def)

lemma recover_caseD:
  assumes "recover_case input k c db = Inr db'"
  shows "db' = update_case (ob_CaseID input) (recovered_case (ob_RecoveredAmountMinor input) k (ob_ObservedAt input)) db"
  using assms by (auto simp: recover_case_def split: if_splits)

lemma feedback_stepD:
  assumes "feedback_step n r db = Inr (fc, db')"
  shows "\<exists>fs. db' = db\<lparr>db_feedback := db_feedback db @ fs\<rparr>"
proof -
  have "db' = db \<or> (\<exists>f. db' = db\<lparr>db_feedback := db_feedback db @ [f]\<rparr>)"
    using assms by (auto simp: feedback_step_def insertFeedbackForAttribution_def Let_def split: option.splits if_splits)
  then show ?thesis by (elim disjE exE) (force intro: exI [of _ "[]"], blast)
qed

lemma recovery_events_case: "\<forall>e \<in> set (recovery_events fresh input s r fc). ev_CaseID e = ob_CaseID input"
  by (auto simp: recovery_events_def event_of_def Let_def)

text \<open>The three ways the transaction can succeed.\<close>

lemma AttributeRecoveryE:
  assumes "AttributeRecovery fresh input db = Inr ((r, created), db')"
  obtains (known) "created = False" "db' = db" "r \<in> set (db_attributions db)" "at_CaseID r = ob_CaseID input"
      "at_PaymentReference r = ob_PaymentReference input"
  | (dropped) "created = False" "db' = db" "exact_match input db \<noteq> None" "ptp_match input db \<noteq> None"
  | (recorded) c d fc where "created = True" "find_case db (ob_CaseID input) = Some c" "\<not> IsTerminal (rc_CurrentState c)"
      "r = record_of (fresh 0) input (basis_of input db) (map_option (\<lambda>d. de_ID (dr_Decision d)) (latest_decision input db))
         (evidence_json (basis_of input db))"
      "exact_match input db = None \<or> ptp_match input db = None" "0 < ob_RecoveredAmountMinor input"
      "lookup at_ID (at_ID r) (db_attributions db) = None"
      "db_attributions d = db_attributions db @ [r]"
      "db_cases d = modify rc_ID (ob_CaseID input)
         (recovered_case (ob_RecoveredAmountMinor input) (bs_Category (basis_of input db)) (ob_ObservedAt input)) (db_cases db)"
      "well_formed db \<longrightarrow> well_formed d" "db_checks d = db_checks db"
      "db_promises d = (case fulfilled_promise (basis_of input db) (ptp_match input db) of None \<Rightarrow> db_promises db
         | Some p \<Rightarrow> modify pp_ID (pp_ID p) (resolved_promise PromiseFulfilled (ob_PaymentReference input) (ob_ObservedAt input)) (db_promises db))"
      "\<exists>es. case_log d (ob_CaseID input) = case_log db (ob_CaseID input) @ es"
      "append_events d (ob_CaseID input) (recovery_events fresh input (rc_CurrentState c) r fc) = Inr db'"
proof -
  obtain c where c: "find_case db (ob_CaseID input) = Some c"
    using assms by (auto simp: AttributeRecovery_def split: option.splits)
  have open_case: "\<not> IsTerminal (rc_CurrentState c)" using assms c by (auto simp: AttributeRecovery_def split: if_splits)
  show ?thesis
  proof (cases "find (\<lambda>a. at_CaseID a = ob_CaseID input \<and> at_PaymentReference a = ob_PaymentReference input) (db_attributions db)")
    case (Some a)
    then have "created = False" "db' = db" "a = r" using assms c open_case by (auto simp: AttributeRecovery_def)
    moreover have "a \<in> set (db_attributions db)" "at_CaseID a = ob_CaseID input" "at_PaymentReference a = ob_PaymentReference input"
      using Some unfolding find_Some_iff by (metis nth_mem)+
    ultimately show ?thesis using known by simp
  next
    case None
    show ?thesis
    proof (cases "exact_match input db \<noteq> None \<and> ptp_match input db \<noteq> None")
      case True
      then have "created = False" "db' = db" using assms c open_case None by (auto simp: AttributeRecovery_def)
      then show ?thesis using True dropped by blast
    next
      case False
      define b where "b = basis_of input db"
      define r0 where "r0 = record_of (fresh 0) input b (map_option (\<lambda>d. de_ID (dr_Decision d)) (latest_decision input db)) (evidence_json b)"
      have run: "andThen (insert_attribution r0 db) (\<lambda>d1.
                  andThen (fulfil_promise (\<lambda>k. fresh (k + 1)) input b (ptp_match input db) d1) (\<lambda>db.
                  andThen (recover_case input (bs_Category b) c db) (\<lambda>db.
                  andThen (feedback_step (fresh 3) r0 db) (\<lambda>(fc, db).
                  andThen (append_events db (ob_CaseID input) (recovery_events fresh input (rc_CurrentState c) r0 fc)) (\<lambda>db.
                  Inr ((r0, True), db)))))) = Inr ((r, created), db')"
        using assms [unfolded AttributeRecovery_def c option.case if_not_P [OF open_case] None Let_def if_not_P [OF False]]
        unfolding r0_def b_def .
      obtain d1 where d1: "insert_attribution r0 db = Inr d1" using run by (auto simp: andThen_Inr)
      obtain d2 where d2: "fulfil_promise (\<lambda>k. fresh (k + 1)) input b (ptp_match input db) d1 = Inr d2"
        using run d1 by (auto simp: andThen_Inr)
      obtain d3 where d3: "recover_case input (bs_Category b) c d2 = Inr d3" using run d1 d2 by (auto simp: andThen_Inr)
      obtain fc d4 where d4: "feedback_step (fresh 3) r0 d3 = Inr (fc, d4)" using run d1 d2 d3 by (auto simp: andThen_Inr)
      have ev: "append_events d4 (ob_CaseID input) (recovery_events fresh input (rc_CurrentState c) r0 fc) = Inr db'"
        and r: "r = r0" "created = True"
        using run d1 d2 d3 d4 by (auto simp: andThen_Inr)
      note i = insert_attributionD [OF d1] and f = fulfil_promiseD [OF d2] and u = recover_caseD [OF d3]
      obtain fs where fb: "d4 = d3\<lparr>db_feedback := db_feedback d3 @ fs\<rparr>" using feedback_stepD [OF d4] by blast
      have amount: "at_RecoveredAmountMinor r0 = ob_RecoveredAmountMinor input" by (simp add: r0_def record_of_def)
      have wf: "well_formed d4" if w: "well_formed db"
      proof -
        have "well_formed d1" using w well_formed_cong [of d1 db] by (simp add: i)
        then have "well_formed d2" using f by (simp add: lawful_def)
        then have "well_formed d3" unfolding u by (intro well_formed_update_case keeps_identity_recovered)
        then show ?thesis using well_formed_cong [of d4 d3] by (simp add: fb)
      qed
      have "case_log d1 j = case_log db j" for j by (simp add: i case_log_def)
      moreover have "case_log d4 j = case_log d2 j" for j by (simp add: fb u case_log_def)
      ultimately have "\<exists>es. case_log d4 (ob_CaseID input) = case_log db (ob_CaseID input) @ es" using f by simp
      moreover have "db_attributions d4 = db_attributions db @ [r]" "db_checks d4 = db_checks db"
        "db_cases d4 = modify rc_ID (ob_CaseID input)
         (recovered_case (ob_RecoveredAmountMinor input) (bs_Category b) (ob_ObservedAt input)) (db_cases db)"
        "db_promises d4 = (case fulfilled_promise b (ptp_match input db) of None \<Rightarrow> db_promises db
         | Some p \<Rightarrow> modify pp_ID (pp_ID p) (resolved_promise PromiseFulfilled (ob_PaymentReference input) (ob_ObservedAt input)) (db_promises db))"
        using f by (simp_all add: fb u i(1) r update_case_def split: option.split)
      ultimately show ?thesis
        using recorded [of c d4 fc, OF r(2) c open_case] False i(2)[unfolded amount] i(3) wf ev
        unfolding b_def r(1) r0_def by blast
    qed
  qed
qed

section \<open>Properties\<close>

lemma find_case_map:
  "db_cases db' = modify rc_ID i f (db_cases db) \<Longrightarrow> (\<And>c. rc_ID (f c) = rc_ID c) \<Longrightarrow>
   find_case db' j = (if j = i then map_option f (find_case db i) else find_case db j)"
  by (simp add: find_case_def lookup_modify)

lemma record_of_simps [simp]:
  "at_ID (record_of n input b d e) = n" "at_CaseID (record_of n input b d e) = ob_CaseID input"
  "at_Category (record_of n input b d e) = bs_Category b" "at_PromiseID (record_of n input b d e) = bs_PromiseID b"
  "at_RecoveredAmountMinor (record_of n input b d e) = ob_RecoveredAmountMinor input"
  "at_PaymentReference (record_of n input b d e) = ob_PaymentReference input" "at_DecisionID (record_of n input b d e) = d"
  by (simp_all add: record_of_def)

lemma promise_basis_simps [simp]:
  "bs_Category (promise_basis p) = Promise" "bs_PromiseID (promise_basis p) = Some (pp_ID p)"
  by (simp_all add: promise_basis_def plain_basis_def)

text \<open>C23. A payment recovers a case once. When a new attribution is recorded, the case was open; it
  becomes RECOVERED, its recovered amount grows by exactly the positive amount observed, its
  attribution status is the recorded category, the log gains the three events of a recovery
  (four with feedback), and no other case changes. After that every further payment on the
  case, whatever its reference or amount, is refused as terminal, so nothing is counted twice.\<close>

theorem payment_recovers_once:
  assumes "AttributeRecovery fresh input db = Inr ((r, True), db')" and "well_formed db"
  shows "\<exists>c. find_case db (ob_CaseID input) = Some c \<and> \<not> IsTerminal (rc_CurrentState c) \<and> 0 < ob_RecoveredAmountMinor input
     \<and> find_case db' (ob_CaseID input) = Some (recovered_case (ob_RecoveredAmountMinor input) (at_Category r) (ob_ObservedAt input) c)
     \<and> (\<forall>j. j \<noteq> ob_CaseID input \<longrightarrow> find_case db' j = find_case db j)
     \<and> db_attributions db' = db_attributions db @ [r] \<and> at_CaseID r = ob_CaseID input
     \<and> (\<exists>es. map ev_Type (case_log db' (ob_CaseID input)) = map ev_Type (case_log db (ob_CaseID input)) @ es
          @ [EventStateTransitioned, EventRecoveryAttributed, EventRecoveryCompleted]
        \<or> map ev_Type (case_log db' (ob_CaseID input)) = map ev_Type (case_log db (ob_CaseID input)) @ es
          @ [EventStateTransitioned, EventRecoveryAttributed, EventRecoveryCompleted, EventFeedbackRecorded])
     \<and> well_formed db'
     \<and> (ob_CaseID input2 = ob_CaseID input \<longrightarrow> AttributeRecovery fresh2 input2 db' = Inl ErrCaseTerminal)"
  using assms(1)
proof (cases rule: AttributeRecoveryE)
  case (recorded c d fc)
  have wd: "well_formed d" using recorded(10) assms(2) by simp
  have f: "find_case d j = (if j = ob_CaseID input then map_option (recovered_case (ob_RecoveredAmountMinor input)
      (bs_Category (basis_of input db)) (ob_ObservedAt input)) (find_case db (ob_CaseID input)) else find_case db j)" for j
    by (rule find_case_map [OF recorded(9)]) simp
  have c': "find_case db' (ob_CaseID input) = Some (recovered_case (ob_RecoveredAmountMinor input) (at_Category r) (ob_ObservedAt input) c)"
    using f recorded(2,4) append_events_case [OF recorded(14)] by simp
  have "db_attributions db' = db_attributions db @ [r]" using append_events_log [OF recorded(14)] recorded(8) by simp
  moreover have "well_formed db'" by (rule well_formed_append_events [OF recorded(14) wd recovery_events_case])
  moreover have "\<exists>es. map ev_Type (case_log db' (ob_CaseID input)) = map ev_Type (case_log db (ob_CaseID input)) @ es
          @ map ev_Type (recovery_events fresh input (rc_CurrentState c) r fc)"
    using recorded(13) append_events_log_of [OF recorded(14) wd recovery_events_case] by (metis append.assoc map_append)
  then have "\<exists>es. map ev_Type (case_log db' (ob_CaseID input)) = map ev_Type (case_log db (ob_CaseID input)) @ es
          @ [EventStateTransitioned, EventRecoveryAttributed, EventRecoveryCompleted]
        \<or> map ev_Type (case_log db' (ob_CaseID input)) = map ev_Type (case_log db (ob_CaseID input)) @ es
          @ [EventStateTransitioned, EventRecoveryAttributed, EventRecoveryCompleted, EventFeedbackRecorded]"
    by (cases fc) (auto simp: recovery_events_def event_of_def Let_def)
  moreover have "AttributeRecovery fresh2 input2 db' = Inl ErrCaseTerminal" if "ob_CaseID input2 = ob_CaseID input"
    using c' that by (simp add: AttributeRecovery_def IsTerminal_def)
  ultimately show ?thesis
    using c' recorded(2,3,4,6) f append_events_case [OF recorded(14)] by (intro exI [of _ c]) simp
qed simp_all

text \<open>All the evidence there is for a payment, under the names of the precedence contract.\<close>

definition available :: "ObserveInput \<Rightarrow> Database \<Rightarrow> EvidenceCandidate list" where
  "available input db =
     (case exact_match input db of None \<Rightarrow> [] | Some xa \<Rightarrow>
        [\<lparr>cn_Name = ''EXACT_PROVIDER_REFERENCE'', cn_Category = (if is_retry_action (ra_Type (snd xa)) then RetryCategory else DirectAction)\<rparr>])
     @ (case ptp_match input db of None \<Rightarrow> [] | Some _ \<Rightarrow> [\<lparr>cn_Name = ''PTP'', cn_Category = Promise\<rparr>])
     @ (case window_match retryWindow is_retry_action input db of None \<Rightarrow> [] | Some _ \<Rightarrow> [\<lparr>cn_Name = ''RETRY'', cn_Category = RetryCategory\<rparr>])
     @ (case window_match directWindow (\<lambda>_. True) input db of None \<Rightarrow> [] | Some _ \<Rightarrow>
          [\<lparr>cn_Name = ''DIRECT_ACTION'', cn_Category = DirectAction\<rparr>])
     @ (if prior_executions input db = 0 then [\<lparr>cn_Name = ''NATURAL'', cn_Category = Natural\<rparr>] else [])
     @ [\<lparr>cn_Name = ''UNKNOWN'', cn_Category = Unknown\<rparr>]"

lemma available_distinct: "distinct (map cn_Name (available input db))"
  by (cases "exact_match input db"; cases "ptp_match input db"; cases "window_match retryWindow is_retry_action input db";
      cases "window_match directWindow (\<lambda>_. True) input db")
    (simp_all add: available_def)

lemma find_is_lookup: "find (\<lambda>c. cn_Name c = n) cs = lookup cn_Name n cs"
  by (simp add: lookup_def)

lemma lookup_perm:
  assumes "mset ys = mset xs" and "distinct (map key xs)"
  shows "lookup key k ys = lookup key k xs"
proof -
  have d: "distinct (map key ys)" using assms by (metis mset_eq_imp_distinct_iff mset_map)
  have s: "set ys = set xs" using assms(1) by (metis set_mset_mset)
  show ?thesis
  proof (cases "lookup key k xs")
    case None
    then have "k \<notin> key ` set ys" using s by (simp add: lookup_None)
    then show ?thesis using None by (simp only: lookup_None [symmetric])
  next
    case (Some x)
    then show ?thesis using lookup_SomeD [OF Some] lookup_distinct [OF d] s by auto
  qed
qed

lemma resolve_by_perm:
  "mset ys = mset xs \<Longrightarrow> distinct (map cn_Name xs) \<Longrightarrow> resolve_by names ys = resolve_by names xs"
proof (induction names)
  case (Cons n names)
  have "find (\<lambda>c. cn_Name c = n) ys = find (\<lambda>c. cn_Name c = n) xs"
    unfolding find_is_lookup by (rule lookup_perm [OF Cons.prems])
  then show ?case using Cons by (simp split: option.split)
qed simp

lemma resolve_hit: "resolve_by (n # ns) (\<lparr>cn_Name = n, cn_Category = k\<rparr> # cs) = k"
  by simp

lemma resolve_miss: "n \<notin> cn_Name ` set cs \<Longrightarrow> resolve_by (n # ns) cs = resolve_by ns cs"
proof -
  assume "n \<notin> cn_Name ` set cs"
  then have "find (\<lambda>c. cn_Name c = n) cs = None" unfolding find_is_lookup by (simp only: lookup_None simp_thms)
  then show ?thesis by simp
qed

lemma available_resolved: "ResolveCandidates (available input db) = bs_Category (basis_of input db)"
proof (cases "exact_match input db")
  case (Some xa)
  then show ?thesis
    unfolding ResolveCandidates_def Precedence_def available_def option.case append.simps resolve_hit
    by (simp add: basis_of_def exact_basis_def action_basis_def Let_def)
next
  case None
  note n1 = None
  show ?thesis
  proof (cases "ptp_match input db")
    case (Some p)
    have "''EXACT_PROVIDER_REFERENCE'' \<notin> cn_Name ` set (available input db)"
      using n1 Some by (auto simp: available_def split: option.splits if_splits)
    then have "ResolveCandidates (available input db) = resolve_by (tl Precedence) (available input db)"
      by (simp add: ResolveCandidates_def Precedence_def resolve_miss del: resolve_by.simps)
    also have "\<dots> = Promise"
      unfolding Precedence_def list.sel available_def option.case append.simps n1 Some resolve_hit by (rule refl)
    finally show ?thesis using n1 Some by (simp add: basis_of_def promise_basis_def plain_basis_def)
  next
    case None
    show ?thesis
      by (cases "window_match retryWindow is_retry_action input db"; cases "window_match directWindow (\<lambda>_. True) input db")
        (simp_all add: ResolveCandidates_def Precedence_def available_def basis_of_def plain_basis_def action_basis_def n1 None)
  qed
qed


text \<open>A payment whose provider reference matches an execution exactly is lost while a promise of
  the case is due within a day of it: the transaction reports no error and records nothing, so
  the case stays open and the webhook's retries, which see the same evidence, change nothing
  either.\<close>

theorem exact_payment_with_promise_is_lost:
  assumes "find_case db (ob_CaseID input) = Some c" and "\<not> IsTerminal (rc_CurrentState c)"
    and "exact_match input db \<noteq> None" and "ptp_match input db \<noteq> None"
    and "\<forall>a \<in> set (db_attributions db). \<not> (at_CaseID a = ob_CaseID input \<and> at_PaymentReference a = ob_PaymentReference input)"
  shows "\<exists>r. AttributeRecovery fresh input db = Inr ((r, False), db)"
proof -
  have "find (\<lambda>a. at_CaseID a = ob_CaseID input \<and> at_PaymentReference a = ob_PaymentReference input) (db_attributions db) = None"
    using assms(5) unfolding find_None_iff by blast
  then show ?thesis using assms(1-4) by (auto simp: AttributeRecovery_def)
qed

text \<open>A payment attributed to a promise leaves the promise's due check open: every later
  resolution of the promise is refused as a conflict, so the check can never be completed, and
  it is ready again whenever the lease on it has run out.\<close>

theorem attributed_promise_check_is_stuck:
  assumes "AttributeRecovery fresh input db = Inr ((r, True), db')" and "ledger_ok db"
    and "at_PromiseID r = Some i" and "\<exists>p. ptp_match input db = Some p \<and> pp_Status p = PromiseActive"
  shows "\<exists>k. lookup ck_PromiseID i (db_checks db') = Some k \<and> open_check k
     \<and> (\<forall>fresh2 forced now. resolvePromise fresh2 i forced now db' = Inl ErrConflict)
     \<and> (\<forall>now. ck_ScheduledFor k \<le> now \<and> (ck_LeaseExpiresAt k = None \<longrightarrow> ck_Status k = CheckPending)
          \<and> (\<forall>t. ck_LeaseExpiresAt k = Some t \<longrightarrow> t \<le> now) \<longrightarrow> check_ready now k)"
  using assms(1)
proof (cases rule: AttributeRecoveryE)
  case (recorded c d fc)
  obtain p where p: "ptp_match input db = Some p" "pp_Status p = PromiseActive" using assms(4) by blast
  have "exact_match input db = None" using recorded(5) p by simp
  then have b: "basis_of input db = promise_basis p" using p by (simp add: basis_of_def)
  then have f: "fulfilled_promise (basis_of input db) (ptp_match input db) = Some p"
    using p by (simp add: fulfilled_promise_def promise_basis_def plain_basis_def)
  have i: "i = pp_ID p" using assms(3) b by (simp add: recorded(4) promise_basis_def)
  have "p \<in> set (db_promises db)" using p(1) latest_Some(1) by (fastforce simp: ptp_match_def)
  then have look: "lookup pp_ID i (db_promises db) = Some p"
    using assms(2) by (simp add: ledger_ok_def i lookup_keyed)
  moreover have "case lookup pp_ID i (db_promises db) of None \<Rightarrow> lookup ck_PromiseID i (db_checks db) = None
      | Some p \<Rightarrow> \<exists>k. lookup ck_PromiseID i (db_checks db) = Some k \<and> ck_ScheduledFor k = pp_DueAt p
           \<and> (open_check k \<longleftrightarrow> pp_Status p = PromiseActive)" using assms(2) by (simp add: ledger_ok_def)
  ultimately obtain k where k: "lookup ck_PromiseID i (db_checks db) = Some k" "open_check k" using p by auto
  note a = append_events_ledger [OF recorded(14)]
  have k': "lookup ck_PromiseID i (db_checks db') = Some k" using k a recorded(11) by simp
  have "db_promises db' = modify pp_ID (pp_ID p)
      (resolved_promise PromiseFulfilled (ob_PaymentReference input) (ob_ObservedAt input)) (db_promises db)"
    using a(1) recorded(12) unfolding f by simp
  then have "lookup pp_ID i (db_promises db') = Some (resolved_promise PromiseFulfilled (ob_PaymentReference input) (ob_ObservedAt input) p)"
    using look by (simp add: lookup_modify i)
  then have "resolvePromise fresh2 i forced now db' = Inl ErrConflict" for fresh2 forced now
    by (simp add: resolvePromise_def)
  moreover have "check_ready now k" if "ck_ScheduledFor k \<le> now" "ck_LeaseExpiresAt k = None \<longrightarrow> ck_Status k = CheckPending"
      "\<forall>t. ck_LeaseExpiresAt k = Some t \<longrightarrow> t \<le> now" for now
    using that k(2) by (cases "ck_LeaseExpiresAt k") (auto simp: check_ready_def open_check_def lease_over_def)
  ultimately show ?thesis using k' k(2) by blast
qed simp_all

section \<open>Examples\<close>

definition example_payment :: ObserveInput where
  "example_payment = \<lparr>ob_CaseID = rc_ID created_case, ob_RecoveredAmountMinor = 10000, ob_PaymentReference = ''pay_1'',
     ob_ObservedAt = Hour, ob_CorrelationID = ''payment:pay_1''\<rparr>"

lemma payment_simps [simp]:
  "ob_CaseID example_payment = rc_ID created_case" "ob_RecoveredAmountMinor example_payment = 10000"
  "ob_PaymentReference example_payment = ''pay_1''" "ob_ObservedAt example_payment = Hour"
  "ob_CorrelationID example_payment = ''payment:pay_1''"
  by (simp_all add: example_payment_def)

lemma promised_empty [simp]:
  "db_executions promised_db = []" "db_decisions promised_db = []" "db_attributions promised_db = []"
  by (simp_all add: promised_db_def answered_db_def waiting_db_def shop_db_def empty_db_def)

lemma example_matches:
  "exact_match example_payment promised_db = None" "ptp_match example_payment promised_db = Some (new_promise promised)"
  "latest_decision example_payment promised_db = None"
  by (simp_all add: exact_match_def joined_def ptp_match_def ptpWindow_def Minute_def latest_decision_def)

lemma example_attributed:
  "\<exists>r db. AttributeRecovery (ids CHR ''t'') example_payment promised_db = Inr ((r, True), db) \<and> at_PromiseID r = Some ''p1''"
proof -
  let ?fresh = "ids CHR ''t''"
  have b: "basis_of example_payment promised_db = promise_basis (new_promise promised)"
    by (simp add: basis_of_def example_matches)
  define r where "r = record_of (?fresh 0) example_payment (promise_basis (new_promise promised)) None
    (evidence_json (promise_basis (new_promise promised)))"
  define d1 where "d1 = promised_db\<lparr>db_attributions := [r]\<rparr>"
  have w1: "well_formed d1" using promised_well_formed well_formed_cong [of d1 promised_db] by (simp add: d1_def)
  have i: "insert_attribution r promised_db = Inr d1" by (simp add: insert_attribution_def d1_def r_def)
  have c1: "find_case d1 (rc_ID created_case) = Some (created_case\<lparr>rc_CurrentState := StateWaitingOutcome\<rparr>)"
    using promised_case by (simp add: d1_def find_case_def)
  have ev1: "db_events d1 = db_events promised_db" "ev_ID ` set (db_events promised_db) = {ids CHR ''p'' 2, ids CHR ''p'' 3}"
    by (auto simp: d1_def promised_db_def creation_events_def event_of_def)
  obtain d2 e where d2: "transitionPromiseTx (\<lambda>k. ?fresh (k + 1)) (new_promise promised) PromiseFulfilled ''ATTRIBUTED_PAYMENT''
      ''payment:pay_1'' ''pay_1'' Hour d1 = Inr (resolved_promise PromiseFulfilled ''pay_1'' Hour (new_promise promised), d2)"
      "well_formed d2" "db_events d2 = db_events d1 @ [e]" "ev_ID e = ?fresh 2"
    using transition_succeeds [OF w1, of "new_promise promised" PromiseFulfilled "\<lambda>k. ?fresh (k + 1)" "''payment:pay_1''"
        "''ATTRIBUTED_PAYMENT''" "''pay_1''" Hour] c1
    by (auto simp: d1_def promised_db_def creation_events_def event_of_def)
  have f: "fulfil_promise (\<lambda>k. ?fresh (k + 1)) example_payment (promise_basis (new_promise promised)) (Some (new_promise promised)) d1 = Inr d2"
    using d2(1) by (simp add: fulfil_promise_def promise_basis_def plain_basis_def)
  have same: "db_cases d2 = db_cases d1" using fulfil_promiseD [OF f] by simp
  define d3 where "d3 = update_case (rc_ID created_case) (recovered_case 10000 Promise Hour) d2"
  have u: "recover_case example_payment Promise (created_case\<lparr>rc_CurrentState := StateWaitingOutcome\<rparr>) d2 = Inr d3"
  proof -
    have "rc_RecoveredAmountMinor created_case = 0"
      using create_case_facts [OF created shop_well_formed] by blast
    then show ?thesis by (simp add: recover_case_def d3_def in_i64_def)
  qed
  have w3: "well_formed d3" unfolding d3_def by (intro well_formed_update_case keeps_identity_recovered d2)
  have c3: "find_case d3 (rc_ID created_case) \<noteq> None"
  proof -
    have "find_case d2 (rc_ID created_case) \<noteq> None" using c1 same by (simp add: find_case_def)
    then show ?thesis by (simp add: d3_def find_case_update)
  qed
  have "append_events d3 (ob_CaseID example_payment) (recovery_events ?fresh example_payment StateWaitingOutcome r False)
      = Inr (d3\<lparr>db_events := db_events d3 @ numbered (nextSequence d3 (ob_CaseID example_payment))
          (recovery_events ?fresh example_payment StateWaitingOutcome r False)\<rparr>)"
  proof (rule append_events_ok [OF w3])
    show "ev_ID ` set (recovery_events ?fresh example_payment StateWaitingOutcome r False) \<inter> ev_ID ` set (db_events d3) = {}"
      using d2(3,4) ev1 by (auto simp: d3_def recovery_events_def event_of_def)
  qed (use c3 in \<open>simp_all add: recovery_events_def event_of_def\<close>)
  then show ?thesis
    using i f u promised_case b
    by (simp add: AttributeRecovery_def IsTerminal_def example_matches r_def feedback_step_def Let_def)
qed

theorem payment_recovers_once_witness:
  "\<exists>r db. AttributeRecovery (ids CHR ''t'') example_payment promised_db = Inr ((r, True), db)
     \<and> AttributeRecovery (ids CHR ''u'') (example_payment\<lparr>ob_PaymentReference := ''pay_2''\<rparr>) db = Inl ErrCaseTerminal"
proof -
  obtain r db where a: "AttributeRecovery (ids CHR ''t'') example_payment promised_db = Inr ((r, True), db)"
    using example_attributed by blast
  show ?thesis
    using a payment_recovers_once [OF a promised_well_formed, of "example_payment\<lparr>ob_PaymentReference := ''pay_2''\<rparr>" "ids CHR ''u''"]
    by auto
qed


theorem attributed_promise_check_is_stuck_witness:
  "\<exists>r db. AttributeRecovery (ids CHR ''t'') example_payment promised_db = Inr ((r, True), db)
     \<and> resolvePromise (ids CHR ''u'') ''p1'' None (2 * Hour) db = Inl ErrConflict"
proof -
  obtain r db where a: "AttributeRecovery (ids CHR ''t'') example_payment promised_db = Inr ((r, True), db)" "at_PromiseID r = Some ''p1''"
    using example_attributed by blast
  show ?thesis
    using a attributed_promise_check_is_stuck [OF a(1) promised_ledger a(2)] example_matches by auto
qed

text \<open>The same case with an execution whose provider reference is the payment's.\<close>

definition exact_db :: Database where
  "exact_db = promised_db\<lparr>
     db_actions := [\<lparr>ra_ID = ''ra1'', ra_CaseID = rc_ID created_case, ra_Type = ActionSendPaymentLink, ra_Status = ''EXECUTED'',
       ra_Parameters = emptyObject, ra_IdempotencyKey = ''k1'', ra_PolicyDecisionID = None, ra_ScheduledAt = None,
       ra_CreatedAt = 0, ra_UpdatedAt = 0\<rparr>],
     db_executions := [\<lparr>ex_ID = ''ex1'', ex_CaseID = rc_ID created_case, ex_ActionID = ''ra1'', ex_Attempt = 1,
       ex_Status = ''OUTCOME_PENDING'', ex_ProviderReference = ''pay_1'', ex_Response = timeout_result, ex_StartedAt = 0,
       ex_CompletedAt = Some 0, ex_ScheduledActionID = ''sa1'', ex_IdempotencyKey = ''k1:1'', ex_FailureClass = [],
       ex_Retryable = False\<rparr>]\<rparr>"

theorem exact_payment_with_promise_is_lost_witness:
  "\<exists>r. AttributeRecovery (ids CHR ''t'') example_payment exact_db = Inr ((r, False), exact_db)"
proof (rule exact_payment_with_promise_is_lost)
  show "find_case exact_db (ob_CaseID example_payment) = Some (created_case\<lparr>rc_CurrentState := StateWaitingOutcome\<rparr>)"
    using promised_case by (simp add: exact_db_def find_case_def)
  show "exact_match example_payment exact_db \<noteq> None"
    by (simp add: exact_match_def joined_def exact_db_def effective_def)
  show "ptp_match example_payment exact_db \<noteq> None"
    by (simp add: ptp_match_def ptpWindow_def Minute_def exact_db_def)
qed (simp_all add: IsTerminal_def exact_db_def)

end
