(* ===== verification/Operations.thy ===== *)
theory Operations
  imports Orchestrator "HOL-Library.Product_Lexorder"
begin

text \<open>
  Human review of escalated cases: the queue and its service (\<open>internal/operations/service.go\<close>)
  and the statements behind them (\<open>internal/store/operations.go\<close>). \<open>NOW()\<close> of the database is
  the argument \<open>dbNow\<close>. \<open>OperationsMetrics\<close> aggregates counts for a dashboard and is left out.
\<close>

section \<open>The queue\<close>

record QueueItem =
  qi_CaseID :: ID
  qi_CaseVersion :: int
  qi_State :: CaseState
  qi_Priority :: string
  qi_Category :: string
  qi_AmountAtRiskMinor :: int
  qi_Currency :: string
  qi_MerchantID :: ID
  qi_MerchantName :: string
  qi_MerchantPolicyVersion :: int
  qi_CustomerSafeReference :: string
  qi_LeakType :: LeakType
  qi_DecisionID :: ID
  qi_PolicyEvaluationID :: ID
  qi_EconomicGateID :: ID
  qi_RecommendedAction :: ActionType
  qi_ExpectedNERVMinor :: int
  qi_ActionRecoveryProbability :: float64
  qi_NaturalRecoveryProbability :: float64
  qi_IncrementalUplift :: float64
  qi_DiagnosisConfidence :: float64
  qi_EscalationReasons :: "string list"
  qi_MerchantObjective :: string
  qi_RecoveryDeadline :: time
  qi_EscalatedAt :: time
  qi_EscalationAgeSeconds :: int
  qi_ReviewStatus :: string
  qi_ReviewAfter :: "time option"
  qi_Candidate :: Candidate
  qi_Gate :: GateResult

fun review_decision_string :: "ReviewDecision \<Rightarrow> string" where
  "review_decision_string Approve = ''APPROVE''"
| "review_decision_string Reject = ''REJECT''"
| "review_decision_string Defer = ''DEFER''"
| "review_decision_string Stop = ''STOP''"

text \<open>The \<open>CASE\<close> expressions of \<open>queueSQL\<close>.\<close>

definition queue_priority :: "time \<Rightarrow> RecoveryCase \<Rightarrow> MerchantPolicy \<Rightarrow> int \<Rightarrow> string" where
  "queue_priority dbNow c mp nerv =
     (if (if mp_HighValueThresholdMinor mp = 0 then 9223372036854775807 else mp_HighValueThresholdMinor mp) \<le> rc_AmountAtRiskMinor c
        then ''CRITICAL''
      else if rc_RecoveryDeadline c \<le> dbNow + 6 * Hour then ''HIGH''
      else if 100000 \<le> nerv then ''HIGH'' else ''NORMAL'')"

definition queue_category :: "Database \<Rightarrow> RecoveryCase \<Rightarrow> string list \<Rightarrow> string" where
  "queue_category db c reasons =
     (if ''HIGH_VALUE_APPROVAL'' \<in> set reasons then ''HIGH_VALUE_APPROVAL''
      else if ''LOW_CONFIDENCE_ESCALATION'' \<in> set reasons then ''LOW_CONFIDENCE''
      else if list_ex (\<lambda>p. pp_CaseID p = rc_ID c \<and> pp_Status p = PromiseBroken) (db_promises db) then ''BROKEN_PTP''
      else if rc_CurrentState c = StateExhausted then ''EXHAUSTED'' else ''POLICY_ESCALATION'')"

definition review_status :: "time \<Rightarrow> Review option \<Rightarrow> string" where
  "review_status dbNow hr =
     (case hr of None \<Rightarrow> ''PENDING''
      | Some r \<Rightarrow> if rv_Decision r = Defer \<and> (case rv_ReviewAfter r of None \<Rightarrow> False | Some t \<Rightarrow> t \<le> dbNow) then ''PENDING''
          else if rv_Decision r = Defer then ''DEFERRED'' else review_decision_string (rv_Decision r))"

definition safe_reference :: "ID \<Rightarrow> string" where
  "safe_reference customerID = ''customer-'' @ drop (length customerID - 8) customerID"

text \<open>One row of \<open>queueSQL\<close>, when every inner join finds its row.\<close>

definition queue_item :: "time \<Rightarrow> Database \<Rightarrow> RecoveryCase \<Rightarrow> QueueItem option" where
  "queue_item dbNow db c =
     (case lookup m_ID (rc_MerchantID c) (db_merchants db) of None \<Rightarrow> None | Some m \<Rightarrow>
      (case latest mp_Version (filter (\<lambda>p. mp_MerchantID p = rc_MerchantID c) (db_merchant_policies db)) of None \<Rightarrow> None | Some mp \<Rightarrow>
      (case newest (\<lambda>r. rr_CreatedAt (de_Optimization (dr_Decision r))) (\<lambda>r. de_ID (dr_Decision r))
          (filter (\<lambda>r. de_CaseID (dr_Decision r) = rc_ID c) (db_decisions db)) of None \<Rightarrow> None | Some r \<Rightarrow>
      (let d = dr_Decision r; opt = de_Optimization d; selected = rr_Selected opt in
       case lookup cd_Action (cd_Action selected) (rr_Candidates opt) of None \<Rightarrow> None | Some dc \<Rightarrow>
      (case newest po_CreatedAt po_ID (filter (\<lambda>p. po_DecisionID p = de_ID d) (db_policies db)) of None \<Rightarrow> None | Some pe \<Rightarrow>
      (case lookup eg_ID (po_EconomicGateID pe) (db_gates db) of None \<Rightarrow> None | Some g \<Rightarrow>
      (let hr = newest rv_CreatedAt rv_ID (filter (\<lambda>x. rv_CaseID x = rc_ID c) (db_reviews db)) in
       Some \<lparr>qi_CaseID = rc_ID c, qi_CaseVersion = rc_Version c, qi_State = rc_CurrentState c,
         qi_Priority = queue_priority dbNow c mp (cd_NERVMinor selected), qi_Category = queue_category db c (po_ReasonCodes pe),
         qi_AmountAtRiskMinor = rc_AmountAtRiskMinor c, qi_Currency = rc_Currency c, qi_MerchantID = rc_MerchantID c,
         qi_MerchantName = m_Name m, qi_MerchantPolicyVersion = mp_Version mp,
         qi_CustomerSafeReference = safe_reference (rc_CustomerID c), qi_LeakType = rc_LeakType c, qi_DecisionID = de_ID d,
         qi_PolicyEvaluationID = po_ID pe, qi_EconomicGateID = eg_ID g, qi_RecommendedAction = cd_Action selected,
         qi_ExpectedNERVMinor = cd_NERVMinor selected, qi_ActionRecoveryProbability = cd_ActionRecoveryProbability dc,
         qi_NaturalRecoveryProbability = cd_NaturalRecoveryProbability dc, qi_IncrementalUplift = cd_IncrementalUplift dc,
         qi_DiagnosisConfidence = (if ''LOW_CONFIDENCE_ESCALATION'' \<in> set (po_ReasonCodes pe)
            then min (mp_LowConfidenceThreshold mp) (1 / 2) else fl (9 / 10)),
         qi_EscalationReasons = po_ReasonCodes pe, qi_MerchantObjective = rr_MerchantObjective opt,
         qi_RecoveryDeadline = rc_RecoveryDeadline c, qi_EscalatedAt = po_CreatedAt pe, qi_EscalationAgeSeconds = 0,
         qi_ReviewStatus = review_status dbNow hr, qi_ReviewAfter = Option.bind hr rv_ReviewAfter, qi_Candidate = dc,
         qi_Gate = g\<lparr>eg_DecisionID := de_ID d, eg_CaseID := rc_ID c, eg_Action := cd_Action selected\<rparr>\<rparr>)))))))"

definition stored_order :: "QueueItem \<Rightarrow> QueueItem \<Rightarrow> bool" where
  "stored_order a b \<longleftrightarrow>
     (if qi_RecoveryDeadline a \<noteq> qi_RecoveryDeadline b then qi_RecoveryDeadline a < qi_RecoveryDeadline b
      else if qi_ExpectedNERVMinor a \<noteq> qi_ExpectedNERVMinor b then qi_ExpectedNERVMinor b < qi_ExpectedNERVMinor a
      else qi_CaseID a < qi_CaseID b)"

definition ListOperationsQueue :: "time \<Rightarrow> Database \<Rightarrow> QueueItem list" where
  "ListOperationsQueue dbNow db = sort_by stored_order (List.map_filter (queue_item dbNow db)
     (filter (\<lambda>c. rc_CurrentState c = StateEscalated \<or> rc_CurrentState c = StateExhausted) (db_cases db)))"

definition listReviews :: "ID \<Rightarrow> Database \<Rightarrow> Review list" where
  "listReviews caseID db = sort_by (\<lambda>a b. rv_CreatedAt a < rv_CreatedAt b \<or> rv_CreatedAt a = rv_CreatedAt b \<and> rv_ID a < rv_ID b)
     (filter (\<lambda>r. rv_CaseID r = caseID) (db_reviews db))"

definition GetOperationsQueueItem :: "time \<Rightarrow> ID \<Rightarrow> Database \<Rightarrow> (error, QueueItem \<times> Review list) result" where
  "GetOperationsQueueItem dbNow caseID db =
     (case Option.bind (find_case db caseID) (queue_item dbNow db) of None \<Rightarrow> Inl ErrNotFound
      | Some item \<Rightarrow> Inr (item, listReviews caseID db))"

section \<open>Listing\<close>

record Filter =
  fi_Category :: string
  fi_MerchantID :: string
  fi_Status :: string
  fi_Priority :: string
  fi_LeakType :: string
  fi_MinAmountMinor :: int
  fi_MaxAmountMinor :: int
  fi_DeadlineBefore :: "time option"
  fi_Sort :: string

definition passes :: "Filter \<Rightarrow> QueueItem \<Rightarrow> bool" where
  "passes f item \<longleftrightarrow>
     (fi_Category f = [] \<or> qi_Category item = fi_Category f) \<and> (fi_MerchantID f = [] \<or> qi_MerchantID item = fi_MerchantID f)
     \<and> (fi_Status f = [] \<or> qi_ReviewStatus item = fi_Status f) \<and> (fi_Priority f = [] \<or> qi_Priority item = fi_Priority f)
     \<and> (fi_LeakType f = [] \<or> leak_string (qi_LeakType item) = fi_LeakType f)
     \<and> \<not> (0 < fi_MinAmountMinor f \<and> qi_AmountAtRiskMinor item < fi_MinAmountMinor f)
     \<and> \<not> (0 < fi_MaxAmountMinor f \<and> fi_MaxAmountMinor f < qi_AmountAtRiskMinor item)
     \<and> (case fi_DeadlineBefore f of None \<Rightarrow> True | Some t \<Rightarrow> \<not> t < qi_RecoveryDeadline item)"

definition queue_less :: "string \<Rightarrow> QueueItem \<Rightarrow> QueueItem \<Rightarrow> bool" where
  "queue_less order a b \<longleftrightarrow>
     (if order = ''amount_asc'' \<and> qi_AmountAtRiskMinor a \<noteq> qi_AmountAtRiskMinor b
        then qi_AmountAtRiskMinor a < qi_AmountAtRiskMinor b
      else if order = ''deadline_desc'' \<and> qi_RecoveryDeadline a \<noteq> qi_RecoveryDeadline b
        then qi_RecoveryDeadline b < qi_RecoveryDeadline a
      else if order \<noteq> ''amount_asc'' \<and> order \<noteq> ''deadline_desc'' \<and> qi_RecoveryDeadline a \<noteq> qi_RecoveryDeadline b
        then qi_RecoveryDeadline a < qi_RecoveryDeadline b
      else if qi_ExpectedNERVMinor a \<noteq> qi_ExpectedNERVMinor b then qi_ExpectedNERVMinor b < qi_ExpectedNERVMinor a
      else qi_CaseID a < qi_CaseID b)"

definition aged :: "time \<Rightarrow> QueueItem \<Rightarrow> QueueItem" where
  "aged now item = item\<lparr>qi_EscalationAgeSeconds := max 0 (int64_of (duration_Seconds (Sub now (qi_EscalatedAt item))))\<rparr>"

definition operations_List :: "time \<Rightarrow> time \<Rightarrow> Filter \<Rightarrow> Database \<Rightarrow> QueueItem list" where
  "operations_List dbNow now f db =
     sort_by (queue_less (fi_Sort f)) (filter (passes f) (map (aged now) (ListOperationsQueue dbNow db)))"

section \<open>Reviewing\<close>

record ReviewInput =
  ri_Decision :: "ReviewDecision option"
  ri_OperatorID :: string
  ri_ActorType :: string
  ri_ActorMetadata :: payload
  ri_ReasonCode :: string
  ri_Notes :: string
  ri_ExpectedCaseVersion :: int
  ri_ReviewAfter :: "time option"
  ri_IdempotencyKey :: string

text \<open>\<open>ApplyCommand\<close>, with the decision as the service has checked it.\<close>

record ApplyCommand =
  ac_Item :: QueueItem
  ac_Input :: ReviewInput
  ac_Decision :: ReviewDecision
  ac_FreshPolicy :: PolicyResult
  ac_Now :: time

definition AuthorizeApproval :: "CaseState \<Rightarrow> int \<Rightarrow> int \<Rightarrow> int \<Rightarrow> int \<Rightarrow> time \<Rightarrow> time \<Rightarrow> PolicyResult \<Rightarrow> string \<times> string list \<times> bool" where
  "AuthorizeApproval state currentVersion expectedVersion currentPolicyVersion observedPolicyVersion deadline now fresh =
     (let reasons = po_ReasonCodes fresh in
      if state \<noteq> StateEscalated \<or> currentVersion \<noteq> expectedVersion \<or> currentPolicyVersion \<noteq> observedPolicyVersion \<or> \<not> now < deadline
        then (''STALE_APPROVAL'', reasons @ [''AUTHORITATIVE_STATE_CHANGED''], False)
      else if po_Decision fresh = ''APPROVE'' \<or> po_Decision fresh = ''ESCALATE'' then (''APPROVED'', reasons, True)
      else if po_Decision fresh = ''STOP'' then (''STOPPED'', reasons, False)
      else (''DENIED'', reasons, False))"

text \<open>The rows an approval schedules.\<close>

definition approved_schedule :: "(nat \<Rightarrow> ID) \<Rightarrow> ApplyCommand \<Rightarrow> int \<Rightarrow> ScheduledAction" where
  "approved_schedule fresh cmd version =
     (let item = ac_Item cmd; now = ac_Now cmd in
      \<lparr>sa_ID = fresh 1, sa_CaseID = qi_CaseID item, sa_DecisionID = qi_DecisionID item, sa_PolicyEvaluationID = fresh 3,
       sa_RecoveryActionID = fresh 2, sa_Action = qi_RecommendedAction item,
       sa_Parameters = Some (JObj [(''decision_id'', JStr (qi_DecisionID item)), (''human_review_id'', JStr (fresh 0))]),
       sa_ScheduledFor = (if qi_RecommendedAction item = ActionRetryLater then now + 24 * Hour else now), sa_Status = SPending,
       sa_AttemptCount = 0, sa_MaxAttempts = 3, sa_IdempotencyKey = ''human-approved:'' @ fresh 1,
       sa_CaseVersionAtSchedule = version, sa_NextRetryAt = None\<rparr>)"

definition approved_policy :: "ID \<Rightarrow> ApplyCommand \<Rightarrow> int \<Rightarrow> string list \<Rightarrow> PolicyResult" where
  "approved_policy newID cmd version reasons =
     (let item = ac_Item cmd in
      \<lparr>po_ID = newID, po_DecisionID = qi_DecisionID item, po_EconomicGateID = qi_EconomicGateID item, po_CaseID = qi_CaseID item,
       po_CaseVersion = version, po_SelectedAction = qi_RecommendedAction item,
       po_PolicyVersion = po_PolicyVersion (ac_FreshPolicy cmd), po_Decision = ''APPROVE'',
       po_ReasonCodes = reasons @ [''HUMAN_APPROVAL_SATISFIED''], po_Checks = po_Checks (ac_FreshPolicy cmd),
       po_CreatedAt = ac_Now cmd\<rparr>)"

definition schedule_approved :: "(nat \<Rightarrow> ID) \<Rightarrow> ApplyCommand \<Rightarrow> int \<Rightarrow> string list \<Rightarrow> ScheduledAction tx" where
  "schedule_approved fresh cmd version reasons db =
     (let i = qi_CaseID (ac_Item cmd); now = ac_Now cmd; a = approved_schedule fresh cmd (version + 3) in
      andThen (insert_policy (approved_policy (fresh 3) cmd version reasons) db) (\<lambda>db.
      andThen (insert_action (action_of_schedule a now) db) (\<lambda>db.
      andThen (move_from i StateEscalated StateActionPending now db) (\<lambda>db.
      andThen (move_from i StateActionPending StatePolicyReview now db) (\<lambda>db.
      andThen (move_from i StatePolicyReview StateScheduled now db) (\<lambda>db.
      andThen (insert_scheduled (new_scheduled a now) db) (\<lambda>db. Inr (a, db))))))))"

definition insert_review :: "Review \<Rightarrow> Database \<Rightarrow> (error, Database) result" where
  "insert_review r db =
     (if rv_ActorType r \<notin> {''OPERATOR'', ''SUPERVISOR'', ''SYSTEM_TEST''} then Inl (ErrConstraint ''human_review_records_actor_type_check'')
      else case insert_row ''human_review_records_key'' (\<lambda>r x. rv_ID x = rv_ID r \<or> rv_IdempotencyKey x = rv_IdempotencyKey r)
          r (db_reviews db) of Inl e \<Rightarrow> Inl e | Inr t \<Rightarrow> Inr (db\<lparr>db_reviews := t\<rparr>))"

definition review_of :: "ID \<Rightarrow> ApplyCommand \<Rightarrow> int \<Rightarrow> int \<Rightarrow> string \<Rightarrow> string list \<Rightarrow> Review" where
  "review_of newID cmd version policyVersion reauth reasons =
     (let item = ac_Item cmd; input = ac_Input cmd in
      \<lparr>rv_ID = newID, rv_CaseID = qi_CaseID item, rv_DecisionID = qi_DecisionID item, rv_PolicyEvaluationID = qi_PolicyEvaluationID item,
       rv_RecommendedAction = qi_RecommendedAction item, rv_OperatorID = ri_OperatorID input, rv_ActorType = ri_ActorType input,
       rv_ActorMetadata = (case ri_ActorMetadata input of Payload v \<Rightarrow> Some v | _ \<Rightarrow> emptyObject), rv_Decision = ac_Decision cmd,
       rv_ReasonCode = ri_ReasonCode input, rv_Notes = ri_Notes input, rv_CaseVersionAtReview = version,
       rv_MerchantPolicyVersionAtReview = policyVersion, rv_ReviewAfter = ri_ReviewAfter input,
       rv_IdempotencyKey = ri_IdempotencyKey input, rv_ReauthorizationResult = reauth, rv_ReauthorizationReasonCodes = reasons,
       rv_ScheduledActionID = None, rv_CreatedAt = ac_Now cmd\<rparr>)"

definition review_json :: "Review \<Rightarrow> json" where
  "review_json r = JObj ([(''approval_id'', JStr (rv_ID r)), (''case_id'', JStr (rv_CaseID r)),
     (''decision_id'', JStr (rv_DecisionID r)), (''policy_evaluation_id'', JStr (rv_PolicyEvaluationID r)),
     (''recommended_action'', JStr (action_string (rv_RecommendedAction r))), (''operator_id'', JStr (rv_OperatorID r)),
     (''actor_type'', JStr (rv_ActorType r)), (''actor_metadata'', case rv_ActorMetadata r of None \<Rightarrow> JNull | Some v \<Rightarrow> v),
     (''decision'', JStr (review_decision_string (rv_Decision r))), (''reason_code'', JStr (rv_ReasonCode r)),
     (''notes'', JStr (rv_Notes r)), (''case_version_at_review'', JInt (rv_CaseVersionAtReview r)),
     (''merchant_policy_version_at_review'', JInt (rv_MerchantPolicyVersionAtReview r))]
     @ (case rv_ReviewAfter r of None \<Rightarrow> [] | Some t \<Rightarrow> [(''review_after'', JStr (format_time t))])
     @ [(''idempotency_key'', JStr (rv_IdempotencyKey r)), (''reauthorization_result'', JStr (rv_ReauthorizationResult r)),
        (''reauthorization_reason_codes'', JArr (map JStr (rv_ReauthorizationReasonCodes r)))]
     @ (case rv_ScheduledActionID r of None \<Rightarrow> [] | Some i \<Rightarrow> [(''scheduled_action_id'', JStr i)])
     @ [(''created_at'', JStr (format_time (rv_CreatedAt r)))])"

fun review_event_type :: "ReviewDecision \<Rightarrow> EventType" where
  "review_event_type Approve = EventOperatorApproved"
| "review_event_type Reject = EventOperatorRejected"
| "review_event_type Defer = EventOperatorDeferred"
| "review_event_type Stop = EventOperatorStopped"

definition review_events :: "(nat \<Rightarrow> ID) \<Rightarrow> ApplyCommand \<Rightarrow> Review \<Rightarrow> bool \<Rightarrow> RecoveryEvent list" where
  "review_events fresh cmd r canSchedule =
     (let operator = \<lparr>actor_Type = rv_ActorType r, actor_ID = rv_OperatorID r\<rparr>;
          ev = (\<lambda>k type actor. event_of (fresh k) (rv_CaseID r) type (ac_Now cmd) actor (Some (review_json r)) (rv_IdempotencyKey r)) in
      [ev 4 (if rv_ReauthorizationResult r \<in> {''STALE_APPROVAL'', ''DENIED'', ''STOPPED''} then EventStaleApproval
             else review_event_type (rv_Decision r)) operator]
      @ (if canSchedule then
           [ev 5 EventPolicyRevalidated \<lparr>actor_Type = ''POLICY'', actor_ID = po_PolicyVersion (ac_FreshPolicy cmd)\<rparr>,
            ev 6 EventActionScheduled operator] else [])
      @ (if rv_Decision r = Stop then [ev 7 EventCaseStopped operator] else []))"

text \<open>What the reviewer's decision does to the case.\<close>

definition apply_review :: "(nat \<Rightarrow> ID) \<Rightarrow> ApplyCommand \<Rightarrow> int \<Rightarrow> string list \<Rightarrow> bool \<Rightarrow> ScheduledAction option tx" where
  "apply_review fresh cmd version reasons canSchedule db =
     andThen (if canSchedule then map_sum id (\<lambda>(a, db). (Some a, db)) (schedule_approved fresh cmd version reasons db)
              else Inr (None, db)) (\<lambda>(scheduled, db).
     if ac_Decision cmd = Stop
     then andThen (move_from (qi_CaseID (ac_Item cmd)) StateEscalated StateStopped (ac_Now cmd) db) (\<lambda>db. Inr (scheduled, db))
     else Inr (scheduled, db))"

definition ApplyHumanReview :: "(nat \<Rightarrow> ID) \<Rightarrow> ApplyCommand \<Rightarrow> (Review \<times> ScheduledAction option \<times> bool) tx" where
  "ApplyHumanReview fresh cmd db =
     (let item = ac_Item cmd; input = ac_Input cmd in
      case lookup rv_IdempotencyKey (ri_IdempotencyKey input) (db_reviews db) of Some existing \<Rightarrow> Inr ((existing, None, False), db)
      | None \<Rightarrow>
     (case find_case db (qi_CaseID item) of None \<Rightarrow> Inl ErrNoRows | Some c \<Rightarrow>
     (case latest mp_Version (filter (\<lambda>p. mp_MerchantID p = rc_MerchantID c) (db_merchant_policies db)) of
        None \<Rightarrow> Inl (ErrMsg ''cannot scan NULL into *int'')
      | Some mp \<Rightarrow>
          (let (reauth, reasons, canSchedule) =
             (if ac_Decision cmd = Approve
              then AuthorizeApproval (rc_CurrentState c) (rc_Version c) (ri_ExpectedCaseVersion input) (mp_Version mp)
                     (qi_MerchantPolicyVersion item) (qi_RecoveryDeadline item) (ac_Now cmd) (ac_FreshPolicy cmd)
              else (''NOT_REQUIRED'', [], False)) in
           if ac_Decision cmd \<noteq> Approve \<and> rc_CurrentState c \<noteq> StateEscalated then Inl ErrNotReviewable
           else
             andThen (apply_review fresh cmd (rc_Version c) reasons canSchedule db) (\<lambda>(scheduled, db).
             (let review = (review_of (fresh 0) cmd (rc_Version c) (mp_Version mp) reauth reasons)
                \<lparr>rv_ScheduledActionID := map_option sa_ID scheduled\<rparr> in
              andThen (insert_review review db) (\<lambda>db.
              andThen (append_events db (qi_CaseID item) (review_events fresh cmd review canSchedule)) (\<lambda>db.
              Inr ((review, scheduled, True), db)))))))))"

text \<open>\<open>Service.Review\<close>; the four instants it reads are \<open>clock 0\<close> to \<open>clock 3\<close>.\<close>

definition no_review_needed :: PolicyResult where
  "no_review_needed = \<lparr>po_ID = [], po_DecisionID = [], po_EconomicGateID = [], po_CaseID = [], po_CaseVersion = 0,
     po_SelectedAction = OtherAction [], po_PolicyVersion = [], po_Decision = ''APPROVE'',
     po_ReasonCodes = [''HUMAN_REVIEW_NOT_REQUIRED''], po_Checks = Map.empty, po_CreatedAt = 0\<rparr>"

definition operations_Review :: "zone_db \<Rightarrow> (nat \<Rightarrow> ID) \<Rightarrow> (nat \<Rightarrow> time) \<Rightarrow> time \<Rightarrow> ID \<Rightarrow> ReviewInput
    \<Rightarrow> (Review \<times> ScheduledAction option \<times> bool) tx" where
  "operations_Review zone fresh clock dbNow caseID input db =
     (case ri_Decision input of None \<Rightarrow> Inl (ErrMsg ''decision must be APPROVE, REJECT, DEFER, or STOP'')
      | Some decision \<Rightarrow>
      if TrimSpace (ri_OperatorID input) = [] \<or> TrimSpace (ri_ReasonCode input) = [] \<or> TrimSpace (ri_IdempotencyKey input) = []
        then Inl (ErrMsg ''operator_id, reason_code, and idempotency_key are required'')
      else if ri_ActorType input \<notin> {''OPERATOR'', ''SUPERVISOR'', ''SYSTEM_TEST''}
        then Inl (ErrMsg ''actor_type must be OPERATOR, SUPERVISOR, or SYSTEM_TEST'')
      else if decision = Defer \<and> (case ri_ReviewAfter input of None \<Rightarrow> True | Some t \<Rightarrow> \<not> clock 0 < t)
        then Inl (ErrMsg ''DEFER requires a future review_after'')
      else
        andThen (GetOperationsQueueItem dbNow caseID db) (\<lambda>(item, _).
        andThen (if decision = Approve
                 then andThen (context_Get caseID (clock 1) db) (\<lambda>ctx. Inr (policy_Evaluate zone ctx (qi_DecisionID item)
                        (rc_Version (Case ctx)) (qi_Candidate item) (qi_Gate item) (clock 2)))
                 else Inr no_review_needed) (\<lambda>verdict.
        ApplyHumanReview fresh \<lparr>ac_Item = item, ac_Input = input, ac_Decision = decision, ac_FreshPolicy = verdict,
          ac_Now = clock 3\<rparr> db)))"

section \<open>What a review does\<close>

lemma AuthorizeApproval_grants:
  "AuthorizeApproval state v expected pv noted deadline now fresh = (r, reasons, True) \<longleftrightarrow>
     r = ''APPROVED'' \<and> reasons = po_ReasonCodes fresh \<and> state = StateEscalated \<and> v = expected \<and> pv = noted \<and> now < deadline
     \<and> po_Decision fresh \<in> {''APPROVE'', ''ESCALATE''}"
  by (auto simp: AuthorizeApproval_def Let_def)

text \<open>The three moves of an approved case.\<close>

definition approve_case :: "time \<Rightarrow> RecoveryCase \<Rightarrow> RecoveryCase" where
  "approve_case now c = advance StateScheduled now (advance StatePolicyReview now (advance StateActionPending now c))"

lemma schedule_approvedD:
  assumes "schedule_approved fresh cmd version reasons db = Inr (a, db')"
  shows "a = approved_schedule fresh cmd (version + 3)" "lawful db db'"
    "find_case db' j = (if j = qi_CaseID (ac_Item cmd) then map_option (approve_case (ac_Now cmd)) (find_case db j) else find_case db j)"
    "\<exists>c. find_case db (qi_CaseID (ac_Item cmd)) = Some c"
    "db_scheduled db' = db_scheduled db @ [new_scheduled a (ac_Now cmd)]"
    "db_policies db' = db_policies db @ [approved_policy (fresh 3) cmd version reasons]"
    "db_actions db' = db_actions db @ [action_of_schedule a (ac_Now cmd)]"
    "db_reviews db' = db_reviews db" "db_events db' = db_events db" "db_decisions db' = db_decisions db" "db_gates db' = db_gates db" "same_inputs db db'"
proof -
  define i where "i = qi_CaseID (ac_Item cmd)"
  define now where "now = ac_Now cmd"
  note defs = schedule_approved_def Let_def i_def [symmetric] now_def [symmetric]
  obtain d1 where d1: "insert_policy (approved_policy (fresh 3) cmd version reasons) db = Inr d1"
    using assms by (auto simp: defs andThen_Inr)
  obtain d2 where d2: "insert_action (action_of_schedule (approved_schedule fresh cmd (version + 3)) now) d1 = Inr d2"
    using assms d1 by (auto simp: defs andThen_Inr)
  obtain d3 where d3: "move_from i StateEscalated StateActionPending now d2 = Inr d3"
    using assms d1 d2 by (auto simp: defs andThen_Inr)
  obtain d4 where d4: "move_from i StateActionPending StatePolicyReview now d3 = Inr d4"
    using assms d1 d2 d3 by (auto simp: defs andThen_Inr)
  obtain d5 where d5: "move_from i StatePolicyReview StateScheduled now d4 = Inr d5"
    using assms d1 d2 d3 d4 by (auto simp: defs andThen_Inr)
  obtain d6 where d6: "insert_scheduled (new_scheduled (approved_schedule fresh cmd (version + 3)) now) d5 = Inr d6"
    using assms d1 d2 d3 d4 d5 by (auto simp: defs andThen_Inr)
  have r: "a = approved_schedule fresh cmd (version + 3)" "db' = d6"
    using assms d1 d2 d3 d4 d5 d6 by (auto simp: defs)
  then show "a = approved_schedule fresh cmd (version + 3)" by simp
  have t: "CanTransition StateEscalated StateActionPending" "CanTransition StateActionPending StatePolicyReview"
    "CanTransition StatePolicyReview StateScheduled" by (simp_all add: CanTransition_def)
  show "lawful db db'"
    using lawful_inserts(4) [OF d1] lawful_inserts(5) [OF d2] move_fromD(4) [OF d3 t(1)] move_fromD(4) [OF d4 t(2)]
      move_fromD(4) [OF d5 t(3)] lawful_inserts(6) [OF d6] lawful_trans unfolding r by blast
  note rows = inserts_rows(4) [OF d1] inserts_rows(5) [OF d2] move_fromD(1) [OF d3] move_fromD(1) [OF d4] move_fromD(1) [OF d5]
    inserts_rows(6) [OF d6]
  have cases: "find_case d2 j = find_case db j" "find_case db' j = find_case d5 j" for j
    by (simp_all add: find_case_def rows(1,2,6) r)
  show "\<exists>c. find_case db (qi_CaseID (ac_Item cmd)) = Some c" using move_fromD(2) [OF d3] cases(1) by (auto simp: i_def)
  show "find_case db' j = (if j = qi_CaseID (ac_Item cmd) then map_option (approve_case (ac_Now cmd)) (find_case db j) else find_case db j)"
    unfolding cases(2) rows(3,4,5) find_update_advance cases(1) approve_case_def i_def now_def
    by (simp add: option.map_comp o_def)
  show "db_scheduled db' = db_scheduled db @ [new_scheduled a (ac_Now cmd)]"
    "db_policies db' = db_policies db @ [approved_policy (fresh 3) cmd version reasons]"
    "db_actions db' = db_actions db @ [action_of_schedule a (ac_Now cmd)]"
    "db_reviews db' = db_reviews db" "db_events db' = db_events db" "db_decisions db' = db_decisions db" "db_gates db' = db_gates db" "same_inputs db db'"
    unfolding r rows by (simp_all add: now_def update_case_def same_inputs_def)
qed

lemma review_events_case: "\<forall>e \<in> set (review_events fresh cmd r s). ev_CaseID e = rv_CaseID r"
  by (auto simp: review_events_def event_of_def Let_def)

lemma review_of_simps [simp]:
  "rv_CaseID (review_of n cmd v pv r rs) = qi_CaseID (ac_Item cmd)" "rv_Decision (review_of n cmd v pv r rs) = ac_Decision cmd"
  "rv_IdempotencyKey (review_of n cmd v pv r rs) = ri_IdempotencyKey (ac_Input cmd)"
  "rv_ReauthorizationResult (review_of n cmd v pv r rs) = r" "rv_CaseVersionAtReview (review_of n cmd v pv r rs) = v"
  by (simp_all add: review_of_def Let_def)

lemma insert_reviewD: "insert_review r db = Inr db' \<Longrightarrow> db' = db\<lparr>db_reviews := db_reviews db @ [r]\<rparr>"
  by (auto simp: insert_review_def insert_row_def split: if_splits)

text \<open>The state a review leaves, by the reviewer's decision.\<close>

lemma ApplyHumanReviewE:
  assumes "ApplyHumanReview fresh cmd db = Inr ((review, scheduled, created), db')"
  obtains (known) "lookup rv_IdempotencyKey (ri_IdempotencyKey (ac_Input cmd)) (db_reviews db) = Some review"
      "scheduled = None" "\<not> created" "db' = db"
  | (applied) c mp reauth reasons can d where "created" "find_case db (qi_CaseID (ac_Item cmd)) = Some c"
      "lookup rv_IdempotencyKey (ri_IdempotencyKey (ac_Input cmd)) (db_reviews db) = None"
      "latest mp_Version (filter (\<lambda>p. mp_MerchantID p = rc_MerchantID c) (db_merchant_policies db)) = Some mp"
      "(reauth, reasons, can) = (if ac_Decision cmd = Approve
         then AuthorizeApproval (rc_CurrentState c) (rc_Version c) (ri_ExpectedCaseVersion (ac_Input cmd)) (mp_Version mp)
                (qi_MerchantPolicyVersion (ac_Item cmd)) (qi_RecoveryDeadline (ac_Item cmd)) (ac_Now cmd) (ac_FreshPolicy cmd)
         else (''NOT_REQUIRED'', [], False))"
      "ac_Decision cmd = Approve \<or> rc_CurrentState c = StateEscalated"
      "apply_review fresh cmd (rc_Version c) reasons can db = Inr (scheduled, d)"
      "review = (review_of (fresh 0) cmd (rc_Version c) (mp_Version mp) reauth reasons)\<lparr>rv_ScheduledActionID := map_option sa_ID scheduled\<rparr>"
      "append_events (d\<lparr>db_reviews := db_reviews d @ [review]\<rparr>) (qi_CaseID (ac_Item cmd)) (review_events fresh cmd review can) = Inr db'"
proof (cases "lookup rv_IdempotencyKey (ri_IdempotencyKey (ac_Input cmd)) (db_reviews db)")
  case (Some x)
  then have "review = x \<and> scheduled = None \<and> \<not> created \<and> db' = db" using assms by (auto simp: ApplyHumanReview_def)
  then show ?thesis using Some by (intro known) simp_all
next
  case None
  note run = assms [unfolded ApplyHumanReview_def Let_def None option.case]
  obtain c where c: "find_case db (qi_CaseID (ac_Item cmd)) = Some c"
    using run by (cases "find_case db (qi_CaseID (ac_Item cmd))") simp_all
  note run = run [unfolded c option.case]
  obtain mp where mp: "latest mp_Version (filter (\<lambda>p. mp_MerchantID p = rc_MerchantID c) (db_merchant_policies db)) = Some mp"
    using run by (cases "latest mp_Version (filter (\<lambda>p. mp_MerchantID p = rc_MerchantID c) (db_merchant_policies db))") simp_all
  note run = run [unfolded mp option.case]
  obtain reauth reasons can where auth: "(reauth, reasons, can) = (if ac_Decision cmd = Approve
         then AuthorizeApproval (rc_CurrentState c) (rc_Version c) (ri_ExpectedCaseVersion (ac_Input cmd)) (mp_Version mp)
                (qi_MerchantPolicyVersion (ac_Item cmd)) (qi_RecoveryDeadline (ac_Item cmd)) (ac_Now cmd) (ac_FreshPolicy cmd)
         else (''NOT_REQUIRED'', [], False))" by (metis prod_cases3)
  note run = run [folded auth, unfolded prod.case]
  have open_case: "ac_Decision cmd = Approve \<or> rc_CurrentState c = StateEscalated" using run by (auto split: if_splits)
  then have n: "\<not> (ac_Decision cmd \<noteq> Approve \<and> rc_CurrentState c \<noteq> StateEscalated)" by blast
  note run = run [unfolded if_not_P [OF n]]
  obtain s d where d: "apply_review fresh cmd (rc_Version c) reasons can db = Inr (s, d)"
    using run by (auto simp: andThen_Inr)
  define r where "r = (review_of (fresh 0) cmd (rc_Version c) (mp_Version mp) reauth reasons)\<lparr>rv_ScheduledActionID := map_option sa_ID s\<rparr>"
  note run = run [unfolded d andThen_simps prod.case, folded r_def]
  obtain d2 where d2: "insert_review r d = Inr d2" using run by (auto simp: andThen_Inr)
  note run = run [unfolded d2 andThen_simps]
  have e: "append_events d2 (qi_CaseID (ac_Item cmd)) (review_events fresh cmd r can) = Inr db'" "review = r" "scheduled = s" "created"
    using run by (auto simp: andThen_Inr)
  show ?thesis using applied [OF e(4) c None mp auth open_case] d r_def e insert_reviewD [OF d2] by simp
qed

lemma apply_reviewD:
  assumes "apply_review fresh cmd v reasons can db = Inr (scheduled, d)" and "can \<Longrightarrow> ac_Decision cmd \<noteq> Stop"
  shows "if can then \<exists>a. scheduled = Some a \<and> schedule_approved fresh cmd v reasons db = Inr (a, d)
     else scheduled = None \<and> (if ac_Decision cmd = Stop
        then move_from (qi_CaseID (ac_Item cmd)) StateEscalated StateStopped (ac_Now cmd) db = Inr d else d = db)"
proof (cases can)
  case True
  then have n: "ac_Decision cmd \<noteq> Stop" by (rule assms(2))
  obtain x where x: "schedule_approved fresh cmd v reasons db = Inr x"
    using assms(1) True by (cases "schedule_approved fresh cmd v reasons db") (auto simp: apply_review_def)
  show ?thesis using assms(1) True n x by (cases x) (auto simp: apply_review_def)
next
  case False
  then show ?thesis
    using assms(1) by (cases "move_from (qi_CaseID (ac_Item cmd)) StateEscalated StateStopped (ac_Now cmd) db")
      (auto simp: apply_review_def split: if_splits)
qed

lemma lawful_ApplyHumanReview:
  assumes "ApplyHumanReview fresh cmd db = Inr (x, db')"
  shows "lawful db db'"
proof -
  obtain review scheduled created where "ApplyHumanReview fresh cmd db = Inr ((review, scheduled, created), db')"
    using assms by (cases x) auto
  then show ?thesis
  proof (cases rule: ApplyHumanReviewE)
    case (applied c mp reauth reasons can d)
    have a: "can \<Longrightarrow> ac_Decision cmd \<noteq> Stop" using applied(5) by (auto split: if_splits)
    note e = apply_reviewD [OF applied(7) a]
    have "lawful db d"
    proof (cases can)
      case True
      then show ?thesis using e schedule_approvedD(2) by auto
    next
      case False
      then show ?thesis using e move_fromD(4) [of "qi_CaseID (ac_Item cmd)" StateEscalated StateStopped] by (auto simp: CanTransition_def split: if_splits)
    qed
    moreover have "lawful d (d\<lparr>db_reviews := db_reviews d @ [review]\<rparr>)" by (rule lawful_other_tables) simp_all
    moreover have "lawful (d\<lparr>db_reviews := db_reviews d @ [review]\<rparr>) db'"
      by (rule lawful_append_events [OF applied(9)]) (use review_events_case [of fresh cmd review can] applied(8) in simp)
    ultimately show ?thesis using lawful_trans by blast
  qed simp
qed

section \<open>Properties\<close>


text \<open>C39. An approval authorizes the worker and nothing else does the checking for it: when the
  worker loads the scheduled action, the case has the version the schedule carries, the
  authorization says a human approved, and the action is performed exactly when the economic
  gate allowed it and the policy engine, run once more, approves or still only escalates.\<close>

theorem approval_reaches_worker:
  assumes "ApplyHumanReview fresh cmd db = Inr ((review, Some a, created), db')"
    and "LoadAuthorization (sa_DecisionID a) (sa_PolicyEvaluationID a) db' = Inr auth"
    and "context_Get (sa_CaseID a) now db' = Inr ctx"
  shows "au_HumanApproved auth \<and> \<not> stale_or_recovered a ctx
     \<and> (refusal zone a ctx auth now2 = None \<longleftrightarrow> eg_Decision (au_Gate auth) = ''ALLOW''
          \<and> po_Decision (policy_Evaluate zone ctx (sa_DecisionID a) (rc_Version (Case ctx)) (au_Candidate auth) (au_Gate auth) now2)
              \<in> {''APPROVE'', ''ESCALATE''})"
  using assms(1)
proof (cases rule: ApplyHumanReviewE)
  case (applied c mp reauth reasons can d)
  have n: "can \<Longrightarrow> ac_Decision cmd \<noteq> Stop" using applied(5) by (auto split: if_splits)
  note e = apply_reviewD [OF applied(7) n]
  have can: can using e by (auto split: if_splits)
  then have x: "schedule_approved fresh cmd (rc_Version c) reasons db = Inr (a, d)" using e by auto
  note s = schedule_approvedD [OF x]
  note log = append_events_log [OF applied(9)]
  have i: "sa_CaseID a = qi_CaseID (ac_Item cmd)" "sa_PolicyEvaluationID a = fresh 3" "sa_CaseVersionAtSchedule a = rc_Version c + 3"
    by (simp_all add: s(1) approved_schedule_def Let_def)
  have "list_ex (\<lambda>p. po_ID p = fresh 3 \<and> po_Decision p = ''APPROVE'' \<and> ''HUMAN_APPROVAL_SATISFIED'' \<in> set (po_ReasonCodes p)) (db_policies db')"
    unfolding log by (simp add: s(6) approved_policy_def Let_def)
  then have h: "au_HumanApproved auth"
    using assms(2) by (auto simp: LoadAuthorization_def i(2) Let_def split: option.splits)
  have f: "find_case db' (sa_CaseID a) = Some (approve_case (ac_Now cmd) c)"
    using append_events_case [OF applied(9)] s(3) applied(2) by (simp add: find_case_def i)
  obtain c2 b where c2: "find_case db' (sa_CaseID a) = Some c2" and ctx: "ctx = assemble b" and b: "bi_Case b = c2"
    using assms(3) by (rule context_GetE)
  have k: "Case ctx = approve_case (ac_Now cmd) c" using f c2 ctx b by simp
  have "\<not> stale_or_recovered a ctx"
    using k b by (simp add: stale_or_recovered_def approve_case_def i(3) ctx payment_of_def)
  then show ?thesis using h by (auto simp: refusal_def Let_def)
qed simp

section \<open>The order of the queue\<close>

lemma less_key: "a < (b :: 'v::linorder) \<Longrightarrow> \<not> b < a" "\<not> a < b \<Longrightarrow> \<not> b < c \<Longrightarrow> \<not> a < c"
  by auto

lemma less_triple: "((x :: int, y :: int, z :: string) < (x', y', z')) = (if x \<noteq> x' then x < x' else if y \<noteq> y' then y < y' else z < z')"
  by auto

lemma stored_order_key: "stored_order = (\<lambda>a b. (qi_RecoveryDeadline a, - qi_ExpectedNERVMinor a, qi_CaseID a)
    < (qi_RecoveryDeadline b, - qi_ExpectedNERVMinor b, qi_CaseID b))"
  by (intro ext) (simp only: less_triple stored_order_def neg_equal_iff_equal neg_less_iff_less)

lemma queue_less_key: "queue_less order = (\<lambda>a b.
    (if order = ''amount_asc'' then qi_AmountAtRiskMinor a else if order = ''deadline_desc'' then - qi_RecoveryDeadline a
     else qi_RecoveryDeadline a, - qi_ExpectedNERVMinor a, qi_CaseID a)
    < (if order = ''amount_asc'' then qi_AmountAtRiskMinor b else if order = ''deadline_desc'' then - qi_RecoveryDeadline b
     else qi_RecoveryDeadline b, - qi_ExpectedNERVMinor b, qi_CaseID b))"
  by (intro ext, cases "order = ''amount_asc''"; cases "order = ''deadline_desc''")
    (simp_all only: less_triple queue_less_def neg_equal_iff_equal neg_less_iff_less, simp_all)

interpretation stored: weak_order UNIV stored_order
  unfolding stored_order_key by (rule weak_order.intro; erule less_key; assumption)

interpretation queue: weak_order UNIV "queue_less order" for order
  unfolding queue_less_key by (rule weak_order.intro; erule less_key; assumption)

lemma queue_item_case: "queue_item dbNow db c = Some item \<Longrightarrow> qi_CaseID item = rc_ID c"
  by (auto simp: queue_item_def Let_def split: option.splits)

lemma map_filter_items: "x \<in> set (List.map_filter f xs) \<longleftrightarrow> (\<exists>y \<in> set xs. f y = Some x)"
  by (induction xs) (auto simp: List.map_filter_simps split: option.splits)

lemma queue_case_ids:
  "map qi_CaseID (List.map_filter (queue_item dbNow db) cs) = map rc_ID (filter (\<lambda>c. queue_item dbNow db c \<noteq> None) cs)"
  by (induction cs) (auto simp: List.map_filter_simps queue_item_case split: option.splits)

lemma distinct_sort_key: "distinct (map k (sort_by lt xs)) \<longleftrightarrow> distinct (map k xs)"
  by (metis mset_map mset_sort_by mset_eq_imp_distinct_iff)

lemma distinct_queue:
  assumes "well_formed db"
  shows "distinct (map qi_CaseID (operations_List dbNow now f db))"
proof -
  have "distinct (map rc_ID (db_cases db))" using assms by (simp add: well_formed_def keyed_def)
  then have "distinct (map qi_CaseID (ListOperationsQueue dbNow db))"
    unfolding ListOperationsQueue_def distinct_sort_key queue_case_ids by (simp add: distinct_map_filter)
  then have "distinct (map qi_CaseID (map (aged now) (ListOperationsQueue dbNow db)))" by (simp add: comp_def aged_def)
  then show ?thesis unfolding operations_List_def distinct_sort_key by (rule distinct_map_filter)
qed

text \<open>The review queue is complete and ordered: it lists, once each, exactly the escalated and
  exhausted cases that have a decision, a policy evaluation and its gate on record and pass the
  operator's filter, and no listed case comes before one that the requested order, by amount or
  by deadline and then by value and id, puts strictly first. No age is negative.\<close>

theorem review_queue:
  assumes "well_formed db"
  shows "ordered (queue_less (fi_Sort f)) (operations_List dbNow now f db)
     \<and> distinct (map qi_CaseID (operations_List dbNow now f db))
     \<and> set (operations_List dbNow now f db) = {aged now item | item c. c \<in> set (db_cases db)
          \<and> rc_CurrentState c \<in> {StateEscalated, StateExhausted} \<and> queue_item dbNow db c = Some item \<and> passes f (aged now item)}
     \<and> (\<forall>item \<in> set (operations_List dbNow now f db). 0 \<le> qi_EscalationAgeSeconds item)"
proof (intro conjI ballI)
  show "ordered (queue_less (fi_Sort f)) (operations_List dbNow now f db)"
    unfolding operations_List_def by (rule queue.ordered_sort_by) simp
  show "distinct (map qi_CaseID (operations_List dbNow now f db))" by (rule distinct_queue [OF assms])
  show "set (operations_List dbNow now f db) = {aged now item | item c. c \<in> set (db_cases db)
          \<and> rc_CurrentState c \<in> {StateEscalated, StateExhausted} \<and> queue_item dbNow db c = Some item \<and> passes f (aged now item)}"
    by (auto simp: operations_List_def ListOperationsQueue_def map_filter_items intro!: image_eqI)
  show "0 \<le> qi_EscalationAgeSeconds item" if "item \<in> set (operations_List dbNow now f db)" for item
    using that by (auto simp: operations_List_def aged_def)
qed

section \<open>Examples\<close>

definition escalated_case :: RecoveryCase where
  "escalated_case = example_case_at StateEscalated 2 0"

definition escalated_db :: Database where
  "escalated_db =
     (let s = example_snapshot ActionSendReminder ''ESCALATE'' in
      shop_db\<lparr>db_cases := [escalated_case], db_decisions := [\<lparr>dr_Decision = sn_Decision s, dr_Context = sn_Context s,
         dr_Eligibility = sn_Eligibility s\<rparr>], db_gates := [sn_Gate s], db_policies := [sn_Policy s]\<rparr>)"

lemma escalated_tables:
  "db_cases escalated_db = [escalated_case]" "db_events escalated_db = []" "db_reviews escalated_db = []"
  "db_actions escalated_db = []" "db_scheduled escalated_db = []" "db_promises escalated_db = []"
  "same_inputs shop_db escalated_db"
  by (simp_all add: escalated_db_def Let_def shop_db_def empty_db_def same_inputs_def)

lemma escalated_case_simps [simp]:
  "rc_ID escalated_case = ''a0''" "rc_MerchantID escalated_case = ''m1''" "rc_CustomerID escalated_case = ''c1''"
  "rc_CurrentState escalated_case = StateEscalated" "rc_Version escalated_case = 2" "rc_RecoveryDeadline escalated_case = 24 * Hour"
  by (simp_all add: escalated_case_def example_case_at_def created_case_eq)

lemma escalated_well_formed: "well_formed escalated_db"
  by (simp add: well_formed_def keyed_def sources_distinct_def gap_free_def case_log_def escalated_tables IsValid_def)

lemma escalated_queued:
  "\<exists>item. queue_item 0 escalated_db escalated_case = Some item \<and> qi_CaseID item = ''a0'' \<and> qi_MerchantPolicyVersion item = mp_Version shop_policy
     \<and> qi_RecoveryDeadline item = 24 * Hour \<and> qi_DecisionID item = ''d1'' \<and> qi_RecommendedAction item = ActionSendReminder"
  by (simp add: queue_item_def escalated_db_def Let_def shop_db_def empty_db_def example_snapshot_def lookup_Cons created_case_eq
      example_candidate_def shop_policy_def)

definition escalated_item :: QueueItem where
  "escalated_item = the (queue_item 0 escalated_db escalated_case)"

lemma escalated_item:
  "queue_item 0 escalated_db escalated_case = Some escalated_item" "qi_CaseID escalated_item = ''a0''"
  "qi_MerchantPolicyVersion escalated_item = mp_Version shop_policy" "qi_RecoveryDeadline escalated_item = 24 * Hour"
  "qi_DecisionID escalated_item = ''d1''" "qi_RecommendedAction escalated_item = ActionSendReminder"
  using escalated_queued by (auto simp: escalated_item_def)

definition approval :: ApplyCommand where
  "approval = \<lparr>ac_Item = escalated_item, ac_Input = \<lparr>ri_Decision = Some Approve, ri_OperatorID = ''op'', ri_ActorType = ''OPERATOR'',
       ri_ActorMetadata = NoPayload, ri_ReasonCode = ''CHECKED'', ri_Notes = [], ri_ExpectedCaseVersion = 2, ri_ReviewAfter = None,
       ri_IdempotencyKey = ''k1''\<rparr>, ac_Decision = Approve,
     ac_FreshPolicy = no_review_needed\<lparr>po_Decision := ''ESCALATE''\<rparr>, ac_Now = 5\<rparr>"

lemma escalated_found: "find_case escalated_db ''a0'' = Some escalated_case"
  by (simp add: find_case_def escalated_tables lookup_Cons)

lemma approval_schedules:
  "\<exists>a d. schedule_approved (ids CHR ''v'') approval 2 [''HUMAN_REVIEW_NOT_REQUIRED''] escalated_db = Inr (a, d)"
proof -
  have "db_policies escalated_db = [sn_Policy (example_snapshot ActionSendReminder ''ESCALATE'')]"
    "po_ID (sn_Policy (example_snapshot ActionSendReminder ''ESCALATE'')) = ''p1''"
    by (simp_all add: escalated_db_def Let_def example_snapshot_def)
  then show ?thesis
    by (simp add: schedule_approved_def Let_def approval_def escalated_tables escalated_item insert_policy_def insert_row_def
        approved_policy_def insert_action_def action_of_schedule_def approved_schedule_def declared_actions_def move_from_def
        move_case_def update_case_def modify_def find_case_def lookup_Cons insert_scheduled_def no_review_needed_def ids_def
        advance_def)
qed

lemma approval_runs:
  "\<exists>review a db. ApplyHumanReview (ids CHR ''v'') approval escalated_db = Inr ((review, Some a, True), db)"
proof -
  obtain a d where s: "schedule_approved (ids CHR ''v'') approval 2 [''HUMAN_REVIEW_NOT_REQUIRED''] escalated_db = Inr (a, d)"
    using approval_schedules by blast
  have pol: "latest mp_Version (filter (\<lambda>p. mp_MerchantID p = ''m1'') (db_merchant_policies escalated_db)) = Some shop_policy"
    by (simp add: escalated_db_def Let_def shop_db_def empty_db_def shop_policy_def)
  have i: "ac_Decision approval = Approve" "qi_CaseID (ac_Item approval) = ''a0''" "ac_Item approval = escalated_item"
    "AuthorizeApproval StateEscalated 2 (ri_ExpectedCaseVersion (ac_Input approval)) (mp_Version shop_policy)
       (qi_MerchantPolicyVersion escalated_item) (qi_RecoveryDeadline escalated_item) (ac_Now approval) (ac_FreshPolicy approval)
     = (''APPROVED'', [''HUMAN_REVIEW_NOT_REQUIRED''], True)"
    by (simp_all add: approval_def escalated_item AuthorizeApproval_def no_review_needed_def Hour_def)
  have ap: "apply_review (ids CHR ''v'') approval 2 [''HUMAN_REVIEW_NOT_REQUIRED''] True escalated_db = Inr (Some a, d)"
    using s by (simp add: apply_review_def i)
  define r where "r = (review_of (ids CHR ''v'' 0) approval 2 (mp_Version shop_policy) ''APPROVED'' [''HUMAN_REVIEW_NOT_REQUIRED''])
    \<lparr>rv_ScheduledActionID := Some (sa_ID a)\<rparr>"
  let ?d = "d\<lparr>db_reviews := db_reviews d @ [r]\<rparr>"
  note f = schedule_approvedD [OF s]
  have rv: "insert_review r d = Inr ?d"
    by (simp add: insert_review_def insert_row_def f(8) escalated_tables r_def review_of_def approval_def Let_def)
  have "well_formed d" using f(2) escalated_well_formed by (simp add: lawful_def)
  then have w: "well_formed ?d" using well_formed_cong [of ?d d] by simp
  have "append_events ?d ''a0'' (review_events (ids CHR ''v'') approval r True) = Inr (?d
      \<lparr>db_events := db_events ?d @ numbered (nextSequence ?d ''a0'') (review_events (ids CHR ''v'') approval r True)\<rparr>)"
  proof (rule append_events_ok [OF w])
    show "find_case ?d ''a0'' \<noteq> None" using f(3) [of "''a0''"] escalated_found i by (simp add: find_case_def)
    show "\<forall>e \<in> set (review_events (ids CHR ''v'') approval r True). ev_CaseID e = ''a0''"
      using review_events_case [of "ids CHR ''v''" approval r True] i by (simp add: r_def)
    show "distinct (map ev_ID (review_events (ids CHR ''v'') approval r True))"
      by (auto simp: review_events_def Let_def event_of_def)
    show "ev_ID ` set (review_events (ids CHR ''v'') approval r True) \<inter> ev_ID ` set (db_events ?d) = {}"
      by (simp add: f(9) escalated_tables)
  qed
  then show ?thesis
    using ap rv by (simp add: ApplyHumanReview_def Let_def escalated_tables i escalated_item(2) escalated_found pol r_def)
qed


theorem review_queue_witness:
  "aged 5 escalated_item \<in> set (operations_List 0 5 \<lparr>fi_Category = [], fi_MerchantID = [], fi_Status = [], fi_Priority = [],
     fi_LeakType = [], fi_MinAmountMinor = 0, fi_MaxAmountMinor = 0, fi_DeadlineBefore = None, fi_Sort = []\<rparr> escalated_db)"
  unfolding review_queue [OF escalated_well_formed, THEN conjunct2, THEN conjunct2, THEN conjunct1]
  by (intro CollectI exI [of _ escalated_item] exI [of _ escalated_case])
    (simp add: escalated_tables escalated_item passes_def)

lemma approval_context:
  assumes "ApplyHumanReview (ids CHR ''v'') approval escalated_db = Inr ((review, Some a, True), db)"
  shows "context_Get ''a0'' 7 db = Inr (assemble (example_build (example_case_at StateScheduled 5 5) 7))
    \<and> (\<exists>auth. LoadAuthorization ''d1'' (sa_PolicyEvaluationID a) db = Inr auth) \<and> sa_CaseID a = ''a0'' \<and> sa_DecisionID a = ''d1''"
  using assms
proof (cases rule: ApplyHumanReviewE)
  case (applied c mp reauth reasons can d)
  have d: "ac_Decision approval = Approve" "qi_CaseID (ac_Item approval) = ''a0''" "qi_DecisionID (ac_Item approval) = ''d1''"
    "ac_Now approval = 5" by (simp_all add: approval_def escalated_item)
  have c: "c = escalated_case" using applied(2) escalated_found d by simp
  have x: "schedule_approved (ids CHR ''v'') approval 2 reasons escalated_db = Inr (a, d)"
    using apply_reviewD [OF applied(7)] d c by (auto split: if_splits)
  note s = schedule_approvedD [OF x]
  note log = append_events_log [OF applied(9)]
  have t: "db_decisions db = db_decisions escalated_db" "db_gates db = db_gates escalated_db" "same_inputs shop_db db"
    "db_actions db = [action_of_schedule a 5]"
    using s(10,11,12,7) escalated_tables d by (simp_all add: log same_inputs_def)
  have f: "find_case db ''a0'' = Some (example_case_at StateScheduled 5 5)"
    using append_events_case [OF applied(9)] s(3) [of "''a0''"] d escalated_found
    by (simp add: find_case_def approve_case_def escalated_case_def example_case_at_def advance_def)
  have "context_Get ''a0'' 7 db = Inr (assemble (example_build (example_case_at StateScheduled 5 5) 7))"
    by (rule example_context [OF t(3) _ f]) (simp_all add: t action_of_schedule_def)
  moreover have "sa_CaseID a = ''a0''" "sa_DecisionID a = ''d1''" by (simp_all add: s(1) approved_schedule_def Let_def d)
  moreover have "\<exists>auth. LoadAuthorization ''d1'' (sa_PolicyEvaluationID a) db = Inr auth"
    by (simp add: LoadAuthorization_def t escalated_db_def Let_def lookup_Cons example_snapshot_def)
  ultimately show ?thesis by blast
qed simp

theorem approval_reaches_worker_witness:
  "\<exists>review a db auth ctx. ApplyHumanReview (ids CHR ''v'') approval escalated_db = Inr ((review, Some a, True), db)
     \<and> LoadAuthorization (sa_DecisionID a) (sa_PolicyEvaluationID a) db = Inr auth \<and> context_Get (sa_CaseID a) 7 db = Inr ctx
     \<and> au_HumanApproved auth \<and> \<not> stale_or_recovered a ctx"
proof -
  obtain review a db where r: "ApplyHumanReview (ids CHR ''v'') approval escalated_db = Inr ((review, Some a, True), db)"
    using approval_runs by blast
  obtain auth where l: "LoadAuthorization (sa_DecisionID a) (sa_PolicyEvaluationID a) db = Inr auth"
    and c: "context_Get (sa_CaseID a) 7 db = Inr (assemble (example_build (example_case_at StateScheduled 5 5) 7))"
    using approval_context [OF r] by auto
  show ?thesis using r l c approval_reaches_worker [OF r l c, of "\<lambda>_. None" 7] by blast
qed

end
