(* ===== verification/Lifecycle.thy ===== *)
theory Lifecycle
  imports Attribution_Store Promises Operations
begin

text \<open>
  The program as a whole: every transaction the API and the worker commit on the shared database
  as one step of a transition system, the databases that can be reached, and what all of them
  satisfy. The composite operations (a worker's tick of \<open>cmd/worker/main.go\<close>, a decision, the
  ingestion of a response) are shown to be sequences of these steps, so their invariants are
  those of the steps whatever the interleaving.
\<close>

section \<open>Who opens cases and attributes payments\<close>

text \<open>The attributions and the ids of the cases: what the other operations leave as it is.\<close>

definition books :: "Database \<Rightarrow> Attribution list \<times> ID list" where
  "books db = (db_attributions db, map rc_ID (db_cases db))"

lemma books_cong: "db_attributions db' = db_attributions db \<Longrightarrow> db_cases db' = db_cases db \<Longrightarrow> books db' = books db"
  by (simp add: books_def)

lemma books_update_case: "(\<And>c. rc_ID (f c) = rc_ID c) \<Longrightarrow> books (update_case i f db) = books db"
  by (simp add: books_def update_case_def modify_def)

lemma books_blocks [simp]:
  "books (update_case i (advance st now) db) = books db"
  "books (update_scheduled i g db) = books db"
  "books (update_promise i h db) = books db"
  "books (update_checks i k db) = books db"
  "books (with_decision s db) = books db"
  "books (opt_out i now db) = books db"
  by (simp add: books_update_case)
    (simp_all add: books_def update_scheduled_def update_promise_def update_checks_def with_decision_def opt_out_def)

lemma books_append: "append_events db i es = Inr db' \<Longrightarrow> books db' = books db"
  by (drule append_events_log) (simp add: books_def)

lemma books_event: "insertEvent db e = Inr db' \<Longrightarrow> books db' = books db"
  using insertEvent_log(1) [of db e db'] by (simp add: books_def)

lemma books_move:
  "move_case i src v dst now db = Inr db' \<Longrightarrow> books db' = books db"
  "move_from i src dst now db = Inr db' \<Longrightarrow> books db' = books db"
  using move_caseD(1) move_fromD(1) by (metis books_blocks(1))+

lemma books_insert:
  "insert_action a db = Inr db' \<Longrightarrow> books db' = books db"
  "insert_scheduled r db = Inr db' \<Longrightarrow> books db' = books db"
  "insert_policy p db = Inr db' \<Longrightarrow> books db' = books db"
  "insert_execution x db = Inr db' \<Longrightarrow> books db' = books db"
  "insert_promise q db = Inr db' \<Longrightarrow> books db' = books db"
  "insert_check k db = Inr db' \<Longrightarrow> books db' = books db"
  "insert_promise_event e db = Inr db' \<Longrightarrow> books db' = books db"
  "insert_review rv db = Inr db' \<Longrightarrow> books db' = books db"
  "updatePromiseReliability n j now db = Inr db' \<Longrightarrow> books db' = books db"
  by (auto simp: insert_action_def insert_scheduled_def insert_policy_def insert_execution_def insert_promise_def insert_check_def
      insert_promise_event_def insert_review_def updatePromiseReliability_def insert_row_def Let_def books_def
      split: if_splits sum.splits)

lemma books_apply_policy: "apply_policy st s db = Inr db' \<Longrightarrow> books db' = books db"
  by (auto simp: apply_policy_def Let_def books_move split: if_splits option.splits)

lemma books_saveDecisionTx: "saveDecisionTx fresh s db = Inr db' \<Longrightarrow> books db' = books db"
  by (erule saveDecisionTxD) (metis books_append books_apply_policy books_blocks(5))

lemma books_scheduleDecisionTx: "scheduleDecisionTx fresh now s db = Inr (a, db') \<Longrightarrow> books db' = books db"
  by (erule scheduleDecisionTxD) (simp add: books_append books_insert books_move)

lemma books_preparation:
  "preparation_loop fresh i now sequence index version targets db = Inr db' \<Longrightarrow> books db' = books db"
proof (induction targets arbitrary: index version db)
  case (Cons t targets)
  obtain src dst type where t: "t = (src, dst, type)" by (cases t)
  show ?case
    using Cons.prems Cons.IH books_move(1) books_event unfolding t by (fastforce split: if_splits sum.splits)
qed simp

lemma books_SaveDecisionAndSchedule: "SaveDecisionAndSchedule fresh now s db = Inr (r, db') \<Longrightarrow> books db' = books db"
  by (auto simp: SaveDecisionAndSchedule_def books_saveDecisionTx books_scheduleDecisionTx
      dest!: books_scheduleDecisionTx books_saveDecisionTx split: sum.splits if_splits prod.splits)

lemma books_Schedule: "Schedule fresh now s db = Inr (r, db') \<Longrightarrow> books db' = books db"
  by (auto simp: Schedule_def dest!: books_scheduleDecisionTx split: sum.splits if_splits prod.splits)

lemma books_MarkExecuting: "MarkExecuting a now db = Inr (u, db') \<Longrightarrow> books db' = books db"
  by (erule MarkExecutingD) (simp split: if_splits)

lemma books_CompleteExecution:
  assumes "CompleteExecution fresh a result now db = Inr (u, db')"
  shows "books db' = books db"
  using assms
proof (cases rule: CompleteExecutionD)
  case (final d c)
  have f: "books (finish_rows a result f now d) = books d" for f by (simp add: finish_rows_def Let_def books_def update_scheduled_def)
  have "books (settle_case i f now c e) = books e" for i f e by (simp add: settle_case_def)
  then show ?thesis using books_append [OF final(4)] books_insert(4) [OF final(1)] f by simp
qed (simp add: books_insert)

lemma books_MarkSuppressed: "MarkSuppressed fresh a reason now db = Inr (u, db') \<Longrightarrow> books db' = books db"
  by (auto simp: MarkSuppressed_def dest: books_append split: sum.splits)

lemma books_PrepareReassessment: "PrepareReassessment fresh a now db = Inr (ready, db') \<Longrightarrow> books db' = books db"
  by (erule PrepareReassessmentD) (auto simp: observe_case_def dest!: books_append split: if_splits)

lemma books_transitionPromiseTx:
  "transitionPromiseTx fresh p target reason corr reference now db = Inr (q, db') \<Longrightarrow> books db' = books db"
  by (auto simp: transitionPromiseTx_def Let_def andThen_Inr dest!: books_append books_insert split: if_splits)

lemma books_CreatePromise: "CreatePromise fresh p corr db = Inr (x, db') \<Longrightarrow> books db' = books db"
  by (auto simp: CreatePromise_def Let_def andThen_Inr dest!: books_append books_insert split: option.splits)

lemma books_CancelPromise: "CancelPromise fresh i corr now db = Inr (q, db') \<Longrightarrow> books db' = books db"
  by (auto simp: CancelPromise_def transitionPromise_def andThen_Inr dest!: books_transitionPromiseTx split: option.splits)

lemma books_reopen_case: "reopen_case fresh p st target now db = Inr db' \<Longrightarrow> books db' = books db"
  by (auto simp: reopen_case_def dest!: books_append split: if_splits)

lemma books_resolvePromise:
  assumes "resolvePromise fresh i forced now db = Inr (q, db')"
  shows "books db' = books db"
proof -
  obtain p where p: "lookup pp_ID i (db_promises db) = Some p"
    using assms by (auto simp: resolvePromise_def split: option.splits)
  have act: "pp_Status p = PromiseActive" using assms p by (auto simp: resolvePromise_def split: if_splits)
  obtain c where c: "find_case db (pp_CaseID p) = Some c"
    using assms p act by (auto simp: resolvePromise_def split: option.splits)
  obtain target reason reference where r: "resolution forced (rc_CurrentState c) (rc_RecoveryDeadline c) now = (target, reason, reference)"
    by (metis prod_cases3)
  have u: "(if b then updatePromiseReliability n j now d else Inr d) = Inr e \<Longrightarrow> books e = books d" for b n j d e
    by (auto dest: books_insert split: if_splits)
  show ?thesis
    using assms p act c r
    by (auto simp: resolvePromise_def andThen_Inr dest!: books_transitionPromiseTx books_reopen_case u)
qed

lemma books_SaveCustomerResponse: "SaveCustomerResponse fresh r db = Inr (created, db') \<Longrightarrow> books db' = books db"
  by (auto simp: SaveCustomerResponse_def Let_def andThen_Inr respond_case_def insert_response_def books_def opt_out_def update_case_def
      modify_def dest!: append_events_log split: option.splits if_splits)

lemma books_schedule_approved: "schedule_approved fresh cmd version reasons db = Inr (a, db') \<Longrightarrow> books db' = books db"
  by (auto simp: schedule_approved_def Let_def andThen_Inr dest!: books_insert books_move)

lemma books_ApplyHumanReview:
  assumes "ApplyHumanReview fresh cmd db = Inr (x, db')"
  shows "books db' = books db"
proof -
  obtain review scheduled created where "ApplyHumanReview fresh cmd db = Inr ((review, scheduled, created), db')"
    using assms by (cases x) auto
  then show ?thesis
  proof (cases rule: ApplyHumanReviewE)
    case (applied c mp reauth reasons can d)
    have s: "map_sum id (\<lambda>(a, db). (Some a, db)) (schedule_approved fresh cmd v rs db) = Inr (z, e) \<Longrightarrow> books e = books db" for v rs z e
      by (cases "schedule_approved fresh cmd v rs db") (auto dest: books_schedule_approved)
    have "books d = books db"
      using applied(7) by (auto simp: apply_review_def andThen_Inr dest!: s books_move split: if_splits)
    then show ?thesis using books_append [OF applied(9)] by (simp add: books_def)
  qed simp
qed

section \<open>Transactions\<close>

text \<open>
  A transaction that neither opens a case nor attributes a payment: lawful, in the sense of
  \<open>Evolution\<close>, and it leaves the books.
\<close>

definition quiet :: "Database \<Rightarrow> Database \<Rightarrow> bool" where
  "quiet db db' \<longleftrightarrow> lawful db db' \<and> books db' = books db"

lemma quiet_refl [simp]: "quiet db db"
  by (simp add: quiet_def)

lemma quiet_trans: "quiet a b \<Longrightarrow> quiet b c \<Longrightarrow> quiet a c"
  by (auto simp: quiet_def intro: lawful_trans)

lemma quiet_other_tables:
  "db_cases db' = db_cases db \<Longrightarrow> db_events db' = db_events db \<Longrightarrow> db_attributions db' = db_attributions db \<Longrightarrow> quiet db db'"
  unfolding quiet_def using lawful_other_tables books_cong by blast

text \<open>
  The transactions of the program, each with the arguments its callers may give it. A claim of a
  due promise commits also when it returns an error.
\<close>

inductive transaction :: "Database \<Rightarrow> Database \<Rightarrow> bool" where
  open_case: "service_CreateCase fresh now input db = Inr (c, db') \<Longrightarrow> transaction db db'"
| record_event: "service_RecordEvent fresh now i event db = Inr (e, db') \<Longrightarrow> transaction db db'"
| prepare: "PrepareForDecision fresh i now db = Inr (u, db') \<Longrightarrow> transaction db db'"
| save_decision: "SaveDecision fresh s db = Inr (u, db') \<Longrightarrow> transaction db db'"
| schedule: "Schedule fresh now s db = Inr (a, db') \<Longrightarrow> transaction db db'"
| decide: "SaveDecisionAndSchedule fresh now s db = Inr (a, db') \<Longrightarrow> transaction db db'"
| claim: "ClaimDue w now lease db = Inr (work, db') \<Longrightarrow> transaction db db'"
| claim_observation: "ClaimDueObservation w now lease db = Inr (work, db') \<Longrightarrow> transaction db db'"
| mark_executing: "MarkExecuting work now db = Inr (u, db') \<Longrightarrow> transaction db db'"
| complete: "CompleteExecution fresh work result now db = Inr (u, db') \<Longrightarrow> transaction db db'"
| mark_suppressed: "MarkSuppressed fresh work reason now db = Inr (u, db') \<Longrightarrow> transaction db db'"
| reassess: "PrepareReassessment fresh work now db = Inr (ready, db') \<Longrightarrow> transaction db db'"
| capture_email: "CaptureEmail n i key recipient tmpl payload db = Inr (d, db') \<Longrightarrow> transaction db db'"
| request_retry: "RequestRetry n key payload db = Inr (q, db') \<Longrightarrow> transaction db db'"
| save_link: "SavePaymentLink n i link db = Inr db' \<Longrightarrow> transaction db db'"
| create_promise: "CreatePromise fresh p corr db = Inr (q, db') \<Longrightarrow> transaction db db'"
| claim_promise: "ClaimDuePromise w now lease db = (promise, db') \<Longrightarrow> transaction db db'"
| cancel_promise: "CancelPromise fresh i corr now db = Inr (q, db') \<Longrightarrow> transaction db db'"
| resolve_promise: "ResolveDuePromise fresh i now db = Inr (q, db') \<Longrightarrow> transaction db db'"
| resolve_demo: "ResolvePromiseForDemo fresh i forced now db = Inr (q, db') \<Longrightarrow> transaction db db'"
| respond: "SaveCustomerResponse fresh r db = Inr (created, db') \<Longrightarrow> transaction db db'"
| review: "ApplyHumanReview fresh cmd db = Inr (reviewed, db') \<Longrightarrow> transaction db db'"
| attribute: "AttributeRecovery fresh payment db = Inr (attribution, db') \<Longrightarrow> transaction db db'"

lemma quiet_RecordEvent:
  assumes "service_RecordEvent fresh now i event db = Inr (e, db')"
  shows "quiet db db'"
proof -
  obtain x where x: "AppendEvent x db = Inr (e, db')"
    using assms by (auto simp: service_RecordEvent_def Let_def split: if_splits sum.splits)
  have a: "append_events db (ev_CaseID x) [x] = Inr db'"
    using x insertEvent_append [where db = db and e = x and i = "ev_CaseID x"] by (auto simp: AppendEvent_def Let_def split: option.splits sum.splits)
  show ?thesis using lawful_append_events [OF a] books_append [OF a] by (simp add: quiet_def)
qed

lemma quiet_ClaimDuePromise: "ClaimDuePromise w now lease db = (r, db') \<Longrightarrow> quiet db db'"
  by (rule quiet_other_tables) (auto simp: ClaimDuePromise_def Let_def split: option.splits)

lemma quiet_outbox:
  "CaptureEmail n i key recipient tmpl payload db = Inr (d, db') \<Longrightarrow> quiet db db'"
  "RequestRetry n key payload db = Inr (q, db') \<Longrightarrow> quiet db db'"
  "SavePaymentLink n i link db = Inr db' \<Longrightarrow> quiet db db'"
  "ClaimDue w now lease db = Inr (work, db') \<Longrightarrow> quiet db db'"
  "ClaimDueObservation w now lease db = Inr (work, db') \<Longrightarrow> quiet db db'"
  by (auto intro!: quiet_other_tables simp: CaptureEmail_def RequestRetry_def SavePaymentLink_def ClaimDue_def ClaimDueObservation_def
      split: option.splits if_splits)

lemma quiet_resolvePromise: "resolvePromise fresh i forced now db = Inr (q, db') \<Longrightarrow> quiet db db'"
  by (simp add: quiet_def books_resolvePromise) (erule resolvePromiseD)

lemma quiet_CancelPromise: "CancelPromise fresh i corr now db = Inr (q, db') \<Longrightarrow> quiet db db'"
  by (simp add: quiet_def books_CancelPromise) (simp add: CancelPromise_def transitionPromiseD(2))

lemma quiet_PrepareForDecision: "PrepareForDecision fresh i now db = Inr (u, db') \<Longrightarrow> quiet db db'"
  using lawful_PrepareForDecision [of fresh i now db u db']
  by (auto simp: quiet_def PrepareForDecision_def dest: books_preparation split: option.splits sum.splits)

lemma quiet_SaveDecision: "SaveDecision fresh s db = Inr (u, db') \<Longrightarrow> quiet db db'"
  using lawful_SaveDecision [of fresh s db u db']
  by (auto simp: quiet_def SaveDecision_def dest: books_saveDecisionTx split: sum.splits)

text \<open>The lemmas for the transactions the single theories show lawful.\<close>

lemma quiet_store:
  "Schedule fresh now s db = Inr (a, db') \<Longrightarrow> quiet db db'"
  "SaveDecisionAndSchedule fresh now s db = Inr (a, db') \<Longrightarrow> quiet db db'"
  "MarkExecuting work now db = Inr (u, db') \<Longrightarrow> quiet db db'"
  "CompleteExecution fresh work result now db = Inr (u, db') \<Longrightarrow> quiet db db'"
  "MarkSuppressed fresh work reason now db = Inr (u, db') \<Longrightarrow> quiet db db'"
  "PrepareReassessment fresh work now db = Inr (ready, db') \<Longrightarrow> quiet db db'"
  "CreatePromise fresh p corr db = Inr ((q, created), db') \<Longrightarrow> quiet db db'"
  "SaveCustomerResponse fresh r db = Inr (created, db') \<Longrightarrow> quiet db db'"
  "ApplyHumanReview fresh cmd db = Inr (reviewed, db') \<Longrightarrow> quiet db db'"
  unfolding quiet_def
  by (auto intro: lawful_Schedule books_Schedule
      lawful_SaveDecisionAndSchedule books_SaveDecisionAndSchedule
      lawful_MarkExecuting books_MarkExecuting
      lawful_CompleteExecution books_CompleteExecution
      lawful_MarkSuppressed books_MarkSuppressed
      lawful_PrepareReassessment books_PrepareReassessment
      lawful_CreatePromise [THEN conjunct1] books_CreatePromise
      lawful_SaveCustomerResponse books_SaveCustomerResponse
      lawful_ApplyHumanReview books_ApplyHumanReview)

lemma transaction_kinds:
  assumes "transaction db db'"
  shows "quiet db db' \<or> (\<exists>fresh now input c. service_CreateCase fresh now input db = Inr (c, db'))
    \<or> (\<exists>fresh payment r created. AttributeRecovery fresh payment db = Inr ((r, created), db'))"
  using assms
proof (cases rule: transaction.cases)
  case (open_case fresh now input c)
  then show ?thesis by blast
next
  case (attribute fresh payment attribution)
  then show ?thesis by (cases attribution) blast
next
  case (resolve_demo fresh i forced now q)
  then show ?thesis by (intro disjI1) (auto simp: ResolvePromiseForDemo_def quiet_resolvePromise split: if_splits)
next
  case (resolve_promise fresh i now q)
  then show ?thesis by (intro disjI1) (simp add: ResolveDuePromise_def quiet_resolvePromise)
next
  case record_event
  then show ?thesis by (intro disjI1 quiet_RecordEvent)
next
  case prepare
  then show ?thesis by (intro disjI1 quiet_PrepareForDecision)
next
  case save_decision
  then show ?thesis by (intro disjI1 quiet_SaveDecision)
next
  case schedule
  then show ?thesis by (intro disjI1 quiet_store(1))
next
  case decide
  then show ?thesis by (intro disjI1 quiet_store(2))
next
  case claim
  then show ?thesis by (intro disjI1 quiet_outbox(4))
next
  case claim_observation
  then show ?thesis by (intro disjI1 quiet_outbox(5))
next
  case mark_executing
  then show ?thesis by (intro disjI1 quiet_store(3))
next
  case complete
  then show ?thesis by (intro disjI1 quiet_store(4))
next
  case mark_suppressed
  then show ?thesis by (intro disjI1 quiet_store(5))
next
  case reassess
  then show ?thesis by (intro disjI1 quiet_store(6))
next
  case capture_email
  then show ?thesis by (intro disjI1 quiet_outbox(1))
next
  case request_retry
  then show ?thesis by (intro disjI1 quiet_outbox(2))
next
  case save_link
  then show ?thesis by (intro disjI1 quiet_outbox(3))
next
  case (create_promise fresh p corr q)
  then show ?thesis by (cases q) (intro disjI1, simp add: quiet_store(7))
next
  case claim_promise
  then show ?thesis by (intro disjI1 quiet_ClaimDuePromise)
next
  case cancel_promise
  then show ?thesis by (intro disjI1 quiet_CancelPromise)
next
  case respond
  then show ?thesis by (intro disjI1 quiet_store(8))
next
  case review
  then show ?thesis by (intro disjI1 quiet_store(9))
qed

section \<open>How a case evolves\<close>

text \<open>
  A case is left alone, or it was open, its version rises, its identity stays, and either it moved
  along declared transitions or a payment recovered it.
\<close>

definition case_evolves :: "RecoveryCase \<Rightarrow> RecoveryCase \<Rightarrow> bool" where
  "case_evolves c c' \<longleftrightarrow> c' = c \<or> same_case c c' \<and> \<not> IsTerminal (rc_CurrentState c) \<and> rc_Version c < rc_Version c'
     \<and> (rc_RecoveredAmountMinor c' = rc_RecoveredAmountMinor c \<and> lifecycle_path (rc_CurrentState c) (rc_CurrentState c')
        \<or> rc_RecoveredAmountMinor c < rc_RecoveredAmountMinor c' \<and> rc_CurrentState c' = StateRecovered)"

definition evolves :: "Database \<Rightarrow> Database \<Rightarrow> bool" where
  "evolves db db' \<longleftrightarrow> (\<forall>i c. find_case db i = Some c \<longrightarrow> (\<exists>c'. find_case db' i = Some c' \<and> case_evolves c c'))"

lemma case_evolves_trans: "case_evolves a b \<Longrightarrow> case_evolves b c \<Longrightarrow> case_evolves a c"
proof -
  assume ab: "case_evolves a b" and bc: "case_evolves b c"
  show "case_evolves a c"
  proof (cases "b = a \<or> c = b")
    case True
    then show ?thesis using ab bc by auto
  next
    case False
    then have b: "same_case a b" "\<not> IsTerminal (rc_CurrentState a)" "rc_Version a < rc_Version b"
      and c: "same_case b c" "\<not> IsTerminal (rc_CurrentState b)" "rc_Version b < rc_Version c"
      using ab bc by (auto simp: case_evolves_def)
    have "\<not> rc_CurrentState b = StateRecovered" using c(2) by (auto simp: IsTerminal_def)
    then have "rc_RecoveredAmountMinor b = rc_RecoveredAmountMinor a" "lifecycle_path (rc_CurrentState a) (rc_CurrentState b)"
      using ab False by (auto simp: case_evolves_def)
    then show ?thesis
      using b c bc False same_case_trans [OF b(1) c(1)] rtranclp_trans [of CanTransition]
      unfolding case_evolves_def by (metis order.strict_trans)
  qed
qed

lemma evolves_refl [simp]: "evolves db db"
  by (simp add: evolves_def case_evolves_def)

lemma evolves_trans: "evolves a b \<Longrightarrow> evolves b c \<Longrightarrow> evolves a c"
  unfolding evolves_def using case_evolves_trans by blast

lemma case_lawful_evolves: "case_lawful c c' \<Longrightarrow> case_evolves c c'"
  by (auto simp: case_lawful_def case_evolves_def)

section \<open>The money\<close>

text \<open>
  What a case has recovered is what has been attributed to it: every attribution belongs to one
  recovered case, no case has two, and the amounts agree.
\<close>

definition paid :: "Database \<Rightarrow> ID \<Rightarrow> int" where
  "paid db i = sum_list (map at_RecoveredAmountMinor (filter (\<lambda>a. at_CaseID a = i) (db_attributions db)))"

definition money_ok :: "Database \<Rightarrow> bool" where
  "money_ok db \<longleftrightarrow> (\<forall>a \<in> set (db_attributions db). 0 < at_RecoveredAmountMinor a
       \<and> (\<exists>c. find_case db (at_CaseID a) = Some c \<and> rc_CurrentState c = StateRecovered))
     \<and> distinct (map at_CaseID (db_attributions db))
     \<and> (\<forall>i c. find_case db i = Some c \<longrightarrow> rc_RecoveredAmountMinor c = paid db i)"

lemma paid_none: "i \<notin> at_CaseID ` set (db_attributions db) \<Longrightarrow> paid db i = 0"
proof -
  assume "i \<notin> at_CaseID ` set (db_attributions db)"
  then have "filter (\<lambda>a. at_CaseID a = i) (db_attributions db) = []" by (auto simp: filter_empty_conv)
  then show ?thesis by (simp add: paid_def)
qed

lemma find_case_None: "find_case db i = None \<longleftrightarrow> i \<notin> set (snd (books db))"
  by (auto simp: find_case_def lookup_None books_def)

lemma quiet_evolves:
  assumes "quiet db db'" and "well_formed db" and "money_ok db"
  shows "well_formed db'" "evolves db db'" "money_ok db'"
proof -
  have l: "lawful db db'" and b: "books db' = books db" using assms(1) by (simp_all add: quiet_def)
  have fwd: "\<exists>c'. find_case db' i = Some c' \<and> case_lawful c c'" if "find_case db i = Some c" for i c
    using l assms(2) that by (simp add: lawful_def)
  have prior: "\<exists>c. find_case db i = Some c \<and> case_lawful c c'" if "find_case db' i = Some c'" for i c'
    using that fwd find_case_None [of db i] find_case_None [of db' i] b by fastforce
  show "well_formed db'" using l assms(2) by (simp add: lawful_def)
  show "evolves db db'" using fwd case_lawful_evolves unfolding evolves_def by blast
  have a: "db_attributions db' = db_attributions db" and p: "paid db' i = paid db i" for i using b by (simp_all add: books_def paid_def)
  have r: "\<exists>c'. find_case db' i = Some c' \<and> rc_CurrentState c' = StateRecovered"
    if "find_case db i = Some c" "rc_CurrentState c = StateRecovered" for i c
    using fwd [OF that(1)] that(2) by (auto simp: case_lawful_def IsTerminal_def)
  have m: "rc_RecoveredAmountMinor c' = paid db i" if "find_case db' i = Some c'" for i c'
    using prior [OF that] assms(3) by (auto simp: money_ok_def case_lawful_def)
  show "money_ok db'" using assms(3) r m unfolding money_ok_def a p by blast
qed

lemma opened_evolves:
  assumes "service_CreateCase fresh now input db = Inr (c, db')" and "well_formed db" and "money_ok db"
  shows "well_formed db'" "evolves db db'" "money_ok db'"
proof -
  note f = create_case_facts [OF assms(1,2)]
  obtain d e1 e2 where d: "insert_case db c = Inr d" and e: "insertEvents d (numbered 1 [e1, e2]) = Inr db'"
    using assms(1) by (rule service_CreateCaseD)
  have a: "db_attributions db' = db_attributions db"
    using insertEvents_log [OF e] insert_caseD(1) [OF d] by simp
  have old: "find_case db' j = Some x" if "find_case db j = Some x" for j x
    using f that by (cases "j = rc_ID c") auto
  show "well_formed db'" using f by blast
  show "evolves db db'" using old by (auto simp: evolves_def case_evolves_def)
  have "rc_ID c \<notin> at_CaseID ` set (db_attributions db)" using f assms(3) by (fastforce simp: money_ok_def)
  then have "paid db' (rc_ID c) = 0" by (intro paid_none) (simp add: a)
  then have "rc_RecoveredAmountMinor x = paid db' j" if "find_case db' j = Some x" for j x
    using f that assms(3) by (cases "j = rc_ID c") (auto simp: money_ok_def paid_def a)
  then show "money_ok db'" using assms(3) old unfolding money_ok_def a by blast
qed

lemma attributed_evolves:
  assumes "AttributeRecovery fresh payment db = Inr ((r, created), db')" and "well_formed db" and "money_ok db"
  shows "well_formed db' \<and> evolves db db' \<and> money_ok db'"
  using assms(1)
proof (cases rule: AttributeRecoveryE)
  case (recorded c d fc)
  let ?i = "ob_CaseID payment"
  let ?c' = "recovered_case (ob_RecoveredAmountMinor payment) (bs_Category (basis_of payment db)) (ob_ObservedAt payment) c"
  have "find_case d j = (if j = ?i then Some ?c' else find_case db j)" for j
    using find_case_map [OF recorded(9)] recorded(2) by simp
  then have f: "find_case db' j = (if j = ?i then Some ?c' else find_case db j)" for j
    using append_events_case [OF recorded(14)] by simp
  have a: "db_attributions db' = db_attributions db @ [r]" using append_events_log [OF recorded(14)] recorded(8) by simp
  have r: "at_CaseID r = ?i" "at_RecoveredAmountMinor r = ob_RecoveredAmountMinor payment" by (simp_all add: recorded(4))
  have "case_evolves c ?c'"
    using recorded(3,6) by (auto simp: case_evolves_def same_case_def recovered_case_def advance_def)
  then have "evolves db db'" using f recorded(2) by (auto simp: evolves_def case_evolves_def)
  moreover have "well_formed db'"
    using well_formed_append_events [OF recorded(14) _ recovery_events_case] recorded(10) assms(2) by simp
  moreover have "money_ok db'"
  proof -
    have new: "?i \<notin> at_CaseID ` set (db_attributions db)" using assms(3) recorded(2,3) by (force simp: money_ok_def IsTerminal_def)
    have "paid db ?i = 0" using new by (rule paid_none)
    then have "rc_RecoveredAmountMinor c = 0" using assms(3) recorded(2) by (simp add: money_ok_def)
    then have "rc_RecoveredAmountMinor x = paid db' j" if "find_case db' j = Some x" for j x
      using that f assms(3) r \<open>paid db ?i = 0\<close> by (cases "j = ?i") (auto simp: money_ok_def paid_def a)
    moreover have "\<exists>x. find_case db' (at_CaseID y) = Some x \<and> rc_CurrentState x = StateRecovered" if "y \<in> set (db_attributions db')" for y
      using that f assms(3) r unfolding a money_ok_def by auto
    ultimately show ?thesis using assms(3) new r recorded(6) unfolding money_ok_def a by auto
  qed
  ultimately show ?thesis by blast
qed (use assms in simp_all)

lemma transaction_evolves:
  assumes "transaction db db'" and "well_formed db" and "money_ok db"
  shows "well_formed db' \<and> evolves db db' \<and> money_ok db'"
proof -
  consider "quiet db db'" | fresh now input c where "service_CreateCase fresh now input db = Inr (c, db')"
    | fresh payment r created where "AttributeRecovery fresh payment db = Inr ((r, created), db')"
    using transaction_kinds [OF assms(1)] by blast
  then show ?thesis
    using quiet_evolves [OF _ assms(2,3)] opened_evolves [OF _ assms(2,3)] attributed_evolves [OF _ assms(2,3)]
    by cases blast+
qed

section \<open>The system\<close>

text \<open>
  The database and the states its clients have read. A requested transition reads the case in one
  statement and changes it in a later one (\<open>recovery.Service.Transition\<close>), so other transactions
  may commit in between, and the read may be arbitrarily old.
\<close>

record System =
  sys_db :: Database
  sys_reads :: "Database list"

inductive step :: "System \<Rightarrow> System \<Rightarrow> bool" where
  commit: "transaction (sys_db s) db' \<Longrightarrow> step s (s\<lparr>sys_db := db'\<rparr>)"
| read: "step s (s\<lparr>sys_reads := sys_db s # sys_reads s\<rparr>)"
| move: "seen \<in> set (sys_reads s) \<Longrightarrow> service_Transition fresh now i input seen (sys_db s) = Inr (c, db')
    \<Longrightarrow> step s (s\<lparr>sys_db := db'\<rparr>)"

definition initial :: "System \<Rightarrow> bool" where
  "initial s \<longleftrightarrow> db_cases (sys_db s) = [] \<and> db_events (sys_db s) = [] \<and> db_attributions (sys_db s) = [] \<and> sys_reads s = []"

inductive reachable :: "System \<Rightarrow> bool" where
  init: "initial s \<Longrightarrow> reachable s"
| step: "reachable s \<Longrightarrow> step s s' \<Longrightarrow> reachable s'"

definition system_ok :: "System \<Rightarrow> bool" where
  "system_ok s \<longleftrightarrow> well_formed (sys_db s) \<and> money_ok (sys_db s) \<and> (\<forall>seen \<in> set (sys_reads s). evolves seen (sys_db s))"

text \<open>A case read earlier and still at the version it had is the case of now.\<close>

lemma same_version:
  assumes "evolves seen db" and "find_case seen i = Some c0" and "find_case db i = Some c" and "rc_Version c = rc_Version c0"
  shows "c = c0"
proof -
  have "case_evolves c0 c" using assms(1-3) by (force simp: evolves_def)
  then show ?thesis using assms(4) by (auto simp: case_evolves_def)
qed

lemma move_on_read:
  assumes "service_Transition fresh now i input seen db = Inr (c', db')" and "evolves seen db" and "well_formed db"
  obtains c where "find_case db i = Some c" "find_case seen i = Some c" "CanTransition (rc_CurrentState c) (ti_ToState input)"
    "quiet db db'"
proof -
  obtain c0 e where c0: "find_case seen i = Some c0" "CanTransition (rc_CurrentState c0) (ti_ToState input)"
    and t: "TransitionCase i (rc_Version c0) (ti_ToState input) e db = Inr (c', db')" and e: "ev_CaseID e = i"
    using assms(1) by (rule service_TransitionD)
  obtain c where c: "find_case db i = Some c" "rc_Version c = rc_Version c0" using TransitionCaseD(1) [OF t] by blast
  have same: "c = c0" using same_version [OF assms(2) c0(1) c] .
  note a = TransitionCaseD(3) [OF t]
  have "lawful db (update_case i (advance (ti_ToState input) (ev_Timestamp e)) db)"
    using c(1) c0(2) same TransitionCaseD(4) [OF t] by (intro lawful_advance) auto
  moreover have "lawful (update_case i (advance (ti_ToState input) (ev_Timestamp e)) db) db'"
    by (rule lawful_append_events [OF a]) (simp add: e)
  ultimately have "quiet db db'" using lawful_trans books_append [OF a] by (auto simp: quiet_def)
  then show ?thesis using that c(1) c0 same by blast
qed

lemma step_ok:
  assumes "step s s'" and "system_ok s"
  shows "system_ok s' \<and> evolves (sys_db s) (sys_db s')"
proof -
  have wf: "well_formed (sys_db s)" "money_ok (sys_db s)" and seen: "\<forall>x \<in> set (sys_reads s). evolves x (sys_db s)"
    using assms(2) by (auto simp: system_ok_def)
  have new: "system_ok s' \<and> evolves (sys_db s) (sys_db s')"
    if "well_formed (sys_db s') \<and> evolves (sys_db s) (sys_db s') \<and> money_ok (sys_db s')" "sys_reads s' = sys_reads s"
    using that seen evolves_trans by (auto simp: system_ok_def)
  show ?thesis
    using assms(1)
  proof (cases rule: step.cases)
    case (commit db')
    then show ?thesis using new transaction_evolves [OF _ wf] by simp
  next
    case read
    then show ?thesis using wf seen by (simp add: system_ok_def)
  next
    case (move x fresh now i input c db')
    have "evolves x (sys_db s)" using move(2) seen by blast
    then obtain k where "quiet (sys_db s) db'" using move_on_read [OF move(3) _ wf(1)] by blast
    then show ?thesis using new quiet_evolves [OF _ wf] move(1) by simp
  qed
qed

lemma reachable_ok: "reachable s \<Longrightarrow> system_ok s"
proof (induction rule: reachable.induct)
  case (init s)
  then show ?case
    by (simp add: system_ok_def initial_def well_formed_def money_ok_def keyed_def sources_distinct_def gap_free_def
        case_log_def find_case_def)
next
  case (step s s')
  then show ?case using step_ok by blast
qed

text \<open>Summing by key: the amounts of all cases together are the amounts of all attributions.\<close>

lemma sum_at_key: "distinct ks \<Longrightarrow> sum_list (map (\<lambda>i. if k = i then v else (0 :: int)) ks) = (if k \<in> set ks then v else 0)"
  by (induction ks) auto

lemma sum_by_key:
  assumes "distinct ks" and "key ` set xs \<subseteq> set ks"
  shows "sum_list (map (\<lambda>k. sum_list (map f (filter (\<lambda>x. key x = k) xs))) ks) = (sum_list (map f xs) :: int)"
  using assms(2)
proof (induction xs)
  case (Cons x xs)
  have "(\<lambda>k. sum_list (map f (filter (\<lambda>y. key y = k) (x # xs))))
      = (\<lambda>k. (if key x = k then f x else 0) + sum_list (map f (filter (\<lambda>y. key y = k) xs)))" by auto
  then show ?case using Cons sum_at_key [OF assms(1), of "key x" "f x"] by (simp add: sum_list_addf)
qed simp

lemma recovered_total:
  assumes "well_formed db" and "money_ok db"
  shows "sum_list (map rc_RecoveredAmountMinor (db_cases db)) = sum_list (map at_RecoveredAmountMinor (db_attributions db))"
proof -
  have k: "distinct (map rc_ID (db_cases db))" using assms(1) by (simp add: well_formed_def keyed_def)
  have "rc_RecoveredAmountMinor c = paid db (rc_ID c)" if "c \<in> set (db_cases db)" for c
    using lookup_distinct [OF k that] assms(2) by (simp add: money_ok_def find_case_def)
  then have "sum_list (map rc_RecoveredAmountMinor (db_cases db)) = sum_list (map (paid db) (map rc_ID (db_cases db)))"
    by (simp add: o_def cong: map_cong)
  moreover have "at_CaseID ` set (db_attributions db) \<subseteq> set (map rc_ID (db_cases db))"
  proof
    fix i assume "i \<in> at_CaseID ` set (db_attributions db)"
    then have "find_case db i \<noteq> None" using assms(2) by (auto simp: money_ok_def)
    then show "i \<in> set (map rc_ID (db_cases db))" by (simp add: find_case_None books_def)
  qed
  then have "sum_list (map (paid db) (map rc_ID (db_cases db))) = sum_list (map at_RecoveredAmountMinor (db_attributions db))"
    using sum_by_key [OF k, of at_CaseID _ at_RecoveredAmountMinor] unfolding paid_def by blast
  ultimately show ?thesis by (rule trans)
qed

section \<open>Composite operations\<close>

text \<open>What commits step by step is a sequence of transactions.\<close>

abbreviation run :: "Database \<Rightarrow> Database \<Rightarrow> bool" where
  "run \<equiv> transaction\<^sup>*\<^sup>*"

lemma run_one: "transaction a b \<Longrightarrow> run a b"
  by (rule r_into_rtranclp)

lemma run_more: "run a b \<Longrightarrow> transaction b c \<Longrightarrow> run a c"
  by (rule rtranclp.rtrancl_into_rtrancl)

lemma run_suppress: "run db (suppress fresh a reason now db)"
  by (rule suppress_cases [of fresh a reason now db]) (auto intro: run_one transaction.mark_suppressed)

lemma run_Decide: "Decide predictor zone fresh clock i db = (r, db') \<Longrightarrow> run db db'"
proof -
  assume d: "Decide predictor zone fresh clock i db = (r, db')"
  show ?thesis
  proof (cases "PrepareForDecision (fresh 0) i (clock 0) db")
    case (Inl e)
    then show ?thesis using d by (simp add: Decide_def)
  next
    case (Inr x)
    obtain u d1 where x: "x = (u, d1)" by (cases x)
    have p: "run db d1" using Inr x by (auto intro: run_one transaction.prepare)
    have "db' = d1 \<or> (\<exists>s a. SaveDecisionAndSchedule (fresh 2) (clock 3) s d1 = Inr (a, db'))"
      using d Inr x by (auto simp: Decide_def split: sum.splits)
    then show ?thesis using p run_more transaction.decide by blast
  qed
qed

lemma run_Reassess: "run db (snd (Reassess predictor zone fresh clock i db))"
  using run_Decide [of predictor zone fresh clock i db] by (auto simp: Reassess_def split: prod.splits sum.splits)

text \<open>A reassessor that commits transactions only; the coordinator is one.\<close>

definition commits :: "Reassessor option \<Rightarrow> bool" where
  "commits r \<longleftrightarrow> (\<forall>f i db. r = Some f \<longrightarrow> run db (snd (f i db)))"

lemma commits_Reassess [simp]: "commits (Some (Reassess predictor zone fresh clock))"
  by (simp add: commits_def run_Reassess)

lemma commitsD: "commits (Some f) \<Longrightarrow> f i db = (e, db') \<Longrightarrow> run db db'"
  unfolding commits_def by (metis snd_conv)

text \<open>The executors of the worker write their outboxes only.\<close>

lemma run_outbox:
  "SavePaymentLink n i link db = Inr db' \<Longrightarrow> run db db'" "RequestRetry n key payload db = Inr (q, db') \<Longrightarrow> run db db'"
  by (rule run_one, erule transaction.save_link) (rule run_one, erule transaction.request_retry)

lemma run_capture: "capture n r tmpl payload db = (y, db') \<Longrightarrow> run db db'"
  by (auto simp: capture_def intro: run_one transaction.capture_email split: sum.splits prod.splits)

lemma run_link: "link_Execute p n i q s = (y, s') \<Longrightarrow> run (fst s) (fst s')"
  by (auto simp: link_Execute_def dest: run_outbox(1) split: option.splits sum.splits prod.splits)

lemma run_registry:
  assumes "registry_Execute (worker_registry provider n t) r s = (y, s')"
  shows "run (fst s) (fst s')"
proof -
  have email: "email_Execute n t r s = (y, s') \<Longrightarrow> run (fst s) (fst s')"
    by (auto simp: email_Execute_def dest: run_capture split: sum.splits prod.splits)
  have local: "local_link_Execute n t r s = (y, s') \<Longrightarrow> run (fst s) (fst s')"
    by (auto simp: local_link_Execute_def dest: run_capture split: sum.splits prod.splits)
  have pay: "payment_Execute p n t r s = (y, s') \<Longrightarrow> run (fst s) (fst s')" for p
    by (auto simp: payment_Execute_def dest: run_link split: sum.splits prod.splits)
  have retry: "retry_Execute True n t r s = (y, s') \<Longrightarrow> run (fst s) (fst s')"
    by (auto simp: retry_Execute_def dest: run_outbox(2) split: sum.splits prod.splits)
  show ?thesis
    using assms email local pay retry unfolding registry_cases by (auto split: if_splits option.splits)
qed

lemma run_after_execution:
  assumes "after_execution w a result f s = (y, s')" and "commits (wk_Reassessor w)"
  shows "run (fst s) (fst s')"
  using assms commitsD
  by (cases "er_Status result = ''FAILED'' \<and> \<not> er_Retryable result"; cases "wk_Reassessor w")
    (fastforce simp: after_execution_def split: prod.splits option.splits)+

lemma run_perform:
  assumes "perform w fresh clock now a ctx s = (y, s')" and "wk_Registry w = worker_registry provider" and "commits (wk_Reassessor w)"
  shows "run (fst s) (fst s')"
proof (cases "MarkExecuting a now (fst s)")
  case (Inl e)
  then show ?thesis using assms(1) by (auto simp: perform_def execute_scheduled_def split: option.splits)
next
  case (Inr x)
  obtain u d where x: "x = (u, d)" by (cases x)
  have m: "run (fst s) d" using Inr x by (auto intro: run_one transaction.mark_executing)
  show ?thesis
  proof (cases "reconcile_result w (fresh 2 0) (clock 2) (fresh 1 0) a s")
    case (Some r)
    have "fst s' = d \<or> (\<exists>v. CompleteExecution (fresh 3) a r (clock 3) d = Inr (v, fst s'))"
      using assms(1) Inr x Some by (auto simp: perform_def split: sum.splits)
    then show ?thesis using m run_more transaction.complete by (metis (full_types))
  next
    case None
    obtain result g s1 where q: "registry_Execute (wk_Registry w (fresh 2 0) (clock 2)) (request_of (fresh 1 0) a ctx) (d, snd s)
        = ((result, g), s1)" by (metis prod.exhaust)
    have e: "run (fst s) (fst s1)" using m run_registry [OF q [unfolded assms(2)]] by simp
    note run = assms(1) [unfolded perform_def None option.case execute_scheduled_def Inr x sum.case prod.case q]
    show ?thesis
    proof (cases "CompleteExecution (fresh 3) a result (clock 3) (fst s1)")
      case (Inl err)
      then show ?thesis using run e by auto
    next
      case (Inr z)
      obtain v d2 where z: "z = (v, d2)" by (cases z)
      have "run (fst s) d2" using e Inr z by (auto intro: run_more transaction.complete)
      moreover have "run d2 (fst s')"
        using run_after_execution [of w a result g "(d2, snd s1)" y s'] run Inr z assms(3) by simp
      ultimately show ?thesis by simp
    qed
  qed
qed

lemma run_RunOnce:
  assumes "RunOnce w fresh clock s = (y, s')" and "wk_Registry w = worker_registry provider" and "commits (wk_Reassessor w)"
  shows "run (fst s) (fst s')"
proof -
  obtain x e where "RunOnce w fresh clock s = ((x, e), s')" using assms(1) by (cases y) simp
  then show ?thesis
  proof (cases rule: RunOnceE)
    case (refused a d)
    then have "run (fst s) d" by (auto intro: run_one transaction.claim)
    then show ?thesis using refused(4) run_suppress rtranclp_trans [of transaction] by metis
  next
    case (performed a d ctx auth)
    then have "run (fst s) d" by (auto intro: run_one transaction.claim)
    then show ?thesis using run_perform [OF performed(6) assms(2,3)] by simp
  qed simp
qed

lemma run_RunObservationOnce:
  assumes "RunObservationOnce w fresh now db = (e, db')" and "commits (wk_Reassessor w)"
  shows "run db db'"
proof (cases "ClaimDueObservation (wk_ID w) now (2 * Minute) db")
  case (Inl err)
  then show ?thesis using assms(1) by (simp add: RunObservationOnce_def)
next
  case (Inr x)
  obtain a d where x: "x = (a, d)" by (cases x)
  have c: "run db d" using Inr x by (auto intro: run_one transaction.claim_observation)
  show ?thesis
  proof (cases "PrepareReassessment fresh a now d")
    case (Inl err)
    then show ?thesis using assms(1) c Inr x by (simp add: RunObservationOnce_def)
  next
    case p: (Inr z)
    obtain ready d2 where z: "z = (ready, d2)" by (cases z)
    have "run db d2" using c p z by (auto intro: run_more transaction.reassess)
    moreover have "run d2 db'"
      using assms Inr x p z commitsD
      by (cases ready; cases "wk_Reassessor w") (fastforce simp: RunObservationOnce_def split: prod.splits)+
    ultimately show ?thesis by simp
  qed
qed

lemma run_RunDueCheck:
  assumes "RunDueCheck r fresh clock worker db = (e, db')" and "commits r"
  shows "run db db'"
proof -
  obtain p d where p: "ClaimDuePromise worker (clock 0) (2 * Minute) db = (p, d)" by (metis prod.exhaust)
  have c: "run db d" using p by (auto intro: run_one transaction.claim_promise)
  show ?thesis
  proof (cases p)
    case (Inl err)
    then show ?thesis using assms(1) p c by (simp add: RunDueCheck_def)
  next
    case (Inr q)
    show ?thesis
    proof (cases "ResolveDuePromise fresh (pp_ID q) (clock 1) d")
      case (Inl err)
      then show ?thesis using assms(1) p c Inr by (simp add: RunDueCheck_def)
    next
      case z: (Inr z)
      obtain resolved d2 where z2: "z = (resolved, d2)" by (cases z)
      have "run db d2" using c z z2 by (auto intro: run_more transaction.resolve_promise)
      moreover have "run d2 db'"
        using assms p Inr z z2 commitsD
        by (cases "pp_Status resolved = PromiseBroken"; cases r) (fastforce simp: RunDueCheck_def split: prod.splits)+
      ultimately show ?thesis by simp
    qed
  qed
qed

text \<open>The ingestion of a response, with the promise service behind it (\<open>cmd/api/main.go\<close>).\<close>

lemma run_promise: "CreatePromise fresh p corr db = Inr (x, db') \<Longrightarrow> run db db'"
  by (rule run_one, erule transaction.create_promise)

lemma run_CreateFromResponse: "CreateFromResponse weekdays zone fresh t r db = (e, db') \<Longrightarrow> run db db'"
  by (auto simp: CreateFromResponse_def promises_Create_def Let_def andThen_Inr dest!: run_promise
      split: option.splits sum.splits if_splits prod.splits)

lemma run_Ingest:
  assumes "Ingest (Some (CreateFromResponse weekdays zone fresh t)) fresh2 now input db = (x, db')"
  shows "run db db'"
proof -
  have i: "run db d" if "ingest_response (Some (CreateFromResponse weekdays zone fresh t)) f r db = (z, d)" for f r z d
  proof (cases "SaveCustomerResponse f r db")
    case (Inl e)
    then show ?thesis using that by (simp add: ingest_response_def)
  next
    case (Inr y)
    obtain created d1 where y: "y = (created, d1)" by (cases y)
    have s: "run db d1" using Inr y by (auto intro: run_one transaction.respond)
    obtain e d2 where c: "CreateFromResponse weekdays zone fresh t r d1 = (e, d2)" by (metis prod.exhaust)
    have "d = d1 \<or> d = d2" using that Inr y c by (auto simp: ingest_response_def split: if_splits)
    then show ?thesis using s run_CreateFromResponse [OF c] by auto
  qed
  show ?thesis using assms i by (auto simp: Ingest_def split: if_splits payload.splits)
qed

section \<open>The worker process\<close>

text \<open>
  \<open>cmd/worker/main.go\<close>: the worker as it is wired, and one tick of its loop. Every tick tries one
  due promise check, one scheduled action and one observation; an error other than an empty
  queue is logged and the loop goes on. The result is the names logged, in order.
\<close>

definition wired_worker :: "'p Provider option \<Rightarrow> Predictor \<Rightarrow> zone_db \<Rightarrow> (nat \<Rightarrow> nat \<Rightarrow> ID) \<Rightarrow> (nat \<Rightarrow> time) \<Rightarrow> string \<Rightarrow> 'p Worker" where
  "wired_worker provider predictor zone fresh clock hostname =
     \<lparr>wk_ID = ''worker:'' @ hostname, wk_Zone = zone, wk_Registry = worker_registry provider,
      wk_Reassessor = Some (Reassess predictor zone fresh clock)\<rparr>"

definition worker_tick :: "'p Worker \<Rightarrow> string \<Rightarrow> (nat \<Rightarrow> nat \<Rightarrow> nat \<Rightarrow> ID) \<Rightarrow> (nat \<Rightarrow> nat \<Rightarrow> time) \<Rightarrow> Database \<times> 'p
    \<Rightarrow> string list \<times> Database \<times> 'p" where
  "worker_tick w hostname fresh clock s =
     (case RunDueCheck (wk_Reassessor w) (fresh 0 0) (clock 0) (''promise-worker:'' @ hostname) (fst s) of (promiseErr, db) \<Rightarrow>
      case RunOnce w (fresh 1) (clock 1) (db, snd s) of ((_, workErr), s) \<Rightarrow>
      case RunObservationOnce w (fresh 2 0) (clock 2 0) (fst s) of (observationErr, db) \<Rightarrow>
        ((if promiseErr \<notin> {None, Some ErrNoDuePromise} then [''promise_check_processing_failed''] else [])
         @ (if workErr \<notin> {None, Some (RunErr ErrNoDueWork)} then [''scheduled_action_processing_failed''] else [])
         @ (if observationErr \<notin> {None, Some (RunErr ErrNoDueObservation)} then [''outcome_observation_processing_failed''] else []),
         (db, snd s)))"

lemma run_worker_tick:
  assumes "worker_tick (wired_worker provider predictor zone fresh0 clock0 hostname) hostname fresh clock s = (logged, s')"
  shows "run (fst s) (fst s')"
proof -
  let ?w = "wired_worker provider predictor zone fresh0 clock0 hostname"
  have w: "wk_Registry ?w = worker_registry provider" "commits (wk_Reassessor ?w)" by (simp_all add: wired_worker_def)
  obtain e1 d1 where r1: "RunDueCheck (wk_Reassessor ?w) (fresh 0 0) (clock 0) (''promise-worker:'' @ hostname) (fst s) = (e1, d1)"
    by (metis prod.exhaust)
  obtain y s2 where r2: "RunOnce ?w (fresh 1) (clock 1) (d1, snd s) = (y, s2)" by (metis prod.exhaust)
  obtain e3 d3 where r3: "RunObservationOnce ?w (fresh 2 0) (clock 2 0) (fst s2) = (e3, d3)" by (metis prod.exhaust)
  have "s' = (d3, snd s2)"
    using assms unfolding worker_tick_def r1 prod.case r2 r3 by (cases y) (simp add: r3)
  then show ?thesis
    using run_RunDueCheck [OF r1 w(2)] run_RunOnce [OF r2 w] run_RunObservationOnce [OF r3 w(2)] by simp
qed

lemma sys_db_same: "s\<lparr>sys_db := sys_db s\<rparr> = s"
  by (cases s) simp

lemma reachable_run: "run db db' \<Longrightarrow> reachable s \<Longrightarrow> sys_db s = db \<Longrightarrow> reachable (s\<lparr>sys_db := db'\<rparr>)"
proof (induction rule: rtranclp_induct)
  case base
  then show ?case by (metis sys_db_same)
next
  case (step b c)
  then have "Lifecycle.step (s\<lparr>sys_db := b\<rparr>) (s\<lparr>sys_db := b\<rparr>\<lparr>sys_db := c\<rparr>)" by (intro commit) simp
  then show ?case using step reachable.step by simp
qed

lemma run_evolves:
  assumes "run db db'" and "well_formed db" and "money_ok db"
  shows "well_formed db' \<and> money_ok db' \<and> evolves db db'"
  using assms
proof (induction rule: rtranclp_induct)
  case (step b d)
  then have "well_formed b" "money_ok b" "evolves db b" by simp_all
  then show ?case using transaction_evolves [OF step(2)] evolves_trans by blast
qed simp

section \<open>Properties\<close>


text \<open>C9. The two statements of a requested transition act as one: if a transition succeeds on a
  case its client read at some earlier time, then the case has not changed since, the edge taken
  is declared from the state it is in now, and reading and changing it at once would have given
  the same result.\<close>

theorem transitions_serialize:
  assumes "reachable s" and "seen \<in> set (sys_reads s)"
    and "service_Transition fresh now i input seen (sys_db s) = Inr (c', db')"
  shows "find_case seen i = find_case (sys_db s) i
    \<and> (\<exists>c. find_case (sys_db s) i = Some c \<and> CanTransition (rc_CurrentState c) (rc_CurrentState c'))
    \<and> service_Transition fresh now i input (sys_db s) (sys_db s) = Inr (c', db')"
proof -
  have "evolves seen (sys_db s)" "well_formed (sys_db s)" using reachable_ok [OF assms(1)] assms(2) by (auto simp: system_ok_def)
  then obtain c where c: "find_case (sys_db s) i = Some c" "find_case seen i = Some c" "CanTransition (rc_CurrentState c) (ti_ToState input)"
    using move_on_read [OF assms(3)] by metis
  have same: "service_Transition fresh now i input seen d = service_Transition fresh now i input (sys_db s) d" for d
    using c(1,2) by (simp add: service_Transition_def GetCase_def)
  have "rc_CurrentState c' = ti_ToState input"
    using assms(3) by (rule service_TransitionD) (use TransitionCaseD(1) in \<open>force simp: advance_def\<close>)
  then show ?thesis using c assms(3) same by auto
qed

text \<open>C12. Along every run a case keeps its id, merchant, customer, source, amount and deadline and is
  never lost; its version tells whether it changed; once recovered, exhausted or stopped it
  never changes again; and an open case gets on only along declared transitions, unless a
  payment recovers it.\<close>

theorem cases_evolve:
  assumes "reachable s" and "step\<^sup>*\<^sup>* s s'" and "find_case (sys_db s) i = Some c"
  shows "\<exists>c'. find_case (sys_db s') i = Some c' \<and> same_case c c' \<and> rc_Version c \<le> rc_Version c'
    \<and> (rc_Version c' = rc_Version c \<or> IsTerminal (rc_CurrentState c) \<longrightarrow> c' = c)
    \<and> (rc_CurrentState c' = StateRecovered \<and> rc_RecoveredAmountMinor c < rc_RecoveredAmountMinor c'
       \<or> rc_RecoveredAmountMinor c' = rc_RecoveredAmountMinor c \<and> lifecycle_path (rc_CurrentState c) (rc_CurrentState c'))"
proof -
  have "system_ok s' \<and> evolves (sys_db s) (sys_db s')"
    using assms(2)
  proof (induction rule: rtranclp_induct)
    case base
    then show ?case using reachable_ok [OF assms(1)] by simp
  next
    case (step b d)
    then show ?case using step_ok evolves_trans by blast
  qed
  then obtain c' where c': "find_case (sys_db s') i = Some c'" "case_evolves c c'"
    using assms(3) unfolding evolves_def by blast
  show ?thesis
  proof (cases "c' = c")
    case True
    then show ?thesis using c'(1) by (simp add: same_case_def)
  next
    case False
    then have "same_case c c'" "\<not> IsTerminal (rc_CurrentState c)" "rc_Version c < rc_Version c'"
      "rc_RecoveredAmountMinor c' = rc_RecoveredAmountMinor c \<and> lifecycle_path (rc_CurrentState c) (rc_CurrentState c')
        \<or> rc_RecoveredAmountMinor c < rc_RecoveredAmountMinor c' \<and> rc_CurrentState c' = StateRecovered"
      using c'(2) unfolding case_evolves_def by blast+
    then show ?thesis using c'(1) by (intro exI [of _ c']) (simp, blast)
  qed
qed


section \<open>Draining the queue\<close>

text \<open>A transaction repeated until it fails, as ticks in quick succession do; the fuel bounds the number.\<close>

fun until_error :: "nat \<Rightarrow> 'a tx \<Rightarrow> Database \<Rightarrow> 'a list \<times> error option \<times> Database" where
  "until_error 0 tx db = ([], None, db)"
| "until_error (Suc n) tx db =
     (case tx db of Inl e \<Rightarrow> ([], Some e, db)
      | Inr (x, db) \<Rightarrow> (let (xs, e, db) = until_error n tx db in (x # xs, e, db)))"

lemma until_error_drain:
  assumes "drain n (Lease.claim (work_ready now) due_at sa_ID (grant_work w now lease)) (db_scheduled db) = (rs, t)"
    and "\<forall>x \<in> set t. \<not> work_ready now x"
  shows "until_error (Suc n) (ClaimDue w now lease) db
     = (map ScheduledAction.truncate rs, Some ErrNoDueWork, db\<lparr>db_scheduled := t\<rparr>)"
  using assms
proof (induction n arbitrary: db rs)
  case 0
  then have "Lease.claim (work_ready now) due_at sa_ID (grant_work w now lease) (db_scheduled db) = None"
    by (simp add: claim_None)
  then show ?case using 0 by (simp add: ClaimDue_def)
next
  case (Suc n)
  let ?claim = "Lease.claim (work_ready now) due_at sa_ID (grant_work w now lease)"
  show ?case
  proof (cases "?claim (db_scheduled db)")
    case None
    then have "rs = []" "t = db_scheduled db" using Suc.prems(1) by simp_all
    then show ?thesis using None by (simp add: ClaimDue_def)
  next
    case (Some p)
    obtain r t1 where p: "p = (r, t1)" by (cases p)
    obtain rs' where rs: "drain n ?claim t1 = (rs', t)" "rs = r # rs'"
      using Suc.prems(1) Some p by (auto split: prod.splits)
    have "until_error (Suc n) (ClaimDue w now lease) (db\<lparr>db_scheduled := t1\<rparr>)
        = (map ScheduledAction.truncate rs', Some ErrNoDueWork, db\<lparr>db_scheduled := t\<rparr>)"
      using Suc.IH [of "db\<lparr>db_scheduled := t1\<rparr>" rs'] rs(1) Suc.prems(2) by simp
    moreover have "ClaimDue w now lease db = Inr (ScheduledAction.truncate r, db\<lparr>db_scheduled := t1\<rparr>)"
      using Some p by (simp add: ClaimDue_def)
    ultimately show ?thesis using rs(2) by (simp add: until_error.simps(2) [of "Suc n"] del: until_error.simps)
  qed
qed

text \<open>C37. Claiming comes to an end: workers that keep claiming at one instant get each due action once,
  in the order of due time and id, and after as many claims as there are due actions the
  answer is "no due work", with nothing due left; fuel for one more claim than that is enough.\<close>

theorem claiming_terminates:
  assumes "keyed sa_ID (db_scheduled db)" and "0 < lease"
    and "length (filter (work_ready now) (db_scheduled db)) < fuel"
  shows "\<exists>as t. until_error fuel (ClaimDue w now lease) db = (as, Some ErrNoDueWork, db\<lparr>db_scheduled := t\<rparr>)
    \<and> map sa_ID as = map sa_ID (sort_by (due_less due_at sa_ID) (filter (work_ready now) (db_scheduled db)))
    \<and> (\<forall>x \<in> set t. \<not> work_ready now x) \<and> map sa_ID t = map sa_ID (db_scheduled db)"
proof -
  obtain n where n: "fuel = Suc n" "length (filter (work_ready now) (db_scheduled db)) \<le> n"
    using assms(3) by (cases fuel) auto
  obtain rs t where d: "drain n (Lease.claim (work_ready now) due_at sa_ID (grant_work w now lease)) (db_scheduled db) = (rs, t)"
      "map sa_ID rs = map sa_ID (sort_by (due_less due_at sa_ID) (filter (work_ready now) (db_scheduled db)))"
      "\<forall>x \<in> set t. \<not> work_ready now x" "map sa_ID t = map sa_ID (db_scheduled db)"
    using work.drain_all [OF assms(1,2) n(2), of w] by blast
  have "map sa_ID (map ScheduledAction.truncate rs) = map sa_ID rs" by (simp add: ScheduledAction.truncate_def)
  then show ?thesis using until_error_drain [OF d(1,3)] d n(1) by auto
qed

lemma claiming_example:
  "length (filter (work_ready 0) (db_scheduled scheduled_db)) < 2" "keyed sa_ID (db_scheduled scheduled_db)"
  by (simp_all add: scheduled_facts(2) keyed_def)

theorem claiming_terminates_witness:
  "\<exists>a db. until_error 2 (ClaimDue ''w'' 0 (2 * Minute)) scheduled_db = ([a], Some ErrNoDueWork, db) \<and> sa_ID a = sa_ID scheduled_action"
proof -
  have l: "0 < 2 * Minute" by (simp add: Minute_def)
  have "work_ready 0 (new_scheduled scheduled_action 0)"
    using claimed by (auto simp: ClaimDue_def scheduled_facts(2) claim_def split: option.splits if_splits)
  then have f: "filter (work_ready 0) (db_scheduled scheduled_db) = [new_scheduled scheduled_action 0]" by (simp add: scheduled_facts(2))
  show ?thesis
    using claiming_terminates [OF claiming_example(2) l claiming_example(1), of "''w''"]
    by (auto simp: f map_eq_Cons_conv new_scheduled_def ScheduledAction.extend_def)
qed

section \<open>Examples\<close>

definition shop_system :: System where
  "shop_system = \<lparr>sys_db = shop_db, sys_reads = []\<rparr>"

lemma reachable_created: "reachable \<lparr>sys_db = created_db, sys_reads = []\<rparr>"
proof -
  have "reachable shop_system" by (rule init) (simp add: initial_def shop_system_def shop_db_def empty_db_def)
  moreover have "step shop_system (shop_system\<lparr>sys_db := created_db\<rparr>)"
    using created by (intro commit transaction.open_case) (simp add: shop_system_def)
  ultimately show ?thesis using reachable.step by (fastforce simp: shop_system_def)
qed

lemma created_found: "find_case created_db (rc_ID created_case) = Some created_case"
  using create_case_facts [OF created shop_well_formed] by blast

lemma created_tables:
  "db_attributions created_db = []" "db_executions created_db = []" "db_promises created_db = []" "db_decisions created_db = []"
  "ev_ID ` set (db_events created_db) = {ids CHR ''a'' 2, ids CHR ''a'' 3}" "db_cases created_db = [created_case]"
  by (auto simp: created_db_def created_case_def Let_def service_CreateCase_def example_input_def CreateCase_def insert_case_def
      case_of_input_def shop_db_def empty_db_def find_case_def lookup_Cons insertEvent_def newEvent_def event_of_def Hour_def
      TrimSpace_def is_space_def IsValid_def)

lemma created_attributed: "\<exists>r db. AttributeRecovery (ids CHR ''t'') example_payment created_db = Inr ((r, True), db)"
proof -
  let ?b = "plain_basis Natural ''WEAK'' [(''prior_execution_count'', JInt 0)]"
  have m: "exact_match example_payment created_db = None" "ptp_match example_payment created_db = None"
    "window_match n k example_payment created_db = None" "prior_executions example_payment created_db = 0"
    "latest_decision example_payment created_db = None" for n k
    by (simp_all add: exact_match_def joined_def ptp_match_def window_match_def prior_executions_def latest_decision_def created_tables)
  have b: "basis_of example_payment created_db = ?b" by (simp add: basis_of_def m)
  define r where "r = record_of (ids CHR ''t'' 0) example_payment ?b None (evidence_json ?b)"
  define d1 where "d1 = created_db\<lparr>db_attributions := [r]\<rparr>"
  define d3 where "d3 = update_case (rc_ID created_case) (recovered_case 10000 Natural Hour) d1"
  have i: "insert_attribution r created_db = Inr d1" by (simp add: insert_attribution_def d1_def r_def created_tables)
  have f: "fulfil_promise (\<lambda>k. ids CHR ''t'' (k + 1)) example_payment ?b None d1 = Inr d1" by (simp add: fulfil_promise_def)
  have u: "recover_case example_payment Natural created_case d1 = Inr d3"
    by (simp add: recover_case_def d3_def in_i64_def created_case_eq)
  have "well_formed d1" using created_well_formed well_formed_cong [of d1 created_db] by (simp add: d1_def)
  then have w: "well_formed d3" unfolding d3_def by (intro well_formed_update_case keeps_identity_recovered)
  have c: "find_case d3 (rc_ID created_case) \<noteq> None"
    using created_found by (simp add: d3_def d1_def find_case_update) (simp add: find_case_def)
  have "append_events d3 (rc_ID created_case) (recovery_events (ids CHR ''t'') example_payment StateDetected r False)
      = Inr (d3\<lparr>db_events := db_events d3 @ numbered (nextSequence d3 (rc_ID created_case))
          (recovery_events (ids CHR ''t'') example_payment StateDetected r False)\<rparr>)"
  proof (rule append_events_ok [OF w])
    have "db_events d3 = db_events created_db" by (simp add: d3_def d1_def)
    then show "ev_ID ` set (recovery_events (ids CHR ''t'') example_payment StateDetected r False) \<inter> ev_ID ` set (db_events d3) = {}"
      using created_tables(5) by (auto simp: recovery_events_def event_of_def)
  qed (use c in \<open>simp_all add: recovery_events_def event_of_def\<close>)
  moreover have "rc_CurrentState created_case = StateDetected" by (simp add: created_case_eq)
  ultimately show ?thesis
    using i f u created_found b
    by (simp add: AttributeRecovery_def IsTerminal_def m r_def feedback_step_def Let_def plain_basis_def created_tables)
qed

lemma reachable_attributed:
  assumes "AttributeRecovery (ids CHR ''t'') example_payment created_db = Inr ((r, True), db)"
  shows "reachable \<lparr>sys_db = db, sys_reads = []\<rparr>" "step \<lparr>sys_db = created_db, sys_reads = []\<rparr> \<lparr>sys_db = db, sys_reads = []\<rparr>"
    "map at_RecoveredAmountMinor (db_attributions db) = [10000]"
proof -
  have "transaction created_db db" using assms by (rule transaction.attribute)
  then show s: "step \<lparr>sys_db = created_db, sys_reads = []\<rparr> \<lparr>sys_db = db, sys_reads = []\<rparr>"
    using commit [of "\<lparr>sys_db = created_db, sys_reads = []\<rparr>" db] by simp
  show "reachable \<lparr>sys_db = db, sys_reads = []\<rparr>" by (rule reachable.step [OF reachable_created s])
  show "map at_RecoveredAmountMinor (db_attributions db) = [10000]"
    using assms
  proof (cases rule: AttributeRecoveryE)
    case (recorded c d fc)
    then show ?thesis using append_events_log [OF recorded(14)] by (simp add: created_tables)
  qed simp_all
qed


theorem cases_evolve_witness:
  "\<exists>db c. step \<lparr>sys_db = created_db, sys_reads = []\<rparr> \<lparr>sys_db = db, sys_reads = []\<rparr> \<and> find_case db (rc_ID created_case) = Some c
     \<and> same_case created_case c"
proof -
  obtain r db where a: "AttributeRecovery (ids CHR ''t'') example_payment created_db = Inr ((r, True), db)"
    using created_attributed by blast
  note f = reachable_attributed [OF a]
  show ?thesis
    using cases_evolve [OF reachable_created r_into_rtranclp [of step, OF f(2)], of "rc_ID created_case" created_case] created_found f(2)
    by auto
qed

definition later_db :: Database where
  "later_db = created_db\<lparr>db_retry_requests := [\<lparr>rq_ID = ''q1'', rq_IdempotencyKey = ''k'', rq_Payload = None\<rparr>]\<rparr>"

lemma later_transitioned:
  "\<exists>c db. service_Transition (ids CHR ''b'') 0 (rc_ID created_case) (example_transition StateDiagnosing)
     created_db later_db = Inr (c, db)"
  by (simp add: later_db_def created_db_def created_case_def example_transition_def Let_def service_CreateCase_def example_input_def
      CreateCase_def insert_case_def case_of_input_def shop_db_def empty_db_def find_case_def lookup_Cons
      insertEvent_def newEvent_def event_of_def Hour_def TrimSpace_def is_space_def IsValid_def
      service_Transition_def GetCase_def ValidateTransition_def CanTransition_def TransitionCase_def update_case_def
      modify_def nextSequence_def advance_def)

theorem transitions_serialize_witness:
  "\<exists>c db. reachable \<lparr>sys_db = later_db, sys_reads = [created_db]\<rparr>
     \<and> service_Transition (ids CHR ''b'') 0 (rc_ID created_case) (example_transition StateDiagnosing) created_db later_db = Inr (c, db)
     \<and> service_Transition (ids CHR ''b'') 0 (rc_ID created_case) (example_transition StateDiagnosing) later_db later_db = Inr (c, db)"
proof -
  let ?s = "\<lparr>sys_db = created_db, sys_reads = [created_db]\<rparr>"
  have "step \<lparr>sys_db = created_db, sys_reads = []\<rparr> ?s"
    using read [of "\<lparr>sys_db = created_db, sys_reads = []\<rparr>"] by simp
  then have r: "reachable ?s" by (rule reachable.step [OF reachable_created])
  have "db_retry_requests created_db = []"
    by (simp add: created_db_def Let_def service_CreateCase_def example_input_def CreateCase_def insert_case_def case_of_input_def
        shop_db_def empty_db_def find_case_def lookup_Cons insertEvent_def newEvent_def event_of_def Hour_def
        TrimSpace_def is_space_def IsValid_def)
  then have "RequestRetry ''q1'' ''k'' None created_db = Inr (''q1'', later_db)" by (simp add: RequestRetry_def later_db_def)
  then have "step ?s (?s\<lparr>sys_db := later_db\<rparr>)" by (intro commit transaction.request_retry) simp
  then have r2: "reachable \<lparr>sys_db = later_db, sys_reads = [created_db]\<rparr>" using reachable.step [OF r] by fastforce
  obtain c db where t: "service_Transition (ids CHR ''b'') 0 (rc_ID created_case) (example_transition StateDiagnosing)
     created_db later_db = Inr (c, db)" using later_transitioned by blast
  show ?thesis
    using transitions_serialize [OF r2, of created_db "ids CHR ''b''" 0 "rc_ID created_case" "example_transition StateDiagnosing" c db]
      r2 t by auto
qed


end
