(* ===== verification/Time_Text.thy ===== *)
theory Time_Text
  imports Promises
begin

text \<open>
  The text of a time (\<open>time.Time\<close> in JSON): what \<open>format_time\<close> writes, \<open>parse_time\<close> reads back.
  The calendar first, then the digits.
\<close>

section \<open>The calendar\<close>

text \<open>The first day of a year of the 400-year cycle, and the count the year is read from.\<close>

definition year_start :: "int \<Rightarrow> int" where
  "year_start y = 365 * y + y div 4 - y div 100"

definition year_count :: "int \<Rightarrow> int" where
  "year_count doe = doe - doe div 1460 + doe div 36524 - doe div 146096"

lemma year_count_step: "0 \<le> n \<Longrightarrow> n < 146096 \<Longrightarrow> year_count n \<le> year_count (n + 1)"
proof (cases "n = 146095")
  case True
  then show ?thesis by (simp add: year_count_def)
next
  case False
  assume n: "0 \<le> n" "n < 146096"
  have "(n + 1) div 1460 \<le> (n + 1460) div 1460" "n div 36524 \<le> (n + 1) div 36524" by (rule zdiv_mono1; simp)+
  moreover have "(n + 1460) div 1460 = n div 1460 + 1" by simp
  moreover have "n div 146096 = 0" "(n + 1) div 146096 = 0" using n False by simp_all
  ultimately show ?thesis unfolding year_count_def by linarith
qed

lemma year_count_mono: "0 \<le> a \<Longrightarrow> a \<le> b \<Longrightarrow> b \<le> 146096 \<Longrightarrow> year_count a \<le> year_count b"
proof (induction "nat (b - a)" arbitrary: b)
  case 0
  then show ?case by simp
next
  case (Suc k)
  then have "year_count a \<le> year_count (b - 1)" by (intro Suc.hyps) auto
  also have "\<dots> \<le> year_count (b - 1 + 1)" using Suc by (intro year_count_step) auto
  finally show ?case by simp
qed

lemma year_table:
  "list_all (\<lambda>y. 365 * y \<le> year_count (year_start y) \<and> (y = 0 \<or> year_count (year_start y - 1) < 365 * y)
     \<and> year_start y \<le> 146096) [0..399]"
  by code_simp

lemma year_of_day:
  assumes "0 \<le> doe" and "doe < 146097"
  defines "y \<equiv> year_count doe div 365"
  shows "0 \<le> y \<and> y \<le> 399 \<and> year_start y \<le> doe \<and> (y < 399 \<longrightarrow> doe < year_start (y + 1))"
proof -
  have "year_count 0 \<le> year_count doe" "year_count doe \<le> year_count 146096"
    using assms by (intro year_count_mono; simp)+
  moreover have "year_count 0 = 0" "year_count 146096 = 145999" by (simp_all add: year_count_def)
  ultimately have r: "0 \<le> y" "y \<le> 399" unfolding y_def by linarith+
  have table: "365 * k \<le> year_count (year_start k)" "k = 0 \<or> year_count (year_start k - 1) < 365 * k" "year_start k \<le> 146096"
    "0 \<le> year_start k" if "0 \<le> k" "k \<le> 399" for k
  proof -
    have "k \<in> set [0..399]" using that by simp
    then show "365 * k \<le> year_count (year_start k)" "k = 0 \<or> year_count (year_start k - 1) < 365 * k" "year_start k \<le> 146096"
      using year_table unfolding list_all_iff by blast+
    show "0 \<le> year_start k" using that by (simp add: year_start_def)
  qed
  have low: "365 * y \<le> year_count doe" and high: "year_count doe < 365 * (y + 1)"
    using div_mult_mod_eq [of "year_count doe" 365] pos_mod_bound [of 365 "year_count doe"] pos_mod_sign [of 365 "year_count doe"]
    by (simp_all add: y_def algebra_simps)
  have "year_start y \<le> doe"
  proof (rule ccontr)
    assume less: "\<not> year_start y \<le> doe"
    then have "y \<noteq> 0" using assms by (auto simp: year_start_def)
    then have "year_count (year_start y - 1) < 365 * y" using table(2) [OF r] by blast
    moreover have "year_count doe \<le> year_count (year_start y - 1)"
      using less assms table(3) [OF r] by (intro year_count_mono) auto
    ultimately show False using low by simp
  qed
  moreover have "doe < year_start (y + 1)" if "y < 399"
  proof (rule ccontr)
    assume less: "\<not> doe < year_start (y + 1)"
    have k: "0 \<le> y + 1" "y + 1 \<le> 399" using r that by simp_all
    have "year_count (year_start (y + 1)) \<le> year_count doe" using less assms table(4) [OF k] by (intro year_count_mono) auto
    then show False using table(1) [OF k] high by simp
  qed
  ultimately show ?thesis using r by simp
qed

definition leap :: "int \<Rightarrow> bool" where
  "leap y \<longleftrightarrow> y mod 4 = 0 \<and> (y mod 100 \<noteq> 0 \<or> y mod 400 = 0)"

lemma leap_period: "leap (y + 400 * k) = leap y"
  using mod_mult_self2 [of y 4 "100 * k"] mod_mult_self2 [of y 100 "4 * k"] mod_mult_self2 [of y 400 k]
  by (simp add: leap_def)

lemma year_length_table:
  "list_all (\<lambda>y. year_start (y + 1) - year_start y = (if leap (y + 1) then 366 else 365)) [0..398]"
  by code_simp

lemma day_of_year:
  assumes "0 \<le> doe" and "doe < 146097"
  defines "y \<equiv> year_count doe div 365"
  shows "0 \<le> doe - year_start y" "doe - year_start y \<le> 365" "doe - year_start y = 365 \<Longrightarrow> leap (y + 1)"
proof -
  note k = year_of_day [OF assms(1,2), folded y_def]
  show "0 \<le> doe - year_start y" using k by simp
  have short: "doe - year_start y < (if leap (y + 1) then 366 else 365)"
  proof (cases "y < 399")
    case True
    then have "y \<in> set [0..398]" using k by simp
    then show ?thesis using year_length_table k True unfolding list_all_iff by fastforce
  next
    case False
    then have "y = 399" using k by simp
    then show ?thesis using assms(2) by (simp add: year_start_def leap_def)
  qed
  then show "doe - year_start y \<le> 365" "doe - year_start y = 365 \<Longrightarrow> leap (y + 1)" by (auto split: if_splits)
qed

text \<open>Months are counted from March, the leap day ends the year.\<close>

definition month_index :: "int \<Rightarrow> int" where
  "month_index doy = (5 * doy + 2) div 153"

definition day_of_month :: "int \<Rightarrow> int" where
  "day_of_month doy = doy - (153 * month_index doy + 2) div 5 + 1"

lemma month_table:
  "list_all (\<lambda>doy. 0 \<le> month_index doy \<and> month_index doy \<le> 11 \<and> 1 \<le> day_of_month doy
     \<and> day_of_month doy \<le> (if month_index doy = 11 then (if doy = 365 then 29 else 28)
         else if month_index doy \<in> set [1, 3, 6, 8] then 30 else 31)) [0..365]"
  by code_simp

lemma month_of_day:
  assumes "0 \<le> doy" and "doy \<le> 365"
  shows "0 \<le> month_index doy" "month_index doy \<le> 11" "1 \<le> day_of_month doy"
    "day_of_month doy \<le> (if month_index doy = 11 then (if doy = 365 then 29 else 28)
       else if month_index doy \<in> set [1, 3, 6, 8] then 30 else 31)"
proof -
  have "doy \<in> set [0..365]" using assms by simp
  then show "0 \<le> month_index doy" "month_index doy \<le> 11" "1 \<le> day_of_month doy"
    "day_of_month doy \<le> (if month_index doy = 11 then (if doy = 365 then 29 else 28)
       else if month_index doy \<in> set [1, 3, 6, 8] then 30 else 31)"
    using month_table unfolding list_all_iff by blast+
qed

lemma month_number_table:
  "list_all (\<lambda>mp. (if mp < 10 then mp + 3 else mp - 9) \<noteq> 2 \<and> 1 \<le> (if mp < 10 then mp + 3 else mp - 9)
     \<and> (if mp < 10 then mp + 3 else mp - 9) \<le> 12
     \<and> ((if mp < 10 then mp + 3 else mp - 9) \<in> {4, 6, 9, 11} \<longleftrightarrow> mp \<in> set [1, 3, 6, 8])) [0..10 :: int]"
  by code_simp

lemma civil_round_trip:
  assumes "civil_of_days d = (y, m, dd)"
  shows "days_of_civil y m dd = d" "valid_date y m dd"
proof -
  define era doe where "era = (d + 306) div 146097" and "doe = (d + 306) mod 146097"
  have doe: "0 \<le> doe" "doe < 146097" by (simp_all add: doe_def)
  define yoe where "yoe = year_count doe div 365"
  define doy where "doy = doe - year_start yoe"
  have yoe: "0 \<le> yoe" "yoe \<le> 399" using year_of_day [OF doe] by (simp_all add: yoe_def)
  have doy: "0 \<le> doy" "doy \<le> 365" "doy = 365 \<Longrightarrow> leap (yoe + 1)"
    using day_of_year [OF doe] by (simp_all add: doy_def yoe_def)
  note month = month_of_day [OF doy(1,2)]
  let ?mp = "month_index doy"
  have m: "m = (if ?mp < 10 then ?mp + 3 else ?mp - 9)" and dd: "dd = day_of_month doy"
    and y: "y = yoe + era * 400 + (if m \<le> 2 then 1 else 0)"
  proof -
    have yoe': "yoe = (doe - doe div 1460 + doe div 36524 - doe div 146096) div 365" by (simp add: yoe_def year_count_def)
    have doy': "doe - (365 * yoe + yoe div 4 - yoe div 100) = doy" by (simp add: doy_def year_start_def)
    have "civil_of_days d = (yoe + era * 400 + (if (if ?mp < 10 then ?mp + 3 else ?mp - 9) \<le> 2 then 1 else 0),
        if ?mp < 10 then ?mp + 3 else ?mp - 9, day_of_month doy)"
      unfolding civil_of_days_def Let_def era_def [symmetric] doe_def [symmetric] yoe' [symmetric] doy'
        month_index_def [symmetric] day_of_month_def ..
    then show "m = (if ?mp < 10 then ?mp + 3 else ?mp - 9)" "dd = day_of_month doy"
      "y = yoe + era * 400 + (if m \<le> 2 then 1 else 0)"
      using assms by simp_all
  qed
  have y': "(if m \<le> 2 then y - 1 else y) = era * 400 + yoe" using y by simp
  have era: "(era * 400 + yoe) div 400 = era" "(era * 400 + yoe) mod 400 = yoe" using yoe by simp_all
  have mp: "(if m \<le> 2 then m + 9 else m - 3) = ?mp" using m month(1,2) by auto
  have d: "d = era * 146097 + doe - 306" by (simp add: era_def doe_def)
  show "days_of_civil y m dd = d"
    unfolding days_of_civil_def y' mp Let_def era dd day_of_month_def
    by (simp add: d doy_def year_start_def)
  have leapy: "leap y = leap (yoe + 1)" if "m \<le> 2"
  proof -
    have "y = yoe + 1 + 400 * era" using y that by simp
    then show ?thesis by (simp only: leap_period)
  qed
  show "valid_date y m dd"
  proof (cases "?mp = 11")
    case True
    then have "m = 2" "leap y = leap (yoe + 1)" using m leapy by simp_all
    then show ?thesis using month(3,4) True doy(3) by (cases "doy = 365") (simp_all add: valid_date_def days_in_def leap_def dd)
  next
    case False
    then have "?mp \<in> set [0..10]" using month(1,2) by simp
    then have "m \<noteq> 2 \<and> 1 \<le> m \<and> m \<le> 12 \<and> (m \<in> {4, 6, 9, 11} \<longleftrightarrow> ?mp \<in> set [1, 3, 6, 8])"
      using month_number_table unfolding list_all_iff m by blast
    then show ?thesis using month(3,4) False by (simp add: valid_date_def days_in_def dd split: if_splits)
  qed
qed


section \<open>Digits\<close>

lemma digit_val_digit: "n < 10 \<Longrightarrow> digit_val (char_of (48 + n)) = Some (int n)" for n :: nat
proof -
  have "list_all (\<lambda>n. digit_val (char_of (48 + n)) = Some (int n)) [0..<10 :: nat]" by code_simp
  then show "n < 10 \<Longrightarrow> digit_val (char_of (48 + n)) = Some (int n)" unfolding list_all_iff by simp
qed

lemma number_append:
  "number a acc s = Some (v, t) \<Longrightarrow> number (a + b) acc s = number b v t"
  by (induction a acc s rule: number.induct) (auto split: option.splits)

lemma number_more: "number (length ds) acc ds = Some (v, []) \<Longrightarrow> number (length ds) acc (ds @ s) = Some (v, s)"
proof (induction ds arbitrary: acc)
  case (Cons c ds)
  then show ?case by (auto split: option.splits)
qed simp

lemma number_digits: "number (length (digits n)) acc (digits n @ s) = Some (acc * 10 ^ length (digits n) + int n, s)"
proof (induction n arbitrary: acc s rule: digits.induct)
  case (1 n)
  show ?case
  proof (cases "n < 10")
    case True
    then show ?thesis by (simp add: digits.simps [of n] digit_val_digit)
  next
    case False
    let ?k = "length (digits (n div 10))"
    have "number (?k + 1) acc (digits (n div 10) @ (char_of (48 + n mod 10) # s)) =
        number 1 (acc * 10 ^ ?k + int (n div 10)) (char_of (48 + n mod 10) # s)"
      using 1 False by (intro number_append) simp
    also have "\<dots> = Some (acc * 10 ^ (?k + 1) + int n, s)"
    proof -
      have "10 * int (n div 10) + int (n mod 10) = int n" by (simp add: zdiv_int zmod_int)
      then show ?thesis by (simp add: digit_val_digit algebra_simps)
    qed
    finally show ?thesis using False by (simp add: digits.simps [of n])
  qed
qed

lemma length_digits: "n < 10 ^ w \<Longrightarrow> 0 < w \<Longrightarrow> length (digits n) \<le> w"
proof (induction n arbitrary: w rule: digits.induct)
  case (1 n)
  show ?case
  proof (cases "n < 10")
    case True
    then show ?thesis using 1(3) by (simp add: digits.simps [of n])
  next
    case False
    then obtain v where w: "w = Suc v" "0 < v" using 1(2,3) by (cases w; cases "w - 1") auto
    have "n div 10 < 10 ^ v" using 1(2) w by (simp add: less_mult_imp_div_less)
    then have "length (digits (n div 10)) \<le> v" using 1(1) False w by blast
    then show ?thesis using False w by (simp add: digits.simps [of n])
  qed
qed

lemma number_zeros: "number k 0 (replicate k CHR ''0'' @ s) = Some (0, s)"
  by (induction k) (simp_all add: digit_val_def)

lemma pad_length: "0 \<le> i \<Longrightarrow> i < 10 ^ w \<Longrightarrow> 0 < w \<Longrightarrow> length (pad w i) = w"
  using length_digits [of "nat i" w] by (simp add: pad_def itoa_def Let_def nat_less_iff)

lemma number_pad:
  assumes "0 \<le> i" and "i < 10 ^ w" and "0 < w"
  shows "number w 0 (pad w i @ s) = Some (i, s)"
proof -
  let ?k = "w - length (digits (nat i))"
  have "length (digits (nat i)) \<le> w" using assms by (intro length_digits) (simp_all add: nat_less_iff)
  then have w: "?k + length (digits (nat i)) = w" by simp
  have "number (?k + length (digits (nat i))) 0 (replicate ?k CHR ''0'' @ (digits (nat i) @ s)) =
      number (length (digits (nat i))) 0 (digits (nat i) @ s)"
    by (rule number_append) (rule number_zeros)
  then show ?thesis using w assms(1) number_digits [of "nat i" 0 s] by (simp add: pad_def itoa_def Let_def)
qed

section \<open>Fractions of a second\<close>

lemma fraction_digits:
  "number (length ds) acc ds = Some (v, []) \<Longrightarrow> digit_val c = None \<Longrightarrow> length ds \<le> n \<Longrightarrow>
   fraction n acc (ds @ c # s) = (v * 10 ^ (n - length ds), c # s)"
proof (induction ds arbitrary: acc n)
  case (Cons d ds)
  then obtain m where "n = Suc m" by (cases n) auto
  then show ?case using Cons by (auto split: option.splits)
qed simp

lemma number_split:
  "number (length xs + b) acc (xs @ ys) = Some (r, t) \<Longrightarrow> \<exists>v. number (length xs) acc xs = Some (v, []) \<and> number b v ys = Some (r, t)"
  by (induction xs arbitrary: acc) (auto split: option.splits)

lemma number_trailing: "number k v (replicate k CHR ''0'') = Some (v * 10 ^ k, [])"
  by (induction k arbitrary: v) (simp_all add: digit_val_def)

lemma strip_trailing: "\<exists>k. p = rev (dropWhile (\<lambda>x. x = c) (rev p)) @ replicate k c"
proof -
  have "takeWhile (\<lambda>x. x = c) (rev p) = replicate (length (takeWhile (\<lambda>x. x = c) (rev p))) c"
    by (rule replicate_eqI [symmetric, OF refl, THEN sym]) (auto dest: set_takeWhileD)
  then have "rev p = replicate (length (takeWhile (\<lambda>x. x = c) (rev p))) c @ dropWhile (\<lambda>x. x = c) (rev p)"
    by (metis takeWhile_dropWhile_id)
  then have "p = rev (dropWhile (\<lambda>x. x = c) (rev p)) @ replicate (length (takeWhile (\<lambda>x. x = c) (rev p))) c"
    by (metis rev_append rev_replicate rev_rev_ident)
  then show ?thesis by blast
qed

lemma parse_fraction_pad:
  assumes "0 \<le> ns" and "ns < 1000000000"
  defines "part \<equiv> rev (dropWhile (\<lambda>c. c = CHR ''0'') (rev (pad 9 ns)))"
  shows "parse_fraction ((if part = [] then [] else ''.'' @ part) @ ''Z'') = (ns, ''Z'')"
proof -
  obtain k where p: "pad 9 ns = part @ replicate k CHR ''0''" using strip_trailing [of "pad 9 ns" "CHR ''0''"] unfolding part_def by blast
  have len: "length part + k = 9" using arg_cong [OF p, of length] pad_length [of ns 9] assms by simp
  have "number (length part + k) 0 (part @ replicate k CHR ''0'') = Some (ns, [])"
  proof -
    have "number 9 0 (pad 9 ns @ []) = Some (ns, [])" using assms by (intro number_pad) simp_all
    then show ?thesis by (simp only: append_Nil2 p len)
  qed
  then obtain v where v: "number (length part) 0 part = Some (v, [])" "number k v (replicate k CHR ''0'') = Some (ns, [])"
    using number_split by blast
  then have ns: "ns = v * 10 ^ k" by (simp add: number_trailing)
  have Z: "digit_val CHR ''Z'' = None" by (simp add: digit_val_def)
  show ?thesis
  proof (cases part)
    case Nil
    then show ?thesis using v(1) ns by (simp add: parse_fraction_def)
  next
    case (Cons d ds)
    then have "digit_val d \<noteq> None" using v(1) by (auto split: option.splits)
    moreover have "fraction 9 0 (part @ CHR ''Z'' # []) = (v * 10 ^ (9 - length part), CHR ''Z'' # [])"
      using len by (intro fraction_digits [OF v(1) Z]) simp
    moreover have "9 - length part = k" using len by simp
    ultimately show ?thesis using Cons ns by (simp add: parse_fraction_def)
  qed
qed

section \<open>The round trip\<close>

lemma time_parts:
  fixes t :: time
  defines "secs \<equiv> t div 1000000000"
  defines "s \<equiv> secs mod 86400"
  shows "secs div 86400 * Day + s div 3600 * Hour + s div 60 mod 60 * Minute + s mod 60 * Second + t mod 1000000000 = t"
proof -
  have "s div 3600 = s div 60 div 60" using zdiv_zmult2_eq [of 60 s 60] by simp
  then have s: "s div 3600 * 3600 + s div 60 mod 60 * 60 + s mod 60 = s"
    using div_mult_mod_eq [of s 60] div_mult_mod_eq [of "s div 60" 60] by linarith
  have "secs div 86400 * 86400 + s = secs" by (simp add: s_def)
  moreover have "secs * 1000000000 + t mod 1000000000 = t" by (simp add: secs_def)
  ultimately show ?thesis using s unfolding Day_def Hour_def Minute_def Second_def by linarith
qed

lemma parse_format_time:
  assumes "civil_of_days (t div Day) = (y, m, d)" and "0 \<le> y" and "y \<le> 9999"
  shows "parse_time (format_time t) = Some t"
proof -
  define secs where "secs = t div 1000000000"
  define s where "s = secs mod 86400"
  define ns where "ns = t mod 1000000000"
  have day: "t div Day = secs div 86400"
    using zdiv_zmult2_eq [of 86400 t 1000000000] by (simp add: secs_def Day_def Hour_def)
  note civil = civil_round_trip [OF assms(1)]
  have md: "0 \<le> m" "m < 10 ^ 2" "0 \<le> d" "d < 10 ^ 2" using civil(2) by (auto simp: valid_date_def days_in_def split: if_splits)
  have yr: "0 \<le> y" "y < 10 ^ 4" using assms by simp_all
  have sr: "0 \<le> s" "s < 86400" by (simp_all add: s_def)
  have hms: "0 \<le> s div 3600" "s div 3600 < 24" "0 \<le> s div 60 mod 60" "s div 60 mod 60 < 60" "0 \<le> s mod 60" "s mod 60 < 60"
    using sr by (simp_all add: pos_imp_zdiv_nonneg_iff)
  have nsr: "0 \<le> ns" "ns < 1000000000" by (simp_all add: ns_def)
  have num: "number 2 0 (pad 2 i @ r) = Some (i, r)" if "0 \<le> i" "i < 60" for i r using number_pad [of i 2 r] that by simp
  define part where "part = rev (dropWhile (\<lambda>c. c = CHR ''0'') (rev (pad 9 ns)))"
  define tail where "tail = (if part = [] then [] else ''.'' @ part) @ ''Z''"
  have written: "format_time t = pad 4 y @ CHR ''-'' # pad 2 m @ CHR ''-'' # pad 2 d @ CHR ''T'' # pad 2 (s div 3600) @ CHR '':''
      # pad 2 (s div 60 mod 60) @ CHR '':'' # pad 2 (s mod 60) @ tail"
    unfolding format_time_def Let_def secs_def [symmetric] ns_def [symmetric] part_def [symmetric] s_def [symmetric] day [symmetric] assms(1)
    by (simp add: tail_def s_def)
  have tail: "parse_fraction tail = (ns, ''Z'')" unfolding tail_def part_def by (rule parse_fraction_pad [OF nsr])
  have y: "number 4 0 (pad 4 y @ r) = Some (y, r)" for r using number_pad [OF yr] by simp
  have m: "number 2 0 (pad 2 m @ r) = Some (m, r)" and d: "number 2 0 (pad 2 d @ r) = Some (d, r)" for r
    using number_pad [OF md(1,2)] number_pad [OF md(3,4)] by simp_all
  define clock where "clock = pad 2 (s div 3600) @ CHR '':'' # pad 2 (s div 60 mod 60) @ CHR '':'' # pad 2 (s mod 60) @ tail"
  have 1: "date_digits (format_time t) = Some ((y, m, d), CHR ''T'' # clock)"
    by (simp add: date_digits_def written y m d clock_def)
  have 2: "clock_digits clock = Some ((s div 3600, s div 60 mod 60), CHR '':'' # pad 2 (s mod 60) @ tail)"
    using hms by (simp add: clock_digits_def clock_def num)
  have 3: "number 2 0 (pad 2 (s mod 60) @ tail) = Some (s mod 60, tail)" using hms by (simp add: num)
  have ok: "valid_date y m d \<and> s div 3600 < 24 \<and> s div 60 mod 60 < 60 \<and> s mod 60 < 60" using civil(2) hms by blast
  have total: "days_of_civil y m d * Day + s div 3600 * Hour + s div 60 mod 60 * Minute + (s mod 60 - 0) * Second + ns = t"
    using time_parts [of t, folded secs_def, folded s_def ns_def] civil(1) day by (simp only: diff_0_right)
  show ?thesis
    unfolding parse_time_def 1 option.case prod.case literal.simps if_True 2 3 tail
    by (simp only: refl if_True option.case parse_offset_def literal.simps 2 3 prod.case tail if_P [OF ok] total)
qed

end
