(* ===== verification/Webhook.thy ===== *)
theory Webhook
  imports Detection Lifecycle Time_Text
begin

text \<open>
  The Razorpay webhook (\<open>internal/integrations/razorpay/webhook.go\<close>, with the statements it issues
  in \<open>internal/store/integrations.go\<close>). HMAC-SHA256 (\<open>mac\<close>), the JSON parser (\<open>parse\<close>) and the text
  \<open>fmt.Sprint\<close> gives a value that is no string (\<open>sprint\<close>) are parameters: nothing below depends on
  what they compute. \<open>clock k\<close> is the k-th reading of the clock.
\<close>

section \<open>Signatures\<close>

definition hex_val :: "char \<Rightarrow> nat option" where
  "hex_val c = (let n = of_char c :: nat in
     if 48 \<le> n \<and> n \<le> 57 then Some (n - 48)
     else if 97 \<le> n \<and> n \<le> 102 then Some (n - 87)
     else if 65 \<le> n \<and> n \<le> 70 then Some (n - 55) else None)"

fun hex_decode :: "string \<Rightarrow> string option" where
  "hex_decode [] = Some []"
| "hex_decode [_] = None"
| "hex_decode (a # b # s) =
     (case (hex_val a, hex_val b, hex_decode s) of
        (Some x, Some y, Some r) \<Rightarrow> Some (char_of (16 * x + y) # r) | _ \<Rightarrow> None)"

definition ErrInvalidSignature :: error where
  "ErrInvalidSignature = ErrMsg ''invalid Razorpay webhook signature''"

definition Verify :: "(string \<Rightarrow> string \<Rightarrow> string) \<Rightarrow> string \<Rightarrow> string \<Rightarrow> string \<Rightarrow> error option" where
  "Verify mac secret body signature =
     (if secret = [] then Some (ErrMsg ''RAZORPAY_WEBHOOK_SECRET is not configured'')
      else (case hex_decode signature of None \<Rightarrow> Some ErrInvalidSignature
        | Some provided \<Rightarrow> if mac secret body \<noteq> provided then Some ErrInvalidSignature else None))"

section \<open>The envelope\<close>

type_synonym Notes = "(string \<times> json) list"

record providerPayment =
  py_ID :: string
  py_Amount :: int
  py_Currency :: string
  py_OrderID :: string
  py_ErrorCode :: string
  py_CreatedAt :: int
  py_Notes :: Notes

record providerSubscription =
  ps_ID :: string
  ps_Status :: string
  ps_Notes :: Notes

record providerPaymentLink =
  ln_ID :: string
  ln_Amount :: int
  ln_AmountPaid :: int
  ln_Currency :: string
  ln_Status :: string
  ln_ReferenceID :: string
  ln_Notes :: Notes

record webhookEnvelope =
  en_Event :: string
  en_CreatedAt :: int
  en_Payment :: providerPayment
  en_Subscription :: providerSubscription
  en_PaymentLink :: providerPaymentLink

text \<open>A map that is decoded into is extended by an object and emptied by \<open>null\<close>.\<close>

fun decode_notes :: "(string \<times> json) list \<Rightarrow> Notes \<Rightarrow> Notes option" where
  "decode_notes [] acc = Some acc"
| "decode_notes ((n, v) # kvs) acc =
     (if lower n \<noteq> ''notes'' then decode_notes kvs acc
      else (case v of JObj m \<Rightarrow> decode_notes kvs (acc @ m) | JNull \<Rightarrow> decode_notes kvs [] | _ \<Rightarrow> None))"

abbreviation text_of :: "(string \<times> json) list \<Rightarrow> string \<Rightarrow> string option" where
  "text_of kvs k \<equiv> decode_value json_string kvs k []"

abbreviation int_of :: "(string \<times> json) list \<Rightarrow> string \<Rightarrow> int option" where
  "int_of kvs k \<equiv> decode_value json_int64 kvs k 0"

definition decode_payment :: "(string \<times> json) list \<Rightarrow> providerPayment option" where
  "decode_payment kvs = do {
     i \<leftarrow> text_of kvs ''id'';
     amount \<leftarrow> int_of kvs ''amount'';
     currency \<leftarrow> text_of kvs ''currency'';
     order \<leftarrow> text_of kvs ''order_id'';
     code \<leftarrow> text_of kvs ''error_code'';
     created \<leftarrow> int_of kvs ''created_at'';
     notes \<leftarrow> decode_notes kvs [];
     Some \<lparr>py_ID = i, py_Amount = amount, py_Currency = currency, py_OrderID = order, py_ErrorCode = code,
       py_CreatedAt = created, py_Notes = notes\<rparr>
   }"

definition decode_provider_subscription :: "(string \<times> json) list \<Rightarrow> providerSubscription option" where
  "decode_provider_subscription kvs = do {
     i \<leftarrow> text_of kvs ''id'';
     status \<leftarrow> text_of kvs ''status'';
     notes \<leftarrow> decode_notes kvs [];
     Some \<lparr>ps_ID = i, ps_Status = status, ps_Notes = notes\<rparr>
   }"

definition decode_payment_link :: "(string \<times> json) list \<Rightarrow> providerPaymentLink option" where
  "decode_payment_link kvs = do {
     i \<leftarrow> text_of kvs ''id'';
     amount \<leftarrow> int_of kvs ''amount'';
     paid \<leftarrow> int_of kvs ''amount_paid'';
     currency \<leftarrow> text_of kvs ''currency'';
     status \<leftarrow> text_of kvs ''status'';
     reference \<leftarrow> text_of kvs ''reference_id'';
     notes \<leftarrow> decode_notes kvs [];
     Some \<lparr>ln_ID = i, ln_Amount = amount, ln_AmountPaid = paid, ln_Currency = currency, ln_Status = status,
       ln_ReferenceID = reference, ln_Notes = notes\<rparr>
   }"

definition entity :: "(string \<times> json) list \<Rightarrow> string \<Rightarrow> (string \<times> json) list option" where
  "entity payload k = do { m \<leftarrow> nested payload k; nested m ''entity'' }"

definition decode_envelope :: "RawMessage \<Rightarrow> webhookEnvelope option" where
  "decode_envelope raw = do {
     kvs \<leftarrow> members raw;
     event \<leftarrow> text_of kvs ''event'';
     created \<leftarrow> int_of kvs ''created_at'';
     payload \<leftarrow> nested kvs ''payload'';
     p \<leftarrow> entity payload ''payment''; payment \<leftarrow> decode_payment p;
     s \<leftarrow> entity payload ''subscription''; subscription \<leftarrow> decode_provider_subscription s;
     l \<leftarrow> entity payload ''payment_link''; link \<leftarrow> decode_payment_link l;
     Some \<lparr>en_Event = event, en_CreatedAt = created, en_Payment = payment, en_Subscription = subscription, en_PaymentLink = link\<rparr>
   }"

section \<open>Notes\<close>

text \<open>\<open>text, _ := notes[k].(string)\<close>\<close>

definition note_text :: "Notes \<Rightarrow> string \<Rightarrow> string" where
  "note_text notes k = (case member_of notes k of Some (JStr s) \<Rightarrow> s | _ \<Rightarrow> [])"

fun noteString :: "(json \<Rightarrow> string) \<Rightarrow> json option \<Rightarrow> string" where
  "noteString sprint None = []"
| "noteString sprint (Some JNull) = []"
| "noteString sprint (Some (JStr s)) = s"
| "noteString sprint (Some v) = sprint v"

text \<open>Decoding to \<open>any\<close> gives numbers as \<open>float64\<close>, so the other two cases of the switch never arise.\<close>

fun noteInt64 :: "json option \<Rightarrow> int" where
  "noteInt64 (Some (JNum x)) = int64_of (fl x)"
| "noteInt64 _ = 0"

text \<open>\<open>time.Unix(sec, 0)\<close>: the seconds since 0001-01-01 in 64 bits.\<close>

definition unix_time :: "int \<Rightarrow> time" where
  "unix_time sec = i64 (sec + 62135596800) * Second"

definition webhookReferences :: "webhookEnvelope \<Rightarrow> json" where
  "webhookReferences e = references_json [(''payment_id'', py_ID (en_Payment e)), (''subscription_id'', ps_ID (en_Subscription e)),
     (''order_id'', py_OrderID (en_Payment e)), (''payment_link_id'', ln_ID (en_PaymentLink e)),
     (''payment_link_reference_id'', ln_ReferenceID (en_PaymentLink e))]"

section \<open>Failures as subscription events\<close>

definition event_of_payment :: "webhookEnvelope \<Rightarrow> Notes \<Rightarrow> time \<Rightarrow> SubscriptionEvent" where
  "event_of_payment e notes now =
     (let p = en_Payment e in
      \<lparr>se_EventType = en_Event e, se_MerchantID = note_text notes ''merchant_id'', se_CustomerID = note_text notes ''customer_id'',
       se_AmountMinor = (if py_Amount p = 0 then noteInt64 (member_of notes ''amount_minor'') else py_Amount p),
       se_Currency = (if py_Currency p = [] then note_text notes ''currency'' else py_Currency p),
       se_PaymentID = py_ID p, se_SubscriptionID = ps_ID (en_Subscription e), se_OrderID = py_OrderID p,
       se_FailureCode = py_ErrorCode p, se_FailureCategory = [],
       se_OccurredAt = (if py_CreatedAt p = 0 then now else unix_time (py_CreatedAt p)),
       se_RecoveryWindowHours = 168, se_Metadata = None\<rparr>)"

definition NormalizeWebhook :: "RawMessage \<Rightarrow> time \<Rightarrow> (error, SubscriptionEvent \<times> string \<times> json) result" where
  "NormalizeWebhook raw now =
     (case decode_envelope raw of None \<Rightarrow> Inl (ErrMsg ''decode Razorpay webhook'')
      | Some e \<Rightarrow>
          if en_Event e = [] then Inl (ErrMsg ''Razorpay webhook event is required'')
          else (let notes = (if py_Notes (en_Payment e) = [] then ps_Notes (en_Subscription e) else py_Notes (en_Payment e)) in
            if note_text notes ''merchant_id'' = [] \<or> note_text notes ''customer_id'' = []
              then Inl (ErrMsg ''merchant_id and customer_id must be present in provider notes'')
            else if en_Event e = ''subscription.charged''
              then Inl (ErrMsg ''success webhook does not represent new revenue risk'')
            else Inr (event_of_payment e notes now, en_Event e, webhookReferences e)))"

definition year_of :: "time \<Rightarrow> int" where
  "year_of t = fst (civil_of_days (t div Day))"

definition event_members :: "SubscriptionEvent \<Rightarrow> (string \<times> json) list" where
  "event_members e = [(''event_type'', JStr (se_EventType e)), (''merchant_id'', JStr (se_MerchantID e)),
          (''customer_id'', JStr (se_CustomerID e)), (''amount_minor'', JInt (se_AmountMinor e)),
          (''currency'', JStr (se_Currency e)), (''payment_id'', JStr (se_PaymentID e)),
          (''subscription_id'', JStr (se_SubscriptionID e)), (''order_id'', JStr (se_OrderID e)),
          (''failure_code'', JStr (se_FailureCode e)), (''failure_category'', JStr (se_FailureCategory e)),
          (''occurred_at'', JStr (format_time (se_OccurredAt e))),
          (''recovery_window_hours'', JInt (se_RecoveryWindowHours e)), (''metadata'', raw_json (se_Metadata e))]"

text \<open>
  \<open>json.Marshal\<close> of the event: in the order of the fields, every one written; a time beyond the
  year 9999 cannot be written, and the empty bytes the failure leaves decode to nothing.
\<close>

definition event_json :: "SubscriptionEvent \<Rightarrow> RawMessage" where
  "event_json e = (if 0 \<le> year_of (se_OccurredAt e) \<and> year_of (se_OccurredAt e) \<le> 9999 then Some (JObj (event_members e)) else None)"

section \<open>The store\<close>

definition InsertWebhook :: "WebhookRecord \<Rightarrow> Intake \<Rightarrow> bool \<times> Intake" where
  "InsertWebhook w s =
     (if lookup wh_ProviderEventID (wh_ProviderEventID w) (in_webhooks s) \<noteq> None then (False, s)
      else (True, s\<lparr>in_webhooks := in_webhooks s @ [w]\<rparr>))"

definition MarkWebhookProcessed :: "string \<Rightarrow> WebhookStatus \<Rightarrow> time \<Rightarrow> Intake \<Rightarrow> Intake" where
  "MarkWebhookProcessed eventID status processed s = s\<lparr>in_webhooks := modify wh_ProviderEventID eventID
     (\<lambda>w. w\<lparr>wh_Status := status, wh_ProcessedAt := Some processed\<rparr>) (in_webhooks s)\<rparr>"

text \<open>Rows of \<open>provider_action_references\<close> are listed in the order of their creation.\<close>

definition ResolvePaymentLinkCase :: "string \<Rightarrow> string \<Rightarrow> ID \<Rightarrow> ID \<Rightarrow> ID \<Rightarrow> Database \<Rightarrow> (error, ID) result" where
  "ResolvePaymentLinkCase linkID referenceID noteCaseID merchantID customerID db =
     (case find (\<lambda>(f, a). pl_ID (lk_Link f) = linkID)
        (concat (map (\<lambda>f. map (Pair f) (filter (\<lambda>a. ra_ID a = lk_ActionID f) (db_actions db))) (rev (db_provider_refs db)))) of
        Some (f, a) \<Rightarrow> Inr (ra_CaseID a)
      | None \<Rightarrow>
          (case (if referenceID = [] then None else lookup sa_ID referenceID (db_scheduled db)) of
             Some w \<Rightarrow> Inr (sa_CaseID w)
           | None \<Rightarrow>
               if noteCaseID = [] then Inl ErrNotFound
               else (case find_case db noteCaseID of None \<Rightarrow> Inl ErrNotFound
                 | Some c \<Rightarrow>
                     if (merchantID \<noteq> [] \<and> merchantID \<noteq> rc_MerchantID c) \<or> (customerID \<noteq> [] \<and> customerID \<noteq> rc_CustomerID c)
                       then Inl (ErrMsg ''Razorpay payment link notes do not match the recovery case'')
                     else Inr noteCaseID)))"

section \<open>Ingestion\<close>

record IngestResult =
  ig_Case :: "RecoveryCase option"
  ig_Created :: bool
  ig_RiskDetected :: bool
  ig_Outcome :: string
  ig_Attribution :: "Attribution option"
  ig_AttributionCreated :: bool

definition no_result :: IngestResult where
  "no_result = \<lparr>ig_Case = None, ig_Created = False, ig_RiskDetected = False, ig_Outcome = [], ig_Attribution = None,
     ig_AttributionCreated = False\<rparr>"

text \<open>What an ingestor is built with; \<open>io_Observes\<close>: whether \<open>SetRecoveryObserver\<close> was called.\<close>

record Ingestor =
  io_Secret :: string
  io_Observes :: bool
  io_Mac :: "string \<Rightarrow> string \<Rightarrow> string"
  io_Parse :: "string \<Rightarrow> RawMessage"
  io_Sprint :: "json \<Rightarrow> string"

definition observe_input :: "webhookEnvelope \<Rightarrow> string \<Rightarrow> ID \<Rightarrow> time \<Rightarrow> ObserveInput" where
  "observe_input e eventID caseID now =
     (let link = en_PaymentLink e; amount = py_Amount (en_Payment e) in
      \<lparr>ob_CaseID = caseID, ob_RecoveredAmountMinor = (if amount \<le> 0 then ln_AmountPaid link else amount),
       ob_PaymentReference = ln_ID link,
       ob_ObservedAt = (if en_CreatedAt e = 0 then now else unix_time (en_CreatedAt e)), ob_CorrelationID = eventID\<rparr>)"

definition observePaymentLinkPaid :: "Ingestor \<Rightarrow> (nat \<Rightarrow> ID) \<Rightarrow> (nat \<Rightarrow> time) \<Rightarrow> webhookEnvelope \<Rightarrow> string \<Rightarrow> IngestResult tx" where
  "observePaymentLinkPaid g fresh clock e eventID db =
     (if \<not> io_Observes g then Inl (ErrMsg ''Razorpay recovery attribution is not configured'')
      else (let link = en_PaymentLink e; note = (\<lambda>k. noteString (io_Sprint g) (member_of (ln_Notes link) k)) in
        if ln_ID link = [] then Inl (ErrMsg ''payment_link.paid payload is missing payment_link.entity.id'')
        else
          (case ResolvePaymentLinkCase (ln_ID link) (ln_ReferenceID link) (note ''recovery_case_id'') (note ''merchant_id'')
             (note ''customer_id'') db of
             Inl err \<Rightarrow> Inl err
           | Inr caseID \<Rightarrow>
               (case Observe fresh (clock 2) (observe_input e eventID caseID (clock 1)) db of
                  Inl err \<Rightarrow> if err = ErrCaseTerminal then Inr (no_result\<lparr>ig_Outcome := ''IGNORED_TERMINAL_CASE''\<rparr>, db) else Inl err
                | Inr ((a, created), db) \<Rightarrow>
                    Inr (no_result\<lparr>ig_Outcome := ''RECOVERED'', ig_Attribution := Some a, ig_AttributionCreated := created\<rparr>, db)))))"

text \<open>The detection of a webhook that is not a paid link.\<close>

definition detect_failure :: "(nat \<Rightarrow> ID) \<Rightarrow> (nat \<Rightarrow> time) \<Rightarrow> RawMessage \<Rightarrow> string \<Rightarrow> Intake \<Rightarrow> (error, IngestResult) result \<times> Intake" where
  "detect_failure fresh clock raw eventID s =
     (case NormalizeWebhook raw (clock 1) of Inl err \<Rightarrow> (Inl err, s)
      | Inr (event, _, _) \<Rightarrow>
          (case Detect (SubscriptionAdapter ''razorpay'') fresh (clock 2) (event_json event) eventID s of
             (Inl err, s) \<Rightarrow> (Inl err, s)
           | (Inr r, s) \<Rightarrow> (Inr (no_result\<lparr>ig_Case := dt_Case r, ig_Created := dt_Created r, ig_RiskDetected := dt_RiskDetected r\<rparr>), s)))"

definition finish :: "string \<Rightarrow> time \<Rightarrow> (error, IngestResult) result \<times> Intake \<Rightarrow> (error, IngestResult \<times> bool) result \<times> Intake" where
  "finish eventID now x =
     (case x of
        (Inl err, s) \<Rightarrow> (Inl err, MarkWebhookProcessed eventID WebhookFailed now s)
      | (Inr r, s) \<Rightarrow> (Inr (r, False), MarkWebhookProcessed eventID WebhookProcessed now s))"

definition process :: "Ingestor \<Rightarrow> (nat \<Rightarrow> ID) \<Rightarrow> (nat \<Rightarrow> time) \<Rightarrow> RawMessage \<Rightarrow> webhookEnvelope \<Rightarrow> string \<Rightarrow> Intake
    \<Rightarrow> (error, IngestResult) result \<times> Intake" where
  "process g fresh clock raw e eventID s =
     (if en_Event e = ''payment_link.paid'' then
        (case observePaymentLinkPaid g fresh clock e eventID (in_db s) of
           Inl err \<Rightarrow> (Inl err, s) | Inr (r, db) \<Rightarrow> (Inr r, s\<lparr>in_db := db\<rparr>))
      else detect_failure fresh clock raw eventID s)"

definition webhook_record :: "webhookEnvelope \<Rightarrow> RawMessage \<Rightarrow> string \<Rightarrow> time \<Rightarrow> WebhookRecord" where
  "webhook_record e raw eventID now =
     \<lparr>wh_ProviderEventID = eventID, wh_EventType = en_Event e, wh_SignatureStatus = ''VERIFIED'', wh_Status = WebhookReceived,
      wh_Payload = raw, wh_ProviderReferences = Some (webhookReferences e), wh_ReceivedAt = now, wh_ProcessedAt = None\<rparr>"

definition webhook_Ingest :: "Ingestor \<Rightarrow> (nat \<Rightarrow> ID) \<Rightarrow> (nat \<Rightarrow> time) \<Rightarrow> string \<Rightarrow> string \<Rightarrow> string \<Rightarrow> Intake
    \<Rightarrow> (error, IngestResult \<times> bool) result \<times> Intake" where
  "webhook_Ingest g fresh clock body signature eventID s =
     (if eventID = [] then (Inl (ErrMsg ''X-Razorpay-Event-Id is required''), s)
      else (case Verify (io_Mac g) (io_Secret g) body signature of Some err \<Rightarrow> (Inl err, s)
      | None \<Rightarrow>
          (case decode_envelope (io_Parse g body) of None \<Rightarrow> (Inl (ErrMsg ''decode Razorpay webhook''), s)
           | Some e \<Rightarrow>
               if en_Event e = [] then (Inl (ErrMsg ''Razorpay webhook event is required''), s)
               else (case InsertWebhook (webhook_record e (io_Parse g body) eventID (clock 0)) s of
                  (False, s) \<Rightarrow> (Inr (no_result, True), s)
                | (True, s) \<Rightarrow> finish eventID (clock 3) (process g fresh clock (io_Parse g body) e eventID s)))))"

text \<open>What \<open>POST /webhooks/razorpay\<close> answers with: the body is read up to 2 MiB.\<close>

definition webhook_status :: "(error, IngestResult \<times> bool) result \<Rightarrow> nat" where
  "webhook_status r = (case r of Inr _ \<Rightarrow> 200 | Inl err \<Rightarrow> if err = ErrInvalidSignature then 401 else 422)"

definition razorpayWebhook :: "Ingestor \<Rightarrow> (nat \<Rightarrow> ID) \<Rightarrow> (nat \<Rightarrow> time) \<Rightarrow> string \<Rightarrow> string \<Rightarrow> string \<Rightarrow> Intake \<Rightarrow> nat \<times> Intake" where
  "razorpayWebhook g fresh clock body signature eventID s =
     (case webhook_Ingest g fresh clock (take (2 * 1024 * 1024) body) signature eventID s of (r, s) \<Rightarrow> (webhook_status r, s))"

section \<open>Events through JSON\<close>

definition plain_names :: "(string \<times> json) list \<Rightarrow> bool" where
  "plain_names kvs \<longleftrightarrow> list_all (\<lambda>n. lower n = n) (map fst kvs) \<and> distinct (map fst kvs)"

lemma decode_value_absent: "k \<notin> set (map fst kvs) \<Longrightarrow> list_all (\<lambda>n. lower n = n) (map fst kvs) \<Longrightarrow> decode_value dec kvs k acc = Some acc"
  by (induction dec kvs k acc rule: decode_value.induct) auto

lemma decode_value_plain:
  "plain_names kvs \<Longrightarrow> decode_value dec kvs k acc =
     (case map_of kvs k of None \<Rightarrow> Some acc | Some v \<Rightarrow> if v = JNull then Some acc else dec v)"
proof (induction kvs arbitrary: acc)
  case (Cons x kvs)
  obtain n v where x: "x = (n, v)" by (metis prod.exhaust)
  have p: "plain_names kvs" "lower n = n" "n \<notin> set (map fst kvs)" "list_all (\<lambda>n. lower n = n) (map fst kvs)"
    using Cons.prems x by (auto simp: plain_names_def)
  show ?case
  proof (cases "n = k \<and> v \<noteq> JNull")
    case True
    then have "decode_value dec kvs k y = Some y" for y using p by (intro decode_value_absent) auto
    then show ?thesis using True p x by (cases "dec v") auto
  next
    case False
    then have "decode_value dec (x # kvs) k acc = decode_value dec kvs k acc" using p x by auto
    moreover have "map_of kvs k = None" if "n = k" using p(3) that by (simp add: map_of_eq_None_iff)
    ultimately show ?thesis using False Cons.IH [OF p(1)] x by auto
  qed
qed simp

lemma decode_raw_plain: "plain_names kvs \<Longrightarrow> decode_raw kvs k acc = (case map_of kvs k of None \<Rightarrow> acc | Some v \<Rightarrow> Some v)"
proof (induction kvs arbitrary: acc)
  case (Cons x kvs)
  then show ?case
    by (cases x) (auto simp: plain_names_def map_of_eq_None_iff [THEN iffD2] split: option.splits)
qed simp

lemma event_members_plain: "plain_names (event_members e)"
proof -
  have "map fst (event_members e) = [''event_type'', ''merchant_id'', ''customer_id'', ''amount_minor'', ''currency'', ''payment_id'',
      ''subscription_id'', ''order_id'', ''failure_code'', ''failure_category'', ''occurred_at'', ''recovery_window_hours'', ''metadata'']"
    by (simp add: event_members_def)
  moreover have "list_all (\<lambda>n. lower n = n) \<dots>" "distinct \<dots>" by code_simp+
  ultimately show ?thesis by (simp only: plain_names_def simp_thms)
qed

lemma parse_format_year: "0 \<le> year_of t \<Longrightarrow> year_of t \<le> 9999 \<Longrightarrow> parse_time (format_time t) = Some t"
  by (cases "civil_of_days (t div Day)") (simp add: parse_format_time year_of_def)

lemma json_int64_JInt: "in_i64 n \<Longrightarrow> json_int64 (JInt n) = Some n"
  by simp

lemma subscription_event_read:
  assumes "in_i64 (se_AmountMinor e)" and "in_i64 (se_RecoveryWindowHours e)"
  shows "decode_subscription (event_json e) =
    (if 0 \<le> year_of (se_OccurredAt e) \<and> year_of (se_OccurredAt e) \<le> 9999
     then Some (e\<lparr>se_Metadata := Some (raw_json (se_Metadata e))\<rparr>) else None)"
proof (cases "0 \<le> year_of (se_OccurredAt e) \<and> year_of (se_OccurredAt e) \<le> 9999")
  case True
  note t = parse_format_year [OF True [THEN conjunct1] True [THEN conjunct2]]
  note plain = decode_value_plain [OF event_members_plain] decode_raw_plain [OF event_members_plain]
  have names: "map_of (event_members e) ''event_type'' = Some (JStr (se_EventType e))"
    "map_of (event_members e) ''merchant_id'' = Some (JStr (se_MerchantID e))"
    "map_of (event_members e) ''customer_id'' = Some (JStr (se_CustomerID e))"
    "map_of (event_members e) ''amount_minor'' = Some (JInt (se_AmountMinor e))"
    "map_of (event_members e) ''currency'' = Some (JStr (se_Currency e))"
    "map_of (event_members e) ''payment_id'' = Some (JStr (se_PaymentID e))"
    "map_of (event_members e) ''subscription_id'' = Some (JStr (se_SubscriptionID e))"
    "map_of (event_members e) ''order_id'' = Some (JStr (se_OrderID e))"
    "map_of (event_members e) ''failure_code'' = Some (JStr (se_FailureCode e))"
    "map_of (event_members e) ''failure_category'' = Some (JStr (se_FailureCategory e))"
    "map_of (event_members e) ''occurred_at'' = Some (JStr (format_time (se_OccurredAt e)))"
    "map_of (event_members e) ''recovery_window_hours'' = Some (JInt (se_RecoveryWindowHours e))"
    "map_of (event_members e) ''metadata'' = Some (raw_json (se_Metadata e))"
    by (simp_all add: event_members_def)
  show ?thesis
    using True assms
    by (simp add: event_json_def decode_subscription_def members_def Let_def plain names t json_int64_JInt del: json_int64.simps)
next
  case False
  then show ?thesis by (auto simp: event_json_def decode_subscription_def members_def)
qed

section \<open>One delivery\<close>

text \<open>The ways a delivery goes: refused and forgotten, a duplicate, or stored and processed.\<close>

lemma webhook_IngestE:
  assumes "webhook_Ingest g fresh clock body signature i s = (r, s')"
  obtains (refused) err where "r = Inl err" "s' = s"
  | (duplicate) e where "r = Inr (no_result, True)" "s' = s" "Verify (io_Mac g) (io_Secret g) body signature = None" "i \<noteq> []"
      "lookup wh_ProviderEventID i (in_webhooks s) \<noteq> None"
  | (handled) e x s1 where "i \<noteq> []" "Verify (io_Mac g) (io_Secret g) body signature = None"
      "decode_envelope (io_Parse g body) = Some e" "en_Event e \<noteq> []" "lookup wh_ProviderEventID i (in_webhooks s) = None"
      "process g fresh clock (io_Parse g body) e i
         (s\<lparr>in_webhooks := in_webhooks s @ [webhook_record e (io_Parse g body) i (clock 0)]\<rparr>) = (x, s1)"
      "(r, s') = finish i (clock 3) (x, s1)"
proof (cases "i = []")
  case True
  then have "\<exists>err. r = Inl err \<and> s' = s" using assms by (auto simp: webhook_Ingest_def)
  then show ?thesis using refused by blast
next
  case i: False
  show ?thesis
  proof (cases "Verify (io_Mac g) (io_Secret g) body signature")
    case (Some err)
    then have "\<exists>err. r = Inl err \<and> s' = s" using assms i by (auto simp: webhook_Ingest_def)
    then show ?thesis using refused by blast
  next
    case v: None
    note run = assms [unfolded webhook_Ingest_def if_not_P [OF i] v option.case]
    show ?thesis
    proof (cases "decode_envelope (io_Parse g body)")
      case None
      then have "\<exists>err. r = Inl err \<and> s' = s" using run by auto
      then show ?thesis using refused by blast
    next
      case e: (Some e)
      show ?thesis
      proof (cases "en_Event e = []")
        case True
        then have "\<exists>err. r = Inl err \<and> s' = s" using run e by auto
        then show ?thesis using refused by blast
      next
        case ne: False
        note run = run [unfolded e option.case if_not_P [OF ne]]
        let ?w = "webhook_record e (io_Parse g body) i (clock 0)"
        show ?thesis
        proof (cases "lookup wh_ProviderEventID i (in_webhooks s) = None")
          case False
          then show ?thesis using run duplicate v i by (auto simp: InsertWebhook_def webhook_record_def)
        next
          case True
          then have ins: "InsertWebhook ?w s = (True, s\<lparr>in_webhooks := in_webhooks s @ [?w]\<rparr>)"
            by (simp add: InsertWebhook_def webhook_record_def)
          obtain x s1 where x: "process g fresh clock (io_Parse g body) e i (s\<lparr>in_webhooks := in_webhooks s @ [?w]\<rparr>) = (x, s1)"
            by (metis prod.exhaust)
          show ?thesis using run ins x by (intro handled [OF i v e ne True x]) simp
        qed
      qed
    qed
  qed
qed

lemma VerifyD: "Verify mac secret body signature = None \<Longrightarrow> secret \<noteq> [] \<and> hex_decode signature = Some (mac secret body)"
  by (auto simp: Verify_def split: if_splits option.splits)

text \<open>Processing leaves the stored events alone and commits a run of transactions.\<close>

lemma run_Detect:
  assumes "Detect adapter fresh now payload i s = (r, s')" and "reads_only adapter"
  shows "run (in_db s) (in_db s')" and "in_webhooks s' = in_webhooks s"
proof -
  obtain x s1 where x: "adapter payload i s = (x, s1)" by (metis prod.exhaust)
  have same: "in_db s1 = in_db s" "in_webhooks s1 = in_webhooks s" using assms(2) x by (auto simp: reads_only_def)
  have "run (in_db s) (in_db s') \<and> in_webhooks s' = in_webhooks s"
  proof (cases "s' = s1")
    case True
    then show ?thesis using same by simp
  next
    case False
    then obtain leak c db where "service_CreateCase fresh now (case_input leak) (in_db s1) = Inr (c, db)" "s' = s1\<lparr>in_db := db\<rparr>"
      using assms(1) x by (auto simp: Detect_def split: sum.splits option.splits if_splits prod.splits)
    then show ?thesis using same by (auto intro: run_one transaction.open_case)
  qed
  then show "run (in_db s) (in_db s')" "in_webhooks s' = in_webhooks s" by simp_all
qed

lemma run_Observe: "Observe fresh now input db = Inr (r, db') \<Longrightarrow> run db db'"
  by (auto simp: Observe_def intro: run_one transaction.attribute split: if_splits)

lemma run_observe_link:
  assumes "observePaymentLinkPaid g fresh clock e i db = Inr (r, db')"
  shows "run db db'"
  using assms by (auto simp: observePaymentLinkPaid_def Let_def dest!: run_Observe split: if_splits sum.splits prod.splits)

lemma run_process:
  assumes "process g fresh clock raw e i s = (x, s')"
  shows "run (in_db s) (in_db s') \<and> in_webhooks s' = in_webhooks s"
proof (cases "en_Event e = ''payment_link.paid''")
  case True
  then show ?thesis using assms by (auto simp: process_def dest: run_observe_link split: sum.splits)
next
  case False
  then have "s' = s \<or> (\<exists>event fresh now r. Detect (SubscriptionAdapter ''razorpay'') fresh now (event_json event) i s = (r, s'))"
    using assms by (auto simp: process_def detect_failure_def split: sum.splits prod.splits)
  then show ?thesis using run_Detect [OF _ reads_only_subscription] by auto
qed

lemma finish_state:
  "(r, s') = finish i now (x, s) \<Longrightarrow> s' = MarkWebhookProcessed i (if is_ok x then WebhookProcessed else WebhookFailed) now s \<and> is_ok r = is_ok x"
  by (auto simp: finish_def split: sum.splits)

lemma lookup_handled:
  assumes "lookup wh_ProviderEventID i ws = None" and "wh_ProviderEventID w = i" and "in_webhooks s = ws @ [w]"
  shows "lookup wh_ProviderEventID k (in_webhooks (MarkWebhookProcessed i st now s)) =
    (if k = i then Some (w\<lparr>wh_Status := st, wh_ProcessedAt := Some now\<rparr>) else lookup wh_ProviderEventID k ws)"
  using assms by (simp add: MarkWebhookProcessed_def lookup_modify lookup_append lookup_Cons split: option.splits)

text \<open>Deliveries in a row.\<close>

type_synonym WebhookDelivery = "(nat \<Rightarrow> ID) \<times> (nat \<Rightarrow> time) \<times> string \<times> string \<times> string"

fun deliver_all :: "Ingestor \<Rightarrow> WebhookDelivery list \<Rightarrow> Intake \<Rightarrow> Intake" where
  "deliver_all g [] s = s"
| "deliver_all g ((fresh, clock, body, signature, i) # ds) s = deliver_all g ds (snd (webhook_Ingest g fresh clock body signature i s))"

lemma delivery_events:
  assumes "webhook_Ingest g fresh clock body signature i s = (r, s')"
  shows "s' = s \<or> (i \<noteq> [] \<and> Verify (io_Mac g) (io_Secret g) body signature = None \<and> lookup wh_ProviderEventID i (in_webhooks s) = None
    \<and> (\<exists>w. wh_Status w = (if is_ok r then WebhookProcessed else WebhookFailed) \<and> wh_Payload w = io_Parse g body
         \<and> wh_ProcessedAt w = Some (clock 3) \<and> run (in_db s) (in_db s')
         \<and> (\<forall>k. lookup wh_ProviderEventID k (in_webhooks s') = (if k = i then Some w else lookup wh_ProviderEventID k (in_webhooks s)))))"
  using assms
proof (cases rule: webhook_IngestE)
  case (handled e x s1)
  let ?w = "webhook_record e (io_Parse g body) i (clock 0)"
  note p = run_process [OF handled(6)] and f = finish_state [OF handled(7)]
  let ?st = "if is_ok x then WebhookProcessed else WebhookFailed"
  have "\<forall>k. lookup wh_ProviderEventID k (in_webhooks s') =
      (if k = i then Some (?w\<lparr>wh_Status := ?st, wh_ProcessedAt := Some (clock 3)\<rparr>) else lookup wh_ProviderEventID k (in_webhooks s))"
    using f p by (auto simp: lookup_handled [OF handled(5), of ?w] webhook_record_def)
  moreover have "run (in_db s) (in_db s')" using p f by (simp add: MarkWebhookProcessed_def)
  ultimately show ?thesis
    using handled(1,2,5) f by (intro disjI2 conjI exI [of _ "?w\<lparr>wh_Status := ?st, wh_ProcessedAt := Some (clock 3)\<rparr>"])
      (simp_all add: webhook_record_def)
qed simp_all

lemma deliver_all_keeps: "lookup wh_ProviderEventID i (in_webhooks s) = Some w \<Longrightarrow> lookup wh_ProviderEventID i (in_webhooks (deliver_all g ds s)) = Some w"
proof (induction g ds s rule: deliver_all.induct)
  case (2 g fresh clock body signature k ds s)
  obtain r s' where d: "webhook_Ingest g fresh clock body signature k s = (r, s')" by (metis prod.exhaust)
  have "lookup wh_ProviderEventID i (in_webhooks s') = Some w"
    using delivery_events [OF d] 2(2) by (metis option.distinct(1))
  then show ?case using 2(1) d by simp
qed simp

section \<open>Payments\<close>

lemma andThen_Inl: "andThen x f = Inl e \<longleftrightarrow> x = Inl e \<or> (\<exists>a. x = Inr a \<and> f a = Inl e)"
  by (cases x) (simp_all add: andThen_def)

lemma append_events_error: "append_events db i es \<noteq> Inl ErrCaseTerminal"
proof -
  have "insertEvents db es \<noteq> Inl ErrCaseTerminal" for es
    by (induction db es rule: insertEvents.induct) (auto simp: insertEvent_def split: sum.splits if_splits)
  then show ?thesis by (simp add: append_events_def)
qed

lemma attribution_errors:
  "insert_attribution r db \<noteq> Inl ErrCaseTerminal" "fulfil_promise fresh input b p db \<noteq> Inl ErrCaseTerminal"
  "recover_case input k c db \<noteq> Inl ErrCaseTerminal" "feedback_step n r db \<noteq> Inl ErrCaseTerminal"
proof -
  have t: "transitionPromiseTx fresh p target reason corr ref now db \<noteq> Inl ErrCaseTerminal" for fresh p target reason corr ref now db
    by (auto simp: transitionPromiseTx_def Let_def insert_promise_event_def append_events_error andThen_Inl)
  then show "fulfil_promise fresh input b p db \<noteq> Inl ErrCaseTerminal"
    by (auto simp: fulfil_promise_def andThen_Inl split: option.splits)
qed (auto simp: insert_attribution_def recover_case_def feedback_step_def insertFeedbackForAttribution_def Let_def split: option.splits)

lemma AttributeRecovery_terminal:
  assumes "AttributeRecovery fresh input db = Inl ErrCaseTerminal"
  shows "\<exists>c. find_case db (ob_CaseID input) = Some c \<and> IsTerminal (rc_CurrentState c)"
proof (rule ccontr)
  assume "\<not> ?thesis"
  then have "AttributeRecovery fresh input db \<noteq> Inl ErrCaseTerminal"
    unfolding AttributeRecovery_def Let_def
    by (auto simp: attribution_errors append_events_error andThen_Inl split: option.splits)
  then show False using assms by simp
qed

lemma attribution_outcome:
  assumes "AttributeRecovery fresh input db = Inr ((a, created), db')" and "find_case db (ob_CaseID input) = Some c"
  shows "if created
         then db_attributions db' = db_attributions db @ [a] \<and> at_CaseID a = ob_CaseID input
           \<and> at_PaymentReference a = ob_PaymentReference input
           \<and> (\<exists>c'. find_case db' (ob_CaseID input) = Some c' \<and> rc_CurrentState c' = StateRecovered
                \<and> rc_RecoveredAmountMinor c' = rc_RecoveredAmountMinor c + at_RecoveredAmountMinor a)
         else db' = db \<and> (a \<in> set (db_attributions db) \<or> exact_match input db \<noteq> None \<and> ptp_match input db \<noteq> None)"
  using assms(1)
proof (cases rule: AttributeRecoveryE)
  case (recorded c0 d fc)
  have f: "find_case d (ob_CaseID input) = Some (recovered_case (ob_RecoveredAmountMinor input)
      (bs_Category (basis_of input db)) (ob_ObservedAt input) c)"
    using find_case_map [OF recorded(9)] assms(2) by simp
  then show ?thesis
    using recorded(1,4,8) append_events_case [OF recorded(14)] append_events_log [OF recorded(14)] by simp
qed simp_all

section \<open>Properties\<close>

text \<open>C26. Only an authentic delivery changes anything. When the state after a delivery differs from the
  one before, the event id is not empty, the webhook secret is configured, the signature is the
  hexadecimal form of the HMAC of the body under it, and the id was not stored yet; then exactly
  one event is added, with its outcome, and every other stored event is as before. So a forged
  delivery reserves no id.\<close>

theorem webhook_is_authentic:
  assumes "webhook_Ingest g fresh clock body signature i s = (r, s')" and "s' \<noteq> s"
  shows "i \<noteq> [] \<and> io_Secret g \<noteq> [] \<and> hex_decode signature = Some (io_Mac g (io_Secret g) body)
    \<and> lookup wh_ProviderEventID i (in_webhooks s) = None
    \<and> (\<exists>w. lookup wh_ProviderEventID i (in_webhooks s') = Some w \<and> wh_Status w = (if is_ok r then WebhookProcessed else WebhookFailed))
    \<and> (\<forall>k. k \<noteq> i \<longrightarrow> lookup wh_ProviderEventID k (in_webhooks s') = lookup wh_ProviderEventID k (in_webhooks s))"
  using delivery_events [OF assms(1)] assms(2) VerifyD by auto

text \<open>C27. An event is processed once, also when its processing failed. After a delivery that was
  stored, and whatever was delivered since, the same delivery is answered with 200 and does
  nothing. A delivery answered with an error is stored as FAILED and stays so: the provider's
  retries of it are taken for duplicates, and the event is never processed.\<close>

theorem event_handled_once:
  assumes "razorpayWebhook g fresh clock body signature i s = (status, s1)" and "s1 \<noteq> s"
  shows "\<exists>w. wh_Status w = (if status = 200 then WebhookProcessed else WebhookFailed)
    \<and> (\<forall>ds fresh2 clock2. lookup wh_ProviderEventID i (in_webhooks (deliver_all g ds s1)) = Some w
         \<and> razorpayWebhook g fresh2 clock2 body signature i (deliver_all g ds s1) = (200, deliver_all g ds s1))"
proof -
  let ?body = "take (2 * 1024 * 1024) body"
  obtain r where d: "webhook_Ingest g fresh clock ?body signature i s = (r, s1)" "status = webhook_status r"
    using assms(1) by (auto simp: razorpayWebhook_def split: prod.splits)
  have ok: "(status = 200) = is_ok r" using d(2) by (auto simp: webhook_status_def split: sum.splits)
  obtain w where w: "lookup wh_ProviderEventID i (in_webhooks s1) = Some w" "wh_Status w = (if is_ok r then WebhookProcessed else WebhookFailed)"
    using delivery_events [OF d(1)] assms(2) by auto
  have again: "webhook_Ingest g fresh2 clock2 ?body signature i s2 = (Inr (no_result, True), s2)"
    if "lookup wh_ProviderEventID i (in_webhooks s2) = Some w" for fresh2 clock2 s2
    using d(1)
  proof (cases rule: webhook_IngestE)
    case (handled e x s1)
    then show ?thesis using that by (simp add: webhook_Ingest_def InsertWebhook_def webhook_record_def)
  qed (use assms(2) in simp_all)
  show ?thesis
    using w ok deliver_all_keeps [OF w(1)] again by (intro exI [of _ w]) (simp add: razorpayWebhook_def webhook_status_def)
qed

text \<open>The case of a paid link is settled by what the server stored: a link it created, or else a
  scheduled action it is referenced by, decides whatever the notes say; the notes are used only
  when neither is known, and only for a case of the merchant and customer they name.\<close>

theorem notes_never_override:
  assumes "ResolvePaymentLinkCase link reference note merchant customer db = Inr i"
  shows "(\<forall>n m k. ResolvePaymentLinkCase link reference n m k db = Inr i)
      \<and> ((\<exists>f \<in> set (db_provider_refs db). \<exists>a \<in> set (db_actions db). pl_ID (lk_Link f) = link \<and> lk_ActionID f = ra_ID a \<and> i = ra_CaseID a)
         \<or> (\<exists>w. reference \<noteq> [] \<and> lookup sa_ID reference (db_scheduled db) = Some w \<and> i = sa_CaseID w))
    \<or> (\<forall>f \<in> set (db_provider_refs db). \<forall>a \<in> set (db_actions db). pl_ID (lk_Link f) = link \<longrightarrow> lk_ActionID f \<noteq> ra_ID a)
      \<and> (reference = [] \<or> lookup sa_ID reference (db_scheduled db) = None)
      \<and> i = note \<and> (\<exists>c. find_case db note = Some c \<and> merchant \<in> {[], rc_MerchantID c} \<and> customer \<in> {[], rc_CustomerID c})"
proof -
  let ?pairs = "concat (map (\<lambda>f. map (Pair f) (filter (\<lambda>a. ra_ID a = lk_ActionID f) (db_actions db))) (rev (db_provider_refs db)))"
  let ?hit = "find (\<lambda>(f, a). pl_ID (lk_Link f) = link) ?pairs"
  let ?row = "if reference = [] then None else lookup sa_ID reference (db_scheduled db)"
  show ?thesis
  proof (cases ?hit)
    case (Some fa)
    obtain f a where fa: "fa = (f, a)" by (metis prod.exhaust)
    have hit: "f \<in> set (db_provider_refs db)" "a \<in> set (db_actions db)" "pl_ID (lk_Link f) = link" "lk_ActionID f = ra_ID a"
      using find_SomeD [OF Some] fa by auto
    have all: "ResolvePaymentLinkCase link reference n m k db = Inr (ra_CaseID a)" for n m k
      using Some fa by (simp add: ResolvePaymentLinkCase_def)
    then have i: "i = ra_CaseID a" using assms by simp
    have "\<exists>f \<in> set (db_provider_refs db). \<exists>a \<in> set (db_actions db). pl_ID (lk_Link f) = link \<and> lk_ActionID f = ra_ID a \<and> i = ra_CaseID a"
      using hit i by blast
    then show ?thesis using all i by simp
  next
    case None
    then have none: "\<forall>f \<in> set (db_provider_refs db). \<forall>a \<in> set (db_actions db). pl_ID (lk_Link f) = link \<longrightarrow> lk_ActionID f \<noteq> ra_ID a"
      unfolding find_None_iff by fastforce
    show ?thesis
    proof (cases ?row)
      case (Some w)
      then have "ResolvePaymentLinkCase link reference n m k db = Inr (sa_CaseID w)" for n m k
        using None unfolding ResolvePaymentLinkCase_def by simp
      then show ?thesis using assms Some by (auto split: if_splits)
    next
      case row: None
      have r: "ResolvePaymentLinkCase link reference note merchant customer db =
          (if note = [] then Inl ErrNotFound else (case find_case db note of None \<Rightarrow> Inl ErrNotFound
            | Some c \<Rightarrow> if (merchant \<noteq> [] \<and> merchant \<noteq> rc_MerchantID c) \<or> (customer \<noteq> [] \<and> customer \<noteq> rc_CustomerID c)
                then Inl (ErrMsg ''Razorpay payment link notes do not match the recovery case'') else Inr note))"
        unfolding ResolvePaymentLinkCase_def None row option.case ..
      then have "i = note \<and> (\<exists>c. find_case db note = Some c \<and> merchant \<in> {[], rc_MerchantID c} \<and> customer \<in> {[], rc_CustomerID c})"
        using assms by (auto split: if_splits option.splits)
      then show ?thesis using none row by (intro disjI2) (simp split: if_splits)
    qed
  qed
qed


lemma NormalizeWebhook_event:
  assumes "NormalizeWebhook raw now = Inr (event, x)"
  shows "se_RecoveryWindowHours event = 168" "se_FailureCategory event = []" "se_Metadata event = None"
    "se_MerchantID event \<noteq> []" "se_CustomerID event \<noteq> []"
  using assms by (auto simp: NormalizeWebhook_def event_of_payment_def Let_def split: option.splits if_splits)

lemma decode_value_int64: "decode_value json_int64 kvs k acc = Some n \<Longrightarrow> in_i64 acc \<Longrightarrow> in_i64 n"
proof (induction json_int64 kvs k acc rule: decode_value.induct)
  case (2 m v kvs k acc)
  then show ?case by (cases v) (auto split: if_splits option.splits)
qed simp

lemma decode_payment_amount: "decode_payment kvs = Some p \<Longrightarrow> in_i64 (py_Amount p)"
proof -
  assume "decode_payment kvs = Some p"
  then have "int_of kvs ''amount'' = Some (py_Amount p)" by (auto simp: decode_payment_def split: Option.bind_splits)
  then show "in_i64 (py_Amount p)" by (rule decode_value_int64) (simp add: in_i64_def)
qed

lemma noteInt64_range: "in_i64 (noteInt64 v)"
proof (cases v)
  case (Some j)
  then show ?thesis by (cases j) (simp_all add: in_i64_def [of 0])
qed (simp add: in_i64_def)

lemma NormalizeWebhook_amount: "NormalizeWebhook raw now = Inr (event, x) \<Longrightarrow> in_i64 (se_AmountMinor event)"
proof -
  assume n: "NormalizeWebhook raw now = Inr (event, x)"
  then obtain e ns where e: "decode_envelope raw = Some e" "event = event_of_payment e ns now"
    by (auto simp: NormalizeWebhook_def Let_def split: option.splits if_splits)
  from e(1) obtain kvs where "decode_payment kvs = Some (en_Payment e)"
    by (auto simp: decode_envelope_def split: Option.bind_splits)
  then show "in_i64 (se_AmountMinor event)"
    using decode_payment_amount noteInt64_range by (auto simp: e(2) event_of_payment_def Let_def)
qed

text \<open>A failure the webhook reports becomes a case. When a delivery that is not a paid link is
  processed without an error, its notes named a merchant and a customer and a leak was detected:
  the result is the stored case of that merchant whose source is the subscription, or without one
  the payment, of the event. A case created by it has the amount of the payment, or of the notes
  when that is zero, and a deadline seven days after the payment; one that was there before is
  left as it was.\<close>

theorem webhook_registers_failure:
  assumes "webhook_Ingest g fresh clock body signature i s = (Inr (r, False), s')" and "well_formed (in_db s)"
    and "decode_envelope (io_Parse g body) = Some e" and "en_Event e \<noteq> ''payment_link.paid''"
  shows "\<exists>c event. NormalizeWebhook (io_Parse g body) (clock 1) = Inr (event, en_Event e, webhookReferences e)
    \<and> en_Event e \<in> set subscriptionEvents \<and> ig_Case r = Some c \<and> ig_RiskDetected r
    \<and> c \<in> set (db_cases (in_db s')) \<and> rc_MerchantID c = se_MerchantID event
    \<and> rc_SourceReference c = (if se_SubscriptionID event = [] then se_PaymentID event else se_SubscriptionID event)
    \<and> (if ig_Created r
       then rc_CurrentState c = StateDetected \<and> rc_AmountAtRiskMinor c = se_AmountMinor event
         \<and> rc_RecoveryDeadline c = se_OccurredAt event + 168 * Hour \<and> find_case (in_db s) (rc_ID c) = None
       else in_db s' = in_db s)"
  using assms(1)
proof (cases rule: webhook_IngestE)
  case (handled e0 x s1)
  have e: "e0 = e" using handled(3) assms(3) by simp
  have fin: "x = Inr r" "in_db s' = in_db s1" using handled(7) by (auto simp: finish_def MarkWebhookProcessed_def split: sum.splits)
  let ?s = "s\<lparr>in_webhooks := in_webhooks s @ [webhook_record e (io_Parse g body) i (clock 0)]\<rparr>"
  have d: "detect_failure fresh clock (io_Parse g body) i ?s = (Inr r, s1)"
    using handled(6) assms(4) fin by (simp add: process_def e)
  obtain event ty refs where n: "NormalizeWebhook (io_Parse g body) (clock 1) = Inr (event, ty, refs)"
    using d by (cases "NormalizeWebhook (io_Parse g body) (clock 1)") (auto simp: detect_failure_def)
  have ty: "ty = en_Event e" "refs = webhookReferences e" "se_EventType event = en_Event e"
    using n assms(3) by (auto simp: NormalizeWebhook_def event_of_payment_def Let_def split: if_splits)
  obtain dr where dr: "Detect (SubscriptionAdapter ''razorpay'') fresh (clock 2) (event_json event) i ?s = (Inr dr, s1)"
    "r = no_result\<lparr>ig_Case := dt_Case dr, ig_Created := dt_Created dr, ig_RiskDetected := dt_RiskDetected dr\<rparr>"
    using d [unfolded detect_failure_def n sum.case prod.case] by (auto split: prod.splits sum.splits)
  note ev = NormalizeWebhook_event [OF n] and amount = NormalizeWebhook_amount [OF n]
  have decoded: "decode_subscription (event_json event) = (if 0 \<le> year_of (se_OccurredAt event) \<and> year_of (se_OccurredAt event) \<le> 9999
      then Some (event\<lparr>se_Metadata := Some JNull\<rparr>) else None)"
    using subscription_event_read [OF amount] ev by (simp add: in_i64_def raw_json_def)
  let ?e = "event\<lparr>se_Metadata := Some JNull\<rparr>"
  have adapter: "leak = leak_of_subscription ''razorpay'' i ?e \<and> se_EventType event \<in> set subscriptionEvents \<and> s2 = ?s"
    if "SubscriptionAdapter ''razorpay'' (event_json event) i ?s = (Inr (Some leak), s2)" for leak s2
    using that by (auto simp: SubscriptionAdapter_def decoded split: if_splits)
  have leak: "nl_MerchantID (leak_of_subscription ''razorpay'' i ?e) = se_MerchantID event"
    "nl_SourceReference (leak_of_subscription ''razorpay'' i ?e) = (if se_SubscriptionID event = [] then se_PaymentID event else se_SubscriptionID event)"
    "nl_AmountMinor (leak_of_subscription ''razorpay'' i ?e) = se_AmountMinor event"
    "nl_RecoveryDeadline (leak_of_subscription ''razorpay'' i ?e) = se_OccurredAt event + 168 * Hour"
    using ev by (simp_all add: leak_of_subscription_def window_end_def Let_def Hour_def in_i64_def)
  from dr(1) show ?thesis
  proof (cases rule: DetectE)
    case no_risk
    then show ?thesis by (auto simp: SubscriptionAdapter_def split: option.splits if_splits)
  next
    case (known leak c)
    note a = adapter [OF known(1)]
    have db: "in_db s1 = in_db s" using a by simp
    have wf: "well_formed (in_db s1)" using assms(2) db by simp
    note found = GetCaseBySource_Inr [OF known(3) wf]
    have mem: "c \<in> set (db_cases (in_db s))" using found db unfolding find_case_def by (metis lookup_SomeD)
    have "ig_Case r = Some c" "ig_RiskDetected r" "\<not> ig_Created r" using dr(2) known(4) by simp_all
    then show ?thesis using n ty a found(1,2) mem fin leak by (intro exI [of _ c] exI [of _ event]) simp
  next
    case (registered leak s2 c db)
    note a = adapter [OF registered(1)]
    have db: "in_db s2 = in_db s" using a by simp
    note f = create_case_facts [OF registered(4) [unfolded db] assms(2)] and k = CreateCase_input [OF registered(4)]
    have "ig_Case r = Some c" "ig_RiskDetected r" "ig_Created r" using dr(2) registered(6) by simp_all
    moreover have "c \<in> set (db_cases db)" using f unfolding find_case_def by (metis lookup_SomeD)
    ultimately show ?thesis using n ty a f k fin leak registered(5) by (intro exI [of _ c] exI [of _ event]) (simp add: case_input_def)
  qed
qed simp_all

text \<open>The intake keeps the system reachable: from a reachable state, any webhook delivery and any
  detection request leave a state that is reachable again, whatever their result, so every
  invariant of the reachable states holds in between.\<close>

theorem intake_stays_reachable:
  assumes "reachable x" and "sys_db x = in_db s"
  shows "(webhook_Ingest g fresh clock body signature i s = (r, s') \<longrightarrow> reachable (x\<lparr>sys_db := in_db s'\<rparr>))
    \<and> (Detect adapter fresh now payload i s = (d, s2) \<and> (adapter = SubscriptionAdapter p \<or> adapter = CheckoutAdapter)
       \<longrightarrow> reachable (x\<lparr>sys_db := in_db s2\<rparr>))"
proof -
  have same: "x\<lparr>sys_db := in_db s\<rparr> = x" using assms(2) by (cases x) simp
  have "reachable (x\<lparr>sys_db := in_db s'\<rparr>)" if "webhook_Ingest g fresh clock body signature i s = (r, s')"
    using delivery_events [OF that] reachable_run [OF _ assms] assms(1) same by auto
  moreover have "reachable (x\<lparr>sys_db := in_db s2\<rparr>)"
    if "Detect adapter fresh now payload i s = (d, s2)" "adapter = SubscriptionAdapter p \<or> adapter = CheckoutAdapter"
    using run_Detect [OF that(1)] reads_only_subscription reads_only_checkout that(2) reachable_run [OF _ assms] by blast
  ultimately show ?thesis by blast
qed

text \<open>C29. The event the webhook normalizes and hands to detection as JSON text is read back as the same
  event: every field, the time to the nanosecond, the amount without loss, with only the absent
  metadata turned into \<open>null\<close>; unless its time is outside the years 0 to 9999, which the text
  cannot hold, and then nothing can be read.\<close>

theorem event_round_trip:
  assumes "NormalizeWebhook raw now = Inr (event, x)"
  shows "decode_subscription (event_json event) =
    (if 0 \<le> year_of (se_OccurredAt event) \<and> year_of (se_OccurredAt event) \<le> 9999
     then Some (event\<lparr>se_Metadata := Some JNull\<rparr>) else None)"
  using subscription_event_read [OF NormalizeWebhook_amount [OF assms]] NormalizeWebhook_event [OF assms]
  by (simp add: in_i64_def raw_json_def)

section \<open>Examples\<close>

definition example_ingestor :: "json \<Rightarrow> Ingestor" where
  "example_ingestor body = \<lparr>io_Secret = ''whsec'', io_Observes = True, io_Mac = (\<lambda>_ _. ''1''), io_Parse = (\<lambda>_. Some body),
     io_Sprint = (\<lambda>_. [])\<rparr>"

lemma example_verified: "Verify (io_Mac (example_ingestor j)) (io_Secret (example_ingestor j)) body ''31'' = None"
proof -
  have "hex_decode ''31'' = Some ''1''" by code_simp
  then show ?thesis by (simp add: Verify_def example_ingestor_def)
qed

text \<open>A failed payment whose notes are empty.\<close>

definition nameless :: json where
  "nameless = JObj [(''event'', JStr ''payment.failed''), (''payload'', JObj [(''payment'', JObj [(''entity'', JObj [(''id'', JStr ''pay_9'')])])])]"

definition empty_payment :: providerPayment where
  "empty_payment = \<lparr>py_ID = [], py_Amount = 0, py_Currency = [], py_OrderID = [], py_ErrorCode = [], py_CreatedAt = 0, py_Notes = []\<rparr>"

definition empty_subscription :: providerSubscription where
  "empty_subscription = \<lparr>ps_ID = [], ps_Status = [], ps_Notes = []\<rparr>"

definition empty_link :: providerPaymentLink where
  "empty_link = \<lparr>ln_ID = [], ln_Amount = 0, ln_AmountPaid = 0, ln_Currency = [], ln_Status = [], ln_ReferenceID = [], ln_Notes = []\<rparr>"

definition nameless_envelope :: webhookEnvelope where
  "nameless_envelope = \<lparr>en_Event = ''payment.failed'', en_CreatedAt = 0, en_Payment = empty_payment\<lparr>py_ID := ''pay_9''\<rparr>,
     en_Subscription = empty_subscription, en_PaymentLink = empty_link\<rparr>"

lemma nameless_decoded: "decode_envelope (Some nameless) = Some nameless_envelope"
  by code_simp

lemma nameless_delivered:
  "webhook_Ingest (example_ingestor nameless) fresh clock body ''31'' ''evt_7'' shop_intake =
    (Inl (ErrMsg ''merchant_id and customer_id must be present in provider notes''),
     shop_intake\<lparr>in_webhooks := [(webhook_record nameless_envelope (Some nameless) ''evt_7'' (clock 0))
       \<lparr>wh_Status := WebhookFailed, wh_ProcessedAt := Some (clock 3)\<rparr>]\<rparr>)"
proof -
  have p: "io_Parse (example_ingestor nameless) b = Some nameless" for b by (simp add: example_ingestor_def)
  have n: "NormalizeWebhook (Some nameless) t = Inl (ErrMsg ''merchant_id and customer_id must be present in provider notes'')" for t
    by (simp add: NormalizeWebhook_def nameless_decoded nameless_envelope_def empty_payment_def empty_subscription_def note_text_def member_of_def)
  show ?thesis
    by (simp add: webhook_Ingest_def example_verified p nameless_decoded InsertWebhook_def webhook_record_def process_def detect_failure_def n
        finish_def MarkWebhookProcessed_def shop_intake_def) (simp add: nameless_envelope_def modify_def)
qed

theorem webhook_is_authentic_witness:
  "hex_decode ''31'' = Some (io_Mac (example_ingestor nameless) ''whsec'' ''{}'')
    \<and> snd (webhook_Ingest (example_ingestor nameless) (ids CHR ''a'') (\<lambda>_. 0) ''{}'' ''31'' ''evt_7'' shop_intake) \<noteq> shop_intake"
proof -
  have d: "snd (webhook_Ingest (example_ingestor nameless) (ids CHR ''a'') (\<lambda>_. 0) ''{}'' ''31'' ''evt_7'' shop_intake) \<noteq> shop_intake"
    unfolding nameless_delivered by (simp add: shop_intake_def)
  from webhook_is_authentic [OF nameless_delivered [of "ids CHR ''a''" "\<lambda>_. 0" "''{}''"]] d nameless_delivered
  show ?thesis by (simp add: example_ingestor_def)
qed

theorem event_handled_once_witness:
  "\<exists>s1. razorpayWebhook (example_ingestor nameless) (ids CHR ''a'') (\<lambda>_. 0) ''{}'' ''31'' ''evt_7'' shop_intake = (422, s1)
     \<and> razorpayWebhook (example_ingestor nameless) (ids CHR ''b'') (\<lambda>_. 1) ''{}'' ''31'' ''evt_7'' s1 = (200, s1)"
proof -
  obtain s1 where d: "razorpayWebhook (example_ingestor nameless) (ids CHR ''a'') (\<lambda>_. 0) ''{}'' ''31'' ''evt_7'' shop_intake = (422, s1)"
    "s1 \<noteq> shop_intake"
    unfolding razorpayWebhook_def nameless_delivered by (simp add: webhook_status_def ErrInvalidSignature_def) (simp add: shop_intake_def)
  obtain w where w: "\<forall>ds fresh2 clock2. razorpayWebhook (example_ingestor nameless) fresh2 clock2 ''{}'' ''31'' ''evt_7''
      (deliver_all (example_ingestor nameless) ds s1) = (200, deliver_all (example_ingestor nameless) ds s1)"
    using event_handled_once [OF d] by blast
  show ?thesis using d(1) w [rule_format, of "ids CHR ''b''" "\<lambda>_. 1" "[]"] by auto
qed

text \<open>A failed payment whose notes name its merchant and customer.\<close>

definition declined :: json where
  "declined = JObj [(''event'', JStr ''payment.failed''), (''payload'', JObj [(''payment'', JObj [(''entity'',
     JObj [(''id'', JStr ''pay_9''), (''amount'', JNum 10000), (''currency'', JStr ''INR''), (''created_at'', JNum 1767261600),
       (''notes'', JObj [(''merchant_id'', JStr ''m1''), (''customer_id'', JStr ''c1'')])])])])]"

definition declined_envelope :: webhookEnvelope where
  "declined_envelope = \<lparr>en_Event = ''payment.failed'', en_CreatedAt = 0,
     en_Payment = \<lparr>py_ID = ''pay_9'', py_Amount = 10000, py_Currency = ''INR'', py_OrderID = [], py_ErrorCode = [],
       py_CreatedAt = 1767261600, py_Notes = [(''merchant_id'', JStr ''m1''), (''customer_id'', JStr ''c1'')]\<rparr>,
     en_Subscription = empty_subscription, en_PaymentLink = empty_link\<rparr>"

definition declined_event :: SubscriptionEvent where
  "declined_event = \<lparr>se_EventType = ''payment.failed'', se_MerchantID = ''m1'', se_CustomerID = ''c1'', se_AmountMinor = 10000,
     se_Currency = ''INR'', se_PaymentID = ''pay_9'', se_SubscriptionID = [], se_OrderID = [], se_FailureCode = [],
     se_FailureCategory = [], se_OccurredAt = 63902858400 * Second, se_RecoveryWindowHours = 168, se_Metadata = None\<rparr>"

lemma declined_decoded: "decode_envelope (Some declined) = Some declined_envelope"
  by code_simp

lemma declined_normalized:
  "NormalizeWebhook (Some declined) now = Inr (declined_event, ''payment.failed'', webhookReferences declined_envelope)"
proof -
  have "i64 (1767261600 + 62135596800) = 63902858400" by (simp add: i64_def)
  then show ?thesis
    by (simp add: NormalizeWebhook_def declined_decoded note_text_def member_of_def event_of_payment_def unix_time_def)
      (simp add: declined_envelope_def declined_event_def empty_subscription_def empty_link_def note_text_def member_of_def unix_time_def
        event_of_payment_def Let_def)
qed

theorem event_round_trip_witness:
  "decode_subscription (event_json declined_event) = Some (declined_event\<lparr>se_Metadata := Some JNull\<rparr>)"
proof -
  have "year_of (se_OccurredAt declined_event) = 2026" by code_simp
  then show ?thesis using event_round_trip [OF declined_normalized] by simp
qed

definition declined_leak :: NormalizedLeak where
  "declined_leak = leak_of_subscription ''razorpay'' ''evt_8'' (declined_event\<lparr>se_Metadata := Some JNull\<rparr>)"

lemma declined_read: "decode_subscription (event_json declined_event) = Some (declined_event\<lparr>se_Metadata := Some JNull\<rparr>)"
proof -
  have "year_of (se_OccurredAt declined_event) = 2026" by code_simp
  then show ?thesis using subscription_event_read [of declined_event] by (simp add: declined_event_def in_i64_def raw_json_def)
qed

lemma declined_adapted: "SubscriptionAdapter ''razorpay'' (event_json declined_event) ''evt_8'' s = (Inr (Some declined_leak), s)"
  by (simp add: SubscriptionAdapter_def declined_read declined_leak_def) (simp add: declined_event_def subscriptionEvents_def)

lemma declined_leak_simps [simp]:
  "nl_MerchantID declined_leak = ''m1''" "nl_CustomerID declined_leak = ''c1''" "nl_SourceReference declined_leak = ''pay_9''"
  "nl_ProviderEventID declined_leak = ''evt_8''" "nl_AmountMinor declined_leak = 10000" "nl_Currency declined_leak = ''INR''"
  "nl_LeakType declined_leak = FailedSubscription" "nl_OccurredAt declined_leak = 63902858400 * Second"
  "nl_RecoveryDeadline declined_leak = 63902858400 * Second + 168 * Hour"
proof -
  have "i64 (168 * Hour) = 168 * Hour" by (simp add: Hour_def in_i64_def)
  then show "nl_RecoveryDeadline declined_leak = 63902858400 * Second + 168 * Hour"
    by (simp add: declined_leak_def leak_of_subscription_def declined_event_def window_end_def)
qed (simp_all add: declined_leak_def leak_of_subscription_def declined_event_def)

lemma declined_valid: "Validate declined_leak = None"
  by (simp add: Validate_def Second_def Hour_def)

lemma declined_registered:
  "\<exists>c db. service_CreateCase (ids CHR ''a'') (63902858400 * Second) (case_input declined_leak) shop_db = Inr (c, db)"
  by (simp add: Let_def service_CreateCase_def case_input_def CreateCase_def insert_case_def case_of_input_def
      shop_db_def empty_db_def find_case_def lookup_Cons insertEvent_def newEvent_def event_of_def Hour_def
      TrimSpace_def is_space_def IsValid_def)

lemma declined_delivered:
  "\<exists>r s'. webhook_Ingest (example_ingestor declined) (ids CHR ''a'') (\<lambda>_. 63902858400 * Second) body ''31'' ''evt_8'' shop_intake
     = (Inr (r, False), s') \<and> ig_Created r"
proof -
  have p: "io_Parse (example_ingestor declined) b = Some declined" for b by (simp add: example_ingestor_def)
  have ev: "en_Event declined_envelope = ''payment.failed''" by (simp add: declined_envelope_def)
  obtain c db where c: "service_CreateCase (ids CHR ''a'') (63902858400 * Second) (case_input declined_leak) shop_db = Inr (c, db)"
    using declined_registered by blast
  have "GetCaseBySource ''m1'' ''pay_9'' shop_db = Inl ErrNotFound" by (simp add: GetCaseBySource_def shop_db_def empty_db_def)
  then show ?thesis
    using c by (simp add: webhook_Ingest_def example_verified p declined_decoded InsertWebhook_def process_def detect_failure_def
        declined_normalized Detect_def declined_adapted declined_valid finish_def shop_intake_def ev webhook_record_def)
qed

theorem webhook_registers_failure_witness:
  "\<exists>r s' c. webhook_Ingest (example_ingestor declined) (ids CHR ''a'') (\<lambda>_. 63902858400 * Second) ''{}'' ''31'' ''evt_8'' shop_intake
     = (Inr (r, False), s') \<and> c \<in> set (db_cases (in_db s')) \<and> rc_AmountAtRiskMinor c = 10000 \<and> rc_SourceReference c = ''pay_9''"
proof -
  let ?g = "example_ingestor declined"
  obtain r s' where d: "webhook_Ingest ?g (ids CHR ''a'') (\<lambda>_. 63902858400 * Second) ''{}'' ''31'' ''evt_8'' shop_intake = (Inr (r, False), s')"
    "ig_Created r" using declined_delivered by blast
  have p: "io_Parse ?g ''{}'' = Some declined" by (simp add: example_ingestor_def)
  have w: "well_formed (in_db shop_intake)" using shop_well_formed by (simp add: shop_intake_def)
  have ev: "en_Event declined_envelope \<noteq> ''payment_link.paid''" by (simp add: declined_envelope_def)
  from webhook_registers_failure [OF d(1) w _ ev] d(2)
  obtain c event where "NormalizeWebhook (Some declined) (63902858400 * Second) = Inr (event, ''payment.failed'', webhookReferences declined_envelope)"
    "c \<in> set (db_cases (in_db s'))" "rc_SourceReference c = (if se_SubscriptionID event = [] then se_PaymentID event else se_SubscriptionID event)"
    "rc_AmountAtRiskMinor c = se_AmountMinor event"
    by (auto simp: p declined_decoded declined_envelope_def [THEN arg_cong, of en_Event])
  then show ?thesis using d(1) by (auto simp: declined_normalized declined_event_def)
qed

text \<open>A paid link of a case with an execution whose reference is the link's and a promise due.\<close>

definition paid_body :: json where
  "paid_body = JObj [(''event'', JStr ''payment_link.paid''), (''created_at'', JNum (-62135593200)), (''payload'', JObj [
     (''payment_link'', JObj [(''entity'', JObj [(''id'', JStr ''pay_1''), (''amount_paid'', JNum 10000)])])])]"

definition paid_envelope :: webhookEnvelope where
  "paid_envelope = \<lparr>en_Event = ''payment_link.paid'', en_CreatedAt = -62135593200, en_Payment = empty_payment,
     en_Subscription = empty_subscription, en_PaymentLink = empty_link\<lparr>ln_ID := ''pay_1'', ln_AmountPaid := 10000\<rparr>\<rparr>"

lemma paid_decoded: "decode_envelope (Some paid_body) = Some paid_envelope"
  by code_simp

definition linked_db :: Database where
  "linked_db = exact_db\<lparr>db_provider_refs := [\<lparr>lk_ID = ''f1'', lk_ActionID = ''ra1'',
     lk_Link = \<lparr>pl_ID = ''pay_1'', pl_ShortURL = [], pl_Status = ''created'', pl_ReferenceID = []\<rparr>\<rparr>]\<rparr>"

lemma link_resolved: "ResolvePaymentLinkCase ''pay_1'' reference note merchant customer linked_db = Inr (rc_ID created_case)"
  by (simp add: ResolvePaymentLinkCase_def linked_db_def exact_db_def)

theorem notes_never_override_witness:
  "ResolvePaymentLinkCase ''pay_1'' [] ''other'' ''m2'' ''c2'' linked_db = Inr (rc_ID created_case)"
  using notes_never_override [OF link_resolved [of "[]" "[]" "[]" "[]"]] by (auto simp: linked_db_def exact_db_def)

theorem intake_stays_reachable_witness:
  "\<exists>s' :: Intake. reachable \<lparr>sys_db = in_db s', sys_reads = []\<rparr> \<and> in_webhooks s' \<noteq> []"
proof -
  have r: "reachable \<lparr>sys_db = shop_db, sys_reads = []\<rparr>"
    by (rule reachable.init) (simp add: initial_def shop_db_def empty_db_def)
  have e: "sys_db \<lparr>sys_db = shop_db, sys_reads = []\<rparr> = in_db shop_intake" by (simp add: shop_intake_def)
  let ?s = "shop_intake\<lparr>in_webhooks := [(webhook_record nameless_envelope (Some nameless) ''evt_7'' 0)
      \<lparr>wh_Status := WebhookFailed, wh_ProcessedAt := Some 0\<rparr>]\<rparr>"
  have "reachable \<lparr>sys_db = in_db ?s, sys_reads = []\<rparr>"
    using intake_stays_reachable [OF r e, THEN conjunct1, rule_format, OF nameless_delivered [of "ids CHR ''a''" "\<lambda>_. 0" "[]"]]
    by simp
  moreover have "in_webhooks ?s \<noteq> []" by simp
  ultimately show ?thesis by blast
qed

lemma lost_payment:
  "AttributeRecovery fresh \<lparr>ob_CaseID = rc_ID created_case, ob_RecoveredAmountMinor = 10000, ob_PaymentReference = ''pay_1'',
     ob_ObservedAt = Hour, ob_CorrelationID = i\<rparr> linked_db =
   Inr ((record_of (fresh 0) \<lparr>ob_CaseID = rc_ID created_case, ob_RecoveredAmountMinor = 10000, ob_PaymentReference = ''pay_1'',
     ob_ObservedAt = Hour, ob_CorrelationID = i\<rparr> (basis_of \<lparr>ob_CaseID = rc_ID created_case, ob_RecoveredAmountMinor = 10000,
     ob_PaymentReference = ''pay_1'', ob_ObservedAt = Hour, ob_CorrelationID = i\<rparr> linked_db) None None, False), linked_db)"
  (is "AttributeRecovery fresh ?i linked_db = _")
proof -
  have "find_case linked_db (rc_ID created_case) = Some (created_case\<lparr>rc_CurrentState := StateWaitingOutcome\<rparr>)"
    using promised_case by (simp add: linked_db_def exact_db_def find_case_def)
  moreover have "exact_match ?i linked_db \<noteq> None"
    by (simp add: exact_match_def joined_def linked_db_def exact_db_def effective_def)
  moreover have "ptp_match ?i linked_db \<noteq> None"
    by (simp add: ptp_match_def ptpWindow_def Minute_def linked_db_def exact_db_def)
  moreover have "db_attributions linked_db = []" by (simp add: linked_db_def exact_db_def)
  ultimately show ?thesis by (simp add: AttributeRecovery_def IsTerminal_def Let_def)
qed

lemma paid_delivered:
  "\<exists>r s'. webhook_Ingest (example_ingestor paid_body) (ids CHR ''a'') (\<lambda>_. 0) body ''31'' ''evt_9'' (shop_intake\<lparr>in_db := linked_db\<rparr>)
     = (Inr (r, False), s') \<and> ig_Outcome r = ''RECOVERED'' \<and> \<not> ig_AttributionCreated r"
proof -
  have p: "io_Parse (example_ingestor paid_body) b = Some paid_body" "io_Observes (example_ingestor paid_body)" for b by (simp_all add: example_ingestor_def)
  have "i64 (-62135593200 + 62135596800) = 3600" by (simp add: i64_def)
  then have t: "unix_time (-62135593200) = Hour" by (simp add: unix_time_def Second_def Hour_def)
  have env: "en_Event paid_envelope = ''payment_link.paid''" "en_PaymentLink paid_envelope = empty_link\<lparr>ln_ID := ''pay_1'', ln_AmountPaid := 10000\<rparr>"
    "en_CreatedAt paid_envelope = -62135593200" "py_Amount (en_Payment paid_envelope) = 0"
    by (simp_all add: paid_envelope_def empty_payment_def)
  have zero: "\<not> IsZero Hour" by (simp add: Hour_def)
  have id: "rc_ID created_case \<noteq> []" by (simp add: created_case_eq)
  show ?thesis
    by (simp add: webhook_Ingest_def example_verified p paid_decoded InsertWebhook_def process_def observePaymentLinkPaid_def env
        link_resolved Observe_def observe_input_def t lost_payment id zero Let_def finish_def webhook_record_def shop_intake_def empty_link_def)
qed


end
