(* ===== verification/Demo_Scenarios.thy ===== *)
theory Demo_Scenarios
  imports Webhook Orchestrator
begin

text \<open>
  The scenario laboratory of the front end (\<open>internal/api/demo_scenarios.go\<close>): one request detects
  a leak, makes a promise where the scenario has one and decides the case, each step a
  transaction of its own. The answer shows the state the case is expected to have; the store is
  not read again. The services may be missing; a nil pointer that is followed is \<open>DemoPanic\<close>.
  \<open>fresh t k\<close> and \<open>clock t k\<close> are the k-th id and time of step t.
\<close>

section \<open>The services\<close>

record DemoServices =
  dm_Environment :: string
  dm_Detects :: bool
  dm_Decides :: bool
  dm_Promises :: bool
  dm_Predictor :: Predictor
  dm_Zone :: zone_db
  dm_Weekdays :: "(string \<times> int) list"
  dm_Reassessor :: "Reassessor option"

definition demo_enabled :: "DemoServices \<Rightarrow> bool" where
  "demo_enabled h \<longleftrightarrow> lower (dm_Environment h) \<in> {''development'', ''demo'', ''test''}"

datatype DemoAnswer = DemoDisabled | DemoUnsupported | DemoError error | DemoPanic
  | DemoCreated string RecoveryCase Snapshot "ScheduledAction option" "PromiseToPay option" string

section \<open>The events of a scenario\<close>

text \<open>\<open>json.Marshal\<close> of a checkout event, as \<open>event_json\<close> for subscriptions.\<close>

definition checkout_members :: "CheckoutEvent \<Rightarrow> (string \<times> json) list" where
  "checkout_members e = [(''event_type'', JStr (ce_EventType e)), (''checkout_id'', JStr (ce_CheckoutID e)),
     (''merchant_id'', JStr (ce_MerchantID e)), (''customer_id'', JStr (ce_CustomerID e)), (''amount_minor'', JInt (ce_AmountMinor e)),
     (''currency'', JStr (ce_Currency e)), (''checkout_stage'', JStr (ce_CheckoutStage e)), (''payment_method'', JStr (ce_PaymentMethod e)),
     (''failure_code'', JStr (ce_FailureCode e)), (''abandonment_reason'', JStr (ce_AbandonmentReason e)),
     (''occurred_at'', JStr (format_time (ce_OccurredAt e))), (''valid_until'', JStr (format_time (ce_ValidUntil e))),
     (''metadata'', raw_json (ce_Metadata e))]"

definition writable :: "time \<Rightarrow> bool" where
  "writable t \<longleftrightarrow> 0 \<le> year_of t \<and> year_of t \<le> 9999"

definition checkout_json :: "CheckoutEvent \<Rightarrow> RawMessage" where
  "checkout_json e = (if writable (ce_OccurredAt e) \<and> writable (ce_ValidUntil e) then Some (JObj (checkout_members e)) else None)"

definition demo_started :: "ID \<Rightarrow> int \<Rightarrow> time \<Rightarrow> CheckoutEvent" where
  "demo_started checkoutID amount now =
     \<lparr>ce_EventType = ''CHECKOUT_STARTED'', ce_CheckoutID = checkoutID, ce_MerchantID = ''demo-merchant-v1'',
      ce_CustomerID = ''demo-customer-v1'', ce_AmountMinor = amount, ce_Currency = ''INR'', ce_CheckoutStage = ''PAYMENT'',
      ce_PaymentMethod = [], ce_FailureCode = [], ce_AbandonmentReason = [], ce_OccurredAt = now,
      ce_ValidUntil = now + 7 * 24 * Hour, ce_Metadata = None\<rparr>"

text \<open>The year 1, the zero of the time that is not set, is writable.\<close>

definition demo_abandoned :: "ID \<Rightarrow> time \<Rightarrow> CheckoutEvent" where
  "demo_abandoned checkoutID now =
     \<lparr>ce_EventType = ''CHECKOUT_ABANDONED'', ce_CheckoutID = checkoutID, ce_MerchantID = [], ce_CustomerID = [], ce_AmountMinor = 0,
      ce_Currency = [], ce_CheckoutStage = [], ce_PaymentMethod = [], ce_FailureCode = [], ce_AbandonmentReason = ''payment_friction'',
      ce_OccurredAt = now + Second, ce_ValidUntil = 0, ce_Metadata = None\<rparr>"

definition demo_failure :: "string \<Rightarrow> int \<Rightarrow> time \<Rightarrow> SubscriptionEvent" where
  "demo_failure paymentID amount now =
     \<lparr>se_EventType = ''payment.failed'', se_MerchantID = ''demo-merchant-v1'', se_CustomerID = ''demo-customer-v1'',
      se_AmountMinor = amount, se_Currency = ''INR'', se_PaymentID = paymentID, se_SubscriptionID = [], se_OrderID = [],
      se_FailureCode = ''insufficient_funds'', se_FailureCategory = [], se_OccurredAt = now, se_RecoveryWindowHours = 168,
      se_Metadata = Some (JObj [(''source'', JStr ''frontend-scenario-lab'')])\<rparr>"

section \<open>The endpoints\<close>

definition demo_checkout :: "(nat \<Rightarrow> nat \<Rightarrow> ID) \<Rightarrow> (nat \<Rightarrow> nat \<Rightarrow> time) \<Rightarrow> string \<Rightarrow> string \<Rightarrow> time \<Rightarrow> Intake
    \<Rightarrow> (error, DetectionResult) result \<times> Intake" where
  "demo_checkout fresh clock scenario correlationID now s =
     (let amount = (if scenario = ''checkout_abandonment'' then 249900 else 899900); checkoutID = ''checkout_'' @ fresh 0 1 in
      case Detect CheckoutAdapter (fresh 1) (clock 1 0) (checkout_json (demo_started checkoutID amount now)) (correlationID @ '':started'') s of
        (Inl e, s) \<Rightarrow> (Inl e, s)
      | (Inr _, s) \<Rightarrow> Detect CheckoutAdapter (fresh 2) (clock 2 0) (checkout_json (demo_abandoned checkoutID now))
          (correlationID @ '':abandoned'') s)"

definition demo_payment :: "(nat \<Rightarrow> nat \<Rightarrow> ID) \<Rightarrow> (nat \<Rightarrow> nat \<Rightarrow> time) \<Rightarrow> string \<Rightarrow> string \<Rightarrow> time \<Rightarrow> Intake
    \<Rightarrow> (error, DetectionResult) result \<times> Intake" where
  "demo_payment fresh clock scenario correlationID now s =
     Detect (SubscriptionAdapter ''demo-scenario'') (fresh 2) (clock 2 0)
       (event_json (demo_failure (''pay_demo_'' @ fresh 0 1) (if scenario = ''low_value'' then 500 else 129900) now)) correlationID s"

text \<open>The promise of \<open>active_promise\<close>, due in a day, for the whole amount.\<close>

definition demo_promise :: "DemoServices \<Rightarrow> (nat \<Rightarrow> ID) \<Rightarrow> time \<Rightarrow> string \<Rightarrow> time \<Rightarrow> RecoveryCase \<Rightarrow> PromiseToPay tx" where
  "demo_promise h fresh createdAt correlationID now c db =
     (case promises_Create (dm_Weekdays h) (dm_Zone h) fresh createdAt
        \<lparr>ci_CaseID = rc_ID c, ci_Text = [], ci_PromisedFor = Some (now + 24 * Hour),
         ci_PromisedAmountMinor = Some (rc_AmountAtRiskMinor c), ci_Source = Some (JObj [(''source'', JStr ''frontend-scenario-lab'')]),
         ci_SourceResponseID = None, CreateInput.ci_CorrelationID = correlationID @ '':promise'', ci_Timezone = ''UTC''\<rparr> db of
        Inl e \<Rightarrow> Inl e | Inr ((p, _), db) \<Rightarrow> Inr (p, db))"

text \<open>The state the answer shows.\<close>

definition expected_state :: "Snapshot \<Rightarrow> ScheduledAction option \<Rightarrow> CaseState" where
  "expected_state snapshot scheduled =
     (if po_Decision (sn_Policy snapshot) = ''ESCALATE'' then StateEscalated
      else if scheduled \<noteq> None then StateScheduled else StateActionPending)"

definition demo_decide :: "DemoServices \<Rightarrow> (nat \<Rightarrow> nat \<Rightarrow> ID) \<Rightarrow> (nat \<Rightarrow> time) \<Rightarrow> string \<Rightarrow> string \<Rightarrow> RecoveryCase
    \<Rightarrow> PromiseToPay option \<Rightarrow> Intake \<Rightarrow> DemoAnswer \<times> Intake" where
  "demo_decide h fresh clock scenario correlationID c promise s =
     (case Decide (dm_Predictor h) (dm_Zone h) fresh clock (rc_ID c) (in_db s) of
        (Inl e, db) \<Rightarrow> (DemoError e, s\<lparr>in_db := db\<rparr>)
      | (Inr (snapshot, scheduled), db) \<Rightarrow>
          (DemoCreated scenario (c\<lparr>rc_CurrentState := expected_state snapshot scheduled\<rparr>) snapshot scheduled promise correlationID,
           s\<lparr>in_db := db\<rparr>))"

definition demo_detected :: "DemoServices \<Rightarrow> (nat \<Rightarrow> nat \<Rightarrow> ID) \<Rightarrow> (nat \<Rightarrow> nat \<Rightarrow> time) \<Rightarrow> string \<Rightarrow> string \<Rightarrow> time
    \<Rightarrow> (error, DetectionResult) result \<times> Intake \<Rightarrow> DemoAnswer \<times> Intake" where
  "demo_detected h fresh clock scenario correlationID now x =
     (case x of (Inl e, s) \<Rightarrow> (DemoError e, s)
      | (Inr r, s) \<Rightarrow>
          (case dt_Case r of None \<Rightarrow> (DemoPanic, s)
           | Some c \<Rightarrow>
               if scenario = ''active_promise'' then
                 if \<not> dm_Promises h then (DemoPanic, s)
                 else
                   (case demo_promise h (fresh 3) (clock 3 0) correlationID now c (in_db s) of Inl e \<Rightarrow> (DemoError e, s)
                    | Inr (p, db) \<Rightarrow> demo_decide h (\<lambda>k. fresh (4 + k)) (clock 4) scenario correlationID c (Some p) (s\<lparr>in_db := db\<rparr>))
               else demo_decide h (\<lambda>k. fresh (4 + k)) (clock 4) scenario correlationID c None s))"

definition demo_create :: "DemoServices \<Rightarrow> (nat \<Rightarrow> nat \<Rightarrow> ID) \<Rightarrow> (nat \<Rightarrow> nat \<Rightarrow> time) \<Rightarrow> string \<Rightarrow> Intake \<Rightarrow> DemoAnswer \<times> Intake" where
  "demo_create h fresh clock param s =
     (if \<not> demo_enabled h then (DemoDisabled, s)
      else if \<not> dm_Detects h \<or> \<not> dm_Decides h then (DemoError (ErrMsg ''demo scenario services are unavailable''), s)
      else
        (let scenario = lower (TrimSpace param); now = clock 0 0; correlationID = ''demo:'' @ fresh 0 0 in
         if scenario \<in> {''high_value_checkout'', ''checkout_abandonment''} then
           demo_detected h fresh clock scenario correlationID now (demo_checkout fresh clock scenario correlationID now s)
         else if scenario \<in> {''payment_failure'', ''active_promise'', ''low_value''} then
           demo_detected h fresh clock scenario correlationID now (demo_payment fresh clock scenario correlationID now s)
         else (DemoUnsupported, s)))"

definition demo_resolve :: "DemoServices \<Rightarrow> (nat \<Rightarrow> ID) \<Rightarrow> time \<Rightarrow> ID \<Rightarrow> string \<Rightarrow> Database
    \<Rightarrow> (error, PromiseToPay) result option \<times> Database" where
  "demo_resolve h fresh now promiseID wanted db =
     (if \<not> demo_enabled h then (None, db)
      else if \<not> dm_Promises h then (Some (Inl (ErrMsg ''promise service is unavailable'')), db)
      else
        (case ResolveForDemo (dm_Reassessor h) fresh now promiseID wanted db of
           (Inl e, db) \<Rightarrow> (Some (Inl e), db)
         | (Inr (p, Some e), db) \<Rightarrow> (Some (Inl e), db)
         | (Inr (p, None), db) \<Rightarrow> (Some (Inr p), db)))"

section \<open>What the endpoints do\<close>

lemma checkout_members_plain: "plain_names (checkout_members e)"
proof -
  have "map fst (checkout_members e) = [''event_type'', ''checkout_id'', ''merchant_id'', ''customer_id'', ''amount_minor'', ''currency'',
      ''checkout_stage'', ''payment_method'', ''failure_code'', ''abandonment_reason'', ''occurred_at'', ''valid_until'', ''metadata'']"
    by (simp add: checkout_members_def)
  moreover have "list_all (\<lambda>n. lower n = n) \<dots>" "distinct \<dots>" by code_simp+
  ultimately show ?thesis by (simp only: plain_names_def simp_thms)
qed

lemma checkout_event_read:
  assumes "in_i64 (ce_AmountMinor e)"
  shows "decode_checkout (checkout_json e) =
    (if writable (ce_OccurredAt e) \<and> writable (ce_ValidUntil e) then Some (e\<lparr>ce_Metadata := Some (raw_json (ce_Metadata e))\<rparr>) else None)"
proof (cases "writable (ce_OccurredAt e) \<and> writable (ce_ValidUntil e)")
  case True
  have t: "parse_time (format_time (ce_OccurredAt e)) = Some (ce_OccurredAt e)" "parse_time (format_time (ce_ValidUntil e)) = Some (ce_ValidUntil e)"
    using True by (simp_all add: writable_def parse_format_year)
  note plain = decode_value_plain [OF checkout_members_plain] decode_raw_plain [OF checkout_members_plain]
  have names: "map_of (checkout_members e) ''event_type'' = Some (JStr (ce_EventType e))"
    "map_of (checkout_members e) ''checkout_id'' = Some (JStr (ce_CheckoutID e))"
    "map_of (checkout_members e) ''merchant_id'' = Some (JStr (ce_MerchantID e))"
    "map_of (checkout_members e) ''customer_id'' = Some (JStr (ce_CustomerID e))"
    "map_of (checkout_members e) ''amount_minor'' = Some (JInt (ce_AmountMinor e))"
    "map_of (checkout_members e) ''currency'' = Some (JStr (ce_Currency e))"
    "map_of (checkout_members e) ''checkout_stage'' = Some (JStr (ce_CheckoutStage e))"
    "map_of (checkout_members e) ''payment_method'' = Some (JStr (ce_PaymentMethod e))"
    "map_of (checkout_members e) ''failure_code'' = Some (JStr (ce_FailureCode e))"
    "map_of (checkout_members e) ''abandonment_reason'' = Some (JStr (ce_AbandonmentReason e))"
    "map_of (checkout_members e) ''occurred_at'' = Some (JStr (format_time (ce_OccurredAt e)))"
    "map_of (checkout_members e) ''valid_until'' = Some (JStr (format_time (ce_ValidUntil e)))"
    "map_of (checkout_members e) ''metadata'' = Some (raw_json (ce_Metadata e))"
    by (simp_all add: checkout_members_def)
  show ?thesis
    using True assms
    by (simp add: checkout_json_def decode_checkout_def members_def Let_def plain names t json_int64_JInt del: json_int64.simps)
next
  case False
  then show ?thesis by (auto simp: checkout_json_def decode_checkout_def members_def)
qed

text \<open>Detection answers without a case exactly for the events that only record a checkout.\<close>

lemma Detect_without_case:
  "Detect adapter f t payload i s = (Inr r, s') \<Longrightarrow> dt_Case r = None \<Longrightarrow> \<exists>s1. adapter payload i s = (Inr None, s1)"
  by (auto simp: Detect_def split: sum.splits option.splits prod.splits if_splits)

lemma CheckoutAdapter_leaks:
  "CheckoutAdapter payload i s = (Inr None, s') \<Longrightarrow> decode_checkout payload = Some e
    \<Longrightarrow> ce_EventType e \<in> {''CHECKOUT_STARTED'', ''CHECKOUT_PAYMENT_SELECTED''}"
  by (auto simp: CheckoutAdapter_def split: option.splits sum.splits if_splits)

lemma demo_checkout_case:
  assumes "demo_checkout fresh clock scenario correlationID now s = (Inr r, s')"
  shows "dt_Case r \<noteq> None"
proof
  assume n: "dt_Case r = None"
  let ?e = "demo_abandoned (''checkout_'' @ fresh 0 1) now"
  obtain s1 where "Detect CheckoutAdapter (fresh 2) (clock 2 0) (checkout_json ?e) (correlationID @ '':abandoned'') s1 = (Inr r, s')"
    using assms by (auto simp: demo_checkout_def Let_def split: sum.splits prod.splits)
  then obtain s2 where a: "CheckoutAdapter (checkout_json ?e) (correlationID @ '':abandoned'') s1 = (Inr None, s2)"
    using Detect_without_case [OF _ n] by blast
  have d: "decode_checkout (checkout_json ?e) = (if writable (ce_OccurredAt ?e) \<and> writable (ce_ValidUntil ?e)
      then Some (?e\<lparr>ce_Metadata := Some (raw_json (ce_Metadata ?e))\<rparr>) else None)"
    by (rule checkout_event_read) (simp add: demo_abandoned_def in_i64_def)
  show False
  proof (cases "writable (ce_OccurredAt ?e) \<and> writable (ce_ValidUntil ?e)")
    case True
    then show False using CheckoutAdapter_leaks [OF a] d by (auto simp: demo_abandoned_def)
  next
    case False
    then have "decode_checkout (checkout_json ?e) = None" using d by (simp only: if_False)
    then show False using a unfolding CheckoutAdapter_def by (simp only: option.case prod.inject sum.distinct simp_thms)
  qed
qed

lemma demo_payment_case:
  assumes "demo_payment fresh clock scenario correlationID now s = (Inr r, s')"
  shows "dt_Case r \<noteq> None"
proof
  assume n: "dt_Case r = None"
  from Detect_without_case [OF assms [unfolded demo_payment_def] n] show False
    by (auto simp: SubscriptionAdapter_def split: option.splits if_splits)
qed

text \<open>A decision that is stored, and the state of its case afterwards.\<close>

lemma Decide_state:
  assumes "Decide predictor zone fresh clock i db = (Inr (snapshot, scheduled), db')"
  obtains c where "find_case db' i = Some c" "de_CaseID (sn_Decision snapshot) = i" "recorded snapshot db'"
    "rc_CurrentState c = (if po_Decision (sn_Policy snapshot) = ''STOP'' then StateStopped else expected_state snapshot scheduled)"
    "scheduled \<noteq> None \<longrightarrow> po_Decision (sn_Policy snapshot) = ''APPROVE''"
proof -
  obtain d1 where p: "PrepareForDecision (fresh 0) i (clock 0) db = Inr ((), d1)"
    and e: "evaluate_case predictor zone (fresh 1) (clock 1) (clock 2) i d1 = Inr snapshot"
    and v: "SaveDecisionAndSchedule (fresh 2) (clock 3) snapshot d1 = Inr (scheduled, db')"
    using assms by (auto simp: Decide_def split: sum.splits prod.splits)
  obtain c0 ts where c0: "find_case db i = Some c0" "preparation_targets (rc_CurrentState c0) = Some ts"
    and l: "preparation_loop (fresh 0) i (clock 0) (nextSequence db i) 0 (rc_Version c0) ts db = Inr d1"
    using p by (auto simp: PrepareForDecision_def split: option.splits sum.splits)
  define c1 where "c1 = fold (\<lambda>(src, dst, type). advance dst (clock 0)) ts c0"
  have c1: "find_case d1 i = Some c1" "rc_CurrentState c1 = StateActionPending"
    using preparation_loop_path [OF l c0(1)] chain_end [OF targets_chain [OF c0(2)] refl] by (simp_all add: c1_def)
  obtain ctx where "decision_Evaluate (\<lambda>_. Inr ctx) predictor zone (fresh 1) (clock 2) i = Inr snapshot"
    using e by (auto simp: evaluate_case_def split: sum.splits)
  then have i: "de_CaseID (sn_Decision snapshot) = i"
    by (rule decision_EvaluateE) (simp add: snapshot_of_def Let_def)
  have c1': "find_case d1 (de_CaseID (sn_Decision snapshot)) = Some c1" using c1(1) i by simp
  note f = save_and_schedule_facts [OF v c1', unfolded i]
  have r: "scheduled = snd (outcome (fresh 2) (clock 3) snapshot c1)" using f by simp
  show thesis
  proof (rule that [of "fst (outcome (fresh 2) (clock 3) snapshot c1)"])
    show "find_case db' i = Some (fst (outcome (fresh 2) (clock 3) snapshot c1))" "recorded snapshot db'"
      "scheduled \<noteq> None \<longrightarrow> po_Decision (sn_Policy snapshot) = ''APPROVE''" using f by simp_all
    show "rc_CurrentState (fst (outcome (fresh 2) (clock 3) snapshot c1))
        = (if po_Decision (sn_Policy snapshot) = ''STOP'' then StateStopped else expected_state snapshot scheduled)"
      unfolding expected_state_def r by (simp add: outcome_def Let_def c1(2) IsTerminal_def)
  qed (rule i)
qed

text \<open>The ways a request goes that gets as far as a case.\<close>

lemma demo_detectedE:
  assumes "demo_detected h fresh clock scenario correlationID now x = (answer, s')" and "\<And>r s. x = (Inr r, s) \<Longrightarrow> dt_Case r \<noteq> None"
  obtains (failed) e where "answer = DemoError e"
  | (panic) "answer = DemoPanic" "scenario = ''active_promise''" "\<not> dm_Promises h"
  | (decided) r s c p db snapshot scheduled db' where "x = (Inr r, s)" "dt_Case r = Some c"
      "Decide (dm_Predictor h) (dm_Zone h) (\<lambda>k. fresh (4 + k)) (clock 4) (rc_ID c) db = (Inr (snapshot, scheduled), db')"
      "answer = DemoCreated scenario (c\<lparr>rc_CurrentState := expected_state snapshot scheduled\<rparr>) snapshot scheduled p correlationID"
      "in_db s' = db'" "p \<noteq> None \<longleftrightarrow> scenario = ''active_promise''"
proof (cases "fst x")
  case (Inl e)
  then show ?thesis using assms(1) failed [of e] by (cases x) (simp add: demo_detected_def)
next
  case (Inr r)
  then obtain s where x: "x = (Inr r, s)" by (cases x) simp
  obtain c where c: "dt_Case r = Some c" using assms(2) [OF x] by blast
  note run = assms(1) [unfolded demo_detected_def x prod.case sum.case c option.case]
  have decide: ?thesis if "demo_decide h (\<lambda>k. fresh (4 + k)) (clock 4) scenario correlationID c p s0 = (answer, s')"
    "p \<noteq> None \<longleftrightarrow> scenario = ''active_promise''" for p s0
  proof -
    obtain y db' where y: "Decide (dm_Predictor h) (dm_Zone h) (\<lambda>k. fresh (4 + k)) (clock 4) (rc_ID c) (in_db s0) = (y, db')"
      by (metis prod.exhaust)
    show ?thesis
    proof (cases y)
      case (Inl e)
      then show ?thesis using that(1) failed [of e] by (simp add: demo_decide_def y)
    next
      case (Inr z)
      obtain snapshot scheduled where z: "z = (snapshot, scheduled)" by (cases z)
      have "answer = DemoCreated scenario (c\<lparr>rc_CurrentState := expected_state snapshot scheduled\<rparr>) snapshot scheduled p correlationID"
        "in_db s' = db'" using that(1) y Inr z by (auto simp: demo_decide_def)
      then show ?thesis using decided [OF x c y [unfolded Inr z]] that(2) by blast
    qed
  qed
  show ?thesis
  proof (cases "scenario = ''active_promise''")
    case True
    show ?thesis
    proof (cases "dm_Promises h")
      case False
      then show ?thesis using run True panic by simp
    next
      case h: True
      show ?thesis
      proof (cases "demo_promise h (fresh 3) (clock 3 0) correlationID now c (in_db s)")
        case (Inl e)
        then show ?thesis using run True h failed [of e] by simp
      next
        case (Inr pd)
        then show ?thesis using run True h decide by (cases pd) simp
      qed
    qed
  next
    case False
    then show ?thesis using run decide by simp
  qed
qed

lemma demo_createE:
  assumes "demo_create h fresh clock param s = (answer, s')"
  obtains (refused) "answer \<in> {DemoDisabled, DemoUnsupported} \<or> (\<exists>e. answer = DemoError e)" "s' = s"
  | (checkout) "lower (TrimSpace param) \<in> {''high_value_checkout'', ''checkout_abandonment''}"
      "demo_detected h fresh clock (lower (TrimSpace param)) (''demo:'' @ fresh 0 0) (clock 0 0)
         (demo_checkout fresh clock (lower (TrimSpace param)) (''demo:'' @ fresh 0 0) (clock 0 0) s) = (answer, s')"
  | (payment) "lower (TrimSpace param) \<in> {''payment_failure'', ''active_promise'', ''low_value''}"
      "demo_detected h fresh clock (lower (TrimSpace param)) (''demo:'' @ fresh 0 0) (clock 0 0)
         (demo_payment fresh clock (lower (TrimSpace param)) (''demo:'' @ fresh 0 0) (clock 0 0) s) = (answer, s')"
  using assms unfolding demo_create_def Let_def by (simp split: if_splits) blast+

text \<open>A payment scenario registers the amount it announces, unless its payment is known already.\<close>

lemma demo_payment_amount:
  assumes "demo_payment fresh clock scenario correlationID now s = (Inr r, s')" and "dt_Case r = Some c" and "dt_Created r"
  shows "rc_AmountAtRiskMinor c = (if scenario = ''low_value'' then 500 else 129900)" "rc_LeakType c = FailedSubscription"
    "rc_MerchantID c = ''demo-merchant-v1''" "rc_SourceReference c = ''pay_demo_'' @ fresh 0 1"
    "rc_RecoveryDeadline c = now + 168 * Hour"
proof -
  define m :: int where "m = (if scenario = ''low_value'' then 500 else 129900)"
  define i where "i = ''pay_demo_'' @ fresh 0 1"
  define e where "e = demo_failure i m now"
  have e: "se_AmountMinor e = m" "se_RecoveryWindowHours e = 168" "se_SubscriptionID e = []" "se_PaymentID e = i"
    "se_MerchantID e = ''demo-merchant-v1''" "se_OccurredAt e = now"
    by (simp_all add: e_def demo_failure_def)
  have m: "in_i64 m" by (simp add: m_def in_i64_def)
  have d: "decode_subscription (event_json e) = (if 0 \<le> year_of (se_OccurredAt e) \<and> year_of (se_OccurredAt e) \<le> 9999
      then Some (e\<lparr>se_Metadata := Some (raw_json (se_Metadata e))\<rparr>) else None)"
    by (rule subscription_event_read) (simp_all only: e m, simp add: in_i64_def)
  have "Detect (SubscriptionAdapter ''demo-scenario'') (fresh 2) (clock 2 0) (event_json e) correlationID s = (Inr r, s')"
    using assms(1) by (simp only: demo_payment_def e_def m_def i_def)
  then have "rc_AmountAtRiskMinor c = m \<and> rc_LeakType c = FailedSubscription \<and> rc_MerchantID c = ''demo-merchant-v1''
      \<and> rc_SourceReference c = i \<and> rc_RecoveryDeadline c = now + 168 * Hour"
  proof (cases rule: DetectE)
    case (registered leak s1 c' db)
    have leak: "leak = leak_of_subscription ''demo-scenario'' correlationID (e\<lparr>se_Metadata := Some (raw_json (se_Metadata e))\<rparr>)"
      using registered(1) unfolding SubscriptionAdapter_def d by (simp split: if_splits)
    have "c' = c" using registered(6) assms(2) by simp
    moreover have "window_end now 168 = now + 168 * Hour" by (simp add: window_end_def Hour_def i64_id_bounds)
    ultimately show ?thesis
      using CreateCase_input [OF registered(4)] e by (simp add: leak leak_of_subscription_def case_input_def Let_def)
  qed (use assms(2,3) in simp_all)
  then show "rc_AmountAtRiskMinor c = (if scenario = ''low_value'' then 500 else 129900)" "rc_LeakType c = FailedSubscription"
    "rc_MerchantID c = ''demo-merchant-v1''" "rc_SourceReference c = ''pay_demo_'' @ fresh 0 1" "rc_RecoveryDeadline c = now + 168 * Hour"
    unfolding m_def i_def by blast+
qed

lemma checkout_scenarios:
  "n \<in> {''high_value_checkout'', ''checkout_abandonment''} \<Longrightarrow> n \<notin> {''payment_failure'', ''active_promise'', ''low_value''}"
  by auto

text \<open>What an enabled scenario does after its event: the same for both kinds of event.\<close>

lemma demo_create_run:
  assumes "demo_create h fresh clock param s = (answer, s')"
  obtains (refused) "answer \<in> {DemoDisabled, DemoUnsupported} \<or> (\<exists>e. answer = DemoError e)" "s' = s"
  | (detected) x where "demo_detected h fresh clock (lower (TrimSpace param)) (''demo:'' @ fresh 0 0) (clock 0 0) x = (answer, s')"
      "\<forall>r s. x = (Inr r, s) \<longrightarrow> dt_Case r \<noteq> None"
      "lower (TrimSpace param) \<in> {''payment_failure'', ''active_promise'', ''low_value''} \<longrightarrow>
         x = demo_payment fresh clock (lower (TrimSpace param)) (''demo:'' @ fresh 0 0) (clock 0 0) s"
  using assms
proof (cases rule: demo_createE)
  case refused
  then show ?thesis by (rule that(1))
next
  case checkout
  show ?thesis
    by (rule that(2) [OF checkout(2)])
      (use demo_checkout_case in blast, rule impI, erule notE [OF checkout_scenarios [OF checkout(1)]])
next
  case payment
  show ?thesis by (rule that(2) [OF payment(2)]) (use demo_payment_case in blast, rule impI, rule refl)
qed

text \<open>Once a case is detected: what the answer tells of the case, and of the case it was detected as.\<close>

lemma demo_detected_facts:
  fixes n :: string and h :: DemoServices
  assumes run: "demo_detected h fresh clock n i now x = (answer, s')"
    and found: "\<forall>r s. x = (Inr r, s) \<longrightarrow> dt_Case r \<noteq> None"
  shows "answer = DemoPanic \<longrightarrow> n = ''active_promise'' \<and> \<not> dm_Promises h"
    and "answer = DemoCreated scenario c snapshot scheduled p j \<Longrightarrow> scenario = n \<and> (p \<noteq> None \<longleftrightarrow> n = ''active_promise'')
      \<and> (scheduled \<noteq> None \<longrightarrow> po_Decision (sn_Policy snapshot) = ''APPROVE'')
      \<and> (\<exists>d. find_case (in_db s') (rc_ID c) = Some d \<and> de_CaseID (sn_Decision snapshot) = rc_ID c \<and> recorded snapshot (in_db s')
          \<and> (if po_Decision (sn_Policy snapshot) = ''STOP'' then rc_CurrentState d = StateStopped \<and> rc_CurrentState c = StateActionPending
             else rc_CurrentState d = rc_CurrentState c))"
    and "answer = DemoCreated scenario c snapshot scheduled p j \<Longrightarrow> \<exists>r s1 c0. x = (Inr r, s1) \<and> dt_Case r = Some c0
      \<and> rc_AmountAtRiskMinor c = rc_AmountAtRiskMinor c0 \<and> rc_RecoveryDeadline c = rc_RecoveryDeadline c0"
proof -
  show "answer = DemoPanic \<longrightarrow> n = ''active_promise'' \<and> \<not> dm_Promises h"
    by (rule demo_detectedE [OF run found [rule_format]]) simp_all
  assume created: "answer = DemoCreated scenario c snapshot scheduled p j"
  obtain r s1 c0 db db' where decided: "x = (Inr r, s1)" "dt_Case r = Some c0"
    "Decide (dm_Predictor h) (dm_Zone h) (\<lambda>k. fresh (4 + k)) (clock 4) (rc_ID c0) db = (Inr (snapshot, scheduled), db')"
    "c = c0\<lparr>rc_CurrentState := expected_state snapshot scheduled\<rparr>" "scenario = n"
    "in_db s' = db'" "p \<noteq> None \<longleftrightarrow> n = ''active_promise''"
    by (rule demo_detectedE [OF run found [rule_format]]) (use created in simp_all)
  obtain d where d: "find_case db' (rc_ID c0) = Some d" "de_CaseID (sn_Decision snapshot) = rc_ID c0" "recorded snapshot db'"
    "rc_CurrentState d = (if po_Decision (sn_Policy snapshot) = ''STOP'' then StateStopped else expected_state snapshot scheduled)"
    "scheduled \<noteq> None \<longrightarrow> po_Decision (sn_Policy snapshot) = ''APPROVE''"
    using Decide_state [OF decided(3)] by blast
  have "expected_state snapshot scheduled = StateActionPending" if "po_Decision (sn_Policy snapshot) = ''STOP''"
    using that d(5) by (cases scheduled) (simp_all add: expected_state_def)
  then show "scenario = n \<and> (p \<noteq> None \<longleftrightarrow> n = ''active_promise'')
      \<and> (scheduled \<noteq> None \<longrightarrow> po_Decision (sn_Policy snapshot) = ''APPROVE'')
      \<and> (\<exists>d. find_case (in_db s') (rc_ID c) = Some d \<and> de_CaseID (sn_Decision snapshot) = rc_ID c \<and> recorded snapshot (in_db s')
          \<and> (if po_Decision (sn_Policy snapshot) = ''STOP'' then rc_CurrentState d = StateStopped \<and> rc_CurrentState c = StateActionPending
             else rc_CurrentState d = rc_CurrentState c))"
    using d decided(4-7) by auto
  show "\<exists>r s1 c0. x = (Inr r, s1) \<and> dt_Case r = Some c0
      \<and> rc_AmountAtRiskMinor c = rc_AmountAtRiskMinor c0 \<and> rc_RecoveryDeadline c = rc_RecoveryDeadline c0"
    using decided(1,2,4) by auto
qed

text \<open>The same of the whole endpoint, with the amount and the deadline of a payment that is new.\<close>

lemma demo_created_facts:
  assumes run: "demo_create h fresh clock param s = (DemoCreated scenario c snapshot scheduled p j, s')"
  shows "scenario = lower (TrimSpace param)" and "p \<noteq> None \<longleftrightarrow> scenario = ''active_promise''"
    and "scheduled \<noteq> None \<longrightarrow> po_Decision (sn_Policy snapshot) = ''APPROVE''"
    and "\<exists>d. find_case (in_db s') (rc_ID c) = Some d \<and> de_CaseID (sn_Decision snapshot) = rc_ID c \<and> recorded snapshot (in_db s')
      \<and> (if po_Decision (sn_Policy snapshot) = ''STOP'' then rc_CurrentState d = StateStopped \<and> rc_CurrentState c = StateActionPending
         else rc_CurrentState d = rc_CurrentState c)"
    and "scenario \<in> {''payment_failure'', ''active_promise'', ''low_value''} \<longrightarrow>
      (\<exists>r s1. demo_payment fresh clock scenario (''demo:'' @ fresh 0 0) (clock 0 0) s = (Inr r, s1)
        \<and> (dt_Created r \<longrightarrow> rc_AmountAtRiskMinor c = (if scenario = ''low_value'' then 500 else 129900)
            \<and> rc_RecoveryDeadline c = clock 0 0 + 168 * Hour))"
proof -
  let ?n = "lower (TrimSpace param)" and ?i = "''demo:'' @ fresh 0 0"
  obtain x where x: "demo_detected h fresh clock ?n ?i (clock 0 0) x = (DemoCreated scenario c snapshot scheduled p j, s')"
    "\<forall>r s. x = (Inr r, s) \<longrightarrow> dt_Case r \<noteq> None"
    "?n \<in> {''payment_failure'', ''active_promise'', ''low_value''} \<longrightarrow> x = demo_payment fresh clock ?n ?i (clock 0 0) s"
  proof (rule demo_create_run [OF run])
    fix x
    assume "demo_detected h fresh clock ?n ?i (clock 0 0) x = (DemoCreated scenario c snapshot scheduled p j, s')"
      "\<forall>r s. x = (Inr r, s) \<longrightarrow> dt_Case r \<noteq> None"
      "?n \<in> {''payment_failure'', ''active_promise'', ''low_value''} \<longrightarrow> x = demo_payment fresh clock ?n ?i (clock 0 0) s"
    then show thesis by (rule that)
  qed simp
  note f = demo_detected_facts(2) [OF x(1,2) refl] and registered = demo_detected_facts(3) [OF x(1,2) refl]
  have n: "scenario = ?n" by (rule f [THEN conjunct1])
  show "scenario = ?n" by (rule n)
  show "p \<noteq> None \<longleftrightarrow> scenario = ''active_promise''" unfolding n by (rule f [THEN conjunct2, THEN conjunct1])
  show "scheduled \<noteq> None \<longrightarrow> po_Decision (sn_Policy snapshot) = ''APPROVE''" by (rule f [THEN conjunct2, THEN conjunct2, THEN conjunct1])
  show "\<exists>d. find_case (in_db s') (rc_ID c) = Some d \<and> de_CaseID (sn_Decision snapshot) = rc_ID c \<and> recorded snapshot (in_db s')
      \<and> (if po_Decision (sn_Policy snapshot) = ''STOP'' then rc_CurrentState d = StateStopped \<and> rc_CurrentState c = StateActionPending
         else rc_CurrentState d = rc_CurrentState c)"
    by (rule f [THEN conjunct2, THEN conjunct2, THEN conjunct2])
  show "scenario \<in> {''payment_failure'', ''active_promise'', ''low_value''} \<longrightarrow>
      (\<exists>r s1. demo_payment fresh clock scenario ?i (clock 0 0) s = (Inr r, s1)
        \<and> (dt_Created r \<longrightarrow> rc_AmountAtRiskMinor c = (if scenario = ''low_value'' then 500 else 129900)
            \<and> rc_RecoveryDeadline c = clock 0 0 + 168 * Hour))"
    unfolding n
  proof
    assume "?n \<in> {''payment_failure'', ''active_promise'', ''low_value''}"
    then have payment: "x = demo_payment fresh clock ?n ?i (clock 0 0) s" by (rule x(3) [rule_format])
    obtain r s1 c0 where r: "x = (Inr r, s1)" "dt_Case r = Some c0" "rc_AmountAtRiskMinor c = rc_AmountAtRiskMinor c0"
      "rc_RecoveryDeadline c = rc_RecoveryDeadline c0" using registered by (elim exE conjE)
    note amount = demo_payment_amount(1,5) [OF payment [symmetric, unfolded r(1)] r(2)]
    show "\<exists>r s1. demo_payment fresh clock ?n ?i (clock 0 0) s = (Inr r, s1)
        \<and> (dt_Created r \<longrightarrow> rc_AmountAtRiskMinor c = (if ?n = ''low_value'' then 500 else 129900)
            \<and> rc_RecoveryDeadline c = clock 0 0 + 168 * Hour)"
      by (rule exI [of _ r], rule exI [of _ s1], intro conjI impI)
        (rule payment [symmetric, unfolded r(1)], simp only: r(3), erule amount(1), simp only: r(4), erule amount(2))
  qed
qed

text \<open>C25. What a demo request answers is what it stored. A request never follows a nil case; it follows a nil
  service only for a promise without the promise service. When it answers with a decision, that
  decision is recorded for the case it names, an action is scheduled only on approval, and the
  state shown is the one stored - except after a STOP of the policy, when the case is STOPPED and
  shown as ACTION_PENDING. A payment scenario that registers its case registers the amount it
  announces with a week to recover it. Outside the demo environments nothing changes.\<close>

theorem demo_shows_the_state:
  assumes "demo_create h fresh clock param s = (answer, s')"
  shows "(answer = DemoPanic \<longrightarrow> lower (TrimSpace param) = ''active_promise'' \<and> \<not> dm_Promises h)
    \<and> (\<not> demo_enabled h \<longrightarrow> answer = DemoDisabled \<and> s' = s)
    \<and> (\<forall>scenario c snapshot scheduled p i. answer = DemoCreated scenario c snapshot scheduled p i \<longrightarrow>
        scenario = lower (TrimSpace param) \<and> (p \<noteq> None \<longleftrightarrow> scenario = ''active_promise'')
        \<and> (scheduled \<noteq> None \<longrightarrow> po_Decision (sn_Policy snapshot) = ''APPROVE'')
        \<and> (\<exists>d. find_case (in_db s') (rc_ID c) = Some d \<and> de_CaseID (sn_Decision snapshot) = rc_ID c \<and> recorded snapshot (in_db s')
            \<and> (if po_Decision (sn_Policy snapshot) = ''STOP'' then rc_CurrentState d = StateStopped \<and> rc_CurrentState c = StateActionPending
               else rc_CurrentState d = rc_CurrentState c))
        \<and> (scenario \<in> {''payment_failure'', ''active_promise'', ''low_value''} \<longrightarrow>
            (\<exists>r s1. demo_payment fresh clock scenario (''demo:'' @ fresh 0 0) (clock 0 0) s = (Inr r, s1)
              \<and> (dt_Created r \<longrightarrow> rc_AmountAtRiskMinor c = (if scenario = ''low_value'' then 500 else 129900)
                  \<and> rc_RecoveryDeadline c = clock 0 0 + 168 * Hour))))"
proof -
  have panic: "lower (TrimSpace param) = ''active_promise'' \<and> \<not> dm_Promises h" if "answer = DemoPanic"
    using assms [unfolded that]
  proof (rule demo_create_run)
    fix x
    assume "demo_detected h fresh clock (lower (TrimSpace param)) (''demo:'' @ fresh 0 0) (clock 0 0) x = (DemoPanic, s')"
      "\<forall>r s. x = (Inr r, s) \<longrightarrow> dt_Case r \<noteq> None"
    from demo_detected_facts(1) [OF this] show ?thesis by (rule mp) (rule refl)
  qed simp
  have disabled: "answer = DemoDisabled \<and> s' = s" if "\<not> demo_enabled h"
    using assms that by (simp add: demo_create_def)
  have created: "scenario = lower (TrimSpace param) \<and> (p \<noteq> None \<longleftrightarrow> scenario = ''active_promise'')
      \<and> (scheduled \<noteq> None \<longrightarrow> po_Decision (sn_Policy snapshot) = ''APPROVE'')
      \<and> (\<exists>d. find_case (in_db s') (rc_ID c) = Some d \<and> de_CaseID (sn_Decision snapshot) = rc_ID c \<and> recorded snapshot (in_db s')
          \<and> (if po_Decision (sn_Policy snapshot) = ''STOP'' then rc_CurrentState d = StateStopped \<and> rc_CurrentState c = StateActionPending
             else rc_CurrentState d = rc_CurrentState c))
      \<and> (scenario \<in> {''payment_failure'', ''active_promise'', ''low_value''} \<longrightarrow>
          (\<exists>r s1. demo_payment fresh clock scenario (''demo:'' @ fresh 0 0) (clock 0 0) s = (Inr r, s1)
            \<and> (dt_Created r \<longrightarrow> rc_AmountAtRiskMinor c = (if scenario = ''low_value'' then 500 else 129900)
                \<and> rc_RecoveryDeadline c = clock 0 0 + 168 * Hour)))"
    if "answer = DemoCreated scenario c snapshot scheduled p i" for scenario c snapshot scheduled p i
    using demo_created_facts [OF assms [unfolded that]] by (intro conjI)
  show ?thesis
    using panic disabled created by (intro conjI [OF impI conjI [OF impI]] allI impI)
qed

section \<open>An example\<close>

text \<open>A payment that is known already, and services without promises.\<close>

definition known_intake :: Intake where
  "known_intake = shop_intake\<lparr>in_db := shop_db\<lparr>db_cases := [created_case\<lparr>rc_MerchantID := ''demo-merchant-v1'',
     rc_SourceReference := ''pay_demo_r''\<rparr>]\<rparr>\<rparr>"

definition bare_services :: DemoServices where
  "bare_services = \<lparr>dm_Environment = ''Demo'', dm_Detects = True, dm_Decides = True, dm_Promises = False, dm_Predictor = echo_predictor,
     dm_Zone = (\<lambda>_. None), dm_Weekdays = [], dm_Reassessor = None\<rparr>"

abbreviation demo_time :: time where
  "demo_time \<equiv> 63000000000 * Second"

lemma known_payment:
  "\<exists>c. demo_payment (\<lambda>_ _. ''r'') (\<lambda>_ _. demo_time) ''active_promise'' ''demo:r'' demo_time known_intake
     = (Inr \<lparr>dt_Case = Some c, dt_Created = False, dt_RiskDetected = True\<rparr>, known_intake)"
proof -
  let ?e = "demo_failure ''pay_demo_r'' 129900 demo_time"
  have y: "year_of demo_time = 1997" by code_simp
  have e: "se_AmountMinor ?e = 129900" "se_RecoveryWindowHours ?e = 168" "se_OccurredAt ?e = demo_time" by (simp_all add: demo_failure_def)
  have d: "decode_subscription (event_json ?e) = Some (?e\<lparr>se_Metadata := Some (raw_json (se_Metadata ?e))\<rparr>)"
    by (subst subscription_event_read) (simp_all only: e y, simp_all add: in_i64_def)
  have w: "window_end demo_time 168 = demo_time + 168 * Hour" by (simp add: window_end_def Hour_def i64_id_bounds)
  let ?leak = "leak_of_subscription ''demo-scenario'' ''demo:r'' (?e\<lparr>se_Metadata := Some (raw_json (se_Metadata ?e))\<rparr>)"
  have a: "SubscriptionAdapter ''demo-scenario'' (event_json ?e) ''demo:r'' known_intake = (Inr (Some ?leak), known_intake)"
    unfolding SubscriptionAdapter_def d by (simp add: demo_failure_def subscriptionEvents_def)
  have v: "Validate ?leak = None"
    by (simp add: Validate_def leak_of_subscription_def Let_def demo_failure_def w) (simp add: Second_def Hour_def)
  have "GetCaseBySource (nl_MerchantID ?leak) (nl_SourceReference ?leak) (in_db known_intake)
      = Inr (created_case\<lparr>rc_MerchantID := ''demo-merchant-v1'', rc_SourceReference := ''pay_demo_r''\<rparr>)"
    by (simp add: GetCaseBySource_def known_intake_def leak_of_subscription_def Let_def demo_failure_def)
  then show ?thesis unfolding demo_payment_def Detect_def by (simp add: a v)
qed

theorem demo_shows_the_state_witness:
  "fst (demo_create bare_services (\<lambda>_ _. ''r'') (\<lambda>_ _. demo_time) '' ACTIVE_PROMISE '' known_intake) = DemoPanic
   \<and> demo_enabled bare_services \<and> \<not> dm_Promises bare_services"
proof -
  have n: "lower (TrimSpace '' ACTIVE_PROMISE '') = ''active_promise''" by code_simp
  have h: "demo_enabled bare_services" unfolding demo_enabled_def bare_services_def by code_simp
  have r: "demo_create bare_services (\<lambda>_ _. ''r'') (\<lambda>_ _. demo_time) '' ACTIVE_PROMISE '' known_intake = (DemoPanic, known_intake)"
    using known_payment h unfolding demo_create_def n Let_def
    by (auto simp: demo_detected_def bare_services_def)
  then show ?thesis using demo_shows_the_state [OF r] h by simp
qed

end
