(* ===== verification/Merchant_Profiles.thy ===== *)
theory Merchant_Profiles
  imports Context_Store
begin

text \<open>
  The optimization profiles of a merchant (\<open>internal/merchantprofile/service.go\<close> over
  \<open>internal/store/merchant_profiles.go\<close>): immutable versions, the highest is in force. The checks
  of the table are those of migration 000007.
\<close>

section \<open>Operations\<close>

definition validObjectives :: "string list" where
  "validObjectives = [''MAXIMIZE_NET_RECOVERY'', ''MAXIMIZE_RETENTION'', ''MINIMIZE_CONTACT'', ''MINIMIZE_RECOVERY_COST'', ''BALANCED'']"

definition profile_weights :: "MerchantOptimizationProfile \<Rightarrow> int list" where
  "profile_weights p = [op_RevenueWeightBPS p, op_RetentionWeightBPS p, op_ContactPenaltyWeightBPS p, op_CostPenaltyWeightBPS p,
     op_FatiguePenaltyWeightBPS p, op_RiskPenaltyWeightBPS p]"

definition escalation_preferences :: "string list" where
  "escalation_preferences = [''STANDARD'', ''CONSERVATIVE'', ''AGGRESSIVE'']"

definition GetMerchantOptimizationProfile :: "ID \<Rightarrow> Database \<Rightarrow> (error, MerchantOptimizationProfile) result" where
  "GetMerchantOptimizationProfile merchantID db =
     (case latest op_ConfigurationVersion (filter (\<lambda>t. op_MerchantID t = merchantID) (db_optimization_profiles db)) of
        None \<Rightarrow> Inl ErrNotFound | Some p \<Rightarrow> Inr p)"

text \<open>The columns that are checked by the table, as the row is inserted.\<close>

definition insert_profile :: "MerchantOptimizationProfile \<Rightarrow> Database \<Rightarrow> (error, Database) result" where
  "insert_profile p db =
     (if op_Objective p \<notin> set validObjectives then Inl (ErrConstraint ''merchant_optimization_profiles_objective_check'')
      else if \<not> list_all (\<lambda>w. 0 \<le> w \<and> w \<le> 20000) (profile_weights p) then Inl (ErrConstraint ''merchant_optimization_profiles_weight_check'')
      else if op_EscalationPreference p \<notin> set escalation_preferences
        then Inl (ErrConstraint ''merchant_optimization_profiles_escalation_preference_check'')
      else if op_DiscountBudgetMinor p < 0 \<or> op_HumanReviewBudgetMinor p < 0
        then Inl (ErrConstraint ''merchant_optimization_profiles_budget_check'')
      else if op_ConfigurationVersion p \<le> 0 then Inl (ErrConstraint ''merchant_optimization_profiles_configuration_version_check'')
      else if list_ex (\<lambda>x. op_ID x = op_ID p \<or> op_MerchantID x = op_MerchantID p \<and> op_ConfigurationVersion x = op_ConfigurationVersion p)
        (db_optimization_profiles db) then Inl (ErrConstraint ''merchant_optimization_profiles_key'')
      else Inr (db\<lparr>db_optimization_profiles := db_optimization_profiles db @ [p]\<rparr>))"

text \<open>\<open>COALESCE(MAX(configuration_version), 0) + 1\<close>, computed in 32 bits.\<close>

definition next_version :: "ID \<Rightarrow> Database \<Rightarrow> int" where
  "next_version merchantID db =
     (case latest op_ConfigurationVersion (filter (\<lambda>t. op_MerchantID t = merchantID) (db_optimization_profiles db)) of
        None \<Rightarrow> 1 | Some p \<Rightarrow> op_ConfigurationVersion p + 1)"

definition CreateMerchantOptimizationProfile :: "MerchantOptimizationProfile \<Rightarrow> MerchantOptimizationProfile tx" where
  "CreateMerchantOptimizationProfile profile db =
     (if lookup m_ID (op_MerchantID profile) (db_merchants db) = None then Inl ErrNoRows
      else if 2 ^ 31 \<le> next_version (op_MerchantID profile) db then Inl (ErrMsg ''integer out of range'')
      else (let p = profile\<lparr>op_ConfigurationVersion := next_version (op_MerchantID profile) db\<rparr> in
            andThen (insert_profile p db) (\<lambda>db. Inr (p, db))))"

text \<open>\<open>Service.Create\<close>. A sum of two weights below 20000 does not overflow; empty and missing lists are the same.\<close>

definition profile_Create :: "(nat \<Rightarrow> ID) \<Rightarrow> time \<Rightarrow> MerchantOptimizationProfile \<Rightarrow> MerchantOptimizationProfile tx" where
  "profile_Create fresh now profile db =
     (if op_MerchantID profile = [] then Inl (ErrMsg ''merchant_id is required'')
      else if op_Objective profile \<notin> set validObjectives then Inl (ErrMsg ''invalid optimization objective'')
      else if list_ex (\<lambda>w. w < 0 \<or> 20000 < w) (profile_weights profile) then Inl (ErrMsg ''profile weights must be between 0 and 20000 bps'')
      else if op_RevenueWeightBPS profile + op_RetentionWeightBPS profile = 0
        then Inl (ErrMsg ''at least one positive value weight is required'')
      else (let preference = (if op_EscalationPreference profile = [] then ''STANDARD'' else op_EscalationPreference profile) in
        if preference \<notin> set escalation_preferences then Inl (ErrMsg ''invalid escalation preference'')
        else if op_MinimumNERVMinor profile < 0 \<or> op_DiscountBudgetMinor profile < 0 \<or> op_HumanReviewBudgetMinor profile < 0
          then Inl (ErrMsg ''budgets and minimum NERV must be non-negative'')
        else CreateMerchantOptimizationProfile (profile\<lparr>op_EscalationPreference := preference, op_ID := fresh 0, op_CreatedAt := now\<rparr>) db))"

section \<open>Versions\<close>

definition versions_ok :: "Database \<Rightarrow> bool" where
  "versions_ok db \<longleftrightarrow> distinct (map (\<lambda>p. (op_MerchantID p, op_ConfigurationVersion p)) (db_optimization_profiles db))
     \<and> (\<forall>p \<in> set (db_optimization_profiles db). 0 < op_ConfigurationVersion p \<and> op_ConfigurationVersion p < 2 ^ 31)"

lemma next_version_above:
  assumes "p \<in> set (db_optimization_profiles db)" and "op_MerchantID p = m"
  shows "op_ConfigurationVersion p < next_version m db"
proof -
  let ?t = "filter (\<lambda>t. op_MerchantID t = m) (db_optimization_profiles db)"
  have p: "p \<in> set ?t" using assms by simp
  then obtain q where q: "latest op_ConfigurationVersion ?t = Some q" using latest_None [of op_ConfigurationVersion ?t] by fastforce
  have "op_ConfigurationVersion p \<le> op_ConfigurationVersion q" by (rule latest_Some(2) [OF q p])
  then show ?thesis by (simp add: next_version_def q)
qed

lemma next_version_positive: "versions_ok db \<Longrightarrow> 0 < next_version m db"
  using latest_Some(1) by (fastforce simp: next_version_def versions_ok_def split: option.splits)

lemma insert_profileD:
  assumes "insert_profile p db = Inr db'"
  shows "db' = db\<lparr>db_optimization_profiles := db_optimization_profiles db @ [p]\<rparr>" "op_Objective p \<in> set validObjectives"
    "\<forall>w \<in> set (profile_weights p). 0 \<le> w \<and> w \<le> 20000" "0 < op_ConfigurationVersion p"
  using assms by (auto simp: insert_profile_def list_all_iff split: if_splits)

lemma latest_appended:
  assumes "\<forall>x \<in> set t. rank x < rank r"
  shows "latest rank (t @ [r]) = Some r"
proof -
  obtain s where s: "latest rank (t @ [r]) = Some s" using latest_None [of rank "t @ [r]"] by auto
  have "rank r \<le> rank s" by (rule latest_Some(2) [OF s]) simp
  moreover have "s \<in> set (t @ [r])" by (rule latest_Some(1) [OF s])
  ultimately show ?thesis using s assms by force
qed

lemma profile_CreateD:
  assumes "profile_Create fresh now profile db = Inr (p, db')"
  shows "op_MerchantID p = op_MerchantID profile" "op_ConfigurationVersion p = next_version (op_MerchantID profile) db"
    "db' = db\<lparr>db_optimization_profiles := db_optimization_profiles db @ [p]\<rparr>" "0 < op_ConfigurationVersion p"
    "op_ConfigurationVersion p < 2 ^ 31" "\<forall>w \<in> set (profile_weights p). 0 \<le> w \<and> w \<le> 20000" "op_Objective p \<in> set validObjectives"
    "0 < op_RevenueWeightBPS p + op_RetentionWeightBPS p" "lookup m_ID (op_MerchantID profile) (db_merchants db) \<noteq> None"
proof -
  let ?q = "profile\<lparr>op_EscalationPreference := (if op_EscalationPreference profile = [] then ''STANDARD'' else op_EscalationPreference profile),
      op_ID := fresh 0, op_CreatedAt := now\<rparr>"
  have c: "CreateMerchantOptimizationProfile ?q db = Inr (p, db')" and n: "op_RevenueWeightBPS profile + op_RetentionWeightBPS profile \<noteq> 0"
    using assms by (auto simp: profile_Create_def Let_def split: if_splits)
  have p: "p = ?q\<lparr>op_ConfigurationVersion := next_version (op_MerchantID profile) db\<rparr>" and i: "insert_profile p db = Inr db'"
    and l: "next_version (op_MerchantID profile) db < 2 ^ 31" "lookup m_ID (op_MerchantID profile) (db_merchants db) \<noteq> None"
    using c by (auto simp: CreateMerchantOptimizationProfile_def Let_def andThen_Inr split: if_splits)
  note d = insert_profileD [OF i]
  show "op_MerchantID p = op_MerchantID profile" "op_ConfigurationVersion p = next_version (op_MerchantID profile) db"
    "db' = db\<lparr>db_optimization_profiles := db_optimization_profiles db @ [p]\<rparr>" "0 < op_ConfigurationVersion p"
    "op_ConfigurationVersion p < 2 ^ 31" "\<forall>w \<in> set (profile_weights p). 0 \<le> w \<and> w \<le> 20000" "op_Objective p \<in> set validObjectives"
    "lookup m_ID (op_MerchantID profile) (db_merchants db) \<noteq> None"
    using p d l by simp_all
  show "0 < op_RevenueWeightBPS p + op_RetentionWeightBPS p" using n d(3) p by (simp add: profile_weights_def)
qed

section \<open>Properties\<close>

text \<open>A new profile is the next version and is in force at once. It has the lowest version above all
  of its merchant's, is appended to the versions there are, none of which changes, and is what
  the next read returns and what the next decision context of a case of that merchant is built
  with; the profile of every other merchant stays in force. Its weights are between 0 and 20000
  basis points with a positive value weight, and versions stay distinct and positive.\<close>

theorem new_profile_in_force:
  assumes "profile_Create fresh now profile db = Inr (p, db')" and "versions_ok db"
  shows "versions_ok db' \<and> db_optimization_profiles db' = db_optimization_profiles db @ [p]
    \<and> op_ConfigurationVersion p = (case GetMerchantOptimizationProfile (op_MerchantID profile) db of Inl _ \<Rightarrow> 1
         | Inr q \<Rightarrow> op_ConfigurationVersion q + 1)
    \<and> GetMerchantOptimizationProfile (op_MerchantID profile) db' = Inr p
    \<and> (\<forall>m. m \<noteq> op_MerchantID profile \<longrightarrow> GetMerchantOptimizationProfile m db' = GetMerchantOptimizationProfile m db)
    \<and> (\<forall>w \<in> set (profile_weights p). 0 \<le> w \<and> w \<le> 20000) \<and> 0 < op_RevenueWeightBPS p + op_RetentionWeightBPS p
    \<and> (\<forall>c t b. rc_MerchantID c = op_MerchantID profile \<and> LoadContextInputs c t db' = Inr b
         \<longrightarrow> mp_OptimizationProfile (bi_Policy b) = Some p)"
proof -
  note d = profile_CreateD [OF assms(1)]
  have above: "\<forall>x \<in> set (db_optimization_profiles db). op_MerchantID x = op_MerchantID profile
      \<longrightarrow> op_ConfigurationVersion x < op_ConfigurationVersion p"
    using next_version_above d(2) by auto
  have force: "latest op_ConfigurationVersion (filter (\<lambda>t. op_MerchantID t = op_MerchantID profile) (db_optimization_profiles db')) = Some p"
    unfolding d(3) using d(1) above by (simp add: latest_appended)
  have "versions_ok db'"
    using assms(2) d(1,3-5) above by (auto simp: versions_ok_def)
  moreover have "GetMerchantOptimizationProfile m db' = GetMerchantOptimizationProfile m db" if "m \<noteq> op_MerchantID profile" for m
    using that d(1,3) by (simp add: GetMerchantOptimizationProfile_def)
  moreover have "mp_OptimizationProfile (bi_Policy b) = Some p"
    if "rc_MerchantID c = op_MerchantID profile" "LoadContextInputs c t db' = Inr b" for c t b
    using that(2) by (rule LoadContextInputsD) (simp add: that(1) force)
  moreover have "GetMerchantOptimizationProfile (op_MerchantID profile) db' = Inr p"
    by (simp add: GetMerchantOptimizationProfile_def force)
  ultimately show ?thesis
    using d by (auto simp: GetMerchantOptimizationProfile_def next_version_def split: option.splits)
qed

definition example_profile :: MerchantOptimizationProfile where
  "example_profile = \<lparr>op_ID = [], op_MerchantID = ''m1'', op_Objective = ''BALANCED'', op_RevenueWeightBPS = 10000,
     op_RetentionWeightBPS = 2500, op_ContactPenaltyWeightBPS = 100, op_CostPenaltyWeightBPS = 100, op_FatiguePenaltyWeightBPS = 100,
     op_RiskPenaltyWeightBPS = 100, op_EscalationPreference = [], op_AllowedActions = [], op_AllowedChannels = [],
     op_MinimumNERVMinor = 0, op_DiscountBudgetMinor = 0, op_HumanReviewBudgetMinor = 0, op_ConfigurationVersion = 99, op_CreatedAt = 0\<rparr>"

theorem new_profile_in_force_witness:
  "\<exists>p q db1 db2. profile_Create (ids CHR ''a'') 5 example_profile shop_db = Inr (p, db1)
     \<and> profile_Create (ids CHR ''b'') 6 example_profile db1 = Inr (q, db2)
     \<and> op_ConfigurationVersion p = 1 \<and> op_ConfigurationVersion q = 2 \<and> GetMerchantOptimizationProfile ''m1'' db2 = Inr q"
proof -
  have v: "versions_ok shop_db" by (simp add: versions_ok_def shop_db_def empty_db_def)
  obtain p db1 where p: "profile_Create (ids CHR ''a'') 5 example_profile shop_db = Inr (p, db1)"
    by (simp add: profile_Create_def CreateMerchantOptimizationProfile_def insert_profile_def example_profile_def shop_db_def empty_db_def
        validObjectives_def profile_weights_def escalation_preferences_def next_version_def lookup_Cons andThen_def Let_def)
  note f = new_profile_in_force [OF p v]
  have one: "op_ConfigurationVersion p = 1"
    using f by (simp add: GetMerchantOptimizationProfile_def shop_db_def empty_db_def)
  have db1: "db1 = shop_db\<lparr>db_optimization_profiles := [p]\<rparr>" "op_MerchantID p = ''m1''" "op_ID p = ids CHR ''a'' 0"
    using p by (auto simp: profile_Create_def CreateMerchantOptimizationProfile_def insert_profile_def example_profile_def shop_db_def
        empty_db_def Let_def andThen_Inr split: if_splits)
  obtain q db2 where q: "profile_Create (ids CHR ''b'') 6 example_profile db1 = Inr (q, db2)"
    by (simp add: profile_Create_def CreateMerchantOptimizationProfile_def insert_profile_def example_profile_def db1 one shop_db_def empty_db_def
        validObjectives_def profile_weights_def escalation_preferences_def next_version_def lookup_Cons andThen_def Let_def)
  have "versions_ok db1" "GetMerchantOptimizationProfile ''m1'' db1 = Inr p" using f by (simp_all add: example_profile_def)
  then show ?thesis using p q one new_profile_in_force [OF q] by (auto simp: example_profile_def)
qed

end
