(* ===== verification/Model_Registry.thy ===== *)
theory Model_Registry
  imports Store_State
begin

text \<open>
  The model registry (\<open>internal/modelregistry/service.go\<close> over \<open>internal/store/model_registry.go\<close>):
  candidates, and a status that is the newest of the events appended for an entry. Its three
  tables belong to no other component, so they are a state of their own.
\<close>

section \<open>State\<close>

record Entry =
  me_ID :: ID
  me_ModelVersion :: string
  me_ModelType :: string
  me_FeatureVersion :: string
  me_TrainingDatasetVersion :: string
  me_Algorithm :: string
  me_TrainingTimestamp :: time
  me_ValidationMetrics :: RawMessage
  me_CalibrationMetrics :: RawMessage
  me_ArtifactURI :: string
  me_ArtifactHash :: string
  me_Status :: string
  me_CreatedAt :: time

record StatusInput =
  si_Status :: string
  si_Reason :: string
  si_Actor :: RawMessage

record StatusEvent =
  st_ID :: ID
  st_Entry :: ID
  st_Status :: string
  st_Reason :: string
  st_Actor :: RawMessage
  st_OccurredAt :: time

text \<open>The stored entries have no status; the field is filled when they are read.\<close>

record Registry =
  rg_Datasets :: "string list"
  rg_Entries :: "Entry list"
  rg_Events :: "StatusEvent list"

section \<open>Operations\<close>

text \<open>\<open>SELECT status ... ORDER BY occurred_at DESC, id DESC LIMIT 1\<close>\<close>

definition status_of :: "Registry \<Rightarrow> ID \<Rightarrow> string option" where
  "status_of r i = map_option st_Status (newest st_OccurredAt st_ID (filter (\<lambda>e. st_Entry e = i) (rg_Events r)))"

text \<open>A missing status is NULL, which cannot be scanned into a string.\<close>

definition GetModelEntry :: "ID \<Rightarrow> Registry \<Rightarrow> (error, Entry) result" where
  "GetModelEntry i r =
     (case lookup me_ID i (rg_Entries r) of None \<Rightarrow> Inl ErrNotFound
      | Some e \<Rightarrow> (case status_of r i of None \<Rightarrow> Inl (ErrMsg ''cannot scan NULL into *string'') | Some s \<Rightarrow> Inr (e\<lparr>me_Status := s\<rparr>)))"

definition statuses :: "string list" where
  "statuses = [''CANDIDATE'', ''APPROVED'', ''ACTIVE'', ''RETIRED'', ''REJECTED'']"

definition insert_status :: "StatusEvent \<Rightarrow> Registry \<Rightarrow> (error, Registry) result" where
  "insert_status e r =
     (if list_ex (\<lambda>x. st_ID x = st_ID e) (rg_Events r) then Inl (ErrConstraint ''model_registry_status_events_pkey'')
      else if lookup me_ID (st_Entry e) (rg_Entries r) = None then Inl (ErrConstraint ''model_registry_status_events_model_registry_id_fkey'')
      else if st_Status e \<notin> set statuses then Inl (ErrConstraint ''model_registry_status_events_status_check'')
      else Inr (r\<lparr>rg_Events := rg_Events r @ [e]\<rparr>))"

definition insert_entry :: "Entry \<Rightarrow> Registry \<Rightarrow> (error, Registry) result" where
  "insert_entry e r =
     (if list_ex (\<lambda>x. me_ID x = me_ID e \<or> me_ModelVersion x = me_ModelVersion e) (rg_Entries r)
        then Inl (ErrConstraint ''model_registry_entries_key'')
      else if me_TrainingDatasetVersion e \<notin> set (rg_Datasets r)
        then Inl (ErrConstraint ''model_registry_entries_training_dataset_version_fkey'')
      else Inr (r\<lparr>rg_Entries := rg_Entries r @ [e]\<rparr>))"

definition CreateModelCandidate :: "ID \<Rightarrow> Entry \<Rightarrow> StatusInput \<Rightarrow> Registry \<Rightarrow> (error, Entry \<times> Registry) result" where
  "CreateModelCandidate newID entry status r =
     andThen (insert_entry entry r) (\<lambda>r.
     andThen (insert_status \<lparr>st_ID = newID, st_Entry = me_ID entry, st_Status = ''CANDIDATE'', st_Reason = si_Reason status,
       st_Actor = si_Actor status, st_OccurredAt = me_CreatedAt entry\<rparr> r) (\<lambda>r.
     Inr (entry\<lparr>me_Status := ''CANDIDATE''\<rparr>, r)))"

definition allowed :: "string \<Rightarrow> string \<Rightarrow> bool" where
  "allowed current status \<longleftrightarrow> (current, status) \<in> set [(''CANDIDATE'', ''APPROVED''), (''CANDIDATE'', ''REJECTED''),
     (''APPROVED'', ''ACTIVE''), (''APPROVED'', ''REJECTED''), (''ACTIVE'', ''RETIRED'')]"

definition superseded :: "string \<Rightarrow> ID \<Rightarrow> Registry \<Rightarrow> ID list" where
  "superseded modelType i r = map me_ID (filter (\<lambda>e. me_ModelType e = modelType \<and> me_ID e \<noteq> i \<and> status_of r (me_ID e) = Some ''ACTIVE'') (rg_Entries r))"

fun retire_all :: "(nat \<Rightarrow> ID) \<Rightarrow> nat \<Rightarrow> ID \<Rightarrow> StatusInput \<Rightarrow> time \<Rightarrow> ID list \<Rightarrow> Registry \<Rightarrow> (error, Registry) result" where
  "retire_all fresh k i input now [] r = Inr r"
| "retire_all fresh k i input now (old # olds) r =
     andThen (insert_status \<lparr>st_ID = fresh k, st_Entry = old, st_Status = ''RETIRED'', st_Reason = ''superseded by '' @ i,
       st_Actor = si_Actor input, st_OccurredAt = now\<rparr> r) (retire_all fresh (k + 1) i input now olds)"

definition TransitionModelStatus :: "(nat \<Rightarrow> ID) \<Rightarrow> ID \<Rightarrow> StatusInput \<Rightarrow> time \<Rightarrow> Registry \<Rightarrow> (error, Entry \<times> Registry) result" where
  "TransitionModelStatus fresh i input now r =
     (case lookup me_ID i (rg_Entries r) of None \<Rightarrow> Inl ErrNoRows
      | Some e \<Rightarrow> (case status_of r i of None \<Rightarrow> Inl (ErrMsg ''cannot scan NULL into *string'')
        | Some current \<Rightarrow>
            if \<not> allowed current (si_Status input) then Inl ErrConflict
            else
              (let olds = (if si_Status input = ''ACTIVE'' then superseded (me_ModelType e) i r else []) in
               andThen (retire_all fresh 0 i input now olds r) (\<lambda>r.
               andThen (insert_status \<lparr>st_ID = fresh (length olds), st_Entry = i, st_Status = si_Status input, st_Reason = si_Reason input,
                 st_Actor = si_Actor input, st_OccurredAt = now\<rparr> r) (\<lambda>r.
               andThen (GetModelEntry i r) (\<lambda>e. Inr (e, r)))))))"

definition registry_Create :: "(nat \<Rightarrow> ID) \<Rightarrow> time \<Rightarrow> Entry \<Rightarrow> RawMessage \<Rightarrow> Registry \<Rightarrow> (error, Entry \<times> Registry) result" where
  "registry_Create fresh now entry actor r =
     (if me_ModelVersion entry = [] \<or> me_ModelType entry = [] \<or> me_FeatureVersion entry = [] \<or> me_TrainingDatasetVersion entry = []
        \<or> me_Algorithm entry = [] \<or> me_ArtifactURI entry = [] \<or> me_ArtifactHash entry = []
        then Inl (ErrMsg ''complete version, dataset, algorithm and artifact metadata are required'')
      else if me_ValidationMetrics entry = None \<or> me_CalibrationMetrics entry = None
        then Inl (ErrMsg ''validation and calibration metrics must be valid JSON'')
      else if actor = None then Inl (ErrMsg ''actor is required'')
      else CreateModelCandidate (fresh 1)
        (entry\<lparr>me_ID := fresh 0, me_CreatedAt := now, me_TrainingTimestamp := (if IsZero (me_TrainingTimestamp entry) then now else me_TrainingTimestamp entry)\<rparr>)
        \<lparr>si_Status = ''CANDIDATE'', si_Reason = ''candidate registered; explicit review required'', si_Actor = actor\<rparr> r)"

definition registry_Transition :: "(nat \<Rightarrow> ID) \<Rightarrow> time \<Rightarrow> ID \<Rightarrow> StatusInput \<Rightarrow> Registry \<Rightarrow> (error, Entry \<times> Registry) result" where
  "registry_Transition fresh now i input r =
     (if si_Reason input = [] \<or> si_Actor input = None then Inl (ErrMsg ''reason and actor are required'')
      else TransitionModelStatus fresh i input now r)"

section \<open>The newest event\<close>

lemma newest_appended:
  assumes "\<forall>x \<in> set t. created x < created e"
  shows "newest created key (t @ [e]) = Some e"
proof -
  let ?rank = "\<lambda>r. created r # map (of_char :: char \<Rightarrow> int) (key r)"
  obtain s where s: "newest created key (t @ [e]) = Some s"
    using latest_None [of ?rank "t @ [e]"] by (cases "newest created key (t @ [e])") (auto simp: newest_def)
  have "?rank e \<le> ?rank s" using latest_Some(2) [OF s [unfolded newest_def]] by simp
  then have "created e \<le> created s" by (auto simp: Cons_le_Cons)
  then show ?thesis using s newest_Some [OF s] assms by force
qed

text \<open>An event older than one of its entry does not count.\<close>

lemma newest_stale:
  assumes "x \<in> set t" and "created e < created x"
  shows "newest created key (t @ [e]) \<noteq> Some e"
proof
  let ?rank = "\<lambda>r. created r # map (of_char :: char \<Rightarrow> int) (key r)"
  assume "newest created key (t @ [e]) = Some e"
  then have "?rank x \<le> ?rank e" using latest_Some(2) [of ?rank "t @ [e]" e x] assms(1) unfolding newest_def by simp
  then show False using assms(2) by auto
qed

lemma newest_older:
  assumes "x \<in> set t" and "created e < created x" and "keyed key (t @ [e])"
  shows "newest created key (t @ [e]) = newest created key t"
proof -
  let ?rank = "\<lambda>r. created r # map (of_char :: char \<Rightarrow> int) (key r)"
  obtain s where s: "newest created key t = Some s"
    using latest_None [of ?rank t] assms(1) by (cases "newest created key t") (auto simp: newest_def)
  obtain u where u: "newest created key (t @ [e]) = Some u"
    using latest_None [of ?rank "t @ [e]"] by (cases "newest created key (t @ [e])") (auto simp: newest_def)
  have "u \<noteq> e" using newest_stale [OF assms(1,2)] u by metis
  then have ut: "u \<in> set t" using newest_Some [OF u] by simp
  have st: "s \<in> set t" by (rule newest_Some [OF s])
  have "?rank s \<le> ?rank u" using latest_Some(2) [OF u [unfolded newest_def]] st by simp
  moreover have "?rank u \<le> ?rank s" using latest_Some(2) [OF s [unfolded newest_def]] ut by simp
  ultimately have "map (of_char :: char \<Rightarrow> int) (key s) = map of_char (key u)" by auto
  then have "key s = key u" by (metis inj_map_eq_map inj_def of_char_eq_iff)
  then have "s = u" using assms(3) st ut by (auto simp: keyed_def distinct_map inj_on_def)
  then show ?thesis using s u by simp
qed

section \<open>Statuses after an operation\<close>

definition before :: "time \<Rightarrow> ID \<Rightarrow> Registry \<Rightarrow> bool" where
  "before now i r \<longleftrightarrow> (\<forall>x \<in> set (rg_Events r). st_Entry x = i \<longrightarrow> st_OccurredAt x < now)"

lemma insert_statusD:
  assumes "insert_status e r = Inr r'"
  shows "r' = r\<lparr>rg_Events := rg_Events r @ [e]\<rparr>" "st_Status e \<in> set statuses" "lookup me_ID (st_Entry e) (rg_Entries r) \<noteq> None"
    "lookup st_ID (st_ID e) (rg_Events r) = None"
  using assms by (auto simp: insert_status_def list_ex_iff lookup_None split: if_splits)

lemma status_inserted:
  assumes "insert_status e r = Inr r'" and "before (st_OccurredAt e) (st_Entry e) r"
  shows "status_of r' j = (if j = st_Entry e then Some (st_Status e) else status_of r j)"
  using assms(2) insert_statusD(1) [OF assms(1)] by (auto simp: status_of_def before_def newest_appended)

lemma retire_all_appends:
  "retire_all fresh k i input now olds r = Inr r' \<Longrightarrow>
   \<exists>es. r' = r\<lparr>rg_Events := rg_Events r @ es\<rparr> \<and> map st_Entry es = olds \<and> (\<forall>e \<in> set es. st_OccurredAt e = now \<and> st_Status e = ''RETIRED'')
     \<and> (keyed st_ID (rg_Events r) \<longrightarrow> keyed st_ID (rg_Events r'))"
proof (induction olds arbitrary: k r)
  case (Cons old olds)
  obtain r1 where r1: "insert_status \<lparr>st_ID = fresh k, st_Entry = old, st_Status = ''RETIRED'', st_Reason = ''superseded by '' @ i,
       st_Actor = si_Actor input, st_OccurredAt = now\<rparr> r = Inr r1" "retire_all fresh (k + 1) i input now olds r1 = Inr r'"
    using Cons.prems by (auto simp: andThen_Inr)
  note d = insert_statusD [OF r1(1)]
  obtain es where es: "r' = r1\<lparr>rg_Events := rg_Events r1 @ es\<rparr>" "map st_Entry es = olds"
    "\<forall>e \<in> set es. st_OccurredAt e = now \<and> st_Status e = ''RETIRED''" "keyed st_ID (rg_Events r1) \<longrightarrow> keyed st_ID (rg_Events r')"
    using Cons.IH [OF r1(2)] by blast
  show ?case
    using es d by (intro exI [of _ "\<lparr>st_ID = fresh k, st_Entry = old, st_Status = ''RETIRED'', st_Reason = ''superseded by '' @ i,
       st_Actor = si_Actor input, st_OccurredAt = now\<rparr> # es"]) (auto simp: keyed_append)
qed simp

lemma status_retired:
  "retire_all fresh k i input now olds r = Inr r' \<Longrightarrow> distinct olds \<Longrightarrow> (\<forall>j \<in> set olds. before now j r) \<Longrightarrow>
   status_of r' j = (if j \<in> set olds then Some ''RETIRED'' else status_of r j)"
proof (induction olds arbitrary: k r)
  case (Cons old olds)
  let ?e = "\<lparr>st_ID = fresh k, st_Entry = old, st_Status = ''RETIRED'', st_Reason = ''superseded by '' @ i,
       st_Actor = si_Actor input, st_OccurredAt = now\<rparr>"
  obtain r1 where r1: "insert_status ?e r = Inr r1" "retire_all fresh (k + 1) i input now olds r1 = Inr r'"
    using Cons.prems by (auto simp: andThen_Inr)
  have "\<forall>j \<in> set olds. before now j r1"
    using Cons.prems(2,3) insert_statusD(1) [OF r1(1)] by (auto simp: before_def)
  then have "status_of r' j = (if j \<in> set olds then Some ''RETIRED'' else status_of r1 j)"
    using Cons.IH [OF r1(2)] Cons.prems(2) by simp
  then show ?case using status_inserted [OF r1(1), of j] Cons.prems(3) by auto
qed simp

lemma TransitionModelStatusE:
  assumes "TransitionModelStatus fresh i input now r = Inr (e', r')"
  obtains e current olds r1 event where "lookup me_ID i (rg_Entries r) = Some e" "status_of r i = Some current"
    "allowed current (si_Status input)" "olds = (if si_Status input = ''ACTIVE'' then superseded (me_ModelType e) i r else [])"
    "retire_all fresh 0 i input now olds r = Inr r1" "insert_status event r1 = Inr r'" "GetModelEntry i r' = Inr e'"
    "st_Entry event = i" "st_Status event = si_Status input" "st_OccurredAt event = now"
proof -
  obtain e current where e: "lookup me_ID i (rg_Entries r) = Some e" "status_of r i = Some current" "allowed current (si_Status input)"
    using assms by (auto simp: TransitionModelStatus_def split: option.splits if_splits)
  define olds where "olds = (if si_Status input = ''ACTIVE'' then superseded (me_ModelType e) i r else [])"
  define event where "event = \<lparr>st_ID = fresh (length olds), st_Entry = i, st_Status = si_Status input, st_Reason = si_Reason input,
                 st_Actor = si_Actor input, st_OccurredAt = now\<rparr>"
  have "andThen (retire_all fresh 0 i input now olds r) (\<lambda>r. andThen (insert_status event r) (\<lambda>r.
               andThen (GetModelEntry i r) (\<lambda>e. Inr (e, r)))) = Inr (e', r')"
    using assms e by (simp add: TransitionModelStatus_def Let_def olds_def [symmetric] event_def [symmetric])
  then obtain r1 where "retire_all fresh 0 i input now olds r = Inr r1" "insert_status event r1 = Inr r'" "GetModelEntry i r' = Inr e'"
    by (auto simp: andThen_Inr)
  then show ?thesis using that e olds_def by (simp add: event_def)
qed

text \<open>One ACTIVE model of a type; every entry has a status; the clock is ahead of the events.\<close>

definition one_active :: "Registry \<Rightarrow> bool" where
  "one_active r \<longleftrightarrow> (\<forall>a \<in> set (rg_Entries r). \<forall>b \<in> set (rg_Entries r). me_ModelType a = me_ModelType b
     \<and> status_of r (me_ID a) = Some ''ACTIVE'' \<and> status_of r (me_ID b) = Some ''ACTIVE'' \<longrightarrow> me_ID a = me_ID b)"

definition registry_ok :: "Registry \<Rightarrow> bool" where
  "registry_ok r \<longleftrightarrow> keyed me_ID (rg_Entries r) \<and> keyed st_ID (rg_Events r)
     \<and> (\<forall>x \<in> set (rg_Events r). lookup me_ID (st_Entry x) (rg_Entries r) \<noteq> None)
     \<and> (\<forall>a \<in> set (rg_Entries r). \<exists>s \<in> set statuses. status_of r (me_ID a) = Some s)"

definition clock_ahead :: "time \<Rightarrow> Registry \<Rightarrow> bool" where
  "clock_ahead now r \<longleftrightarrow> (\<forall>x \<in> set (rg_Events r). st_OccurredAt x < now)"

lemma clock_ahead_before: "clock_ahead now r \<Longrightarrow> before now i r"
  by (simp add: clock_ahead_def before_def)

lemma status_unknown: "registry_ok r \<Longrightarrow> lookup me_ID i (rg_Entries r) = None \<Longrightarrow> filter (\<lambda>e. st_Entry e = i) (rg_Events r) = []"
  by (auto simp: filter_empty_conv registry_ok_def)

text \<open>What a transition does to the statuses.\<close>

lemma transition_statuses:
  assumes "TransitionModelStatus fresh i input now r = Inr (e', r')" and "registry_ok r" and "clock_ahead now r"
  obtains e current where "lookup me_ID i (rg_Entries r) = Some e" "status_of r i = Some current" "allowed current (si_Status input)"
    "me_Status e' = si_Status input" "rg_Entries r' = rg_Entries r" "rg_Datasets r' = rg_Datasets r"
    "\<And>j. status_of r' j = (if j = i then Some (si_Status input)
       else if si_Status input = ''ACTIVE'' \<and> j \<in> set (superseded (me_ModelType e) i r) then Some ''RETIRED'' else status_of r j)"
    "\<exists>es. rg_Events r' = rg_Events r @ es \<and> (\<forall>x \<in> set es. st_OccurredAt x = now)" "registry_ok r'"
  using assms(1)
proof (rule TransitionModelStatusE)
  fix e current olds r1 event
  assume e: "lookup me_ID i (rg_Entries r) = Some e" "status_of r i = Some current" "allowed current (si_Status input)"
    and olds: "olds = (if si_Status input = ''ACTIVE'' then superseded (me_ModelType e) i r else [])"
    and run: "retire_all fresh 0 i input now olds r = Inr r1" "insert_status event r1 = Inr r'" "GetModelEntry i r' = Inr e'"
    and event: "st_Entry event = i" "st_Status event = si_Status input" "st_OccurredAt event = now"
  obtain es where es: "r1 = r\<lparr>rg_Events := rg_Events r @ es\<rparr>" "map st_Entry es = olds"
    "\<forall>x \<in> set es. st_OccurredAt x = now \<and> st_Status x = ''RETIRED''" "keyed st_ID (rg_Events r) \<longrightarrow> keyed st_ID (rg_Events r1)"
    using retire_all_appends [OF run(1)] by blast
  note d = insert_statusD [OF run(2)]
  have dist: "distinct olds" "i \<notin> set olds"
    using assms(2) olds by (auto simp: superseded_def registry_ok_def keyed_def distinct_map_filter)
  have "before now i r1"
    using es assms(3) dist(2) by (auto simp: before_def clock_ahead_def)
  then have st: "status_of r' j = (if j = i then Some (si_Status input) else status_of r1 j)" for j
    using status_inserted [OF run(2)] event by simp
  have st1: "status_of r1 j = (if j \<in> set olds then Some ''RETIRED'' else status_of r j)" for j
    using status_retired [OF run(1) dist(1)] clock_ahead_before [OF assms(3)] by simp
  have all: "status_of r' j = (if j = i then Some (si_Status input)
       else if si_Status input = ''ACTIVE'' \<and> j \<in> set (superseded (me_ModelType e) i r) then Some ''RETIRED'' else status_of r j)" for j
    using st st1 olds by auto
  have entries: "rg_Entries r' = rg_Entries r" "rg_Datasets r' = rg_Datasets r" using d(1) es(1) by simp_all
  have "me_Status e' = si_Status input"
    using run(3) entries e st [of i] by (auto simp: GetModelEntry_def)
  moreover have "\<exists>es. rg_Events r' = rg_Events r @ es \<and> (\<forall>x \<in> set es. st_OccurredAt x = now)"
    using d(1) es event by (intro exI [of _ "es @ [event]"]) auto
  moreover have "registry_ok r'"
  proof -
    have "keyed st_ID (rg_Events r')" using es(4) d(1,4) assms(2) by (simp add: registry_ok_def keyed_append)
    moreover have "\<forall>x \<in> set (rg_Events r'). lookup me_ID (st_Entry x) (rg_Entries r') \<noteq> None"
    proof
      fix x assume "x \<in> set (rg_Events r')"
      then consider "x \<in> set (rg_Events r)" | "x \<in> set es" | "x = event" using d(1) es(1) by auto
      then show "lookup me_ID (st_Entry x) (rg_Entries r') \<noteq> None"
      proof cases
        case 2
        then have "st_Entry x \<in> set olds" using es(2) by (metis image_eqI image_set)
        then show ?thesis using olds entries by (auto simp: superseded_def lookup_None split: if_splits)
      qed (use assms(2) entries event e in \<open>auto simp: registry_ok_def\<close>)
    qed
    moreover have "\<forall>a \<in> set (rg_Entries r'). \<exists>s \<in> set statuses. status_of r' (me_ID a) = Some s"
      using assms(2) entries d(2) event all by (auto simp: registry_ok_def statuses_def)
    ultimately show ?thesis using assms(2) entries by (simp add: registry_ok_def)
  qed
  ultimately show thesis using that e entries all by blast
qed

lemma transition_one_active:
  assumes "TransitionModelStatus fresh i input now r = Inr (e', r')" and "registry_ok r" and "clock_ahead now r" and "one_active r"
  shows "one_active r'"
  using assms(1-3)
proof (rule transition_statuses)
  fix e current
  assume e: "lookup me_ID i (rg_Entries r) = Some e" and entries: "rg_Entries r' = rg_Entries r"
    and st: "\<And>j. status_of r' j = (if j = i then Some (si_Status input)
       else if si_Status input = ''ACTIVE'' \<and> j \<in> set (superseded (me_ModelType e) i r) then Some ''RETIRED'' else status_of r j)"
  have ei: "e \<in> set (rg_Entries r)" "me_ID e = i" using lookup_SomeD [OF e] by simp_all
  have type: "me_ModelType a = me_ModelType e" if "a \<in> set (rg_Entries r)" "me_ID a = i" for a
    using lookup_keyed [of me_ID "rg_Entries r" a] that e assms(2) by (simp add: registry_ok_def)
  have only: "me_ID a = i" if "a \<in> set (rg_Entries r)" "me_ModelType a = me_ModelType e" "status_of r' (me_ID a) = Some ''ACTIVE''"
    "si_Status input = ''ACTIVE''" for a
  proof (rule ccontr)
    assume n: "me_ID a \<noteq> i"
    then have "me_ID a \<notin> set (superseded (me_ModelType e) i r)" "status_of r (me_ID a) = Some ''ACTIVE''"
      using that st [of "me_ID a"] by (auto split: if_splits)
    then show False using n that by (auto simp: superseded_def)
  qed
  show "one_active r'"
    unfolding one_active_def entries
  proof (intro ballI impI)
    fix a b assume ab: "a \<in> set (rg_Entries r)" "b \<in> set (rg_Entries r)" and
      t: "me_ModelType a = me_ModelType b \<and> status_of r' (me_ID a) = Some ''ACTIVE'' \<and> status_of r' (me_ID b) = Some ''ACTIVE''"
    show "me_ID a = me_ID b"
    proof (cases "me_ID a = i \<or> me_ID b = i")
      case True
      then have "si_Status input = ''ACTIVE''" "me_ModelType a = me_ModelType e \<and> me_ModelType b = me_ModelType e"
        using t st type ab by (auto split: if_splits)
      then show ?thesis using only ab t by metis
    next
      case False
      then have "status_of r (me_ID a) = Some ''ACTIVE''" "status_of r (me_ID b) = Some ''ACTIVE''"
        using t st [of "me_ID a"] st [of "me_ID b"] by (auto split: if_splits)
      then show ?thesis using assms(4) ab t by (simp add: one_active_def)
    qed
  qed
qed

lemma candidate_statuses:
  assumes "CreateModelCandidate n entry input r = Inr (e', r')" and "registry_ok r"
  shows "rg_Entries r' = rg_Entries r @ [entry]" "rg_Datasets r' = rg_Datasets r"
    "status_of r' j = (if j = me_ID entry then Some ''CANDIDATE'' else status_of r j)"
    "\<exists>x. rg_Events r' = rg_Events r @ [x] \<and> st_OccurredAt x = me_CreatedAt entry" "registry_ok r'" "lookup me_ID (me_ID entry) (rg_Entries r) = None"
proof -
  let ?x = "\<lparr>st_ID = n, st_Entry = me_ID entry, st_Status = ''CANDIDATE'', st_Reason = si_Reason input,
       st_Actor = si_Actor input, st_OccurredAt = me_CreatedAt entry\<rparr>"
  obtain r1 where r1: "insert_entry entry r = Inr r1" "insert_status ?x r1 = Inr r'"
    using assms(1) by (auto simp: CreateModelCandidate_def andThen_Inr)
  have e: "r1 = r\<lparr>rg_Entries := rg_Entries r @ [entry]\<rparr>" "lookup me_ID (me_ID entry) (rg_Entries r) = None"
    using r1(1) by (auto simp: insert_entry_def list_ex_iff lookup_None split: if_splits)
  note d = insert_statusD [OF r1(2)]
  have none: "filter (\<lambda>e. st_Entry e = me_ID entry) (rg_Events r) = []" by (rule status_unknown [OF assms(2) e(2)])
  then have "before (me_CreatedAt entry) (me_ID entry) r1" using e(1) by (auto simp: before_def filter_empty_conv)
  then have st: "status_of r' j = (if j = me_ID entry then Some ''CANDIDATE'' else status_of r j)" for j
    using status_inserted [OF r1(2), of j] e(1) by (simp add: status_of_def)
  show "rg_Entries r' = rg_Entries r @ [entry]" "rg_Datasets r' = rg_Datasets r" "lookup me_ID (me_ID entry) (rg_Entries r) = None"
    "status_of r' j = (if j = me_ID entry then Some ''CANDIDATE'' else status_of r j)"
    "\<exists>x. rg_Events r' = rg_Events r @ [x] \<and> st_OccurredAt x = me_CreatedAt entry"
    using e d(1) st by simp_all
  show "registry_ok r'"
    using assms(2) e d st by (auto simp: registry_ok_def keyed_append lookup_append statuses_def split: option.splits)
qed

section \<open>The registry over time\<close>

text \<open>Operations of a registry whose clock only moves forward; \<open>now\<close> is its last reading.\<close>

inductive registry_run :: "Registry \<Rightarrow> time \<Rightarrow> bool" where
  fresh_registry: "registry_run \<lparr>rg_Datasets = ds, rg_Entries = [], rg_Events = []\<rparr> now"
| candidate: "registry_run r t \<Longrightarrow> t < now \<Longrightarrow> registry_Create fresh now entry actor r = Inr (e, r') \<Longrightarrow> registry_run r' now"
| move: "registry_run r t \<Longrightarrow> t < now \<Longrightarrow> registry_Transition fresh now i input r = Inr (e, r') \<Longrightarrow> registry_run r' now"

text \<open>C32. At most one model of a type is ACTIVE. As long as the clock moves forward between operations,
  every registry that candidates and transitions lead to has for every entry one of the five
  statuses, entries and events with ids of their own, no event in the future, and no two
  entries of one type that are both ACTIVE; and a further transition that succeeds takes the
  entry along an edge of the status table to the status asked for, retires exactly the active
  model it replaces, if any, and changes no other status.\<close>

theorem one_active_model:
  assumes "registry_run r t"
  shows "registry_ok r \<and> one_active r \<and> (\<forall>x \<in> set (rg_Events r). st_OccurredAt x \<le> t)
    \<and> (t < now \<and> registry_Transition fresh now i input r = Inr (e', r') \<longrightarrow>
        (\<exists>e current. lookup me_ID i (rg_Entries r) = Some e \<and> status_of r i = Some current \<and> allowed current (si_Status input)
          \<and> me_Status e' = si_Status input
          \<and> (\<forall>j. status_of r' j = (if j = i then Some (si_Status input)
               else if si_Status input = ''ACTIVE'' \<and> status_of r j = Some ''ACTIVE''
                    \<and> map_option me_ModelType (lookup me_ID j (rg_Entries r)) = Some (me_ModelType e)
               then Some ''RETIRED'' else status_of r j))))"
proof -
  have inv: "registry_ok r \<and> one_active r \<and> (\<forall>x \<in> set (rg_Events r). st_OccurredAt x \<le> t)"
    using assms
  proof induction
    case (fresh_registry ds now)
    then show ?case by (simp add: registry_ok_def one_active_def keyed_def)
  next
    case (candidate r t now fresh entry actor e r')
    let ?e = "entry\<lparr>me_ID := fresh 0, me_CreatedAt := now,
        me_TrainingTimestamp := (if IsZero (me_TrainingTimestamp entry) then now else me_TrainingTimestamp entry)\<rparr>"
    obtain input where "CreateModelCandidate (fresh 1) ?e input r = Inr (e, r')"
      using candidate(3) by (auto simp: registry_Create_def split: if_splits)
    note c = candidate_statuses [OF this candidate.IH [THEN conjunct1]]
    have "one_active r'"
      using candidate.IH c(1,6) c(3) by (auto simp: one_active_def lookup_None split: if_splits)
    then show ?case using c candidate.IH candidate.hyps by fastforce
  next
    case (move r t now fresh i input e r')
    have m: "TransitionModelStatus fresh i input now r = Inr (e, r')"
      using move(3) by (auto simp: registry_Transition_def split: if_splits)
    have ahead: "clock_ahead now r" using move by (auto simp: clock_ahead_def)
    have ok: "registry_ok r" "one_active r" using move.IH by simp_all
    obtain es where "rg_Events r' = rg_Events r @ es" "\<forall>x \<in> set es. st_OccurredAt x = now" "registry_ok r'"
      using transition_statuses [OF m ok(1) ahead] by metis
    then show ?case using transition_one_active [OF m ok(1) ahead ok(2)] move by fastforce
  qed
  moreover have "\<exists>e current. lookup me_ID i (rg_Entries r) = Some e \<and> status_of r i = Some current \<and> allowed current (si_Status input)
          \<and> me_Status e' = si_Status input
          \<and> (\<forall>j. status_of r' j = (if j = i then Some (si_Status input)
               else if si_Status input = ''ACTIVE'' \<and> status_of r j = Some ''ACTIVE''
                    \<and> map_option me_ModelType (lookup me_ID j (rg_Entries r)) = Some (me_ModelType e)
               then Some ''RETIRED'' else status_of r j))"
    if h: "t < now" "registry_Transition fresh now i input r = Inr (e', r')"
  proof -
    have m: "TransitionModelStatus fresh i input now r = Inr (e', r')"
      using h(2) by (auto simp: registry_Transition_def split: if_splits)
    have ahead: "clock_ahead now r" using inv h(1) by (auto simp: clock_ahead_def)
    have ok: "registry_ok r" using inv by simp
    have k: "keyed me_ID (rg_Entries r)" using ok by (simp add: registry_ok_def)
    have s: "j \<in> set (superseded ty i r) \<longleftrightarrow> j \<noteq> i \<and> status_of r j = Some ''ACTIVE''
        \<and> map_option me_ModelType (lookup me_ID j (rg_Entries r)) = Some ty" for j ty
      using lookup_keyed [OF k] lookup_SomeD [of me_ID j "rg_Entries r"] by (force simp: superseded_def)
    from m ok ahead show ?thesis
    proof (rule transition_statuses)
      fix e current
      assume e: "lookup me_ID i (rg_Entries r) = Some e" "status_of r i = Some current" "allowed current (si_Status input)"
          "me_Status e' = si_Status input"
        and st: "\<And>j. status_of r' j = (if j = i then Some (si_Status input)
          else if si_Status input = ''ACTIVE'' \<and> j \<in> set (superseded (me_ModelType e) i r) then Some ''RETIRED'' else status_of r j)"
      show ?thesis using e st by (intro exI [of _ e] exI [of _ current]) (simp add: s)
    qed
  qed
  ultimately show ?thesis by blast
qed

text \<open>A transition recorded under a clock that lags behind is accepted and ignored. When the
  entry has an event that is later than the clock, a transition that succeeds is stored, but the
  status stays what it was and the entry returned shows it; every active model of the type it
  was to replace is retired all the same, as far as the clock is ahead of that one's events: an
  activation can leave the type without an active model.\<close>

theorem late_transition_is_ignored:
  assumes "registry_Transition fresh now i input r = Inr (e', r')" and "registry_ok r"
    and "x \<in> set (rg_Events r)" and "st_Entry x = i" and "now < st_OccurredAt x"
  shows "status_of r' i = status_of r i \<and> status_of r i = Some (me_Status e') \<and> rg_Events r \<noteq> rg_Events r'
    \<and> (\<forall>a j. si_Status input = ''ACTIVE'' \<and> lookup me_ID i (rg_Entries r) = Some a \<and> j \<in> set (superseded (me_ModelType a) i r)
        \<and> (\<forall>k \<in> set (superseded (me_ModelType a) i r). before now k r) \<longrightarrow> status_of r' j = Some ''RETIRED'')"
proof -
  have m: "TransitionModelStatus fresh i input now r = Inr (e', r')"
    using assms(1) by (auto simp: registry_Transition_def split: if_splits)
  obtain e current olds r1 event where e: "lookup me_ID i (rg_Entries r) = Some e" "status_of r i = Some current"
    and olds: "olds = (if si_Status input = ''ACTIVE'' then superseded (me_ModelType e) i r else [])"
    and run: "retire_all fresh 0 i input now olds r = Inr r1" "insert_status event r1 = Inr r'" "GetModelEntry i r' = Inr e'"
    and event: "st_Entry event = i" "st_OccurredAt event = now"
    using TransitionModelStatusE [OF m] by metis
  obtain es where es: "r1 = r\<lparr>rg_Events := rg_Events r @ es\<rparr>" "map st_Entry es = olds" "keyed st_ID (rg_Events r) \<longrightarrow> keyed st_ID (rg_Events r1)"
    using retire_all_appends [OF run(1)] by blast
  note d = insert_statusD [OF run(2)]
  have dist: "distinct olds" "i \<notin> set olds"
    using assms(2) olds by (auto simp: superseded_def registry_ok_def keyed_def distinct_map_filter)
  have none: "filter (\<lambda>e. st_Entry e = i) es = []"
    using dist(2) es(2) by (auto simp: filter_empty_conv)
  have own: "status_of r' i = status_of r i"
  proof -
    let ?t = "filter (\<lambda>e. st_Entry e = i) (rg_Events r)"
    have k: "keyed st_ID (rg_Events r')" using es(3) d(1,4) assms(2) by (simp add: registry_ok_def keyed_append)
    have f: "filter (\<lambda>e. st_Entry e = i) (rg_Events r') = ?t @ [event]" using d(1) es(1) none event by simp
    have "keyed st_ID (?t @ [event])" unfolding f [symmetric] using k by (simp add: keyed_def distinct_map_filter)
    then have "newest st_OccurredAt st_ID (?t @ [event]) = newest st_OccurredAt st_ID ?t"
      using assms(3,4,5) event by (intro newest_older [of x]) auto
    then show ?thesis by (simp add: status_of_def f)
  qed
  have "status_of r' j = Some ''RETIRED''"
    if "si_Status input = ''ACTIVE''" "j \<in> set olds" "\<forall>k \<in> set olds. before now k r" for j
  proof -
    have "status_of r1 j = Some ''RETIRED''" using status_retired [OF run(1) dist(1) that(3), of j] that(2) by simp
    moreover have "j \<noteq> i" using that(2) dist(2) by blast
    ultimately show ?thesis using d(1) event by (simp add: status_of_def)
  qed
  moreover have "Some (me_Status e') = status_of r' i"
    using run(3) by (auto simp: GetModelEntry_def split: option.splits)
  moreover have "rg_Events r \<noteq> rg_Events r'" using d(1) es(1) by simp
  ultimately show ?thesis using own e olds by auto
qed

section \<open>Examples\<close>

definition example_entry :: "ID \<Rightarrow> string \<Rightarrow> Entry" where
  "example_entry i v = \<lparr>me_ID = i, me_ModelVersion = v, me_ModelType = ''outcome'', me_FeatureVersion = ''f1'',
     me_TrainingDatasetVersion = ''d1'', me_Algorithm = ''gbm'', me_TrainingTimestamp = 1, me_ValidationMetrics = emptyObject,
     me_CalibrationMetrics = emptyObject, me_ArtifactURI = ''s3'', me_ArtifactHash = ''h'', me_Status = [], me_CreatedAt = 1\<rparr>"

definition example_event :: "ID \<Rightarrow> ID \<Rightarrow> string \<Rightarrow> time \<Rightarrow> StatusEvent" where
  "example_event n i s t = \<lparr>st_ID = n, st_Entry = i, st_Status = s, st_Reason = ''r'', st_Actor = emptyObject, st_OccurredAt = t\<rparr>"

text \<open>An active model, and an approved one whose approval carries a time the clock has not reached.\<close>

definition example_registry :: Registry where
  "example_registry = \<lparr>rg_Datasets = [''d1''], rg_Entries = [example_entry ''e1'' ''v1'', example_entry ''e2'' ''v2''],
     rg_Events = [example_event ''s1'' ''e1'' ''ACTIVE'' 1, example_event ''s2'' ''e2'' ''APPROVED'' 9]\<rparr>"

definition activate :: StatusInput where
  "activate = \<lparr>si_Status = ''ACTIVE'', si_Reason = ''promote'', si_Actor = emptyObject\<rparr>"

lemma example_statuses:
  "status_of example_registry ''e1'' = Some ''ACTIVE''" "status_of example_registry ''e2'' = Some ''APPROVED''"
  by (simp_all add: status_of_def example_registry_def example_event_def)

lemma example_registry_ok: "registry_ok example_registry"
proof -
  have "\<forall>a \<in> set (rg_Entries example_registry). \<exists>s \<in> set statuses. status_of example_registry (me_ID a) = Some s"
    using example_statuses by (simp add: example_registry_def example_entry_def statuses_def)
  then show ?thesis
    by (simp add: registry_ok_def keyed_def example_registry_def example_entry_def example_event_def lookup_Cons)
qed

lemma example_superseded: "superseded ''outcome'' ''e2'' example_registry = [''e1'']"
  using example_statuses by (simp add: superseded_def example_registry_def example_entry_def)

lemma example_late: "\<exists>e r. registry_Transition (\<lambda>k. if k = 0 then ''z0'' else ''z1'') 5 ''e2'' activate example_registry = Inr (e, r)"
proof -
  have f: "lookup me_ID ''e2'' (rg_Entries example_registry) = Some (example_entry ''e2'' ''v2'')"
    "lookup me_ID ''e1'' (rg_Entries example_registry) = Some (example_entry ''e1'' ''v1'')"
    "rg_Events example_registry = [example_event ''s1'' ''e1'' ''ACTIVE'' 1, example_event ''s2'' ''e2'' ''APPROVED'' 9]"
    by (simp_all add: example_registry_def example_entry_def lookup_Cons)
  show ?thesis
    using example_superseded
    by (simp add: registry_Transition_def TransitionModelStatus_def activate_def f example_statuses allowed_def Let_def andThen_def
        insert_status_def example_event_def statuses_def GetModelEntry_def status_of_def example_entry_def newest_def latest_def)
qed

theorem late_transition_is_ignored_witness:
  "\<exists>e r. registry_Transition (\<lambda>k. if k = 0 then ''z0'' else ''z1'') 5 ''e2'' activate example_registry = Inr (e, r)
     \<and> me_Status e = ''APPROVED'' \<and> status_of r ''e1'' = Some ''RETIRED'' \<and> status_of r ''e2'' = Some ''APPROVED''"
proof -
  obtain e r where t: "registry_Transition (\<lambda>k. if k = 0 then ''z0'' else ''z1'') 5 ''e2'' activate example_registry = Inr (e, r)"
    using example_late by blast
  have x: "example_event ''s2'' ''e2'' ''APPROVED'' 9 \<in> set (rg_Events example_registry)" by (simp add: example_registry_def)
  have b: "before 5 ''e1'' example_registry" by (simp add: before_def example_registry_def example_event_def)
  have a: "lookup me_ID ''e2'' (rg_Entries example_registry) = Some (example_entry ''e2'' ''v2'')"
    "me_ModelType (example_entry ''e2'' ''v2'') = ''outcome''" "si_Status activate = ''ACTIVE''"
    by (simp_all add: example_registry_def example_entry_def lookup_Cons activate_def)
  have "st_Entry (example_event ''s2'' ''e2'' ''APPROVED'' 9) = ''e2''" "5 < st_OccurredAt (example_event ''s2'' ''e2'' ''APPROVED'' 9)"
    by (simp_all add: example_event_def)
  from late_transition_is_ignored [OF t example_registry_ok x this]
  show ?thesis using t a b example_statuses example_superseded by auto
qed

definition first_candidate :: Entry where
  "first_candidate = (example_entry [] ''v1'')\<lparr>me_CreatedAt := 0\<rparr>"

theorem one_active_model_witness:
  "\<exists>e r. registry_Create (\<lambda>k. if k = 0 then ''e1'' else ''s1'') 3 first_candidate emptyObject
       \<lparr>rg_Datasets = [''d1''], rg_Entries = [], rg_Events = []\<rparr> = Inr (e, r) \<and> registry_ok r \<and> one_active r"
proof -
  let ?r0 = "\<lparr>rg_Datasets = [''d1''], rg_Entries = [], rg_Events = []\<rparr> :: Registry"
  obtain e r where c: "registry_Create (\<lambda>k. if k = 0 then ''e1'' else ''s1'') 3 first_candidate emptyObject ?r0 = Inr (e, r)"
    by (simp add: registry_Create_def first_candidate_def example_entry_def CreateModelCandidate_def insert_entry_def insert_status_def
        andThen_def lookup_Cons statuses_def)
  have "registry_run ?r0 2" by (rule fresh_registry)
  then have "registry_run r 3" by (rule registry_run.candidate [OF _ _ c]) simp
  then show ?thesis using c one_active_model [of r 3] by blast
qed

end
