(* ===== verification/Portfolio.thy ===== *)
theory Portfolio
  imports Entities
begin

text \<open>
  Package \<open>portfolio\<close> (\<open>internal/portfolio/portfolio.go\<close>): the priority of a merchant's open
  cases. \<open>id.New()\<close> is the argument \<open>fresh\<close>, called once per candidate in input order. The
  explanation is kept by its members; it is read back for the arrival time only.
\<close>

record PortfolioCandidate =
  pc_MerchantID :: ID
  pc_CaseID :: ID
  pc_DecisionID :: ID
  pc_Action :: ActionType
  pc_AmountAtRiskMinor :: int
  pc_ExpectedIncrementalValueMinor :: int
  pc_ExpectedNERVMinor :: int
  pc_Deadline :: time
  pc_ArrivalAt :: time
  pc_RecoverabilityBPS :: int

record Explanation =
  xp_formula :: string
  xp_hours_until_deadline :: float64
  xp_case_created_at :: time

record Item =
  it_ID :: ID
  it_RunID :: ID
  it_MerchantID :: ID
  it_CaseID :: ID
  it_DecisionID :: ID
  it_Action :: ActionType
  it_AmountAtRiskMinor :: int
  it_ExpectedIncrementalValueMinor :: int
  it_ExpectedNERVMinor :: int
  it_UrgencyBPS :: int
  it_RecoverabilityBPS :: int
  it_PriorityScoreMinor :: int
  it_Rank :: int
  it_Explanation :: Explanation
  it_AlgorithmVersion :: string
  it_CreatedAt :: time
  it_ArrivalAt :: time

definition urgency_of :: "float64 \<Rightarrow> int" where
  "urgency_of hours = (if hours \<le> 1 then 15000 else if hours \<le> 6 then 12500 else if hours \<le> 24 then 10000 else 7500)"

definition clamp_bps :: "int \<Rightarrow> int" where
  "clamp_bps r = (let r = (if r < 0 then 0 else r) in if 10000 < r then 10000 else r)"

definition item_of :: "time \<Rightarrow> ID \<Rightarrow> ID \<Rightarrow> PortfolioCandidate \<Rightarrow> Item" where
  "item_of now runID newID c =
     (let hours = duration_Hours (Sub (pc_Deadline c) now);
          urgency = urgency_of hours;
          recoverability = clamp_bps (pc_RecoverabilityBPS c);
          score = mulDiv (mulDiv (pc_ExpectedNERVMinor c) urgency 10000) recoverability 10000
      in \<lparr>it_ID = newID, it_RunID = runID, it_MerchantID = pc_MerchantID c, it_CaseID = pc_CaseID c,
          it_DecisionID = pc_DecisionID c, it_Action = pc_Action c, it_AmountAtRiskMinor = pc_AmountAtRiskMinor c,
          it_ExpectedIncrementalValueMinor = pc_ExpectedIncrementalValueMinor c,
          it_ExpectedNERVMinor = pc_ExpectedNERVMinor c, it_UrgencyBPS = urgency,
          it_RecoverabilityBPS = recoverability, it_PriorityScoreMinor = score, it_Rank = 0,
          it_Explanation = \<lparr>xp_formula = ''expected_nerv * urgency * recoverability'',
             xp_hours_until_deadline = hours, xp_case_created_at = pc_ArrivalAt c\<rparr>,
          it_AlgorithmVersion = ''portfolio-priority-v1'', it_CreatedAt = now, it_ArrivalAt = pc_ArrivalAt c\<rparr>)"

definition item_less :: "Item \<Rightarrow> Item \<Rightarrow> bool" where
  "item_less a b =
     (if it_PriorityScoreMinor a \<noteq> it_PriorityScoreMinor b then it_PriorityScoreMinor b < it_PriorityScoreMinor a
      else if it_ExpectedNERVMinor a \<noteq> it_ExpectedNERVMinor b then it_ExpectedNERVMinor b < it_ExpectedNERVMinor a
      else it_CaseID a < it_CaseID b)"

fun set_item_ranks :: "int \<Rightarrow> Item list \<Rightarrow> Item list" where
  "set_item_ranks n [] = []"
| "set_item_ranks n (x # xs) = x\<lparr>it_Rank := n\<rparr> # set_item_ranks (n + 1) xs"

definition portfolio_Rank :: "(nat \<Rightarrow> ID) \<Rightarrow> PortfolioCandidate list \<Rightarrow> time \<Rightarrow> ID \<Rightarrow> Item list" where
  "portfolio_Rank fresh candidates now runID =
     set_item_ranks 1 (sort_by item_less (map2 (\<lambda>i c. item_of now runID (fresh i) c) [0..<length candidates] candidates))"

text \<open>\<open>Service.Run\<close> over a store with state \<open>'s\<close>; \<open>fresh 0\<close> is the run's id.\<close>

definition portfolio_Run ::
  "('s \<Rightarrow> ID \<Rightarrow> ('e, PortfolioCandidate list) result) \<Rightarrow> ('s \<Rightarrow> Item list \<Rightarrow> ('e, 's) result)
    \<Rightarrow> (nat \<Rightarrow> ID) \<Rightarrow> time \<Rightarrow> 's \<Rightarrow> ID \<Rightarrow> ('e, ID \<times> Item list \<times> 's) result" where
  "portfolio_Run load save fresh now s merchantID =
     (case load s merchantID of Inl e \<Rightarrow> Inl e
      | Inr candidates \<Rightarrow>
          (let runID = fresh 0; items = portfolio_Rank (\<lambda>i. fresh (Suc i)) candidates now runID
           in case save s items of Inl e \<Rightarrow> Inl e | Inr s' \<Rightarrow> Inr (runID, items, s')))"

section \<open>The score\<close>

lemma urgency_range: "7500 \<le> urgency_of h" "urgency_of h \<le> 15000"
  by (simp_all add: urgency_of_def)

lemma clamp_bps_range: "0 \<le> clamp_bps r" "clamp_bps r \<le> 10000"
  by (simp_all add: clamp_bps_def Let_def)

lemma quo_sign: "0 < b \<Longrightarrow> 0 \<le> a \<Longrightarrow> 0 \<le> quo a b" "0 < b \<Longrightarrow> a \<le> 0 \<Longrightarrow> quo a b \<le> 0"
  using quo_mono [of 0 a b] quo_mono [of a 0 b] by auto

text \<open>A scaled value keeps its sign and grows by at most the factor.\<close>

lemma mulDiv_factor:
  assumes "0 \<le> b" "b \<le> k * 10000" "\<bar>a\<bar> * k < 2 ^ 63"
  shows "mulDiv a b 10000 = quo (a * b) 10000" "\<bar>mulDiv a b 10000\<bar> \<le> \<bar>a\<bar> * k"
proof -
  have "\<bar>quo (a * b) 10000\<bar> \<le> \<bar>a * b\<bar> div 10000" by (rule quo_abs_le) simp
  also have "\<dots> \<le> (\<bar>a\<bar> * (k * 10000)) div 10000"
    using assms(1,2) by (intro zdiv_mono1) (auto simp: abs_mult intro: mult_left_mono)
  also have "\<dots> = \<bar>a\<bar> * k" by simp
  finally have l: "\<bar>quo (a * b) 10000\<bar> \<le> \<bar>a\<bar> * k" .
  then have "in_i64 (quo (a * b) 10000)" using assms(3) unfolding in_i64_def by linarith
  then show "mulDiv a b 10000 = quo (a * b) 10000" "\<bar>mulDiv a b 10000\<bar> \<le> \<bar>a\<bar> * k"
    using l by (simp_all add: mulDiv_def)
qed

lemma item_score:
  assumes "\<bar>pc_ExpectedNERVMinor c\<bar> < 2 ^ 62"
  shows "\<bar>it_PriorityScoreMinor (item_of now r i c)\<bar> \<le> 2 * \<bar>pc_ExpectedNERVMinor c\<bar>"
    and "0 \<le> pc_ExpectedNERVMinor c \<Longrightarrow> 0 \<le> it_PriorityScoreMinor (item_of now r i c)"
    and "pc_ExpectedNERVMinor c \<le> 0 \<Longrightarrow> it_PriorityScoreMinor (item_of now r i c) \<le> 0"
proof -
  let ?n = "pc_ExpectedNERVMinor c"
  define u where "u = urgency_of (duration_Hours (Sub (pc_Deadline c) now))"
  define b where "b = clamp_bps (pc_RecoverabilityBPS c)"
  have u: "0 \<le> u" "u \<le> 2 * 10000" using urgency_range [of "duration_Hours (Sub (pc_Deadline c) now)"] by (simp_all add: u_def)
  have b: "0 \<le> b" "b \<le> 1 * 10000" using clamp_bps_range by (simp_all add: b_def)
  note f = mulDiv_factor [OF u, of ?n]
  have n: "\<bar>?n\<bar> * 2 < 2 ^ 63" using assms by simp
  note g = mulDiv_factor [OF b, of "mulDiv ?n u 10000"]
  have n': "\<bar>mulDiv ?n u 10000\<bar> * 1 < 2 ^ 63" using f(2) [OF n] n by linarith
  have s: "it_PriorityScoreMinor (item_of now r i c) = mulDiv (mulDiv ?n u 10000) b 10000"
    by (simp add: item_of_def Let_def u_def b_def)
  have e: "it_PriorityScoreMinor (item_of now r i c) = quo (quo (?n * u) 10000 * b) 10000"
    using g(1) [OF n'] f(1) [OF n] by (simp add: s)
  show "\<bar>it_PriorityScoreMinor (item_of now r i c)\<bar> \<le> 2 * \<bar>?n\<bar>"
    using f(2) [OF n] g(2) [OF n'] by (simp add: s)
  show "0 \<le> it_PriorityScoreMinor (item_of now r i c)" if "0 \<le> ?n"
    unfolding e using that u b by (intro quo_sign mult_nonneg_nonneg) auto
  show "it_PriorityScoreMinor (item_of now r i c) \<le> 0" if "?n \<le> 0"
    unfolding e using that u b
    by (intro quo_sign mult_nonpos_nonneg) auto
qed

section \<open>The order\<close>

interpretation priority: weak_order UNIV item_less
  by unfold_locales (auto simp: item_less_def split: if_splits)

lemma set_item_ranks_facts:
  "length (set_item_ranks n xs) = length xs"
  "map it_Rank (set_item_ranks n xs) = [n .. n + int (length xs) - 1]"
  by (induction xs arbitrary: n) (auto simp: upto_rec1 algebra_simps)

lemma map_set_item_ranks: "(\<And>x r. f (x\<lparr>it_Rank := r\<rparr>) = f x) \<Longrightarrow> map f (set_item_ranks n xs) = map f xs"
  by (induction xs arbitrary: n) auto

lemma item_less_rank [simp]:
  "item_less (a\<lparr>it_Rank := n\<rparr>) b = item_less a b" "item_less a (b\<lparr>it_Rank := n\<rparr>) = item_less a b"
  by (simp_all add: item_less_def)

lemma ordered_set_item_ranks: "ordered item_less xs \<Longrightarrow> ordered item_less (set_item_ranks n xs)"
proof (induction xs arbitrary: n)
  case (Cons x xs)
  have "\<exists>y' r. y' \<in> set xs \<and> y = y'\<lparr>it_Rank := r\<rparr>" if "y \<in> set (set_item_ranks m xs)" for y m
    using that by (induction xs arbitrary: m) (auto, blast)
  then show ?case using Cons by fastforce
qed simp

lemma cases_of_items:
  "map it_CaseID (map2 (\<lambda>i c. item_of now runID (fresh i) c) is cs) = map pc_CaseID (take (length is) cs)"
  by (induction "is" cs rule: list_induct2') (auto simp: item_of_def Let_def)

lemma portfolio_items:
  assumes "x \<in> set (portfolio_Rank fresh cs now runID)"
  obtains c i r where "c \<in> set cs" "x = (item_of now runID (fresh i) c)\<lparr>it_Rank := r\<rparr>"
proof -
  have "\<exists>y r. y \<in> set xs \<and> x = y\<lparr>it_Rank := r\<rparr>" if "x \<in> set (set_item_ranks m xs)" for m xs
    using that by (induction xs arbitrary: m) (auto, blast)
  then obtain y r where "y \<in> set (map2 (\<lambda>i c. item_of now runID (fresh i) c) [0..<length cs] cs)" "x = y\<lparr>it_Rank := r\<rparr>"
    using assms unfolding portfolio_Rank_def by (metis set_sort_by)
  then show ?thesis using that by (auto dest: set_zip_rightD)
qed

lemma portfolio_Rank_facts:
  "mset (map it_CaseID (portfolio_Rank fresh cs now runID)) = mset (map pc_CaseID cs)"
  "map it_Rank (portfolio_Rank fresh cs now runID) = [1 .. int (length cs)]"
proof -
  let ?xs = "map2 (\<lambda>i c. item_of now runID (fresh i) c) [0..<length cs] cs"
  have "map it_CaseID (portfolio_Rank fresh cs now runID) = map it_CaseID (sort_by item_less ?xs)"
    unfolding portfolio_Rank_def by (rule map_set_item_ranks) simp
  then have "mset (map it_CaseID (portfolio_Rank fresh cs now runID)) = mset (map it_CaseID ?xs)" by (metis mset_map mset_sort_by)
  then show "mset (map it_CaseID (portfolio_Rank fresh cs now runID)) = mset (map pc_CaseID cs)" unfolding cases_of_items by simp
  have "length ?xs = length cs" by simp
  then show "map it_Rank (portfolio_Rank fresh cs now runID) = [1 .. int (length cs)]"
    unfolding portfolio_Rank_def set_item_ranks_facts length_sort_by by simp
qed

text \<open>The ids of the items are those drawn for the candidates.\<close>

lemma portfolio_Rank_ids:
  "mset (map it_ID (portfolio_Rank fresh cs now runID)) = mset (map fresh [0..<length cs])"
proof -
  let ?xs = "map2 (\<lambda>i c. item_of now runID (fresh i) c) [0..<length cs] cs"
  have "map it_ID (map2 (\<lambda>i c. item_of now runID (fresh i) c) is cs) = map fresh (take (length cs) is)" for "is"
    by (induction "is" cs rule: list_induct2') (auto simp: item_of_def Let_def)
  then have ids: "map it_ID ?xs = map fresh [0..<length cs]" by simp
  have "map it_ID (portfolio_Rank fresh cs now runID) = map it_ID (sort_by item_less ?xs)"
    unfolding portfolio_Rank_def by (rule map_set_item_ranks) simp
  then show ?thesis using ids by (metis mset_map mset_sort_by)
qed

text \<open>The priority run lists every candidate case exactly once, numbered from 1, by falling
  score, then falling net value, then case id; and with net values below \<open>2 ^ 62\<close> no urgency or
  recoverability changes the sign of a score or more than doubles it, so a case that loses
  money never precedes one that gains.\<close>

theorem priority_run_sound:
  fixes fresh :: "nat \<Rightarrow> ID" and now :: time and runID :: ID
  assumes "\<forall>c \<in> set cs. \<bar>pc_ExpectedNERVMinor c\<bar> < 2 ^ 62"
  defines "items \<equiv> portfolio_Rank fresh cs now runID"
  shows "mset (map it_CaseID items) = mset (map pc_CaseID cs)
    \<and> map it_Rank items = [1 .. int (length cs)]
    \<and> sorted_wrt (\<lambda>a b. it_PriorityScoreMinor b \<le> it_PriorityScoreMinor a \<and> \<not> item_less b a) items
    \<and> (\<forall>x \<in> set items. \<bar>it_PriorityScoreMinor x\<bar> \<le> 2 * \<bar>it_ExpectedNERVMinor x\<bar>
        \<and> (0 < it_PriorityScoreMinor x \<longrightarrow> 0 < it_ExpectedNERVMinor x)
        \<and> (it_PriorityScoreMinor x < 0 \<longrightarrow> it_ExpectedNERVMinor x < 0))"
proof (intro conjI)
  show "mset (map it_CaseID items) = mset (map pc_CaseID cs)" "map it_Rank items = [1 .. int (length cs)]"
    unfolding items_def by (rule portfolio_Rank_facts)+
  have "ordered item_less items"
    unfolding items_def portfolio_Rank_def
    by (intro ordered_set_item_ranks priority.ordered_sort_by) simp
  then show "sorted_wrt (\<lambda>a b. it_PriorityScoreMinor b \<le> it_PriorityScoreMinor a \<and> \<not> item_less b a) items"
    by (rule sorted_wrt_mono_rel [rotated]) (auto simp: item_less_def split: if_splits)
  show "\<forall>x \<in> set items. \<bar>it_PriorityScoreMinor x\<bar> \<le> 2 * \<bar>it_ExpectedNERVMinor x\<bar>
        \<and> (0 < it_PriorityScoreMinor x \<longrightarrow> 0 < it_ExpectedNERVMinor x)
        \<and> (it_PriorityScoreMinor x < 0 \<longrightarrow> it_ExpectedNERVMinor x < 0)"
  proof
    fix x assume "x \<in> set items"
    then obtain c i r where x: "c \<in> set cs" "x = (item_of now runID (fresh i) c)\<lparr>it_Rank := r\<rparr>"
      unfolding items_def by (rule portfolio_items)
    have "it_ExpectedNERVMinor x = pc_ExpectedNERVMinor c" by (simp add: x(2) item_of_def Let_def)
    moreover have "it_PriorityScoreMinor x = it_PriorityScoreMinor (item_of now runID (fresh i) c)"
      by (simp add: x(2))
    moreover have "\<bar>pc_ExpectedNERVMinor c\<bar> < 2 ^ 62" using assms(1) x(1) by blast
    ultimately show "\<bar>it_PriorityScoreMinor x\<bar> \<le> 2 * \<bar>it_ExpectedNERVMinor x\<bar>
        \<and> (0 < it_PriorityScoreMinor x \<longrightarrow> 0 < it_ExpectedNERVMinor x)
        \<and> (it_PriorityScoreMinor x < 0 \<longrightarrow> it_ExpectedNERVMinor x < 0)"
      using item_score [of c now runID "fresh i"] by linarith
  qed
qed

definition example_case :: "string \<Rightarrow> int \<Rightarrow> PortfolioCandidate" where
  "example_case i nerv = \<lparr>pc_MerchantID = ''m'', pc_CaseID = i, pc_DecisionID = [], pc_Action = ActionSendReminder,
     pc_AmountAtRiskMinor = 10000, pc_ExpectedIncrementalValueMinor = nerv, pc_ExpectedNERVMinor = nerv,
     pc_Deadline = 10 * Hour, pc_ArrivalAt = 0, pc_RecoverabilityBPS = 5000\<rparr>"

theorem priority_run_sound_witness:
  "map it_Rank (portfolio_Rank (\<lambda>_. ''x'') [example_case ''a'' 500, example_case ''b'' 900] 0 ''r'') = [1 .. 2]"
  using priority_run_sound [of "[example_case ''a'' 500, example_case ''b'' 900]" "\<lambda>_. ''x''" 0 "''r''"]
  by (simp add: example_case_def)

end
