(* ===== verification/Budget.thy ===== *)
theory Budget
  imports Portfolio
begin

text \<open>
  Package \<open>budget\<close> (\<open>internal/budget/budget.go\<close>): a priority run is spent against a merchant's
  limits, either greedily by value per unit of cost or first come, first served. Totals are
  64-bit sums. \<open>fresh 0\<close> is the run's id and \<open>fresh (k + 1)\<close> the id of allocation \<open>k\<close>.
\<close>

record Limits =
  SpendMinor :: int
  Contacts :: int
  Retries :: int
  DiscountMinor :: int
  HumanReviews :: int

record Allocation =
  al_ID :: ID
  al_RunID :: ID
  al_CaseID :: ID
  al_DecisionID :: ID
  al_Action :: ActionType
  al_ExpectedIncrementalValueMinor :: int
  al_ExpectedNERVMinor :: int
  al_ExpectedCostMinor :: int
  al_ResourceConsumption :: Limits
  al_Rank :: int
  al_Included :: bool
  al_ExclusionReason :: string
  al_CreatedAt :: time

record BudgetRun =
  br_ID :: ID
  br_MerchantID :: ID
  br_AlgorithmVersion :: string
  br_PriorityRunID :: ID
  br_Budget :: Limits
  br_Totals :: Limits
  br_CreatedAt :: time
  br_Allocations :: "Allocation list"

abbreviation GreedyVersion :: string where "GreedyVersion \<equiv> ''budget-greedy-v1''"
abbreviation FCFSVersion :: string where "FCFSVersion \<equiv> ''budget-fcfs-v1''"

definition no_limits :: Limits where
  "no_limits = \<lparr>SpendMinor = 0, Contacts = 0, Retries = 0, DiscountMinor = 0, HumanReviews = 0\<rparr>"

fun resources :: "ActionType \<Rightarrow> Limits" where
  "resources ActionRetryNow = no_limits\<lparr>SpendMinor := 35, Retries := 1\<rparr>"
| "resources ActionRetryLater = no_limits\<lparr>SpendMinor := 35, Retries := 1\<rparr>"
| "resources ActionSendReminder = no_limits\<lparr>SpendMinor := 25, Contacts := 1\<rparr>"
| "resources ActionSendPaymentLink = no_limits\<lparr>SpendMinor := 70, Contacts := 1\<rparr>"
| "resources ActionSendCheckoutRecoveryLink = no_limits\<lparr>SpendMinor := 70, Contacts := 1\<rparr>"
| "resources ActionRetention = no_limits\<lparr>SpendMinor := 100, DiscountMinor := 3000, Contacts := 1\<rparr>"
| "resources ActionEscalateToHuman = no_limits\<lparr>HumanReviews := 1\<rparr>"
| "resources _ = no_limits"

definition at_least_1 :: "int \<Rightarrow> int" where
  "at_least_1 c = (if c < 1 then 1 else c)"

definition greedy_less :: "Item \<Rightarrow> Item \<Rightarrow> bool" where
  "greedy_less a b =
     (let di = at_least_1 (SpendMinor (resources (it_Action a)));
          dj = at_least_1 (SpendMinor (resources (it_Action b)));
          left = i64 (it_ExpectedNERVMinor a * dj);
          right = i64 (it_ExpectedNERVMinor b * di)
      in if left \<noteq> right then right < left else it_Rank a < it_Rank b)"

definition fcfs_less :: "Item \<Rightarrow> Item \<Rightarrow> bool" where
  "fcfs_less a b =
     (if it_ArrivalAt a \<noteq> it_ArrivalAt b then it_ArrivalAt a < it_ArrivalAt b else it_CaseID a < it_CaseID b)"

text \<open>The \<open>switch\<close>: why an item does not fit, or the empty string.\<close>

definition exhausted :: "Limits \<Rightarrow> Limits \<Rightarrow> Limits \<Rightarrow> string" where
  "exhausted limits totals r =
     (if SpendMinor limits < i64 (SpendMinor totals + SpendMinor r) then ''SPEND_BUDGET_EXHAUSTED''
      else if Contacts limits < i64 (Contacts totals + Contacts r) then ''CONTACT_CAPACITY_EXHAUSTED''
      else if Retries limits < i64 (Retries totals + Retries r) then ''RETRY_CAPACITY_EXHAUSTED''
      else if DiscountMinor limits < i64 (DiscountMinor totals + DiscountMinor r) then ''DISCOUNT_BUDGET_EXHAUSTED''
      else if HumanReviews limits < i64 (HumanReviews totals + HumanReviews r) then ''HUMAN_REVIEW_CAPACITY_EXHAUSTED''
      else [])"

definition consume :: "Limits \<Rightarrow> Limits \<Rightarrow> Limits" where
  "consume totals r =
     \<lparr>SpendMinor = i64 (SpendMinor totals + SpendMinor r), Contacts = i64 (Contacts totals + Contacts r),
      Retries = i64 (Retries totals + Retries r), DiscountMinor = i64 (DiscountMinor totals + DiscountMinor r),
      HumanReviews = i64 (HumanReviews totals + HumanReviews r)\<rparr>"

definition allocation_of :: "(nat \<Rightarrow> ID) \<Rightarrow> time \<Rightarrow> nat \<Rightarrow> Item \<Rightarrow> string \<Rightarrow> Allocation" where
  "allocation_of fresh now index item reason =
     \<lparr>al_ID = fresh (Suc index), al_RunID = fresh 0, al_CaseID = it_CaseID item, al_DecisionID = it_DecisionID item,
      al_Action = it_Action item, al_ExpectedIncrementalValueMinor = it_ExpectedIncrementalValueMinor item,
      al_ExpectedNERVMinor = it_ExpectedNERVMinor item,
      al_ExpectedCostMinor = SpendMinor (resources (it_Action item)),
      al_ResourceConsumption = resources (it_Action item), al_Rank = int index + 1,
      al_Included = (reason = []), al_ExclusionReason = reason, al_CreatedAt = now\<rparr>"

fun allocate_loop :: "(nat \<Rightarrow> ID) \<Rightarrow> time \<Rightarrow> Limits \<Rightarrow> nat \<Rightarrow> Limits \<Rightarrow> Item list \<Rightarrow> Limits \<times> Allocation list" where
  "allocate_loop fresh now limits index totals [] = (totals, [])"
| "allocate_loop fresh now limits index totals (item # items) =
     (let r = resources (it_Action item);
          reason = exhausted limits totals r;
          totals' = (if reason = [] then consume totals r else totals);
          (final, rest) = allocate_loop fresh now limits (Suc index) totals' items
      in (final, allocation_of fresh now index item reason # rest))"

definition Allocate :: "(nat \<Rightarrow> ID) \<Rightarrow> Item list \<Rightarrow> Limits \<Rightarrow> string \<Rightarrow> time \<Rightarrow> ID \<Rightarrow> ID \<Rightarrow> BudgetRun" where
  "Allocate fresh items limits algorithm now merchantID priorityRunID =
     (let (algorithm, ordered_items) =
            (if algorithm = GreedyVersion then (algorithm, sort_by greedy_less items)
             else (FCFSVersion, sort_by fcfs_less items));
          (totals, allocations) = allocate_loop fresh now limits 0 no_limits ordered_items
      in \<lparr>br_ID = fresh 0, br_MerchantID = merchantID, br_AlgorithmVersion = algorithm,
          br_PriorityRunID = priorityRunID, br_Budget = limits, br_Totals = totals, br_CreatedAt = now,
          br_Allocations = allocations\<rparr>)"

definition budget_Run ::
  "('s \<Rightarrow> ID \<Rightarrow> ('e, Item list) result) \<Rightarrow> ('s \<Rightarrow> BudgetRun \<Rightarrow> ('e, 's) result) \<Rightarrow> (nat \<Rightarrow> ID)
    \<Rightarrow> time \<Rightarrow> 's \<Rightarrow> ID \<Rightarrow> ID \<Rightarrow> string \<Rightarrow> Limits \<Rightarrow> ('e, BudgetRun \<times> 's) result" where
  "budget_Run load save fresh now s merchantID priorityRunID algorithm limits =
     (case load s priorityRunID of Inl e \<Rightarrow> Inl e
      | Inr items \<Rightarrow>
          (let run = Allocate fresh items limits algorithm now merchantID priorityRunID
           in case save s run of Inl e \<Rightarrow> Inl e | Inr s' \<Rightarrow> Inr (run, s')))"

section \<open>Resource vectors\<close>

named_theorems limit_simps

definition add_limits :: "Limits \<Rightarrow> Limits \<Rightarrow> Limits" where [limit_simps]:
  "add_limits t r = \<lparr>SpendMinor = SpendMinor t + SpendMinor r, Contacts = Contacts t + Contacts r,
     Retries = Retries t + Retries r, DiscountMinor = DiscountMinor t + DiscountMinor r,
     HumanReviews = HumanReviews t + HumanReviews r\<rparr>"

definition leq_limits :: "Limits \<Rightarrow> Limits \<Rightarrow> bool" where [limit_simps]:
  "leq_limits t l \<longleftrightarrow> SpendMinor t \<le> SpendMinor l \<and> Contacts t \<le> Contacts l \<and> Retries t \<le> Retries l
     \<and> DiscountMinor t \<le> DiscountMinor l \<and> HumanReviews t \<le> HumanReviews l"

text \<open>Limits a caller may set: not negative, and small enough that no sum wraps.\<close>

definition sane_limits :: "Limits \<Rightarrow> bool" where
  "sane_limits l \<longleftrightarrow> leq_limits no_limits l
     \<and> leq_limits l \<lparr>SpendMinor = 2 ^ 62, Contacts = 2 ^ 62, Retries = 2 ^ 62, DiscountMinor = 2 ^ 62, HumanReviews = 2 ^ 62\<rparr>"

lemma leq_limits_refl [simp]: "leq_limits l l"
  by (simp add: limit_simps)

lemma leq_limits_trans: "leq_limits a b \<Longrightarrow> leq_limits b c \<Longrightarrow> leq_limits a c"
  by (auto simp: limit_simps)

lemma leq_add_limits: "leq_limits no_limits r \<Longrightarrow> leq_limits t (add_limits t r)"
  by (simp add: limit_simps no_limits_def)

lemma leq_add_mono: "leq_limits t u \<Longrightarrow> leq_limits (add_limits t r) (add_limits u r)"
  by (simp add: limit_simps)

lemma resources_range:
  "leq_limits no_limits (resources a)"
  "leq_limits (resources a) \<lparr>SpendMinor = 100, Contacts = 1, Retries = 1, DiscountMinor = 3000, HumanReviews = 1\<rparr>"
  by (cases a; simp add: limit_simps no_limits_def)+

lemma consume_fits:
  assumes "sane_limits l" "leq_limits no_limits t" "leq_limits t l"
  shows "exhausted l t (resources a) = [] \<longleftrightarrow> leq_limits (add_limits t (resources a)) l"
    and "consume t (resources a) = add_limits t (resources a)"
  using assms resources_range [of a]
  by (auto simp: sane_limits_def limit_simps no_limits_def exhausted_def consume_def i64_id_bounds)

section \<open>The allocation loop\<close>

lemma allocate_loop_items:
  assumes "allocate_loop fresh now limits index totals items = (final, as)"
  shows "map al_CaseID as = map it_CaseID items" "map al_Action as = map it_Action items"
    "map al_ResourceConsumption as = map (\<lambda>x. resources (it_Action x)) items"
    "map al_Rank as = [int index + 1 .. int index + int (length items)]"
    "\<forall>x \<in> set as. al_Included x = (al_ExclusionReason x = [])"
  using assms
  by (induction items arbitrary: index totals final as)
    (auto simp: Let_def allocation_of_def upto_rec1 algebra_simps split: prod.splits)

lemma allocate_loop_totals:
  assumes "sane_limits limits" "leq_limits no_limits totals" "leq_limits totals limits"
    and "allocate_loop fresh now limits index totals items = (final, as)"
  shows "leq_limits totals final \<and> leq_limits final limits
    \<and> final = foldl add_limits totals (map al_ResourceConsumption (filter al_Included as))
    \<and> (\<forall>x \<in> set as. \<not> al_Included x \<longrightarrow> \<not> leq_limits (add_limits final (al_ResourceConsumption x)) limits)"
  using assms
proof (induction items arbitrary: index totals final as)
  case Nil
  then show ?case by simp
next
  case (Cons item items)
  define r where "r = resources (it_Action item)"
  define t' where "t' = (if exhausted limits totals r = [] then consume totals r else totals)"
  obtain as' where as: "allocate_loop fresh now limits (Suc index) t' items = (final, as')"
    "as = allocation_of fresh now index item (exhausted limits totals r) # as'"
    using Cons.prems(4) by (auto simp only: allocate_loop.simps Let_def r_def t'_def split: prod.splits)
  note fit = consume_fits [OF Cons.prems(1-3), of "it_Action item", folded r_def]
  have step: "leq_limits totals t'" "leq_limits t' limits"
    using fit Cons.prems(3) leq_add_limits [OF resources_range(1)] by (auto simp: t'_def r_def)
  have t': "leq_limits no_limits t'" using Cons.prems(2) step(1) by (rule leq_limits_trans)
  note IH = Cons.IH [OF Cons.prems(1) t' step(2) as(1)]
  show ?case
  proof (intro conjI ballI impI)
    show "leq_limits totals final" using IH step(1) leq_limits_trans by blast
    show "leq_limits final limits" using IH by blast
    show "final = foldl add_limits totals (map al_ResourceConsumption (filter al_Included as))"
      using IH fit by (auto simp: as(2) allocation_of_def t'_def r_def)
    fix x assume x: "x \<in> set as" "\<not> al_Included x"
    show "\<not> leq_limits (add_limits final (al_ResourceConsumption x)) limits"
    proof (cases "x \<in> set as'")
      case True
      then show ?thesis using IH x(2) by blast
    next
      case False
      then have "al_ResourceConsumption x = r" "exhausted limits totals r \<noteq> []"
        using x by (auto simp: as(2) allocation_of_def r_def)
      moreover have "leq_limits (add_limits totals r) (add_limits final r)"
        using IH step(1) leq_limits_trans leq_add_mono by blast
      ultimately show ?thesis using fit(1) leq_limits_trans by metis
    qed
  qed
qed

section \<open>The two orders\<close>

text \<open>Value per unit of cost; the source compares it by cross-multiplication.\<close>

definition unit_cost :: "Item \<Rightarrow> int" where
  "unit_cost x = at_least_1 (SpendMinor (resources (it_Action x)))"

definition density :: "Item \<Rightarrow> rat" where
  "density x = of_int (it_ExpectedNERVMinor x) / of_int (unit_cost x)"

lemma unit_cost_range: "1 \<le> unit_cost x" "unit_cost x \<le> 100"
  using resources_range [of "it_Action x"] by (auto simp: unit_cost_def at_least_1_def limit_simps)

abbreviation bounded_items :: "Item set" where
  "bounded_items \<equiv> {x. \<bar>it_ExpectedNERVMinor x\<bar> \<le> 2 ^ 56}"

lemma cross_product: "x \<in> bounded_items \<Longrightarrow> i64 (it_ExpectedNERVMinor x * unit_cost y) = it_ExpectedNERVMinor x * unit_cost y"
proof (rule i64_id)
  assume "x \<in> bounded_items"
  then have "\<bar>it_ExpectedNERVMinor x * unit_cost y\<bar> \<le> 2 ^ 56 * 100"
    unfolding abs_mult using unit_cost_range [of y] by (intro mult_mono) auto
  then show "in_i64 (it_ExpectedNERVMinor x * unit_cost y)" unfolding in_i64_def abs_le_iff by auto
qed

lemma greedy_density:
  assumes "a \<in> bounded_items" "b \<in> bounded_items"
  shows "greedy_less a b = (if density a \<noteq> density b then density b < density a else it_Rank a < it_Rank b)"
proof -
  have p: "(0::rat) < of_int (unit_cost a)" "(0::rat) < of_int (unit_cost b)"
    using unit_cost_range [of a] unit_cost_range [of b] by simp_all
  have e: "density a = density b \<longleftrightarrow> it_ExpectedNERVMinor a * unit_cost b = it_ExpectedNERVMinor b * unit_cost a"
    using p unfolding density_def by (simp add: field_simps flip: of_int_mult)
  have l: "density b < density a \<longleftrightarrow> it_ExpectedNERVMinor b * unit_cost a < it_ExpectedNERVMinor a * unit_cost b"
    using p unfolding density_def by (simp add: field_simps flip: of_int_mult)
  show ?thesis
    unfolding greedy_less_def Let_def unit_cost_def [symmetric] cross_product [OF assms(1)] cross_product [OF assms(2)] e l ..
qed

interpretation greedy: weak_order bounded_items greedy_less
  by unfold_locales (simp_all only: greedy_density, auto split: if_splits)

interpretation fcfs: weak_order UNIV fcfs_less
  by unfold_locales (auto simp: fcfs_less_def split: if_splits)

section \<open>Properties\<close>

lemma Allocate_run:
  obtains final as xs where
    "allocate_loop fresh now limits 0 no_limits xs = (final, as)"
    "br_Totals (Allocate fresh items limits algorithm now m p) = final"
    "br_Allocations (Allocate fresh items limits algorithm now m p) = as" "mset xs = mset items"
    "algorithm = GreedyVersion \<Longrightarrow> xs = sort_by greedy_less items"
    "algorithm \<noteq> GreedyVersion \<Longrightarrow> xs = sort_by fcfs_less items"
proof -
  define xs where "xs = (if algorithm = GreedyVersion then sort_by greedy_less items else sort_by fcfs_less items)"
  obtain final as where r: "allocate_loop fresh now limits 0 no_limits xs = (final, as)" by fastforce
  then have "br_Totals (Allocate fresh items limits algorithm now m p) = final"
    "br_Allocations (Allocate fresh items limits algorithm now m p) = as"
    unfolding Allocate_def xs_def by (simp_all split: if_splits)
  moreover have "mset xs = mset items" by (simp add: xs_def)
  ultimately show ?thesis using that r by (simp add: xs_def)
qed

text \<open>C4. A budget run never exceeds a limit, for either algorithm: every item of the priority
  run is allocated or excluded exactly once, the totals are the sum of what the included
  items consume and stay within every limit, and the run wastes nothing: an excluded item
  does not fit into what is left at the end either.\<close>

theorem allocation_within_budget:
  fixes items :: "Item list" and fresh :: "nat \<Rightarrow> ID" and algorithm :: string and now :: time and m p :: ID
  assumes "sane_limits limits"
  defines "run \<equiv> Allocate fresh items limits algorithm now m p"
  shows "leq_limits (br_Totals run) limits
    \<and> br_Totals run = foldl add_limits no_limits (map al_ResourceConsumption (filter al_Included (br_Allocations run)))
    \<and> mset (map al_CaseID (br_Allocations run)) = mset (map it_CaseID items)
    \<and> (\<forall>x \<in> set (br_Allocations run). al_ResourceConsumption x = resources (al_Action x)
         \<and> al_Included x = (al_ExclusionReason x = []))
    \<and> (\<forall>x \<in> set (br_Allocations run). \<not> al_Included x \<longrightarrow>
         \<not> leq_limits (add_limits (br_Totals run) (al_ResourceConsumption x)) limits)"
proof -
  obtain final as xs where l: "allocate_loop fresh now limits 0 no_limits xs = (final, as)"
    and r: "br_Totals run = final" "br_Allocations run = as" and xs: "mset xs = mset items"
    unfolding run_def by (rule Allocate_run)
  have n: "leq_limits no_limits limits" using assms(1) by (simp add: sane_limits_def)
  note i = allocate_loop_items [OF l] and t = allocate_loop_totals [OF assms(1) leq_limits_refl n l]
  have "map al_ResourceConsumption as = map (resources \<circ> al_Action) as"
    unfolding i(3) map_map [symmetric] i(2) by simp
  then have "\<forall>x \<in> set as. al_ResourceConsumption x = resources (al_Action x)" by simp
  moreover have "mset (map al_CaseID as) = mset (map it_CaseID items)"
    unfolding i(1) by (simp add: xs)
  ultimately show ?thesis unfolding r using i(5) t by blast
qed

definition example_item :: "string \<Rightarrow> ActionType \<Rightarrow> int \<Rightarrow> int \<Rightarrow> Item" where
  "example_item i a nerv rank = (item_of 0 ''r'' i (example_case i nerv))\<lparr>it_Action := a, it_Rank := rank\<rparr>"

abbreviation example_limits :: Limits where
  "example_limits \<equiv> no_limits\<lparr>SpendMinor := 60, Contacts := 1, Retries := 1\<rparr>"

abbreviation example_items :: "Item list" where
  "example_items \<equiv> [example_item ''a'' ActionSendReminder 500 1, example_item ''b'' ActionSendPaymentLink 900 2,
     example_item ''c'' ActionRetryNow 300 3]"

lemma example_limits_sane: "sane_limits example_limits"
  by (simp add: sane_limits_def limit_simps no_limits_def)

theorem allocation_within_budget_witness:
  "leq_limits (br_Totals (Allocate (\<lambda>_. ''x'') example_items example_limits GreedyVersion 0 ''m'' ''r'')) example_limits"
  using allocation_within_budget [OF example_limits_sane] by blast

text \<open>Under the greedy algorithm the plan is considered by falling value per unit of cost
  (an action without a cost counts as one unit), equal densities by priority rank: computed
  by 64-bit cross-multiplication, this is the order of the exact quotients for net values up
  to \<open>2 ^ 56\<close>.\<close>

theorem greedy_by_density:
  fixes fresh :: "nat \<Rightarrow> ID" and now :: time and m p :: ID
  assumes "\<forall>x \<in> set items. \<bar>it_ExpectedNERVMinor x\<bar> \<le> 2 ^ 56"
  shows "\<exists>xs. mset xs = mset items
    \<and> map al_CaseID (br_Allocations (Allocate fresh items limits GreedyVersion now m p)) = map it_CaseID xs
    \<and> sorted_wrt (\<lambda>a b. density b < density a \<or> density a = density b \<and> it_Rank a \<le> it_Rank b) xs"
proof -
  obtain final as xs where l: "allocate_loop fresh now limits 0 no_limits xs = (final, as)"
    and r: "br_Allocations (Allocate fresh items limits GreedyVersion now m p) = as"
    and xs: "mset xs = mset items" "xs = sort_by greedy_less items"
    by (rule Allocate_run [of fresh now limits items GreedyVersion m p]) simp
  have b: "set items \<subseteq> bounded_items" using assms by blast
  have o: "ordered greedy_less xs" unfolding xs(2) by (rule greedy.ordered_sort_by [OF b])
  have s: "x \<in> bounded_items" if "x \<in> set xs" for x using that b by (auto simp: xs(2))
  have "sorted_wrt (\<lambda>a b. density b < density a \<or> density a = density b \<and> it_Rank a \<le> it_Rank b) xs"
  proof (rule sorted_wrt_mono_rel [OF _ o])
    fix x y assume "x \<in> set xs" "y \<in> set xs" "\<not> greedy_less y x"
    then show "density y < density x \<or> density x = density y \<and> it_Rank x \<le> it_Rank y"
      using greedy_density [OF s s, of y x] by (auto split: if_splits)
  qed
  then show ?thesis using xs(1) allocate_loop_items(1) [OF l] r by auto
qed

theorem greedy_by_density_witness:
  "\<exists>xs. mset xs = mset example_items
    \<and> map al_CaseID (br_Allocations (Allocate (\<lambda>_. ''x'') example_items example_limits GreedyVersion 0 ''m'' ''r''))
       = map it_CaseID xs"
  using greedy_by_density [of example_items "\<lambda>_. ''x''" example_limits 0 "''m''" "''r''"]
  by (simp add: example_item_def example_case_def item_of_def Let_def) blast

text \<open>Two contact actions of the executor and of the optimizer's cost table,
  REQUEST_PAYMENT_METHOD_UPDATE and SUGGEST_ALTERNATE_METHOD, consume no budget at all: a
  plan made of them is included in full whatever its length and whatever the limits, even
  with a contact capacity and a spend limit of zero.\<close>

theorem unmetered_contacts:
  fixes algorithm :: string
  assumes "sane_limits limits"
    and "\<forall>x \<in> set items. it_Action x \<in> {ActionRequestPaymentMethodUpdate, ActionSuggestAlternateMethod}"
  shows "list_all al_Included (br_Allocations (Allocate fresh items limits algorithm now m p))"
  unfolding list_all_iff
proof
  fix x assume x: "x \<in> set (br_Allocations (Allocate fresh items limits algorithm now m p))"
  obtain final as xs where l: "allocate_loop fresh now limits 0 no_limits xs = (final, as)"
    and r: "br_Totals (Allocate fresh items limits algorithm now m p) = final"
      "br_Allocations (Allocate fresh items limits algorithm now m p) = as" and xs: "mset xs = mset items"
    by (rule Allocate_run [of fresh now limits items algorithm m p]) simp
  have n: "leq_limits no_limits limits" using assms(1) by (simp add: sane_limits_def)
  note i = allocate_loop_items [OF l] and t = allocate_loop_totals [OF assms(1) leq_limits_refl n l]
  have "set xs = set items" using xs by (metis set_mset_mset)
  then have "set (map (\<lambda>x. resources (it_Action x)) xs) \<subseteq> {no_limits}"
    using assms(2) by auto
  then have "al_ResourceConsumption x = no_limits"
    using x unfolding r i(3) [symmetric] by auto
  moreover have "add_limits final no_limits = final" by (simp add: limit_simps no_limits_def)
  ultimately show "al_Included x" using t x r by metis
qed

theorem unmetered_contacts_witness:
  "list_all al_Included (br_Allocations (Allocate (\<lambda>_. ''x'') (replicate 50 (example_item ''a'' ActionSuggestAlternateMethod 500 1))
     no_limits GreedyVersion 0 ''m'' ''r''))"
proof (rule unmetered_contacts)
  show "sane_limits no_limits" by (simp add: sane_limits_def limit_simps no_limits_def)
qed (simp add: example_item_def)

end
