(* ===== verification/Planning.thy ===== *)
theory Planning
  imports Budget Decision_Store
begin

text \<open>
  What the priority and the budget service read and write (\<open>internal/store/portfolio.go\<close>): the
  open cases with their latest decision, the priority snapshots and the budget runs. The tables
  of a plan stand beside the database, which planning only reads. Every case, decision and
  merchant of a snapshot comes from a row of the database, so its foreign keys hold; the merchant
  of a budget run comes from the caller. A snapshot has no column for the arrival time: it is
  read back from the explanation.
\<close>

section \<open>The tables\<close>

record Plans =
  pn_db :: Database
  pn_priorities :: "Item list"
  pn_runs :: "BudgetRun list"
  pn_allocations :: "Allocation list"

text \<open>The join of a case's decisions with their candidate at position 1, the newest decision first
  (decisions of one instant by id, where the query leaves it open).\<close>

definition first_choice :: "DecisionRow \<Rightarrow> Candidate option" where
  "first_choice r = find (\<lambda>k. cd_Rank k = 1) (rr_Candidates (de_Optimization (dr_Decision r)))"

definition ranked_decisions :: "Database \<Rightarrow> ID \<Rightarrow> (DecisionRow \<times> Candidate) list" where
  "ranked_decisions db i = List.map_filter
     (\<lambda>r. if de_CaseID (dr_Decision r) = i then map_option (Pair r) (first_choice r) else None) (db_decisions db)"

definition latest_choice :: "Database \<Rightarrow> ID \<Rightarrow> (DecisionRow \<times> Candidate) option" where
  "latest_choice db i = newest (\<lambda>(r, _). rr_CreatedAt (de_Optimization (dr_Decision r))) (\<lambda>(r, _). de_ID (dr_Decision r))
     (ranked_decisions db i)"

definition planned_states :: "CaseState set" where
  "planned_states = {StateActionPending, StatePolicyReview, StateScheduled, StateWaitingOutcome, StateReassessing}"

text \<open>\<open>ROUND\<close> of a double rounds halves to even.\<close>

definition portfolio_row :: "RecoveryCase \<Rightarrow> DecisionRow \<times> Candidate \<Rightarrow> PortfolioCandidate" where
  "portfolio_row c = (\<lambda>(r, k). \<lparr>pc_MerchantID = rc_MerchantID c, pc_CaseID = rc_ID c, pc_DecisionID = de_ID (dr_Decision r),
     pc_Action = cd_Action k, pc_AmountAtRiskMinor = rc_AmountAtRiskMinor c,
     pc_ExpectedIncrementalValueMinor = cd_GrossIncrementalValueMinor k, pc_ExpectedNERVMinor = cd_NERVMinor k,
     pc_Deadline = rc_RecoveryDeadline c, pc_ArrivalAt = rc_CreatedAt c,
     pc_RecoverabilityBPS = rne (fmul (cd_ActionRecoveryProbability k) 10000)\<rparr>)"

definition planned_row :: "Database \<Rightarrow> ID \<Rightarrow> RecoveryCase \<Rightarrow> PortfolioCandidate option" where
  "planned_row db merchantID c =
     (if rc_MerchantID c = merchantID \<and> rc_CurrentState c \<in> planned_states
      then map_option (portfolio_row c) (latest_choice db (rc_ID c)) else None)"

definition LoadPortfolioCandidates :: "Plans \<Rightarrow> ID \<Rightarrow> (error, PortfolioCandidate list) result" where
  "LoadPortfolioCandidates s merchantID =
     Inr (sort_by (\<lambda>a b. pc_CaseID a < pc_CaseID b) (List.map_filter (planned_row (pn_db s) merchantID) (db_cases (pn_db s))))"

section \<open>Snapshots\<close>

definition stored_item :: "Item \<Rightarrow> Item" where
  "stored_item x = x\<lparr>it_ArrivalAt := 0\<rparr>"

definition read_item :: "Item \<Rightarrow> Item" where
  "read_item x = x\<lparr>it_ArrivalAt := xp_case_created_at (it_Explanation x)\<rparr>"

text \<open>One insert per row in a transaction: the first row that clashes with a row before it ends it.\<close>

fun insert_all :: "string \<Rightarrow> ('r \<Rightarrow> 'r \<Rightarrow> bool) \<Rightarrow> 'r list \<Rightarrow> 'r list \<Rightarrow> (error, 'r list) result" where
  "insert_all name clash [] t = Inr t"
| "insert_all name clash (x # xs) t = (case insert_row name clash x t of Inl e \<Rightarrow> Inl e | Inr t' \<Rightarrow> insert_all name clash xs t')"

definition same_snapshot :: "Item \<Rightarrow> Item \<Rightarrow> bool" where
  "same_snapshot x y \<longleftrightarrow> it_ID y = it_ID x \<or> it_RunID y = it_RunID x \<and> it_CaseID y = it_CaseID x"

definition SavePortfolioPriority :: "Plans \<Rightarrow> Item list \<Rightarrow> (error, Plans) result" where
  "SavePortfolioPriority s items =
     (if items = [] then Inr s
      else case insert_all ''portfolio_priority_snapshots_key'' same_snapshot (map stored_item items) (pn_priorities s) of Inl e \<Rightarrow> Inl e | Inr t \<Rightarrow> Inr (s\<lparr>pn_priorities := t\<rparr>))"

definition LoadPriorityRun :: "Plans \<Rightarrow> ID \<Rightarrow> (error, Item list) result" where
  "LoadPriorityRun s runID =
     Inr (map read_item (sort_by (\<lambda>a b. it_Rank a < it_Rank b) (filter (\<lambda>x. it_RunID x = runID) (pn_priorities s))))"

section \<open>Budget runs\<close>

definition same_allocation :: "Allocation \<Rightarrow> Allocation \<Rightarrow> bool" where
  "same_allocation x y \<longleftrightarrow> al_ID y = al_ID x \<or> al_RunID y = al_RunID x \<and> al_CaseID y = al_CaseID x"

definition SaveBudgetRun :: "Plans \<Rightarrow> BudgetRun \<Rightarrow> (error, Plans) result" where
  "SaveBudgetRun s run =
     (case insert_row ''budget_allocation_runs_pkey'' (\<lambda>r y. br_ID y = br_ID r) (run\<lparr>br_Allocations := []\<rparr>) (pn_runs s) of
        Inl e \<Rightarrow> Inl e
      | Inr runs \<Rightarrow>
          if lookup m_ID (br_MerchantID run) (db_merchants (pn_db s)) = None then Inl (ErrConstraint ''budget_allocation_runs_merchant_id_fkey'')
          else (case insert_all ''budget_allocations_key'' same_allocation (br_Allocations run) (pn_allocations s) of
                  Inl e \<Rightarrow> Inl e
                | Inr t \<Rightarrow> Inr (s\<lparr>pn_runs := runs, pn_allocations := t\<rparr>)))"

text \<open>The two services on these tables.\<close>

definition plan_priorities :: "(nat \<Rightarrow> ID) \<Rightarrow> time \<Rightarrow> Plans \<Rightarrow> ID \<Rightarrow> (error, ID \<times> Item list \<times> Plans) result" where
  "plan_priorities = portfolio_Run LoadPortfolioCandidates SavePortfolioPriority"

definition plan_budget :: "(nat \<Rightarrow> ID) \<Rightarrow> time \<Rightarrow> Plans \<Rightarrow> ID \<Rightarrow> ID \<Rightarrow> string \<Rightarrow> Limits \<Rightarrow> (error, BudgetRun \<times> Plans) result" where
  "plan_budget = budget_Run LoadPriorityRun SaveBudgetRun"

section \<open>Inserting rows\<close>

lemma insert_all_Inr:
  "insert_all name clash xs t = Inr t' \<longleftrightarrow> t' = t @ xs \<and> (\<forall>x \<in> set xs. \<not> list_ex (clash x) t) \<and> sorted_wrt (\<lambda>y x. \<not> clash x y) xs"
proof (induction xs arbitrary: t)
  case (Cons x xs)
  then show ?case by (cases "list_ex (clash x) t") (auto simp: insert_row_def)
qed auto

lemma map_filter_eq: "List.map_filter f xs = map (the \<circ> f) (filter (\<lambda>x. f x \<noteq> None) xs)"
  by (simp add: List.map_filter_def)

lemma ranked_decision:
  "latest_choice db i = Some (r, k) \<Longrightarrow> r \<in> set (db_decisions db) \<and> de_CaseID (dr_Decision r) = i \<and> first_choice r = Some k"
  unfolding latest_choice_def
  by (drule newest_Some) (auto simp: ranked_decisions_def map_filter_eq split: if_splits)

text \<open>The candidates of a merchant are its cases in one of the planned states that have a ranked decision.\<close>

lemma candidates_cases:
  assumes "keyed rc_ID (db_cases (pn_db s))" and "LoadPortfolioCandidates s m = Inr cs"
  shows "distinct (map pc_CaseID cs)"
    and "p \<in> set cs \<longleftrightarrow> (\<exists>c. find_case (pn_db s) (pc_CaseID p) = Some c \<and> planned_row (pn_db s) m c = Some p)"
proof -
  let ?row = "planned_row (pn_db s) m"
  have row: "pc_CaseID p = rc_ID c" if "?row c = Some p" for c p
    using that by (auto simp: planned_row_def portfolio_row_def split: if_splits)
  have cs: "cs = sort_by (\<lambda>a b. pc_CaseID a < pc_CaseID b) (List.map_filter ?row (db_cases (pn_db s)))"
    using assms(2) by (simp add: LoadPortfolioCandidates_def)
  have "map pc_CaseID (List.map_filter ?row t) = map rc_ID (filter (\<lambda>c. ?row c \<noteq> None) t)" for t
    by (induction t) (auto simp: map_filter_eq row)
  then have "distinct (map pc_CaseID (List.map_filter ?row (db_cases (pn_db s))))"
    using assms(1) by (simp add: keyed_def distinct_map_filter)
  then show "distinct (map pc_CaseID cs)"
    unfolding cs by (metis mset_map mset_sort_by mset_eq_imp_distinct_iff)
  show "p \<in> set cs \<longleftrightarrow> (\<exists>c. find_case (pn_db s) (pc_CaseID p) = Some c \<and> ?row c = Some p)"
  proof
    assume "p \<in> set cs"
    then obtain c where c: "c \<in> set (db_cases (pn_db s))" "?row c = Some p" by (force simp: cs map_filter_eq)
    then show "\<exists>c. find_case (pn_db s) (pc_CaseID p) = Some c \<and> ?row c = Some p"
      using lookup_keyed [OF assms(1) c(1)] row [OF c(2)] by (auto simp: find_case_def)
  next
    assume "\<exists>c. find_case (pn_db s) (pc_CaseID p) = Some c \<and> ?row c = Some p"
    then obtain c where c: "find_case (pn_db s) (pc_CaseID p) = Some c" "?row c = Some p" by blast
    then have "c \<in> set (db_cases (pn_db s))" by (auto simp: find_case_def dest: lookup_SomeD)
    then show "p \<in> set cs" using c(2) by (force simp: cs map_filter_eq)
  qed
qed

lemma candidate_source:
  assumes "keyed rc_ID (db_cases (pn_db s))" and "LoadPortfolioCandidates s m = Inr cs" and "p \<in> set cs"
  shows "\<exists>c r k. find_case (pn_db s) (pc_CaseID p) = Some c \<and> rc_MerchantID c = m \<and> rc_CurrentState c \<in> planned_states
      \<and> latest_choice (pn_db s) (pc_CaseID p) = Some (r, k) \<and> p = portfolio_row c (r, k)"
proof -
  obtain c where c: "find_case (pn_db s) (pc_CaseID p) = Some c" "planned_row (pn_db s) m c = Some p"
    using candidates_cases(2) [OF assms(1,2), of p] assms(3) by auto
  then have "rc_ID c = pc_CaseID p" by (auto simp: find_case_def dest: lookup_SomeD)
  then show ?thesis using c by (auto simp: planned_row_def split: if_splits)
qed

lemma candidate_keys:
  assumes "keyed rc_ID (db_cases (pn_db s))" and "LoadPortfolioCandidates s m = Inr cs"
  shows "i \<in> pc_CaseID ` set cs \<longleftrightarrow> (\<exists>c. find_case (pn_db s) i = Some c \<and> rc_MerchantID c = m
    \<and> rc_CurrentState c \<in> planned_states \<and> latest_choice (pn_db s) i \<noteq> None)"
proof
  assume "i \<in> pc_CaseID ` set cs"
  then show "\<exists>c. find_case (pn_db s) i = Some c \<and> rc_MerchantID c = m \<and> rc_CurrentState c \<in> planned_states
      \<and> latest_choice (pn_db s) i \<noteq> None" using candidate_source [OF assms] by fastforce
next
  assume "\<exists>c. find_case (pn_db s) i = Some c \<and> rc_MerchantID c = m \<and> rc_CurrentState c \<in> planned_states
      \<and> latest_choice (pn_db s) i \<noteq> None"
  then obtain c d where c: "find_case (pn_db s) i = Some c" "rc_MerchantID c = m" "rc_CurrentState c \<in> planned_states"
    "latest_choice (pn_db s) i = Some d" by blast
  have i: "rc_ID c = i" using c(1) by (auto simp: find_case_def dest: lookup_SomeD)
  then have "planned_row (pn_db s) m c = Some (portfolio_row c d)" using c by (simp add: planned_row_def)
  moreover have k: "pc_CaseID (portfolio_row c d) = i" using i by (simp add: portfolio_row_def split: prod.splits)
  ultimately have "portfolio_row c d \<in> set cs" using candidates_cases(2) [OF assms, of "portfolio_row c d"] c(1) by simp
  then show "i \<in> pc_CaseID ` set cs" using k by blast
qed

section \<open>Runs are kept\<close>

lemma sort_by_ordered: "ordered lt xs \<Longrightarrow> sort_by lt xs = xs"
proof (induction xs)
  case (Cons x xs)
  then show ?case by (cases xs) auto
qed simp

lemma ranks_ordered: "map it_Rank xs = [n .. m] \<Longrightarrow> ordered (\<lambda>a b. it_Rank a < it_Rank b) xs"
proof (induction xs arbitrary: n)
  case (Cons x xs)
  then have n: "n \<le> m" "it_Rank x = n" "map it_Rank xs = [n + 1 .. m]"
    by (cases "n \<le> m"; simp add: upto_rec1)+
  have "\<not> it_Rank y < it_Rank x" if "y \<in> set xs" for y
  proof -
    have "it_Rank y \<in> set [n + 1 .. m]" using that by (simp flip: n(3))
    then show ?thesis using n(2) by simp
  qed
  then show ?case using Cons.IH [OF n(3)] by auto
qed simp

lemma sorted_distinct:
  assumes "distinct (map f xs)" "distinct (map g xs)"
  shows "sorted_wrt (\<lambda>y x. f y \<noteq> f x \<and> g y \<noteq> g x) xs"
  using assms by (induction xs) (auto simp: image_iff)

text \<open>What a priority run leaves: its items, in the table at once.\<close>

lemma run_items:
  assumes "x \<in> set (portfolio_Rank fresh cs now runID)"
  shows "it_RunID x = runID" "read_item (stored_item x) = x"
    "\<exists>p \<in> set cs. it_CaseID x = pc_CaseID p \<and> it_DecisionID x = pc_DecisionID p \<and> it_Action x = pc_Action p
       \<and> it_ExpectedNERVMinor x = pc_ExpectedNERVMinor p \<and> it_ArrivalAt x = pc_ArrivalAt p"
  using assms
  by (auto elim!: portfolio_items simp: item_of_def Let_def read_item_def stored_item_def)

lemma plan_priorities_run:
  fixes now :: time
  assumes "keyed rc_ID (db_cases (pn_db s))" and "inj fresh"
    and "\<forall>x \<in> set (pn_priorities s). it_RunID x \<noteq> fresh 0 \<and> it_ID x \<notin> range fresh"
    and "LoadPortfolioCandidates s m = Inr cs"
  defines "items \<equiv> portfolio_Rank (\<lambda>i. fresh (Suc i)) cs now (fresh 0)"
  shows "plan_priorities fresh now s m
    = Inr (fresh 0, items, s\<lparr>pn_priorities := pn_priorities s @ map stored_item items\<rparr>)"
    and "distinct (map it_CaseID items)"
proof -
  have c: "distinct (map it_CaseID items)"
    using candidates_cases(1) [OF assms(1,4)] portfolio_Rank_facts(1) mset_eq_imp_distinct_iff unfolding items_def by metis
  then show "distinct (map it_CaseID items)" .
  have ids: "mset (map it_ID items) = mset (map (\<lambda>i. fresh (Suc i)) [0..<length cs])"
    unfolding items_def by (rule portfolio_Rank_ids)
  then have "set (map it_ID items) = set (map (\<lambda>i. fresh (Suc i)) [0..<length cs])" by (metis set_mset_mset)
  then have r: "it_ID x \<in> range fresh" if "x \<in> set items" for x using that by (auto dest: arg_cong [of _ _ "\<lambda>X. it_ID x \<in> X"])
  have "distinct (map (\<lambda>i. fresh (Suc i)) [0..<length cs])" using assms(2) by (auto simp: distinct_map inj_def inj_on_def)
  then have i: "distinct (map it_ID items)" using ids mset_eq_imp_distinct_iff by metis
  have run: "it_RunID x = fresh 0" if "x \<in> set items" for x using that run_items(1) by (simp add: items_def)
  have "\<not> list_ex (same_snapshot x) (pn_priorities s)" if "x \<in> set (map stored_item items)" for x
    using that assms(3) r run by (auto simp: list_ex_iff same_snapshot_def stored_item_def)
  moreover have "sorted_wrt (\<lambda>y x. \<not> same_snapshot x y) (map stored_item items)"
    using sorted_distinct [OF c i] unfolding sorted_wrt_map
    by (rule sorted_wrt_mono_rel [rotated]) (auto simp: same_snapshot_def stored_item_def)
  ultimately have "insert_all ''portfolio_priority_snapshots_key'' same_snapshot (map stored_item items) (pn_priorities s)
      = Inr (pn_priorities s @ map stored_item items)" by (simp add: insert_all_Inr)
  then have "SavePortfolioPriority s items = Inr (s\<lparr>pn_priorities := pn_priorities s @ map stored_item items\<rparr>)"
    by (simp add: SavePortfolioPriority_def)
  then show "plan_priorities fresh now s m = Inr (fresh 0, items, s\<lparr>pn_priorities := pn_priorities s @ map stored_item items\<rparr>)"
    by (simp add: plan_priorities_def portfolio_Run_def assms(4) Let_def flip: items_def)
qed

lemma loaded_run:
  assumes "map it_Rank items = [1 .. n]" and "\<forall>x \<in> set items. it_RunID x = r \<and> read_item (stored_item x) = x"
    and "\<forall>x \<in> set (pn_priorities s). it_RunID x \<noteq> r"
  defines "s' \<equiv> s\<lparr>pn_priorities := pn_priorities s @ map stored_item items\<rparr>"
  shows "LoadPriorityRun s' r = Inr items" and "r' \<noteq> r \<Longrightarrow> LoadPriorityRun s' r' = LoadPriorityRun s r'"
proof -
  have "\<forall>x \<in> set items. it_RunID (stored_item x) = r" using assms(2) by (simp add: stored_item_def)
  then have f: "filter (\<lambda>x. it_RunID x = q) (map stored_item items) = (if q = r then map stored_item items else [])" for q
    by (induction items) auto
  have "map it_Rank (map stored_item items) = [1 .. n]" using assms(1) by (simp add: stored_item_def comp_def)
  then have o: "sort_by (\<lambda>a b. it_Rank a < it_Rank b) (map stored_item items) = map stored_item items"
    by (intro sort_by_ordered ranks_ordered)
  have "filter (\<lambda>x. it_RunID x = r) (pn_priorities s) = []" using assms(3) by (simp add: filter_empty_conv)
  moreover have "map (read_item \<circ> stored_item) items = items" using assms(2) by (induction items) auto
  ultimately show "LoadPriorityRun s' r = Inr items" by (simp add: LoadPriorityRun_def s'_def f o)
  show "r' \<noteq> r \<Longrightarrow> LoadPriorityRun s' r' = LoadPriorityRun s r'" by (simp add: LoadPriorityRun_def s'_def f)
qed


section \<open>Budgets of stored runs\<close>

lemma allocate_loop_ids:
  assumes "allocate_loop fresh now limits index totals items = (final, as)"
  shows "map al_ID as = map (\<lambda>i. fresh (Suc i)) [index..<index + length items]" "\<forall>x \<in> set as. al_RunID x = fresh 0"
  using assms
  by (induction items arbitrary: index totals final as)
    (auto simp: Let_def allocation_of_def upt_conv_Cons simp del: upt_Suc split: prod.splits)

lemma budget_rows:
  fixes now :: time and algorithm :: string and m p :: ID and limits :: Limits
  assumes "inj fresh" and "distinct (map it_CaseID items)"
    and "\<forall>x \<in> set t. al_RunID x \<noteq> fresh 0 \<and> al_ID x \<notin> range fresh"
  defines "as \<equiv> br_Allocations (Allocate fresh items limits algorithm now m p)"
  shows "insert_all ''budget_allocations_key'' same_allocation as t = Inr (t @ as)"
    and "filter (\<lambda>x. al_RunID x = fresh 0) (t @ as) = as" and "mset (map al_CaseID as) = mset (map it_CaseID items)"
proof -
  obtain final as' xs where l: "allocate_loop fresh now limits 0 no_limits xs = (final, as')" and "as = as'" "mset xs = mset items"
    unfolding as_def by (rule Allocate_run [of fresh now limits items algorithm m p]) simp
  then have l: "allocate_loop fresh now limits 0 no_limits xs = (final, as)" by simp
  have c: "map al_CaseID as = map it_CaseID xs" by (rule allocate_loop_items(1) [OF l])
  then show m: "mset (map al_CaseID as) = mset (map it_CaseID items)" using \<open>mset xs = mset items\<close> by (metis mset_map)
  note ids = allocate_loop_ids [OF l]
  have "distinct (map al_CaseID as)" using m assms(2) mset_eq_imp_distinct_iff by blast
  moreover have "distinct (map al_ID as)" unfolding ids(1) using assms(1) by (auto simp: distinct_map inj_def inj_on_def)
  ultimately have "sorted_wrt (\<lambda>y x. al_CaseID y \<noteq> al_CaseID x \<and> al_ID y \<noteq> al_ID x) as" by (rule sorted_distinct)
  then have s: "sorted_wrt (\<lambda>y x. \<not> same_allocation x y) as"
    by (rule sorted_wrt_mono_rel [rotated]) (auto simp: same_allocation_def)
  have r: "al_ID x \<in> range fresh" if "x \<in> set as" for x
  proof -
    have "al_ID x \<in> set (map al_ID as)" using that by simp
    then show ?thesis unfolding ids(1) by auto
  qed
  have n: "\<not> list_ex (same_allocation x) t" if "x \<in> set as" for x
    using r [OF that] that ids(2) assms(3) by (auto simp: list_ex_iff same_allocation_def)
  then show "insert_all ''budget_allocations_key'' same_allocation as t = Inr (t @ as)" using s by (simp add: insert_all_Inr)
  have "filter (\<lambda>x. al_RunID x = fresh 0) t = []" using assms(3) by (simp add: filter_empty_conv)
  moreover have "filter (\<lambda>x. al_RunID x = fresh 0) as = as" using ids(2) by simp
  ultimately show "filter (\<lambda>x. al_RunID x = fresh 0) (t @ as) = as" by simp
qed

lemma Allocate_totals:
  fixes now :: time and algorithm :: string and m p :: ID and items :: "Item list" and fresh :: "nat \<Rightarrow> ID"
  assumes "sane_limits limits"
  defines "run \<equiv> Allocate fresh items limits algorithm now m p"
  shows "leq_limits (br_Totals run) limits
    \<and> br_Totals run = foldl add_limits no_limits (map al_ResourceConsumption (filter al_Included (br_Allocations run)))"
proof -
  obtain final as xs where l: "allocate_loop fresh now limits 0 no_limits xs = (final, as)"
    and r: "br_Totals run = final" "br_Allocations run = as" and xs: "mset xs = mset items"
    unfolding run_def by (rule Allocate_run)
  have n: "leq_limits no_limits limits" using assms(1) by (simp add: sane_limits_def)
  show ?thesis unfolding r using allocate_loop_totals [OF assms(1) leq_limits_refl n l] by blast
qed


section \<open>Examples\<close>

definition planned_plans :: Plans where
  "planned_plans = \<lparr>pn_db = pending_db\<lparr>db_decisions := [\<lparr>dr_Decision = sn_Decision (example_snapshot ActionSendReminder ''APPROVE''),
     dr_Context = contact_example, dr_Eligibility = Eligibility.Evaluate contact_example\<rparr>]\<rparr>,
     pn_priorities = [], pn_runs = [], pn_allocations = []\<rparr>"

lemma inj_ids: "inj (ids t)"
  by (simp add: inj_def)

lemma planned_choice: "latest_choice (pn_db planned_plans) (rc_ID created_case) \<noteq> None"
  by (simp add: latest_choice_def ranked_decisions_def planned_plans_def List.map_filter_def example_snapshot_def first_choice_def
      example_candidate_def)

lemma planned_case: "find_case (pn_db planned_plans) (rc_ID created_case) = Some (created_case\<lparr>rc_CurrentState := StateActionPending\<rparr>)"
  by (simp add: planned_plans_def pending_db_def find_case_def lookup_Cons)

lemma created_case_merchant: "rc_MerchantID created_case = ''m1''"
  by (simp add: created_case_def Let_def service_CreateCase_def example_input_def CreateCase_def insert_case_def
      case_of_input_def shop_db_def empty_db_def find_case_def lookup_Cons insertEvent_def newEvent_def event_of_def
      Hour_def TrimSpace_def is_space_def IsValid_def)


text \<open>A merchant spends the run of another one.\<close>

definition stored_plans :: Plans where
  "stored_plans = \<lparr>pn_db = shop_db, pn_priorities = [stored_item (example_item ''a'' ActionSendReminder 500 1)], pn_runs = [], pn_allocations = []\<rparr>"


end
