(* ===== verification/Razorpay_Client.thy ===== *)
theory Razorpay_Client
  imports Executor Detection
begin

text \<open>
  The Razorpay HTTP client (\<open>internal/integrations/razorpay/client.go\<close>). What carries a request to
  the provider and back is the parameter \<open>http\<close>, on a state of its own: it gets no answer (an
  address that does not parse included), an answer whose body cannot be read, or a status and a
  body (what its first MiB decodes to).
  \<open>client_provider\<close> makes the provider of the payment link executor of it.
\<close>

section \<open>Requests and answers\<close>

record Client =
  cl_BaseURL :: string
  cl_KeyID :: string
  cl_KeySecret :: string

record HttpRequest =
  hr_Method :: string
  hr_URL :: string
  hr_User :: string
  hr_Password :: string
  hr_Body :: RawMessage

datatype answer = Unreachable fault | Unreadable int fault | Answered int RawMessage

type_synonym 'w http = "HttpRequest \<Rightarrow> 'w \<Rightarrow> answer \<times> 'w"

datatype client_error = NotConfigured | LiveModeDisabled | MissingID | APIError int string | TransportError fault | DecodeError

definition trim_slashes :: "string \<Rightarrow> string" where
  "trim_slashes s = rev (dropWhile (\<lambda>c. c = CHR ''/'') (rev s))"

definition trim_suffix :: "string \<Rightarrow> string \<Rightarrow> string" where
  "trim_suffix t s = (if t = drop (length s - length t) s then take (length s - length t) s else s)"

definition NewClient :: "string \<Rightarrow> string \<Rightarrow> string \<Rightarrow> Client" where
  "NewClient baseURL keyID keySecret =
     \<lparr>cl_BaseURL = trim_suffix ''/v1'' (trim_slashes (if baseURL = [] then ''https://api.razorpay.com'' else baseURL)),
      cl_KeyID = keyID, cl_KeySecret = keySecret\<rparr>"

definition Configured :: "Client \<Rightarrow> bool" where
  "Configured c \<longleftrightarrow> TrimSpace (cl_KeyID c) \<noteq> [] \<and> TrimSpace (cl_KeySecret c) \<noteq> []"

definition has_prefix :: "string \<Rightarrow> string \<Rightarrow> bool" where
  "has_prefix p s \<longleftrightarrow> take (length p) s = p"

definition Mode :: "Client \<Rightarrow> string" where
  "Mode c = (if has_prefix ''rzp_test_'' (cl_KeyID c) then ''test''
     else if has_prefix ''rzp_live_'' (cl_KeyID c) then ''live''
     else if cl_KeyID c = [] then ''unconfigured'' else ''unknown'')"

text \<open>\<open>url.PathEscape\<close>: what may not stand in a path segment is written as its bytes in hexadecimal.\<close>

definition hex_digit :: "nat \<Rightarrow> char" where
  "hex_digit n = (if n < 10 then char_of (48 + n) else char_of (55 + n))"

definition plain_in_path :: "char \<Rightarrow> bool" where
  "plain_in_path c = (let n = of_char c :: nat in
     48 \<le> n \<and> n \<le> 57 \<or> 65 \<le> n \<and> n \<le> 90 \<or> 97 \<le> n \<and> n \<le> 122 \<or> c \<in> set ''-_.~$&+:=@'')"

definition PathEscape :: "string \<Rightarrow> string" where
  "PathEscape s = concat (map (\<lambda>c. if plain_in_path c then [c]
     else [CHR ''%'', hex_digit (of_char c div 16), hex_digit (of_char c mod 16)]) s)"

section \<open>The client\<close>

definition providerErrorCode :: "RawMessage \<Rightarrow> string" where
  "providerErrorCode data =
     (case do { kvs \<leftarrow> members data; m \<leftarrow> nested kvs ''error''; decode_value json_string m ''code'' [] } of
        None \<Rightarrow> [] | Some code \<Rightarrow> code)"

text \<open>The status is 0 when there was no answer; \<open>decode\<close> is \<open>json.Unmarshal\<close> into the output.\<close>

definition doJSONStatus :: "Client \<Rightarrow> 'w http \<Rightarrow> string \<Rightarrow> string \<Rightarrow> RawMessage \<Rightarrow> (RawMessage \<Rightarrow> 'a option) \<Rightarrow> 'w
    \<Rightarrow> (int \<times> (client_error, 'a) result) \<times> 'w" where
  "doJSONStatus c http method path body decode w =
     (if \<not> Configured c then ((0, Inl NotConfigured), w)
      else if Mode c = ''live'' then ((0, Inl LiveModeDisabled), w)
      else
        (case http \<lparr>hr_Method = method, hr_URL = cl_BaseURL c @ path, hr_User = cl_KeyID c, hr_Password = cl_KeySecret c, hr_Body = body\<rparr> w of
           (Unreachable f, w) \<Rightarrow> ((0, Inl (TransportError f)), w)
         | (Unreadable status f, w) \<Rightarrow> ((status, Inl (TransportError f)), w)
         | (Answered status data, w) \<Rightarrow>
             if status < 200 \<or> 300 \<le> status then ((status, Inl (APIError status (providerErrorCode data))), w)
             else (case decode data of None \<Rightarrow> ((status, Inl DecodeError), w) | Some x \<Rightarrow> ((status, Inr x), w))))"

definition decode_link :: "RawMessage \<Rightarrow> PaymentLink option" where
  "decode_link data = do {
     kvs \<leftarrow> members data;
     let text = (\<lambda>k. decode_value json_string kvs k []);
     i \<leftarrow> text ''id''; url \<leftarrow> text ''short_url''; status \<leftarrow> text ''status''; reference \<leftarrow> text ''reference_id'';
     Some \<lparr>pl_ID = i, pl_ShortURL = url, pl_Status = status, pl_ReferenceID = reference\<rparr>
   }"

text \<open>\<open>json.Marshal\<close> of a request; the fields no caller sets are left out, and so are empty notes.\<close>

definition link_body :: "PaymentLinkRequest \<Rightarrow> json" where
  "link_body q = JObj ([(''amount'', JInt (lq_Amount q)), (''currency'', JStr (lq_Currency q)), (''description'', JStr (lq_Description q)),
     (''reference_id'', JStr (lq_ReferenceID q))] @ (if lq_Notes q = [] then [] else [(''notes'', references_json (lq_Notes q))]))"

definition CreatePaymentLinkWithStatus :: "Client \<Rightarrow> 'w http \<Rightarrow> PaymentLinkRequest \<Rightarrow> 'w \<Rightarrow> (int \<times> (client_error, PaymentLink) result) \<times> 'w" where
  "CreatePaymentLinkWithStatus c http q w =
     (if Mode c = ''live'' then ((0, Inl LiveModeDisabled), w)
      else doJSONStatus c http ''POST'' ''/v1/payment_links'' (Some (link_body q)) decode_link w)"

definition FetchPaymentLinkWithStatus :: "Client \<Rightarrow> 'w http \<Rightarrow> string \<Rightarrow> 'w \<Rightarrow> (int \<times> (client_error, PaymentLink) result) \<times> 'w" where
  "FetchPaymentLinkWithStatus c http i w =
     (if i = [] then ((0, Inl MissingID), w)
      else doJSONStatus c http ''GET'' (''/v1/payment_links/'' @ PathEscape i) None decode_link w)"

record PaymentStatus =
  pm_ID :: string
  pm_Status :: string
  pm_Amount :: int
  pm_Currency :: string
  pm_OrderID :: string

definition decode_payment_status :: "RawMessage \<Rightarrow> PaymentStatus option" where
  "decode_payment_status data = do {
     kvs \<leftarrow> members data;
     let text = (\<lambda>k. decode_value json_string kvs k []);
     i \<leftarrow> text ''id''; status \<leftarrow> text ''status''; amount \<leftarrow> decode_value json_int64 kvs ''amount'' 0;
     currency \<leftarrow> text ''currency''; order \<leftarrow> text ''order_id'';
     Some \<lparr>pm_ID = i, pm_Status = status, pm_Amount = amount, pm_Currency = currency, pm_OrderID = order\<rparr>
   }"

definition FetchPayment :: "Client \<Rightarrow> 'w http \<Rightarrow> string \<Rightarrow> 'w \<Rightarrow> (client_error, PaymentStatus) result \<times> 'w" where
  "FetchPayment c http i w =
     (if i = [] then (Inl MissingID, w)
      else (case doJSONStatus c http ''GET'' (''/v1/payments/'' @ PathEscape i) None decode_payment_status w of ((_, r), w) \<Rightarrow> (r, w)))"

record ClientStatus =
  cs_Configured :: bool
  cs_Mode :: string
  cs_Reachable :: bool
  cs_Authenticated :: bool
  cs_HTTPStatus :: int
  cs_ErrorCode :: string

definition decode_count :: "RawMessage \<Rightarrow> int option" where
  "decode_count data = do { kvs \<leftarrow> members data; decode_value json_int64 kvs ''count'' 0 }"

definition CheckAuthentication :: "Client \<Rightarrow> 'w http \<Rightarrow> 'w \<Rightarrow> ClientStatus \<times> 'w" where
  "CheckAuthentication c http w =
     (let status = \<lparr>cs_Configured = Configured c, cs_Mode = Mode c, cs_Reachable = False, cs_Authenticated = False, cs_HTTPStatus = 0, cs_ErrorCode = []\<rparr> in
      if \<not> Configured c then (status\<lparr>cs_ErrorCode := ''credentials_not_configured''\<rparr>, w)
      else if Mode c = ''live'' then (status\<lparr>cs_ErrorCode := ''live_mode_disabled''\<rparr>, w)
      else
        (case doJSONStatus c http ''GET'' ''/v1/payments?count=1'' None decode_count w of ((http_status, r), w) \<Rightarrow>
          (let status = status\<lparr>cs_HTTPStatus := http_status, cs_Reachable := (0 < http_status)\<rparr> in
           (case r of Inr _ \<Rightarrow> status\<lparr>cs_Authenticated := True\<rparr>
            | Inl (APIError code _) \<Rightarrow> status\<lparr>cs_ErrorCode := (if code = 401 \<or> code = 403 then ''authentication_failed'' else ''provider_http_error'')\<rparr>
            | Inl _ \<Rightarrow> status\<lparr>cs_ErrorCode := ''provider_unreachable''\<rparr>, w))))"

text \<open>What \<open>executor.classify\<close> finds in an error of the client.\<close>

definition fault_of :: "client_error \<Rightarrow> fault" where
  "fault_of e = (case e of APIError code _ \<Rightarrow> plain_fault\<lparr>ft_APIStatus := Some code\<rparr> | TransportError f \<Rightarrow> f | _ \<Rightarrow> plain_fault)"

definition client_provider :: "Client \<Rightarrow> 'w http \<Rightarrow> 'w Provider" where
  "client_provider c http =
     \<lparr>CreatePaymentLink = (\<lambda>q w. case CreatePaymentLinkWithStatus c http q w of ((_, Inl e), w) \<Rightarrow> (Inl (fault_of e), w) | ((_, Inr l), w) \<Rightarrow> (Inr l, w)),
      FetchPaymentLink = (\<lambda>i w. case FetchPaymentLinkWithStatus c http i w of ((_, Inl e), _) \<Rightarrow> Inl (fault_of e) | ((_, Inr l), _) \<Rightarrow> Inr l)\<rparr>"

section \<open>Properties\<close>

lemma doJSON_refused: "\<not> Configured c \<or> Mode c = ''live'' \<Longrightarrow>
    doJSONStatus c http method path body decode w = ((0, Inl (if Configured c then LiveModeDisabled else NotConfigured)), w)"
  by (auto simp: doJSONStatus_def)

lemma hex_digit_plain: "n < 16 \<Longrightarrow> plain_in_path (hex_digit n)"
proof -
  have "list_all (\<lambda>n. plain_in_path (hex_digit n)) [0..<16]"
    by (simp add: upt_rec hex_digit_def plain_in_path_def char_of_def bit_0)
  then show "n < 16 \<Longrightarrow> plain_in_path (hex_digit n)" unfolding list_all_iff by simp
qed

text \<open>An escaped segment has no character that ends it.\<close>

lemma PathEscape_chars: "x \<in> set (PathEscape s) \<Longrightarrow> plain_in_path x \<or> x = CHR ''%''"
proof -
  have "of_char c div 16 < (16 :: nat)" for c :: char
    using nat_of_char_less_256 [of c] by (intro less_mult_imp_div_less) simp
  then show "x \<in> set (PathEscape s) \<Longrightarrow> plain_in_path x \<or> x = CHR ''%''"
    by (auto simp: PathEscape_def hex_digit_plain split: if_splits)
qed

text \<open>C31. Live money is out of reach. With live credentials, or without both credentials, no
  operation of the client sends anything: the provider's state stays as it was and the errors say
  why. An executor built on such a client leaves the database and the provider alone for an
  action without a stored link, and its result is a failure that the worker takes for transient
  and retries.\<close>

theorem live_mode_sends_nothing:
  assumes "Mode c = ''live'' \<or> \<not> Configured c"
  shows "snd (CreatePaymentLinkWithStatus c http q w) = w \<and> snd (FetchPaymentLinkWithStatus c http i w) = w
    \<and> snd (FetchPayment c http i w) = w \<and> snd (CheckAuthentication c http w) = w
    \<and> \<not> cs_Authenticated (fst (CheckAuthentication c http w)) \<and> cs_ErrorCode (fst (CheckAuthentication c http w)) \<noteq> []
    \<and> fst (CreatePaymentLinkWithStatus c http q w) \<in> {(0, Inl LiveModeDisabled), (0, Inl NotConfigured)}
    \<and> (GetPaymentLink (xq_RecoveryActionID r) db = None \<longrightarrow>
        payment_Execute (client_provider c http) newID now r (db, w)
          = ((failed_result r (''TRANSIENT_PROVIDER_ERROR'', True), Some plain_fault), (db, w)))"
  using assms
  by (auto simp: CreatePaymentLinkWithStatus_def FetchPaymentLinkWithStatus_def FetchPayment_def CheckAuthentication_def doJSON_refused
      Let_def payment_Execute_def link_Execute_def client_provider_def fault_of_def plain_fault_def classify_def)

text \<open>What a client tells of an operation is what the provider answered. A link is reported only
  when the provider answered with a status of the 200s and a body that decodes to it; a failure
  with an HTTP status makes the executor fail permanently exactly for the statuses 400 to 499
  other than 408 and 429. The path of a fetch stays below its collection, whatever the id: no
  slash, question mark or number sign in it ends the segment.\<close>

theorem client_reports_the_answer:
  assumes "Mode c \<noteq> ''live''" and "Configured c"
    and "http \<lparr>hr_Method = ''POST'', hr_URL = cl_BaseURL c @ ''/v1/payment_links'', hr_User = cl_KeyID c, hr_Password = cl_KeySecret c,
      hr_Body = Some (link_body q)\<rparr> w = (a, w')"
  shows "snd (CreatePaymentLinkWithStatus c http q w) = w'
    \<and> (\<forall>l. CreatePaymentLink (client_provider c http) q w = (Inr l, w')
         \<longleftrightarrow> (\<exists>status data. a = Answered status data \<and> 200 \<le> status \<and> status < 300 \<and> decode_link data = Some l))
    \<and> (\<forall>status data. a = Answered status data \<and> \<not> (200 \<le> status \<and> status < 300) \<longrightarrow>
        (\<exists>f. CreatePaymentLink (client_provider c http) q w = (Inl f, w')
          \<and> (snd (classify f) \<longleftrightarrow> \<not> (400 \<le> status \<and> status < 500 \<and> status \<noteq> 408 \<and> status \<noteq> 429))))
    \<and> set (PathEscape i) \<inter> {CHR ''/'', CHR ''?'', CHR ''#''} = {}"
proof (intro conjI)
  show "set (PathEscape i) \<inter> {CHR ''/'', CHR ''?'', CHR ''#''} = {}"
    using PathEscape_chars [of _ i] by (force simp: plain_in_path_def)
qed (cases a; use assms in \<open>auto simp: CreatePaymentLinkWithStatus_def doJSONStatus_def client_provider_def fault_of_def classify_def plain_fault_def
      split: option.splits\<close>)+

text \<open>The status report is consistent in every case but one: it is authenticated exactly when the
  provider answered in the 200s with a body that decodes, and then without an error code; without
  any answer it is unreachable; but an answer in the 200s whose body does not decode is reported
  as reachable and as \<open>provider_unreachable\<close> at once.\<close>

theorem status_report:
  assumes "Mode c \<noteq> ''live''" and "Configured c"
    and "http \<lparr>hr_Method = ''GET'', hr_URL = cl_BaseURL c @ ''/v1/payments?count=1'', hr_User = cl_KeyID c, hr_Password = cl_KeySecret c,
      hr_Body = None\<rparr> w = (a, w')" and "CheckAuthentication c http w = (st, w2)"
  shows "cs_Authenticated st = (\<exists>status data n. a = Answered status data \<and> 200 \<le> status \<and> status < 300 \<and> decode_count data = Some n)
    \<and> (cs_Authenticated st \<longleftrightarrow> cs_ErrorCode st = [])
    \<and> (\<forall>f. a = Unreachable f \<longrightarrow> \<not> cs_Reachable st \<and> cs_ErrorCode st = ''provider_unreachable'')
    \<and> (\<forall>status data. a = Answered status data \<and> 200 \<le> status \<and> status < 300 \<and> decode_count data = None
         \<longrightarrow> cs_Reachable st \<and> cs_ErrorCode st = ''provider_unreachable'')"
  using assms by (cases a) (auto simp: CheckAuthentication_def doJSONStatus_def Let_def split: option.splits if_splits)

section \<open>Examples\<close>

definition example_link :: PaymentLinkRequest where
  "example_link = \<lparr>lq_Amount = 10000, lq_Currency = ''INR'', lq_Description = ''Recovery'', lq_ReferenceID = ''a1'', lq_Notes = []\<rparr>"

definition live_client :: Client where
  "live_client = NewClient [] ''rzp_live_1'' ''s''"

theorem live_mode_sends_nothing_witness:
  "Mode live_client = ''live'' \<and> snd (CreatePaymentLinkWithStatus live_client (\<lambda>q n. (Answered 200 None, n + 1)) example_link (0 :: nat)) = 0"
proof -
  have live: "Mode live_client = ''live''" by code_simp
  show ?thesis
    using live live_mode_sends_nothing [OF disjI1 [OF live], where w = "0 :: nat" and http = "\<lambda>q n. (Answered 200 None, n + 1)" and q = example_link]
    by (simp only: simp_thms)
qed

definition test_client :: Client where
  "test_client = NewClient ''https://api.razorpay.com/v1/'' ''rzp_test_1'' ''s''"

definition created_body :: RawMessage where
  "created_body = Some (JObj [(''id'', JStr ''plink_1''), (''status'', JStr ''created'')])"

lemma test_client_facts: "Mode test_client \<noteq> ''live''" "Configured test_client" "cl_BaseURL test_client = ''https://api.razorpay.com''"
  by code_simp+

theorem client_reports_the_answer_witness:
  "CreatePaymentLink (client_provider test_client (\<lambda>_ n. (Answered 200 created_body, n + 1))) example_link (0 :: nat)
     = (Inr \<lparr>pl_ID = ''plink_1'', pl_ShortURL = [], pl_Status = ''created'', pl_ReferenceID = []\<rparr>, 1)"
proof -
  have body: "decode_link created_body = Some \<lparr>pl_ID = ''plink_1'', pl_ShortURL = [], pl_Status = ''created'', pl_ReferenceID = []\<rparr>"
    by code_simp
  have "(Answered 200 created_body, (0 :: nat) + 1) = (Answered 200 created_body, 1)" by simp
  note sent = client_reports_the_answer [where http = "\<lambda>_ n. (Answered 200 created_body, n + 1)", OF test_client_facts(1,2) this, of example_link]
  show ?thesis using sent body by auto
qed

theorem status_report_witness:
  "let run = CheckAuthentication test_client (\<lambda>_ n. (Answered 200 None, n + 1)) (0 :: nat)
   in cs_Reachable (fst run) \<and> cs_ErrorCode (fst run) = ''provider_unreachable''"
proof -
  have none: "decode_count None = None" by (simp add: decode_count_def members_def)
  have "(Answered 200 None, (0 :: nat) + 1) = (Answered 200 None, 1)" by simp
  note report = status_report [where http = "\<lambda>_ n. (Answered 200 None, n + 1)", OF test_client_facts(1,2) this prod.collapse [symmetric]]
  show ?thesis using report none unfolding Let_def by auto
qed

end
