(* ===== verification/Predictions.thy ===== *)
theory Predictions
  imports Razorpay_Client Context_Store
begin

text \<open>
  Predictions kept for a case (\<open>internal/intelligence/service.go\<close>, \<open>internal/store/predictions.go\<close>)
  and the client of the prediction service (\<open>internal/decisionclient/client.go\<close>). The table of
  predictions stands beside the database. \<open>encode\<close> is what \<open>json.Marshal\<close> makes of a context,
  \<open>http\<close> how the service answers a request.
\<close>

section \<open>The client\<close>

abbreviation no_prediction :: OutcomePrediction where
  "no_prediction \<equiv> \<lparr>pr_Action = [], pr_RecoveryProbability = 0, pr_ModelVersion = [], pr_FeatureVersion = [], pr_PredictionTimestamp = 0\<rparr>"

fun json_float :: "json \<Rightarrow> float64 option" where
  "json_float (JNum x) = Some x"
| "json_float _ = None"

definition json_prediction :: "json \<Rightarrow> OutcomePrediction option" where
  "json_prediction v = do {
     kvs \<leftarrow> members (Some v);
     action \<leftarrow> decode_value json_string kvs ''action'' [];
     probability \<leftarrow> decode_value json_float kvs ''recovery_probability'' 0;
     model \<leftarrow> decode_value json_string kvs ''model_version'' [];
     feature \<leftarrow> decode_value json_string kvs ''feature_version'' [];
     made \<leftarrow> decode_value json_time kvs ''prediction_timestamp'' 0;
     Some \<lparr>pr_Action = action, pr_RecoveryProbability = probability, pr_ModelVersion = model, pr_FeatureVersion = feature,
       pr_PredictionTimestamp = made\<rparr>
   }"

fun json_predictions :: "json \<Rightarrow> OutcomePrediction list option" where
  "json_predictions (JArr vs) = those (map json_prediction vs)"
| "json_predictions _ = None"

definition decode_outcomes :: "RawMessage \<Rightarrow> OutcomePrediction list option" where
  "decode_outcomes raw = do { kvs \<leftarrow> members raw; decode_value json_predictions kvs ''predictions'' [] }"

definition decode_natural :: "RawMessage \<Rightarrow> NaturalPrediction option" where
  "decode_natural raw = do {
     kvs \<leftarrow> members raw;
     probability \<leftarrow> decode_value json_float kvs ''natural_recovery_probability'' 0;
     model \<leftarrow> decode_value json_string kvs ''model_version'' [];
     feature \<leftarrow> decode_value json_string kvs ''feature_version'' [];
     made \<leftarrow> decode_value json_time kvs ''prediction_timestamp'' 0;
     Some \<lparr>np_NaturalRecoveryProbability = probability, np_ModelVersion = model, np_FeatureVersion = feature,
       np_PredictionTimestamp = made\<rparr>
   }"

text \<open>One \<open>POST\<close> without credentials; the messages of the errors leave out what they quote.\<close>

definition ask :: "(HttpRequest \<Rightarrow> answer) \<Rightarrow> string \<Rightarrow> string \<Rightarrow> json option \<Rightarrow> string \<Rightarrow> (RawMessage \<Rightarrow> 'a option) \<Rightarrow> (string, 'a) result" where
  "ask http baseURL path body what decode =
     (case body of None \<Rightarrow> Inl ''json''
      | Some j \<Rightarrow>
          (case http \<lparr>hr_Method = ''POST'', hr_URL = baseURL @ path, hr_User = [], hr_Password = [], hr_Body = Some j\<rparr> of
             Unreachable f \<Rightarrow> Inl ''http''
           | Unreadable status f \<Rightarrow> Inl (if status \<noteq> 200 then what else ''http'')
           | Answered status data \<Rightarrow>
               if status \<noteq> 200 then Inl what else (case decode data of None \<Rightarrow> Inl ''json'' | Some x \<Rightarrow> Inr x)))"

definition service_predictor :: "(HttpRequest \<Rightarrow> answer) \<Rightarrow> string \<Rightarrow> (RecoveryDecisionContext \<Rightarrow> json option) \<Rightarrow> Predictor" where
  "service_predictor http baseURL encode =
     \<lparr>PredictNatural = (\<lambda>ctx. ask http (trim_slashes baseURL) ''/api/v1/predict/natural''
         (map_option (\<lambda>j. JObj [(''context'', j)]) (encode ctx)) ''decision service natural prediction returned status'' decode_natural),
      PredictOutcomes = (\<lambda>ctx actions. ask http (trim_slashes baseURL) ''/api/v1/predict/outcomes''
         (map_option (\<lambda>j. JObj [(''context'', j), (''eligible_actions'', JArr (map JStr actions))]) (encode ctx))
         ''decision service prediction returned status'' decode_outcomes)\<rparr>"

section \<open>The table of predictions\<close>

record ActionPrediction =
  ap_ID :: ID
  ap_CaseID :: ID
  ap_ActionID :: "ID option"
  ap_ActionType :: ActionType
  ap_RecoveryProbability :: float64
  ap_NaturalRecoveryProbability :: float64
  ap_IncrementalUplift :: float64
  ap_ExpectedNetValueMinor :: int
  ap_ModelVersionID :: "ID option"
  ap_ModelVersion :: string
  ap_FeatureVersion :: string
  ap_Explanation :: RawMessage
  ap_CreatedAt :: time

record Predicted =
  pd_db :: Database
  pd_predictions :: "ActionPrediction list"

definition insert_prediction :: "ActionPrediction \<Rightarrow> Predicted \<Rightarrow> (error, Predicted) result" where
  "insert_prediction v s =
     (if \<not> (0 \<le> ap_RecoveryProbability v \<and> ap_RecoveryProbability v \<le> 1) then Inl (ErrConstraint ''action_predictions_recovery_probability_check'')
      else if \<not> (0 \<le> ap_NaturalRecoveryProbability v \<and> ap_NaturalRecoveryProbability v \<le> 1)
        then Inl (ErrConstraint ''action_predictions_natural_recovery_probability_check'')
      else if \<not> (-1 \<le> ap_IncrementalUplift v \<and> ap_IncrementalUplift v \<le> 1) then Inl (ErrConstraint ''action_predictions_incremental_uplift_check'')
      else (case insert_row ''action_predictions_pkey'' (\<lambda>r x. ap_ID x = ap_ID r) v (pd_predictions s) of
              Inl e \<Rightarrow> Inl e | Inr t \<Rightarrow> Inr (s\<lparr>pd_predictions := t\<rparr>)))"

definition prediction_event :: "ID \<Rightarrow> ActionPrediction \<Rightarrow> RecoveryEvent" where
  "prediction_event newID v =
     (event_of newID (ap_CaseID v) EventActionPredicted (ap_CreatedAt v) \<lparr>actor_Type = ''MODEL'', actor_ID = ap_ModelVersion v\<rparr>
        (Some (JObj [(''action'', JStr (action_string (ap_ActionType v))), (''feature_version'', JStr (ap_FeatureVersion v)),
           (''incremental_uplift'', JNum (ap_IncrementalUplift v)),
           (''natural_recovery_probability'', JNum (ap_NaturalRecoveryProbability v)), (''prediction_id'', JStr (ap_ID v)),
           (''recovery_probability'', JNum (ap_RecoveryProbability v))])) (ap_ID v))\<lparr>ev_ModelVersion := ap_ModelVersion v\<rparr>"

fun save_predictions :: "(nat \<Rightarrow> ID) \<Rightarrow> nat \<Rightarrow> int \<Rightarrow> ActionPrediction list \<Rightarrow> Predicted \<Rightarrow> (error, Predicted) result" where
  "save_predictions fresh k sequence [] s = Inr s"
| "save_predictions fresh k sequence (v # vs) s =
     (case insert_prediction v s of Inl e \<Rightarrow> Inl e
      | Inr s \<Rightarrow> (case insertEvent (pd_db s) ((prediction_event (fresh k) v)\<lparr>ev_Sequence := sequence\<rparr>) of Inl e \<Rightarrow> Inl e
         | Inr db \<Rightarrow> save_predictions fresh (Suc k) (sequence + 1) vs (s\<lparr>pd_db := db\<rparr>)))"

text \<open>The case of the first prediction is locked; its log is numbered on for all of them.\<close>

definition SaveActionPredictions :: "(nat \<Rightarrow> ID) \<Rightarrow> ActionPrediction list \<Rightarrow> Predicted \<Rightarrow> (error, Predicted) result" where
  "SaveActionPredictions fresh predictions s =
     (case predictions of [] \<Rightarrow> Inr s
      | v # _ \<Rightarrow>
          if find_case (pd_db s) (ap_CaseID v) = None then Inl (ErrMsg ''no rows in result set'')
          else save_predictions fresh 0 (nextSequence (pd_db s) (ap_CaseID v)) predictions s)"

section \<open>The service\<close>

definition asked_for :: "ActionType list" where
  "asked_for = [ActionWait, ActionRetryNow, ActionRetryLater, ActionSendReminder, ActionSendPaymentLink,
     ActionSendCheckoutRecoveryLink, ActionRequestPaymentMethodUpdate, ActionSuggestAlternateMethod]"

definition prediction_of :: "ID \<Rightarrow> ID \<Rightarrow> int \<Rightarrow> float64 \<Rightarrow> OutcomePrediction \<Rightarrow> ActionPrediction" where
  "prediction_of newID caseID amount natural p =
     (let uplift = fsub (pr_RecoveryProbability p) natural in
      \<lparr>ap_ID = newID, ap_CaseID = caseID, ap_ActionID = None, ap_ActionType = action_of (pr_Action p),
       ap_RecoveryProbability = pr_RecoveryProbability p, ap_NaturalRecoveryProbability = natural, ap_IncrementalUplift = uplift,
       ap_ExpectedNetValueMinor = int64_of (fmul uplift (float_of amount)), ap_ModelVersionID = None,
       ap_ModelVersion = pr_ModelVersion p, ap_FeatureVersion = pr_FeatureVersion p, ap_Explanation = emptyObject,
       ap_CreatedAt = pr_PredictionTimestamp p\<rparr>)"

text \<open>The last prediction for WAIT, 0 without one.\<close>

definition natural_of :: "OutcomePrediction list \<Rightarrow> float64" where
  "natural_of ps = foldl (\<lambda>n p. if pr_Action p = ''WAIT'' then pr_RecoveryProbability p else n) 0 ps"

text \<open>\<open>Service.Predict\<close>; \<open>fresh 0 i\<close> is the id of prediction \<open>i\<close> and \<open>fresh 1 i\<close> that of its event.\<close>

definition service_Predict :: "Predictor \<Rightarrow> (nat \<Rightarrow> nat \<Rightarrow> ID) \<Rightarrow> time \<Rightarrow> ID \<Rightarrow> Predicted
    \<Rightarrow> (error, (Eligibility.Result \<times> ActionPrediction list) \<times> Predicted) result" where
  "service_Predict predictor fresh now caseID s =
     (case context_Get caseID now (pd_db s) of Inl e \<Rightarrow> Inl e
      | Inr ctx \<Rightarrow>
          (let eligible = Eligibility.Evaluate ctx;
               actions = map action_string (filter (\<lambda>a. a \<in> set asked_for) (EligibleActions eligible)) in
           if actions = [] then Inl (ErrMsg ''no scoreable eligible actions'')
           else (case PredictOutcomes predictor ctx actions of Inl e \<Rightarrow> Inl (ErrMsg e)
              | Inr ps \<Rightarrow>
                  (let natural = natural_of ps;
                       predictions = map2 (\<lambda>i p. prediction_of (fresh 0 i) caseID (rc_AmountAtRiskMinor (Case ctx)) natural p) [0..<length ps] ps
                   in case SaveActionPredictions (fresh 1) predictions s of Inl e \<Rightarrow> Inl e
                      | Inr s' \<Rightarrow> Inr ((eligible, predictions), s')))))"

section \<open>What is kept\<close>

abbreviation prediction_events :: "(nat \<Rightarrow> ID) \<Rightarrow> nat \<Rightarrow> ActionPrediction list \<Rightarrow> RecoveryEvent list" where
  "prediction_events fresh k vs \<equiv> map2 (\<lambda>i v. prediction_event (fresh i) v) [k..<k + length vs] vs"

lemma insert_predictionD:
  assumes "insert_prediction v s = Inr s'"
  shows "pd_predictions s' = pd_predictions s @ [v]" "pd_db s' = pd_db s"
    "0 \<le> ap_RecoveryProbability v \<and> ap_RecoveryProbability v \<le> 1 \<and> -1 \<le> ap_IncrementalUplift v \<and> ap_IncrementalUplift v \<le> 1"
  using assms by (auto simp: insert_prediction_def insert_row_def split: if_splits)

lemma save_predictionsD:
  assumes "save_predictions fresh k n vs s = Inr s'"
  shows "pd_predictions s' = pd_predictions s @ vs"
    and "insertEvents (pd_db s) (numbered n (prediction_events fresh k vs)) = Inr (pd_db s')"
    and "\<forall>v \<in> set vs. 0 \<le> ap_RecoveryProbability v \<and> ap_RecoveryProbability v \<le> 1 \<and> -1 \<le> ap_IncrementalUplift v \<and> ap_IncrementalUplift v \<le> 1"
  using assms
proof (induction vs arbitrary: k n s)
  case (Cons v vs)
  {
    case 1
    then show ?case using Cons.IH(1) insert_predictionD by (fastforce split: sum.splits)
  next
    case 2
    then show ?case using Cons.IH(2) insert_predictionD
      by (fastforce simp: upt_conv_Cons simp del: upt_Suc split: sum.splits)
  next
    case 3
    then show ?case using Cons.IH(3) insert_predictionD by (fastforce split: sum.splits)
  }
qed simp_all

lemma prediction_event_case [simp]: "ev_CaseID (prediction_event i v) = ap_CaseID v"
  by (simp add: prediction_event_def event_of_def)

lemma SaveActionPredictionsD:
  assumes "SaveActionPredictions fresh vs s = Inr s'" and "\<forall>v \<in> set vs. ap_CaseID v = i"
  shows "pd_predictions s' = pd_predictions s @ vs" "lawful (pd_db s) (pd_db s')"
    "db_events (pd_db s') = db_events (pd_db s) @ numbered (nextSequence (pd_db s) i) (prediction_events fresh 0 vs)"
    "\<forall>v \<in> set vs. 0 \<le> ap_RecoveryProbability v \<and> ap_RecoveryProbability v \<le> 1 \<and> -1 \<le> ap_IncrementalUplift v \<and> ap_IncrementalUplift v \<le> 1"
proof -
  have "pd_predictions s' = pd_predictions s @ vs \<and> lawful (pd_db s) (pd_db s')
    \<and> db_events (pd_db s') = db_events (pd_db s) @ numbered (nextSequence (pd_db s) i) (prediction_events fresh 0 vs)
    \<and> (\<forall>v \<in> set vs. 0 \<le> ap_RecoveryProbability v \<and> ap_RecoveryProbability v \<le> 1 \<and> -1 \<le> ap_IncrementalUplift v \<and> ap_IncrementalUplift v \<le> 1)"
  proof (cases vs)
    case Nil
    then show ?thesis using assms(1) by (simp add: SaveActionPredictions_def)
  next
    case (Cons v ws)
    then have "save_predictions fresh 0 (nextSequence (pd_db s) i) vs s = Inr s'"
      using assms by (auto simp: SaveActionPredictions_def split: if_splits)
    note d = save_predictionsD [OF this]
    have a: "append_events (pd_db s) i (prediction_events fresh 0 vs) = Inr (pd_db s')" using d(2) by (simp add: append_events_def)
    have "\<forall>e \<in> set (prediction_events fresh 0 vs). ev_CaseID e = i" using assms(2) by (auto dest: set_zip_rightD)
    then show ?thesis using d lawful_append_events [OF a] append_events_log [OF a] by simp
  qed
  then show "pd_predictions s' = pd_predictions s @ vs" "lawful (pd_db s) (pd_db s')"
    "db_events (pd_db s') = db_events (pd_db s) @ numbered (nextSequence (pd_db s) i) (prediction_events fresh 0 vs)"
    "\<forall>v \<in> set vs. 0 \<le> ap_RecoveryProbability v \<and> ap_RecoveryProbability v \<le> 1 \<and> -1 \<le> ap_IncrementalUplift v \<and> ap_IncrementalUplift v \<le> 1"
    by blast+
qed

text \<open>A share of an amount is no more than the amount, rounding included.\<close>

lemma share_bound:
  assumes "\<bar>u\<bar> \<le> 1" and "\<bar>a\<bar> \<le> 2 ^ 52"
  shows "\<bar>int64_of (fmul u (float_of a))\<bar> \<le> \<bar>a\<bar>"
proof -
  have f: "\<bar>float_of a\<bar> \<le> of_int \<bar>a\<bar>" unfolding float_of_def by (rule fl_abs_le_int) (use assms(2) in simp_all)
  have "\<bar>u * float_of a\<bar> \<le> 1 * of_int \<bar>a\<bar>" unfolding abs_mult by (rule mult_mono) (use assms(1) f in simp_all)
  then have g: "\<bar>fmul u (float_of a)\<bar> \<le> of_int \<bar>a\<bar>" unfolding fmul_def by (intro fl_abs_le_int) (use assms(2) in simp_all)
  have "\<bar>trunc_rat x\<bar> \<le> m" if "\<bar>x\<bar> \<le> of_int m" for x :: rat and m
    using that by (auto simp: trunc_rat_def abs_le_iff) linarith+
  then have "\<bar>trunc_rat (fmul u (float_of a))\<bar> \<le> \<bar>a\<bar>" using g by blast
  then show ?thesis using assms(2) by (auto simp: int64_of_def in_i64_def)
qed

lemma eligible_open:
  assumes "a \<in> set (EligibleActions (Eligibility.Evaluate ctx))" and "a \<noteq> ActionStop"
  shows "rc_CurrentState (Case ctx) \<noteq> StateRecovered" "tc_EvaluatedAt (Timing ctx) < rc_RecoveryDeadline (Case ctx)"
proof -
  have e: "exclusion_reason ctx a = []" using assms(1) by (simp add: Eligibility.Evaluate_def)
  show "rc_CurrentState (Case ctx) \<noteq> StateRecovered" using e assms(2) by (force simp: exclusion_reason_def Let_def)
  show "tc_EvaluatedAt (Timing ctx) < rc_RecoveryDeadline (Case ctx)"
  proof (rule ccontr)
    assume "\<not> ?thesis"
    then show False using e assms(2) by (simp add: exclusion_reason_def Let_def split: if_splits)
  qed
qed

lemma asked_actions: "a \<in> set asked_for \<Longrightarrow> action_of (action_string a) = a \<and> a \<noteq> ActionStop"
  using proper_declared [of a] by (auto simp: asked_for_def declared_actions_def proper_action_def)

lemma service_PredictE:
  assumes "service_Predict predictor fresh now i s = Inr ((eligible, vs), s')"
  obtains ctx ps where "context_Get i now (pd_db s) = Inr ctx" "eligible = Eligibility.Evaluate ctx"
    "filter (\<lambda>a. a \<in> set asked_for) (EligibleActions eligible) \<noteq> []"
    "PredictOutcomes predictor ctx (map action_string (filter (\<lambda>a. a \<in> set asked_for) (EligibleActions eligible))) = Inr ps"
    "vs = map2 (\<lambda>k p. prediction_of (fresh 0 k) i (rc_AmountAtRiskMinor (Case ctx)) (natural_of ps) p) [0..<length ps] ps"
    "SaveActionPredictions (fresh 1) vs s = Inr s'"
proof -
  obtain ctx where c: "context_Get i now (pd_db s) = Inr ctx"
    using assms by (cases "context_Get i now (pd_db s)") (simp_all add: service_Predict_def)
  let ?as = "map action_string (filter (\<lambda>a. a \<in> set asked_for) (EligibleActions (Eligibility.Evaluate ctx)))"
  note run = assms [unfolded service_Predict_def c sum.case Let_def]
  have ne: "?as \<noteq> []" using run by (cases "?as = []") (simp_all only: simp_thms if_True sum.distinct)
  note run = run [unfolded if_not_P [OF ne]]
  obtain ps where p: "PredictOutcomes predictor ctx ?as = Inr ps" using run by (cases "PredictOutcomes predictor ctx ?as") simp_all
  let ?vs = "map2 (\<lambda>k p. prediction_of (fresh 0 k) i (rc_AmountAtRiskMinor (Case ctx)) (natural_of ps) p) [0..<length ps] ps"
  note run = run [unfolded p sum.case]
  obtain s2 where r: "SaveActionPredictions (fresh 1) ?vs s = Inr s2" using run by (cases "SaveActionPredictions (fresh 1) ?vs s") simp_all
  have e: "eligible = Eligibility.Evaluate ctx" "vs = ?vs" "s' = s2" using run unfolding r by simp_all
  show ?thesis by (rule that [OF c e(1)]) (use ne p r e in simp_all)
qed


section \<open>Examples\<close>

definition first_predictor :: Predictor where
  "first_predictor = echo_predictor\<lparr>PredictOutcomes := \<lambda>_ actions. Inr (map (\<lambda>a. reminder_prediction\<lparr>pr_Action := a\<rparr>) (take 1 actions))\<rparr>"

definition unpredicted :: Predicted where
  "unpredicted = \<lparr>pd_db = pending_db, pd_predictions = []\<rparr>"

lemma pending_asked: "ActionWait \<in> set (EligibleActions (Eligibility.Evaluate (assemble (example_build (example_case_at StateActionPending 1 0) 9))))"
  by code_simp


end
