(* ===== verification/Api.thy ===== *)
theory Api
  imports Demo_Scenarios Merchant_Profiles Model_Registry Planning Predictions
begin

text \<open>
  The HTTP handlers (\<open>internal/api\<close>) that change state, with the status they answer and the code
  of a problem. A body that the framework cannot bind is None; the JSON of a successful answer is
  the result of the service and is left out. \<open>Answer\<close> 0 stands for no answer, a panic.
\<close>

section \<open>Errors\<close>

type_synonym Answer = "int \<times> string"

definition text_contains :: "string \<Rightarrow> string \<Rightarrow> bool" where
  "text_contains t s \<longleftrightarrow> sublist t s"

text \<open>\<open>handleServiceError\<close>. The text of a transition error quotes the state a request asked for.\<close>

definition illegal_text :: string where
  "illegal_text = ''invalid recovery case transition''"

fun transition_text :: "error \<Rightarrow> bool" where
  "transition_text (ErrTransition (InvalidTransition _ _)) = True"
| "transition_text (ErrTransition (UnknownSource t)) = text_contains illegal_text t"
| "transition_text (ErrTransition (UnknownTarget t)) = text_contains illegal_text t"
| "transition_text (ErrMsg t) = text_contains illegal_text t"
| "transition_text _ = False"

definition handleServiceError :: "error \<Rightarrow> Answer" where
  "handleServiceError e =
     (if e = ErrNotFound then (404, ''not_found'')
      else if e = ErrConflict then (409, ''version_conflict'')
      else if e = ErrNotReviewable then (409, ''review_conflict'')
      else if transition_text e then (422, ''invalid_state_transition'')
      else (422, ''operation_failed''))"

definition reply :: "(error \<Rightarrow> Answer) \<Rightarrow> ('a \<Rightarrow> int) \<Rightarrow> (error, 'a \<times> 's) result \<Rightarrow> 's \<Rightarrow> Answer \<times> 's" where
  "reply problem status result s = (case result of Inl e \<Rightarrow> (problem e, s) | Inr (x, s) \<Rightarrow> ((status x, []), s))"

abbreviation bad_request :: "error \<Rightarrow> Answer" where
  "bad_request \<equiv> \<lambda>_. (400, [])"

abbreviation created_status :: "bool \<Rightarrow> int" where
  "created_status created \<equiv> if created then 201 else 200"

section \<open>Recovery cases\<close>

definition cases_create :: "(nat \<Rightarrow> ID) \<Rightarrow> time \<Rightarrow> CreateCaseInput option \<Rightarrow> Database \<Rightarrow> Answer \<times> Database" where
  "cases_create fresh now body db =
     (case body of None \<Rightarrow> ((400, ''invalid_request''), db)
      | Some input \<Rightarrow> reply (\<lambda>_. (422, ''case_creation_failed'')) (\<lambda>_. 201) (service_CreateCase fresh now input db) db)"

definition cases_get :: "ID \<Rightarrow> Database \<Rightarrow> Answer" where
  "cases_get i db = (case GetCase i db of Inl e \<Rightarrow> handleServiceError e | Inr _ \<Rightarrow> (200, []))"

text \<open>The case is read as it was in \<open>seen\<close>.\<close>

definition cases_transition :: "(nat \<Rightarrow> ID) \<Rightarrow> time \<Rightarrow> ID \<Rightarrow> TransitionInput option \<Rightarrow> Database \<Rightarrow> Database \<Rightarrow> Answer \<times> Database" where
  "cases_transition fresh now i body seen db =
     (case body of None \<Rightarrow> ((400, ''invalid_request''), db)
      | Some input \<Rightarrow> reply handleServiceError (\<lambda>_. 200) (service_Transition fresh now i input seen db) db)"

definition cases_events :: "ID \<Rightarrow> Database \<Rightarrow> Answer" where
  "cases_events i db = (case service_Events i db of Inl e \<Rightarrow> handleServiceError e | Inr _ \<Rightarrow> (200, []))"

definition cases_recordEvent :: "(nat \<Rightarrow> ID) \<Rightarrow> time \<Rightarrow> ID \<Rightarrow> RecordEventInput option \<Rightarrow> Database \<Rightarrow> Answer \<times> Database" where
  "cases_recordEvent fresh now i body db =
     (case body of None \<Rightarrow> ((400, ''invalid_request''), db)
      | Some input \<Rightarrow> reply handleServiceError (\<lambda>_. 201) (service_RecordEvent fresh now i input db) db)"

section \<open>Decisions, promises, responses and payments\<close>

definition api_decide :: "Predictor \<Rightarrow> zone_db \<Rightarrow> (nat \<Rightarrow> nat \<Rightarrow> ID) \<Rightarrow> (nat \<Rightarrow> time) \<Rightarrow> ID \<Rightarrow> Database \<Rightarrow> Answer \<times> Database" where
  "api_decide predictor zone fresh clock i db =
     (case Decide predictor zone fresh clock i db of (Inl e, db) \<Rightarrow> (handleServiceError e, db) | (Inr _, db) \<Rightarrow> ((201, []), db))"

definition promises_create :: "(string \<times> int) list \<Rightarrow> zone_db \<Rightarrow> (nat \<Rightarrow> ID) \<Rightarrow> time \<Rightarrow> ID \<Rightarrow> CreateInput option \<Rightarrow> Database
    \<Rightarrow> Answer \<times> Database" where
  "promises_create weekdays zone fresh now i body db =
     (case body of None \<Rightarrow> ((400, []), db)
      | Some input \<Rightarrow> reply bad_request (\<lambda>(_, created). created_status created)
          (promises_Create weekdays zone fresh now (input\<lparr>ci_CaseID := i, ci_SourceResponseID := None\<rparr>) db) db)"

definition promises_cancel :: "(nat \<Rightarrow> ID) \<Rightarrow> time \<Rightarrow> ID \<Rightarrow> string \<Rightarrow> Database \<Rightarrow> Answer \<times> Database" where
  "promises_cancel fresh now i correlationID db = reply handleServiceError (\<lambda>_. 200) (promises_Cancel fresh now i correlationID db) db"

text \<open>The payload of a response is marshalled again: an absent one becomes \<open>null\<close>.\<close>

definition responses_ingest :: "PromiseCreator option \<Rightarrow> (nat \<Rightarrow> ID) \<Rightarrow> time \<Rightarrow> ID \<Rightarrow> (string \<times> json \<times> string \<times> string) option \<Rightarrow> Database
    \<Rightarrow> Answer \<times> Database" where
  "responses_ingest creator fresh now i body db =
     (case body of None \<Rightarrow> ((400, []), db)
      | Some (type, value, source, correlationID) \<Rightarrow>
          if type = [] \<or> source = [] \<or> correlationID = [] then ((400, []), db)
          else
            (case Ingest creator fresh now \<lparr>ir_ID = [], ir_CaseID = i, ir_Type = type, ir_Payload = Payload value, ir_Source = source,
                ir_ReceivedAt = 0, ir_CorrelationID = correlationID\<rparr> db of
               (Inl e, db) \<Rightarrow> (handleServiceError e, db)
             | (Inr (_, _, Some e), db) \<Rightarrow> (handleServiceError e, db)
             | (Inr (_, created, None), db) \<Rightarrow> ((created_status created, []), db)))"

definition attributions_observe :: "(nat \<Rightarrow> ID) \<Rightarrow> time \<Rightarrow> ID \<Rightarrow> ObserveInput option \<Rightarrow> Database \<Rightarrow> Answer \<times> Database" where
  "attributions_observe fresh now i body db =
     (case body of None \<Rightarrow> ((400, []), db)
      | Some input \<Rightarrow> reply handleServiceError (\<lambda>(_, created). created_status created)
          (Observe fresh now (input\<lparr>ob_CaseID := i\<rparr>) db) db)"

section \<open>Reviews\<close>

definition operations_review :: "zone_db \<Rightarrow> (nat \<Rightarrow> ID) \<Rightarrow> (nat \<Rightarrow> time) \<Rightarrow> time \<Rightarrow> ID \<Rightarrow> ReviewInput option \<Rightarrow> Database \<Rightarrow> Answer \<times> Database" where
  "operations_review zone fresh clock dbNow i body db =
     (case body of None \<Rightarrow> ((400, ''invalid_review''), db)
      | Some input \<Rightarrow> reply handleServiceError (\<lambda>(_, _, created). created_status created)
          (operations_Review zone fresh clock dbNow i (input\<lparr>ri_OperatorID := TrimSpace (ri_OperatorID input)\<rparr>) db) db)"

definition next_step :: "Review \<Rightarrow> ScheduledAction option \<Rightarrow> string" where
  "next_step review scheduled =
     (if rv_Decision review = Approve \<and> scheduled \<noteq> None then ''ACTION_SCHEDULED_AFTER_REAUTHORIZATION''
      else if rv_ReauthorizationResult review \<in> {''STALE_APPROVAL'', ''DENIED'', ''STOPPED''} then ''NO_EXECUTION_REASSESS_REQUIRED''
      else if rv_Decision review = Stop then ''CASE_STOPPED''
      else if rv_Decision review = Defer then ''DEFERRED_UNTIL_REVIEW_AFTER''
      else ''REMAINS_IN_REVIEW'')"

section \<open>Detection and the scenario laboratory\<close>

definition detection_subscription :: "(nat \<Rightarrow> ID) \<Rightarrow> time \<Rightarrow> RawMessage \<Rightarrow> string \<Rightarrow> Intake \<Rightarrow> Answer \<times> Intake" where
  "detection_subscription fresh now body eventID s =
     (case Detect (SubscriptionAdapter ''normalized'') fresh now body eventID s of
        (Inl _, s) \<Rightarrow> ((422, ''detection_failed''), s) | (Inr _, s) \<Rightarrow> ((200, []), s))"

definition detection_checkoutEvent :: "(nat \<Rightarrow> ID) \<Rightarrow> time \<Rightarrow> RawMessage \<Rightarrow> string \<Rightarrow> Intake \<Rightarrow> Answer \<times> Intake" where
  "detection_checkoutEvent fresh now body eventID s =
     (case Detect CheckoutAdapter fresh now body eventID s of
        (Inl _, s) \<Rightarrow> ((422, ''detection_failed''), s) | (Inr r, s) \<Rightarrow> ((if dt_RiskDetected r then 200 else 202, []), s))"

fun demo_status :: "DemoAnswer \<Rightarrow> Answer" where
  "demo_status DemoDisabled = (404, [])"
| "demo_status DemoUnsupported = (400, [])"
| "demo_status (DemoError e) = handleServiceError e"
| "demo_status DemoPanic = (0, [])"
| "demo_status (DemoCreated _ _ _ _ _ _) = (201, [])"

section \<open>Plans, profiles and models\<close>

definition portfolio_priority :: "(nat \<Rightarrow> ID) \<Rightarrow> time \<Rightarrow> ID \<Rightarrow> Plans \<Rightarrow> Answer \<times> Plans" where
  "portfolio_priority fresh now m s =
     (case plan_priorities fresh now s m of Inl e \<Rightarrow> (handleServiceError e, s) | Inr (_, _, s) \<Rightarrow> ((201, []), s))"

definition portfolio_allocate :: "(nat \<Rightarrow> ID) \<Rightarrow> time \<Rightarrow> ID \<Rightarrow> (ID \<times> string \<times> Limits) option \<Rightarrow> Plans \<Rightarrow> Answer \<times> Plans" where
  "portfolio_allocate fresh now m body s =
     (case body of None \<Rightarrow> ((400, []), s)
      | Some (priorityRunID, algorithm, limits) \<Rightarrow>
          if priorityRunID = [] then ((400, []), s)
          else if SpendMinor limits < 0 \<or> Contacts limits < 0 \<or> Retries limits < 0 \<or> DiscountMinor limits < 0 \<or> HumanReviews limits < 0
            then ((400, []), s)
          else reply handleServiceError (\<lambda>_. 201) (plan_budget fresh now s m priorityRunID algorithm limits) s)"

definition profiles_create :: "(nat \<Rightarrow> ID) \<Rightarrow> time \<Rightarrow> ID \<Rightarrow> MerchantOptimizationProfile option \<Rightarrow> Database \<Rightarrow> Answer \<times> Database" where
  "profiles_create fresh now m body db =
     (case body of None \<Rightarrow> ((400, []), db)
      | Some input \<Rightarrow> reply bad_request (\<lambda>_. 201) (profile_Create fresh now (input\<lparr>op_MerchantID := m\<rparr>) db) db)"

definition models_create :: "(nat \<Rightarrow> ID) \<Rightarrow> time \<Rightarrow> (Entry \<times> RawMessage) option \<Rightarrow> Registry \<Rightarrow> Answer \<times> Registry" where
  "models_create fresh now body r =
     (case body of None \<Rightarrow> ((400, []), r) | Some (entry, actor) \<Rightarrow> reply bad_request (\<lambda>_. 201) (registry_Create fresh now entry actor r) r)"

definition models_status :: "(nat \<Rightarrow> ID) \<Rightarrow> time \<Rightarrow> ID \<Rightarrow> StatusInput option \<Rightarrow> Registry \<Rightarrow> Answer \<times> Registry" where
  "models_status fresh now i body r =
     (case body of None \<Rightarrow> ((400, []), r)
      | Some input \<Rightarrow> reply handleServiceError (\<lambda>_. 200) (registry_Transition fresh now i input r) r)"

section \<open>Reading\<close>

definition read_status :: "(error, 'a) result \<Rightarrow> Answer" where
  "read_status result = (case result of Inl e \<Rightarrow> handleServiceError e | Inr _ \<Rightarrow> (200, []))"

definition promises_get :: "ID \<Rightarrow> Database \<Rightarrow> Answer" where
  "promises_get i db = read_status (GetPromise i db)"

definition operations_get :: "time \<Rightarrow> ID \<Rightarrow> Database \<Rightarrow> Answer" where
  "operations_get dbNow i db = read_status (GetOperationsQueueItem dbNow i db)"

definition profiles_get :: "ID \<Rightarrow> Database \<Rightarrow> Answer" where
  "profiles_get m db = read_status (GetMerchantOptimizationProfile m db)"

definition models_get :: "ID \<Rightarrow> Registry \<Rightarrow> Answer" where
  "models_get i r = read_status (GetModelEntry i r)"

definition api_context :: "ID \<Rightarrow> time \<Rightarrow> Database \<Rightarrow> Answer" where
  "api_context i now db = read_status (context_Get i now db)"

definition api_compareObjectives :: "Predictor \<Rightarrow> time \<Rightarrow> time \<Rightarrow> ID \<Rightarrow> Database \<Rightarrow> Answer" where
  "api_compareObjectives predictor contextNow now i db =
     (case context_Get i contextNow db of Inl e \<Rightarrow> handleServiceError e
      | Inr ctx \<Rightarrow> read_status (map_sum ErrMsg id (CompareObjectives (\<lambda>_. Inr ctx) predictor now i)))"

definition api_predict :: "Predictor \<Rightarrow> (nat \<Rightarrow> nat \<Rightarrow> ID) \<Rightarrow> time \<Rightarrow> ID \<Rightarrow> Predicted \<Rightarrow> Answer \<times> Predicted" where
  "api_predict predictor fresh now i s = reply (\<lambda>_. (422, ''prediction_failed'')) (\<lambda>_. 200) (service_Predict predictor fresh now i s) s"

section \<open>Requests\<close>

text \<open>The services behind the handlers, and the requests that change the cases or the events of the provider.\<close>

record ApiServices = DemoServices +
  sv_Ingestor :: Ingestor

datatype Request =
  PostCase "CreateCaseInput option" | PostTransition ID "TransitionInput option" Database | PostEvent ID "RecordEventInput option"
  | PostDecision ID | PostPromise ID "CreateInput option" | PostCancel ID string
  | PostResponse ID "(string \<times> json \<times> string \<times> string) option" | PostObservation ID "ObserveInput option"
  | PostReview ID "ReviewInput option" | PostSubscription RawMessage string | PostCheckout RawMessage string
  | PostWebhook string string string | PostDemo string | PostDemoOutcome ID string

definition on_db :: "(Database \<Rightarrow> Answer \<times> Database) \<Rightarrow> Intake \<Rightarrow> Answer \<times> Intake" where
  "on_db f s = (case f (in_db s) of (a, db) \<Rightarrow> (a, s\<lparr>in_db := db\<rparr>))"

fun demo_outcome :: "(error, PromiseToPay) result option \<Rightarrow> Answer" where
  "demo_outcome None = (404, [])"
| "demo_outcome (Some (Inl e)) = handleServiceError e"
| "demo_outcome (Some (Inr _)) = (200, [])"

fun serve :: "ApiServices \<Rightarrow> (nat \<Rightarrow> nat \<Rightarrow> ID) \<Rightarrow> (nat \<Rightarrow> nat \<Rightarrow> time) \<Rightarrow> Request \<Rightarrow> Intake \<Rightarrow> Answer \<times> Intake" where
  "serve h fresh clock (PostCase body) s = on_db (cases_create (fresh 0) (clock 0 0) body) s"
| "serve h fresh clock (PostTransition i body seen) s = on_db (cases_transition (fresh 0) (clock 0 0) i body seen) s"
| "serve h fresh clock (PostEvent i body) s = on_db (cases_recordEvent (fresh 0) (clock 0 0) i body) s"
| "serve h fresh clock (PostDecision i) s = on_db (api_decide (dm_Predictor h) (dm_Zone h) fresh (clock 0) i) s"
| "serve h fresh clock (PostPromise i body) s = on_db (promises_create (dm_Weekdays h) (dm_Zone h) (fresh 0) (clock 0 0) i body) s"
| "serve h fresh clock (PostCancel i correlationID) s = on_db (promises_cancel (fresh 0) (clock 0 0) i correlationID) s"
| "serve h fresh clock (PostResponse i body) s = on_db (responses_ingest
     (Some (CreateFromResponse (dm_Weekdays h) (dm_Zone h) (fresh 1) (clock 1 0))) (fresh 0) (clock 0 0) i body) s"
| "serve h fresh clock (PostObservation i body) s = on_db (attributions_observe (fresh 0) (clock 0 0) i body) s"
| "serve h fresh clock (PostReview i body) s = on_db (operations_review (dm_Zone h) (fresh 0) (clock 0) (clock 1 0) i body) s"
| "serve h fresh clock (PostSubscription body eventID) s = detection_subscription (fresh 0) (clock 0 0) body eventID s"
| "serve h fresh clock (PostCheckout body eventID) s = detection_checkoutEvent (fresh 0) (clock 0 0) body eventID s"
| "serve h fresh clock (PostWebhook body signature eventID) s =
     (case razorpayWebhook (sv_Ingestor h) (fresh 0) (clock 0) body signature eventID s of (status, s) \<Rightarrow>
        ((int status, if status = 200 then [] else ''webhook_rejected''), s))"
| "serve h fresh clock (PostDemo scenario) s =
     (case demo_create (DemoServices.truncate h) fresh clock scenario s of (a, s) \<Rightarrow> (demo_status a, s))"
| "serve h fresh clock (PostDemoOutcome i wanted) s =
     on_db (\<lambda>db. case demo_resolve (DemoServices.truncate h) (fresh 0) (clock 0 0) i wanted db of (a, db) \<Rightarrow> (demo_outcome a, db)) s"

text \<open>The requests made of one transaction.\<close>

fun single_transaction :: "Request \<Rightarrow> bool" where
  "single_transaction (PostDecision _) = False"
| "single_transaction (PostResponse _ _) = False"
| "single_transaction (PostDemo _) = False"
| "single_transaction (PostDemoOutcome _ _) = False"
| "single_transaction _ = True"

lemma replyE:
  assumes "reply problem status result s = (a, s')"
  obtains (failed) e where "result = Inl e" "a = problem e" "s' = s" | (ok) x where "result = Inr (x, s')" "a = (status x, [])"
  using assms by (cases result) (auto simp: reply_def split: prod.splits)

lemma on_dbE:
  assumes "on_db f s = (a, s')"
  obtains db where "f (in_db s) = (a, db)" "s' = s\<lparr>in_db := db\<rparr>"
  using assms by (auto simp: on_db_def split: prod.splits)

lemma problem_status: "400 \<le> fst (handleServiceError e)"
  by (simp add: handleServiceError_def)

text \<open>A failed transaction of a handler leaves the database; a successful one is a run, with a status below 400.\<close>

definition handled_ok :: "Database \<Rightarrow> Answer \<Rightarrow> Database \<Rightarrow> bool" where
  "handled_ok db a db' \<longleftrightarrow> run db db' \<and> (400 \<le> fst a \<longrightarrow> db' = db)"

lemma reply_handled:
  assumes "reply problem status result db = (a, db')" and "\<And>x. result = Inr (x, db') \<Longrightarrow> run db db' \<and> status x < 400"
  shows "handled_ok db a db'"
  using assms(1)
proof (cases rule: replyE)
  case failed
  then show ?thesis by (simp add: handled_ok_def)
next
  case (ok x)
  then show ?thesis using assms(2) [OF ok(1)] by (simp add: handled_ok_def)
qed

lemma run_review: "ApplyHumanReview fresh cmd db = Inr (x, db') \<Longrightarrow> run db db'"
  by (rule run_one, erule transaction.review)

lemma run_operations_Review: "operations_Review zone fresh clock dbNow i input db = Inr (x, db') \<Longrightarrow> run db db'"
  by (auto simp: operations_Review_def andThen_Inr dest!: run_review split: option.splits if_splits)

lemma single_handlers:
  "cases_create fresh now cb db = (a, db') \<Longrightarrow> handled_ok db a db'"
  "cases_recordEvent fresh now i eb db = (a, db') \<Longrightarrow> handled_ok db a db'"
  "promises_create weekdays zone fresh now i pb db = (a, db') \<Longrightarrow> handled_ok db a db'"
  "promises_cancel fresh now i correlationID db = (a, db') \<Longrightarrow> handled_ok db a db'"
  "attributions_observe fresh now i ob db = (a, db') \<Longrightarrow> handled_ok db a db'"
  "operations_review zone fresh clock dbNow i rb db = (a, db') \<Longrightarrow> handled_ok db a db'"
proof -
  have same: "handled_ok db a db" by (simp add: handled_ok_def)
  show "cases_create fresh now cb db = (a, db') \<Longrightarrow> handled_ok db a db'"
    using same by (cases cb) (auto simp: cases_create_def intro: run_one transaction.open_case elim!: reply_handled)
  show "cases_recordEvent fresh now i eb db = (a, db') \<Longrightarrow> handled_ok db a db'"
    using same by (cases eb) (auto simp: cases_recordEvent_def intro: run_one transaction.record_event elim!: reply_handled)
  show "promises_create weekdays zone fresh now i pb db = (a, db') \<Longrightarrow> handled_ok db a db'"
    using same by (cases pb) (auto simp: promises_create_def promises_Create_def andThen_Inr intro: run_promise elim!: reply_handled
      split: option.splits if_splits)
  show "promises_cancel fresh now i correlationID db = (a, db') \<Longrightarrow> handled_ok db a db'"
    by (auto simp: promises_cancel_def promises_Cancel_def intro: run_one transaction.cancel_promise elim!: reply_handled)
  show "attributions_observe fresh now i ob db = (a, db') \<Longrightarrow> handled_ok db a db'"
    using same by (cases ob) (auto simp: attributions_observe_def intro: run_Observe elim!: reply_handled)
  show "operations_review zone fresh clock dbNow i rb db = (a, db') \<Longrightarrow> handled_ok db a db'"
    using same by (cases rb) (auto simp: operations_review_def intro: run_operations_Review elim!: reply_handled)
qed


lemma run_CreateResponse: "responses_ingest (Some (CreateFromResponse weekdays zone fresh t)) fresh2 now i body db = (a, db') \<Longrightarrow> run db db'"
  by (auto simp: responses_ingest_def dest: run_Ingest split: option.splits prod.splits sum.splits if_splits)

lemma run_api_decide: "api_decide predictor zone fresh clock i db = (a, db') \<Longrightarrow> run db db'"
  by (auto simp: api_decide_def dest: run_Decide split: prod.splits sum.splits)

lemma run_demo_promise: "demo_promise h fresh t correlationID now c db = Inr (p, db') \<Longrightarrow> run db db'"
  by (auto simp: demo_promise_def promises_Create_def andThen_Inr dest!: run_promise split: sum.splits option.splits if_splits)

lemma run_demo_decide: "demo_decide h fresh clock scenario correlationID c p s = (a, s') \<Longrightarrow> run (in_db s) (in_db s')"
  by (auto simp: demo_decide_def dest: run_Decide split: prod.splits sum.splits)

lemma run_demo_detected:
  assumes "demo_detected h fresh clock scenario correlationID now (x, s) = (a, s')"
  shows "run (in_db s) (in_db s')"
proof (cases "s' = s")
  case False
  obtain r c where r: "x = Inr r" "dt_Case r = Some c"
    using assms False by (cases x) (auto simp: demo_detected_def split: option.splits)
  note go = assms [unfolded demo_detected_def prod.case r sum.case option.case]
  show ?thesis
  proof (cases "scenario = ''active_promise''")
    case True
    then have p: "dm_Promises h" using go False by (auto split: if_splits)
    obtain q where q: "demo_promise h (fresh 3) (clock 3 0) correlationID now c (in_db s) = q" by simp
    show ?thesis
    proof (cases q)
      case (Inl e)
      then show ?thesis using go True p q False by simp
    next
      case (Inr pd)
      obtain p' db where pd: "pd = (p', db)" by (cases pd)
      have "run db (in_db s')" using go True p q Inr pd by (auto dest!: run_demo_decide)
      moreover have "run (in_db s) db" using q Inr pd by (auto intro: run_demo_promise)
      ultimately show ?thesis by simp
    qed
  next
    case False
    then show ?thesis using go by (auto dest!: run_demo_decide)
  qed
qed simp

lemma run_demo_create: "demo_create h fresh clock param s = (a, s') \<Longrightarrow> run (in_db s) (in_db s')"
proof -
  have run_checkout: "run (in_db s) (in_db s1)" if "demo_checkout fresh clock n i now s = (x, s1)" for n i now x s1
  proof -
    obtain y s2 where y: "Detect CheckoutAdapter (fresh 1) (clock 1 0) (checkout_json (demo_started (''checkout_'' @ fresh 0 1)
        (if n = ''checkout_abandonment'' then 249900 else 899900) now)) (i @ '':started'') s = (y, s2)" by (metis prod.exhaust)
    note one = run_Detect(1) [OF y reads_only_checkout]
    show ?thesis
    proof (cases y)
      case (Inl e)
      then show ?thesis using that y one by (simp add: demo_checkout_def Let_def)
    next
      case (Inr r)
      then have "Detect CheckoutAdapter (fresh 2) (clock 2 0) (checkout_json (demo_abandoned (''checkout_'' @ fresh 0 1) now))
          (i @ '':abandoned'') s2 = (x, s1)" using that y by (simp add: demo_checkout_def Let_def)
      from run_Detect(1) [OF this reads_only_checkout] show ?thesis using one by simp
    qed
  qed
  have run_payment: "run (in_db s) (in_db s1)" if "demo_payment fresh clock n i now s = (x, s1)" for n i now x s1
    using run_Detect(1) [OF that [unfolded demo_payment_def] reads_only_subscription] .
  assume "demo_create h fresh clock param s = (a, s')"
  then show ?thesis
  proof (cases rule: demo_createE)
    case checkout
    obtain x s1 where x: "demo_checkout fresh clock (lower (TrimSpace param)) (''demo:'' @ fresh 0 0) (clock 0 0) s = (x, s1)" by (metis prod.exhaust)
    show ?thesis using run_demo_detected [OF checkout(2) [unfolded x]] run_checkout [OF x] by simp
  next
    case payment
    obtain x s1 where x: "demo_payment fresh clock (lower (TrimSpace param)) (''demo:'' @ fresh 0 0) (clock 0 0) s = (x, s1)" by (metis prod.exhaust)
    show ?thesis using run_demo_detected [OF payment(2) [unfolded x]] run_payment [OF x] by simp
  qed simp
qed

lemma run_demo_resolve:
  assumes "demo_resolve h fresh now i wanted db = (a, db')" and "commits (dm_Reassessor h)"
  shows "run db db'"
proof -
  obtain y d where y: "ResolveForDemo (dm_Reassessor h) fresh now i wanted db = (y, d)" by (metis prod.exhaust)
  have d: "db' = db \<or> db' = d"
    using assms(1) y by (auto simp: demo_resolve_def split: if_splits sum.splits option.splits)
  have "run db d"
  proof (cases "d = db")
    case False
    then obtain forced p d1 where p: "ResolvePromiseForDemo fresh i forced now db = Inr (p, d1)"
      and "d = d1 \<or> (\<exists>f e. dm_Reassessor h = Some f \<and> f (pp_CaseID p) d1 = (e, d))"
      using y by (auto simp: ResolveForDemo_def Let_def split: if_splits sum.splits option.splits prod.splits)
    then have "run d1 d" using assms(2) by (auto dest: commitsD)
    moreover have "run db d1" using p by (auto intro: run_one transaction.resolve_demo)
    ultimately show ?thesis by simp
  qed simp
  then show ?thesis using d by auto
qed

lemma detection_handlers:
  "detection_subscription fresh now body i s = (a, s') \<Longrightarrow> handled_ok (in_db s) a (in_db s')"
  "detection_checkoutEvent fresh now body i s = (a, s') \<Longrightarrow> handled_ok (in_db s) a (in_db s')"
proof -
  have keep: "in_db s1 = in_db s" if "Detect adapter fresh now body i s = (Inl e, s1)" "reads_only adapter" for adapter e s1
    using that by (auto simp: Detect_def reads_only_def split: prod.splits sum.splits option.splits if_splits)
  show "detection_subscription fresh now body i s = (a, s') \<Longrightarrow> handled_ok (in_db s) a (in_db s')"
    using keep run_Detect(1) reads_only_subscription
    by (fastforce simp: detection_subscription_def handled_ok_def split: prod.splits sum.splits)
  show "detection_checkoutEvent fresh now body i s = (a, s') \<Longrightarrow> handled_ok (in_db s) a (in_db s')"
    using keep run_Detect(1) reads_only_checkout
    by (fastforce simp: detection_checkoutEvent_def handled_ok_def split: prod.splits sum.splits if_splits)
qed

lemma webhook_handler:
  assumes "razorpayWebhook g fresh clock body signature i s = (status, s')"
  shows "handled_ok (in_db s) (int status, code) (in_db s')"
proof -
  obtain r where r: "webhook_Ingest g fresh clock (take (2 * 1024 * 1024) body) signature i s = (r, s')" "status = webhook_status r"
    using assms by (auto simp: razorpayWebhook_def split: prod.splits)
  have "run (in_db s) (in_db s')" using delivery_events [OF r(1)] by auto
  moreover have "in_db s' = in_db s" if f: "r = Inl e" for e
    using r(1)
  proof (cases rule: webhook_IngestE)
    case (handled en x s1)
    have x: "x = Inl e" "in_db s' = in_db s1"
      using handled(7) f by (cases x; simp add: finish_def MarkWebhookProcessed_def)+
    have keep: "in_db s2 = in_db s0" if "Detect adapter f t p i s0 = (Inl e2, s2)" "reads_only adapter" for adapter f t p s0 e2 s2
      using that by (auto simp: Detect_def reads_only_def split: prod.splits sum.splits option.splits if_splits)
    have "in_db s1 = in_db s"
      using handled(6) unfolding x
      by (auto simp: process_def detect_failure_def dest!: keep [OF _ reads_only_subscription] split: if_splits sum.splits prod.splits)
    then show ?thesis using x by simp
  qed (use f in simp_all)
  moreover have "status < 400" if "is_ok r" using that r(2) by (auto simp: webhook_status_def split: sum.splits)
  ultimately show ?thesis by (cases r) (auto simp: handled_ok_def)
qed

lemma on_db_handled: "(\<And>db'. f (in_db s) = (a, db') \<Longrightarrow> handled_ok (in_db s) a db') \<Longrightarrow> on_db f s = (a, s') \<Longrightarrow> handled_ok (in_db s) a (in_db s')"
  by (elim on_dbE) simp

lemma on_db_run: "(\<And>a' db'. f (in_db s) = (a', db') \<Longrightarrow> run (in_db s) db') \<Longrightarrow> on_db f s = (a, s') \<Longrightarrow> run (in_db s) (in_db s')"
  by (elim on_dbE) simp

lemma serve_single:
  assumes "serve h fresh clock request s = (a, s')" and "single_transaction request" and "\<And>i b seen. request \<noteq> PostTransition i b seen"
  shows "handled_ok (in_db s) a (in_db s')"
proof (cases request)
  case (PostWebhook body signature i)
  obtain status s1 where w: "razorpayWebhook (sv_Ingestor h) (fresh 0) (clock 0) body signature i s = (status, s1)" by (metis prod.exhaust)
  then show ?thesis using assms(1) PostWebhook webhook_handler [OF w] by auto
next
  case (PostSubscription body i)
  then show ?thesis using assms(1) detection_handlers(1) by simp
next
  case (PostCheckout body i)
  then show ?thesis using assms(1) detection_handlers(2) by simp
next
  case (PostCase body)
  show ?thesis by (rule on_db_handled [OF single_handlers(1)]) (use assms(1) PostCase in simp_all)
next
  case (PostEvent i body)
  show ?thesis by (rule on_db_handled [OF single_handlers(2)]) (use assms(1) PostEvent in simp_all)
next
  case (PostPromise i body)
  show ?thesis by (rule on_db_handled [OF single_handlers(3)]) (use assms(1) PostPromise in simp_all)
next
  case (PostCancel i corr)
  show ?thesis by (rule on_db_handled [OF single_handlers(4)]) (use assms(1) PostCancel in simp_all)
next
  case (PostObservation i body)
  show ?thesis by (rule on_db_handled [OF single_handlers(5)]) (use assms(1) PostObservation in simp_all)
next
  case (PostReview i body)
  show ?thesis by (rule on_db_handled [OF single_handlers(6)]) (use assms(1) PostReview in simp_all)
qed (use assms(2,3) in simp_all)

lemma serve_composed:
  assumes "serve h fresh clock request s = (a, s')" and "\<not> single_transaction request" and "commits (dm_Reassessor h)"
  shows "run (in_db s) (in_db s')"
proof (cases request)
  case (PostDecision i)
  show ?thesis by (rule on_db_run [OF run_api_decide]) (use assms(1) PostDecision in simp_all)
next
  case (PostResponse i body)
  show ?thesis by (rule on_db_run [OF run_CreateResponse]) (use assms(1) PostResponse in simp_all)
next
  case (PostDemo scenario)
  obtain x s1 where "demo_create (DemoServices.truncate h) fresh clock scenario s = (x, s1)" by (metis prod.exhaust)
  then show ?thesis using assms(1) PostDemo run_demo_create by auto
next
  case (PostDemoOutcome i wanted)
  have c: "commits (dm_Reassessor (DemoServices.truncate h))" using assms(3) by (simp add: DemoServices.truncate_def)
  obtain x db where x: "demo_resolve (DemoServices.truncate h) (fresh 0) (clock 0 0) i wanted (in_db s) = (x, db)" by (metis prod.exhaust)
  have "in_db s' = db" using assms(1) PostDemoOutcome x by (auto simp: on_db_def)
  then show ?thesis using run_demo_resolve [OF x c] by simp
qed (use assms(2) in simp_all)

section \<open>What the requests do\<close>


text \<open>Which status a requested transition is answered with.\<close>

theorem transition_answers:
  assumes "cases_transition fresh now i (Some input) seen db = (a, db')"
  shows "(find_case seen i = None \<longrightarrow> a = (404, ''not_found'') \<and> db' = db)
    \<and> (\<forall>c. find_case seen i = Some c \<longrightarrow>
        (if ti_ExpectedVersion input \<notin> {0, rc_Version c} then a = (409, ''version_conflict'') \<and> db' = db
         else if \<not> IsValid (rc_CurrentState c) \<or> \<not> IsValid (ti_ToState input) then fst a = 422 \<and> db' = db
         else if \<not> CanTransition (rc_CurrentState c) (ti_ToState input) then a = (422, ''invalid_state_transition'') \<and> db' = db
         else if (case find_case db i of None \<Rightarrow> True | Some d \<Rightarrow> rc_Version d \<noteq> rc_Version c)
           then a = (409, ''version_conflict'') \<and> db' = db
         else fst a = 422 \<and> db' = db \<or> a = (200, []) \<and> (\<exists>d. find_case db' i = Some d \<and> rc_CurrentState d = ti_ToState input
             \<and> rc_Version d = rc_Version c + 1)))"
proof (cases "find_case seen i")
  case None
  then show ?thesis using assms by (simp add: cases_transition_def service_Transition_def GetCase_def reply_def handleServiceError_def)
next
  case (Some c)
  define r where "r = service_Transition fresh now i input seen db"
  have a: "(a, db') = reply handleServiceError (\<lambda>_. 200) r db" using assms by (simp add: cases_transition_def r_def)
  show ?thesis
  proof (cases "ti_ExpectedVersion input \<notin> {0, rc_Version c} \<or> ValidateTransition (rc_CurrentState c) (ti_ToState input) \<noteq> None
      \<or> (case find_case db i of None \<Rightarrow> True | Some d \<Rightarrow> rc_Version d \<noteq> rc_Version c)")
    case True
    then show ?thesis
      using a Some unfolding r_def service_Transition_def GetCase_def TransitionCase_def Let_def ValidateTransition_def reply_def handleServiceError_def
      by (auto split: option.splits if_splits)
  next
    case False
    then obtain d where d: "find_case db i = Some d" "rc_Version d = rc_Version c" by (cases "find_case db i") auto
    have v: "IsValid (rc_CurrentState c)" "IsValid (ti_ToState input)" "CanTransition (rc_CurrentState c) (ti_ToState input)"
      using False by (auto simp: ValidateTransition_def split: if_splits)
    show ?thesis
    proof (cases r)
      case (Inr y)
      obtain c' where y: "y = (c', db')" "a = (200, [])" using a Inr by (cases y) (simp add: reply_def)
      have "find_case db' i = Some (advance (ti_ToState input) now d)"
        using Inr y(1) d(1) unfolding r_def by (auto elim!: service_TransitionD dest!: TransitionCaseD(1))
      then show ?thesis using Some False d v y(2) by simp
    next
      case (Inl e)
      have "e \<notin> {ErrNotFound, ErrConflict, ErrNotReviewable}"
        using Inl Some False d v unfolding r_def service_Transition_def GetCase_def TransitionCase_def Let_def
        by (auto simp: insertEvent_def split: option.splits if_splits sum.splits)
      then have "fst (handleServiceError e) = 422" by (simp add: handleServiceError_def)
      then show ?thesis using a Inl Some False d v by (auto simp: reply_def)
    qed
  qed
qed

definition lab_services :: ApiServices where
  "lab_services = DemoServices.extend bare_services \<lparr>sv_Ingestor = example_ingestor JNull\<rparr>"


end
