(* ===== verification/Reports.thy ===== *)
theory Reports
  imports Api
begin

text \<open>
  What the operators read: the dashboard (\<open>internal/reporting/dashboard.go\<close> over
  \<open>internal/store/dashboard.go\<close>), the operational snapshot with its alerts
  (\<open>internal/observability/service.go\<close> over \<open>internal/store/observability.go\<close>) and their endpoints. A
  sum of a 64-bit column is exact in PostgreSQL and fails to scan when it does not fit; a count
  always fits. The dashboard's six queries are statements of their own, between which others may
  commit: \<open>seen k\<close> is the database at the k-th. The session's zone is UTC. \<open>text\<close> is the text \<open>->>\<close> gives a value that is no string,
  \<open>files\<close> what reading an evaluation artifact gives: an error or its bytes.
\<close>

section \<open>Sums and groups\<close>

definition scan_int64 :: "int \<Rightarrow> (error, int) result" where
  "scan_int64 v = (if in_i64 v then Inr v else Inl (ErrMsg ''value out of range''))"

definition amount :: "('r \<Rightarrow> int) \<Rightarrow> 'r list \<Rightarrow> int" where
  "amount f t = sum_list (map f t)"

definition number_of_rows :: "('r \<Rightarrow> bool) \<Rightarrow> 'r list \<Rightarrow> int" where
  "number_of_rows p t = int (length (filter p t))"

text \<open>\<open>GROUP BY\<close>: each key once, with its rows.\<close>

definition groups :: "('r \<Rightarrow> 'k) \<Rightarrow> 'r list \<Rightarrow> ('k \<times> 'r list) list" where
  "groups key t = map (\<lambda>k. (k, filter (\<lambda>r. key r = k) t)) (remdups (map key t))"

section \<open>The dashboard\<close>

record RootCause =
  rt_Cause :: string
  rt_Cases :: int
  rt_AmountAtRiskMinor :: int

record ActionSelection =
  as_Action :: string
  as_Cases :: int

record RecoveryPoint =
  rp_Day :: string
  rp_RecoveredMinor :: int
  rp_CumulativeRecoveredMinor :: int

text \<open>A row of the list of cases, a JSON object decoded into a map: its numbers are floating point.\<close>

record CaseItem =
  ct_CaseID :: ID
  ct_MerchantID :: ID
  ct_LeakType :: string
  ct_AmountAtRiskMinor :: float64
  ct_CurrentState :: string
  ct_CreatedAt :: time
  ct_UpdatedAt :: time
  ct_RecoveryDeadline :: time
  ct_RecoveredAmountMinor :: float64
  ct_AttributionStatus :: string
  ct_LastAction :: string
  ct_ExpectedNERVMinor :: float64
  ct_PolicyState :: string

record Operational =
  op_Mode :: string
  op_RevenueAtRiskMinor :: int
  op_RecoveredMinor :: int
  op_NaturalRecoveredMinor :: int
  op_AgentAttributedMinor :: int
  op_ActiveCases :: int
  op_CasesAwaitingReview :: int
  op_ActionsScheduled :: int
  op_RecoveryRate :: float64
  op_Cases :: "CaseItem list"
  op_RootCauses :: "RootCause list"
  op_ActionSelections :: "ActionSelection list"
  op_RecoveryTimeline :: "RecoveryPoint list"

definition closed_states :: "CaseState list" where
  "closed_states = [StateRecovered, StateEscalated, StateExhausted, StateStopped]"

definition case_item :: "Database \<Rightarrow> RecoveryCase \<Rightarrow> CaseItem" where
  "case_item db c =
     \<lparr>ct_CaseID = rc_ID c, ct_MerchantID = rc_MerchantID c, ct_LeakType = leak_string (rc_LeakType c),
      ct_AmountAtRiskMinor = float_of (rc_AmountAtRiskMinor c), ct_CurrentState = state_string (rc_CurrentState c),
      ct_CreatedAt = rc_CreatedAt c, ct_UpdatedAt = rc_UpdatedAt c, ct_RecoveryDeadline = rc_RecoveryDeadline c,
      ct_RecoveredAmountMinor = float_of (rc_RecoveredAmountMinor c), ct_AttributionStatus = rc_AttributionStatus c,
      ct_LastAction = (case latest ra_CreatedAt (filter (\<lambda>a. ra_CaseID a = rc_ID c) (db_actions db)) of
         None \<Rightarrow> [] | Some a \<Rightarrow> action_string (ra_Type a)),
      ct_ExpectedNERVMinor = (case latest (\<lambda>r. rr_CreatedAt (de_Optimization (dr_Decision r)))
           (filter (\<lambda>r. de_CaseID (dr_Decision r) = rc_ID c) (db_decisions db)) of
         None \<Rightarrow> 0 | Some r \<Rightarrow> float_of (cd_NERVMinor (rr_Selected (de_Optimization (dr_Decision r))))),
      ct_PolicyState = (case latest po_CreatedAt (filter (\<lambda>p. po_CaseID p = rc_ID c) (db_policies db)) of
         None \<Rightarrow> ''NOT_EVALUATED'' | Some p \<Rightarrow> po_Decision p)\<rparr>"

definition failure_category :: "(json \<Rightarrow> string) \<Rightarrow> RecoveryCase \<Rightarrow> string" where
  "failure_category text c =
     (let s = (case rc_FailureOrLeakContext c of
                 Some (JObj kvs) \<Rightarrow> (case member_of kvs ''failure_category'' of
                     None \<Rightarrow> [] | Some JNull \<Rightarrow> [] | Some (JStr s) \<Rightarrow> s | Some v \<Rightarrow> text v)
               | _ \<Rightarrow> [])
      in if s = [] then ''UNCLASSIFIED'' else s)"

text \<open>The rows of a cursor: the first that does not scan ends the loop with its error.\<close>

fun scan_causes :: "(string \<times> RecoveryCase list) list \<Rightarrow> (error, RootCause list) result" where
  "scan_causes [] = Inr []"
| "scan_causes ((k, cs) # rest) =
     andThen (scan_int64 (amount rc_AmountAtRiskMinor cs)) (\<lambda>v.
     andThen (scan_causes rest) (\<lambda>items.
       Inr (\<lparr>rt_Cause = k, rt_Cases = int (length cs), rt_AmountAtRiskMinor = v\<rparr> # items)))"

definition root_causes :: "(json \<Rightarrow> string) \<Rightarrow> Database \<Rightarrow> (error, RootCause list) result" where
  "root_causes text db = scan_causes
     (sort_by (\<lambda>(a, xs) (b, ys). amount rc_AmountAtRiskMinor ys < amount rc_AmountAtRiskMinor xs
          \<or> amount rc_AmountAtRiskMinor xs = amount rc_AmountAtRiskMinor ys \<and> a < b)
        (groups (failure_category text) (db_cases db)))"

definition latest_decisions :: "Database \<Rightarrow> DecisionRow list" where
  "latest_decisions db = map (\<lambda>(_, rows). the (newest (\<lambda>r. rr_CreatedAt (de_Optimization (dr_Decision r)))
       (\<lambda>r. de_ID (dr_Decision r)) rows)) (groups (\<lambda>r. de_CaseID (dr_Decision r)) (db_decisions db))"

definition action_selections :: "Database \<Rightarrow> ActionSelection list" where
  "action_selections db = map (\<lambda>(a, rows). \<lparr>as_Action = a, as_Cases = int (length rows)\<rparr>)
     (sort_by (\<lambda>(a, xs) (b, ys). length ys < length xs \<or> length xs = length ys \<and> a < b)
        (groups (\<lambda>r. action_string (cd_Action (rr_Selected (de_Optimization (dr_Decision r))))) (latest_decisions db)))"

text \<open>\<open>to_char(date_trunc('day', t), 'YYYY-MM-DD')\<close>; a year before the first is written as its year BC.\<close>

definition day_text :: "time \<Rightarrow> string" where
  "day_text t = (let (y, m, d) = civil_of_days (t div (24 * Hour))
     in pad 4 (if 0 < y then y else 1 - y) @ ''-'' @ pad 2 m @ ''-'' @ pad 2 d)"

fun timeline :: "int \<Rightarrow> (string \<times> Attribution list) list \<Rightarrow> (error, RecoveryPoint list) result" where
  "timeline cumulative [] = Inr []"
| "timeline cumulative ((day, rows) # rest) =
     andThen (scan_int64 (amount at_RecoveredAmountMinor rows)) (\<lambda>v.
     andThen (timeline (i64 (cumulative + v)) rest) (\<lambda>points.
       Inr (\<lparr>rp_Day = day, rp_RecoveredMinor = v, rp_CumulativeRecoveredMinor = i64 (cumulative + v)\<rparr> # points)))"

definition recovery_timeline :: "Database \<Rightarrow> (error, RecoveryPoint list) result" where
  "recovery_timeline db = timeline 0
     (sort_by (\<lambda>(a, _) (b, _). a < b) (groups (\<lambda>a. day_text (at_ObservedAt a)) (db_attributions db)))"

definition scheduled_statuses :: "ScheduledStatus list" where
  "scheduled_statuses = [SPending, SClaimed, SExecuting, SRetryPending, SObservationPending, SObservationClaimed]"

definition DashboardOperational :: "(json \<Rightarrow> string) \<Rightarrow> (nat \<Rightarrow> Database) \<Rightarrow> (error, Operational) result" where
  "DashboardOperational text seen =
     (let cases = db_cases (seen 0); paid = db_attributions (seen 1) in
     andThen (scan_int64 (amount rc_AmountAtRiskMinor cases)) (\<lambda>atRisk.
     andThen (scan_int64 (amount rc_RecoveredAmountMinor cases)) (\<lambda>recovered.
     andThen (scan_int64 (amount at_RecoveredAmountMinor (filter (\<lambda>a. at_Category a = Natural) paid))) (\<lambda>natural.
     andThen (scan_int64 (amount at_RecoveredAmountMinor
         (filter (\<lambda>a. at_Category a \<in> {DirectAction, RetryCategory, Promise}) paid))) (\<lambda>agent.
     andThen (root_causes text (seen 3)) (\<lambda>causes.
     andThen (recovery_timeline (seen 5)) (\<lambda>points.
       Inr \<lparr>op_Mode = ''OPERATIONAL / LIVE TEST DATA'', op_RevenueAtRiskMinor = atRisk, op_RecoveredMinor = recovered,
            op_NaturalRecoveredMinor = natural, op_AgentAttributedMinor = agent,
            op_ActiveCases = number_of_rows (\<lambda>c. rc_CurrentState c \<notin> set closed_states) cases,
            op_CasesAwaitingReview = number_of_rows (\<lambda>c. rc_CurrentState c = StateEscalated) cases,
            op_ActionsScheduled = number_of_rows (\<lambda>r. sa_Status r \<in> set scheduled_statuses) (db_scheduled (seen 0)),
            op_RecoveryRate = (if cases = [] then 0
               else fdiv (float_of (number_of_rows (\<lambda>c. rc_CurrentState c = StateRecovered) cases)) (float_of (int (length cases)))),
            op_Cases = map (case_item (seen 2)) (take 50 (sort_by (\<lambda>a b. rc_UpdatedAt b < rc_UpdatedAt a) (db_cases (seen 2)))),
            op_RootCauses = causes, op_ActionSelections = action_selections (seen 4), op_RecoveryTimeline = points\<rparr>)))))))"

text \<open>
  \<open>readObject\<close>: the members of the object, the last of a name counts. The text \<open>null\<close> decodes
  without an error to a nil map, and the assignment to it panics: None.
\<close>

definition readObject :: "(string \<Rightarrow> (string, RawMessage) result) \<Rightarrow> string \<Rightarrow> (string \<times> json) list option" where
  "readObject files path =
     (case files path of
        Inl e \<Rightarrow> Some [(''available'', JBool False), (''error'', JStr e)]
      | Inr (Some (JObj kvs)) \<Rightarrow> Some (kvs @ [(''available'', JBool True)])
      | Inr (Some JNull) \<Rightarrow> None
      | Inr _ \<Rightarrow> Some [(''available'', JBool False), (''error'', JStr ''invalid evaluation artifact'')])"

record Dashboard =
  da_Operational :: Operational
  da_Synthetic :: "(string \<times> json) list"
  da_Budget :: "(string \<times> json) list"
  da_Ablations :: "(string \<times> json) list"
  da_Reconciliation :: "(string \<times> json) list"

definition number_of :: "(string \<times> json) list \<Rightarrow> string \<Rightarrow> float64 \<times> bool" where
  "number_of kvs k = (case member_of kvs k of Some (JNum x) \<Rightarrow> (x, True) | _ \<Rightarrow> (0, False))"

definition reconciliation :: "(string \<times> json) list \<Rightarrow> (string \<times> json) list" where
  "reconciliation synthetic =
     (case member_of synthetic ''case_counts'' of
        Some (JObj kvs) \<Rightarrow>
          (let (generated, go1) = number_of kvs ''generated'';
               (heldout, go2) = number_of kvs ''heldout_evaluated_per_strategy''
           in [(''checked'', JBool (go1 \<and> go2)), (''passed'', JBool (go1 \<and> go2 \<and> heldout \<le> generated)),
               (''generated_cases'', JNum generated), (''heldout_cases_per_strategy'', JNum heldout)])
      | _ \<Rightarrow> [(''checked'', JBool False), (''message'', JStr ''Phase 24 v2 artifact is required'')])"

definition reporting_Get :: "(json \<Rightarrow> string) \<Rightarrow> (string \<Rightarrow> (string, RawMessage) result) \<Rightarrow> (nat \<Rightarrow> Database)
    \<Rightarrow> (error, Dashboard) result option" where
  "reporting_Get text files seen =
     (case DashboardOperational text seen of Inl e \<Rightarrow> Some (Inl e)
      | Inr operational \<Rightarrow>
         (case (readObject files ''phase24/summary.json'', readObject files ''phase24/budget_comparison.json'',
                readObject files ''phase25/ablation_summary.json'') of
            (Some synthetic, Some budget, Some ablations) \<Rightarrow>
              Some (Inr \<lparr>da_Operational = operational, da_Synthetic = synthetic, da_Budget = budget, da_Ablations = ablations,
                 da_Reconciliation = reconciliation synthetic\<rparr>)
          | _ \<Rightarrow> None))"

definition dashboard_get :: "(json \<Rightarrow> string) \<Rightarrow> (string \<Rightarrow> (string, RawMessage) result) \<Rightarrow> (nat \<Rightarrow> Database) \<Rightarrow> Answer" where
  "dashboard_get text files seen =
     (case reporting_Get text files seen of None \<Rightarrow> (0, []) | Some (Inl e) \<Rightarrow> handleServiceError e | Some (Inr _) \<Rightarrow> (200, []))"

section \<open>The operational snapshot\<close>

record Queue =
  qu_Pending :: int
  qu_Running :: int
  qu_Failed :: int
  qu_MaxLagSeconds :: float64

record ExecutionCounts =
  xc_Succeeded :: int
  xc_Failed :: int
  xc_TimedOut :: int
  xc_Retrying :: int

record RecoveryCounts =
  cc_Active :: int
  cc_Recovered :: int
  cc_Escalated :: int
  cc_Stopped :: int
  cc_ExpiredPromises :: int

record WebhookCounts =
  wc_Received :: int
  wc_Processed :: int
  wc_Failed :: int
  wc_LastReceived :: "time option"

record Alert =
  al_Code :: string
  al_Severity :: string
  al_Message :: string

record OperationsView =
  ov_GeneratedAt :: time
  ov_SchemaVersion :: string
  ov_Queue :: Queue
  ov_Execution :: ExecutionCounts
  ov_Recovery :: RecoveryCounts
  ov_Webhooks :: WebhookCounts
  ov_Alerts :: "Alert list"

text \<open>
  \<open>OperationalSnapshot\<close>, one statement; \<open>schema\<close> is the row of \<open>platform_metadata\<close>. The store sets no
  alerts and no time.
\<close>

definition OperationalSnapshot :: "time \<Rightarrow> string option \<Rightarrow> Intake \<Rightarrow> OperationsView" where
  "OperationalSnapshot dbNow schema s =
     (let db = in_db s; scheduled = (\<lambda>p. number_of_rows (\<lambda>r. p (sa_Status r)) (db_scheduled db));
          executions = (\<lambda>t. number_of_rows (\<lambda>x. ex_Status x \<in> t) (db_executions db));
          cases = (\<lambda>p. number_of_rows (\<lambda>c. p (rc_CurrentState c)) (db_cases db));
          late = map sa_ScheduledFor (filter (\<lambda>r. sa_Status r = SPending \<and> sa_ScheduledFor r < dbNow) (db_scheduled db))
      in \<lparr>ov_GeneratedAt = 0, ov_SchemaVersion = (case schema of None \<Rightarrow> [] | Some v \<Rightarrow> v),
          ov_Queue = \<lparr>qu_Pending = scheduled (\<lambda>t. t = SPending),
             qu_Running = scheduled (\<lambda>t. t \<in> {SClaimed, SExecuting, SObservationClaimed}),
             qu_Failed = scheduled (\<lambda>t. t = SFailed),
             qu_MaxLagSeconds = (if late = [] then 0 else fl (of_int (dbNow - Min (set late)) / of_int Second))\<rparr>,
          ov_Execution = \<lparr>xc_Succeeded = executions {''SUCCEEDED''}, xc_Failed = executions {''FAILED'', ''REJECTED_BY_PROVIDER''},
             xc_TimedOut = executions {''TIMED_OUT''}, xc_Retrying = scheduled (\<lambda>t. t = SRetryPending)\<rparr>,
          ov_Recovery = \<lparr>cc_Active = cases (\<lambda>t. t \<notin> set closed_states), cc_Recovered = cases (\<lambda>t. t = StateRecovered),
             cc_Escalated = cases (\<lambda>t. t \<in> {StateEscalated, StateExhausted}), cc_Stopped = cases (\<lambda>t. t = StateStopped),
             cc_ExpiredPromises = number_of_rows (\<lambda>p. pp_Status p = PromiseActive \<and> pp_DueAt p < dbNow) (db_promises db)\<rparr>,
          ov_Webhooks = \<lparr>wc_Received = int (length (in_webhooks s)), wc_Processed = number_of_rows (\<lambda>w. wh_Status w = WebhookProcessed) (in_webhooks s),
             wc_Failed = number_of_rows (\<lambda>w. wh_Status w = WebhookFailed) (in_webhooks s),
             wc_LastReceived = (if in_webhooks s = [] then None else Some (Max (wh_ReceivedAt ` set (in_webhooks s))))\<rparr>,
          ov_Alerts = []\<rparr>)"

definition observability_Snapshot :: "time \<Rightarrow> time \<Rightarrow> string option \<Rightarrow> Intake \<Rightarrow> OperationsView" where
  "observability_Snapshot dbNow now schema s =
     (let v = OperationalSnapshot dbNow schema s in
      v\<lparr>ov_GeneratedAt := now, ov_Alerts := ov_Alerts v
        @ (if 300 < qu_MaxLagSeconds (ov_Queue v)
           then [\<lparr>al_Code = ''QUEUE_LAG_HIGH'', al_Severity = ''warning'', al_Message = ''Oldest due action is more than five minutes late''\<rparr>] else [])
        @ (if 0 < qu_Failed (ov_Queue v) \<or> 0 < xc_Failed (ov_Execution v)
           then [\<lparr>al_Code = ''EXECUTION_FAILURES'', al_Severity = ''critical'',
                  al_Message = ''Failed scheduled actions or executions require attention''\<rparr>] else [])
        @ (if 0 < cc_ExpiredPromises (ov_Recovery v)
           then [\<lparr>al_Code = ''PROMISE_CHECKS_OVERDUE'', al_Severity = ''warning'', al_Message = ''Active promises are past their due time''\<rparr>] else [])\<rparr>)"

section \<open>Sums over groups and over evolving cases\<close>

lemma amount_Nil [simp]: "amount f [] = 0"
  by (simp add: amount_def)

lemma amount_Cons [simp]: "amount f (x # t) = f x + amount f t"
  by (simp add: amount_def)

lemma amount_length: "amount (\<lambda>_. 1) t = int (length t)"
  by (induction t) simp_all

lemma amount_sort_by [simp]: "amount f (sort_by lt t) = amount f t"
  unfolding amount_def by (metis mset_map mset_sort_by sum_mset_sum_list)

lemma amount_nonneg: "(\<And>x. x \<in> set t \<Longrightarrow> 0 \<le> f x) \<Longrightarrow> 0 \<le> amount f t"
  by (induction t) simp_all

lemma amount_filter_le: "(\<And>x. x \<in> set t \<Longrightarrow> 0 \<le> f x) \<Longrightarrow> amount f (filter p t) \<le> amount f t"
  by (induction t) (simp_all add: add_increasing)

lemma groups_keys: "map fst (groups key t) = remdups (map key t)"
  by (simp add: groups_def o_def)

lemma group_rows:
  assumes "(k, rows) \<in> set (groups key t)"
  shows "rows = filter (\<lambda>r. key r = k) t" "rows \<noteq> []"
  using assms by (auto simp: groups_def filter_empty_conv)

lemma amount_groups: "amount (\<lambda>(_, rows). amount f rows) (groups key t) = amount f t"
  using sum_by_key [of "remdups (map key t)" key t f] by (simp add: amount_def groups_def o_def)

text \<open>A sum of something that never falls, over cases that are never lost, does not fall.\<close>

lemma amount_over_ids:
  assumes "keyed rc_ID (db_cases db)"
  shows "amount f (db_cases db) = (\<Sum>i \<in> set (map rc_ID (db_cases db)). case find_case db i of None \<Rightarrow> 0 | Some c \<Rightarrow> f c)"
proof -
  have "map f (db_cases db) = map (\<lambda>i. case find_case db i of None \<Rightarrow> 0 | Some c \<Rightarrow> f c) (map rc_ID (db_cases db))"
    using lookup_keyed [OF assms] by (simp add: find_case_def)
  then show ?thesis
    using assms unfolding amount_def keyed_def by (simp only: sum_list_distinct_conv_sum_set)
qed

lemma evolving_amount:
  assumes evolves: "evolves db db'" and keys: "keyed rc_ID (db_cases db)" "keyed rc_ID (db_cases db')"
    and grows: "\<And>c c'. case_evolves c c' \<Longrightarrow> f c \<le> f c'" and pos: "\<And>c. c \<in> set (db_cases db') \<Longrightarrow> 0 \<le> f c"
  shows "amount f (db_cases db) \<le> amount f (db_cases db')"
proof -
  define g where "g = (\<lambda>d i. case find_case d i of None \<Rightarrow> 0 | Some c \<Rightarrow> f c)"
  let ?ids = "\<lambda>d. set (map rc_ID (db_cases d))"
  have in_table: "find_case d i = Some c \<Longrightarrow> c \<in> set (db_cases d) \<and> rc_ID c = i" for d i c
    by (auto simp: find_case_def dest: lookup_SomeD)
  have known: "i \<in> ?ids d \<longleftrightarrow> find_case d i \<noteq> None" for d i
    using find_case_None [of d i] by (simp add: books_def)
  have "g db i \<le> g db' i" if i: "i \<in> ?ids db" for i
  proof -
    obtain c where c: "find_case db i = Some c" using i known [of i db] by auto
    then obtain c' where "find_case db' i = Some c'" "case_evolves c c'" using evolves by (auto simp: evolves_def)
    then show ?thesis using c grows by (simp add: g_def)
  qed
  then have "sum (g db) (?ids db) \<le> sum (g db') (?ids db)" by (rule sum_mono)
  also have "\<dots> \<le> sum (g db') (?ids db')"
  proof (rule sum_mono2)
    show "?ids db \<subseteq> ?ids db'"
    proof
      fix i assume "i \<in> ?ids db"
      then obtain c where "find_case db i = Some c" using known [of i db] by auto
      then obtain c' where "find_case db' i = Some c'" using evolves by (auto simp: evolves_def)
      then show "i \<in> ?ids db'" using known [of i db'] by simp
    qed
    show "0 \<le> g db' i" for i using in_table pos by (auto simp: g_def split: option.splits)
  qed simp
  finally show ?thesis using keys by (simp add: amount_over_ids g_def)
qed

text \<open>Every case has something at risk; the amount is never changed.\<close>

definition risks_ok :: "Database \<Rightarrow> bool" where
  "risks_ok db \<longleftrightarrow> (\<forall>i c. find_case db i = Some c \<longrightarrow> 0 < rc_AmountAtRiskMinor c)"

lemma risks_kept:
  assumes "evolves db db'" and "risks_ok db" and "\<And>i. find_case db i = None \<Longrightarrow> find_case db' i = None"
  shows "risks_ok db'"
  unfolding risks_ok_def
proof (intro allI impI)
  fix i c' assume c': "find_case db' i = Some c'"
  then obtain c where c: "find_case db i = Some c" using assms(3) [of i] by (cases "find_case db i") auto
  then have "case_evolves c c'" using assms(1) c' unfolding evolves_def by fastforce
  then have "rc_AmountAtRiskMinor c' = rc_AmountAtRiskMinor c" by (auto simp: case_evolves_def same_case_def)
  then show "0 < rc_AmountAtRiskMinor c'" using assms(2) c by (auto simp: risks_ok_def)
qed

lemma transaction_risks:
  assumes "transaction db db'" and "well_formed db" and "money_ok db" and "risks_ok db"
  shows "risks_ok db'"
proof -
  have e: "evolves db db'" using transaction_evolves [OF assms(1-3)] by simp
  consider "quiet db db'" | fresh now input c where "service_CreateCase fresh now input db = Inr (c, db')"
    | fresh payment r created where "AttributeRecovery fresh payment db = Inr ((r, created), db')"
    using transaction_kinds [OF assms(1)] by blast
  then show ?thesis
  proof cases
    case 1
    then show ?thesis using risks_kept [OF e assms(4)] find_case_None by (simp add: quiet_def)
  next
    case (2 fresh now input c)
    note f = create_case_facts [OF 2 assms(2)]
    show ?thesis unfolding risks_ok_def
    proof (intro allI impI)
      fix i x assume "find_case db' i = Some x"
      then show "0 < rc_AmountAtRiskMinor x" using f assms(4) by (cases "i = rc_ID c") (auto simp: risks_ok_def)
    qed
  next
    case (3 fresh payment r created)
    then show ?thesis
    proof (cases rule: AttributeRecoveryE)
      case (recorded c d fc)
      have "find_case db' j = None" if "find_case db j = None" for j
        using that find_case_map [OF recorded(9)] recorded(2) append_events_case [OF recorded(14)] by (cases "j = ob_CaseID payment") auto
      then show ?thesis by (rule risks_kept [OF e assms(4)])
    qed (use assms(4) in simp_all)
  qed
qed

lemma step_risks:
  assumes "step s s'" and "system_ok s" and "risks_ok (sys_db s)"
  shows "risks_ok (sys_db s')"
  using assms(1)
proof (cases rule: step.cases)
  case (commit db')
  then show ?thesis using transaction_risks assms(2,3) by (simp add: system_ok_def)
next
  case (move x fresh now i input c db')
  have "quiet (sys_db s) db'"
    using move_on_read [OF move(3)] move(2) assms(2) by (auto simp: system_ok_def)
  then have "evolves (sys_db s) db'" "books db' = books (sys_db s)"
    using quiet_evolves assms(2) by (auto simp: system_ok_def quiet_def)
  then show ?thesis using risks_kept [of "sys_db s" db'] assms(3) find_case_None move(1) by simp
qed (use assms(3) in simp)

lemma reachable_risks: "reachable s \<Longrightarrow> risks_ok (sys_db s)"
proof (induction rule: reachable.induct)
  case (step s s')
  then show ?case using step_risks reachable_ok by blast
qed (simp add: risks_ok_def initial_def find_case_def)

section \<open>The queries of the dashboard\<close>

interpretation by_day: weak_order UNIV "\<lambda>(a :: string, _ :: 'r) (b, _ :: 'r). a < b"
  by unfold_locales auto

interpretation by_amount: weak_order UNIV
    "\<lambda>(a :: string, xs) (b, ys). amount f ys < amount f xs \<or> amount f xs = amount f ys \<and> a < b" for f :: "'r \<Rightarrow> int"
  by unfold_locales auto

lemma scan_causes_Inr:
  assumes "\<forall>g \<in> set gs. in_i64 (amount rc_AmountAtRiskMinor (snd g))"
  shows "scan_causes gs = Inr (map (\<lambda>(k, cs). \<lparr>rt_Cause = k, rt_Cases = int (length cs),
    rt_AmountAtRiskMinor = amount rc_AmountAtRiskMinor cs\<rparr>) gs)"
  using assms
  by (induction gs) (auto simp: scan_int64_def)

lemma in_i64_between: "0 \<le> v \<Longrightarrow> v \<le> w \<Longrightarrow> in_i64 w \<Longrightarrow> in_i64 v"
  by (simp add: in_i64_def)

text \<open>Every case has one cause, and the causes come with the largest amount first.\<close>

lemma root_causes_partition:
  assumes "\<And>c. c \<in> set (db_cases db) \<Longrightarrow> 0 \<le> rc_AmountAtRiskMinor c" and "in_i64 (amount rc_AmountAtRiskMinor (db_cases db))"
  shows "\<exists>causes. root_causes text db = Inr causes
    \<and> sum_list (map rt_Cases causes) = int (length (db_cases db))
    \<and> sum_list (map rt_AmountAtRiskMinor causes) = amount rc_AmountAtRiskMinor (db_cases db)
    \<and> distinct (map rt_Cause causes) \<and> sorted_wrt (\<lambda>a b. rt_AmountAtRiskMinor b \<le> rt_AmountAtRiskMinor a) causes"
proof -
  let ?lt = "\<lambda>(a :: string, xs) (b, ys). amount rc_AmountAtRiskMinor ys < amount rc_AmountAtRiskMinor xs
      \<or> amount rc_AmountAtRiskMinor xs = amount rc_AmountAtRiskMinor ys \<and> a < b"
  let ?item = "\<lambda>(k, cs). \<lparr>rt_Cause = k, rt_Cases = int (length cs), rt_AmountAtRiskMinor = amount rc_AmountAtRiskMinor cs\<rparr>"
  define gs where "gs = sort_by ?lt (groups (failure_category text) (db_cases db))"
  have fits: "\<forall>g \<in> set gs. in_i64 (amount rc_AmountAtRiskMinor (snd g))"
  proof
    fix g assume member: "g \<in> set gs"
    obtain k cs where g: "g = (k, cs)" by (cases g)
    have "cs = filter (\<lambda>c. failure_category text c = k) (db_cases db)" using group_rows(1) member unfolding g gs_def set_sort_by .
    then have "0 \<le> amount rc_AmountAtRiskMinor cs" "amount rc_AmountAtRiskMinor cs \<le> amount rc_AmountAtRiskMinor (db_cases db)"
      using assms(1) by (auto intro: amount_nonneg amount_filter_le)
    then show "in_i64 (amount rc_AmountAtRiskMinor (snd g))" using in_i64_between [OF _ _ assms(2)] by (simp add: g)
  qed
  have items: "root_causes text db = Inr (map ?item gs)"
    unfolding root_causes_def gs_def [symmetric] by (rule scan_causes_Inr [OF fits])
  have total: "amount (\<lambda>(_, cs). amount f cs) gs = amount f (db_cases db)" for f
    unfolding gs_def by (simp only: amount_sort_by amount_groups)
  have "sum_list (map rt_Cases (map ?item gs)) = int (length (db_cases db))"
    using total [of "\<lambda>_. 1"] by (simp add: amount_def [of _ gs] amount_length o_def case_prod_unfold)
  moreover have "sum_list (map rt_AmountAtRiskMinor (map ?item gs)) = amount rc_AmountAtRiskMinor (db_cases db)"
    using total [of rc_AmountAtRiskMinor] by (simp add: amount_def [of _ gs] o_def case_prod_unfold)
  moreover have "distinct (map rt_Cause (map ?item gs))"
  proof -
    have "mset (map fst gs) = mset (remdups (map (failure_category text) (db_cases db)))"
      unfolding gs_def groups_keys [symmetric] by simp
    then have "distinct (map fst gs)" by (metis distinct_remdups mset_eq_imp_distinct_iff)
    then show ?thesis by (simp add: o_def case_prod_beta)
  qed
  moreover have "sorted_wrt (\<lambda>a b. rt_AmountAtRiskMinor b \<le> rt_AmountAtRiskMinor a) (map ?item gs)"
  proof -
    have "ordered ?lt gs" unfolding gs_def by (rule by_amount.ordered_sort_by) simp
    then show ?thesis unfolding sorted_wrt_map by (rule sorted_wrt_mono_rel [rotated]) (auto simp: case_prod_unfold)
  qed
  ultimately show ?thesis using items by (intro exI [of _ "map ?item gs"]) simp
qed

lemma timeline_Inr:
  assumes "0 \<le> c" and "\<forall>g \<in> set gs. 0 \<le> amount at_RecoveredAmountMinor (snd g)"
    and "in_i64 (c + amount (\<lambda>(_, rows). amount at_RecoveredAmountMinor rows) gs)"
  shows "\<exists>points. timeline c gs = Inr points \<and> map rp_Day points = map fst gs
    \<and> map rp_RecoveredMinor points = map (\<lambda>(_, rows). amount at_RecoveredAmountMinor rows) gs
    \<and> (\<forall>k < length points. rp_CumulativeRecoveredMinor (points ! k) = c + sum_list (map rp_RecoveredMinor (take (Suc k) points)))"
  using assms
proof (induction gs arbitrary: c)
  case (Cons g gs)
  obtain day rows where g: "g = (day, rows)" by (cases g)
  define v where "v = amount at_RecoveredAmountMinor rows"
  have v: "0 \<le> v" using Cons.prems(2) by (simp add: g v_def)
  have rest: "0 \<le> amount (\<lambda>(_, rows). amount at_RecoveredAmountMinor rows) gs"
    by (rule amount_nonneg) (use Cons.prems(2) in auto)
  have total: "in_i64 (c + v + amount (\<lambda>(_, rows). amount at_RecoveredAmountMinor rows) gs)"
    using Cons.prems(3) by (simp add: g v_def add.assoc)
  have fits: "in_i64 (c + v)" "in_i64 v"
    by (rule in_i64_between [OF _ _ total]; use v rest Cons.prems(1) in simp)+
  obtain points where p: "timeline (c + v) gs = Inr points" "map rp_Day points = map fst gs"
    "map rp_RecoveredMinor points = map (\<lambda>(_, rows). amount at_RecoveredAmountMinor rows) gs"
    "\<forall>k < length points. rp_CumulativeRecoveredMinor (points ! k) = c + v + sum_list (map rp_RecoveredMinor (take (Suc k) points))"
    using Cons.IH [OF _ _ total] v Cons.prems(1,2) by fastforce
  let ?p = "\<lparr>rp_Day = day, rp_RecoveredMinor = v, rp_CumulativeRecoveredMinor = c + v\<rparr>"
  have "timeline c (g # gs) = Inr (?p # points)"
    using fits by (simp add: g v_def [symmetric] scan_int64_def i64_id p(1))
  moreover have "rp_CumulativeRecoveredMinor ((?p # points) ! k) = c + sum_list (map rp_RecoveredMinor (take (Suc k) (?p # points)))"
    if "k < length (?p # points)" for k
    using that p(4) by (cases k) auto
  ultimately show ?case using p(2,3) by (intro exI [of _ "?p # points"]) (simp add: g v_def)
qed simp

lemma recovery_timeline_sums:
  assumes "\<And>a. a \<in> set (db_attributions db) \<Longrightarrow> 0 < at_RecoveredAmountMinor a"
    and "in_i64 (amount at_RecoveredAmountMinor (db_attributions db))"
  shows "\<exists>points. recovery_timeline db = Inr points \<and> sorted_wrt (<) (map rp_Day points)
    \<and> sum_list (map rp_RecoveredMinor points) = amount at_RecoveredAmountMinor (db_attributions db)
    \<and> (\<forall>p \<in> set points. 0 < rp_RecoveredMinor p)
    \<and> (\<forall>k < length points. rp_CumulativeRecoveredMinor (points ! k) = sum_list (map rp_RecoveredMinor (take (Suc k) points)))"
proof -
  let ?lt = "\<lambda>(a :: string, _ :: Attribution list) (b, _ :: Attribution list). a < b"
  define gs where "gs = sort_by ?lt (groups (\<lambda>a. day_text (at_ObservedAt a)) (db_attributions db))"
  have total: "amount (\<lambda>(_, rows). amount at_RecoveredAmountMinor rows) gs = amount at_RecoveredAmountMinor (db_attributions db)"
    unfolding gs_def by (simp only: amount_sort_by amount_groups)
  have pos: "0 < amount at_RecoveredAmountMinor rows" if "(k, rows) \<in> set gs" for k and rows :: "Attribution list"
  proof -
    have "rows = filter (\<lambda>a. day_text (at_ObservedAt a) = k) (db_attributions db)" "rows \<noteq> []"
      using group_rows [OF that [unfolded gs_def set_sort_by]] .
    then have in_table: "set rows \<subseteq> set (db_attributions db)" and "rows \<noteq> []" by auto
    then obtain a rest where rows: "rows = a # rest" by (cases rows) auto
    have "0 < at_RecoveredAmountMinor a" using assms(1) [of a] in_table by (simp add: rows)
    moreover have "0 \<le> amount at_RecoveredAmountMinor rest"
      by (rule amount_nonneg) (use assms(1) in_table in \<open>auto simp: rows intro: less_imp_le\<close>)
    ultimately show ?thesis by (simp add: rows)
  qed
  have nonneg: "\<forall>g \<in> set gs. 0 \<le> amount at_RecoveredAmountMinor (snd g)" using pos by (auto intro: less_imp_le)
  obtain points where p: "timeline 0 gs = Inr points" "map rp_Day points = map fst gs"
    "map rp_RecoveredMinor points = map (\<lambda>(_, rows). amount at_RecoveredAmountMinor rows) gs"
    "\<forall>k < length points. rp_CumulativeRecoveredMinor (points ! k) = 0 + sum_list (map rp_RecoveredMinor (take (Suc k) points))"
    using timeline_Inr [of 0 gs] nonneg assms(2) total by auto
  have "sorted_wrt (<) (map fst gs)"
  proof -
    have "mset (map fst gs) = mset (remdups (map (\<lambda>a. day_text (at_ObservedAt a)) (db_attributions db)))"
      unfolding gs_def groups_keys [symmetric] by simp
    then have d: "distinct (map fst gs)" by (metis distinct_remdups mset_eq_imp_distinct_iff)
    have "ordered ?lt gs" unfolding gs_def by (rule by_day.ordered_sort_by) simp
    then have "sorted (map fst gs)" unfolding sorted_wrt_map by (rule sorted_wrt_mono_rel [rotated]) auto
    then show ?thesis using d by (simp add: strict_sorted_iff)
  qed
  moreover have "0 < rp_RecoveredMinor q" if "q \<in> set points" for q
  proof -
    have "rp_RecoveredMinor q \<in> set (map rp_RecoveredMinor points)" using that by simp
    then show ?thesis unfolding p(3) using pos by auto
  qed
  moreover have "sum_list (map rp_RecoveredMinor points) = amount at_RecoveredAmountMinor (db_attributions db)"
    unfolding p(3) total [symmetric] by (simp add: amount_def)
  ultimately show ?thesis using p by (intro exI [of _ points]) (simp add: recovery_timeline_def gs_def)
qed

lemma selections_count:
  "sum_list (map as_Cases (action_selections db)) = int (card (set (map (\<lambda>r. de_CaseID (dr_Decision r)) (db_decisions db))))"
proof -
  let ?key = "\<lambda>r. action_string (cd_Action (rr_Selected (de_Optimization (dr_Decision r))))"
  have "sum_list (map as_Cases (action_selections db)) = amount (\<lambda>(_, rows). amount (\<lambda>_. 1) rows) (groups ?key (latest_decisions db))"
    unfolding action_selections_def amount_length amount_sort_by [symmetric, of _ "groups ?key (latest_decisions db)"
      "\<lambda>(a, xs) (b, ys). length ys < length xs \<or> length xs = length ys \<and> a < b"]
    by (simp add: amount_def o_def case_prod_beta case_prod_unfold)
  also have "\<dots> = int (length (latest_decisions db))" unfolding amount_groups by (rule amount_length)
  also have "length (latest_decisions db) = length (map fst (groups (\<lambda>r. de_CaseID (dr_Decision r)) (db_decisions db)))"
    by (simp add: latest_decisions_def)
  finally show ?thesis by (simp only: groups_keys length_remdups_card_conv)
qed

lemma scan_int64_fits [simp]: "in_i64 v \<Longrightarrow> scan_int64 v = Inr v"
  by (simp add: scan_int64_def)

lemma steps_evolve: "step\<^sup>*\<^sup>* s s' \<Longrightarrow> reachable s \<Longrightarrow> reachable s' \<and> evolves (sys_db s) (sys_db s')"
proof (induction rule: rtranclp_induct)
  case (step a b)
  then show ?case using reachable.step step_ok [OF _ reachable_ok] evolves_trans by blast
qed simp

text \<open>What has been attributed in total never falls.\<close>

lemma attributed_grows:
  assumes "step\<^sup>*\<^sup>* s s'" and "reachable s"
  shows "amount at_RecoveredAmountMinor (db_attributions (sys_db s)) \<le> amount at_RecoveredAmountMinor (db_attributions (sys_db s'))"
    and "amount rc_AmountAtRiskMinor (db_cases (sys_db s)) \<le> amount rc_AmountAtRiskMinor (db_cases (sys_db s'))"
proof -
  have r: "reachable s'" and e: "evolves (sys_db s) (sys_db s')" using steps_evolve [OF assms] by simp_all
  have ok: "well_formed (sys_db x) \<and> money_ok (sys_db x)" if "reachable x" for x
    using reachable_ok [OF that] by (simp add: system_ok_def)
  have keys: "keyed rc_ID (db_cases (sys_db x))" if "reachable x" for x using ok [OF that] by (simp add: well_formed_def)
  have total: "amount rc_RecoveredAmountMinor (db_cases (sys_db x)) = amount at_RecoveredAmountMinor (db_attributions (sys_db x))"
    if "reachable x" for x using recovered_total ok [OF that] by (simp add: amount_def)
  have found: "find_case (sys_db s') (rc_ID c) = Some c" if "c \<in> set (db_cases (sys_db s'))" for c
    using lookup_keyed [OF keys [OF r] that] by (simp add: find_case_def)
  have "0 \<le> rc_RecoveredAmountMinor c" if "c \<in> set (db_cases (sys_db s'))" for c
  proof -
    have "rc_RecoveredAmountMinor c = paid (sys_db s') (rc_ID c)" using ok [OF r] found [OF that] by (simp add: money_ok_def)
    also have "\<dots> = amount at_RecoveredAmountMinor (filter (\<lambda>a. at_CaseID a = rc_ID c) (db_attributions (sys_db s')))"
      by (simp add: paid_def amount_def)
    also have "0 \<le> \<dots>" by (rule amount_nonneg) (use ok [OF r] in \<open>auto simp: money_ok_def intro: less_imp_le\<close>)
    finally show ?thesis .
  qed
  then show "amount at_RecoveredAmountMinor (db_attributions (sys_db s)) \<le> amount at_RecoveredAmountMinor (db_attributions (sys_db s'))"
    unfolding total [OF assms(2), symmetric] total [OF r, symmetric]
    by (intro evolving_amount [OF e keys keys] assms(2) r) (auto simp: case_evolves_def)
  have "0 \<le> rc_AmountAtRiskMinor c" if "c \<in> set (db_cases (sys_db s'))" for c
    using reachable_risks [OF r] found [OF that] by (auto simp: risks_ok_def intro: less_imp_le)
  then show "amount rc_AmountAtRiskMinor (db_cases (sys_db s)) \<le> amount rc_AmountAtRiskMinor (db_cases (sys_db s'))"
    by (intro evolving_amount [OF e keys keys] assms(2) r) (auto simp: case_evolves_def same_case_def)
qed

section \<open>Properties\<close>

abbreviation attributed :: "System \<Rightarrow> int" where
  "attributed s \<equiv> amount at_RecoveredAmountMinor (db_attributions (sys_db s))"

abbreviation at_risk :: "System \<Rightarrow> int" where
  "at_risk s \<equiv> amount rc_AmountAtRiskMinor (db_cases (sys_db s))"

lemma amount_by_category:
  "amount at_RecoveredAmountMinor (filter (\<lambda>a. at_Category a = Natural) t)
     + amount at_RecoveredAmountMinor (filter (\<lambda>a. at_Category a \<in> {DirectAction, RetryCategory, Promise}) t)
     + amount at_RecoveredAmountMinor (filter (\<lambda>a. at_Category a = Unknown) t) = amount at_RecoveredAmountMinor t"
proof (induction t)
  case (Cons a t)
  then show ?case by (cases "at_Category a") simp_all
qed simp

text \<open>C19. The dashboard reconciles, though its six queries may see six states of a running system. When
  the totals fit into 64 bits it is answered, and: what the cases recovered is what had been
  attributed at the first query; the natural and the agent's amounts together with those of
  unknown cause are all that was attributed at the second; the days of the timeline are in order,
  each with a positive amount and the exact running total, and add up to all that was attributed
  at the last; and these three totals never fall. Each case has exactly one root cause, the causes
  add up to the cases and to the amount at risk, largest first, which is at least the amount shown;
  each case with a decision is counted once among the selected actions.\<close>

theorem dashboard_reconciles:
  assumes "reachable (s 0)" and "\<forall>k < 5. step\<^sup>*\<^sup>* (s k) (s (Suc k))" and "in_i64 (at_risk (s 3))" and "in_i64 (attributed (s 5))"
  shows "\<exists>v. DashboardOperational text (\<lambda>k. sys_db (s k)) = Inr v
    \<and> op_RecoveredMinor v = attributed (s 0) \<and> attributed (s 0) \<le> attributed (s 1) \<and> attributed (s 1) \<le> attributed (s 5)
    \<and> op_NaturalRecoveredMinor v + op_AgentAttributedMinor v
        + amount at_RecoveredAmountMinor (filter (\<lambda>a. at_Category a = Unknown) (db_attributions (sys_db (s 1)))) = attributed (s 1)
    \<and> sum_list (map rp_RecoveredMinor (op_RecoveryTimeline v)) = attributed (s 5)
    \<and> sorted_wrt (<) (map rp_Day (op_RecoveryTimeline v)) \<and> (\<forall>p \<in> set (op_RecoveryTimeline v). 0 < rp_RecoveredMinor p)
    \<and> (\<forall>k < length (op_RecoveryTimeline v). rp_CumulativeRecoveredMinor (op_RecoveryTimeline v ! k)
          = sum_list (map rp_RecoveredMinor (take (Suc k) (op_RecoveryTimeline v))))
    \<and> sum_list (map rt_Cases (op_RootCauses v)) = int (length (db_cases (sys_db (s 3))))
    \<and> sum_list (map rt_AmountAtRiskMinor (op_RootCauses v)) = at_risk (s 3) \<and> op_RevenueAtRiskMinor v \<le> at_risk (s 3)
    \<and> distinct (map rt_Cause (op_RootCauses v)) \<and> sorted_wrt (\<lambda>a b. rt_AmountAtRiskMinor b \<le> rt_AmountAtRiskMinor a) (op_RootCauses v)
    \<and> sum_list (map as_Cases (op_ActionSelections v)) = int (card (set (map (\<lambda>r. de_CaseID (dr_Decision r)) (db_decisions (sys_db (s 4))))))"
proof -
  have later: "step\<^sup>*\<^sup>* (s j) (s (j + n))" if "j + n \<le> 5" for j n
    using that
  proof (induction n)
    case (Suc n)
    then show ?case using assms(2) [rule_format, of "j + n"] by simp
  qed simp
  have r: "reachable (s k)" if "k \<le> 5" for k using steps_evolve [OF later [of 0 k] assms(1)] that by simp
  have grows: "attributed (s j) \<le> attributed (s (j + n))" "at_risk (s j) \<le> at_risk (s (j + n))" if "j + n \<le> 5" for j n
    using attributed_grows [OF later [OF that] r] that by simp_all
  have paid: "0 < at_RecoveredAmountMinor a" if "a \<in> set (db_attributions (sys_db (s k)))" "k \<le> 5" for a k
    using reachable_ok [OF r [OF that(2)]] that(1) by (simp add: system_ok_def money_ok_def)
  have risk: "0 \<le> rc_AmountAtRiskMinor c" if "c \<in> set (db_cases (sys_db (s k)))" "k \<le> 5" for c k
  proof -
    have "keyed rc_ID (db_cases (sys_db (s k)))" using reachable_ok [OF r [OF that(2)]] by (simp add: system_ok_def well_formed_def)
    then have "find_case (sys_db (s k)) (rc_ID c) = Some c" using lookup_keyed that(1) by (simp add: find_case_def)
    then show ?thesis using reachable_risks [OF r [OF that(2)]] by (auto simp: risks_ok_def intro: less_imp_le)
  qed
  have recovered: "amount rc_RecoveredAmountMinor (db_cases (sys_db (s 0))) = attributed (s 0)"
    using recovered_total reachable_ok [OF assms(1)] by (simp add: amount_def system_ok_def)
  have fits: "in_i64 (at_risk (s 0))" "in_i64 (attributed (s 0))"
    by (rule in_i64_between [OF _ _ assms(3)], rule amount_nonneg, erule risk, simp, use grows(2) [of 0 3] in simp)
      (rule in_i64_between [OF _ _ assms(4)], rule amount_nonneg, drule paid, simp_all, use grows(1) [of 0 5] in simp)
  have part: "in_i64 (amount at_RecoveredAmountMinor (filter p (db_attributions (sys_db (s 1)))))" for p
  proof (rule in_i64_between [OF _ _ assms(4)])
    show "0 \<le> amount at_RecoveredAmountMinor (filter p (db_attributions (sys_db (s 1))))"
      by (rule amount_nonneg) (use paid [of _ 1] in \<open>auto intro: less_imp_le\<close>)
    have "amount at_RecoveredAmountMinor (filter p (db_attributions (sys_db (s 1)))) \<le> attributed (s 1)"
      by (rule amount_filter_le) (use paid [of _ 1] in \<open>auto intro: less_imp_le\<close>)
    then show "amount at_RecoveredAmountMinor (filter p (db_attributions (sys_db (s 1)))) \<le> attributed (s 5)" using grows(1) [of 1 4] by simp
  qed
  obtain causes where causes: "root_causes text (sys_db (s 3)) = Inr causes" "sum_list (map rt_Cases causes) = int (length (db_cases (sys_db (s 3))))"
    "sum_list (map rt_AmountAtRiskMinor causes) = at_risk (s 3)" "distinct (map rt_Cause causes)"
    "sorted_wrt (\<lambda>a b. rt_AmountAtRiskMinor b \<le> rt_AmountAtRiskMinor a) causes"
    using root_causes_partition [OF risk [of _ 3] assms(3)] by auto
  obtain points where points: "recovery_timeline (sys_db (s 5)) = Inr points" "sorted_wrt (<) (map rp_Day points)"
    "sum_list (map rp_RecoveredMinor points) = attributed (s 5)" "\<forall>p \<in> set points. 0 < rp_RecoveredMinor p"
    "\<forall>k < length points. rp_CumulativeRecoveredMinor (points ! k) = sum_list (map rp_RecoveredMinor (take (Suc k) points))"
    using recovery_timeline_sums [OF paid [of _ 5] assms(4)] by auto
  show ?thesis
    using fits part causes points selections_count grows(1) [of 0 1] grows(1) [of 1 4] grows(2) [of 0 3] amount_by_category
    by (simp add: DashboardOperational_def Let_def recovered)
qed

text \<open>Each case is counted once in the operational snapshot, under the state it is in.\<close>

theorem snapshot_counts_cases:
  fixes v :: OperationsView
  assumes "v = observability_Snapshot dbNow now schema s"
  shows "cc_Active (ov_Recovery v) + cc_Recovered (ov_Recovery v) + cc_Escalated (ov_Recovery v) + cc_Stopped (ov_Recovery v)
      = int (length (db_cases (in_db s)))"
proof -
  have "number_of_rows (\<lambda>c. rc_CurrentState c \<notin> set closed_states) t + number_of_rows (\<lambda>c. rc_CurrentState c = StateRecovered) t
      + number_of_rows (\<lambda>c. rc_CurrentState c \<in> {StateEscalated, StateExhausted}) t + number_of_rows (\<lambda>c. rc_CurrentState c = StateStopped) t
      = int (length t)" for t
    by (induction t) (auto simp: number_of_rows_def closed_states_def)
  then show ?thesis by (simp add: assms observability_Snapshot_def OperationalSnapshot_def Let_def)
qed

text \<open>One artifact that holds the text \<open>null\<close> takes the whole dashboard down.\<close>

theorem null_artifact_panics:
  "DashboardOperational text seen = Inr v \<Longrightarrow> dashboard_get text files seen = (0, []) \<longleftrightarrow>
     (\<exists>path \<in> {''phase24/summary.json'', ''phase24/budget_comparison.json'', ''phase25/ablation_summary.json''}. files path = Inr (Some JNull))"
proof -
  assume run: "DashboardOperational text seen = Inr v"
  have none: "files path = Inr (Some JNull) \<longleftrightarrow> readObject files path = None" for path
    by (auto simp: readObject_def split: sum.splits option.splits json.splits)
  show ?thesis unfolding none dashboard_get_def reporting_Get_def run by (auto split: option.splits)
qed

text \<open>
  A case whose payment is attributed between the first query and the second: the dashboard shows
  nothing recovered, and the amount as recovered naturally and on the timeline.
\<close>

theorem dashboard_reconciles_witness:
  "\<exists>db v. DashboardOperational (\<lambda>_. []) (\<lambda>k. sys_db (if k = 0 then \<lparr>sys_db = created_db, sys_reads = []\<rparr> else \<lparr>sys_db = db, sys_reads = []\<rparr>)) = Inr v
     \<and> op_RecoveredMinor v = 0 \<and> sum_list (map rp_RecoveredMinor (op_RecoveryTimeline v)) = 10000
     \<and> sum_list (map rt_Cases (op_RootCauses v)) = 1"
proof -
  obtain r db where a: "AttributeRecovery (ids CHR ''t'') example_payment created_db = Inr ((r, True), db)"
    using created_attributed by blast
  note f = reachable_attributed [OF a]
  let ?s = "\<lambda>k :: nat. if k = 0 then \<lparr>sys_db = created_db, sys_reads = []\<rparr> else \<lparr>sys_db = db, sys_reads = []\<rparr>"
  have cases: "map rc_AmountAtRiskMinor (db_cases db) = [10000]"
    using a
  proof (cases rule: AttributeRecoveryE)
    case (recorded c d fc)
    then show ?thesis using append_events_log [OF recorded(14)]
      by (simp add: created_tables modify_def recovered_case_def advance_def) (simp add: created_case_eq)
  qed simp_all
  then have one: "length (db_cases db) = 1" by (metis length_map length_Cons list.size(3) One_nat_def)
  have "attributed (?s 0) = 0" "attributed (?s 5) = 10000" "in_i64 (attributed (?s 5))" "in_i64 (at_risk (?s 3))"
    using f(3) cases by (simp_all add: amount_def in_i64_def created_tables)
  moreover have "reachable (?s 0)" "\<forall>k < 5. step\<^sup>*\<^sup>* (?s k) (?s (Suc k))" using reachable_created f(2) by auto
  ultimately show ?thesis using dashboard_reconciles [of ?s "\<lambda>_. []"] one by fastforce
qed

end
