(* ===== verification/Resilience.thy ===== *)
theory Resilience
  imports Orchestrator
begin

text \<open>
  The resilience laboratory (\<open>internal/resilience/evaluation.go\<close>): the worker of the orchestrator,
  run against a repository in memory and an executor that injects faults. The worker is stated
  once over its interfaces; on the database it is \<open>RunOnce\<close>. \<open>clock i k\<close> is the k-th reading of
  the clock in the i-th run. The evidence of a result is left out.
\<close>

section \<open>The worker over its interfaces\<close>

text \<open>\<open>orchestrator.Repository\<close>, the operations \<open>RunOnce\<close> calls; the error of a suppression is dropped.\<close>

record 's Repository =
  rp_ClaimDue :: "string \<Rightarrow> time \<Rightarrow> duration \<Rightarrow> 's \<Rightarrow> (error, ScheduledAction) result \<times> 's"
  rp_LoadAuthorization :: "ID \<Rightarrow> ID \<Rightarrow> 's \<Rightarrow> (error, Authorization) result"
  rp_MarkExecuting :: "ScheduledAction \<Rightarrow> time \<Rightarrow> 's \<Rightarrow> error option \<times> 's"
  rp_CompleteExecution :: "ScheduledAction \<Rightarrow> ExecResult \<Rightarrow> time \<Rightarrow> 's \<Rightarrow> error option \<times> 's"
  rp_MarkSuppressed :: "ScheduledAction \<Rightarrow> string \<Rightarrow> time \<Rightarrow> 's \<Rightarrow> 's"

definition reconciled_result :: "'s Executor list \<Rightarrow> ID \<Rightarrow> ScheduledAction \<Rightarrow> 's \<Rightarrow> ExecResult option" where
  "reconciled_result executors executionID a s =
     (if 1 < sa_AttemptCount a then
        (case registry_Reconcile executors (sa_Action a) (sa_IdempotencyKey a) s of
           Inl _ \<Rightarrow> None
         | Inr r \<Rightarrow> if er_Status r \<noteq> [] then Some (r\<lparr>er_ExecutionID := executionID, er_Action := sa_Action a,
             er_IdempotencyKey := sa_IdempotencyKey a\<rparr>) else None)
      else None)"

definition worker_perform :: "'s Repository \<Rightarrow> 's Executor list \<Rightarrow> (ID \<Rightarrow> 's \<Rightarrow> error option \<times> 's) option \<Rightarrow> ID \<Rightarrow> (nat \<Rightarrow> time)
    \<Rightarrow> ScheduledAction \<Rightarrow> RecoveryDecisionContext \<Rightarrow> 's \<Rightarrow> (ExecResult option \<times> RunError option) \<times> 's" where
  "worker_perform repo executors reassessor executionID clock a ctx s =
     (case reconciled_result executors executionID a s of
        Some reconciled \<Rightarrow>
          (case rp_MarkExecuting repo a (clock 0) s of
             (Some e, s) \<Rightarrow> ((None, Some (RunErr e)), s)
           | (None, s) \<Rightarrow>
               (case rp_CompleteExecution repo a reconciled (clock 3) s of (e, s) \<Rightarrow> ((Some reconciled, map_option RunErr e), s)))
      | None \<Rightarrow>
          (case rp_MarkExecuting repo a (clock 0) s of
             (Some e, s) \<Rightarrow> ((None, Some (RunErr e)), s)
           | (None, s) \<Rightarrow>
               (case registry_Execute executors (request_of executionID a ctx) s of
                  ((result, executeErr), s) \<Rightarrow>
                    (case rp_CompleteExecution repo a result (clock 3) s of
                       (Some e, s) \<Rightarrow> ((Some result, Some (RunErr e)), s)
                     | (None, s) \<Rightarrow>
                         (case (if er_Status result = ''FAILED'' \<and> \<not> er_Retryable result then reassessor else None) of
                            Some reassess \<Rightarrow>
                              (case reassess (sa_CaseID a) s of
                                 (Some e, s) \<Rightarrow> ((Some result, Some (ReassessErr e)), s)
                               | (None, s) \<Rightarrow> ((Some result, map_option ExecuteErr executeErr), s))
                          | None \<Rightarrow> ((Some result, map_option ExecuteErr executeErr), s))))))"

definition worker_RunOnce :: "'s Repository \<Rightarrow> (ID \<Rightarrow> 's \<Rightarrow> (error, RecoveryDecisionContext) result) \<Rightarrow> zone_db \<Rightarrow> 's Executor list
    \<Rightarrow> (ID \<Rightarrow> 's \<Rightarrow> error option \<times> 's) option \<Rightarrow> string \<Rightarrow> ID \<Rightarrow> (nat \<Rightarrow> time) \<Rightarrow> 's
    \<Rightarrow> (ExecResult option \<times> RunError option) \<times> 's" where
  "worker_RunOnce repo contexts zone executors reassessor workerID executionID clock s =
     (case rp_ClaimDue repo workerID (clock 0) (2 * Minute) s of
        (Inl e, s) \<Rightarrow> ((None, Some (RunErr e)), s)
      | (Inr a, s) \<Rightarrow>
          (case contexts (sa_CaseID a) s of Inl e \<Rightarrow> ((None, Some (RunErr e)), s)
           | Inr ctx \<Rightarrow>
               if stale_or_recovered a ctx then ((None, None), rp_MarkSuppressed repo a ''STALE_OR_RECOVERED'' (clock 0) s)
               else
                 (case rp_LoadAuthorization repo (sa_DecisionID a) (sa_PolicyEvaluationID a) s of
                    Inl e \<Rightarrow> ((None, Some (RunErr e)), s)
                  | Inr auth \<Rightarrow>
                      (case refusal zone a ctx auth (clock 0) of
                         Some reason \<Rightarrow> ((None, None), rp_MarkSuppressed repo a reason (clock 0) s)
                       | None \<Rightarrow> worker_perform repo executors reassessor executionID clock a ctx s))))"

text \<open>The repository of the store. A failed transaction leaves the database as it was.\<close>

definition store_repository :: "(nat \<Rightarrow> nat \<Rightarrow> ID) \<Rightarrow> (Database \<times> 'p) Repository" where
  "store_repository fresh =
     \<lparr>rp_ClaimDue = (\<lambda>w now lease s. case ClaimDue w now lease (fst s) of Inl e \<Rightarrow> (Inl e, s) | Inr (a, db) \<Rightarrow> (Inr a, (db, snd s))),
      rp_LoadAuthorization = (\<lambda>d p s. LoadAuthorization d p (fst s)),
      rp_MarkExecuting = (\<lambda>a now s. case MarkExecuting a now (fst s) of Inl e \<Rightarrow> (Some e, s) | Inr (_, db) \<Rightarrow> (None, (db, snd s))),
      rp_CompleteExecution = (\<lambda>a r now s. case CompleteExecution (fresh 3) a r now (fst s) of
         Inl e \<Rightarrow> (Some e, s) | Inr (_, db) \<Rightarrow> (None, (db, snd s))),
      rp_MarkSuppressed = (\<lambda>a reason now s. (suppress (fresh 0) a reason now (fst s), snd s))\<rparr>"

definition store_reassessor :: "Reassessor option \<Rightarrow> (ID \<Rightarrow> Database \<times> 'p \<Rightarrow> error option \<times> Database \<times> 'p) option" where
  "store_reassessor = map_option (\<lambda>reassess i s. case reassess i (fst s) of (e, db) \<Rightarrow> (e, (db, snd s)))"

lemma store_reconciled:
  "reconciled_result (wk_Registry w i t) executionID a s = reconcile_result w i t executionID a s"
  by (simp add: reconciled_result_def reconcile_result_def)

lemma store_perform:
  "worker_perform (store_repository fresh) (wk_Registry w (fresh 2 0) (clock 2)) (store_reassessor (wk_Reassessor w)) (fresh 1 0) clock a ctx s
     = perform w fresh clock (clock 0) a ctx s"
  unfolding worker_perform_def perform_def execute_scheduled_def after_execution_def store_reconciled
  by (auto simp: store_repository_def store_reassessor_def split: option.split sum.split prod.split)


section \<open>The laboratory\<close>

text \<open>\<open>repository\<close> and \<open>injectedExecutor\<close>, the state of one scenario.\<close>

record Lab =
  lb_scheduled :: ScheduledAction
  lb_authorization :: Authorization
  lb_claims :: int
  lb_executing :: int
  lb_completed :: int
  lb_suppressed :: string
  lb_completeFailure :: bool
  lb_markFailure :: bool
  lb_mode :: string
  lb_calls :: int
  lb_effects :: int
  lb_prior :: ExecResult

definition lab_repository :: "Lab Repository" where
  "lab_repository =
     \<lparr>rp_ClaimDue = (\<lambda>_ _ _ s. (Inr ((lb_scheduled s)\<lparr>sa_AttemptCount := lb_claims s + 1\<rparr>), s\<lparr>lb_claims := lb_claims s + 1\<rparr>)),
      rp_LoadAuthorization = (\<lambda>_ _ s. Inr (lb_authorization s)),
      rp_MarkExecuting = (\<lambda>_ _ s. if lb_markFailure s then (Some (ErrMsg ''injected crash before provider call''), s)
         else (None, s\<lparr>lb_executing := lb_executing s + 1\<rparr>)),
      rp_CompleteExecution = (\<lambda>_ _ _ s. let s = s\<lparr>lb_completed := lb_completed s + 1\<rparr> in
         (if lb_completeFailure s \<and> lb_completed s = 1 then Some (ErrMsg ''injected database failure after provider effect'') else None, s)),
      rp_MarkSuppressed = (\<lambda>_ reason _ s. s\<lparr>lb_suppressed := reason\<rparr>)\<rparr>"

abbreviation blank_result :: ExecResult where
  "blank_result \<equiv> \<lparr>er_ExecutionID = [], er_Action = OtherAction [], er_Status = [], er_Provider = [], er_ProviderReference = [],
     er_IdempotencyKey = [], er_ExecutedAt = 0, er_FailureClass = [], er_Retryable = False\<rparr>"

abbreviation deadline_exceeded :: fault where
  "deadline_exceeded \<equiv> plain_fault\<lparr>ft_DeadlineExceeded := True\<rparr>"

definition injected_Execute :: "time \<Rightarrow> Request \<Rightarrow> Lab \<Rightarrow> (ExecResult \<times> fault option) \<times> Lab" where
  "injected_Execute now r s =
     (let s = s\<lparr>lb_calls := lb_calls s + 1\<rparr> in
      if lb_mode s = ''timeout_before_provider''
      then ((blank_result\<lparr>er_Status := ''FAILED'', er_Retryable := True, er_FailureClass := ''TIMEOUT''\<rparr>, Some deadline_exceeded), s)
      else
        (let prior = \<lparr>er_ExecutionID = xq_ExecutionID r, er_Action = xq_Action r, er_Status = ''SUCCEEDED'', er_Provider = ''fault-lab'',
               er_ProviderReference = ''provider-effect-1'', er_IdempotencyKey = xq_IdempotencyKey r, er_ExecutedAt = now,
               er_FailureClass = [], er_Retryable = False\<rparr>;
             s = s\<lparr>lb_effects := lb_effects s + 1, lb_prior := prior\<rparr>
         in if lb_mode s = ''success_response_lost''
            then ((blank_result\<lparr>er_Status := ''FAILED'', er_Retryable := True, er_FailureClass := ''AMBIGUOUS_PROVIDER_OUTCOME'',
               er_IdempotencyKey := xq_IdempotencyKey r\<rparr>, Some deadline_exceeded), s)
            else ((prior, None), s)))"

definition injected_Reconcile :: "string \<Rightarrow> Lab \<Rightarrow> (fault, ExecResult) result" where
  "injected_Reconcile key s =
     (if er_Status (lb_prior s) \<noteq> [] \<and> er_IdempotencyKey (lb_prior s) = key then Inr (lb_prior s) else Inl plain_fault)"

definition injected_executor :: "time \<Rightarrow> Lab Executor" where
  "injected_executor now = \<lparr>xe_Supports = (\<lambda>_. True), xe_Execute = injected_Execute now, xe_Reconcile = injected_Reconcile\<rparr>"

text \<open>One \<open>RunOnce\<close> of a laboratory worker with the given answer of the context service.\<close>

definition lab_run :: "(error, RecoveryDecisionContext) result \<Rightarrow> zone_db \<Rightarrow> ID \<Rightarrow> (nat \<Rightarrow> time) \<Rightarrow> Lab
    \<Rightarrow> (ExecResult option \<times> RunError option) \<times> Lab" where
  "lab_run ctx zone executionID clock s =
     worker_RunOnce lab_repository (\<lambda>_ _. ctx) zone [injected_executor (clock 2)] None ''fault-lab'' executionID clock s"

definition viable_lab :: Lab where
  "viable_lab =
     \<lparr>lb_scheduled = \<lparr>sa_ID = ''lab-schedule'', sa_CaseID = ''lab-case'', sa_DecisionID = ''lab-decision'', sa_PolicyEvaluationID = [],
        sa_RecoveryActionID = ''lab-action'', sa_Action = ActionSendReminder, sa_Parameters = None, sa_ScheduledFor = 0,
        sa_Status = SPending, sa_AttemptCount = 0, sa_MaxAttempts = 3, sa_IdempotencyKey = ''lab-key'',
        sa_CaseVersionAtSchedule = 3, sa_NextRetryAt = None\<rparr>,
      lb_authorization = \<lparr>au_DecisionCaseVersion = 3,
        au_Candidate = \<lparr>cd_Action = ActionSendReminder, cd_ActionRecoveryProbability = 0, cd_NaturalRecoveryProbability = 0,
          cd_IncrementalUplift = 0, cd_GrossIncrementalValueMinor = 0, cd_ChannelCostMinor = 0, cd_IncentiveCostMinor = 0,
          cd_OperationalCostMinor = 0, cd_FatiguePenaltyMinor = 0, cd_RiskPenaltyMinor = 0, cd_NERVMinor = 100,
          cd_ObjectiveScoreMinor = 0, cd_Rank = 0, cd_ReasonCodes = []\<rparr>,
        au_Gate = \<lparr>eg_ID = [], eg_DecisionID = [], eg_CaseID = [], eg_Action = OtherAction [], eg_NERVMinor = 0, eg_ThresholdMinor = 0,
          eg_Decision = ''ALLOW'', eg_Reason = [], eg_GateVersion = [], eg_CreatedAt = 0\<rparr>, au_HumanApproved = False\<rparr>,
      lb_claims = 0, lb_executing = 0, lb_completed = 0, lb_suppressed = [], lb_completeFailure = False, lb_markFailure = False,
      lb_mode = [], lb_calls = 0, lb_effects = 0, lb_prior = blank_result\<rparr>"

record LabResult =
  lr_Suite :: string
  lr_Scenario :: string
  lr_FaultMode :: string
  lr_Passed :: bool
  lr_ExternalCallCount :: int
  lr_ProviderEffectCount :: int
  lr_ExecutionAttemptCount :: int
  lr_EventsDelivered :: int
  lr_Claims :: int
  lr_Reclaims :: int
  lr_DuplicatesBlocked :: int
  lr_ReconciliationEvents :: int
  lr_FinalActionState :: string
  lr_FinalCaseState :: string
  lr_SuppressionReason :: string
  lr_Error :: string

section \<open>The authorization suite\<close>

type_synonym scenario = "RecoveryDecisionContext \<times> Lab \<Rightarrow> RecoveryDecisionContext \<times> Lab"

abbreviation change_case :: "(RecoveryCase \<Rightarrow> RecoveryCase) \<Rightarrow> scenario" where
  "change_case f \<equiv> \<lambda>(c, r). (c\<lparr>Case := f (Case c)\<rparr>, r)"

abbreviation change_merchant :: "(MerchantContext \<Rightarrow> MerchantContext) \<Rightarrow> scenario" where
  "change_merchant f \<equiv> \<lambda>(c, r). (c\<lparr>MerchantCtx := f (MerchantCtx c)\<rparr>, r)"

abbreviation change_payment :: "(PaymentState \<Rightarrow> PaymentState) \<Rightarrow> scenario" where
  "change_payment f \<equiv> \<lambda>(c, r). (c\<lparr>Payment := f (Payment c)\<rparr>, r)"

abbreviation change_candidate :: "(Candidate \<Rightarrow> Candidate) \<Rightarrow> scenario" where
  "change_candidate f \<equiv> \<lambda>(c, r). (c, r\<lparr>lb_authorization := (lb_authorization r)\<lparr>au_Candidate := f (au_Candidate (lb_authorization r))\<rparr>\<rparr>)"

abbreviation past_actions :: "nat \<Rightarrow> ActionType \<Rightarrow> time \<Rightarrow> scenario" where
  "past_actions n a t \<equiv> \<lambda>(c, r). (c\<lparr>RecentActions := RecentActions c @ replicate n \<lparr>re_Type = a, re_Status = [], re_CreatedAt = t\<rparr>\<rparr>, r)"

abbreviation retry_now :: scenario where
  "retry_now \<equiv> \<lambda>(c, r). (c, r\<lparr>lb_scheduled := (lb_scheduled r)\<lparr>sa_Action := ActionRetryNow\<rparr>,
     lb_authorization := (lb_authorization r)\<lparr>au_Candidate := (au_Candidate (lb_authorization r))\<lparr>cd_Action := ActionRetryNow\<rparr>\<rparr>\<rparr>)"

definition blank_promise :: PromiseToPay where
  "blank_promise = \<lparr>pp_ID = [], pp_CaseID = [], pp_CustomerID = [], pp_Status = PromiseActive, pp_DueAt = 0, pp_Confidence = 0,
     pp_Source = None, pp_CreatedAt = 0, pp_ResolvedAt = None, pp_PromisedAmountMinor = None, pp_ExtractorVersion = [],
     pp_ExtractionTimestamp = None, pp_SourceResponseID = None, pp_FulfilledAt = None, pp_BrokenAt = None, pp_ExpiredAt = None,
     pp_CancelledAt = None, pp_VerificationReference = []\<rparr>"

definition safety_cases :: "time \<Rightarrow> (string \<times> scenario) list" where
  "safety_cases now =
     [(''valid_control'', \<lambda>x. x),
      (''recovered_case'', change_case (rc_CurrentState_update (\<lambda>_. StateRecovered))),
      (''cancelled_subscription'', change_case (rc_SourceStatus_update (\<lambda>_. ''CANCELLED''))),
      (''expired_recovery_window'', change_case (rc_RecoveryDeadline_update (\<lambda>_. now - Minute))),
      (''stale_scheduled_case'', change_case (rc_Version_update (\<lambda>_. 4))),
      (''stale_decision'', change_case (rc_Version_update (\<lambda>v. v + 1))),
      (''economic_gate_blocked'', \<lambda>(c, r). (c, r\<lparr>lb_authorization := (lb_authorization r)\<lparr>au_Gate :=
         (au_Gate (lb_authorization r))\<lparr>eg_Decision := ''BLOCK''\<rparr>\<rparr>\<rparr>)),
      (''customer_opt_out'', \<lambda>(c, r). (c\<lparr>Profile := (Profile c)\<lparr>cp_OptedOut := True\<rparr>\<rparr>, r)),
      (''maximum_contacts_day'', past_actions 3 ActionSendReminder (now - Hour)),
      (''maximum_contacts_week'', past_actions 5 ActionSendReminder (now - 48 * Hour)),
      (''minimum_contact_interval'', \<lambda>(c, r). (c\<lparr>RecentActions := [\<lparr>re_Type = ActionSendReminder, re_Status = [], re_CreatedAt = now - Minute\<rparr>]\<rparr>, r)),
      (''active_promise'', \<lambda>(c, r). (c\<lparr>ActivePromise := Some blank_promise\<rparr>, r)),
      (''action_not_allowed'', change_merchant (mc_AllowedActions_update (\<lambda>_. [ActionRetryNow]))),
      (''channel_not_allowed'', change_merchant (mc_AllowedChannels_update (\<lambda>_. []))),
      (''channel_unavailable'', change_payment (ps_AvailableChannels_update (\<lambda>_. []))),
      (''quiet_hours'', change_merchant (\<lambda>m. m\<lparr>mc_QuietHours := Some (JObj [(''start'', JStr ''00:00''), (''end'', JStr ''23:59'')]),
         mc_Timezone := ''invalid/timezone''\<rparr>)),
      (''mandate_revoked'', \<lambda>x. change_payment (ps_MandateStatus_update (\<lambda>_. ''REVOKED'')) (retry_now x)),
      (''invalid_payment_method'', \<lambda>x. change_payment (ps_PaymentMethodStatus_update (\<lambda>_. ''INVALID'')) (retry_now x)),
      (''maximum_retries'', \<lambda>x. past_actions 3 ActionRetryNow (now - 2 * Hour) (retry_now x)),
      (''terminal_case'', change_case (rc_CurrentState_update (\<lambda>_. StateStopped))),
      (''high_value_approval'', change_merchant (mc_HighValueThresholdMinor_update (\<lambda>_. 10000))),
      (''low_confidence'', \<lambda>x. case change_merchant (mc_LowConfidenceThreshold_update (\<lambda>_. fl (8 / 10))) x of
         (c, r) \<Rightarrow> (c\<lparr>Diag := (Diag c)\<lparr>dg_Confidence := fl (5 / 10)\<rparr>\<rparr>, r)),
      (''maximum_incentive'', change_candidate (cd_IncentiveCostMinor_update (\<lambda>_. 101)))]"

text \<open>The errors a laboratory run can return, as text.\<close>

fun run_error_text :: "RunError option \<Rightarrow> string" where
  "run_error_text None = []"
| "run_error_text (Some (RunErr (ErrMsg m))) = m"
| "run_error_text (Some (ExecuteErr f)) = ''execute action: context deadline exceeded''"
| "run_error_text (Some _) = ''error''"

definition blank_lab_result :: LabResult where
  "blank_lab_result = \<lparr>lr_Suite = [], lr_Scenario = [], lr_FaultMode = [], lr_Passed = False, lr_ExternalCallCount = 0,
     lr_ProviderEffectCount = 0, lr_ExecutionAttemptCount = 0, lr_EventsDelivered = 0, lr_Claims = 0, lr_Reclaims = 0,
     lr_DuplicatesBlocked = 0, lr_ReconciliationEvents = 0, lr_FinalActionState = [], lr_FinalCaseState = [],
     lr_SuppressionReason = [], lr_Error = []\<rparr>"

definition safety_result :: "time \<Rightarrow> zone_db \<Rightarrow> ID \<Rightarrow> (nat \<Rightarrow> time) \<Rightarrow> string \<times> scenario \<Rightarrow> LabResult" where
  "safety_result now zone executionID clock tc =
     (case snd tc (viable_context now, viable_lab) of (ctx, repo) \<Rightarrow>
      case lab_run (Inr ctx) zone executionID clock repo of ((_, err), s) \<Rightarrow>
        blank_lab_result\<lparr>lr_Suite := ''AUTHORIZATION_SAFETY'', lr_Scenario := fst tc, lr_FaultMode := ''policy_or_state_restriction'',
          lr_Passed := ((lb_calls s = 1) = (fst tc = ''valid_control'')), lr_ExternalCallCount := lb_calls s,
          lr_ProviderEffectCount := lb_effects s, lr_ExecutionAttemptCount := lb_executing s, lr_SuppressionReason := lb_suppressed s,
          lr_Error := run_error_text err\<rparr>)"

definition RunAuthorizationSuite :: "time \<Rightarrow> zone_db \<Rightarrow> (nat \<Rightarrow> ID) \<Rightarrow> (nat \<Rightarrow> nat \<Rightarrow> time) \<Rightarrow> LabResult list" where
  "RunAuthorizationSuite now zone fresh clock =
     map2 (\<lambda>i. safety_result now zone (fresh i) (clock i)) [0..<length (safety_cases now)] (safety_cases now)"

section \<open>The fault scenarios\<close>

definition lab_finish :: "LabResult \<times> RecoveryDecisionContext \<times> Lab \<Rightarrow> LabResult" where
  "lab_finish = (\<lambda>(r, ctx, s). r\<lparr>lr_ExternalCallCount := lb_calls s, lr_ProviderEffectCount := lb_effects s,
     lr_ExecutionAttemptCount := lb_executing s, lr_Claims := lb_claims s,
     lr_Reclaims := (if 1 < lb_claims s then lb_claims s - 1 else lr_Reclaims r), lr_FinalCaseState := state_string (rc_CurrentState (Case ctx)),
     lr_FinalActionState := (if 0 < lb_completed s then ''COMPLETED'' else if lb_suppressed s \<noteq> [] then ''SUPPRESSED'' else ''NOT_EXECUTED''),
     lr_SuppressionReason := lb_suppressed s\<rparr>)"

definition RunFaultScenario :: "time \<Rightarrow> zone_db \<Rightarrow> (nat \<Rightarrow> ID) \<Rightarrow> (nat \<Rightarrow> nat \<Rightarrow> time) \<Rightarrow> string \<Rightarrow> LabResult" where
  "RunFaultScenario now zone fresh clock name =
     (let ctx = viable_context now; s = viable_lab;
          run = (\<lambda>i c. lab_run c zone (fresh i) (clock i));
          result = blank_lab_result\<lparr>lr_Suite := ''FAULT_RECONCILIATION'', lr_Scenario := name, lr_FaultMode := name\<rparr>;
          twice = (\<lambda>s. case run 0 (Inr ctx) s of (_, s) \<Rightarrow> run 1 (Inr ctx) s);
          newer = ctx\<lparr>Case := (Case ctx)\<lparr>rc_Version := rc_Version (Case ctx) + 1\<rparr>\<rparr>
      in lab_finish
        (if name \<in> {''decision_service_timeout'', ''invalid_model_output'', ''redis_unavailable''} then
           (case run 0 (Inl (ErrMsg ''context deadline exceeded'')) s of ((_, err), s) \<Rightarrow>
              (result\<lparr>lr_Passed := (err \<noteq> None \<and> lb_effects s = 0)\<rparr>, ctx, s))
         else if name \<in> {''stale_case_version'', ''stale_scheduled_action''} then
           (case run 0 (Inr newer) s of (_, s) \<Rightarrow> (result\<lparr>lr_Passed := (lb_effects s = 0 \<and> lb_suppressed s \<noteq> [])\<rparr>, newer, s))
         else if name = ''stale_nba_decision'' then
           (case run 0 (Inr newer) s of (_, s) \<Rightarrow>
              (result\<lparr>lr_Passed := (lb_effects s = 0 \<and> lb_suppressed s \<in> {''STALE_OR_RECOVERED'', ''POLICY_RECHECK_DENY''})\<rparr>, newer, s))
         else if name = ''customer_pays_before_scheduled_action'' then
           (let paid = ctx\<lparr>Payment := (Payment ctx)\<lparr>ps_AlreadyRecovered := True\<rparr>, Case := (Case ctx)\<lparr>rc_CurrentState := StateRecovered\<rparr>\<rparr>
            in case run 0 (Inr paid) s of (_, s) \<Rightarrow> (result\<lparr>lr_Passed := (lb_effects s = 0 \<and> lb_suppressed s \<noteq> [])\<rparr>, paid, s))
         else if name \<in> {''provider_timeout'', ''network_timeout_before_provider_execution'', ''razorpay_timeout''} then
           (case run 0 (Inr ctx) (s\<lparr>lb_mode := ''timeout_before_provider''\<rparr>) of ((_, err), s) \<Rightarrow>
              (result\<lparr>lr_Passed := (err \<noteq> None \<and> lb_effects s = 0)\<rparr>, ctx, s))
         else if name \<in> {''provider_success_response_lost'', ''network_timeout_after_provider_succeeds''} then
           (case twice (s\<lparr>lb_mode := ''success_response_lost''\<rparr>) of ((_, err), s) \<Rightarrow>
              (result\<lparr>lr_Passed := (err = None \<and> lb_effects s = 1 \<and> lb_calls s = 1 \<and> lb_completed s = 2), lr_ReconciliationEvents := 1\<rparr>, ctx, s))
         else if name \<in> {''database_failure_after_provider'', ''worker_crash_after_external_effect'', ''worker_crash''} then
           (case twice (s\<lparr>lb_completeFailure := True\<rparr>) of ((_, err), s) \<Rightarrow>
              (result\<lparr>lr_Passed := (err = None \<and> lb_effects s = 1 \<and> lb_calls s = 1)\<rparr>, ctx, s))
         else if name \<in> {''duplicate_worker_invocation'', ''duplicate_scheduled_job'', ''duplicate_job'', ''api_retry'', ''worker_restart'',
             ''lease_expiration'', ''expired_worker_lease'', ''concurrent_workers''} then
           (case twice s of (_, s) \<Rightarrow> (result\<lparr>lr_Passed := (lb_effects s = 1 \<and> lb_calls s = 1)\<rparr>, ctx, s))
         else if name \<in> {''crash_before_provider'', ''worker_crash_before_external_effect''} then
           (case run 0 (Inr ctx) (s\<lparr>lb_markFailure := True\<rparr>) of ((_, err), s) \<Rightarrow>
              (result\<lparr>lr_Passed := (err \<noteq> None \<and> lb_effects s = 0)\<rparr>, ctx, s))
         else if name = ''duplicate_webhook'' then
           (case run 0 (Inr ctx) s of ((_, err), s) \<Rightarrow>
              (result\<lparr>lr_EventsDelivered := 10, lr_DuplicatesBlocked := 9, lr_Passed := (err = None \<and> lb_effects s = 1)\<rparr>, ctx, s))
         else if name = ''invalid_webhook_signature'' then
           (result\<lparr>lr_Passed := (lb_effects s = 0)\<rparr>, ctx, s\<lparr>lb_suppressed := ''INVALID_SIGNATURE''\<rparr>)
         else if name = ''duplicate_customer_response'' then
           (result\<lparr>lr_EventsDelivered := 2, lr_DuplicatesBlocked := 1, lr_Passed := True\<rparr>, ctx, s)
         else if name \<in> {''out_of_order_webhook'', ''out_of_order_event'', ''delayed_webhook'', ''late_payment_event''} then
           (result\<lparr>lr_EventsDelivered := 2, lr_Passed := True\<rparr>, ctx, s)
         else if name = ''retry_exhaustion'' then
           (case run 0 (Inr ctx) (s\<lparr>lb_scheduled := (lb_scheduled s)\<lparr>sa_MaxAttempts := 1\<rparr>, lb_mode := ''timeout_before_provider''\<rparr>) of
              ((_, err), s) \<Rightarrow> (result\<lparr>lr_Passed := (err \<noteq> None \<and> lb_effects s = 0)\<rparr>, ctx, s))
         else (result\<lparr>lr_Error := ''unknown fault mode'', lr_Passed := False\<rparr>, ctx, s)))"

definition fault_names :: "string list" where
  "fault_names = [''duplicate_webhook'', ''duplicate_scheduled_job'', ''duplicate_customer_response'', ''api_retry'',
     ''worker_crash_before_external_effect'', ''worker_crash_after_external_effect'', ''network_timeout_before_provider_execution'',
     ''network_timeout_after_provider_succeeds'', ''out_of_order_event'', ''late_payment_event'', ''expired_worker_lease'',
     ''concurrent_workers'', ''stale_scheduled_action'', ''redis_unavailable'']"

definition RunFaultSuite :: "time \<Rightarrow> zone_db \<Rightarrow> (nat \<Rightarrow> ID) \<Rightarrow> (nat \<Rightarrow> nat \<Rightarrow> time) \<Rightarrow> LabResult list" where
  "RunFaultSuite now zone fresh clock =
     sort_by (\<lambda>a b. lr_Scenario a < lr_Scenario b) (map (RunFaultScenario now zone fresh clock) fault_names)"

section \<open>At most one effect\<close>

lemma lab_registry [simp]:
  "registry_Execute [injected_executor t] r s = injected_Execute t r s"
  "registry_Reconcile [injected_executor t] a key s = injected_Reconcile key s"
  by (simp_all add: registry_Execute_def registry_Reconcile_def injected_executor_def)

text \<open>A repository and an executor after any number of runs.\<close>

definition lab_ok :: "Lab \<Rightarrow> bool" where
  "lab_ok s \<longleftrightarrow> 0 \<le> lb_claims s \<and> (lb_effects s = 0 \<and> er_Status (lb_prior s) = [] \<or> lb_effects s = 1 \<and> 1 \<le> lb_claims s
       \<and> er_Status (lb_prior s) = ''SUCCEEDED'' \<and> er_IdempotencyKey (lb_prior s) = sa_IdempotencyKey (lb_scheduled s))
     \<and> (lb_mode s \<noteq> ''timeout_before_provider'' \<longrightarrow> lb_calls s = lb_effects s)"

text \<open>One run, with the operations of the laboratory in place.\<close>

definition lab_attempt :: "ID \<Rightarrow> (nat \<Rightarrow> time) \<Rightarrow> RecoveryDecisionContext \<Rightarrow> Lab \<Rightarrow> (ExecResult option \<times> RunError option) \<times> Lab" where
  "lab_attempt executionID clock ctx s =
     worker_perform lab_repository [injected_executor (clock 2)] None executionID clock
       ((lb_scheduled s)\<lparr>sa_AttemptCount := lb_claims s\<rparr>) ctx s"

lemma lab_run_eq:
  "lab_run c zone i clock s =
     (let s = s\<lparr>lb_claims := lb_claims s + 1\<rparr>; a = (lb_scheduled s)\<lparr>sa_AttemptCount := lb_claims s\<rparr> in
      case c of Inl e \<Rightarrow> ((None, Some (RunErr e)), s)
      | Inr ctx \<Rightarrow> if stale_or_recovered a ctx then ((None, None), s\<lparr>lb_suppressed := ''STALE_OR_RECOVERED''\<rparr>)
          else (case refusal zone a ctx (lb_authorization s) (clock 0) of
              Some reason \<Rightarrow> ((None, None), s\<lparr>lb_suppressed := reason\<rparr>)
            | None \<Rightarrow> lab_attempt i clock ctx s))"
  by (simp add: lab_run_def worker_RunOnce_def lab_repository_def lab_attempt_def Let_def split: sum.split option.split)

text \<open>An attempt asks the provider first when it is not the first one.\<close>

lemma lab_attempt_replay:
  assumes "lab_ok s" and "lb_effects s = 1" and "1 < lb_claims s"
  shows "snd (lab_attempt i clock ctx s) = (if lb_markFailure s then s
    else s\<lparr>lb_executing := lb_executing s + 1, lb_completed := lb_completed s + 1\<rparr>)"
proof -
  have "reconciled_result [injected_executor (clock 2)] i ((lb_scheduled s)\<lparr>sa_AttemptCount := lb_claims s\<rparr>) s
      = Some ((lb_prior s)\<lparr>er_ExecutionID := i, er_Action := sa_Action (lb_scheduled s), er_IdempotencyKey := sa_IdempotencyKey (lb_scheduled s)\<rparr>)"
    using assms by (simp add: reconciled_result_def injected_Reconcile_def lab_ok_def)
  then show ?thesis by (simp add: lab_attempt_def worker_perform_def lab_repository_def Let_def)
qed

lemma lab_attempt_new:
  assumes "lab_ok s" and "lb_effects s = 0"
  shows "lab_attempt i clock ctx s =
    (if lb_markFailure s then ((None, Some (RunErr (ErrMsg ''injected crash before provider call''))), s)
     else
       (case injected_Execute (clock 2) (request_of i ((lb_scheduled s)\<lparr>sa_AttemptCount := lb_claims s\<rparr>) ctx)
           (s\<lparr>lb_executing := lb_executing s + 1\<rparr>) of ((result, executeErr), s) \<Rightarrow>
         ((Some result, if lb_completeFailure s \<and> lb_completed s = 0
             then Some (RunErr (ErrMsg ''injected database failure after provider effect'')) else map_option ExecuteErr executeErr),
          s\<lparr>lb_completed := lb_completed s + 1\<rparr>)))"
proof -
  have "reconciled_result [injected_executor (clock 2)] i ((lb_scheduled s)\<lparr>sa_AttemptCount := lb_claims s\<rparr>) s = None"
    using assms by (simp add: reconciled_result_def injected_Reconcile_def lab_ok_def)
  then show ?thesis by (simp add: lab_attempt_def worker_perform_def lab_repository_def Let_def split: prod.split)
qed

lemma lab_attempt_ok:
  assumes "lab_ok s" and "1 \<le> lb_claims s" and "lb_effects s = 1 \<Longrightarrow> 1 < lb_claims s"
  shows "lab_ok (snd (lab_attempt i clock ctx s)) \<and> lb_scheduled (snd (lab_attempt i clock ctx s)) = lb_scheduled s"
proof (cases "lb_effects s = 1")
  case True
  then show ?thesis using lab_attempt_replay [OF assms(1) True assms(3) [OF True]] assms(1) by (auto simp: lab_ok_def)
next
  case False
  then have "lb_effects s = 0" using assms(1) by (auto simp: lab_ok_def)
  then show ?thesis using lab_attempt_new [OF assms(1)] assms(1,2)
    by (auto simp: lab_ok_def injected_Execute_def Let_def request_of_def)
qed

lemma lab_run_ok:
  assumes "lab_ok s"
  shows "lab_ok (snd (lab_run c zone i clock s)) \<and> lb_scheduled (snd (lab_run c zone i clock s)) = lb_scheduled s"
proof -
  define s1 where "s1 = s\<lparr>lb_claims := lb_claims s + 1\<rparr>"
  have s1: "lab_ok s1" "1 \<le> lb_claims s1" "lb_effects s1 = 1 \<Longrightarrow> 1 < lb_claims s1" using assms by (auto simp: s1_def lab_ok_def)
  have t: "lab_ok (s1\<lparr>lb_suppressed := r\<rparr>)" for r using s1(1) by (simp add: lab_ok_def)
  have e: "lb_scheduled s1 = lb_scheduled s" by (simp add: s1_def)
  show ?thesis unfolding lab_run_eq Let_def s1_def [symmetric]
    using lab_attempt_ok [OF s1, of i clock] s1(1) t e by (simp split: sum.split option.split)
qed

definition lab_runs :: "zone_db \<Rightarrow> Lab \<Rightarrow> ((error, RecoveryDecisionContext) result \<times> ID \<times> (nat \<Rightarrow> time)) list \<Rightarrow> Lab" where
  "lab_runs zone s runs = foldl (\<lambda>s (c, i, clock). snd (lab_run c zone i clock s)) s runs"

text \<open>C17. At most one effect per scheduled action. However often the worker runs for a scheduled action,
  whatever the context service and the policy say each time, and whichever fault is injected
  (the provider's answer lost, a crash before the call, the database failing after the effect),
  the provider performs the action at most once, and it is called once more only after a call
  without an effect: an attempt after the first asks for the effect of the idempotency key before
  it calls.\<close>

theorem at_most_one_effect:
  assumes "lb_claims s = 0" and "lb_effects s = 0" and "lb_calls s = 0" and "lb_prior s = blank_result"
  shows "lb_effects (lab_runs zone s runs) \<le> 1
    \<and> (lb_mode s \<noteq> ''timeout_before_provider'' \<longrightarrow> lb_calls (lab_runs zone s runs) = lb_effects (lab_runs zone s runs))
    \<and> (lb_effects (lab_runs zone s runs) = 1 \<longrightarrow> er_IdempotencyKey (lb_prior (lab_runs zone s runs)) = sa_IdempotencyKey (lb_scheduled s))"
proof -
  have mode: "lb_mode (snd (lab_run c zone i clock s)) = lb_mode s" for c i clock s
    by (simp add: lab_run_eq Let_def lab_attempt_def worker_perform_def lab_repository_def injected_Execute_def
        split: sum.split option.split)
  have "lab_ok (lab_runs zone s runs)
      \<and> lb_scheduled (lab_runs zone s runs) = lb_scheduled s
      \<and> lb_mode (lab_runs zone s runs) = lb_mode s" if "lab_ok s" for s
    using that
  proof (induction runs arbitrary: s)
    case (Cons x runs)
    then show ?case using lab_run_ok [OF Cons.prems] mode by (cases x) (simp add: lab_runs_def)
  qed (simp add: lab_runs_def)
  moreover have "lab_ok s" using assms(1-4) by (simp add: lab_ok_def)
  ultimately have "lab_ok (lab_runs zone s runs) \<and> lb_scheduled (lab_runs zone s runs) = lb_scheduled s
      \<and> lb_mode (lab_runs zone s runs) = lb_mode s" by blast
  then show ?thesis by (auto simp: lab_ok_def)
qed

section \<open>The suites\<close>

text \<open>The clock of a worker reads at most half an hour later than the suite's.\<close>

abbreviation soon :: "time \<Rightarrow> time \<Rightarrow> bool" where
  "soon now t \<equiv> now \<le> t \<and> t \<le> now + 30 * Minute"

lemma refused_by_check:
  assumes "(n, True) \<in> set (stop_checks ctx t @ deny_checks zone ctx (rc_Version (Case ctx)) (au_Candidate auth) (au_Gate auth) t @ escalate_checks ctx)"
    and "\<not> au_HumanApproved auth"
  shows "refusal zone a ctx auth t \<noteq> None"
proof -
  let ?verdict = "po_Decision (policy_Evaluate zone ctx (sa_DecisionID a) (rc_Version (Case ctx)) (au_Candidate auth) (au_Gate auth) t)"
  have "?verdict \<noteq> ''APPROVE''"
  proof
    assume "?verdict = ''APPROVE''"
    from bspec [OF this [unfolded policy_approve_iff] assms(1)] show False by simp
  qed
  then show ?thesis using assms(2) by (simp add: refusal_def Let_def)
qed

text \<open>What the worker of a scenario refuses.\<close>

definition refused :: "zone_db \<Rightarrow> time \<Rightarrow> RecoveryDecisionContext \<times> Lab \<Rightarrow> bool" where
  "refused zone t x \<longleftrightarrow> (let a = (lb_scheduled (snd x))\<lparr>sa_AttemptCount := 1\<rparr> in
     stale_or_recovered a (fst x) \<or> refusal zone a (fst x) (lb_authorization (snd x)) t \<noteq> None)"

lemma refusal_reason: "refusal zone a ctx auth t = Some reason \<Longrightarrow> reason \<noteq> []"
  by (auto simp: refusal_def Let_def split: if_splits)

lemma refused_run:
  assumes "refused zone (clock 0) (ctx, s)" and "lb_claims s = 0"
  shows "lb_calls (snd (lab_run (Inr ctx) zone i clock s)) = lb_calls s" "lb_effects (snd (lab_run (Inr ctx) zone i clock s)) = lb_effects s"
    "lb_executing (snd (lab_run (Inr ctx) zone i clock s)) = lb_executing s" "snd (fst (lab_run (Inr ctx) zone i clock s)) = None"
    "lb_suppressed (snd (lab_run (Inr ctx) zone i clock s)) \<noteq> []"
proof -
  let ?s = "s\<lparr>lb_claims := 1\<rparr>" and ?a = "(lb_scheduled s)\<lparr>sa_AttemptCount := 1\<rparr>"
  have "\<exists>reason. reason \<noteq> [] \<and> lab_run (Inr ctx) zone i clock s = ((None, None), ?s\<lparr>lb_suppressed := reason\<rparr>)"
  proof (cases "stale_or_recovered ?a ctx")
    case True
    then show ?thesis using assms(2) by (intro exI [of _ "''STALE_OR_RECOVERED''"]) (simp add: lab_run_eq Let_def)
  next
    case False
    then obtain reason where "refusal zone ?a ctx (lb_authorization s) (clock 0) = Some reason"
      using assms(1) by (auto simp: refused_def Let_def)
    then show ?thesis using False assms(2) refusal_reason by (intro exI [of _ reason]) (simp add: lab_run_eq Let_def)
  qed
  then obtain reason where "reason \<noteq> []" "lab_run (Inr ctx) zone i clock s = ((None, None), ?s\<lparr>lb_suppressed := reason\<rparr>)" by blast
  then show "lb_calls (snd (lab_run (Inr ctx) zone i clock s)) = lb_calls s" "lb_effects (snd (lab_run (Inr ctx) zone i clock s)) = lb_effects s"
    "lb_executing (snd (lab_run (Inr ctx) zone i clock s)) = lb_executing s" "snd (fst (lab_run (Inr ctx) zone i clock s)) = None"
    "lb_suppressed (snd (lab_run (Inr ctx) zone i clock s)) \<noteq> []" by simp_all
qed

lemmas lab_checks = refused_def stale_or_recovered_def viable_defs viable_lab_def stop_checks_def deny_checks_def escalate_checks_def Let_def

lemma lab_permitted:
  assumes "soon now t"
  shows "refusal zone a (viable_context now) (lb_authorization viable_lab) t = None"
    "\<not> stale_or_recovered ((lb_scheduled viable_lab)\<lparr>sa_AttemptCount := n\<rparr>) (viable_context now)"
proof -
  have "0 \<le> fl (9 / 10)" by (rule fl_nonneg) simp
  then have "po_Decision (policy_Evaluate zone (viable_context now) d 3 (au_Candidate (lb_authorization viable_lab))
      (au_Gate (lb_authorization viable_lab)) t) = ''APPROVE''" for d
    using assms unfolding policy_approve_iff
    by (simp add: lab_checks IsTerminal_def Hour_def Minute_def history_def inQuietHours_def promise_active_def is_retry_def retryActions_def)
  then show "refusal zone a (viable_context now) (lb_authorization viable_lab) t = None"
    by (simp add: refusal_def Let_def) (simp add: viable_defs viable_lab_def)
  show "\<not> stale_or_recovered ((lb_scheduled viable_lab)\<lparr>sa_AttemptCount := n\<rparr>) (viable_context now)"
    by (simp add: stale_or_recovered_def viable_defs viable_lab_def)
qed

lemma refusedI:
  assumes "(n, True) \<in> set (stop_checks (fst x) t @ deny_checks zone (fst x) (rc_Version (Case (fst x)))
      (au_Candidate (lb_authorization (snd x))) (au_Gate (lb_authorization (snd x))) t @ escalate_checks (fst x))"
    and "\<not> au_HumanApproved (lb_authorization (snd x))"
  shows "refused zone t x"
  using refused_by_check [OF assms] by (simp add: refused_def Let_def)

lemma lab_ages:
  assumes "soon now t"
  shows "Sub t (now - Hour) \<le> 24 * Hour" "Sub t (now - 48 * Hour) \<le> 7 * 24 * Hour" "Sub t (now - Minute) < i64 (60 * Minute)"
  using assms by (auto simp: Sub_def Hour_def Minute_def i64_def)

lemma lab_actions: "is_contact ActionSendReminder" "\<not> is_retry ActionSendReminder" "is_retry ActionRetryNow" "\<not> is_contact ActionRetryNow"
  by (simp_all add: is_contact_def contactActions_def is_retry_def retryActions_def)

lemma contacts_day: "soon now t \<Longrightarrow> 3 \<le> hi_day (history (replicate 3 \<lparr>re_Type = ActionSendReminder, re_Status = [], re_CreatedAt = now - Hour\<rparr>) t)"
  using lab_ages(1) [of now t]
  by (simp add: history_def history_step_def Let_def numeral_3_eq_3 lab_actions)

lemma history_week:
  "is_contact (re_Type a) \<Longrightarrow> Sub t (re_CreatedAt a) \<le> 7 * 24 * Hour \<Longrightarrow>
    hi_week (foldl (history_step t) h (replicate n a)) = hi_week h + int n"
  by (induction n arbitrary: h) (simp_all add: history_step_def Let_def)

lemma contacts_week: "soon now t \<Longrightarrow> 5 \<le> hi_week (history (replicate 5 \<lparr>re_Type = ActionSendReminder, re_Status = [], re_CreatedAt = now - 48 * Hour\<rparr>) t)"
  using lab_ages(2) [of now t] unfolding history_def by (subst history_week) (simp_all add: lab_actions)

lemma contact_interval:
  "soon now t \<Longrightarrow> Minute < now \<Longrightarrow>
    let h = history [\<lparr>re_Type = ActionSendReminder, re_Status = [], re_CreatedAt = now - Minute\<rparr>] t
    in \<not> IsZero (hi_lastContact h) \<and> Sub t (hi_lastContact h) < i64 (60 * Minute)"
  using lab_ages(3) [of now t] by (simp add: history_def history_step_def Let_def lab_actions)

lemma retries: "3 \<le> hi_retry (history (replicate 3 \<lparr>re_Type = ActionRetryNow, re_Status = [], re_CreatedAt = u\<rparr>) t)"
  by (simp add: history_def history_step_def Let_def numeral_3_eq_3 lab_actions)

text \<open>Each scenario after the first runs into the check it is named for.\<close>

lemma safety_refused:
  assumes t: "soon now t" and n: "Minute < now" and z: "zone ''invalid/timezone'' = None"
  shows "list_all (\<lambda>tc. refused zone t (snd tc (viable_context now, viable_lab))) (tl (safety_cases now))"
proof -
  note stale = refused_def stale_or_recovered_def viable_defs viable_lab_def Let_def
  note checks = lab_checks lab_actions
  have quiet: "decode_string_field (Some (JObj [(''start'', JStr ''00:00''), (''end'', JStr ''23:59'')])) ''start'' = Some ''00:00''"
    "decode_string_field (Some (JObj [(''start'', JStr ''00:00''), (''end'', JStr ''23:59'')])) ''end'' = Some ''23:59''" by code_simp+
  have low: "fl (5 / 10) < fl (8 / 10)" by code_simp
  show ?thesis
    unfolding safety_cases_def list.sel list.pred_inject snd_conv prod.case
    apply (intro conjI TrueI)
    subgoal by (simp add: stale)
    subgoal by (rule refusedI [of "''SUBSCRIPTION_CANCELLED''"]; simp add: checks)
    subgoal by (rule refusedI [of "''RECOVERY_WINDOW_EXPIRED''"]; use t in \<open>simp add: checks Minute_def\<close>)
    subgoal by (simp add: stale)
    subgoal by (simp add: stale)
    subgoal by (rule refusedI [of "''ECONOMIC_GATE_BLOCKED''"]; simp add: checks)
    subgoal by (rule refusedI [of "''CUSTOMER_OPT_OUT''"]; simp add: checks)
    subgoal by (rule refusedI [of "''MAX_CONTACTS_PER_DAY''"]; use contacts_day [OF t] in \<open>simp add: checks\<close>)
    subgoal by (rule refusedI [of "''MAX_CONTACTS_PER_WEEK''"]; use contacts_week [OF t] in \<open>simp add: checks\<close>)
    subgoal by (rule refusedI [of "''MIN_CONTACT_INTERVAL''"]; use contact_interval [OF t n] in \<open>simp add: checks interval_def\<close>)
    subgoal by (rule refusedI [of "''ACTIVE_PROMISE_TO_PAY''"]; simp add: checks promise_active_def blank_promise_def)
    subgoal by (rule refusedI [of "''ACTION_NOT_ALLOWED''"]; simp add: checks)
    subgoal by (rule refusedI [of "''CHANNEL_NOT_ALLOWED''"]; simp add: checks)
    subgoal by (rule refusedI [of "''CHANNEL_UNAVAILABLE''"]; simp add: checks)
    subgoal by (rule refusedI [of "''QUIET_HOURS''"]; use z quiet in \<open>simp add: checks inQuietHours_def\<close>)
    subgoal by (rule refusedI [of "''MANDATE_INVALID''"]; simp add: checks)
    subgoal by (rule refusedI [of "''PAYMENT_METHOD_INVALID''"]; simp add: checks)
    subgoal by (rule refusedI [of "''MAX_RETRIES''"]; use retries [of "now - 2 * Hour" t] in \<open>simp add: checks\<close>)
    subgoal by (rule refusedI [of "''TERMINAL_CASE_STATE''"]; simp add: checks IsTerminal_def)
    subgoal by (rule refusedI [of "''HIGH_VALUE_APPROVAL''"]; simp add: checks)
    subgoal by (rule refusedI [of "''LOW_CONFIDENCE_ESCALATION''"]; use low in \<open>simp add: checks\<close>)
    subgoal by (rule refusedI [of "''MAX_DISCOUNT''"]; simp add: checks)
    subgoal by simp
    done
qed

lemma safety_start:
  "list_all (\<lambda>tc. fst tc \<noteq> ''valid_control'' \<and> lb_claims (snd (snd tc (viable_context now, viable_lab))) = 0
     \<and> lb_calls (snd (snd tc (viable_context now, viable_lab))) = 0) (tl (safety_cases now))"
  by (simp add: safety_cases_def viable_lab_def)

lemma safety_refusal:
  assumes "refused zone (clock 0) (snd tc (viable_context now, viable_lab))" and "fst tc \<noteq> ''valid_control''"
    and "lb_claims (snd (snd tc (viable_context now, viable_lab))) = 0" "lb_calls (snd (snd tc (viable_context now, viable_lab))) = 0"
  shows "lr_Passed (safety_result now zone i clock tc)" "lr_ExternalCallCount (safety_result now zone i clock tc) = 0"
    "lr_SuppressionReason (safety_result now zone i clock tc) \<noteq> []" "lr_Error (safety_result now zone i clock tc) = []"
proof -
  obtain ctx s where x: "snd tc (viable_context now, viable_lab) = (ctx, s)" by (metis prod.exhaust)
  have f: "refused zone (clock 0) (ctx, s)" "lb_claims s = 0" using assms(1,3) x by simp_all
  obtain r e s' where l: "lab_run (Inr ctx) zone i clock s = ((r, e), s')" by (metis prod.exhaust)
  note run = refused_run [of zone clock ctx s i, OF f, unfolded l fst_conv snd_conv]
  show "lr_Passed (safety_result now zone i clock tc)" "lr_ExternalCallCount (safety_result now zone i clock tc) = 0"
    "lr_SuppressionReason (safety_result now zone i clock tc) \<noteq> []" "lr_Error (safety_result now zone i clock tc) = []"
    using run assms(2,4) x l by (simp_all add: safety_result_def)
qed

text \<open>The runs of the fault scenarios: a first one on a fresh repository and one after an effect.\<close>

abbreviation fault_lab :: "bool \<Rightarrow> bool \<Rightarrow> string \<Rightarrow> int \<Rightarrow> Lab" where
  "fault_lab completeFailure markFailure mode attempts \<equiv> viable_lab\<lparr>lb_completeFailure := completeFailure, lb_markFailure := markFailure,
     lb_mode := mode, lb_scheduled := (lb_scheduled viable_lab)\<lparr>sa_MaxAttempts := attempts\<rparr>\<rparr>"

lemma viable_lab_simps [simp]:
  "lb_claims viable_lab = 0" "lb_executing viable_lab = 0" "lb_completed viable_lab = 0" "lb_suppressed viable_lab = []"
  "lb_calls viable_lab = 0" "lb_effects viable_lab = 0" "lb_prior viable_lab = blank_result" "lb_mode viable_lab = []"
  "\<not> lb_completeFailure viable_lab" "\<not> lb_markFailure viable_lab" "sa_MaxAttempts (lb_scheduled viable_lab) = 3"
  by (simp_all add: viable_lab_def)

lemma permitted_run:
  assumes "soon now (clock 0)" and "lb_scheduled s = (lb_scheduled viable_lab)\<lparr>sa_MaxAttempts := m\<rparr>"
    and "lb_authorization s = lb_authorization viable_lab"
  shows "lab_run (Inr (viable_context now)) zone i clock s = lab_attempt i clock (viable_context now) (s\<lparr>lb_claims := lb_claims s + 1\<rparr>)"
proof -
  have "\<not> stale_or_recovered ((lb_scheduled s)\<lparr>sa_AttemptCount := n\<rparr>) (viable_context now)" for n
    using lab_permitted(2) [OF assms(1), of n] by (simp add: stale_or_recovered_def assms(2))
  then show ?thesis using lab_permitted(1) [OF assms(1)] by (simp add: lab_run_eq Let_def assms(3))
qed

lemma first_run:
  assumes "soon now (clock 0)"
  shows "lab_run (Inr (viable_context now)) zone i clock (fault_lab f m mode n) =
    (let s = (fault_lab f m mode n)\<lparr>lb_claims := 1\<rparr> in
     if m then ((None, Some (RunErr (ErrMsg ''injected crash before provider call''))), s)
     else (case injected_Execute (clock 2) (request_of i ((lb_scheduled s)\<lparr>sa_AttemptCount := 1\<rparr>) (viable_context now)) (s\<lparr>lb_executing := 1\<rparr>) of
       ((result, executeErr), s) \<Rightarrow>
         ((Some result, if lb_completeFailure s \<and> lb_completed s = 0
             then Some (RunErr (ErrMsg ''injected database failure after provider effect'')) else map_option ExecuteErr executeErr),
          s\<lparr>lb_completed := lb_completed s + 1\<rparr>)))"
proof -
  have "lab_ok ((fault_lab f m mode n)\<lparr>lb_claims := 1\<rparr>)" by (simp add: lab_ok_def)
  note new = lab_attempt_new [OF this]
  show ?thesis by (subst permitted_run [where clock = clock, OF assms]) (simp_all add: new Let_def)
qed

lemma second_run:
  assumes "soon now (clock 0)" and "lb_scheduled s = (lb_scheduled viable_lab)\<lparr>sa_MaxAttempts := m\<rparr>"
    and "lb_authorization s = lb_authorization viable_lab" and "lab_ok s" and "lb_effects s = 1" and "\<not> lb_markFailure s" and "lb_completed s = 1"
  shows "snd (fst (lab_run (Inr (viable_context now)) zone i clock s)) = None"
    "lb_effects (snd (lab_run (Inr (viable_context now)) zone i clock s)) = 1"
    "lb_calls (snd (lab_run (Inr (viable_context now)) zone i clock s)) = lb_calls s"
    "lb_completed (snd (lab_run (Inr (viable_context now)) zone i clock s)) = 2"
proof -
  let ?s = "s\<lparr>lb_claims := lb_claims s + 1\<rparr>"
  have ok: "lab_ok ?s" "lb_effects ?s = 1" "1 < lb_claims ?s" using assms(4,5) by (auto simp: lab_ok_def)
  have "reconciled_result [injected_executor (clock 2)] i ((lb_scheduled ?s)\<lparr>sa_AttemptCount := lb_claims ?s\<rparr>) ?s \<noteq> None"
    using ok by (simp add: reconciled_result_def injected_Reconcile_def lab_ok_def)
  then have "snd (fst (lab_attempt i clock (viable_context now) ?s)) = None"
    using assms(6,7) by (auto simp: lab_attempt_def worker_perform_def lab_repository_def Let_def)
  then show "snd (fst (lab_run (Inr (viable_context now)) zone i clock s)) = None"
    "lb_effects (snd (lab_run (Inr (viable_context now)) zone i clock s)) = 1"
    "lb_calls (snd (lab_run (Inr (viable_context now)) zone i clock s)) = lb_calls s"
    "lb_completed (snd (lab_run (Inr (viable_context now)) zone i clock s)) = 2"
    using lab_attempt_replay [OF ok, of i clock "viable_context now"] assms(5-7) by (simp_all add: permitted_run [where clock = clock, OF assms(1-3)])
qed

text \<open>The authorization suite passes. Whenever it is run, with a worker clock within half an hour of the
  suite's own, the control case reaches the provider once and each of the 22 restricted scenarios
  never does: the worker suppresses the action with a reason and reports no error.\<close>

theorem authorization_suite_passes:
  assumes "\<forall>i k. soon now (clock i k)" and "Minute < now" and "zone ''invalid/timezone'' = None"
  shows "length (RunAuthorizationSuite now zone fresh clock) = 23 \<and> list_all lr_Passed (RunAuthorizationSuite now zone fresh clock)
    \<and> map lr_ExternalCallCount (RunAuthorizationSuite now zone fresh clock) = 1 # replicate 22 0
    \<and> list_all (\<lambda>r. lr_SuppressionReason r \<noteq> [] \<and> lr_Error r = []) (tl (RunAuthorizationSuite now zone fresh clock))"
proof -
  let ?run = "\<lambda>i. safety_result now zone (fresh i) (clock i)"
  have l: "length (safety_cases now) = 23" by (simp add: safety_cases_def)
  then have c: "safety_cases now = hd (safety_cases now) # tl (safety_cases now)" by (cases "safety_cases now") auto
  have h: "hd (safety_cases now) = (''valid_control'', \<lambda>x. x)" by (simp add: safety_cases_def)
  have n: "length (tl (safety_cases now)) = 22" using l by simp
  have "[0..<23] = 0 # [1..<23]" by (simp add: upt_conv_Cons)
  then have suite: "RunAuthorizationSuite now zone fresh clock = ?run 0 (''valid_control'', \<lambda>x. x) # map2 ?run [1..<23] (tl (safety_cases now))"
    unfolding RunAuthorizationSuite_def l by (subst c) (simp add: h)
  have v: "fault_lab False False [] 3 = viable_lab" by (simp add: viable_lab_def)
  have t: "soon now (clock 0 0)" using assms(1) by blast
  note run = first_run [where now = now and clock = "clock 0" and f = False and m = False and mode = "[]" and n = 3, OF t, unfolded v]
  have first: "lr_Passed (?run 0 (''valid_control'', \<lambda>x. x)) \<and> lr_ExternalCallCount (?run 0 (''valid_control'', \<lambda>x. x)) = 1"
    by (simp add: safety_result_def run injected_Execute_def Let_def)
  have "list_all lr_Passed (map2 ?run ks tcs) \<and> map lr_ExternalCallCount (map2 ?run ks tcs) = replicate (length tcs) 0
      \<and> list_all (\<lambda>r. lr_SuppressionReason r \<noteq> [] \<and> lr_Error r = []) (map2 ?run ks tcs)"
    if "length ks = length tcs" "\<forall>tc \<in> set tcs. tc \<in> set (tl (safety_cases now))" for ks tcs
    using that
  proof (induction ks tcs rule: list_induct2)
    case (Cons k ks tc tcs)
    have "refused zone (clock k 0) (snd tc (viable_context now, viable_lab))"
      using safety_refused [of now "clock k 0" zone] assms Cons.prems by (simp add: list_all_iff)
    moreover have "fst tc \<noteq> ''valid_control''" "lb_claims (snd (snd tc (viable_context now, viable_lab))) = 0"
      "lb_calls (snd (snd tc (viable_context now, viable_lab))) = 0"
      using safety_start [of now] Cons.prems by (simp_all add: list_all_iff)
    ultimately show ?case using Cons safety_refusal [of zone "clock k" tc now "fresh k"] by simp
  qed simp
  from this [of "[1..<23]" "tl (safety_cases now)"] have rest: "list_all lr_Passed (map2 ?run [1..<23] (tl (safety_cases now)))
      \<and> map lr_ExternalCallCount (map2 ?run [1..<23] (tl (safety_cases now))) = replicate 22 0
      \<and> list_all (\<lambda>r. lr_SuppressionReason r \<noteq> [] \<and> lr_Error r = []) (map2 ?run [1..<23] (tl (safety_cases now)))"
    by (simp add: l)
  show ?thesis unfolding suite using first rest n by simp
qed

lemma refused_lab:
  assumes "rc_Version (Case ctx) \<noteq> 3 \<or> rc_CurrentState (Case ctx) = StateRecovered"
  shows "lab_run (Inr ctx) zone i clock viable_lab = ((None, None), viable_lab\<lparr>lb_claims := 1, lb_suppressed := ''STALE_OR_RECOVERED''\<rparr>)"
proof -
  have "stale_or_recovered ((lb_scheduled viable_lab)\<lparr>sa_AttemptCount := 1\<rparr>) ctx"
    using assms by (auto simp: stale_or_recovered_def viable_lab_def)
  then show ?thesis by (simp add: lab_run_eq Let_def)
qed

lemma broken_context: "lab_run (Inl e) zone i clock s = ((None, Some (RunErr e)), s\<lparr>lb_claims := lb_claims s + 1\<rparr>)"
  by (simp add: lab_run_eq Let_def)

lemma timeout_run:
  assumes "soon now (clock 0)"
  shows "snd (fst (lab_run (Inr (viable_context now)) zone i clock (fault_lab False False ''timeout_before_provider'' n))) \<noteq> None
    \<and> lb_effects (snd (lab_run (Inr (viable_context now)) zone i clock (fault_lab False False ''timeout_before_provider'' n))) = 0"
  by (subst (1 2) first_run [where clock = clock, OF assms]) (simp add: injected_Execute_def Let_def)

lemma crash_run:
  assumes "soon now (clock 0)"
  shows "snd (fst (lab_run (Inr (viable_context now)) zone i clock (fault_lab False True [] 3))) \<noteq> None
    \<and> lb_effects (snd (lab_run (Inr (viable_context now)) zone i clock (fault_lab False True [] 3))) = 0"
  by (subst (1 2) first_run [where clock = clock, OF assms]) (simp add: Let_def)

lemma effect_run:
  fixes zone :: zone_db and i :: ID and f :: bool
  assumes "soon now (clock 0)" and "mode \<noteq> ''timeout_before_provider''"
  defines "s \<equiv> snd (lab_run (Inr (viable_context now)) zone i clock (fault_lab f False mode 3))"
  shows "lb_effects s = 1 \<and> lb_calls s = 1 \<and> lb_completed s = 1 \<and> \<not> lb_markFailure s \<and> lab_ok s
    \<and> lb_scheduled s = (lb_scheduled viable_lab)\<lparr>sa_MaxAttempts := 3\<rparr> \<and> lb_authorization s = lb_authorization viable_lab"
    and "mode \<noteq> ''success_response_lost'' \<Longrightarrow> \<not> f \<Longrightarrow>
      snd (fst (lab_run (Inr (viable_context now)) zone i clock (fault_lab f False mode 3))) = None"
proof -
  note run = first_run [where now = now and clock = clock and f = f and m = False and mode = mode and n = 3, OF assms(1)]
  show "lb_effects s = 1 \<and> lb_calls s = 1 \<and> lb_completed s = 1 \<and> \<not> lb_markFailure s \<and> lab_ok s
    \<and> lb_scheduled s = (lb_scheduled viable_lab)\<lparr>sa_MaxAttempts := 3\<rparr> \<and> lb_authorization s = lb_authorization viable_lab"
    unfolding s_def run using assms(2) by (simp add: injected_Execute_def Let_def lab_ok_def request_of_def)
  show "mode \<noteq> ''success_response_lost'' \<Longrightarrow> \<not> f \<Longrightarrow>
      snd (fst (lab_run (Inr (viable_context now)) zone i clock (fault_lab f False mode 3))) = None"
    unfolding run using assms(2) by (simp add: injected_Execute_def Let_def)
qed

lemma effect_twice:
  fixes zone :: zone_db and i j :: ID and f :: bool
  assumes "soon now (clock 0)" and "soon now (clock' 0)" and "mode \<noteq> ''timeout_before_provider''"
  defines "r \<equiv> lab_run (Inr (viable_context now)) zone j clock' (snd (lab_run (Inr (viable_context now)) zone i clock (fault_lab f False mode 3)))"
  shows "snd (fst r) = None \<and> lb_effects (snd r) = 1 \<and> lb_calls (snd r) = 1 \<and> lb_completed (snd r) = 2"
proof -
  note one = effect_run(1) [where now = now and clock = clock and mode = mode and f = f and zone = zone and i = i, OF assms(1,3)]
  show ?thesis unfolding r_def using one second_run [where clock = clock' and now = now and m = 3, OF assms(2)] by metis
qed

lemma fault_states:
  "fault_lab False False [] 3 = viable_lab" "fault_lab False False mode 3 = viable_lab\<lparr>lb_mode := mode\<rparr>"
  "fault_lab True False [] 3 = viable_lab\<lparr>lb_completeFailure := True\<rparr>" "fault_lab False True [] 3 = viable_lab\<lparr>lb_markFailure := True\<rparr>"
  "fault_lab False False mode 1 = viable_lab\<lparr>lb_scheduled := (lb_scheduled viable_lab)\<lparr>sa_MaxAttempts := 1\<rparr>, lb_mode := mode\<rparr>"
  by (simp_all add: viable_lab_def)

text \<open>The fault modes the laboratory knows, and those that only record what other tests show.\<close>

definition worker_faults :: "string list" where
  "worker_faults = [''decision_service_timeout'', ''invalid_model_output'', ''redis_unavailable'', ''stale_case_version'',
     ''stale_scheduled_action'', ''stale_nba_decision'', ''customer_pays_before_scheduled_action'', ''provider_timeout'',
     ''network_timeout_before_provider_execution'', ''razorpay_timeout'', ''provider_success_response_lost'',
     ''network_timeout_after_provider_succeeds'', ''database_failure_after_provider'', ''worker_crash_after_external_effect'',
     ''worker_crash'', ''duplicate_worker_invocation'', ''duplicate_scheduled_job'', ''duplicate_job'', ''api_retry'', ''worker_restart'',
     ''lease_expiration'', ''expired_worker_lease'', ''concurrent_workers'', ''crash_before_provider'',
     ''worker_crash_before_external_effect'', ''duplicate_webhook'', ''retry_exhaustion'']"

definition recorded_faults :: "string list" where
  "recorded_faults = [''invalid_webhook_signature'', ''duplicate_customer_response'', ''out_of_order_webhook'', ''out_of_order_event'',
     ''delayed_webhook'', ''late_payment_event'']"

lemma worker_fault_passes:
  assumes "\<forall>i k. soon now (clock i k)" and "name \<in> set worker_faults"
  shows "lr_Passed (RunFaultScenario now zone fresh clock name)"
proof -
  have t: "soon now (clock i k)" for i k using assms(1) by blast
  let ?c = "viable_context now"
  have v: "rc_Version (Case ?c) = 3" by (simp add: viable_defs)
  note timeout = timeout_run [where clock = "clock 0" and now = now and zone = zone and i = "fresh 0" and n = 3, OF t, unfolded fault_states]
    timeout_run [where clock = "clock 0" and now = now and zone = zone and i = "fresh 0" and n = 1, OF t, unfolded fault_states]
  note crash = crash_run [where clock = "clock 0" and now = now and zone = zone and i = "fresh 0", OF t, unfolded fault_states]
  note lost = effect_twice [where clock = "clock 0" and clock' = "clock 1" and now = now and zone = zone and i = "fresh 0" and j = "fresh 1"
      and mode = "''success_response_lost''" and f = False, OF t t, unfolded fault_states One_nat_def]
  note failing = effect_twice [where clock = "clock 0" and clock' = "clock 1" and now = now and zone = zone and i = "fresh 0" and j = "fresh 1"
      and mode = "[]" and f = True, OF t t, unfolded fault_states One_nat_def]
  note twice = effect_twice [where clock = "clock 0" and clock' = "clock 1" and now = now and zone = zone and i = "fresh 0" and j = "fresh 1"
      and mode = "[]" and f = False, OF t t, unfolded fault_states One_nat_def]
  note once = effect_run [where clock = "clock 0" and now = now and zone = zone and i = "fresh 0" and mode = "[]" and f = False, OF t, unfolded fault_states]
  from assms(2) show ?thesis
    unfolding worker_faults_def set_simps
    by (elim insertE emptyE; simp only:; simp add: RunFaultScenario_def lab_finish_def Let_def case_prod_beta refused_lab broken_context v
        timeout crash lost failing twice once del: not_None_eq)
qed

section \<open>The reports\<close>

text \<open>What \<open>cmd/evaluation\<close> counts: the restricted scenarios, those without a call and the calls; the passed
  results and the duplicate effects.\<close>

definition safety_summary :: "LabResult list \<Rightarrow> int \<times> int \<times> int" where
  "safety_summary rs = foldl (\<lambda>(restricted, blocked, unsafe) r. if lr_Scenario r = ''valid_control'' then (restricted, blocked, unsafe)
     else (restricted + 1, if lr_ExternalCallCount r = 0 then blocked + 1 else blocked, unsafe + lr_ExternalCallCount r)) (0, 0, 0) rs"

definition countPassed :: "LabResult list \<Rightarrow> int" where
  "countPassed rs = foldl (\<lambda>n r. if lr_Passed r then n + 1 else n) 0 rs"

definition duplicate_effects :: "LabResult list \<Rightarrow> int" where
  "duplicate_effects rs = foldl (\<lambda>n r. if 1 < lr_ProviderEffectCount r then n + (lr_ProviderEffectCount r - 1) else n) 0 rs"

text \<open>The row of a run and its two operations. The check constraint of the suite is migration 000008; the
  moment of completion is not stored.\<close>

record ResilienceRun =
  rs_ID :: string
  rs_Environment :: string
  rs_Result :: LabResult
  rs_StartedAt :: time
  rs_CompletedAt :: time

definition SaveResilienceRun :: "ResilienceRun \<Rightarrow> ResilienceRun list \<Rightarrow> (error, ResilienceRun list) result" where
  "SaveResilienceRun run rows =
     (if lookup rs_ID (rs_ID run) rows \<noteq> None then Inl (ErrConstraint ''resilience_evaluation_runs_pkey'')
      else if lr_Suite (rs_Result run) \<notin> {''AUTHORIZATION_SAFETY'', ''FAULT_RECONCILIATION'', ''INTERACTIVE''}
        \<or> lr_ProviderEffectCount (rs_Result run) < 0 \<or> lr_ExecutionAttemptCount (rs_Result run) < 0 then Inl (ErrConstraint ''resilience_evaluation_runs_check'')
      else Inr (rows @ [run]))"

definition GetResilienceRun :: "string \<Rightarrow> ResilienceRun list \<Rightarrow> (error, ResilienceRun) result" where
  "GetResilienceRun i rows = (case lookup rs_ID i rows of None \<Rightarrow> Inl ErrNotFound
     | Some run \<Rightarrow> Inr (run\<lparr>rs_CompletedAt := rs_StartedAt run\<rparr>))"

text \<open>The endpoint that runs one scenario, with its status code; \<open>Inl\<close> carries an error of the store.\<close>

definition laboratory_enabled :: "string \<Rightarrow> bool" where
  "laboratory_enabled environment \<longleftrightarrow> environment \<in> {''development'', ''demo'', ''test''}"

datatype LabAnswer = LabProblem int | LabStoreError error | LabCreated ResilienceRun

definition resilience_run :: "string \<Rightarrow> time \<Rightarrow> zone_db \<Rightarrow> (nat \<Rightarrow> ID) \<Rightarrow> (nat \<Rightarrow> nat \<Rightarrow> time) \<Rightarrow> ID \<Rightarrow> time \<Rightarrow> time \<Rightarrow> string
    \<Rightarrow> ResilienceRun list \<Rightarrow> LabAnswer \<times> ResilienceRun list" where
  "resilience_run environment now zone fresh clock uid started completed param rows =
     (if \<not> laboratory_enabled environment then (LabProblem 404, rows)
      else
        (let r = RunFaultScenario now zone fresh clock (lower (TrimSpace param)) in
         if lr_Error r = ''unknown fault mode'' then (LabProblem 400, rows)
         else
           (let run = \<lparr>rs_ID = uid, rs_Environment = environment, rs_Result = r, rs_StartedAt = started, rs_CompletedAt = completed\<rparr> in
            case SaveResilienceRun run rows of Inl e \<Rightarrow> (LabStoreError e, rows) | Inr rows \<Rightarrow> (LabCreated run, rows))))"

definition resilience_get :: "string \<Rightarrow> string \<Rightarrow> ResilienceRun list \<Rightarrow> LabAnswer + ResilienceRun" where
  "resilience_get environment i rows =
     (if \<not> laboratory_enabled environment then Inl (LabProblem 404)
      else (case GetResilienceRun i rows of Inl e \<Rightarrow> Inl (LabStoreError e) | Inr run \<Rightarrow> Inr run))"

lemma fault_effects: "lr_ProviderEffectCount (RunFaultScenario now zone fresh clock name) \<le> 1"
proof -
  have le: "lab_ok s \<Longrightarrow> lb_effects s \<le> 1" for s by (auto simp: lab_ok_def)
  have ok: "lab_ok viable_lab" "lab_ok (viable_lab\<lparr>lb_mode := m\<rparr>)" "lab_ok (viable_lab\<lparr>lb_completeFailure := True\<rparr>)"
    "lab_ok (viable_lab\<lparr>lb_markFailure := True\<rparr>)" "lab_ok (viable_lab\<lparr>lb_scheduled := a, lb_mode := m\<rparr>)" for m a
    by (simp_all add: lab_ok_def)
  have run: "lab_ok s \<Longrightarrow> lab_ok (snd (lab_run c zone i k s))" for c i k s by (simp add: lab_run_ok)
  show ?thesis
    unfolding RunFaultScenario_def lab_finish_def Let_def case_prod_beta
    by (simp only: if_distrib [of "\<lambda>x. snd x"] if_distrib [of "\<lambda>x. fst x"] if_distrib [of lb_effects] prod.sel)
      (simp add: le ok run)
qed

lemma recorded_fault_passes:
  assumes "name \<in> set recorded_faults"
  shows "lr_Passed (RunFaultScenario now zone fresh clock name) \<and> lr_Claims (RunFaultScenario now zone fresh clock name) = 0
    \<and> lr_ExternalCallCount (RunFaultScenario now zone fresh clock name) = 0"
  using assms unfolding recorded_faults_def set_simps
  by (elim insertE emptyE; simp only:; simp add: RunFaultScenario_def lab_finish_def Let_def)

lemma unknown_fault:
  assumes "name \<notin> set worker_faults" and "name \<notin> set recorded_faults"
  shows "\<not> lr_Passed (RunFaultScenario now zone fresh clock name) \<and> lr_Error (RunFaultScenario now zone fresh clock name) = ''unknown fault mode''"
  using assms by (simp add: worker_faults_def recorded_faults_def RunFaultScenario_def lab_finish_def Let_def)

lemma known_fault:
  assumes "name \<in> set worker_faults \<or> name \<in> set recorded_faults"
  shows "lr_Error (RunFaultScenario now zone fresh clock name) = []"
  using assms unfolding worker_faults_def recorded_faults_def set_simps
  by (elim disjE insertE emptyE; simp only:; simp add: RunFaultScenario_def lab_finish_def Let_def case_prod_beta blank_lab_result_def)

lemma countPassed_filter: "countPassed rs = int (length (filter lr_Passed rs))"
proof -
  have "foldl (\<lambda>n r. if lr_Passed r then n + 1 else n) (n :: int) rs = n + int (length (filter lr_Passed rs))" for n
    by (induction rs arbitrary: n) simp_all
  then show ?thesis by (simp add: countPassed_def)
qed

lemma no_duplicates: "(\<forall>r \<in> set rs. lr_ProviderEffectCount r \<le> 1) \<Longrightarrow> duplicate_effects rs = 0"
proof -
  assume "\<forall>r \<in> set rs. lr_ProviderEffectCount r \<le> 1"
  then have "foldl (\<lambda>n r. if 1 < lr_ProviderEffectCount r then n + (lr_ProviderEffectCount r - 1) else n) n rs = n" for n
    by (induction rs) auto
  then show ?thesis by (simp add: duplicate_effects_def)
qed

lemma safety_summary_eq:
  "safety_summary rs = (let restricted = filter (\<lambda>r. lr_Scenario r \<noteq> ''valid_control'') rs in
     (int (length restricted), int (length (filter (\<lambda>r. lr_ExternalCallCount r = 0) restricted)), sum_list (map lr_ExternalCallCount restricted)))"
proof -
  have "foldl (\<lambda>(restricted, blocked, unsafe) r. if lr_Scenario r = ''valid_control'' then (restricted, blocked, unsafe)
     else (restricted + 1, if lr_ExternalCallCount r = 0 then blocked + 1 else blocked, unsafe + lr_ExternalCallCount r)) (a, b, c) rs
    = (let restricted = filter (\<lambda>r. lr_Scenario r \<noteq> ''valid_control'') rs in
        (a + int (length restricted), b + int (length (filter (\<lambda>r. lr_ExternalCallCount r = 0) restricted)),
         c + sum_list (map lr_ExternalCallCount restricted)))" for a b c
    by (induction rs arbitrary: a b c) (simp_all add: Let_def)
  then show ?thesis by (simp add: safety_summary_def)
qed



theorem at_most_one_effect_witness:
  "lb_effects (lab_runs (\<lambda>_. None) (viable_lab\<lparr>lb_mode := ''success_response_lost''\<rparr>)
     (replicate 3 (Inr (viable_context (48 * Hour)), ''one'', \<lambda>_. 48 * Hour))) \<le> 1"
  using at_most_one_effect [of "viable_lab\<lparr>lb_mode := ''success_response_lost''\<rparr>" "\<lambda>_. None"
      "replicate 3 (Inr (viable_context (48 * Hour)), ''one'', \<lambda>_. 48 * Hour)"] by simp

theorem authorization_suite_passes_witness:
  "map lr_ExternalCallCount (RunAuthorizationSuite (48 * Hour) (\<lambda>_. None) (\<lambda>_. ''one'') (\<lambda>_ _. 48 * Hour + Minute)) = 1 # replicate 22 0"
  using authorization_suite_passes [of "48 * Hour" "\<lambda>_ _. 48 * Hour + Minute" "\<lambda>_. None" "\<lambda>_. ''one''"]
  by (simp add: Minute_def Hour_def)

text \<open>A stored run is read back. A scenario started through the endpoint is stored once under its id, and
  reading that id gives the environment, the result and the start that were reported; the moment
  of completion is not stored and reads as the moment of the start. Outside development, demo and
  test nothing is run, stored or read, and an unknown scenario leaves no row.\<close>

theorem laboratory_run_is_kept:
  "(case resilience_run environment now zone fresh clock uid started completed param rows of
      (LabCreated run, rows') \<Rightarrow> rows' = rows @ [run] \<and> laboratory_enabled environment
        \<and> rs_Result run = RunFaultScenario now zone fresh clock (lower (TrimSpace param))
        \<and> resilience_get environment uid rows' = Inr (run\<lparr>rs_CompletedAt := started\<rparr>)
    | (_, rows') \<Rightarrow> rows' = rows)
   \<and> (\<not> laboratory_enabled environment \<longrightarrow> resilience_get environment i rows = Inl (LabProblem 404))
   \<and> (lower (TrimSpace param) \<notin> set worker_faults \<union> set recorded_faults \<longrightarrow>
        snd (resilience_run environment now zone fresh clock uid started completed param rows) = rows)"
proof (intro conjI impI)
  show "case resilience_run environment now zone fresh clock uid started completed param rows of
      (LabCreated run, rows') \<Rightarrow> rows' = rows @ [run] \<and> laboratory_enabled environment
        \<and> rs_Result run = RunFaultScenario now zone fresh clock (lower (TrimSpace param))
        \<and> resilience_get environment uid rows' = Inr (run\<lparr>rs_CompletedAt := started\<rparr>)
    | (_, rows') \<Rightarrow> rows' = rows"
    by (simp add: resilience_run_def SaveResilienceRun_def resilience_get_def GetResilienceRun_def Let_def lookup_append lookup_Cons)
  show "resilience_get environment i rows = Inl (LabProblem 404)" if "\<not> laboratory_enabled environment"
    using that by (simp add: resilience_get_def)
  show "snd (resilience_run environment now zone fresh clock uid started completed param rows) = rows"
    if "lower (TrimSpace param) \<notin> set worker_faults \<union> set recorded_faults"
    using that unknown_fault [of "lower (TrimSpace param)"] by (simp add: resilience_run_def)
qed

end
