(* ===== verification/Spec2Isabelle.thy ===== *)
theory Spec2Isabelle
  imports Reports Resilience
begin

text \<open>
  A verification library of the Go backend (\<open>src/backend\<close>) that recovers failed and abandoned
  payments.

  \<^bold>\<open>The program.\<close> A leak of revenue (a failed subscription payment, an abandoned checkout) is
  detected from a provider's event, by \<open>internal/detection\<close> or the Razorpay webhook, and becomes a
  recovery case of \<open>internal/recovery\<close>. A decision on a case (\<open>internal/decisioning\<close>,
  \<open>internal/orchestrator\<close>) builds a context snapshot, filters the eligible actions, asks a separate
  service for probabilities, ranks the actions by their net expected recovery value, passes the
  economic gate and the policy engine, and is stored with a scheduled action if the policy approves.
  A worker (\<open>cmd/worker\<close>) claims due actions under a lease, evaluates the policy again and executes
  them through an e-mail outbox, a retry outbox or a payment provider; it also claims due
  observations, which put a case back to a decision, and due promises to pay. Customers' responses,
  promises, human reviews and observed payments act on the same cases; a payment attributed to a
  case ends it. Priorities and budgets are planned over a merchant's open cases. All state is in
  one PostgreSQL database behind \<open>internal/store\<close>; the API and any number of workers meet there
  only.
\<close>

text \<open>
  \<^bold>\<open>How the model follows the code.\<close> A Go struct is a record whose fields carry a prefix of the
  record's name; a string enumeration is a datatype with one constructor for each constant and one
  for any other string; a nil pointer or a SQL NULL is \<open>None\<close>; an error is a value of \<open>error\<close> on the
  left of a result. A table is a list of rows in insertion order (\<open>Store_State\<close>). A transaction of
  the store is a function from the database to \<open>Inl\<close> of an error, the rollback, or \<open>Inr\<close> of a
  result and the new database, the commit. An operation that commits in several steps returns its
  result together with the state it leaves, also when it fails: what has been committed stays.
  Definitions have the names of the functions they translate; where two packages use one name, the
  package is a prefix or a suffix (\<open>policy_Evaluate\<close>, \<open>email_Execute\<close>).

  Integers are mathematical ones whose sums and products go through \<open>i64\<close>, the wrap-around of 64
  bits, wherever the code computes them; every \<open>float64\<close> is the rational number it denotes, and
  every operation on it is followed by \<open>fl\<close>, the rounding to binary64. Instants are nanoseconds
  since the zero time of package \<open>time\<close>. Loops over slices and rows are structural recursion. Two
  loops have no bound of their own and take fuel: \<open>until_error\<close> (\<open>Lifecycle\<close>) and \<open>drain\<close> (\<open>Lease\<close>)
  repeat a claim, and fuel for one claim more than there are due rows is shown to be enough.

  What is not in this repository's Go code is a parameter: generated ids (\<open>fresh\<close>), the clock
  (\<open>clock\<close>, \<open>now\<close>), the prediction service, the payment provider and the transport of HTTP requests
  (functions on a state of their own), the time zone database (an offset for an instant), the JSON
  parser on a webhook's bytes, \<open>fmt.Sprint\<close> of a value that is no string, and HMAC-SHA256. No
  property assumes more of them than it says; most hold whatever they do.
\<close>

text \<open>
  \<^bold>\<open>Foundations.\<close>

  \<^item> \<open>Prelude\<close>: 64-bit arithmetic, truncated division, instants, results and the sorts of package
    \<open>sort\<close>, with the locales \<open>weak_order\<close> and \<open>strict_order\<close>: a sort by a comparison is a sorted
    permutation, and by a strict order the only one. Every ranking and queue below interprets them.
  \<^item> \<open>Float64\<close>, \<open>Json\<close>, \<open>Time_Text\<close>: rounding keeps signs and integral bounds; decoded JSON; the text of
    a time is read back as the same instant for the years 0 to 9999.
  \<^item> \<open>Domain\<close>, \<open>Entities\<close>: \<open>internal/domain\<close>. The transition table of the case life cycle, the
    records, the event vocabulary. The lemmas tell which states end a case and which are human.

  \<^bold>\<open>The decision.\<close>

  \<^item> \<open>Decision_Context\<close>, \<open>Context_Store\<close>: \<open>internal/context\<close> and the rows it reads
    (\<open>store/context.go\<close>); diagnosis, counts of contacts and retries, hidden features.
  \<^item> \<open>Eligibility\<close>: \<open>internal/eligibility\<close>, one branch per exclusion in the source's order (C14).
  \<^item> \<open>Optimizer\<close>: \<open>internal/optimizer\<close>. Scores in minor units with the code's rounding and
    wrap-around; the order in which a Go map is visited does not matter (C6).
  \<^item> \<open>Economic_Gate\<close>, \<open>Policy\<close>: \<open>internal/economicgate\<close>, \<open>internal/policy\<close>, check by check (C1).
  \<^item> \<open>Decisioning\<close>: \<open>internal/decisioning\<close>, their composition over a predictor.
  \<^item> \<open>Predictions\<close>: \<open>internal/intelligence\<close>, \<open>internal/decisionclient\<close>, \<open>store/predictions.go\<close> (C8).
  \<^item> \<open>Portfolio\<close>, \<open>Budget\<close>, \<open>Planning\<close>: \<open>internal/portfolio\<close>, \<open>internal/budget\<close> and the runs they
    store (\<open>store/portfolio.go\<close>) (C4, C5, C7). The rows of a plan stand beside the database, which
    planning only reads.
\<close>

text \<open>
  \<^bold>\<open>The store and the worker.\<close>

  \<^item> \<open>Store_State\<close>: the tables, the numbering of a case's events, the version check of an update, and
    the invariant \<open>well_formed\<close>. \<open>Evolution\<close>: \<open>evolves\<close>, how a transaction may change the cases, with
    one lemma for each thing a transaction does; the operations' lemmas are built from these.
  \<^item> \<open>Recovery\<close>: \<open>internal/recovery\<close>, \<open>store/postgres.go\<close>; the locale \<open>case_repository\<close> states what the
    service relies on (C13).
  \<^item> \<open>Decision_Store\<close>: \<open>store/decisions.go\<close>, \<open>store/decision_workflow.go\<close> and the scheduling. The
    abstract outcome of a decision and its refinement (C3).
  \<^item> \<open>Lease\<close>: the locale \<open>lease_queue\<close> over a readiness test and a grant (a claim takes the earliest
    ready row, nobody else gets it while the lease lasts, draining ends), interpreted for due
    actions and observations (\<open>Workflow_Store\<close>) and due promises (\<open>Promise_Store\<close>).
  \<^item> \<open>Workflow_Store\<close>: \<open>store/workflow.go\<close>, every transaction of the worker (C38, C40).
  \<^item> \<open>Executor\<close>: \<open>internal/executor\<close> and the payment link executor; the locale
    \<open>idempotent_executor\<close>, interpreted for each executor and for the registry (C15).
  \<^item> \<open>Razorpay_Client\<close>: \<open>internal/integrations/razorpay/client.go\<close> over its transport (C31).
  \<^item> \<open>Orchestrator\<close>: \<open>internal/orchestrator\<close>, decisions and the two runs of the worker (C16).
  \<^item> \<open>Resilience\<close>: \<open>internal/resilience\<close> and \<open>store/resilience.go\<close>. The worker over its interfaces, which
    is \<open>RunOnce\<close> on the store (C18), and the laboratory's repository and executor in memory: both
    suites, every fault (C17, C30).

  \<^bold>\<open>What acts on cases.\<close>

  \<^item> \<open>Promise_Text\<close>, \<open>Promise_Store\<close>, \<open>Promises\<close>: \<open>internal/promises\<close>, \<open>store/promises.go\<close>; the text of a
    promise (C35), the ledger as a transition system (C20), its due check (C21), the service (C34).
  \<^item> \<open>Attribution_Store\<close>: \<open>internal/attribution\<close>, \<open>store/attribution.go\<close> (C23, C36).
  \<^item> \<open>Responses\<close>: \<open>internal/responses\<close>, \<open>store/responses.go\<close> (C33).
  \<^item> \<open>Operations\<close>: \<open>internal/operations\<close>, \<open>store/operations.go\<close>; the queue and the review (C22, C39).
  \<^item> \<open>Detection\<close>, \<open>Webhook\<close>: \<open>internal/detection\<close>, \<open>internal/integrations/razorpay/webhook.go\<close> and
    \<open>store/integrations.go\<close> (C24, C26 to C29).
  \<^item> \<open>Merchant_Profiles\<close>, \<open>Model_Registry\<close>: \<open>internal/merchantprofile\<close>, \<open>internal/modelregistry\<close> and
    their tables; the registry is a transition system of its own (C32).

  \<^bold>\<open>The whole.\<close>

  \<^item> \<open>Lifecycle\<close>: every transaction of the API and the worker as a step on the shared database, and
    the databases reachable by them in any interleaving. A client's transition reads in one step
    and writes in a later one. Reachable databases are well formed and their money agrees (C2), cases
    evolve (C12), transitions serialize (C9), a worker's tick stays within the steps (C10), claims
    end (C37).
  \<^item> \<open>Demo_Scenarios\<close>, \<open>Api\<close>: \<open>internal/api\<close>. The handlers with the status and the code they answer,
    and that no request leaves the reachable databases (C11, C25).
  \<^item> \<open>Reports\<close>: \<open>internal/reporting\<close>, \<open>internal/observability\<close>, \<open>store/dashboard.go\<close>,
    \<open>store/observability.go\<close>: the dashboard, whose queries may each see another reachable state, and
    the operational snapshot with its alerts (C19).
\<close>

text \<open>
  \<^bold>\<open>What is not modelled.\<close>

  \<^item> The metrics and replays (\<open>internal/metrics\<close>, \<open>internal/replay\<close>, \<open>store/replay.go\<close>,
    \<open>GetWorkflow\<close>, \<open>OperationsMetrics\<close>) and the endpoints that list rows: counters and the JSON of
    rows that nothing reads back.
  \<^item> Ids, logging, correlation ids and the environment (\<open>internal/id\<close>, \<open>internal/logging\<close>,
    \<open>internal/correlation\<close>, \<open>internal/config\<close>), the construction of the services in \<open>cmd/api\<close> and
    \<open>cmd/worker\<close>, health checks, and \<open>cmd/razorpay-check\<close>: input, output and wiring.
  \<^item> The JSON of answers and report files, and the binding of request bodies, which is the web
    framework's: a body that does not bind is \<open>None\<close>.
  \<^item> The failure of the database itself. A statement that fails rolls its transaction back, so the
    state is that of the transactions before it, and each of these is a step of \<open>Lifecycle\<close> by itself.
    Transactions are serial: the rows a transaction changes are locked, or its update
    checks the version. Two concurrent activations in the model registry are outside the model.
  \<^item> Infinities and NaN, and letters outside ASCII in \<open>strings.ToLower\<close> and its like.
\<close>

end
